(* ===== verification/KitaPrelude.thy ===== *)
theory KitaPrelude
  imports Main "HOL-Library.Char_ord" "HOL-Library.List_Lexorder"
begin

text \<open>
  Vocabulary shared by every component: the result type of fallible Go code and its
  sequencing, signed 64-bit integer arithmetic, the parts of \<open>strings\<close>, \<open>strconv\<close> and
  \<open>slices\<close> the sources call, and generic lemmas on lists and options.
\<close>

named_theorems result_simps
named_theorems go_defs

section \<open>Results\<close>

text \<open>
  A Go function returning \<open>(T, error)\<close> returns either a nil error and the value, or the
  error: \<open>Inr\<close> and \<open>Inl\<close>. \<open>bindE\<close> is the \<open>if err != nil { return err }\<close> idiom,
  \<open>ensureE\<close> an early return under a condition that must hold to go on.
\<close>

definition bindE :: "'e + 'a \<Rightarrow> ('a \<Rightarrow> 'e + 'b) \<Rightarrow> 'e + 'b" where
  "bindE m f = (case m of Inl e \<Rightarrow> Inl e | Inr x \<Rightarrow> f x)"

definition ensureE :: "bool \<Rightarrow> 'e \<Rightarrow> 'e + unit" where
  "ensureE c e = (if c then Inr () else Inl e)"

lemma bindE_Inl [simp, result_simps]: "bindE (Inl e) f = Inl e"
  by (simp add: bindE_def)

lemma bindE_Inr [simp, result_simps]: "bindE (Inr x) f = f x"
  by (simp add: bindE_def)

lemma bindE_eq_Inr [result_simps]: "bindE m f = Inr y \<longleftrightarrow> (\<exists>x. m = Inr x \<and> f x = Inr y)"
  by (cases m) simp_all

lemma bindE_eq_Inl [result_simps]:
  "bindE m f = Inl e \<longleftrightarrow> m = Inl e \<or> (\<exists>x. m = Inr x \<and> f x = Inl e)"
  by (cases m) simp_all

lemma case_error_eq_Inr [result_simps]:
  "(case m of Inl e \<Rightarrow> Inl (f e) | Inr x \<Rightarrow> Inr x) = Inr y \<longleftrightarrow> m = Inr y"
  by (cases m) simp_all

lemma ensureE_True [simp]: "c \<Longrightarrow> ensureE c e = Inr ()"
  by (simp add: ensureE_def)

lemma ensureE_False [simp]: "\<not> c \<Longrightarrow> ensureE c e = Inl e"
  by (simp add: ensureE_def)

lemma ensureE_eq_Inr [result_simps]: "ensureE c e = Inr u \<longleftrightarrow> c"
  by (simp add: ensureE_def)

lemma ensureE_eq_Inl [result_simps]: "ensureE c e = Inl e' \<longleftrightarrow> \<not> c \<and> e' = e"
  by (auto simp add: ensureE_def)

section \<open>Signed 64-bit integers\<close>

text \<open>
  Go's \<open>int\<close> and \<open>int64\<close> are 64 bits wide here and wrap around. A value is kept as the
  mathematical integer it denotes and every sum or product is brought back into range.
\<close>

definition s64 :: "int \<Rightarrow> int" where
  "s64 x = (x + 2 ^ 63) mod 2 ^ 64 - 2 ^ 63"

definition min_int :: int where "min_int = - (2 ^ 63)"
definition max_int :: int where "max_int = 2 ^ 63 - 1"

definition in_s64 :: "int \<Rightarrow> bool" where
  "in_s64 x \<longleftrightarrow> min_int \<le> x \<and> x \<le> max_int"

lemma s64_in_range: "in_s64 (s64 x)"
proof -
  have "0 \<le> (x + 2 ^ 63) mod 2 ^ 64" and "(x + 2 ^ 63) mod 2 ^ 64 < (2::int) ^ 64"
    by simp_all
  then show ?thesis by (simp add: in_s64_def s64_def min_int_def max_int_def)
qed

lemma s64_id: "in_s64 x \<Longrightarrow> s64 x = x"
proof -
  assume "in_s64 x"
  then have "0 \<le> x + 2 ^ 63" and "x + 2 ^ 63 < 2 ^ 64"
    by (simp_all add: in_s64_def min_int_def max_int_def)
  then show ?thesis by (simp add: s64_def)
qed

lemma s64_idem [simp]: "s64 (s64 x) = s64 x"
  by (rule s64_id) (rule s64_in_range)

lemma s64_mod: "s64 x mod 2 ^ 64 = x mod 2 ^ 64"
proof -
  have "s64 x mod 2 ^ 64 = ((x + 2 ^ 63) mod 2 ^ 64 - 2 ^ 63) mod 2 ^ 64"
    by (simp only: s64_def)
  also have "\<dots> = (x + 2 ^ 63 - 2 ^ 63) mod 2 ^ 64"
    by (simp only: mod_diff_left_eq)
  finally show ?thesis by simp
qed

lemma s64_cong: "x mod 2 ^ 64 = y mod 2 ^ 64 \<Longrightarrow> s64 x = s64 y"
proof -
  assume "x mod 2 ^ 64 = y mod 2 ^ 64"
  then have "(x + 2 ^ 63) mod 2 ^ 64 = (y + 2 ^ 63) mod (2::int) ^ 64"
    by (metis mod_add_left_eq)
  then show ?thesis by (simp only: s64_def)
qed

lemma s64_add_left [simp]: "s64 (s64 x + y) = s64 (x + y)"
  by (rule s64_cong) (metis mod_add_left_eq s64_mod)

lemma s64_add_right [simp]: "s64 (x + s64 y) = s64 (x + y)"
  by (metis add.commute s64_add_left)

lemma s64_diff_left [simp]: "s64 (s64 x - y) = s64 (x - y)"
  by (rule s64_cong) (metis mod_diff_left_eq s64_mod)

lemma s64_diff_right [simp]: "s64 (x - s64 y) = s64 (x - y)"
  by (rule s64_cong) (metis mod_diff_right_eq s64_mod)

lemma s64_mult_left [simp]: "s64 (s64 x * y) = s64 (x * y)"
  by (rule s64_cong) (metis mod_mult_left_eq s64_mod)

lemma s64_Suc_neq: "s64 (x + 1) \<noteq> s64 x"
proof
  assume "s64 (x + 1) = s64 x"
  then have "(x + 1) mod 2 ^ 64 = x mod (2::int) ^ 64" by (metis s64_mod)
  then have "(2::int) ^ 64 dvd 1" by (simp add: mod_eq_dvd_iff)
  then show False by simp
qed

text \<open>A running sum as the code accumulates it, wrapping at every step.\<close>

definition sum64 :: "int list \<Rightarrow> int" where
  "sum64 xs = foldl (\<lambda>acc x. s64 (acc + x)) 0 xs"

lemma foldl_s64: "foldl (\<lambda>acc x. s64 (acc + x)) (s64 a) xs = s64 (a + sum_list xs)"
  by (induction xs arbitrary: a) (simp_all add: add.assoc)

lemma s64_0 [simp]: "s64 0 = 0"
  by (rule s64_id) (simp add: in_s64_def min_int_def max_int_def)

lemma sum64_eq: "sum64 xs = s64 (sum_list xs)"
  using foldl_s64 [of 0 xs] by (simp add: sum64_def)


section \<open>Strings\<close>

text \<open>
  Strings are byte sequences. \<open>space_seqs\<close> lists the UTF-8 encodings of the code points
  \<open>unicode.IsSpace\<close> accepts; \<open>trim_space\<close> is \<open>strings.TrimSpace\<close>.
\<close>

definition byte :: "nat \<Rightarrow> char" where
  "byte n = char_of n"

definition em_dash :: string where
  "em_dash = map byte [226, 128, 148]"

definition space_seqs :: "string list" where
  "space_seqs =
     map (map byte)
       [[9], [10], [11], [12], [13], [32], [194, 133], [194, 160], [225, 154, 128],
        [226, 128, 128], [226, 128, 129], [226, 128, 130], [226, 128, 131], [226, 128, 132],
        [226, 128, 133], [226, 128, 134], [226, 128, 135], [226, 128, 136], [226, 128, 137],
        [226, 128, 138], [226, 128, 168], [226, 128, 169], [226, 128, 175], [226, 129, 159],
        [227, 128, 128]]"

definition starts_with :: "string \<Rightarrow> string \<Rightarrow> bool" where
  "starts_with p s \<longleftrightarrow> take (length p) s = p"

function trim_seqs :: "string list \<Rightarrow> string \<Rightarrow> string" where
  "trim_seqs ws s =
     (case find (\<lambda>p. 0 < length p \<and> starts_with p s) ws of
        None \<Rightarrow> s
      | Some p \<Rightarrow> trim_seqs ws (drop (length p) s))"
  by pat_completeness auto
termination
proof (relation "measure (\<lambda>(ws, s). length s)", goal_cases)
  case (2 ws s p)
  then have "0 < length p" and "starts_with p s" by (auto simp add: find_Some_iff)
  then show ?case by (cases s) (auto simp add: starts_with_def)
qed simp

declare trim_seqs.simps [simp del]

definition trim_left :: "string \<Rightarrow> string" where
  "trim_left s = trim_seqs space_seqs s"

definition trim_right :: "string \<Rightarrow> string" where
  "trim_right s = rev (trim_seqs (map rev space_seqs) (rev s))"

definition trim_space :: "string \<Rightarrow> string" where
  "trim_space s = trim_right (trim_left s)"

lemma trim_seqs_idem: "trim_seqs ws (trim_seqs ws s) = trim_seqs ws s"
proof (induction ws s rule: trim_seqs.induct)
  case (1 ws s)
  show ?case
  proof (cases "find (\<lambda>p. 0 < length p \<and> starts_with p s) ws")
    case None
    then show ?thesis by (simp add: trim_seqs.simps [of ws s])
  next
    case (Some p)
    with "1.IH" show ?thesis by (simp add: trim_seqs.simps [of ws s])
  qed
qed

lemma trim_seqs_Nil [simp]: "trim_seqs ws [] = []"
proof -
  have "find (\<lambda>p. 0 < length p \<and> starts_with p []) ws = None"
    by (auto simp add: find_None_iff starts_with_def)
  then show ?thesis by (simp add: trim_seqs.simps)
qed

lemma trim_space_Nil [simp]: "trim_space [] = []"
  by (simp add: trim_space_def trim_left_def trim_right_def)

text \<open>Decimal rendering, Go's \<open>%d\<close>.\<close>

fun digits_of :: "nat \<Rightarrow> string" where
  "digits_of n = (if n < 10 then [byte (48 + n)] else digits_of (n div 10) @ [byte (48 + n mod 10)])"

declare digits_of.simps [simp del]

definition itoa :: "int \<Rightarrow> string" where
  "itoa i = (if i < 0 then ''-'' @ digits_of (nat (- i)) else digits_of (nat i))"

text \<open>\<open>strings.Join\<close>.\<close>

fun join_strings :: "string \<Rightarrow> string list \<Rightarrow> string" where
  "join_strings sep [] = []"
| "join_strings sep [x] = x"
| "join_strings sep (x # y # zs) = x @ sep @ join_strings sep (y # zs)"

section \<open>Lists and maps\<close>

lemma find_append: "find P (xs @ ys) = (case find P xs of None \<Rightarrow> find P ys | Some x \<Rightarrow> Some x)"
  by (induction xs) auto

text \<open>
  Accumulating into a Go map: \<open>alist_add k v f m\<close> combines \<open>v\<close> into the entry of \<open>k\<close>, or
  starts it.
\<close>

definition alist_add :: "'k \<Rightarrow> 'v \<Rightarrow> ('v \<Rightarrow> 'v \<Rightarrow> 'v) \<Rightarrow> ('k \<times> 'v) list \<Rightarrow> ('k \<times> 'v) list" where
  "alist_add k v f m =
     (case map_of m k of
        None \<Rightarrow> m @ [(k, v)]
      | Some w \<Rightarrow> map (\<lambda>(k', w'). if k' = k then (k', f w' v) else (k', w')) m)"

lemma map_fst_alist_add:
  "map fst (alist_add k v f m) = (if k \<in> fst ` set m then map fst m else map fst m @ [k])"
proof (cases "map_of m k")
  case None
  moreover from None have "k \<notin> fst ` set m" by (simp add: map_of_eq_None_iff)
  ultimately show ?thesis by (simp add: alist_add_def)
next
  case (Some w)
  then have "k \<in> fst ` set m" by (metis domI dom_map_of_conv_image_fst)
  moreover have "map (fst \<circ> (\<lambda>(k', w'). if k' = k then (k', f w' v) else (k', w'))) m = map fst m"
    by (rule map_cong) auto
  ultimately show ?thesis using Some by (simp add: alist_add_def)
qed

lemma distinct_alist_add:
  "distinct (map fst m) \<Longrightarrow> distinct (map fst (alist_add k v f m))"
  by (auto simp add: map_fst_alist_add)

end
