(* ===== verification/Calendar.thy ===== *)
theory Calendar
  imports KitaPrelude
begin

text \<open>
  Calendar dates and \<open>time.Time\<close> as the sources use them: the proleptic Gregorian calendar
  with \<open>time.Date\<close>'s normalisation of out-of-range months and days, instants with a zone
  offset, \<open>AddDate\<close>, and the helpers of \<open>internal/models/period.go\<close>,
  \<open>internal/models/clock.go\<close> that bring every time down to a calendar date.
\<close>

section \<open>The Gregorian calendar\<close>

definition is_leap :: "int \<Rightarrow> bool" where
  "is_leap y \<longleftrightarrow> y mod 4 = 0 \<and> (y mod 100 \<noteq> 0 \<or> y mod 400 = 0)"

definition days_before_year :: "int \<Rightarrow> int" where
  "days_before_year y = 365 * (y - 1) + (y - 1) div 4 - (y - 1) div 100 + (y - 1) div 400"

text \<open>Days of the year before the first of month \<open>m\<close>; \<open>m = 13\<close> is the length of the year.\<close>

definition days_before_month :: "int \<Rightarrow> int \<Rightarrow> int" where
  "days_before_month y m =
     (if m \<le> 1 then 0 else if m = 2 then 31 else
       (if m = 3 then 59 else if m = 4 then 90 else if m = 5 then 120
        else if m = 6 then 151 else if m = 7 then 181 else if m = 8 then 212
        else if m = 9 then 243 else if m = 10 then 273 else if m = 11 then 304
        else if m = 12 then 334 else 365) + (if is_leap y then 1 else 0))"

definition days_in_month :: "int \<Rightarrow> int \<Rightarrow> int" where
  "days_in_month y m = days_before_month y (m + 1) - days_before_month y m"

text \<open>Days since 1970-01-01; linear in the day of the month.\<close>

definition day_number :: "int \<Rightarrow> int \<Rightarrow> int \<Rightarrow> int" where
  "day_number y m d = days_before_year y + days_before_month y m + (d - 1) - 719162"

text \<open>\<open>time.Date\<close>: a month outside 1..12 carries into the year, a day outside its month
  into the following or preceding months.\<close>

definition date_day :: "int \<Rightarrow> int \<Rightarrow> int \<Rightarrow> int" where
  "date_day y m d = day_number (y + (m - 1) div 12) ((m - 1) mod 12 + 1) d"

definition year_and_yday :: "int \<Rightarrow> int \<times> int" where
  "year_and_yday z =
     (let n = z + 719162;
          n400 = n div 146097; r400 = n mod 146097;
          n100 = min 3 (r400 div 36524); r100 = r400 - 36524 * n100;
          n4 = r100 div 1461; r4 = r100 mod 1461;
          n1 = min 3 (r4 div 365)
      in (400 * n400 + 100 * n100 + 4 * n4 + n1 + 1, r4 - 365 * n1))"

definition month_of_yday :: "int \<Rightarrow> int \<Rightarrow> int" where
  "month_of_yday y yd =
     (if yd < days_before_month y 2 then 1 else if yd < days_before_month y 3 then 2
      else if yd < days_before_month y 4 then 3 else if yd < days_before_month y 5 then 4
      else if yd < days_before_month y 6 then 5 else if yd < days_before_month y 7 then 6
      else if yd < days_before_month y 8 then 7 else if yd < days_before_month y 9 then 8
      else if yd < days_before_month y 10 then 9 else if yd < days_before_month y 11 then 10
      else if yd < days_before_month y 12 then 11 else 12)"

definition civil :: "int \<Rightarrow> int \<times> int \<times> int" where
  "civil z =
     (let (y, yd) = year_and_yday z; m = month_of_yday y yd
      in (y, m, yd - days_before_month y m + 1))"

definition valid_civil :: "int \<Rightarrow> int \<Rightarrow> int \<Rightarrow> bool" where
  "valid_civil y m d \<longleftrightarrow> 1 \<le> m \<and> m \<le> 12 \<and> 1 \<le> d \<and> d \<le> days_in_month y m"

definition days_in_year :: "int \<Rightarrow> int" where
  "days_in_year y = (if is_leap y then 366 else 365)"

lemma days_before_year_cycle:
  assumes "0 \<le> b" "b \<le> 3" "0 \<le> c" "c \<le> 24" "0 \<le> d" "d \<le> 3"
  shows "days_before_year (400 * a + 100 * b + 4 * c + d + 1)
    = 146097 * a + 36524 * b + 1461 * c + 365 * d"
proof -
  define p where "p = 400 * a + 100 * b + 4 * c + d"
  have "p div 4 = 100 * a + 25 * b + c"
    by (rule int_div_pos_eq [where r = d]) (use assms in \<open>simp_all add: p_def\<close>)
  moreover have "p div 100 = 4 * a + b"
    by (rule int_div_pos_eq [where r = "4 * c + d"]) (use assms in \<open>simp_all add: p_def\<close>)
  moreover have "p div 400 = a"
    by (rule int_div_pos_eq [where r = "100 * b + 4 * c + d"])
      (use assms in \<open>simp_all add: p_def\<close>)
  ultimately show ?thesis unfolding days_before_year_def p_def [symmetric]
    by (simp add: p_def)
qed

lemma is_leap_cycle:
  assumes "0 \<le> b" "b \<le> 3" "0 \<le> c" "c \<le> 24" "0 \<le> d" "d \<le> 3"
  shows "is_leap (400 * a + 100 * b + 4 * c + d + 1) \<longleftrightarrow> d = 3 \<and> (c \<noteq> 24 \<or> b = 3)"
proof -
  define y where "y = 400 * a + 100 * b + 4 * c + d + 1"
  have "y mod 4 = (d + 1) mod 4"
    unfolding y_def by (simp add: mod_eq_dvd_iff algebra_simps)
  moreover have "d = 0 \<or> d = 1 \<or> d = 2 \<or> d = 3" using assms by arith
  ultimately have m4: "y mod 4 = 0 \<longleftrightarrow> d = 3" by auto
  have "y mod 100 = (4 * c + d + 1) mod 100"
    unfolding y_def by (simp add: mod_eq_dvd_iff algebra_simps)
  then have m100: "d = 3 \<Longrightarrow> y mod 100 = 0 \<longleftrightarrow> c = 24"
    using assms mod_pos_pos_trivial [of "4 * c + 4" 100] by (cases "c = 24") simp_all
  have "y mod 400 = (100 * b + 4 * c + d + 1) mod 400"
    unfolding y_def by (simp add: mod_eq_dvd_iff algebra_simps)
  then have m400: "d = 3 \<Longrightarrow> c = 24 \<Longrightarrow> y mod 400 = 0 \<longleftrightarrow> b = 3"
    using assms mod_pos_pos_trivial [of "100 * b + 100" 400] by (cases "b = 3") simp_all
  show ?thesis unfolding is_leap_def y_def [symmetric] using m4 m100 m400 by auto
qed

lemma year_and_yday_correct:
  assumes "year_and_yday z = (y, yd)"
  shows "days_before_year y + yd = z + 719162" and "0 \<le> yd" and "yd < days_in_year y"
proof -
  define n where "n = z + 719162"
  define a where "a = n div 146097"
  define r400 where "r400 = n mod 146097"
  define b where "b = min 3 (r400 div 36524)"
  define r100 where "r100 = r400 - 36524 * b"
  define c where "c = r100 div 1461"
  define r4 where "r4 = r100 mod 1461"
  define d where "d = min 3 (r4 div 365)"
  have n: "n = 146097 * a + r400" by (simp add: a_def r400_def)
  have r400: "0 \<le> r400" "r400 < 146097" by (simp_all add: r400_def)
  have b: "0 \<le> b" "b \<le> 3" "36524 * b \<le> r400" "b < 3 \<Longrightarrow> r400 < 36524 * b + 36524"
    using r400 unfolding b_def by linarith+
  have r100: "0 \<le> r100" "r100 < 36525" "b < 3 \<Longrightarrow> r100 < 36524"
    using b r400 unfolding r100_def by linarith+
  have r100': "r100 = 1461 * c + r4" by (simp add: c_def r4_def)
  have r4: "0 \<le> r4" "r4 < 1461" by (simp_all add: r4_def)
  have c: "0 \<le> c" "c \<le> 24" using r100 r100' r4 by linarith+
  have d: "0 \<le> d" "d \<le> 3" "365 * d \<le> r4" "d < 3 \<Longrightarrow> r4 < 365 * d + 365"
    using r4 unfolding d_def by linarith+
  have last: "d = 3 \<Longrightarrow> r4 - 365 * d = 365 \<Longrightarrow> c \<noteq> 24 \<or> b = 3"
    using r100 r100' b by linarith
  have y: "y = 400 * a + 100 * b + 4 * c + d + 1" and yd: "yd = r4 - 365 * d"
    using assms unfolding year_and_yday_def Let_def n_def [symmetric] a_def [symmetric]
      r400_def [symmetric] b_def [symmetric] r100_def [symmetric] c_def [symmetric]
      r4_def [symmetric] d_def [symmetric] by simp_all
  show "days_before_year y + yd = z + 719162"
    unfolding y yd days_before_year_cycle [OF b(1,2) c d(1,2)]
    using n r100' unfolding r100_def n_def by linarith
  show "0 \<le> yd" using d unfolding yd by linarith
  show "yd < days_in_year y"
    unfolding days_in_year_def y is_leap_cycle [OF b(1,2) c d(1,2)] yd
  proof (cases "d = 3")
    case True
    then have "r4 - 365 * d \<le> 365" using r4 by simp
    moreover have "(c \<noteq> 24 \<or> b = 3) \<or> r4 - 365 * d \<noteq> 365" using last True by blast
    ultimately show "r4 - 365 * d < (if d = 3 \<and> (c \<noteq> 24 \<or> b = 3) then 366 else 365)"
      using True by auto
  next
    case False
    then show "r4 - 365 * d < (if d = 3 \<and> (c \<noteq> 24 \<or> b = 3) then 366 else 365)"
      using d by simp
  qed
qed

lemma days_before_month_13: "days_before_month y 13 = days_in_year y"
  by (simp add: days_before_month_def days_in_year_def)

lemma days_before_month_eqs:
  defines "L y \<equiv> (if is_leap y then 1 else 0 :: int)"
  shows "days_before_month y 1 = 0" "days_before_month y 2 = 31"
    "days_before_month y 3 = 59 + L y" "days_before_month y 4 = 90 + L y"
    "days_before_month y 5 = 120 + L y" "days_before_month y 6 = 151 + L y"
    "days_before_month y 7 = 181 + L y" "days_before_month y 8 = 212 + L y"
    "days_before_month y 9 = 243 + L y" "days_before_month y 10 = 273 + L y"
    "days_before_month y 11 = 304 + L y" "days_before_month y 12 = 334 + L y"
    "days_before_month y 13 = 365 + L y"
  by (simp_all add: days_before_month_def L_def)

lemma month_cases:
  fixes m :: int
  assumes "1 \<le> m" and "m \<le> 12"
  shows "m = 1 \<or> m = 2 \<or> m = 3 \<or> m = 4 \<or> m = 5 \<or> m = 6 \<or> m = 7 \<or> m = 8 \<or> m = 9
    \<or> m = 10 \<or> m = 11 \<or> m = 12"
proof -
  have "m \<in> {1..12}" using assms by simp
  also have "{1..12} = {1, 2, 3, 4, 5, 6, 7, 8, 9, 10, 11, 12 :: int}"
    by (simp add: simp_from_to)
  finally show ?thesis by simp
qed

lemma month_of_yday_range: "1 \<le> month_of_yday y yd \<and> month_of_yday y yd \<le> 12"
  by (simp add: month_of_yday_def)

lemma month_of_yday_correct:
  assumes "0 \<le> yd" and "yd < days_in_year y"
  shows "days_before_month y (month_of_yday y yd) \<le> yd
    \<and> yd < days_before_month y (month_of_yday y yd + 1)"
proof -
  have "yd < days_before_month y 13" using assms(2) by (simp add: days_before_month_13)
  moreover have "days_before_month y 1 \<le> yd" using assms(1) by (simp add: days_before_month_eqs)
  ultimately show ?thesis by (simp add: month_of_yday_def)
qed

theorem civil_valid:
  assumes "civil z = (y, m, d)"
  shows "valid_civil y m d" and "day_number y m d = z"
proof -
  obtain yd where yy: "year_and_yday z = (y, yd)" and m: "m = month_of_yday y yd"
    and d: "d = yd - days_before_month y m + 1"
    using assms by (auto simp add: civil_def Let_def split: prod.splits)
  note Y = year_and_yday_correct [OF yy]
  note M = month_of_yday_correct [OF Y(2,3), folded m] month_of_yday_range [of y yd, folded m]
  show "valid_civil y m d" using M by (simp add: valid_civil_def days_in_month_def d)
  show "day_number y m d = z" using Y(1) by (simp add: day_number_def d)
qed

lemma leap_count_step:
  fixes y :: int
  assumes "D4 = E4 + (if c4 then 1 else 0)" and "D100 = E100 + (if c100 then 1 else 0)"
    and "D400 = E400 + (if c400 then 1 else 0)" and "c100 \<Longrightarrow> c4" and "c400 \<Longrightarrow> c100"
  shows "365 * y + D4 - D100 + D400
    = 365 * (y - 1) + E4 - E100 + E400 + (if c4 \<and> (\<not> c100 \<or> c400) then 366 else 365)"
  using assms by (cases c4; cases c100; cases c400) simp_all

lemma days_before_year_Suc: "days_before_year (y + 1) = days_before_year y + days_in_year y"
proof -
  have Suc_div: "y div k = (y - 1) div k + (if y mod k = 0 then 1 else 0)" if "1 < k" for k :: int
  proof (cases "y mod k = 0")
    case True
    then obtain q where q: "y = k * q" by (auto elim: dvdE simp: mod_eq_0_iff_dvd)
    have "(y - 1) div k = q - 1"
      by (rule int_div_pos_eq [where r = "k - 1"]) (use that q in \<open>simp_all add: algebra_simps\<close>)
    then show ?thesis using True that q by simp
  next
    case False
    have "(y - 1) div k = y div k"
    proof (rule int_div_pos_eq [where r = "y mod k - 1"])
      show "y - 1 = k * (y div k) + (y mod k - 1)" by simp
      show "0 \<le> y mod k - 1" using False that pos_mod_sign [of k y] by linarith
      show "y mod k - 1 < k" using that pos_mod_bound [of k y] by linarith
    qed
    then show ?thesis using False by simp
  qed
  have dvds: "y mod 100 = 0 \<Longrightarrow> y mod 4 = 0" "y mod 400 = 0 \<Longrightarrow> y mod 100 = 0"
    using dvd_trans [of 4 100 y] dvd_trans [of 100 400 y] by (simp_all add: mod_eq_0_iff_dvd)
  have "365 * y + y div 4 - y div 100 + y div 400
    = 365 * (y - 1) + (y - 1) div 4 - (y - 1) div 100 + (y - 1) div 400
      + (if y mod 4 = 0 \<and> (\<not> y mod 100 = 0 \<or> y mod 400 = 0) then 366 else 365)"
    by (rule leap_count_step) (use dvds in \<open>simp_all only: Suc_div one_less_numeral_iff semiring_norm\<close>)
  then show ?thesis
    by (simp only: days_before_year_def days_in_year_def is_leap_def add_diff_cancel_right')
qed

lemma days_before_year_mono: "y \<le> y' \<Longrightarrow> days_before_year y + 365 * (y' - y) \<le> days_before_year y'"
proof (induction y' rule: int_ge_induct)
  case base
  then show ?case by simp
next
  case (step i)
  then show ?case using days_before_year_Suc [of i] by (simp add: days_in_year_def split: if_splits)
qed

lemma days_in_month_bounds:
  "1 \<le> m \<Longrightarrow> m \<le> 12 \<Longrightarrow> 28 \<le> days_in_month y m \<and> days_in_month y m \<le> 31"
  using month_cases [of m] by (auto simp add: days_in_month_def days_before_month_eqs)

lemma days_before_month_mono:
  "1 \<le> m \<Longrightarrow> m < m' \<Longrightarrow> m' \<le> 13 \<Longrightarrow> days_before_month y m + days_in_month y m \<le> days_before_month y m'"
  using month_cases [of m] month_cases [of "m' - 1"]
  by (auto simp add: days_in_month_def days_before_month_eqs)

lemma valid_civil_yday:
  assumes "valid_civil y m d"
  shows "0 \<le> days_before_month y m + (d - 1)" and "days_before_month y m + (d - 1) < days_in_year y"
proof -
  have m: "1 \<le> m" "m \<le> 12" "1 \<le> d" "d \<le> days_in_month y m"
    using assms by (simp_all add: valid_civil_def)
  have "0 \<le> days_before_month y m" by (simp add: days_before_month_def)
  then show "0 \<le> days_before_month y m + (d - 1)" using m by linarith
  have "days_before_month y m + days_in_month y m \<le> days_in_year y"
    using days_before_month_mono [of m 13 y] m by (simp add: days_before_month_13)
  then show "days_before_month y m + (d - 1) < days_in_year y" using m by linarith
qed

text \<open>The order of dates is the order of (year, month, day).\<close>

lemma day_number_less:
  assumes "valid_civil y m d" and "valid_civil y' m' d'"
    and "y < y' \<or> y = y' \<and> (m < m' \<or> m = m' \<and> d < d')"
  shows "day_number y m d < day_number y' m' d'"
proof (cases "y < y'")
  case True
  have "days_before_year y + days_in_year y \<le> days_before_year y'"
    using days_before_year_mono [of "y + 1" y'] True
    by (simp add: days_before_year_Suc)
  then show ?thesis
    using valid_civil_yday [OF assms(1)] valid_civil_yday [OF assms(2)]
    unfolding day_number_def by linarith
next
  case False
  then have y: "y' = y" and "m < m' \<or> m = m' \<and> d < d'" using assms(3) by auto
  then show ?thesis
    using assms(1,2) days_before_month_mono [of m m' y]
    by (auto simp add: day_number_def valid_civil_def)
qed

lemma day_number_inject:
  assumes "valid_civil y m d" and "valid_civil y' m' d'"
    and "day_number y m d = day_number y' m' d'"
  shows "y = y' \<and> m = m' \<and> d = d'"
proof (rule ccontr)
  assume "\<not> (y = y' \<and> m = m' \<and> d = d')"
  then consider "y < y' \<or> y = y' \<and> (m < m' \<or> m = m' \<and> d < d')"
    | "y' < y \<or> y' = y \<and> (m' < m \<or> m' = m \<and> d' < d)" by force
  then show False
    using day_number_less [OF assms(1,2)] day_number_less [OF assms(2,1)] assms(3)
    by cases auto
qed

theorem civil_day_number:
  assumes "valid_civil y m d"
  shows "civil (day_number y m d) = (y, m, d)"
proof -
  obtain y' m' d' where c: "civil (day_number y m d) = (y', m', d')"
    by (metis prod_cases3)
  have "y' = y \<and> m' = m \<and> d' = d"
    using day_number_inject [OF civil_valid(1) [OF c] assms civil_valid(2) [OF c]] .
  with c show ?thesis by simp
qed


section \<open>Instants and zones\<close>

text \<open>
  A \<open>time.Time\<close> is an instant (nanoseconds since 1970-01-01T00:00:00Z) shown in a zone. The
  values the program handles are UTC or carry the fixed offset of an RFC 3339 timestamp, so
  the zone is its offset in nanoseconds; the one use of a real time zone, \<open>DateIn\<close>, takes
  the zone's offset rule as an argument.
\<close>

record gtime =
  instant :: int
  zone :: int

definition ns_per_day :: int where
  "ns_per_day = 86400000000000"

definition local_day :: "gtime \<Rightarrow> int" where
  "local_day t = (instant t + zone t) div ns_per_day"

definition time_of_day :: "gtime \<Rightarrow> int" where
  "time_of_day t = (instant t + zone t) mod ns_per_day"

definition year_of :: "gtime \<Rightarrow> int" where
  "year_of t = fst (civil (local_day t))"

definition month_of :: "gtime \<Rightarrow> int" where
  "month_of t = fst (snd (civil (local_day t)))"

definition day_of :: "gtime \<Rightarrow> int" where
  "day_of t = snd (snd (civil (local_day t)))"

definition before :: "gtime \<Rightarrow> gtime \<Rightarrow> bool" where
  "before t u \<longleftrightarrow> instant t < instant u"

definition after :: "gtime \<Rightarrow> gtime \<Rightarrow> bool" where
  "after t u \<longleftrightarrow> instant u < instant t"

definition equal_time :: "gtime \<Rightarrow> gtime \<Rightarrow> bool" where
  "equal_time t u \<longleftrightarrow> instant t = instant u"

text \<open>UTC midnight of a day number, and \<open>time.Date(y, m, d, 0, 0, 0, 0, time.UTC)\<close>.\<close>

definition midnight :: "int \<Rightarrow> gtime" where
  "midnight z = \<lparr>instant = z * ns_per_day, zone = 0\<rparr>"

definition date_utc :: "int \<Rightarrow> int \<Rightarrow> int \<Rightarrow> gtime" where
  "date_utc y m d = midnight (date_day y m d)"

definition truncate_to_date :: "gtime \<Rightarrow> gtime" where
  "truncate_to_date t = date_utc (year_of t) (month_of t) (day_of t)"

text \<open>\<open>t.AddDate(years, months, days)\<close> keeps the clock reading and the zone.\<close>

definition add_date :: "gtime \<Rightarrow> int \<Rightarrow> int \<Rightarrow> int \<Rightarrow> gtime" where
  "add_date t ys ms ds =
     t\<lparr>instant := date_day (year_of t + ys) (month_of t + ms) (day_of t + ds) * ns_per_day
         + time_of_day t - zone t\<rparr>"

definition date_in :: "gtime \<Rightarrow> (int \<Rightarrow> int) \<Rightarrow> gtime" where
  "date_in t loc =
     (let here = t\<lparr>zone := loc (instant t)\<rparr>
      in date_utc (year_of here) (month_of here) (day_of here))"

text \<open>\<open>Today()\<close> for a clock reading and the application's zone.\<close>

definition today :: "gtime \<Rightarrow> (int \<Rightarrow> int) \<Rightarrow> gtime" where
  "today now loc = date_in now loc"

lemma date_day_valid: "1 \<le> m \<Longrightarrow> m \<le> 12 \<Longrightarrow> date_day y m d = day_number y m d"
  by (simp add: date_day_def)

lemma day_number_shift: "day_number y m (d + k) = day_number y m d + k"
  by (simp add: day_number_def)

lemma civil_parts: "civil (local_day t) = (year_of t, month_of t, day_of t)"
  by (simp add: year_of_def month_of_def day_of_def)

lemma valid_civil_time: "valid_civil (year_of t) (month_of t) (day_of t)"
  by (rule civil_valid(1)) (rule civil_parts)

lemma day_number_time: "day_number (year_of t) (month_of t) (day_of t) = local_day t"
  by (rule civil_valid(2)) (rule civil_parts)

lemma month_of_range: "1 \<le> month_of t" "month_of t \<le> 12"
  using valid_civil_time [of t] by (simp_all add: valid_civil_def)

lemma date_day_time: "date_day (year_of t) (month_of t) (day_of t + k) = local_day t + k"
  by (simp add: date_day_valid month_of_range day_number_shift day_number_time)

lemma local_day_midnight [simp]: "local_day (midnight z) = z"
  by (simp add: local_day_def midnight_def ns_per_day_def)

lemma date_utc_parts:
  assumes "valid_civil y m d"
  shows "year_of (date_utc y m d) = y" "month_of (date_utc y m d) = m" "day_of (date_utc y m d) = d"
  using civil_day_number [OF assms] assms
  by (simp_all add: date_utc_def date_day_valid valid_civil_def year_of_def month_of_def day_of_def)

lemma truncate_to_date_eq: "truncate_to_date t = midnight (local_day t)"
  using date_day_time [of t 0] by (simp add: truncate_to_date_def date_utc_def)

lemma truncate_idem [simp]: "truncate_to_date (truncate_to_date t) = truncate_to_date t"
  by (simp add: truncate_to_date_eq)

lemma before_midnight [simp]: "before (midnight a) (midnight b) \<longleftrightarrow> a < b"
  by (simp add: before_def midnight_def ns_per_day_def)

lemma after_midnight [simp]: "after (midnight a) (midnight b) \<longleftrightarrow> b < a"
  by (simp add: after_def midnight_def ns_per_day_def)

lemma equal_midnight [simp]: "equal_time (midnight a) (midnight b) \<longleftrightarrow> a = b"
  by (simp add: equal_time_def midnight_def ns_per_day_def)

lemma midnight_inject [simp]: "midnight a = midnight b \<longleftrightarrow> a = b"
  by (simp add: midnight_def ns_per_day_def)

lemma time_of_day_midnight [simp]: "time_of_day (midnight z) = 0"
  by (simp add: time_of_day_def midnight_def)

lemma zone_midnight [simp]: "zone (midnight z) = 0"
  by (simp add: midnight_def)

lemma local_day_add_date:
  "local_day (add_date t ys ms ds)
    = date_day (year_of t + ys) (month_of t + ms) (day_of t + ds)"
proof -
  have "0 \<le> time_of_day t" and "time_of_day t < ns_per_day"
    by (simp_all add: time_of_day_def ns_per_day_def)
  then show ?thesis
    by (simp add: local_day_def add_date_def div_pos_pos_trivial ns_per_day_def)
qed

lemma local_day_add_days [simp]: "local_day (add_date t 0 0 k) = local_day t + k"
  using date_day_time [of t k] by (simp add: local_day_add_date)

lemma add_days_midnight [simp]: "add_date (midnight z) 0 0 k = midnight (z + k)"
  using date_day_time [of "midnight z" k] by (simp add: add_date_def) (simp add: midnight_def)

lemma truncate_add_days [simp]:
  "truncate_to_date (add_date t 0 0 k) = midnight (local_day t + k)"
  by (simp add: truncate_to_date_eq)

text \<open>\<open>Today\<close> is always a UTC midnight, whatever the clock and the zone.\<close>

lemma today_midnight: "today now loc = midnight ((instant now + loc (instant now)) div ns_per_day)"
proof -
  define t where "t = now\<lparr>zone := loc (instant now)\<rparr>"
  have "today now loc = truncate_to_date t"
    by (simp add: today_def date_in_def Let_def truncate_to_date_def t_def)
  then show ?thesis by (simp add: truncate_to_date_eq local_day_def t_def)
qed

end
