(* ===== verification/AppError.thy ===== *)
theory AppError
  imports KitaPrelude
begin

text \<open>
  Errors: \<open>internal/apperror/errors.go\<close>, the store sentinels of
  \<open>internal/store/errors.go\<close> and \<open>internal/store/period.go\<close>, and the parts of the standard
  \<open>errors\<close> package they rest on. The translation catalogue (\<open>MessageID\<close>, \<open>Args\<close>,
  \<open>Params\<close>) is left out: it only renders a message that is already fixed here.
\<close>

datatype sentinel =
  ErrNotFound | ErrBadRequest | ErrConflict | ErrUnauthorized | ErrForbidden
| ErrTooManyRequests | ErrInternalServer

datatype store_error =
  StoreNotFound | StoreDuplicateKey | StoreVersionConflict | StorePeriodOverlap

record field_violation =
  fv_field :: string
  fv_rule :: string
  fv_param :: string

text \<open>
  \<open>Wrapped\<close> is \<open>fmt.Errorf\<close> with \<open>%w\<close>; \<open>PgError\<close> a PostgreSQL error with its SQLSTATE;
  \<open>PlainError\<close> any error with a text and nothing below it.
\<close>

datatype go_error =
  Sentinel sentinel
| StoreError store_error
| PgError string
| PlainError string
| Wrapped string go_error
| AppErr (app_err: go_error) (app_message: string) (app_code: int) (app_error_code: string)
    (app_fields: "field_violation list")

type_synonym 'a outcome = "go_error + 'a"

fun sentinel_text :: "sentinel \<Rightarrow> string" where
  "sentinel_text ErrNotFound = ''resource not found''"
| "sentinel_text ErrBadRequest = ''bad request''"
| "sentinel_text ErrConflict = ''resource conflict''"
| "sentinel_text ErrUnauthorized = ''unauthorized''"
| "sentinel_text ErrForbidden = ''forbidden''"
| "sentinel_text ErrTooManyRequests = ''too many requests''"
| "sentinel_text ErrInternalServer = ''internal server error''"

fun store_error_text :: "store_error \<Rightarrow> string" where
  "store_error_text StoreNotFound = ''record not found''"
| "store_error_text StoreDuplicateKey = ''duplicate key''"
| "store_error_text StoreVersionConflict = ''record was modified by someone else''"
| "store_error_text StorePeriodOverlap = ''period would overlap with existing record''"

section \<open>Inspecting an error\<close>

text \<open>\<open>errors.Unwrap\<close>, \<open>errors.Is\<close> against a sentinel, \<open>errors.As\<close> to an \<open>*AppError\<close>.\<close>

fun is_sentinel :: "go_error \<Rightarrow> sentinel \<Rightarrow> bool" where
  "is_sentinel (Sentinel s) t = (s = t)"
| "is_sentinel (Wrapped m e) t = is_sentinel e t"
| "is_sentinel (AppErr e m c ec fs) t = is_sentinel e t"
| "is_sentinel _ t = False"

fun is_store_error :: "go_error \<Rightarrow> store_error \<Rightarrow> bool" where
  "is_store_error (StoreError s) t = (s = t)"
| "is_store_error (Wrapped m e) t = is_store_error e t"
| "is_store_error (AppErr e m c ec fs) t = is_store_error e t"
| "is_store_error _ t = False"

fun is_pg_code :: "go_error \<Rightarrow> string \<Rightarrow> bool" where
  "is_pg_code (PgError s) t = (s = t)"
| "is_pg_code (Wrapped m e) t = is_pg_code e t"
| "is_pg_code (AppErr e m c ec fs) t = is_pg_code e t"
| "is_pg_code _ t = False"

fun as_app_code :: "go_error \<Rightarrow> int option" where
  "as_app_code (AppErr e m c ec fs) = Some c"
| "as_app_code (Wrapped m e) = as_app_code e"
| "as_app_code _ = None"

definition is_duplicate_key_error :: "go_error \<Rightarrow> bool" where
  "is_duplicate_key_error e = is_pg_code e ''23505''"

definition is_foreign_key_violation :: "go_error \<Rightarrow> bool" where
  "is_foreign_key_violation e = is_pg_code e ''23503''"

definition is_exclusion_violation :: "go_error \<Rightarrow> bool" where
  "is_exclusion_violation e = is_pg_code e ''23P01''"

definition is_deadlock :: "go_error \<Rightarrow> bool" where
  "is_deadlock e = is_pg_code e ''40P01''"

definition english_reason :: "string \<Rightarrow> string \<Rightarrow> string" where
  "english_reason rule param =
     (if rule = ''required'' then ''is required''
      else if rule = ''non_empty'' then ''must contain at least one entry''
      else if rule = ''min'' then ''must be at least '' @ param @ '' characters''
      else if rule = ''min_value'' then ''must be at least '' @ param
      else if rule = ''positive'' then ''must be greater than 0''
      else if rule = ''mismatch'' then ''must match '' @ param
      else if rule = ''one_of'' then ''must be one of: '' @ param
      else if rule = ''not_one_of'' then ''is not one of: '' @ param
      else if rule = ''unknown_key'' then ''is not a property this funding configuration defines''
      else if rule = ''single_value'' then ''must carry exactly one value, got: '' @ param
      else ''is invalid'')"

text \<open>\<open>err.Error()\<close>.\<close>

fun error_text :: "go_error \<Rightarrow> string" where
  "error_text (Sentinel s) = sentinel_text s"
| "error_text (StoreError s) = store_error_text s"
| "error_text (PgError s) = ''ERROR: (SQLSTATE '' @ s @ '')''"
| "error_text (PlainError m) = m"
| "error_text (Wrapped m e) = m @ '': '' @ error_text e"
| "error_text (AppErr e m c ec fs) =
     (if m = [] \<and> fs \<noteq> []
      then join_strings ''; ''
        (map (\<lambda>f. fv_field f @ '' '' @ english_reason (fv_rule f) (fv_param f)) fs)
      else m)"

text \<open>\<open>GetErrorCode\<close>: the stated machine-readable code, or one derived from the status.\<close>

fun get_error_code :: "go_error \<Rightarrow> string" where
  "get_error_code (AppErr e m c ec fs) =
     (if ec \<noteq> [] then ec
      else if c = 404 then ''not_found''
      else if c = 400 then ''bad_request''
      else if c = 409 then ''conflict''
      else if c = 401 then ''unauthorized''
      else if c = 403 then ''forbidden''
      else if c = 429 then ''too_many_requests''
      else ''internal_error'')"
| "get_error_code _ = ''internal_error''"

text \<open>\<open>HTTPStatus\<close>: the code of the first \<open>AppError\<close> in the chain, else by sentinel.\<close>

definition http_status :: "go_error \<Rightarrow> int" where
  "http_status e =
     (case as_app_code e of
        Some c \<Rightarrow> c
      | None \<Rightarrow>
          if is_sentinel e ErrNotFound then 404
          else if is_sentinel e ErrBadRequest then 400
          else if is_sentinel e ErrConflict then 409
          else if is_sentinel e ErrForbidden then 403
          else if is_sentinel e ErrTooManyRequests then 429
          else if is_sentinel e ErrUnauthorized then 401
          else 500)"

section \<open>Constructors\<close>

definition field :: "string \<Rightarrow> string \<Rightarrow> string \<Rightarrow> field_violation" where
  "field rule param path = \<lparr>fv_field = path, fv_rule = rule, fv_param = param\<rparr>"

definition invalid_fields :: "field_violation list \<Rightarrow> go_error" where
  "invalid_fields vs = AppErr (Sentinel ErrBadRequest) [] 400 ''validation_error'' vs"

definition not_found :: "string \<Rightarrow> go_error" where
  "not_found resource = AppErr (Sentinel ErrNotFound) (resource @ '' not found'') 404 ''not_found'' []"

definition bad_request :: "string \<Rightarrow> go_error" where
  "bad_request msg = AppErr (Sentinel ErrBadRequest) msg 400 ''bad_request'' []"

definition conflict :: "string \<Rightarrow> go_error" where
  "conflict msg = AppErr (Sentinel ErrConflict) msg 409 ''conflict'' []"

definition contract_conflict :: "string \<Rightarrow> go_error" where
  "contract_conflict msg = AppErr (Sentinel ErrConflict) msg 409 ''contract_overlap'' []"

definition email_conflict :: go_error where
  "email_conflict = AppErr (Sentinel ErrConflict) ''email already in use'' 409 ''email_conflict'' []"

definition precondition_failed :: "string \<Rightarrow> go_error" where
  "precondition_failed msg = AppErr (Sentinel ErrConflict) msg 412 ''precondition_failed'' []"

definition too_many_requests :: "string \<Rightarrow> go_error" where
  "too_many_requests msg = AppErr (Sentinel ErrTooManyRequests) msg 429 ''too_many_requests'' []"

definition forbidden :: "string \<Rightarrow> go_error" where
  "forbidden msg = AppErr (Sentinel ErrForbidden) msg 403 ''forbidden'' []"

definition unauthorized :: "string \<Rightarrow> go_error" where
  "unauthorized msg = AppErr (Sentinel ErrUnauthorized) msg 401 ''unauthorized'' []"

definition internal_error :: "string \<Rightarrow> go_error" where
  "internal_error msg = AppErr (Sentinel ErrInternalServer) msg 500 ''internal_error'' []"

definition internal_wrap :: "go_error \<Rightarrow> string \<Rightarrow> go_error" where
  "internal_wrap e msg = AppErr (Wrapped msg e) msg 500 ''internal_error'' []"

lemmas app_error_defs =
  invalid_fields_def not_found_def bad_request_def conflict_def contract_conflict_def
  email_conflict_def precondition_failed_def too_many_requests_def forbidden_def
  unauthorized_def internal_error_def internal_wrap_def

lemma http_status_simps [simp]:
  "http_status (invalid_fields vs) = 400" "http_status (not_found r) = 404"
  "http_status (bad_request m) = 400" "http_status (conflict m) = 409"
  "http_status (contract_conflict m) = 409" "http_status (precondition_failed m) = 412"
  "http_status (too_many_requests m) = 429" "http_status (forbidden m) = 403"
  "http_status (unauthorized m) = 401" "http_status (internal_wrap e m) = 500"
  by (simp_all add: app_error_defs http_status_def)

lemma error_predicates_simps [simp]:
  "\<not> is_exclusion_violation (bad_request m)" "\<not> is_deadlock (bad_request m)"
  "\<not> is_store_error (bad_request m) s"
  "\<not> is_exclusion_violation (contract_conflict m)" "\<not> is_deadlock (contract_conflict m)"
  "\<not> is_store_error (contract_conflict m) s"
  "is_store_error (StoreError s) s' = (s = s')"
  "\<not> is_exclusion_violation (StoreError s)" "\<not> is_deadlock (StoreError s)"
  "is_exclusion_violation (PgError c) = (c = ''23P01'')"
  "is_deadlock (PgError c) = (c = ''40P01'')"
  by (simp_all add: app_error_defs is_exclusion_violation_def is_deadlock_def)

section \<open>Helpers of the service layer\<close>

text \<open>\<open>classifyStoreError\<close>, \<open>verifyOrgOwnership\<close>, \<open>verifyRecordOwnership\<close>.\<close>

definition classify_store_error :: "go_error \<Rightarrow> string \<Rightarrow> go_error" where
  "classify_store_error e resource =
     (if is_store_error e StoreNotFound then not_found resource
      else internal_wrap e (''failed to fetch '' @ resource))"

definition verify_org_ownership :: "nat \<Rightarrow> nat \<Rightarrow> string \<Rightarrow> unit outcome" where
  "verify_org_ownership entity_org org resource =
     ensureE (entity_org = org) (not_found resource)"

definition verify_record_ownership :: "nat \<Rightarrow> nat \<Rightarrow> string \<Rightarrow> unit outcome" where
  "verify_record_ownership record_owner owner resource =
     ensureE (record_owner = owner) (not_found resource)"

end
