(* ===== verification/Periods.thy ===== *)
theory Periods
  imports Calendar AppError
begin

text \<open>
  Inclusive date ranges: \<open>models.Period\<close>, the service-layer validators over them
  (\<open>internal/validation\<close>, \<open>internal/service/helpers.go\<close>) and the SQL predicates of
  \<open>store.PeriodStore\<close>. An abstract period is the set of day numbers it covers; every overlap
  test of the code is shown to decide whether two such sets meet.
\<close>

section \<open>models.Period\<close>

record period =
  p_from :: gtime
  p_to :: "gtime option"

definition is_active_on :: "'a period_scheme \<Rightarrow> gtime \<Rightarrow> bool" where
  "is_active_on p date =
     (let date' = truncate_to_date date; from' = truncate_to_date (p_from p)
      in if before date' from' then False
         else case p_to p of
                None \<Rightarrow> True
              | Some t \<Rightarrow> \<not> after date' (truncate_to_date t))"

definition is_ongoing :: "'a period_scheme \<Rightarrow> bool" where
  "is_ongoing p = (p_to p = None)"

definition overlaps :: "'a period_scheme \<Rightarrow> 'a period_scheme \<Rightarrow> bool" where
  "overlaps p other =
     (let aFrom = truncate_to_date (p_from p); bFrom = truncate_to_date (p_from other)
      in if (case p_to other of None \<Rightarrow> False | Some t \<Rightarrow> after aFrom (truncate_to_date t)) then False
         else if (case p_to p of None \<Rightarrow> False | Some t \<Rightarrow> after bFrom (truncate_to_date t)) then False
         else True)"

section \<open>Validators of the service layer\<close>

text \<open>\<open>periodsOverlap\<close> compares the other way round; \<open>validateNoOverlap\<close> scans a slice.\<close>

definition periods_overlap ::
    "gtime \<Rightarrow> gtime option \<Rightarrow> gtime \<Rightarrow> gtime option \<Rightarrow> bool" where
  "periods_overlap from1 to1 from2 to2 =
     (let f1 = truncate_to_date from1; f2 = truncate_to_date from2
      in if (case to1 of None \<Rightarrow> False | Some t \<Rightarrow> before (truncate_to_date t) f2) then False
         else if (case to2 of None \<Rightarrow> False | Some t \<Rightarrow> before (truncate_to_date t) f1) then False
         else True)"

fun validate_no_overlap ::
    "(nat \<times> period) list \<Rightarrow> gtime \<Rightarrow> gtime option \<Rightarrow> nat option \<Rightarrow> unit outcome" where
  "validate_no_overlap [] from to exclude = Inr ()"
| "validate_no_overlap ((i, p) # es) from to exclude =
     (if exclude = Some i then validate_no_overlap es from to exclude
      else if periods_overlap from to (p_from p) (p_to p)
        then Inl (bad_request ''period overlaps with existing period'')
      else validate_no_overlap es from to exclude)"

text \<open>\<open>ValidatePeriod\<close> compares the instants as given, without truncating to dates.\<close>

definition validate_period :: "gtime \<Rightarrow> gtime option \<Rightarrow> unit outcome" where
  "validate_period from to =
     (case to of
        None \<Rightarrow> Inr ()
      | Some t \<Rightarrow> ensureE (\<not> after from t)
          (PlainError ''from date must be before or equal to to date''))"

text \<open>The service layer reports it as a 400 with the same text.\<close>

definition validate_period_400 :: "gtime \<Rightarrow> gtime option \<Rightarrow> unit outcome" where
  "validate_period_400 from to =
     (case validate_period from to of
        Inl e \<Rightarrow> Inl (bad_request (error_text e))
      | Inr u \<Rightarrow> Inr u)"

definition validate_dates_after_birthdate ::
    "gtime \<Rightarrow> gtime option \<Rightarrow> gtime \<Rightarrow> unit outcome" where
  "validate_dates_after_birthdate from to birthdate =
     (let bd = truncate_to_date birthdate
      in if before (truncate_to_date from) bd
           then Inl (bad_request ''contract start date cannot be before birthdate'')
         else if (case to of None \<Rightarrow> False | Some t \<Rightarrow> before (truncate_to_date t) bd)
           then Inl (bad_request ''contract end date cannot be before birthdate'')
         else Inr ())"

section \<open>SQL predicates over DATE columns\<close>

text \<open>
  A DATE column holds a day number; a \<open>time.Time\<close> bound to a DATE parameter is sent as its
  calendar date. \<open>sql_active_on\<close> is the \<open>PeriodActiveOn\<close> scope, \<open>sql_overlap\<close> the filter
  \<open>ValidateNoOverlap\<close> counts with, and \<open>daterange_overlap\<close> the \<open>&&\<close> of the exclusion
  constraint of migration 000022 on \<open>daterange(from_date, COALESCE(to_date + 1, 'infinity'), '[)')\<close>.
\<close>

definition sql_active_on :: "int \<Rightarrow> int option \<Rightarrow> int \<Rightarrow> bool" where
  "sql_active_on from_date to_date date \<longleftrightarrow>
     from_date \<le> date \<and> (case to_date of None \<Rightarrow> True | Some t \<Rightarrow> date \<le> t)"

definition sql_overlap :: "int \<Rightarrow> int option \<Rightarrow> int \<Rightarrow> int option \<Rightarrow> bool" where
  "sql_overlap from_date to_date from to =
     (case to of
        Some t \<Rightarrow> from_date \<le> t \<and> (case to_date of None \<Rightarrow> True | Some td \<Rightarrow> from \<le> td)
      | None \<Rightarrow> (case to_date of None \<Rightarrow> True | Some td \<Rightarrow> from \<le> td))"

text \<open>Half-open ranges meet when the larger lower bound is below the smaller upper bound.\<close>

definition daterange_overlap :: "int \<Rightarrow> int option \<Rightarrow> int \<Rightarrow> int option \<Rightarrow> bool" where
  "daterange_overlap f1 t1 f2 t2 \<longleftrightarrow>
     (case t1 of None \<Rightarrow> True | Some u \<Rightarrow> max f1 f2 < u + 1) \<and>
     (case t2 of None \<Rightarrow> True | Some u \<Rightarrow> max f1 f2 < u + 1)"

section \<open>What they decide\<close>

text \<open>The days an inclusive range covers.\<close>

definition days :: "int \<Rightarrow> int option \<Rightarrow> int set" where
  "days from to = {d. sql_active_on from to d}"

definition day_opt :: "gtime option \<Rightarrow> int option" where
  "day_opt t = map_option local_day t"

definition period_days :: "'a period_scheme \<Rightarrow> int set" where
  "period_days p = days (local_day (p_from p)) (day_opt (p_to p))"

definition ordered :: "int \<Rightarrow> int option \<Rightarrow> bool" where
  "ordered from to \<longleftrightarrow> (case to of None \<Rightarrow> True | Some t \<Rightarrow> from \<le> t)"

lemma day_opt_simps [simp]: "day_opt None = None" "day_opt (Some t) = Some (local_day t)"
  by (simp_all add: day_opt_def)

lemma days_simps: "days f None = {f..}" "days f (Some t) = {f..t}"
  by (auto simp add: days_def sql_active_on_def)

lemma days_eq_empty: "days f t = {} \<longleftrightarrow> \<not> ordered f t"
  by (cases t) (auto simp add: days_simps ordered_def)

theorem is_active_on_days: "is_active_on p d \<longleftrightarrow> local_day d \<in> period_days p"
  by (cases "p_to p")
    (auto simp add: is_active_on_def Let_def truncate_to_date_eq period_days_def days_simps)

lemma atLeast_meet [simp]: "{a :: int..} \<inter> {b..} \<noteq> {}"
proof -
  have "max a b \<in> {a..} \<inter> {b..}" by simp
  then show ?thesis by blast
qed

lemma days_meet:
  "ordered f1 t1 \<Longrightarrow> ordered f2 t2 \<Longrightarrow>
    days f1 t1 \<inter> days f2 t2 \<noteq> {} \<longleftrightarrow> max f1 f2 \<in> days f1 t1 \<inter> days f2 t2"
  by (cases t1; cases t2) (auto simp add: days_simps ordered_def)

lemma periods_overlap_days:
  assumes "ordered (local_day f1) (day_opt t1)" and "ordered (local_day f2) (day_opt t2)"
  shows "periods_overlap f1 t1 f2 t2 \<longleftrightarrow>
    days (local_day f1) (day_opt t1) \<inter> days (local_day f2) (day_opt t2) \<noteq> {}"
  unfolding days_meet [OF assms] using assms
  by (cases t1; cases t2)
    (auto simp add: periods_overlap_def Let_def truncate_to_date_eq days_simps ordered_def)

lemma overlaps_periods_overlap:
  "overlaps p q \<longleftrightarrow> periods_overlap (p_from p) (p_to p) (p_from q) (p_to q)"
  by (cases "p_to p"; cases "p_to q")
    (auto simp add: overlaps_def periods_overlap_def Let_def truncate_to_date_eq)

lemma sql_overlap_days:
  assumes "ordered f1 t1" and "ordered f2 t2"
  shows "sql_overlap f1 t1 f2 t2 \<longleftrightarrow> days f1 t1 \<inter> days f2 t2 \<noteq> {}"
  unfolding days_meet [OF assms] using assms
  by (cases t1; cases t2) (auto simp add: sql_overlap_def days_simps ordered_def)

lemma daterange_overlap_days:
  "daterange_overlap f1 t1 f2 t2 \<longleftrightarrow> days f1 t1 \<inter> days f2 t2 \<noteq> {}"
proof -
  have "daterange_overlap f1 t1 f2 t2 \<longleftrightarrow> max f1 f2 \<in> days f1 t1 \<inter> days f2 t2"
    by (cases t1; cases t2) (auto simp add: daterange_overlap_def days_simps)
  also have "\<dots> \<longleftrightarrow> days f1 t1 \<inter> days f2 t2 \<noteq> {}"
    by (cases t1; cases t2) (auto simp add: days_simps)
  finally show ?thesis .
qed

lemma validate_no_overlap_Inr:
  "validate_no_overlap es f t x = Inr u \<longleftrightarrow>
    (\<forall>(i, p) \<in> set es. x \<noteq> Some i \<longrightarrow> \<not> periods_overlap f t (p_from p) (p_to p))"
  by (induction es f t x rule: validate_no_overlap.induct) auto

lemma validate_period_Inr:
  "validate_period from to = Inr u \<longleftrightarrow> (\<forall>t. to = Some t \<longrightarrow> instant from \<le> instant t)"
  by (cases to) (auto simp add: validate_period_def after_def ensureE_def)

lemma validate_period_400_Inr:
  "validate_period_400 from to = Inr u \<longleftrightarrow> (\<forall>t. to = Some t \<longrightarrow> instant from \<le> instant t)"
  by (cases to) (auto simp add: validate_period_400_def validate_period_def after_def ensureE_def)

text \<open>On UTC midnights the instant comparison is the date comparison.\<close>

lemma validate_period_midnight:
  "validate_period_400 (midnight f) (map_option midnight t) = Inr u \<longleftrightarrow> ordered f t"
  by (cases t) (auto simp add: validate_period_400_Inr ordered_def midnight_def ns_per_day_def)

lemma validate_dates_after_birthdate_Inr:
  "validate_dates_after_birthdate from to bd = Inr u \<longleftrightarrow>
    local_day bd \<le> local_day from \<and> (\<forall>t. to = Some t \<longrightarrow> local_day bd \<le> local_day t)"
  by (cases to) (auto simp add: validate_dates_after_birthdate_def Let_def truncate_to_date_eq)

end
