(* ===== verification/Properties.thy ===== *)
theory Properties
  imports KitaPrelude
begin

text \<open>
  \<open>models.ContractProperties\<close> (\<open>internal/models/contract.go\<close>) and the three-valued request
  field \<open>models.Opt\<close> (\<open>internal/models/optional.go\<close>).
\<close>

section \<open>Opt\<close>

text \<open>\<open>Absent\<close> is \<open>Set = false\<close>, \<open>Null\<close> is \<open>Set\<close> with a nil value.\<close>

datatype 'a opt = Absent | Null | Value 'a

fun opt_set :: "'a opt \<Rightarrow> bool" where
  "opt_set Absent = False" | "opt_set Null = True" | "opt_set (Value v) = True"

fun opt_value :: "'a opt \<Rightarrow> 'a option" where
  "opt_value Absent = None" | "opt_value Null = None" | "opt_value (Value v) = Some v"

fun opt_is_null :: "'a opt \<Rightarrow> bool" where
  "opt_is_null Absent = False" | "opt_is_null Null = True" | "opt_is_null (Value v) = False"

text \<open>
  \<open>if v, ok := o.Get(); ok { x = v }\<close>, and \<open>if o.Set { x = o.Value }\<close> on a nullable field.
\<close>

definition opt_else :: "'a opt \<Rightarrow> 'a \<Rightarrow> 'a" where
  "opt_else ov x = (case opt_value ov of None \<Rightarrow> x | Some v \<Rightarrow> v)"

definition opt_assign :: "'a opt \<Rightarrow> 'a option \<Rightarrow> 'a option" where
  "opt_assign ov x = (if opt_set ov then opt_value ov else x)"

lemma opt_else_simps [simp]: "opt_else Absent x = x" "opt_else Null x = x" "opt_else (Value v) x = v"
  by (simp_all add: opt_else_def)

lemma opt_assign_simps [simp]:
  "opt_assign Absent x = x" "opt_assign Null x = None" "opt_assign (Value v) x = Some v"
  by (simp_all add: opt_assign_def)

section \<open>ContractProperties\<close>

text \<open>
  The dynamic type of a value: a string, a \<open>[]string\<close>, a \<open>[]any\<close> as JSON decoding yields it
  (an element that is not a string is \<open>None\<close>), or anything else.
\<close>

datatype pvalue = PString string | PStrings "string list" | PAnys "string option list" | POther

text \<open>
  A Go map, possibly nil. The list holds its entries in the order one iteration visits them;
  Go leaves that order open, so a result that depends on it holds for every order.
\<close>

type_synonym pmap = "(string \<times> pvalue) list"
type_synonym properties = "pmap option"

definition wf_props :: "properties \<Rightarrow> bool" where
  "wf_props p = (case p of None \<Rightarrow> True | Some m \<Rightarrow> distinct (map fst m))"

definition entries :: "properties \<Rightarrow> pmap" where
  "entries p = (case p of None \<Rightarrow> [] | Some m \<Rightarrow> m)"

definition prop_lookup :: "properties \<Rightarrow> string \<Rightarrow> pvalue option" where
  "prop_lookup p key = map_of (entries p) key"

fun any_strings :: "string option list \<Rightarrow> string list" where
  "any_strings [] = []"
| "any_strings (None # vs) = any_strings vs"
| "any_strings (Some s # vs) = s # any_strings vs"

definition get_scalar_property :: "properties \<Rightarrow> string \<Rightarrow> string" where
  "get_scalar_property p key =
     (case prop_lookup p key of Some (PString s) \<Rightarrow> s | _ \<Rightarrow> [])"

definition get_array_property :: "properties \<Rightarrow> string \<Rightarrow> string list" where
  "get_array_property p key =
     (case prop_lookup p key of
        Some (PStrings vs) \<Rightarrow> vs
      | Some (PAnys vs) \<Rightarrow> any_strings vs
      | _ \<Rightarrow> [])"

fun value_matches :: "pvalue \<Rightarrow> string \<Rightarrow> bool" where
  "value_matches (PString s) target = (s = target)"
| "value_matches (PStrings vs) target = (target \<in> set vs)"
| "value_matches (PAnys vs) target = (Some target \<in> set vs)"
| "value_matches POther target = False"

definition has_value :: "properties \<Rightarrow> string \<Rightarrow> string \<Rightarrow> bool" where
  "has_value p key v =
     (case prop_lookup p key of None \<Rightarrow> False | Some pv \<Rightarrow> value_matches pv v)"

definition contains_value :: "properties \<Rightarrow> string \<Rightarrow> bool" where
  "contains_value p v = list_ex (\<lambda>(k, pv). value_matches pv v) (entries p)"

definition get_all_values :: "properties \<Rightarrow> string \<Rightarrow> string list" where
  "get_all_values p key =
     (case prop_lookup p key of
        None \<Rightarrow> []
      | Some (PString s) \<Rightarrow> [s]
      | Some _ \<Rightarrow> get_array_property p key)"

text \<open>
  \<open>MergeDefaults\<close> writes into the receiver's own map unless that is nil: the result is the
  pair of the returned properties and what the receiver's map holds afterwards. The two are
  the same map object whenever the receiver was not nil.
\<close>

fun merge_entries :: "pmap \<Rightarrow> pmap \<Rightarrow> pmap" where
  "merge_entries merged [] = merged"
| "merge_entries merged ((k, v) # ds) =
     merge_entries (if map_of merged k = None then merged @ [(k, v)] else merged) ds"

definition merge_defaults :: "properties \<Rightarrow> properties \<Rightarrow> properties \<times> properties" where
  "merge_defaults p defaults =
     (if entries defaults = [] then (p, p)
      else case p of
             None \<Rightarrow> (Some (merge_entries [] (entries defaults)), None)
           | Some m \<Rightarrow>
               (let merged = merge_entries m (entries defaults) in (Some merged, Some merged)))"

section \<open>Lemmas\<close>

lemma any_strings_set: "set (any_strings vs) = {s. Some s \<in> set vs}"
  by (induction vs rule: any_strings.induct) auto

text \<open>The two readers agree: a value is matched iff it is among the values listed.\<close>

theorem has_value_get_all_values: "has_value p k v \<longleftrightarrow> v \<in> set (get_all_values p k)"
  by (auto simp add: has_value_def get_all_values_def get_array_property_def any_strings_set
      split: option.splits pvalue.splits)

lemma merge_entries_lookup:
  "map_of (merge_entries m ds) k = (case map_of m k of Some v \<Rightarrow> Some v | None \<Rightarrow> map_of ds k)"
proof (induction m ds rule: merge_entries.induct)
  case (1 merged)
  then show ?case by (simp split: option.splits)
next
  case (2 merged d v ds)
  show ?case
  proof (cases "map_of merged d")
    case None
    with 2 show ?thesis by (cases "map_of merged k") (auto simp add: map_add_def split: option.splits)
  next
    case (Some w)
    with 2 show ?thesis by (auto split: option.splits)
  qed
qed

lemma merge_entries_distinct:
  "distinct (map fst m) \<Longrightarrow> distinct (map fst (merge_entries m ds))"
  by (induction m ds rule: merge_entries.induct) (auto simp add: map_of_eq_None_iff)

lemma merge_entries_keys: "fst ` set (merge_entries m ds) = fst ` set m \<union> fst ` set ds"
proof (induction m ds rule: merge_entries.induct)
  case (2 merged d v ds)
  then show ?case by (auto simp add: map_of_eq_None_iff)
qed simp

text \<open>Defaults never overwrite, and fill exactly the missing keys.\<close>

lemma merge_defaults_lookup:
  "prop_lookup (fst (merge_defaults p d)) k
    = (case prop_lookup p k of Some v \<Rightarrow> Some v | None \<Rightarrow> prop_lookup d k)"
  by (cases p)
    (auto simp add: merge_defaults_def prop_lookup_def entries_def Let_def merge_entries_lookup
      split: option.splits)

lemma merge_defaults_wf: "wf_props p \<Longrightarrow> wf_props (fst (merge_defaults p d))"
  by (auto simp add: merge_defaults_def wf_props_def Let_def merge_entries_distinct
      split: option.splits)

lemma merge_defaults_receiver:
  "snd (merge_defaults p d) = (if p = None then None else fst (merge_defaults p d))"
  by (auto simp add: merge_defaults_def Let_def split: option.splits)

end
