(* ===== verification/Float64.thy ===== *)
theory Float64
  imports Complex_Main KitaPrelude "HOL-Library.Log_Nat"
begin

text \<open>
  IEEE 754 binary64 arithmetic, Go's \<open>float64\<close>: finite values are the rationals they denote,
  and every operation computes exactly and rounds once, to nearest with ties to even,
  gradual underflow and overflow to infinity. The sign of zero is not kept: no comparison,
  conversion or division the sources perform depends on it. Fused multiply-add, which the Go
  compiler may use on some platforms, is not modelled.
\<close>

datatype f64 = NaN | Inf bool | Fin rat

section \<open>Rounding\<close>

text \<open>\<open>ilog2 x\<close> is the exponent \<open>e\<close> with \<open>2 powi e \<le> x < 2 powi (e + 1)\<close>.\<close>

definition ilog2 :: "rat \<Rightarrow> int" where
  "ilog2 x =
     (case quotient_of x of (p, q) \<Rightarrow>
        let k = bitlen p - bitlen q in if 2 powi k \<le> x then k else k - 1)"

definition round_half_even :: "rat \<Rightarrow> int" where
  "round_half_even x =
     (let f = \<lfloor>x\<rfloor>; d = x - of_int f
      in if d < 1 / 2 then f else if 1 / 2 < d then f + 1 else if even f then f else f + 1)"

definition ulp_exp :: "rat \<Rightarrow> int" where
  "ulp_exp x = max (ilog2 \<bar>x\<bar> - 52) (- 1074)"

definition round_rat :: "rat \<Rightarrow> rat" where
  "round_rat x =
     (if x = 0 then 0
      else of_int (round_half_even (x / 2 powi ulp_exp x)) * 2 powi ulp_exp x)"

definition round64 :: "rat \<Rightarrow> f64" where
  "round64 x = (let r = round_rat x in if 2 ^ 1024 \<le> \<bar>r\<bar> then Inf (x < 0) else Fin r)"

section \<open>Operations\<close>

definition f64_of_int :: "int \<Rightarrow> f64" where
  "f64_of_int i = round64 (of_int i)"

fun is_nan :: "f64 \<Rightarrow> bool" where
  "is_nan NaN = True" | "is_nan _ = False"

fun is_inf :: "f64 \<Rightarrow> bool" where
  "is_inf (Inf _) = True" | "is_inf _ = False"

fun fadd :: "f64 \<Rightarrow> f64 \<Rightarrow> f64" where
  "fadd (Fin x) (Fin y) = round64 (x + y)"
| "fadd (Inf s) (Inf t) = (if s = t then Inf s else NaN)"
| "fadd (Inf s) (Fin _) = Inf s"
| "fadd (Fin _) (Inf t) = Inf t"
| "fadd _ _ = NaN"

fun fneg :: "f64 \<Rightarrow> f64" where
  "fneg NaN = NaN" | "fneg (Inf s) = Inf (\<not> s)" | "fneg (Fin x) = Fin (- x)"

definition fsub :: "f64 \<Rightarrow> f64 \<Rightarrow> f64" where
  "fsub x y = fadd x (fneg y)"

fun fmul :: "f64 \<Rightarrow> f64 \<Rightarrow> f64" where
  "fmul (Fin x) (Fin y) = round64 (x * y)"
| "fmul (Inf s) (Inf t) = Inf (s \<noteq> t)"
| "fmul (Inf s) (Fin y) = (if y = 0 then NaN else Inf (s \<noteq> (y < 0)))"
| "fmul (Fin x) (Inf t) = (if x = 0 then NaN else Inf ((x < 0) \<noteq> t))"
| "fmul _ _ = NaN"

text \<open>A zero divisor is taken as positive zero.\<close>

fun fdiv :: "f64 \<Rightarrow> f64 \<Rightarrow> f64" where
  "fdiv (Fin x) (Fin y) =
     (if y = 0 then (if x = 0 then NaN else Inf (x < 0)) else round64 (x / y))"
| "fdiv (Inf s) (Fin y) = Inf (s \<noteq> (y < 0))"
| "fdiv (Fin x) (Inf t) = Fin 0"
| "fdiv _ _ = NaN"

fun fless :: "f64 \<Rightarrow> f64 \<Rightarrow> bool" where
  "fless (Fin x) (Fin y) = (x < y)"
| "fless (Inf s) (Inf t) = (s \<and> \<not> t)"
| "fless (Inf s) (Fin _) = s"
| "fless (Fin _) (Inf t) = (\<not> t)"
| "fless _ _ = False"

fun fle :: "f64 \<Rightarrow> f64 \<Rightarrow> bool" where
  "fle (Fin x) (Fin y) = (x \<le> y)"
| "fle (Inf s) (Inf t) = (s \<or> \<not> t)"
| "fle (Inf s) (Fin _) = s"
| "fle (Fin _) (Inf t) = (\<not> t)"
| "fle _ _ = False"

text \<open>\<open>math.Round\<close>: to the nearest integer, halves away from zero.\<close>

definition round_half_away :: "rat \<Rightarrow> int" where
  "round_half_away x = (if 0 \<le> x then \<lfloor>x + 1 / 2\<rfloor> else - \<lfloor>- x + 1 / 2\<rfloor>)"

fun fround :: "f64 \<Rightarrow> f64" where
  "fround (Fin x) = Fin (of_int (round_half_away x))"
| "fround x = x"

text \<open>\<open>int(f)\<close> for a representable \<open>f\<close>: truncation towards zero.\<close>

definition trunc_rat :: "rat \<Rightarrow> int" where
  "trunc_rat x = (if 0 \<le> x then \<lfloor>x\<rfloor> else - \<lfloor>- x\<rfloor>)"

section \<open>Error bounds\<close>

lemma round_half_even_bound: "\<bar>of_int (round_half_even x) - x\<bar> \<le> 1 / 2"
proof -
  have "of_int \<lfloor>x\<rfloor> \<le> x" and "x < of_int \<lfloor>x\<rfloor> + 1" by linarith+
  then show ?thesis by (simp add: round_half_even_def Let_def abs_le_iff)
qed

lemma round_half_even_int [simp]: "round_half_even (of_int i) = i"
  by (simp add: round_half_even_def)

lemma round_half_away_int [simp]: "round_half_away (of_int i) = i"
proof -
  have "\<lfloor>of_int i + 1 / 2 :: rat\<rfloor> = i" and "\<lfloor>- of_int i + 1 / 2 :: rat\<rfloor> = - i"
    by (simp_all add: floor_eq_iff)
  then show ?thesis by (simp add: round_half_away_def)
qed

lemma round_half_away_bound: "\<bar>of_int (round_half_away x) - x\<bar> \<le> 1 / 2"
proof (cases "0 \<le> x")
  case True
  have "of_int \<lfloor>x + 1 / 2\<rfloor> \<le> x + 1 / 2" and "x + 1 / 2 < of_int \<lfloor>x + 1 / 2\<rfloor> + 1"
    by linarith+
  then have "\<bar>of_int \<lfloor>x + 1 / 2\<rfloor> - x\<bar> \<le> 1 / 2" by linarith
  then show ?thesis using True by (simp only: round_half_away_def if_True)
next
  case False
  have "of_int \<lfloor>- x + 1 / 2\<rfloor> \<le> - x + 1 / 2" and "- x + 1 / 2 < of_int \<lfloor>- x + 1 / 2\<rfloor> + 1"
    by linarith+
  then have "\<bar>- of_int \<lfloor>- x + 1 / 2\<rfloor> - x\<bar> \<le> 1 / 2" by linarith
  then show ?thesis using False by (simp only: round_half_away_def if_False of_int_minus)
qed

lemma round_half_away_close:
  assumes "\<bar>x - of_int i\<bar> < 1 / 2"
  shows "round_half_away x = i"
proof -
  have x: "x - of_int i < 1 / 2" "of_int i - x < 1 / 2"
    using assms by linarith+
  have "\<lfloor>x + 1 / 2\<rfloor> = i" unfolding floor_eq_iff using x by linarith
  moreover have "\<lfloor>- x + 1 / 2\<rfloor> = - i" unfolding floor_eq_iff of_int_minus using x by linarith
  ultimately show ?thesis by (simp add: round_half_away_def)
qed

lemma trunc_rat_of_int [simp]: "trunc_rat (of_int i) = i"
  by (simp add: trunc_rat_def)

lemma powi2_less_iff: "(2::rat) powi a < 2 powi b \<longleftrightarrow> a < b"
  by (metis linorder_not_less one_less_numeral_iff power_int_increasing order_less_imp_le
      power_int_strict_increasing semiring_norm(76))

lemma ilog2_bounds:
  assumes "0 < x"
  shows "2 powi (ilog2 x) \<le> x" and "x < 2 powi (ilog2 x + 1)"
proof -
  obtain p q where pq: "quotient_of x = (p, q)" by fastforce
  have q: "0 < q" using quotient_of_denom_pos [OF pq] .
  have x: "x = of_int p / of_int q" using quotient_of_div [OF pq] .
  have p: "0 < p" using assms q unfolding x by (simp add: zero_less_divide_iff)
  define a where "a = bitlen p"
  define b where "b = bitlen q"
  have ab: "0 < a" "0 < b" unfolding a_def b_def
    using p q bitlen_eq_zero_iff bitlen_nonneg by (simp_all add: order_less_le)
  have pb: "(2::rat) powi (a - 1) \<le> of_int p" "of_int p < (2::rat) powi a"
  proof -
    have "2 ^ nat (a - 1) \<le> p" "p < 2 ^ nat a" using bitlen_bounds [OF p] by (simp_all add: a_def)
    then have "(of_int (2 ^ nat (a - 1)) :: rat) \<le> of_int p" "of_int p < (of_int (2 ^ nat a) :: rat)"
      by (simp_all only: of_int_le_iff of_int_less_iff)
    then show "(2::rat) powi (a - 1) \<le> of_int p" "of_int p < (2::rat) powi a"
      using ab by (simp_all add: power_int_def)
  qed
  have qb: "(2::rat) powi (b - 1) \<le> of_int q" "of_int q < (2::rat) powi b"
  proof -
    have "2 ^ nat (b - 1) \<le> q" "q < 2 ^ nat b" using bitlen_bounds [OF q] by (simp_all add: b_def)
    then have "(of_int (2 ^ nat (b - 1)) :: rat) \<le> of_int q" "of_int q < (of_int (2 ^ nat b) :: rat)"
      by (simp_all only: of_int_le_iff of_int_less_iff)
    then show "(2::rat) powi (b - 1) \<le> of_int q" "of_int q < (2::rat) powi b"
      using ab by (simp_all add: power_int_def)
  qed
  have rq: "0 < (of_int q :: rat)" using q by simp
  have lo: "2 powi (a - b - 1) < x"
  proof -
    have "2 powi (a - b - 1) * of_int q < 2 powi (a - b - 1) * (2 powi b :: rat)"
      using qb by simp
    also have "\<dots> = 2 powi (a - 1)" by (simp flip: power_int_add)
    also have "\<dots> \<le> of_int p" using pb by simp
    finally show ?thesis unfolding x using rq by (simp add: less_divide_eq)
  qed
  have hi: "x < 2 powi (a - b + 1)"
  proof -
    have "(of_int p :: rat) < 2 powi a" using pb by simp
    also have "\<dots> = 2 powi (a - b + 1) * 2 powi (b - 1)" by (simp flip: power_int_add)
    also have "\<dots> \<le> 2 powi (a - b + 1) * of_int q" using qb by simp
    finally show ?thesis unfolding x using rq by (simp add: divide_less_eq)
  qed
  show "2 powi (ilog2 x) \<le> x" and "x < 2 powi (ilog2 x + 1)"
    using lo hi unfolding ilog2_def pq
    by (simp_all add: Let_def a_def [symmetric] b_def [symmetric] algebra_simps)
qed

text \<open>The rounding error is at most half a unit in the last place.\<close>

lemma round_rat_error: "\<bar>round_rat x - x\<bar> \<le> 2 powi (ulp_exp x) / 2"
proof (cases "x = 0")
  case True
  then show ?thesis by (simp add: round_rat_def)
next
  case False
  define u where "u = (2::rat) powi ulp_exp x"
  have u: "0 < u" by (simp add: u_def)
  have "round_rat x - x = (of_int (round_half_even (x / u)) - x / u) * u"
    using False u by (simp add: round_rat_def u_def [symmetric] algebra_simps)
  then have "\<bar>round_rat x - x\<bar> = \<bar>of_int (round_half_even (x / u)) - x / u\<bar> * u"
    using u by (simp add: abs_mult)
  also have "\<dots> \<le> 1 / 2 * u"
    using round_half_even_bound [of "x / u"] u by (intro mult_right_mono) simp_all
  finally show ?thesis by (simp add: u_def)
qed

text \<open>In the normal range that is a relative error of at most \<open>2 powi -53\<close>.\<close>

lemma round_rat_relative:
  assumes "2 powi (- 1022) \<le> \<bar>x\<bar>"
  shows "\<bar>round_rat x - x\<bar> \<le> \<bar>x\<bar> / 2 ^ 53"
proof -
  have x: "0 < \<bar>x\<bar>" using assms by (rule less_le_trans [rotated]) simp
  note b = ilog2_bounds [OF x]
  have "(2::rat) powi (- 1022) < 2 powi (ilog2 \<bar>x\<bar> + 1)" using assms b(2) by linarith
  then have "- 1022 < ilog2 \<bar>x\<bar> + 1"
    by (simp only: powi2_less_iff)
  then have u: "ulp_exp x = ilog2 \<bar>x\<bar> - 52" by (simp add: ulp_exp_def)
  have "\<bar>round_rat x - x\<bar> \<le> 2 powi (ilog2 \<bar>x\<bar> - 52) / 2"
    using round_rat_error [of x] by (simp add: u)
  also have "\<dots> = 2 powi (ilog2 \<bar>x\<bar>) / 2 ^ 53"
    by (simp add: power_int_diff)
  also have "\<dots> \<le> \<bar>x\<bar> / 2 ^ 53" using b(1) by (simp add: divide_right_mono)
  finally show ?thesis .
qed

text \<open>Integers below \<open>2 ^ 53\<close> are exact.\<close>

lemma round_rat_int:
  assumes "\<bar>i\<bar> < 2 ^ 53"
  shows "round_rat (of_int i) = of_int i"
proof (cases "i = 0")
  case False
  define u where "u = ulp_exp (of_int i)"
  have i: "0 < \<bar>i\<bar>" "\<bar>i\<bar> < 2 ^ 53" using assms False by linarith+
  have pos: "0 < \<bar>of_int i :: rat\<bar>" using False by simp
  have "\<bar>of_int i :: rat\<bar> < 2 powi 53"
  proof -
    have "(of_int \<bar>i\<bar> :: rat) < of_int (2 ^ 53)" using i by (simp only: of_int_less_iff)
    then show ?thesis by (simp add: power_int_def)
  qed
  then have "(2::rat) powi (ilog2 \<bar>of_int i\<bar>) < 2 powi 53"
    using ilog2_bounds(1) [OF pos] by linarith
  then have "ilog2 \<bar>of_int i :: rat\<bar> < 53" by (simp only: powi2_less_iff)
  then have u: "u \<le> 0" by (simp add: u_def ulp_exp_def)
  define n where "n = nat (- u)"
  have p: "(2::rat) powi u = inverse (2 ^ n)"
    using u by (cases "u = 0") (simp_all add: n_def power_int_def power_one_over inverse_eq_divide)
  have "(of_int i :: rat) / 2 powi u = of_int (i * 2 ^ n)"
    unfolding p by (simp add: divide_inverse)
  then have "round_rat (of_int i) = of_int (i * 2 ^ n) * inverse (2 ^ n)"
    using pos round_half_even_int [of "i * 2 ^ n"]
    by (simp add: round_rat_def u_def [symmetric] p)
  then show ?thesis by simp
next
  case True
  then show ?thesis by (simp add: round_rat_def)
qed

lemma abs_int_less_2_1024: "\<bar>i\<bar> < 2 ^ 53 \<Longrightarrow> \<not> 2 ^ 1024 \<le> \<bar>rat_of_int i\<bar>"
proof -
  assume "\<bar>i\<bar> < 2 ^ 53"
  then have "rat_of_int \<bar>i\<bar> < rat_of_int (2 ^ 53)" by (simp only: of_int_less_iff)
  then have "\<bar>rat_of_int i\<bar> < 2 ^ 53" by simp
  also have "(2 :: rat) ^ 53 \<le> 2 ^ 1024" by simp
  finally show ?thesis by simp
qed

lemma round64_int: "\<bar>i\<bar> < 2 ^ 53 \<Longrightarrow> round64 (of_int i) = Fin (of_int i)"
  using abs_int_less_2_1024 [of i] by (simp only: round64_def Let_def round_rat_int if_False)

lemma f64_of_int_exact: "\<bar>i\<bar> < 2 ^ 53 \<Longrightarrow> f64_of_int i = Fin (of_int i)"
  by (simp add: f64_of_int_def round64_int)

text \<open>No overflow below \<open>2 ^ 1023\<close>.\<close>

lemma round64_Fin:
  assumes "\<bar>x\<bar> \<le> 2 ^ 1023" and "x = 0 \<or> 2 powi (- 1022) \<le> \<bar>x\<bar>"
  shows "round64 x = Fin (round_rat x)" and "\<bar>round_rat x - x\<bar> \<le> \<bar>x\<bar> / 2 ^ 53"
proof -
  show e: "\<bar>round_rat x - x\<bar> \<le> \<bar>x\<bar> / 2 ^ 53"
    using assms(2) round_rat_relative [of x] by (auto simp add: round_rat_def)
  have "\<bar>round_rat x\<bar> \<le> \<bar>x\<bar> + \<bar>x\<bar> / 2 ^ 53" using e by linarith
  also have "\<dots> < 2 ^ 1024" using assms(1) by simp
  finally show "round64 x = Fin (round_rat x)" by (simp add: round64_def Let_def)
qed

lemma round64_0: "round64 0 = Fin 0"
  using round64_int [of 0] by simp

end
