(* ===== verification/Funding.thy ===== *)
theory Funding
  imports Periods Properties Float64
begin

text \<open>
  Government funding: the age rule of \<open>internal/validation/validation.go\<close>, the funding data of
  \<open>internal/models/funding.go\<close>, the matching of \<open>internal/service/child_funding.go\<close>, the
  per-child calculation of \<open>internal/service/calculate.go\<close>, and the write-time validation of
  \<open>internal/service/child_contract_properties.go\<close>.
\<close>

section \<open>Ages\<close>

definition calculate_age_on_date :: "gtime \<Rightarrow> gtime \<Rightarrow> int" where
  "calculate_age_on_date birthdate reference =
     (let years = year_of reference - year_of birthdate;
          years' = (if month_of reference < month_of birthdate \<or>
                       month_of reference = month_of birthdate \<and> day_of reference < day_of birthdate
                    then years - 1 else years)
      in if years' < 0 then 0 else years')"

definition funding_age_on_date :: "gtime \<Rightarrow> gtime \<Rightarrow> int" where
  "funding_age_on_date birthdate billing = calculate_age_on_date birthdate (add_date billing 0 0 (- 1))"

text \<open>The day before a first of the month, by civil parts.\<close>

lemma day_before_first:
  assumes "day_of t = 1"
  shows "civil (local_day t - 1) =
    (if month_of t = 1 then (year_of t - 1, 12, 31)
     else (year_of t, month_of t - 1, days_in_month (year_of t) (month_of t - 1)))"
proof -
  define y where "y = year_of t"
  define m where "m = month_of t"
  have z: "local_day t = day_number y m 1"
    using day_number_time [of t] assms by (simp add: y_def m_def)
  have m: "1 \<le> m" "m \<le> 12" using month_of_range [of t] by (simp_all add: m_def)
  show ?thesis
  proof (cases "m = 1")
    case True
    have "valid_civil (y - 1) 12 31"
      by (simp add: valid_civil_def days_in_month_def days_before_month_eqs)
    moreover have "day_number (y - 1) 12 31 = day_number y 1 1 - 1"
      using days_before_year_Suc [of "y - 1"]
      by (simp add: day_number_def days_before_month_eqs days_in_year_def)
    ultimately have "civil (day_number y 1 1 - 1) = (y - 1, 12, 31)"
      using civil_day_number by metis
    then show ?thesis using True z by (simp add: y_def [symmetric] m_def [symmetric])
  next
    case False
    have v: "valid_civil y (m - 1) (days_in_month y (m - 1))"
      using m False days_in_month_bounds [of "m - 1" y] by (simp add: valid_civil_def)
    have "day_number y (m - 1) (days_in_month y (m - 1)) = day_number y m 1 - 1"
      by (simp add: day_number_def days_in_month_def)
    then have "civil (day_number y m 1 - 1) = (y, m - 1, days_in_month y (m - 1))"
      using civil_day_number [OF v] by simp
    then show ?thesis using False z by (simp add: y_def [symmetric] m_def [symmetric])
  qed
qed

text \<open>A birthday 29 February has no counterpart in the February before a first of March.\<close>

definition leap_day_gap :: "gtime \<Rightarrow> gtime \<Rightarrow> bool" where
  "leap_day_gap birthdate billing \<longleftrightarrow>
     month_of birthdate = 2 \<and> day_of birthdate = 29 \<and> month_of billing = 3
     \<and> \<not> is_leap (year_of billing)"

lemma days_in_month_leap:
  "1 \<le> m \<Longrightarrow> m \<le> 12 \<Longrightarrow> days_in_month y m < d \<Longrightarrow> d \<le> days_in_month y' m \<Longrightarrow>
    m = 2 \<and> d = 29 \<and> \<not> is_leap y"
  using month_cases [of m]
  by (auto simp add: days_in_month_def days_before_month_eqs split: if_splits)

lemma funding_age_first:
  assumes "day_of billing = 1"
  shows "funding_age_on_date birthdate billing =
    max 0 (year_of billing - year_of birthdate
      - (if month_of billing \<le> month_of birthdate \<or> leap_day_gap birthdate billing then 1 else 0))"
proof -
  define r where "r = add_date billing 0 0 (- 1)"
  have b: "valid_civil (year_of birthdate) (month_of birthdate) (day_of birthdate)"
    by (rule valid_civil_time)
  have rc: "civil (local_day r) = civil (local_day billing - 1)" by (simp add: r_def)
  show ?thesis
  proof (cases "month_of billing = 1")
    case True
    then have r: "year_of r = year_of billing - 1" "month_of r = 12" "day_of r = 31"
      using day_before_first [OF assms] rc by (simp_all add: year_of_def month_of_def day_of_def)
    have "day_of birthdate \<le> 31" "1 \<le> month_of birthdate" "month_of birthdate \<le> 12"
      using b days_in_month_bounds [of "month_of birthdate" "year_of birthdate"]
      by (auto simp add: valid_civil_def)
    then show ?thesis using True r
      by (auto simp add: funding_age_on_date_def calculate_age_on_date_def Let_def
          r_def [symmetric] leap_day_gap_def)
  next
    case False
    define p where "p = month_of billing - 1"
    have r: "year_of r = year_of billing" "month_of r = p"
        "day_of r = days_in_month (year_of billing) p"
      using False day_before_first [OF assms] rc
      by (simp_all add: year_of_def month_of_def day_of_def p_def)
    have p: "1 \<le> p" "p \<le> 12" using False month_of_range [of billing] by (simp_all add: p_def)
    have gap: "p = month_of birthdate \<and> days_in_month (year_of billing) p < day_of birthdate
        \<longleftrightarrow> leap_day_gap birthdate billing"
    proof
      assume h: "p = month_of birthdate \<and> days_in_month (year_of billing) p < day_of birthdate"
      then have "day_of birthdate \<le> days_in_month (year_of birthdate) p"
        using b by (simp add: valid_civil_def)
      then have "p = 2 \<and> day_of birthdate = 29 \<and> \<not> is_leap (year_of billing)"
        using days_in_month_leap [OF p] h by blast
      then show "leap_day_gap birthdate billing" using h by (simp add: leap_day_gap_def p_def)
    next
      assume "leap_day_gap birthdate billing"
      then show "p = month_of birthdate \<and> days_in_month (year_of billing) p < day_of birthdate"
        by (simp add: leap_day_gap_def p_def days_in_month_def days_before_month_eqs)
    qed
    show ?thesis using gap r p
      by (auto simp add: funding_age_on_date_def calculate_age_on_date_def Let_def
          r_def [symmetric] p_def)
  qed
qed

section \<open>Funding configuration\<close>

record funding_property =
  fp_id :: nat
  fp_key :: string
  fp_value :: string
  fp_label :: string
  fp_payment :: int
  fp_requirement :: f64
  fp_min_age :: "int option"
  fp_max_age :: "int option"
  fp_apply_to_all :: bool

record funding_period = period +
  gp_id :: nat
  gp_full_time_hours :: f64
  gp_required_keys :: "string list"
  gp_properties :: "funding_property list"

definition matches_age :: "funding_property \<Rightarrow> int \<Rightarrow> bool" where
  "matches_age fp age =
     (if fp_min_age fp = None \<and> fp_max_age fp = None then True
      else if (case fp_min_age fp of None \<Rightarrow> False | Some a \<Rightarrow> age < a) then False
      else if (case fp_max_age fp of None \<Rightarrow> False | Some a \<Rightarrow> a < age) then False
      else True)"

fun find_period_for_date :: "funding_period list \<Rightarrow> gtime \<Rightarrow> funding_period option" where
  "find_period_for_date [] date = None"
| "find_period_for_date (p # ps) date =
     (if is_active_on p date then Some p else find_period_for_date ps date)"

text \<open>The separator string the code joins a key and a value with.\<close>

definition kv_key :: "string \<Rightarrow> string \<Rightarrow> string" where
  "kv_key k v = k @ '':'' @ v"

fun match_loop ::
    "int \<Rightarrow> properties \<Rightarrow> string list \<Rightarrow> funding_property list \<Rightarrow> funding_property list" where
  "match_loop age props seen [] = []"
| "match_loop age props seen (fp # fps) =
     (if \<not> matches_age fp age \<or> \<not> has_value props (fp_key fp) (fp_value fp)
        then match_loop age props seen fps
      else let kv = kv_key (fp_key fp) (fp_value fp)
           in if kv \<in> set seen then match_loop age props seen fps
              else fp # match_loop age props (kv # seen) fps)"

definition match_funding_properties ::
    "int \<Rightarrow> properties \<Rightarrow> funding_period option \<Rightarrow> funding_property list" where
  "match_funding_properties age props period =
     (case period of None \<Rightarrow> [] | Some p \<Rightarrow> match_loop age props [] (gp_properties p))"

definition sum_child_funding_match ::
    "int \<Rightarrow> properties \<Rightarrow> funding_period option \<Rightarrow> int \<times> f64" where
  "sum_child_funding_match age props period =
     foldl (\<lambda>(payment, requirement) fp.
         (s64 (payment + fp_payment fp), fadd requirement (fp_requirement fp)))
       (0, Fin 0) (match_funding_properties age props period)"

definition sum_child_requirement :: "int \<Rightarrow> properties \<Rightarrow> funding_period option \<Rightarrow> f64" where
  "sum_child_requirement age props period = snd (sum_child_funding_match age props period)"

definition get_all_contract_key_values :: "properties \<Rightarrow> (string \<times> string) list" where
  "get_all_contract_key_values props =
     concat (map (\<lambda>(key, _). map (\<lambda>v. (key, v)) (get_all_values props key)) (entries props))"

section \<open>Funding of one child\<close>

record child_funding =
  cf_funding :: int
  cf_requirement :: f64
  cf_matched :: "(string \<times> string) list"
  cf_unmatched :: "(string \<times> string) list"

fun accumulate_matches ::
    "child_funding \<Rightarrow> string list \<Rightarrow> funding_property list \<Rightarrow> child_funding \<times> string list" where
  "accumulate_matches r matched_set [] = (r, matched_set)"
| "accumulate_matches r matched_set (fp # fps) =
     (let r1 = r\<lparr>cf_funding := s64 (cf_funding r + fp_payment fp),
                 cf_requirement := fadd (cf_requirement r) (fp_requirement fp)\<rparr>;
          kv = kv_key (fp_key fp) (fp_value fp)
      in if kv \<in> set matched_set then accumulate_matches r1 matched_set fps
         else accumulate_matches
                (r1\<lparr>cf_matched := cf_matched r1 @ [(fp_key fp, fp_value fp)]\<rparr>)
                (kv # matched_set) fps)"

definition calculate_child_funding ::
    "int \<Rightarrow> properties \<Rightarrow> funding_period option \<Rightarrow> child_funding" where
  "calculate_child_funding age props period =
     (let empty_result = \<lparr>cf_funding = 0, cf_requirement = Fin 0, cf_matched = [], cf_unmatched = []\<rparr>;
          kvs = get_all_contract_key_values props
      in case period of
           None \<Rightarrow> empty_result\<lparr>cf_unmatched := kvs\<rparr>
         | Some _ \<Rightarrow>
             (case accumulate_matches empty_result []
                     (match_funding_properties age props period) of
                (r, matched_set) \<Rightarrow>
                  r\<lparr>cf_unmatched := filter (\<lambda>(k, v). kv_key k v \<notin> set matched_set) kvs\<rparr>))"

section \<open>Write-time validation of child contract properties\<close>

text \<open>
  The declared key/value strings, and per key the values in declaration order without
  repetitions of a known pair.
\<close>

fun declared_values :: "funding_property list \<Rightarrow> (string \<times> string) list \<Rightarrow> string list \<Rightarrow>
    (string \<times> string) list \<times> string list" where
  "declared_values [] vals known = (vals, known)"
| "declared_values (p # ps) vals known =
     (let kv = kv_key (fp_key p) (fp_value p)
      in if kv \<in> set known then declared_values ps vals known
         else declared_values ps (vals @ [(fp_key p, fp_value p)]) (kv # known))"

definition values_of_key :: "(string \<times> string) list \<Rightarrow> string \<Rightarrow> string list" where
  "values_of_key vals key = map snd (filter (\<lambda>(k, _). k = key) vals)"

definition unknown_rule :: "(string \<times> string) list \<Rightarrow> string \<Rightarrow> string" where
  "unknown_rule vals key = (if values_of_key vals key = [] then ''unknown_key'' else ''not_one_of'')"

definition check_key ::
    "properties \<Rightarrow> (string \<times> string) list \<Rightarrow> string list \<Rightarrow> string \<Rightarrow> string \<Rightarrow> field_violation list" where
  "check_key props vals known path_prefix key =
     (let values = get_all_values props key;
          path = path_prefix @ ''properties.'' @ key;
          bad = [field (unknown_rule vals key) (join_strings '', '' (values_of_key vals key)) path]
      in if 1 < length values then [field ''single_value'' (join_strings '', '' values) path]
         else if values = [] then bad
         else if kv_key key (hd values) \<notin> set known then bad
         else [])"

definition check_required ::
    "properties \<Rightarrow> (string \<times> string) list \<Rightarrow> string \<Rightarrow> string \<Rightarrow> field_violation list" where
  "check_required props vals path_prefix key =
     (if get_all_values props key = []
      then [field ''one_of'' (join_strings '', '' (values_of_key vals key))
              (path_prefix @ ''properties.'' @ key)]
      else [])"

definition validate_contract_properties ::
    "properties \<Rightarrow> funding_period option \<Rightarrow> string \<Rightarrow> unit outcome" where
  "validate_contract_properties props period path_prefix =
     (case period of
        None \<Rightarrow> Inr ()
      | Some p \<Rightarrow>
          (case declared_values (gp_properties p) [] [] of
             (vals, known) \<Rightarrow>
               (let fields =
                      concat (map (check_key props vals known path_prefix)
                        (sort (map fst (entries props)))) @
                      concat (map (check_required props vals path_prefix) (gp_required_keys p))
                in if fields = [] then Inr ()
                   else Inl (invalid_fields (sort_key fv_field fields)))))"

text \<open>\<open>autoApplyProperties\<close>: nil when no property is universal.\<close>

definition auto_apply_properties :: "funding_period option \<Rightarrow> properties" where
  "auto_apply_properties period =
     (case period of
        None \<Rightarrow> None
      | Some p \<Rightarrow>
          (let defaults =
                 foldl (\<lambda>m prop. alist_add (fp_key prop) (PString (fp_value prop)) (\<lambda>_ v. v) m)
                   [] (filter fp_apply_to_all (gp_properties p))
           in if defaults = [] then None else Some defaults))"

end
