(* ===== verification/ContractStore.thy ===== *)
theory ContractStore
  imports Funding
begin

text \<open>
  The contract tables behind \<open>ChildStore\<close>, \<open>EmployeeStore\<close> and \<open>PeriodStore\<close>
  (\<open>internal/store\<close>), with the transaction of \<open>internal/store/transactor.go\<close>. Everything is
  polymorphic in the record that extends \<open>base_contract\<close>, as the Go code is generic in the
  contract type. A DATE column drops the time of day; the exclusion constraint of migration
  000022 is checked when a transaction commits. Driver failures are not modelled; a transaction
  that is rolled back also gives back the ids it drew, which PostgreSQL's sequences do not.
\<close>

section \<open>Rows\<close>

record base_contract =
  c_id :: nat
  c_owner :: nat
  c_from :: gtime
  c_to :: "gtime option"
  c_section :: nat
  c_props :: properties
  c_version :: int

record 'c ctable =
  t_rows :: "'c list"
  t_next :: nat

definition from_day :: "'a base_contract_scheme \<Rightarrow> int" where
  "from_day c = local_day (c_from c)"

definition to_day :: "'a base_contract_scheme \<Rightarrow> int option" where
  "to_day c = day_opt (c_to c)"

definition covers :: "'a base_contract_scheme \<Rightarrow> int set" where
  "covers c = days (from_day c) (to_day c)"

text \<open>What a write stores of a contract object.\<close>

definition to_row :: "'a base_contract_scheme \<Rightarrow> 'a base_contract_scheme" where
  "to_row c = c\<lparr>c_from := truncate_to_date (c_from c),
                c_to := map_option truncate_to_date (c_to c)\<rparr>"

text \<open>PostgreSQL builds the range of a new row version at once, and refuses one whose lower
  bound exceeds its upper bound \<open>to_date + 1\<close>.\<close>

definition range_ok :: "'a base_contract_scheme \<Rightarrow> bool" where
  "range_ok c = (case to_day c of None \<Rightarrow> True | Some t \<Rightarrow> from_day c \<le> t + 1)"

section \<open>Store operations\<close>

definition find_contract_by_id ::
    "'a base_contract_scheme ctable \<Rightarrow> nat \<Rightarrow> 'a base_contract_scheme outcome" where
  "find_contract_by_id t i =
     (case find (\<lambda>r. c_id r = i) (t_rows t) of
        None \<Rightarrow> Inl (StoreError StoreNotFound)
      | Some r \<Rightarrow> Inr r)"

definition get_record_on ::
    "'a base_contract_scheme ctable \<Rightarrow> nat \<Rightarrow> gtime \<Rightarrow> 'a base_contract_scheme option" where
  "get_record_on t owner date =
     find (\<lambda>r. c_owner r = owner \<and> sql_active_on (from_day r) (to_day r) (local_day date)) (t_rows t)"

definition has_active_record :: "'a base_contract_scheme ctable \<Rightarrow> nat \<Rightarrow> gtime \<Rightarrow> bool" where
  "has_active_record t owner date \<longleftrightarrow>
     0 < length (filter (\<lambda>r. c_owner r = owner \<and>
           sql_active_on (from_day r) (to_day r) (local_day date)) (t_rows t))"

definition validate_no_overlap_sql ::
    "'a base_contract_scheme ctable \<Rightarrow> nat \<Rightarrow> gtime \<Rightarrow> gtime option \<Rightarrow> nat option \<Rightarrow> unit outcome" where
  "validate_no_overlap_sql t owner from to exclude =
     (let n = length (filter (\<lambda>r. c_owner r = owner \<and> Some (c_id r) \<noteq> exclude \<and>
                sql_overlap (from_day r) (to_day r) (local_day from) (day_opt to)) (t_rows t))
      in ensureE (n = 0) (StoreError StorePeriodOverlap))"

text \<open>The contract object after a successful update carries the new version.\<close>

definition update_contract ::
    "'a base_contract_scheme ctable \<Rightarrow> 'a base_contract_scheme \<Rightarrow>
      ('a base_contract_scheme \<times> 'a base_contract_scheme ctable) outcome" where
  "update_contract t c =
     (let prev = c_version c; c' = c\<lparr>c_version := s64 (prev + 1)\<rparr>
      in if \<not> list_ex (\<lambda>r. c_id r = c_id c \<and> c_version r = prev) (t_rows t)
           then Inl (StoreError StoreVersionConflict)
         else if \<not> range_ok c then Inl (PgError ''22000'')
         else Inr (c', t\<lparr>t_rows := map (\<lambda>r. if c_id r = c_id c \<and> c_version r = prev
                                             then to_row c' else r) (t_rows t)\<rparr>))"

definition create_contract ::
    "'a base_contract_scheme ctable \<Rightarrow> 'a base_contract_scheme \<Rightarrow>
      ('a base_contract_scheme \<times> 'a base_contract_scheme ctable) outcome" where
  "create_contract t c =
     (let c' = c\<lparr>c_id := t_next t, c_version := 1\<rparr>
      in if \<not> range_ok c then Inl (PgError ''22000'')
         else Inr (c', t\<lparr>t_rows := t_rows t @ [to_row c'], t_next := Suc (t_next t)\<rparr>))"

definition delete_contract ::
    "'a base_contract_scheme ctable \<Rightarrow> nat \<Rightarrow> int option \<Rightarrow> 'a base_contract_scheme ctable outcome" where
  "delete_contract t i expected =
     (let hit = (\<lambda>r. c_id r = i \<and> (case expected of None \<Rightarrow> True | Some v \<Rightarrow> c_version r = v))
      in if expected \<noteq> None \<and> filter hit (t_rows t) = []
           then Inl (StoreError StoreVersionConflict)
         else Inr (t\<lparr>t_rows := filter (\<lambda>r. \<not> hit r) (t_rows t)\<rparr>))"

section \<open>Transactions\<close>

definition rows_conflict :: "'a base_contract_scheme \<Rightarrow> 'a base_contract_scheme \<Rightarrow> bool" where
  "rows_conflict r s \<longleftrightarrow>
     c_owner r = c_owner s \<and> daterange_overlap (from_day r) (to_day r) (from_day s) (to_day s)"

fun exclusion_ok :: "'a base_contract_scheme list \<Rightarrow> bool" where
  "exclusion_ok [] = True"
| "exclusion_ok (r # rs) = (list_all (\<lambda>s. \<not> rows_conflict r s) rs \<and> exclusion_ok rs)"

text \<open>An error of the body rolls back; so does a commit that violates the constraint.\<close>

definition in_transaction ::
    "('a base_contract_scheme ctable \<Rightarrow> ('r \<times> 'a base_contract_scheme ctable) outcome) \<Rightarrow>
      'a base_contract_scheme ctable \<Rightarrow> 'r outcome \<times> 'a base_contract_scheme ctable" where
  "in_transaction body t =
     (case body t of
        Inl e \<Rightarrow> (Inl e, t)
      | Inr (x, t') \<Rightarrow>
          if exclusion_ok (t_rows t') then (Inr x, t') else (Inl (PgError ''23P01''), t))"

section \<open>Table invariant\<close>

definition table_ok :: "'a base_contract_scheme ctable \<Rightarrow> bool" where
  "table_ok t \<longleftrightarrow>
     distinct (map c_id (t_rows t)) \<and> (\<forall>r \<in> set (t_rows t). c_id r < t_next t) \<and>
     (\<forall>r \<in> set (t_rows t). to_row r = r \<and> range_ok r \<and> in_s64 (c_version r)) \<and>
     exclusion_ok (t_rows t)"

lemma to_row_simps [simp]:
  "c_id (to_row c) = c_id c" "c_owner (to_row c) = c_owner c" "c_section (to_row c) = c_section c"
  "c_props (to_row c) = c_props c" "c_version (to_row c) = c_version c"
  "base_contract.more (to_row c) = base_contract.more c"
  by (simp_all add: to_row_def)

lemma day_opt_truncate [simp]: "day_opt (map_option truncate_to_date t) = day_opt t"
  by (cases t) (simp_all add: truncate_to_date_eq)

lemma to_row_days [simp]: "from_day (to_row c) = from_day c" "to_day (to_row c) = to_day c"
  by (simp_all add: to_row_def from_day_def to_day_def truncate_to_date_eq)

lemma to_row_idem [simp]: "to_row (to_row c) = to_row c"
  by (cases "c_to c") (simp_all add: to_row_def)

lemma days_upd [simp]:
  "from_day (c\<lparr>c_id := i\<rparr>) = from_day c" "from_day (c\<lparr>c_version := v\<rparr>) = from_day c"
  "from_day (c\<lparr>c_to := t\<rparr>) = from_day c" "from_day (c\<lparr>c_props := p\<rparr>) = from_day c"
  "from_day (c\<lparr>c_from := f\<rparr>) = local_day f"
  "to_day (c\<lparr>c_id := i\<rparr>) = to_day c" "to_day (c\<lparr>c_version := v\<rparr>) = to_day c"
  "to_day (c\<lparr>c_from := f\<rparr>) = to_day c" "to_day (c\<lparr>c_props := p\<rparr>) = to_day c"
  "to_day (c\<lparr>c_to := t\<rparr>) = day_opt t"
  by (simp_all add: from_day_def to_day_def)

lemma range_ok_upd [simp]:
  "range_ok (to_row c) = range_ok c" "range_ok (c\<lparr>c_id := i\<rparr>) = range_ok c"
  "range_ok (c\<lparr>c_version := v\<rparr>) = range_ok c"
  by (simp_all add: range_ok_def split: option.split)

lemma rows_conflict_sym: "rows_conflict r s \<longleftrightarrow> rows_conflict s r"
  by (auto simp add: rows_conflict_def daterange_overlap_days Int_commute)

text \<open>With distinct ids, the recursive check says that no two different rows conflict.\<close>

lemma exclusion_ok_distinct:
  assumes "distinct (map c_id rs)"
  shows "exclusion_ok rs \<longleftrightarrow>
    (\<forall>r \<in> set rs. \<forall>s \<in> set rs. c_id r \<noteq> c_id s \<longrightarrow> \<not> rows_conflict r s)"
  using assms
proof (induction rs)
  case (Cons r rs)
  have "c_id r \<notin> c_id ` set rs" using Cons.prems by simp
  then have "c_id s \<noteq> c_id r" if "s \<in> set rs" for s using that by (metis imageI)
  with Cons show ?case by (auto simp add: list_all_iff rows_conflict_sym)
qed simp

lemma table_okD:
  assumes "table_ok t"
  shows "distinct (map c_id (t_rows t))" and "r \<in> set (t_rows t) \<Longrightarrow> c_id r < t_next t"
    and "r \<in> set (t_rows t) \<Longrightarrow> to_row r = r" and "r \<in> set (t_rows t) \<Longrightarrow> range_ok r"
    and "r \<in> set (t_rows t) \<Longrightarrow> in_s64 (c_version r)" and "exclusion_ok (t_rows t)"
  using assms by (auto simp add: table_ok_def)

lemma row_unique:
  assumes "distinct (map c_id rs)" and "r \<in> set rs" and "s \<in> set rs" and "c_id r = c_id s"
  shows "r = s"
  using assms by (induction rs) (auto simp add: image_iff)

lemma find_contract_by_id_Inr:
  "find_contract_by_id t i = Inr r \<Longrightarrow> r \<in> set (t_rows t) \<and> c_id r = i"
  by (auto simp add: find_contract_by_id_def find_Some_iff split: option.splits)

lemma find_contract_by_id_iff:
  assumes "distinct (map c_id (t_rows t))"
  shows "find_contract_by_id t i = Inr r \<longleftrightarrow> r \<in> set (t_rows t) \<and> c_id r = i"
proof
  assume r: "r \<in> set (t_rows t) \<and> c_id r = i"
  then obtain r' where r': "find (\<lambda>r. c_id r = i) (t_rows t) = Some r'"
    by (cases "find (\<lambda>r. c_id r = i) (t_rows t)") (auto simp add: find_None_iff)
  then have "r' \<in> set (t_rows t)" "c_id r' = i" by (auto simp add: find_Some_iff)
  then have "r' = r" using row_unique [OF assms] r by metis
  with r' show "find_contract_by_id t i = Inr r" by (simp add: find_contract_by_id_def)
qed (rule find_contract_by_id_Inr)

lemma validate_no_overlap_sql_Inr:
  "validate_no_overlap_sql t owner f e x = Inr u \<longleftrightarrow>
    (\<forall>r \<in> set (t_rows t). c_owner r = owner \<longrightarrow> Some (c_id r) \<noteq> x \<longrightarrow>
      \<not> sql_overlap (from_day r) (to_day r) (local_day f) (day_opt e))"
  by (auto simp add: validate_no_overlap_sql_def Let_def ensureE_def filter_empty_conv)

text \<open>The application-level check refuses whatever the constraint would refuse.\<close>

lemma daterange_imp_sql: "daterange_overlap f1 t1 f2 t2 \<Longrightarrow> sql_overlap f1 t1 f2 t2"
  by (cases t1; cases t2) (auto simp add: daterange_overlap_def sql_overlap_def)

lemma in_transaction_Inr:
  "in_transaction body t = (Inr x, t') \<longleftrightarrow> body t = Inr (x, t') \<and> exclusion_ok (t_rows t')"
  by (auto simp add: in_transaction_def split: sum.splits prod.splits if_splits)

lemma in_transaction_Inl: "in_transaction body t = (Inl e, t') \<Longrightarrow> t' = t"
  by (auto simp add: in_transaction_def split: sum.splits prod.splits if_splits)


section \<open>What the operations do to a table\<close>

text \<open>\<open>table_wf\<close> is the invariant without the constraint, which only holds between transactions.\<close>

definition table_wf :: "'a base_contract_scheme ctable \<Rightarrow> bool" where
  "table_wf t \<longleftrightarrow>
     distinct (map c_id (t_rows t)) \<and> (\<forall>r \<in> set (t_rows t). c_id r < t_next t) \<and>
     (\<forall>r \<in> set (t_rows t). to_row r = r \<and> range_ok r \<and> in_s64 (c_version r))"

lemma table_ok_iff: "table_ok t \<longleftrightarrow> table_wf t \<and> exclusion_ok (t_rows t)"
  by (auto simp add: table_ok_def table_wf_def)

lemma update_contract_Inr:
  assumes "update_contract t c = Inr (c', t')"
  shows "c' = c\<lparr>c_version := s64 (c_version c + 1)\<rparr>" and "range_ok c"
    and "\<exists>r \<in> set (t_rows t). c_id r = c_id c \<and> c_version r = c_version c"
    and "t' = t\<lparr>t_rows := map (\<lambda>r. if c_id r = c_id c \<and> c_version r = c_version c
                                 then to_row c' else r) (t_rows t)\<rparr>"
  using assms by (auto simp add: update_contract_def Let_def list_ex_iff split: if_splits)

text \<open>Ids being unique, the version guard singles out one row.\<close>

lemma update_contract_rows:
  assumes "distinct (map c_id (t_rows t))" and "update_contract t c = Inr (c', t')"
  shows "t_rows t' = map (\<lambda>r. if c_id r = c_id c then to_row c' else r) (t_rows t)"
    and "t_next t' = t_next t"
proof -
  note u = update_contract_Inr [OF assms(2)]
  obtain r where r: "r \<in> set (t_rows t)" "c_id r = c_id c" "c_version r = c_version c"
    using u(3) by blast
  have "\<And>s. s \<in> set (t_rows t) \<Longrightarrow> c_id s = c_id c \<Longrightarrow> c_version s = c_version c"
    using row_unique [OF assms(1) r(1)] r by metis
  then show "t_rows t' = map (\<lambda>r. if c_id r = c_id c then to_row c' else r) (t_rows t)"
    unfolding u(4) by auto
  show "t_next t' = t_next t" unfolding u(4) by simp
qed

lemma update_contract_wf:
  assumes "table_wf t" and "update_contract t c = Inr (c', t')"
  shows "table_wf t'"
proof -
  have d: "distinct (map c_id (t_rows t))" using assms(1) by (simp add: table_wf_def)
  note u = update_contract_Inr [OF assms(2)] and rows = update_contract_rows [OF d assms(2)]
  have ids: "c_id c' = c_id c" and "range_ok c'" and "in_s64 (c_version c')"
    using u(1,2) by (simp_all add: s64_in_range)
  have "map c_id (t_rows t') = map c_id (t_rows t)"
    unfolding rows(1) using ids by (simp add: comp_def)
  moreover have "\<forall>r \<in> set (t_rows t'). to_row r = r \<and> range_ok r \<and> in_s64 (c_version r)"
    unfolding rows(1) using assms(1) \<open>range_ok c'\<close> \<open>in_s64 (c_version c')\<close> by (auto simp add: table_wf_def)
  moreover have "\<forall>r \<in> set (t_rows t'). c_id r < t_next t'"
    unfolding rows using assms(1) ids u(3) by (auto simp add: table_wf_def)
  ultimately show ?thesis using d by (simp add: table_wf_def)
qed

lemma create_contract_Inr:
  assumes "create_contract t c = Inr (c', t')"
  shows "c' = c\<lparr>c_id := t_next t, c_version := 1\<rparr>" and "range_ok c"
    and "t' = t\<lparr>t_rows := t_rows t @ [to_row c'], t_next := Suc (t_next t)\<rparr>"
  using assms by (auto simp add: create_contract_def Let_def split: if_splits)

lemma create_contract_wf:
  assumes "table_wf t" and "create_contract t c = Inr (c', t')"
  shows "table_wf t'"
proof -
  note u = create_contract_Inr [OF assms(2)]
  have "t_next t \<notin> c_id ` set (t_rows t)" using assms(1) by (auto simp add: table_wf_def)
  then show ?thesis using assms(1) u(1,2) unfolding u(3)
    by (auto simp add: table_wf_def less_Suc_eq in_s64_def min_int_def max_int_def)
qed

lemma delete_contract_rows:
  assumes "delete_contract t i v = Inr t'"
  shows "\<exists>P. t_rows t' = filter P (t_rows t)" and "t_next t' = t_next t"
  using assms by (auto simp add: delete_contract_def Let_def split: if_splits)

lemma exclusion_ok_filter: "exclusion_ok rs \<Longrightarrow> exclusion_ok (filter P rs)"
  by (induction rs) (auto simp add: list_all_iff)

lemma delete_contract_ok:
  assumes "table_ok t" and "delete_contract t i v = Inr t'"
  shows "table_ok t'"
proof -
  obtain P where P: "t_rows t' = filter P (t_rows t)" "t_next t' = t_next t"
    using delete_contract_rows [OF assms(2)] by blast
  then show ?thesis using assms(1)
    by (auto simp add: table_ok_def exclusion_ok_filter distinct_map_filter)
qed

lemma in_transaction_ok:
  assumes "table_ok t" and "in_transaction body t = (res, t')"
    and "\<And>x s. body t = Inr (x, s) \<Longrightarrow> table_wf s"
  shows "table_ok t'"
proof (cases res)
  case (Inl e)
  then show ?thesis using assms(1,2) in_transaction_Inl by metis
next
  case (Inr x)
  then show ?thesis using assms by (simp add: in_transaction_Inr table_ok_iff)
qed

section \<open>Optimistic concurrency\<close>

text \<open>
  The contract a version-guarded store offers its writers, and what follows from it for any
  two of them. \<open>cver\<close> is the version an object carries, \<open>stored\<close> the version the store holds
  for a key.
\<close>

locale versioned_store =
  fixes stored :: "'t \<Rightarrow> nat \<Rightarrow> int option"
    and upd :: "'t \<Rightarrow> 'c \<Rightarrow> ('c \<times> 't) outcome"
    and ckey :: "'c \<Rightarrow> nat"
    and cver :: "'c \<Rightarrow> int"
    and inv :: "'t \<Rightarrow> bool"
  assumes upd_guard: "inv t \<Longrightarrow> upd t c = Inr (c', t') \<Longrightarrow> stored t (ckey c) = Some (cver c)"
    and upd_stored: "inv t \<Longrightarrow> upd t c = Inr (c', t') \<Longrightarrow> stored t' (ckey c) = Some (cver c')"
    and upd_object: "upd t c = Inr (c', t') \<Longrightarrow> ckey c' = ckey c \<and> cver c' = s64 (cver c + 1)"
    and upd_frame: "inv t \<Longrightarrow> upd t c = Inr (c', t') \<Longrightarrow> i \<noteq> ckey c \<Longrightarrow> stored t' i = stored t i"
    and upd_stale: "stored t (ckey c) \<noteq> Some (cver c) \<Longrightarrow> inv t \<Longrightarrow>
        upd t c = Inl (StoreError StoreVersionConflict)"
    and upd_inv: "inv t \<Longrightarrow> upd t c = Inr (c', t') \<Longrightarrow> inv t'"
begin

text \<open>Of two writers that read the same version, the second is refused.\<close>

lemma second_writer_refused:
  assumes "inv t" and "upd t c = Inr (c', t')" and "ckey w = ckey c" and "cver w = cver c"
    and "in_s64 (cver c)"
  shows "upd t' w = Inl (StoreError StoreVersionConflict)"
proof (rule upd_stale)
  have "cver c' \<noteq> cver w"
    using upd_object [OF assms(2)] s64_Suc_neq [of "cver c"] assms(4,5) s64_id by metis
  then show "stored t' (ckey w) \<noteq> Some (cver w)"
    using upd_stored [OF assms(1,2)] assms(3) by simp
  show "inv t'" using upd_inv [OF assms(1,2)] .
qed

text \<open>A writer that read what the store holds, and writes again with the object it got
  back, is not refused for its version.\<close>

lemma own_version_current:
  assumes "inv t" and "upd t c = Inr (c', t')"
  shows "stored t' (ckey c') = Some (cver c')"
  using upd_stored [OF assms] upd_object [OF assms(2)] by simp

end

definition stored_version :: "'a base_contract_scheme ctable \<Rightarrow> nat \<Rightarrow> int option" where
  "stored_version t i = map_option c_version (find (\<lambda>r. c_id r = i) (t_rows t))"

lemma find_map_update:
  "find (\<lambda>r. c_id r = i) (map (\<lambda>r. if c_id r = j then x else r) rs)
    = (if i = j \<and> c_id x = j then (if j \<in> c_id ` set rs then Some x else None)
       else find (\<lambda>r. c_id r = i) rs)" if "c_id x = j"
  using that by (induction rs) auto

lemma stored_version_iff:
  assumes "distinct (map c_id (t_rows t))"
  shows "stored_version t i = Some v \<longleftrightarrow> (\<exists>r \<in> set (t_rows t). c_id r = i \<and> c_version r = v)"
proof
  assume "stored_version t i = Some v"
  then show "\<exists>r \<in> set (t_rows t). c_id r = i \<and> c_version r = v"
    by (auto simp add: stored_version_def find_Some_iff)
next
  assume "\<exists>r \<in> set (t_rows t). c_id r = i \<and> c_version r = v"
  then obtain r where r: "r \<in> set (t_rows t)" "c_id r = i" "c_version r = v" by blast
  then have "find_contract_by_id t i = Inr r" using find_contract_by_id_iff [OF assms] by blast
  then show "stored_version t i = Some v"
    using r by (auto simp add: find_contract_by_id_def stored_version_def split: option.splits)
qed

interpretation contracts: versioned_store stored_version update_contract c_id c_version table_wf
proof (unfold_locales, goal_cases)
  case (1 t c c' t')
  then show ?case
    using update_contract_Inr(3) [OF 1(2)] stored_version_iff [of t] by (simp add: table_wf_def)
next
  case (2 t c c' t')
  then have "distinct (map c_id (t_rows t))" by (simp add: table_wf_def)
  note u = update_contract_Inr [OF 2(2)] update_contract_rows [OF this 2(2)]
  have "c_id c \<in> c_id ` set (t_rows t)" using u(3) by (metis imageI)
  then show ?case using u(1) by (simp add: stored_version_def u(5) find_map_update)
next
  case (3 t c c' t')
  then show ?case using update_contract_Inr(1) by fastforce
next
  case (4 t c c' t' i)
  then have "distinct (map c_id (t_rows t))" by (simp add: table_wf_def)
  note u = update_contract_Inr [OF 4(2)] update_contract_rows [OF this 4(2)]
  show ?case using 4(3) u(1) by (simp add: stored_version_def u(5) find_map_update)
next
  case (5 t c)
  then show ?case
    by (auto simp add: update_contract_def Let_def list_ex_iff table_wf_def stored_version_iff)
next
  case (6 t c c' t')
  then show ?case by (rule update_contract_wf)
qed

end
