(* ===== verification/ContractOps.thy ===== *)
theory ContractOps
  imports ContractStore
begin

text \<open>
  The transaction shapes the child and employee services share:
  \<open>internal/service/contract_intent.go\<close> and \<open>internal/service/contract_amend.go\<close>. A closure
  the service passes in is a function on the table inside the transaction. The table a
  handler loads its contract from and the table its transaction runs on are different
  arguments, since another writer may commit in between.
\<close>

section \<open>Checks\<close>

definition check_version :: "int option \<Rightarrow> int \<Rightarrow> string \<Rightarrow> unit outcome" where
  "check_version expected current what =
     (case expected of
        None \<Rightarrow> Inr ()
      | Some e \<Rightarrow>
          ensureE (e = current)
            (precondition_failed
              (what @ '' was changed by someone else (you have version '' @ itoa e @
               '', current is '' @ itoa current @ '') '' @ em_dash @ '' reload and reapply your change'')))"

definition map_version_race :: "go_error \<Rightarrow> bool \<Rightarrow> go_error" where
  "map_version_race err had_precondition =
     (if \<not> is_store_error err StoreVersionConflict then err
      else if had_precondition
        then precondition_failed (''this contract was changed by someone else since you read it '' @
               em_dash @ '' reload and reapply your change'')
      else conflict (''this contract was changed by someone else '' @ em_dash @
             '' reload and try again''))"

definition check_amend_seam :: "gtime \<Rightarrow> gtime option \<Rightarrow> gtime \<Rightarrow> unit outcome" where
  "check_amend_seam contract_from contract_to seam =
     (let from = truncate_to_date contract_from; at_day = truncate_to_date seam
      in if \<not> after at_day from
           then Inl (bad_request ''effective_from must be after the contract's start date; correct the contract in place instead'')
         else if (case contract_to of None \<Rightarrow> False | Some t \<Rightarrow> before (truncate_to_date t) at_day)
           then Inl (bad_request ''the contract already ended before effective_from; amending it would extend it'')
         else Inr ())"

definition check_adjacent ::
    "gtime \<Rightarrow> gtime option \<Rightarrow> gtime \<Rightarrow> gtime option \<Rightarrow> gtime \<Rightarrow> unit outcome" where
  "check_adjacent earlier_from earlier_to later_from later_to at_time =
     (let eFrom = truncate_to_date earlier_from; lFrom = truncate_to_date later_from;
          seam = truncate_to_date at_time
      in if \<not> before eFrom lFrom
           then Inl (bad_request ''earlier_id must name the contract that starts first'')
         else case earlier_to of
           None \<Rightarrow> Inl (bad_request ''the earlier contract has no end date, so the two do not share a boundary'')
         | Some et \<Rightarrow>
             if \<not> equal_time (add_date (truncate_to_date et) 0 0 1) lFrom
               then Inl (bad_request ''the two contracts are not adjacent, so they share no boundary; set each end date instead'')
             else if \<not> after seam eFrom
               then Inl (bad_request ''the boundary must leave the earlier contract at least one day'')
             else if (case later_to of None \<Rightarrow> False | Some lt \<Rightarrow> after seam (truncate_to_date lt))
               then Inl (bad_request ''the boundary must leave the later contract at least one day'')
             else Inr ())"

section \<open>Error mapping\<close>

definition contract_overlap_error :: "go_error \<Rightarrow> go_error" where
  "contract_overlap_error err =
     (if is_store_error err StorePeriodOverlap then contract_conflict (error_text err)
      else internal_wrap err ''failed to validate contract'')"

definition contract_version_conflict :: "go_error \<Rightarrow> go_error" where
  "contract_version_conflict err =
     (if is_store_error err StoreVersionConflict
      then conflict (''this contract was changed by someone else '' @ em_dash @
             '' reload and try again'')
      else err)"

definition map_contract_deferred_overlap :: "go_error \<Rightarrow> go_error" where
  "map_contract_deferred_overlap err =
     (if is_exclusion_violation err \<or> is_deadlock err
        then contract_conflict ''contract dates overlap with an existing contract''
      else if is_store_error err StoreVersionConflict then contract_version_conflict err
      else err)"

text \<open>Mapping the error half of an outcome.\<close>

definition map_error :: "('e \<Rightarrow> 'f) \<Rightarrow> 'e + 'a \<Rightarrow> 'f + 'a" where
  "map_error f r = (case r of Inl e \<Rightarrow> Inl (f e) | Inr x \<Rightarrow> Inr x)"

lemma map_error_simps [simp]: "map_error f (Inl e) = Inl (f e)" "map_error f (Inr x) = Inr x"
  by (simp_all add: map_error_def)

lemma map_error_Inr [simp]: "map_error f r = Inr x \<longleftrightarrow> r = Inr x"
  by (cases r) simp_all

section \<open>Transaction shapes\<close>

type_synonym ('r, 'c) tx_body = "'c ctable \<Rightarrow> ('r \<times> 'c ctable) outcome"

definition in_place_contract_update ::
    "nat \<Rightarrow> gtime \<Rightarrow> gtime option \<Rightarrow> nat \<Rightarrow> ('r, 'a base_contract_scheme) tx_body \<Rightarrow>
      'a base_contract_scheme ctable \<Rightarrow> 'r outcome \<times> 'a base_contract_scheme ctable" where
  "in_place_contract_update owner from to contract_id update_fn t =
     (case validate_period_400 from to of
        Inl e \<Rightarrow> (Inl e, t)
      | Inr _ \<Rightarrow>
          apfst (map_error map_contract_deferred_overlap)
            (in_transaction
              (\<lambda>s. bindE (map_error contract_overlap_error
                       (validate_no_overlap_sql s owner from to (Some contract_id)))
                     (\<lambda>_. update_fn s)) t))"

text \<open>
  \<open>close_old\<close> returns what it leaves behind (the closed contract object); \<open>create_new\<close> the
  object it created.
\<close>

definition amend_contract_tx ::
    "nat \<Rightarrow> gtime \<Rightarrow> gtime \<Rightarrow> gtime option \<Rightarrow> (gtime \<Rightarrow> ('r, 'a base_contract_scheme) tx_body) \<Rightarrow>
      ('q, 'a base_contract_scheme) tx_body \<Rightarrow> 'a base_contract_scheme ctable \<Rightarrow>
      ('r \<times> 'q) outcome \<times> 'a base_contract_scheme ctable" where
  "amend_contract_tx owner this_day new_from new_to close_old create_new t =
     (case validate_period_400 new_from new_to of
        Inl e \<Rightarrow> (Inl e, t)
      | Inr _ \<Rightarrow>
          (let yesterday = add_date this_day 0 0 (- 1)
           in apfst (map_error map_contract_deferred_overlap)
                (in_transaction
                  (\<lambda>s. bindE (close_old yesterday s) (\<lambda>(closed, s1).
                       bindE (map_error contract_overlap_error
                           (validate_no_overlap_sql s1 owner new_from new_to None)) (\<lambda>_.
                       bindE (create_new s1) (\<lambda>(created, s2).
                         Inr ((closed, created), s2))))) t)))"

definition amend_seam ::
    "nat \<Rightarrow> gtime \<Rightarrow> gtime option \<Rightarrow> (gtime \<Rightarrow> ('r, 'a base_contract_scheme) tx_body) \<Rightarrow>
      ('q, 'a base_contract_scheme) tx_body \<Rightarrow> 'a base_contract_scheme ctable \<Rightarrow>
      ('r \<times> 'q) outcome \<times> 'a base_contract_scheme ctable" where
  "amend_seam owner seam new_to close_old create_new t =
     amend_contract_tx owner seam seam new_to close_old create_new t"

record period_ref =
  pr_id :: nat
  pr_from :: gtime
  pr_to :: "gtime option"

fun validate_sides :: "period_ref list \<Rightarrow> unit outcome" where
  "validate_sides [] = Inr ()"
| "validate_sides (s # ss) = bindE (validate_period_400 (pr_from s) (pr_to s)) (\<lambda>_. validate_sides ss)"

fun overlap_sides ::
    "'a base_contract_scheme ctable \<Rightarrow> nat \<Rightarrow> period_ref list \<Rightarrow> unit outcome" where
  "overlap_sides t owner [] = Inr ()"
| "overlap_sides t owner (s # ss) =
     bindE (map_error contract_overlap_error
         (validate_no_overlap_sql t owner (pr_from s) (pr_to s) (Some (pr_id s))))
       (\<lambda>_. overlap_sides t owner ss)"

definition move_boundary_tx ::
    "nat \<Rightarrow> period_ref \<Rightarrow> period_ref \<Rightarrow> ('r, 'a base_contract_scheme) tx_body \<Rightarrow>
      'a base_contract_scheme ctable \<Rightarrow> 'r outcome \<times> 'a base_contract_scheme ctable" where
  "move_boundary_tx owner earlier later save_fn t =
     (case validate_sides [earlier, later] of
        Inl e \<Rightarrow> (Inl e, t)
      | Inr _ \<Rightarrow>
          apfst (map_error map_contract_deferred_overlap)
            (in_transaction
              (\<lambda>s. bindE (save_fn s) (\<lambda>(x, s1).
                   bindE (overlap_sides s1 owner [earlier, later]) (\<lambda>_. Inr (x, s1)))) t))"

text \<open>The save and create transactions of \<open>CreateContract\<close> in both services.\<close>

definition create_tx ::
    "nat \<Rightarrow> gtime \<Rightarrow> gtime option \<Rightarrow> 'a base_contract_scheme \<Rightarrow> 'a base_contract_scheme ctable \<Rightarrow>
      'a base_contract_scheme outcome \<times> 'a base_contract_scheme ctable" where
  "create_tx owner from to c t =
     apfst (map_error map_contract_deferred_overlap)
       (in_transaction
         (\<lambda>s. bindE (map_error contract_overlap_error
                  (validate_no_overlap_sql s owner from to None))
                (\<lambda>_. create_contract s c)) t)"

section \<open>Loading, ending and moving, for either service\<close>

text \<open>
  \<open>load*Contract\<close>: the owner must exist in the organization of the URL and the contract
  belong to it. \<open>owners\<close> is the owner table: organization and birthdate by id.
\<close>

type_synonym owner_table = "nat \<Rightarrow> (nat \<times> gtime) option"

definition find_owner :: "owner_table \<Rightarrow> nat \<Rightarrow> nat \<Rightarrow> string \<Rightarrow> gtime outcome" where
  "find_owner owners owner org kind =
     (case owners owner of
        None \<Rightarrow> Inl (classify_store_error (StoreError StoreNotFound) kind)
      | Some (o_org, birthdate) \<Rightarrow>
          bindE (verify_org_ownership o_org org kind) (\<lambda>_. Inr birthdate))"

definition load_contract ::
    "owner_table \<Rightarrow> 'a base_contract_scheme ctable \<Rightarrow> string \<Rightarrow> nat \<Rightarrow> nat \<Rightarrow> nat \<Rightarrow>
      (gtime \<times> 'a base_contract_scheme) outcome" where
  "load_contract owners t kind contract_id owner org =
     bindE (find_owner owners owner org kind) (\<lambda>birthdate.
     bindE (map_error (\<lambda>e. classify_store_error e ''contract'') (find_contract_by_id t contract_id)) (\<lambda>c.
     bindE (verify_record_ownership (c_owner c) owner ''contract'') (\<lambda>_.
       Inr (birthdate, c))))"

text \<open>The guarded write of one object, as a transaction body.\<close>

definition save_contract ::
    "'a base_contract_scheme \<Rightarrow> ('a base_contract_scheme, 'a base_contract_scheme) tx_body" where
  "save_contract c s = update_contract s c"

definition save_two ::
    "'a base_contract_scheme \<Rightarrow> 'a base_contract_scheme \<Rightarrow>
      ('a base_contract_scheme \<times> 'a base_contract_scheme, 'a base_contract_scheme) tx_body" where
  "save_two c d s =
     bindE (update_contract s c) (\<lambda>(c', s1).
     bindE (update_contract s1 d) (\<lambda>(d', s2). Inr ((c', d'), s2)))"

definition section_ok :: "(nat \<Rightarrow> nat option) \<Rightarrow> nat \<Rightarrow> nat \<Rightarrow> unit outcome" where
  "section_ok sections section_id org =
     (case sections section_id of
        None \<Rightarrow> Inl (bad_request ''section not found'')
      | Some s_org \<Rightarrow> ensureE (s_org = org) (bad_request ''section does not belong to this organization''))"

text \<open>\<open>EndContract\<close>, the same in both services.\<close>

record end_request =
  er_to :: "gtime opt"
  er_version :: "int option"

definition end_contract ::
    "owner_table \<Rightarrow> string \<Rightarrow> 'a base_contract_scheme ctable \<Rightarrow> 'a base_contract_scheme ctable \<Rightarrow>
      nat \<Rightarrow> nat \<Rightarrow> nat \<Rightarrow> end_request \<Rightarrow>
      'a base_contract_scheme outcome \<times> 'a base_contract_scheme ctable" where
  "end_contract owners kind t0 t contract_id owner org req =
     (case bindE (load_contract owners t0 kind contract_id owner org) (\<lambda>(birthdate, contract).
           bindE (check_version (er_version req) (c_version contract) ''this contract'') (\<lambda>_.
           bindE (ensureE (opt_set (er_to req))
               (bad_request ''to is required; send null to reopen the contract as ongoing'')) (\<lambda>_.
           let contract' = contract\<lparr>c_to := opt_value (er_to req)\<rparr>
           in bindE (validate_period_400 (c_from contract') (c_to contract')) (\<lambda>_.
              bindE (validate_dates_after_birthdate (c_from contract') (c_to contract') birthdate) (\<lambda>_.
                Inr contract'))))) of
        Inl e \<Rightarrow> (Inl e, t)
      | Inr c \<Rightarrow> in_place_contract_update owner (c_from c) (c_to c) (c_id c) (save_contract c) t)"

text \<open>
  \<open>MoveContractBoundary\<close>; \<open>extra\<close> is the pay-plan check the employee service makes on the
  later contract at its new start.
\<close>

record boundary_request =
  br_earlier :: nat
  br_later :: nat
  br_at :: gtime
  br_earlier_version :: int
  br_later_version :: int

definition move_contract_boundary ::
    "owner_table \<Rightarrow> string \<Rightarrow> ('a base_contract_scheme \<Rightarrow> unit outcome) \<Rightarrow>
      'a base_contract_scheme ctable \<Rightarrow> 'a base_contract_scheme ctable \<Rightarrow> nat \<Rightarrow> nat \<Rightarrow> boundary_request \<Rightarrow>
      ('a base_contract_scheme \<times> 'a base_contract_scheme) outcome \<times> 'a base_contract_scheme ctable" where
  "move_contract_boundary owners kind extra t0 t owner org req =
     (case
        bindE (ensureE (br_earlier req \<noteq> br_later req)
            (bad_request ''earlier_id and later_id must name different contracts'')) (\<lambda>_.
        bindE (load_contract owners t0 kind (br_earlier req) owner org) (\<lambda>(birthdate, earlier).
        bindE (load_contract owners t0 kind (br_later req) owner org) (\<lambda>(_, later).
        bindE (check_version (Some (br_earlier_version req)) (c_version earlier) ''the earlier contract'') (\<lambda>_.
        bindE (check_version (Some (br_later_version req)) (c_version later) ''the later contract'') (\<lambda>_.
        bindE (check_adjacent (c_from earlier) (c_to earlier) (c_from later) (c_to later) (br_at req)) (\<lambda>_.
        let seam = truncate_to_date (br_at req);
            day_before = add_date seam 0 0 (- 1);
            earlier' = earlier\<lparr>c_to := Some day_before\<rparr>;
            later' = later\<lparr>c_from := seam\<rparr>
        in bindE (validate_dates_after_birthdate (c_from later') (c_to later') birthdate) (\<lambda>_.
           bindE (extra later') (\<lambda>_. Inr (earlier', later'))))))))) of
        Inl e \<Rightarrow> (Inl e, t)
      | Inr (earlier, later) \<Rightarrow>
          move_boundary_tx owner
            \<lparr>pr_id = c_id earlier, pr_from = c_from earlier, pr_to = c_to earlier\<rparr>
            \<lparr>pr_id = c_id later, pr_from = c_from later, pr_to = c_to later\<rparr>
            (save_two earlier later) t)"

text \<open>\<open>DeleteContract\<close>, the same in both services; \<open>t\<close> is the table the delete meets.\<close>

definition delete_contract_op ::
    "owner_table \<Rightarrow> string \<Rightarrow> 'a base_contract_scheme ctable \<Rightarrow> 'a base_contract_scheme ctable \<Rightarrow>
      nat \<Rightarrow> nat \<Rightarrow> nat \<Rightarrow> int option \<Rightarrow> unit outcome \<times> 'a base_contract_scheme ctable" where
  "delete_contract_op owners kind t0 t contract_id owner org expected =
     (case bindE (load_contract owners t0 kind contract_id owner org) (\<lambda>(_, contract).
           check_version expected (c_version contract) ''this contract'') of
        Inl e \<Rightarrow> (Inl e, t)
      | Inr _ \<Rightarrow>
          (case delete_contract t contract_id expected of
             Inl e \<Rightarrow>
               (let mapped = map_version_race e (expected \<noteq> None)
                in if mapped \<noteq> e then (Inl mapped, t)
                   else (Inl (internal_wrap e ''failed to delete contract''), t))
           | Inr t' \<Rightarrow> (Inr (), t')))"

end
