(* ===== verification/ContractLaws.thy ===== *)
theory ContractLaws
  imports ContractOps
begin

text \<open>
  What the transaction shapes of \<open>ContractOps\<close> guarantee, for any service built from them:
  errors leave the table alone, successes keep its invariant, a writer whose version is stale
  is refused, and the application-level overlap check leaves nothing for the exclusion
  constraint to find when nobody else writes.
\<close>

lemma map_error_Inr2 [simp]: "Inr x = map_error f r \<longleftrightarrow> r = Inr x"
  by (cases r) auto

lemma apfst_eq: "apfst f p = (r, t) \<longleftrightarrow> (\<exists>x. p = (x, t) \<and> r = f x)"
  by (cases p) auto

named_theorems tx_defs

lemmas [tx_defs] = in_place_contract_update_def amend_seam_def amend_contract_tx_def
  move_boundary_tx_def create_tx_def Let_def

section \<open>Errors leave the table alone\<close>

lemma map_error_Inl:
  "map_error f r = Inl e \<longleftrightarrow> (\<exists>d. r = Inl d \<and> e = f d)"
  "Inl e = map_error f r \<longleftrightarrow> (\<exists>d. r = Inl d \<and> e = f d)"
  by (cases r; auto)+

lemma tx_error_unchanged:
  "in_place_contract_update w f e i body t = (Inl err, t') \<Longrightarrow> t' = t"
  "amend_seam w seam nt cl cr t = (Inl err, t') \<Longrightarrow> t' = t"
  "move_boundary_tx w a b sv t = (Inl err, t') \<Longrightarrow> t' = t"
  "create_tx w f e c t = (Inl err, t') \<Longrightarrow> t' = t"
  by (auto simp add: tx_defs apfst_eq map_error_Inl dest: in_transaction_Inl split: sum.splits)

section \<open>Successes\<close>

lemma in_place_Inr:
  "in_place_contract_update w f e i body t = (Inr x, t') \<longleftrightarrow>
     validate_period_400 f e = Inr () \<and> validate_no_overlap_sql t w f e (Some i) = Inr () \<and>
     body t = Inr (x, t') \<and> exclusion_ok (t_rows t')"
  by (auto simp add: tx_defs apfst_eq in_transaction_Inr result_simps split: sum.splits)

lemma create_tx_Inr:
  "create_tx w f e c t = (Inr x, t') \<longleftrightarrow>
     validate_no_overlap_sql t w f e None = Inr () \<and>
     create_contract t c = Inr (x, t') \<and> exclusion_ok (t_rows t')"
  by (auto simp add: tx_defs apfst_eq in_transaction_Inr result_simps split: sum.splits)

lemma amend_seam_Inr:
  "amend_seam w seam nt cl cr t = (Inr (x, y), t') \<longleftrightarrow>
     validate_period_400 seam nt = Inr () \<and>
     (\<exists>s. cl (add_date seam 0 0 (- 1)) t = Inr (x, s) \<and>
          validate_no_overlap_sql s w seam nt None = Inr () \<and> cr s = Inr (y, t')) \<and>
     exclusion_ok (t_rows t')"
  by (auto simp add: tx_defs apfst_eq in_transaction_Inr result_simps split: sum.splits prod.splits)

lemma overlap_sides_Inr:
  "overlap_sides t w ss = Inr u \<longleftrightarrow>
     (\<forall>s \<in> set ss. validate_no_overlap_sql t w (pr_from s) (pr_to s) (Some (pr_id s)) = Inr ())"
  by (induction ss) (auto simp add: result_simps)

lemma validate_sides_Inr:
  "validate_sides ss = Inr u \<longleftrightarrow>
     (\<forall>s \<in> set ss. validate_period_400 (pr_from s) (pr_to s) = Inr ())"
  by (induction ss) (auto simp add: result_simps)

lemma move_boundary_Inr:
  "move_boundary_tx w a b sv t = (Inr x, t') \<longleftrightarrow>
     validate_sides [a, b] = Inr () \<and> sv t = Inr (x, t') \<and>
     overlap_sides t' w [a, b] = Inr () \<and> exclusion_ok (t_rows t')"
  by (auto simp add: move_boundary_tx_def apfst_eq in_transaction_Inr result_simps
      simp del: validate_sides.simps overlap_sides.simps split: sum.splits prod.splits)

lemma save_two_Inr:
  "save_two c d t = Inr ((c', d'), t') \<longleftrightarrow>
     (\<exists>s. update_contract t c = Inr (c', s) \<and> update_contract s d = Inr (d', t'))"
  by (auto simp add: save_two_def result_simps split: prod.splits)

section \<open>The table invariant\<close>

lemma tx_keeps_table:
  assumes "table_ok t"
  shows "in_place_contract_update w f e i (save_contract c) t = (res, t') \<Longrightarrow> table_ok t'"
    and "create_tx w f e c t = (res, t') \<Longrightarrow> table_ok t'"
    and "amend_seam w seam nt (\<lambda>d s. update_contract s (upd d)) (\<lambda>s. create_contract s n) t
           = (res2, t') \<Longrightarrow> table_ok t'"
    and "move_boundary_tx w a b (save_two c d) t = (res3, t') \<Longrightarrow> table_ok t'"
proof -
  have wf: "table_wf t" using assms by (simp add: table_ok_iff)
  show "in_place_contract_update w f e i (save_contract c) t = (res, t') \<Longrightarrow> table_ok t'"
    using assms tx_error_unchanged(1) update_contract_wf [OF wf]
    by (cases res) (fastforce simp add: in_place_Inr save_contract_def table_ok_iff)+
  show "create_tx w f e c t = (res, t') \<Longrightarrow> table_ok t'"
    using assms tx_error_unchanged(4) create_contract_wf [OF wf]
    by (cases res) (fastforce simp add: create_tx_Inr table_ok_iff)+
  show "table_ok t'" if "amend_seam w seam nt (\<lambda>d s. update_contract s (upd d))
      (\<lambda>s. create_contract s n) t = (res2, t')"
  proof (cases res2)
    case (Inl err)
    then show ?thesis using assms tx_error_unchanged(2) that by metis
  next
    case (Inr xy)
    with that obtain s x y where "update_contract t (upd (add_date seam 0 0 (- 1))) = Inr (x, s)"
        and "create_contract s n = Inr (y, t')" and "exclusion_ok (t_rows t')"
      by (cases xy) (auto simp add: amend_seam_Inr)
    then show ?thesis
      using update_contract_wf [OF wf] create_contract_wf table_ok_iff by blast
  qed
  show "table_ok t'" if "move_boundary_tx w a b (save_two c d) t = (res3, t')"
  proof (cases res3)
    case (Inl err)
    then show ?thesis using assms tx_error_unchanged(3) that by metis
  next
    case (Inr xy)
    with that obtain s x y where "update_contract t c = Inr (x, s)"
        and "update_contract s d = Inr (y, t')" and "exclusion_ok (t_rows t')"
      by (cases xy) (auto simp add: move_boundary_Inr save_two_Inr)
    then show ?thesis using update_contract_wf [OF wf] update_contract_wf table_ok_iff by blast
  qed
qed

text \<open>An owner's contracts never share a day.\<close>

lemma table_ok_disjoint:
  assumes "table_ok t" and "r \<in> set (t_rows t)" and "s \<in> set (t_rows t)" and "c_owner r = c_owner s"
    and "d \<in> covers r" and "d \<in> covers s"
  shows "r = s"
proof (rule ccontr)
  assume "r \<noteq> s"
  note ok = table_okD [OF assms(1)]
  have "c_id r \<noteq> c_id s" using row_unique [OF ok(1)] assms(2,3) \<open>r \<noteq> s\<close> by blast
  then have "\<not> rows_conflict r s" using exclusion_ok_distinct [OF ok(1)] ok(6) assms(2,3) by blast
  then show False using assms(4-6) by (auto simp add: rows_conflict_def daterange_overlap_days covers_def)
qed

section \<open>The guarded write, exactly\<close>

lemma update_contract_iff:
  assumes "distinct (map c_id (t_rows t))"
  shows "update_contract t c = Inr (c', t') \<longleftrightarrow>
    (\<exists>r \<in> set (t_rows t). c_id r = c_id c \<and> c_version r = c_version c) \<and> range_ok c \<and>
    c' = c\<lparr>c_version := s64 (c_version c + 1)\<rparr> \<and>
    t' = t\<lparr>t_rows := map (\<lambda>r. if c_id r = c_id c then to_row c' else r) (t_rows t)\<rparr>" (is "?l \<longleftrightarrow> ?r")
proof
  assume l: ?l
  have "t' = t\<lparr>t_rows := t_rows t'\<rparr>" using update_contract_Inr(4) [OF l] by simp
  with update_contract_rows(1) [OF assms l] update_contract_Inr(1-3) [OF l] show ?r by auto
next
  assume r: ?r
  then have "list_ex (\<lambda>r. c_id r = c_id c \<and> c_version r = c_version c) (t_rows t)" by (simp add: list_ex_iff)
  then have "\<exists>x s. update_contract t c = Inr (x, s)" using r by (auto simp add: update_contract_def Let_def)
  then obtain x s where u: "update_contract t c = Inr (x, s)" by blast
  have "s = t\<lparr>t_rows := t_rows s\<rparr>" using update_contract_Inr(4) [OF u] by simp
  then show ?l using u r update_contract_rows(1) [OF assms u] update_contract_Inr(1) [OF u] by auto
qed

section \<open>Loading\<close>

lemma load_contract_Inr:
  "load_contract owners t kind i w org = Inr (b, c) \<longleftrightarrow>
     find_owner owners w org kind = Inr b \<and> find_contract_by_id t i = Inr c \<and> c_owner c = w"
  by (auto simp add: load_contract_def verify_record_ownership_def result_simps)

lemma find_owner_Inr:
  "find_owner owners w org kind = Inr b \<longleftrightarrow> owners w = Some (org, b)"
  by (auto simp add: find_owner_def verify_org_ownership_def result_simps split: option.splits)

lemma check_version_Inr: "check_version e v what = Inr u \<longleftrightarrow> (\<forall>x. e = Some x \<longrightarrow> x = v)"
  by (auto simp add: check_version_def ensureE_def split: option.splits)

section \<open>The overlap check leaves nothing for the exclusion constraint\<close>

lemma exclusion_ok_append:
  "exclusion_ok (rs @ [x]) \<longleftrightarrow> exclusion_ok rs \<and> (\<forall>r \<in> set rs. \<not> rows_conflict r x)"
  by (induction rs) (auto simp add: list_all_iff)

lemma exclusion_ok_replace:
  assumes "distinct (map c_id rs)" and "exclusion_ok rs"
    and "\<forall>r \<in> set rs. c_id r \<noteq> c_id x \<longrightarrow> \<not> rows_conflict r x"
  shows "exclusion_ok (map (\<lambda>r. if c_id r = c_id x then x else r) rs)"
proof -
  have "map c_id (map (\<lambda>r. if c_id r = c_id x then x else r) rs) = map c_id rs" by simp
  with assms have "distinct (map c_id (map (\<lambda>r. if c_id r = c_id x then x else r) rs))" by metis
  then show ?thesis using assms exclusion_ok_distinct [OF assms(1)]
    by (subst exclusion_ok_distinct) (auto simp add: rows_conflict_sym [of x])
qed

lemma rows_conflict_to_row [simp]:
  "rows_conflict r (to_row c) = rows_conflict r c" "rows_conflict (to_row c) r = rows_conflict c r"
  by (simp_all add: rows_conflict_def)

lemma rows_conflict_version [simp]:
  "rows_conflict r (c\<lparr>c_version := v\<rparr>) = rows_conflict r c"
  "rows_conflict r (c\<lparr>c_id := i\<rparr>) = rows_conflict r c"
  by (simp_all add: rows_conflict_def)

text \<open>The check at \<open>c\<close>'s own dates keeps every other row of the owner clear of \<open>c\<close>.\<close>

lemma checked_no_conflict:
  assumes "validate_no_overlap_sql t (c_owner c) (c_from c) (c_to c) x = Inr u"
    and "r \<in> set (t_rows t)" and "Some (c_id r) \<noteq> x"
  shows "\<not> rows_conflict r c"
  using assms daterange_imp_sql
  by (fastforce simp add: validate_no_overlap_sql_Inr rows_conflict_def from_day_def to_day_def)

lemma update_exclusion_ok:
  assumes "table_ok t" and "update_contract t c = Inr (c', t')"
    and "\<forall>r \<in> set (t_rows t). c_id r \<noteq> c_id c \<longrightarrow> \<not> rows_conflict r c"
  shows "exclusion_ok (t_rows t')"
proof -
  note ok = table_okD [OF assms(1)] and u = update_contract_Inr(1) [OF assms(2)]
  have ids: "c_id (to_row c') = c_id c" using u by simp
  have "exclusion_ok (map (\<lambda>r. if c_id r = c_id (to_row c') then to_row c' else r) (t_rows t))"
    using assms(3) u ids by (intro exclusion_ok_replace [OF ok(1) ok(6)]) simp
  then show ?thesis using update_contract_rows(1) [OF ok(1) assms(2)] ids by simp
qed

lemma in_place_exclusion_ok:
  assumes "table_ok t" and "update_contract t c = Inr (c', t')"
    and "validate_no_overlap_sql t (c_owner c) (c_from c) (c_to c) (Some (c_id c)) = Inr u"
  shows "exclusion_ok (t_rows t')"
  using update_exclusion_ok [OF assms(1,2)] checked_no_conflict [OF assms(3)] by blast

lemma create_exclusion_ok:
  assumes "exclusion_ok (t_rows t)" and "create_contract t c = Inr (c', t')"
    and "validate_no_overlap_sql t (c_owner c) (c_from c) (c_to c) None = Inr u"
  shows "exclusion_ok (t_rows t')"
proof -
  note u = create_contract_Inr [OF assms(2)]
  show ?thesis using assms(1) checked_no_conflict [OF assms(3)]
    unfolding u(3) u(1) by (simp add: exclusion_ok_append)
qed

lemma move_exclusion_ok:
  assumes "table_ok t" and "save_two c d t = Inr ((c', d'), t')" and "c_id c \<noteq> c_id d"
    and "c_owner c = w" and "c_owner d = w"
    and "overlap_sides t' w
      [\<lparr>pr_id = c_id c, pr_from = c_from c, pr_to = c_to c\<rparr>,
       \<lparr>pr_id = c_id d, pr_from = c_from d, pr_to = c_to d\<rparr>] = Inr u"
  shows "exclusion_ok (t_rows t')"
proof -
  obtain s where s: "update_contract t c = Inr (c', s)" "update_contract s d = Inr (d', t')"
    using assms(2) by (auto simp add: save_two_Inr)
  have wf: "table_wf t" "exclusion_ok (t_rows t)" using assms(1) by (simp_all add: table_ok_iff)
  have dt: "distinct (map c_id (t_rows t))" using wf by (simp add: table_wf_def)
  have ds: "distinct (map c_id (t_rows s))"
    using update_contract_wf [OF wf(1) s(1)] by (simp add: table_wf_def)
  note rs = update_contract_rows(1) [OF dt s(1)] and rt = update_contract_rows(1) [OF ds s(2)]
  have c': "c' = c\<lparr>c_version := s64 (c_version c + 1)\<rparr>" "d' = d\<lparr>c_version := s64 (c_version d + 1)\<rparr>"
    using update_contract_Inr(1) s by blast+
  have rows: "r \<in> set (t_rows t') \<Longrightarrow> r = to_row c' \<or> r = to_row d' \<or>
      r \<in> set (t_rows t) \<and> c_id r \<noteq> c_id c \<and> c_id r \<noteq> c_id d" for r
    unfolding rt rs using c' by (auto split: if_splits)
  have chk: "validate_no_overlap_sql t' (c_owner c) (c_from c) (c_to c) (Some (c_id c)) = Inr ()"
      "validate_no_overlap_sql t' (c_owner d) (c_from d) (c_to d) (Some (c_id d)) = Inr ()"
    using assms(4-6) by (simp_all add: overlap_sides_Inr del: overlap_sides.simps)
  have no: "r \<in> set (t_rows t') \<Longrightarrow> c_id r \<noteq> c_id c \<Longrightarrow> \<not> rows_conflict r c"
      "r \<in> set (t_rows t') \<Longrightarrow> c_id r \<noteq> c_id d \<Longrightarrow> \<not> rows_conflict r d" for r
    using checked_no_conflict [OF chk(1)] checked_no_conflict [OF chk(2)] by auto
  have dt': "distinct (map c_id (t_rows t'))"
    using update_contract_wf [OF update_contract_wf [OF wf(1) s(1)] s(2)] by (simp add: table_wf_def)
  have eq: "rows_conflict x (to_row c') = rows_conflict x c"
      "rows_conflict x (to_row d') = rows_conflict x d" for x
    using c' by simp_all
  show ?thesis unfolding exclusion_ok_distinct [OF dt']
  proof (intro ballI impI)
    fix r q assume r: "r \<in> set (t_rows t')" and q: "q \<in> set (t_rows t')" and ne: "c_id r \<noteq> c_id q"
    have ids: "c_id (to_row c') = c_id c" "c_id (to_row d') = c_id d" using c' by simp_all
    show "\<not> rows_conflict r q"
    proof (cases "r \<in> {to_row c', to_row d'} \<or> q \<in> {to_row c', to_row d'}")
      case True
      then show ?thesis using no r q ne ids eq rows_conflict_sym by (metis insertE singletonD)
    next
      case False
      then have "r \<in> set (t_rows t)" "q \<in> set (t_rows t)" using rows r q by blast+
      then show ?thesis using wf(2) ne exclusion_ok_distinct [OF dt] by blast
    qed
  qed
qed

section \<open>The days an owner's contracts cover\<close>

definition owner_days :: "'a base_contract_scheme ctable \<Rightarrow> nat \<Rightarrow> int set" where
  "owner_days t w = {d. \<exists>r \<in> set (t_rows t). c_owner r = w \<and> d \<in> covers r}"

definition days_without :: "'a base_contract_scheme ctable \<Rightarrow> nat set \<Rightarrow> nat \<Rightarrow> int set" where
  "days_without t ids w =
     {d. \<exists>r \<in> set (t_rows t). c_id r \<notin> ids \<and> c_owner r = w \<and> d \<in> covers r}"

definition own_covers :: "'a base_contract_scheme \<Rightarrow> nat \<Rightarrow> int set" where
  "own_covers c w = (if c_owner c = w then covers c else {})"

lemma covers_simps [simp]:
  "covers (to_row c) = covers c" "covers (c\<lparr>c_version := v\<rparr>) = covers c"
  "covers (c\<lparr>c_id := i\<rparr>) = covers c" "covers (c\<lparr>c_props := p\<rparr>) = covers c"
  by (simp_all add: covers_def)

lemma own_covers_simps [simp]:
  "own_covers (to_row c) = own_covers c" "own_covers (c\<lparr>c_version := v\<rparr>) = own_covers c"
  "own_covers (c\<lparr>c_id := i\<rparr>) = own_covers c" "own_covers (c\<lparr>c_props := p\<rparr>) = own_covers c"
  by (simp_all add: own_covers_def fun_eq_iff)

lemma owner_days_split:
  assumes "distinct (map c_id (t_rows t))" and "c \<in> set (t_rows t)"
  shows "owner_days t w = days_without t {c_id c} w \<union> own_covers c w"
proof -
  have "r = c" if "r \<in> set (t_rows t)" "c_id r = c_id c" for r
    using row_unique [OF assms(1) that(1) assms(2) that(2)] .
  with assms(2) show ?thesis
    by (auto simp add: owner_days_def days_without_def own_covers_def)
qed

lemma days_without_split:
  assumes "distinct (map c_id (t_rows t))" and "c \<in> set (t_rows t)" and "c_id c \<notin> ids"
  shows "days_without t ids w = days_without t (insert (c_id c) ids) w \<union> own_covers c w"
proof -
  have "r = c" if "r \<in> set (t_rows t)" "c_id r = c_id c" for r
    using row_unique [OF assms(1) that(1) assms(2) that(2)] .
  with assms(2,3) show ?thesis by (auto simp add: days_without_def own_covers_def)
qed

lemma update_contract_set:
  assumes "distinct (map c_id (t_rows t))" and "update_contract t c = Inr (c', t')"
  shows "set (t_rows t') = insert (to_row c') {r \<in> set (t_rows t). c_id r \<noteq> c_id c}"
proof -
  have "\<exists>r \<in> set (t_rows t). c_id r = c_id c" using update_contract_Inr(3) [OF assms(2)] by blast
  then show ?thesis unfolding update_contract_rows(1) [OF assms] by (auto simp add: image_iff)
qed

lemma days_update:
  assumes "distinct (map c_id (t_rows t))" and "update_contract t c = Inr (c', t')"
  shows "owner_days t' w = days_without t {c_id c} w \<union> own_covers c w"
    and "c_id c \<notin> ids \<Longrightarrow> days_without t' ids w = days_without t (insert (c_id c) ids) w \<union> own_covers c w"
    and "c_id c \<in> ids \<Longrightarrow> days_without t' ids w = days_without t ids w"
  using update_contract_Inr(1) [OF assms(2)]
  unfolding owner_days_def days_without_def own_covers_def update_contract_set [OF assms] by auto

lemma days_create:
  assumes "create_contract t c = Inr (c', t')"
  shows "owner_days t' w = owner_days t w \<union> own_covers c w"
  using create_contract_Inr(1) [OF assms] unfolding owner_days_def create_contract_Inr(3) [OF assms]
  by (auto simp add: own_covers_def)

text \<open>Splitting a span at a seam inside it, as day sets.\<close>

lemma check_amend_seam_Inr:
  "check_amend_seam f e seam = Inr u \<longleftrightarrow> local_day f < local_day seam \<and>
     (case e of None \<Rightarrow> True | Some t \<Rightarrow> local_day seam \<le> local_day t)"
  by (auto simp add: check_amend_seam_def Let_def truncate_to_date_eq split: option.splits)

lemma split_at_seam:
  assumes "f < s" and "case e of None \<Rightarrow> True | Some t \<Rightarrow> s \<le> t"
  shows "days f e = days f (Some (s - 1)) \<union> days s e"
    and "days f (Some (s - 1)) \<inter> days s e' = {}"
    and "days f (Some (s - 1)) \<subseteq> days f e"
  using assms by (cases e; cases e'; auto simp add: days_simps)+

lemma check_adjacent_Inr:
  assumes "check_adjacent ef et lf lt seam = Inr u"
  shows "\<exists>e. et = Some e \<and> local_day e + 1 = local_day lf" and "local_day ef < local_day lf"
    and "local_day ef < local_day seam"
    and "case lt of None \<Rightarrow> True | Some t \<Rightarrow> local_day seam \<le> local_day t"
  using assms
  by (auto simp add: check_adjacent_def Let_def truncate_to_date_eq add_days_midnight
      split: option.splits if_splits)

lemma move_seam:
  assumes "e + 1 = lf" and "ef < lf" and "ef < s" and "case lt of None \<Rightarrow> True | Some t \<Rightarrow> s \<le> t"
    and "case lt of None \<Rightarrow> True | Some t \<Rightarrow> lf \<le> t + 1"
  shows "days ef (Some (s - 1)) \<union> days s lt = days ef (Some e) \<union> days lf lt"
  using assms by (cases lt) (auto simp add: days_simps)

section \<open>Amending at a seam\<close>

text \<open>\<open>c\<close> is the object loaded as \<open>c0\<close>, possibly with other properties; \<open>n\<close> the successor.\<close>

definition seam_of :: "'a base_contract_scheme \<Rightarrow> 'a base_contract_scheme \<Rightarrow> gtime \<Rightarrow> 'a base_contract_scheme
    \<Rightarrow> bool" where
  "seam_of c0 c seam n \<longleftrightarrow>
     c_id c = c_id c0 \<and> c_owner c = c_owner c0 \<and> c_from c = c_from c0 \<and> c_version c = c_version c0 \<and>
     c_owner n = c_owner c0 \<and> c_from n = seam \<and>
     check_amend_seam (c_from c0) (c_to c0) seam = Inr ()"

lemma seam_of_closed:
  assumes "seam_of c0 c seam n" and "shut = c\<lparr>c_to := Some (add_date seam 0 0 (- 1))\<rparr>"
  shows "covers shut = days (from_day c0) (Some (local_day seam - 1))"
    and "covers shut \<subseteq> covers c0" and "covers shut \<inter> covers n = {}"
    and "covers c0 = covers shut \<union> days (local_day seam) (to_day c0)"
proof -
  have f: "from_day c0 < local_day seam"
      "case to_day c0 of None \<Rightarrow> True | Some t \<Rightarrow> local_day seam \<le> t"
    using assms(1) by (cases "c_to c0"; simp add: seam_of_def check_amend_seam_Inr from_day_def to_day_def)+
  show cl: "covers shut = days (from_day c0) (Some (local_day seam - 1))"
    using assms by (simp add: seam_of_def covers_def from_day_def to_day_def)
  show "covers shut \<subseteq> covers c0"
    using split_at_seam(3) [OF f] by (simp add: cl) (simp add: covers_def)
  have "from_day n = local_day seam" using assms(1) by (simp add: seam_of_def from_day_def)
  then show "covers shut \<inter> covers n = {}"
    using split_at_seam(2) [OF f] by (simp add: cl) (simp add: covers_def)
  show "covers c0 = covers shut \<union> days (local_day seam) (to_day c0)"
    using split_at_seam(1) [OF f] by (simp add: cl) (simp add: covers_def)
qed

lemma rows_conflict_covers:
  "rows_conflict r s \<longleftrightarrow> c_owner r = c_owner s \<and> covers r \<inter> covers s \<noteq> {}"
  by (simp add: rows_conflict_def daterange_overlap_days covers_def)

lemma amend_laws:
  assumes "table_ok t" and "c0 \<in> set (t_rows t)" and "seam_of c0 c seam n"
    and "update_contract t (c\<lparr>c_to := Some (add_date seam 0 0 (- 1))\<rparr>) = Inr (x, s)"
    and "create_contract s n = Inr (y, t')"
  shows "validate_no_overlap_sql s (c_owner c0) seam (c_to n) None = Inr u \<Longrightarrow> exclusion_ok (t_rows t')"
    and "owner_days t' w = days_without t {c_id c0} w \<union>
           (if c_owner c0 = w then days (from_day c0) (Some (local_day seam - 1)) \<union> covers n else {})"
    and "covers n = days (local_day seam) (to_day c0) \<Longrightarrow> owner_days t' w = owner_days t w"
proof -
  define shut where "shut = c\<lparr>c_to := Some (add_date seam 0 0 (- 1))\<rparr>"
  note ok = table_okD [OF assms(1)] and cl = seam_of_closed [OF assms(3) shut_def]
  have sm: "c_id shut = c_id c0" "c_owner shut = c_owner c0" "c_owner n = c_owner c0" "c_from n = seam"
    using assms(3) by (simp_all add: seam_of_def shut_def)
  have up: "update_contract t shut = Inr (x, s)" using assms(4) by (simp add: shut_def)
  have "\<not> rows_conflict r shut" if r: "r \<in> set (t_rows t)" "c_id r \<noteq> c_id shut" for r
  proof -
    have "\<not> rows_conflict r c0"
      using r sm(1) assms(2) ok(6) exclusion_ok_distinct [OF ok(1)] by metis
    then show ?thesis using cl(2) sm(2) by (auto simp add: rows_conflict_covers)
  qed
  then have "exclusion_ok (t_rows s)" using update_exclusion_ok [OF assms(1) up] by blast
  then show "exclusion_ok (t_rows t')"
    if "validate_no_overlap_sql s (c_owner c0) seam (c_to n) None = Inr u"
    using create_exclusion_ok [OF _ assms(5)] that sm(3,4) by simp
  show d: "owner_days t' w = days_without t {c_id c0} w \<union>
      (if c_owner c0 = w then days (from_day c0) (Some (local_day seam - 1)) \<union> covers n else {})"
    unfolding days_create [OF assms(5)] days_update(1) [OF ok(1) up] own_covers_def sm cl(1) by auto
  show "owner_days t' w = owner_days t w" if "covers n = days (local_day seam) (to_day c0)"
    unfolding d owner_days_split [OF ok(1) assms(2)] own_covers_def cl(4) using that cl(1) by auto
qed

section \<open>Moving a boundary\<close>

lemma move_laws:
  assumes "table_ok t" and "c \<in> set (t_rows t)" and "d \<in> set (t_rows t)" and "c_id c \<noteq> c_id d"
    and "c_owner c = c_owner d"
    and "check_adjacent (c_from c) (c_to c) (c_from d) (c_to d) seam = Inr ()"
    and "save_two (c\<lparr>c_to := Some (add_date (truncate_to_date seam) 0 0 (- 1))\<rparr>)
           (d\<lparr>c_from := truncate_to_date seam\<rparr>) t = Inr ((x, y), t')"
  shows "owner_days t' w = owner_days t w"
proof -
  let ?c = "c\<lparr>c_to := Some (add_date (truncate_to_date seam) 0 0 (- 1))\<rparr>"
  let ?d = "d\<lparr>c_from := truncate_to_date seam\<rparr>"
  obtain s where s: "update_contract t ?c = Inr (x, s)" "update_contract s ?d = Inr (y, t')"
    using assms(7) by (auto simp add: save_two_Inr)
  note ok = table_okD [OF assms(1)]
  have wf: "table_wf t" using assms(1) by (simp add: table_ok_iff)
  have ds: "distinct (map c_id (t_rows s))"
    using update_contract_wf [OF wf s(1)] by (simp add: table_wf_def)
  note adj = check_adjacent_Inr [OF assms(6)]
  obtain e where e: "c_to c = Some e" "local_day e + 1 = from_day d"
    using adj(1) by (auto simp add: from_day_def)
  have lt: "case to_day d of None \<Rightarrow> True | Some u \<Rightarrow> local_day seam \<le> u"
      "case to_day d of None \<Rightarrow> True | Some u \<Rightarrow> from_day d \<le> u + 1"
    using adj(4) ok(4) [OF assms(3)] by (cases "c_to d"; simp add: to_day_def range_ok_def)+
  have cov: "covers ?c \<union> covers ?d = covers c \<union> covers d"
    using move_seam [OF e(2) _ _ lt] adj(2,3) e(1)
    by (simp add: covers_def from_day_def to_day_def truncate_to_date_eq)
  have "owner_days t' w = days_without s {c_id d} w \<union> own_covers ?d w"
    using days_update(1) [OF ds s(2)] by simp
  also have "\<dots> = days_without t {c_id c, c_id d} w \<union> own_covers ?c w \<union> own_covers ?d w"
    using days_update(2) [OF ok(1) s(1), of "{c_id d}"] assms(4) by simp
  also have "\<dots> = days_without t {c_id c, c_id d} w \<union> own_covers c w \<union> own_covers d w"
    using cov assms(5) by (auto simp add: own_covers_def)
  also have "\<dots> = owner_days t w"
    using owner_days_split [OF ok(1) assms(3)] days_without_split [OF ok(1) assms(2), of "{c_id d}"]
      assms(4) by auto
  finally show ?thesis .
qed

end
