(* ===== verification/ChildContracts.thy ===== *)
theory ChildContracts
  imports ContractOps
begin

text \<open>
  The child contract service: \<open>internal/service/child_contract.go\<close> and
  \<open>internal/service/child_contract_intent.go\<close>. The tables a handler only reads (children,
  sections, organizations, funding configurations) are one record of lookup functions.
\<close>

type_synonym child_contract = base_contract

record child_env =
  ce_children :: owner_table
  ce_sections :: "nat \<Rightarrow> nat option"
  ce_org_state :: "nat \<Rightarrow> string option"
  ce_funding :: "string \<Rightarrow> funding_period list option"

definition funding_period_for_date :: "child_env \<Rightarrow> nat \<Rightarrow> gtime \<Rightarrow> funding_period option" where
  "funding_period_for_date env org date =
     (case ce_org_state env org of
        None \<Rightarrow> None
      | Some state \<Rightarrow>
          if state = [] then None
          else (case ce_funding env state of
                  None \<Rightarrow> None
                | Some periods \<Rightarrow> find_period_for_date periods date))"

section \<open>Create\<close>

record child_create_request =
  cr_from :: gtime
  cr_to :: "gtime option"
  cr_section :: nat
  cr_props :: properties

definition prepare_create_child ::
    "child_env \<Rightarrow> nat \<Rightarrow> nat \<Rightarrow> child_create_request \<Rightarrow> child_contract outcome" where
  "prepare_create_child env child org req =
     bindE (validate_period_400 (cr_from req) (cr_to req)) (\<lambda>_.
     bindE (find_owner (ce_children env) child org ''child'') (\<lambda>birthdate.
     bindE (validate_dates_after_birthdate (cr_from req) (cr_to req) birthdate) (\<lambda>_.
     bindE (section_ok (ce_sections env) (cr_section req) org) (\<lambda>_.
     let period = funding_period_for_date env org (cr_from req);
         props = fst (merge_defaults (cr_props req) (auto_apply_properties period))
     in bindE (validate_contract_properties props period []) (\<lambda>_.
        Inr \<lparr>c_id = 0, c_owner = child, c_from = cr_from req, c_to = cr_to req,
             c_section = cr_section req, c_props = props, c_version = 0\<rparr>)))))"

definition create_child_contract ::
    "child_env \<Rightarrow> child_contract ctable \<Rightarrow> nat \<Rightarrow> nat \<Rightarrow> child_create_request \<Rightarrow>
      child_contract outcome \<times> child_contract ctable" where
  "create_child_contract env t child org req =
     (case prepare_create_child env child org req of
        Inl e \<Rightarrow> (Inl e, t)
      | Inr c \<Rightarrow> create_tx child (c_from c) (c_to c) c t)"

section \<open>Correct\<close>

record child_correct_request =
  cc_from :: "gtime opt"
  cc_to :: "gtime opt"
  cc_section :: "nat opt"
  cc_props :: "pmap opt"
  cc_version :: "int option"

text \<open>
  An explicit null clears the properties, an object replaces them; the automatic properties
  are merged only when the request touches the properties or the start date.
\<close>

definition prepare_correct_child ::
    "child_env \<Rightarrow> child_contract ctable \<Rightarrow> nat \<Rightarrow> nat \<Rightarrow> nat \<Rightarrow> child_correct_request \<Rightarrow>
      child_contract outcome" where
  "prepare_correct_child env t0 contract_id child org req =
     bindE (load_contract (ce_children env) t0 ''child'' contract_id child org) (\<lambda>(birthdate, contract).
     bindE (check_version (cc_version req) (c_version contract) ''this contract'') (\<lambda>_.
     bindE (ensureE (\<not> opt_is_null (cc_from req))
         (bad_request ''from cannot be null: every contract has a start date'')) (\<lambda>_.
     bindE (ensureE (\<not> opt_is_null (cc_section req))
         (bad_request ''section_id cannot be null: every contract belongs to a section'')) (\<lambda>_.
     bindE (case opt_value (cc_section req) of
              None \<Rightarrow> Inr ()
            | Some sid \<Rightarrow> section_ok (ce_sections env) sid org) (\<lambda>_.
     let c1 = contract\<lparr>c_section := opt_else (cc_section req) (c_section contract),
                       c_from := opt_else (cc_from req) (c_from contract),
                       c_to := opt_assign (cc_to req) (c_to contract),
                       c_props := opt_assign (cc_props req) (c_props contract)\<rparr>
     in bindE (if opt_set (cc_props req) \<or> opt_set (cc_from req)
               then (let period = funding_period_for_date env org (c_from c1);
                         props = fst (merge_defaults (c_props c1) (auto_apply_properties period))
                     in bindE (validate_contract_properties props period []) (\<lambda>_.
                          Inr (c1\<lparr>c_props := props\<rparr>)))
               else Inr c1) (\<lambda>c2.
        bindE (validate_dates_after_birthdate (c_from c2) (c_to c2) birthdate) (\<lambda>_. Inr c2)))))))"

definition correct_child_contract ::
    "child_env \<Rightarrow> child_contract ctable \<Rightarrow> child_contract ctable \<Rightarrow> nat \<Rightarrow> nat \<Rightarrow> nat \<Rightarrow>
      child_correct_request \<Rightarrow> child_contract outcome \<times> child_contract ctable" where
  "correct_child_contract env t0 t contract_id child org req =
     (case prepare_correct_child env t0 contract_id child org req of
        Inl e \<Rightarrow> (Inl e, t)
      | Inr c \<Rightarrow> in_place_contract_update child (c_from c) (c_to c) (c_id c) (save_contract c) t)"

section \<open>Amend\<close>

record child_amend_request =
  ca_effective_from :: gtime
  ca_to :: "gtime opt"
  ca_section :: "nat opt"
  ca_props :: "pmap opt"
  ca_version :: "int option"

text \<open>
  Returns the seam, the predecessor and the successor. When the request says nothing about
  properties the successor starts with the predecessor's own map object, and \<open>MergeDefaults\<close>
  writes the defaults of the seam's funding period into that shared map: the predecessor
  object then carries them too.
\<close>

definition prepare_amend_child ::
    "child_env \<Rightarrow> child_contract ctable \<Rightarrow> nat \<Rightarrow> nat \<Rightarrow> nat \<Rightarrow> child_amend_request \<Rightarrow>
      (gtime \<times> child_contract \<times> child_contract) outcome" where
  "prepare_amend_child env t0 contract_id child org req =
     bindE (load_contract (ce_children env) t0 ''child'' contract_id child org) (\<lambda>(birthdate, contract).
     bindE (check_version (ca_version req) (c_version contract) ''this contract'') (\<lambda>_.
     let seam = truncate_to_date (ca_effective_from req)
     in bindE (check_amend_seam (c_from contract) (c_to contract) seam) (\<lambda>_.
        bindE (ensureE (\<not> opt_is_null (ca_section req))
            (bad_request ''section_id cannot be null: every contract belongs to a section'')) (\<lambda>_.
        bindE (case opt_value (ca_section req) of
                 None \<Rightarrow> Inr ()
               | Some sid \<Rightarrow> section_ok (ce_sections env) sid org) (\<lambda>_.
        let s1 = \<lparr>c_id = 0, c_owner = c_owner contract, c_from = seam,
                  c_to = opt_assign (ca_to req) (c_to contract),
                  c_section = opt_else (ca_section req) (c_section contract),
                  c_props = opt_assign (ca_props req) (c_props contract), c_version = 0\<rparr>;
            period = funding_period_for_date env org seam;
            merged = merge_defaults (c_props s1) (auto_apply_properties period);
            successor = s1\<lparr>c_props := fst merged\<rparr>;
            contract' = contract\<lparr>c_props := if opt_set (ca_props req) then c_props contract
                                           else snd merged\<rparr>
        in bindE (validate_contract_properties (c_props successor) period []) (\<lambda>_.
           bindE (validate_dates_after_birthdate (c_from successor) (c_to successor) birthdate) (\<lambda>_.
             Inr (seam, contract', successor))))))))"

definition amend_child_contract ::
    "child_env \<Rightarrow> child_contract ctable \<Rightarrow> child_contract ctable \<Rightarrow> nat \<Rightarrow> nat \<Rightarrow> nat \<Rightarrow>
      child_amend_request \<Rightarrow> (child_contract \<times> child_contract) outcome \<times> child_contract ctable" where
  "amend_child_contract env t0 t contract_id child org req =
     (case prepare_amend_child env t0 contract_id child org req of
        Inl e \<Rightarrow> (Inl e, t)
      | Inr (seam, contract, successor) \<Rightarrow>
          amend_seam child seam (c_to successor)
            (\<lambda>day_before s. update_contract s (contract\<lparr>c_to := Some day_before\<rparr>))
            (\<lambda>s. create_contract s successor) t)"

section \<open>End, move, delete, read\<close>

definition end_child_contract where
  "end_child_contract env = end_contract (ce_children env) ''child''"

definition move_child_boundary where
  "move_child_boundary env = move_contract_boundary (ce_children env) ''child'' (\<lambda>_. Inr ())"

definition delete_child_contract where
  "delete_child_contract env = delete_contract_op (ce_children env) ''child''"

definition get_child_contract ::
    "child_env \<Rightarrow> child_contract ctable \<Rightarrow> nat \<Rightarrow> nat \<Rightarrow> nat \<Rightarrow> child_contract outcome" where
  "get_child_contract env t contract_id child org =
     map_sum id snd (load_contract (ce_children env) t ''child'' contract_id child org)"

definition get_current_child_contract ::
    "child_env \<Rightarrow> child_contract ctable \<Rightarrow> nat \<Rightarrow> nat \<Rightarrow> gtime \<Rightarrow> child_contract outcome" where
  "get_current_child_contract env t child org this_day =
     bindE (find_owner (ce_children env) child org ''child'') (\<lambda>_.
       case get_record_on t child this_day of
         None \<Rightarrow> Inl (not_found ''active contract'')
       | Some c \<Rightarrow> Inr c)"

end
