(* ===== verification/EmployeeContracts.thy ===== *)
theory EmployeeContracts
  imports ContractOps
begin

text \<open>
  The employee contract service: \<open>internal/service/employee_contract.go\<close> and
  \<open>internal/service/employee_contract_intent.go\<close>, with the pay-plan coverage check.
\<close>

record employee_contract = base_contract +
  ec_staff_category :: string
  ec_grade :: string
  ec_step :: int
  ec_weekly_hours :: f64
  ec_pay_plan :: nat

record pay_plan_entry =
  pe_id :: nat
  pe_grade :: string
  pe_step :: int
  pe_monthly_amount :: int
  pe_step_min_years :: "int option"

record pay_plan_period = period +
  pp_id :: nat
  pp_weekly_hours :: f64
  pp_contribution_rate :: int
  pp_entries :: "pay_plan_entry list"

record pay_plan =
  pl_id :: nat
  pl_org :: nat
  pl_name :: string
  pl_periods :: "pay_plan_period list"

record employee_env =
  ee_employees :: owner_table
  ee_sections :: "nat \<Rightarrow> nat option"
  ee_pay_plans :: "nat \<Rightarrow> pay_plan option"

text \<open>\<open>FindActivePeriod\<close>: the covering period with the latest start; \<open>FindEntry\<close>.\<close>

fun latest_covering :: "pay_plan_period option \<Rightarrow> pay_plan_period list \<Rightarrow> gtime \<Rightarrow> pay_plan_period option" where
  "latest_covering best [] date = best"
| "latest_covering best (p # ps) date =
     (if sql_active_on (local_day (p_from p)) (day_opt (p_to p)) (local_day date) \<and>
         (case best of None \<Rightarrow> True | Some b \<Rightarrow> local_day (p_from b) < local_day (p_from p))
      then latest_covering (Some p) ps date
      else latest_covering best ps date)"

definition find_active_period :: "employee_env \<Rightarrow> nat \<Rightarrow> gtime \<Rightarrow> pay_plan_period outcome" where
  "find_active_period env plan date =
     (case ee_pay_plans env plan of
        None \<Rightarrow> Inl (StoreError StoreNotFound)
      | Some pl \<Rightarrow> (case latest_covering None (pl_periods pl) date of
                     None \<Rightarrow> Inl (StoreError StoreNotFound)
                   | Some p \<Rightarrow> Inr p))"

definition find_entry :: "pay_plan_period \<Rightarrow> string \<Rightarrow> int \<Rightarrow> pay_plan_entry outcome" where
  "find_entry p grade step =
     (case find (\<lambda>e. pe_grade e = grade \<and> pe_step e = step) (pp_entries p) of
        None \<Rightarrow> Inl (StoreError StoreNotFound)
      | Some e \<Rightarrow> Inr e)"

definition validate_pay_plan_covers ::
    "employee_env \<Rightarrow> nat \<Rightarrow> string \<Rightarrow> int \<Rightarrow> gtime \<Rightarrow> unit outcome" where
  "validate_pay_plan_covers env plan grade0 step start =
     (let grade = trim_space grade0
      in if grade = [] \<or> step < 1 then Inr ()
         else (case find_active_period env plan start of
           Inl e \<Rightarrow> Inl (if is_store_error e StoreNotFound
                        then bad_request ''pay plan has no active period covering the contract's start date''
                        else internal_wrap e ''failed to fetch pay plan period'')
         | Inr p \<Rightarrow> (case find_entry p grade step of
             Inl e \<Rightarrow> Inl (if is_store_error e StoreNotFound
                        then bad_request ''pay plan has no entry for the given (grade, step) at the contract's start date''
                        else internal_wrap e ''failed to fetch pay plan entry'')
           | Inr _ \<Rightarrow> Inr ())))"

definition is_valid_staff_category :: "string \<Rightarrow> bool" where
  "is_valid_staff_category s \<longleftrightarrow> s \<in> {''qualified'', ''supplementary'', ''non_pedagogical''}"

definition validate_weekly_hours :: "f64 \<Rightarrow> string \<Rightarrow> unit outcome" where
  "validate_weekly_hours hours name =
     (if fless hours (Fin 0) then Inl (PlainError (name @ '' cannot be negative''))
      else if fless (Fin 168) hours then Inl (PlainError (name @ '' cannot exceed 168 hours per week''))
      else Inr ())"

definition weekly_hours_400 :: "f64 \<Rightarrow> unit outcome" where
  "weekly_hours_400 hours =
     map_error (\<lambda>e. bad_request (error_text e)) (validate_weekly_hours hours ''weekly_hours'')"

definition pay_plan_ok :: "employee_env \<Rightarrow> nat \<Rightarrow> nat \<Rightarrow> unit outcome" where
  "pay_plan_ok env plan org =
     (case ee_pay_plans env plan of
        None \<Rightarrow> Inl (bad_request ''payplan_id not found'')
      | Some pl \<Rightarrow> ensureE (pl_org pl = org)
                     (bad_request ''payplan does not belong to this organization''))"

definition staff_category_error :: go_error where
  "staff_category_error =
     bad_request ''staff_category must be one of: qualified, supplementary, non_pedagogical''"

section \<open>Create\<close>

record employee_create_request =
  er_from :: gtime
  er_to_date :: "gtime option"
  er_section :: nat
  er_staff_category :: string
  er_grade :: string
  er_step :: int
  er_weekly_hours :: "f64 option"
  er_pay_plan :: nat
  er_props :: properties

definition prepare_create_employee ::
    "employee_env \<Rightarrow> nat \<Rightarrow> nat \<Rightarrow> employee_create_request \<Rightarrow> employee_contract outcome" where
  "prepare_create_employee env employee org req =
     bindE (ensureE (is_valid_staff_category (er_staff_category req)) staff_category_error) (\<lambda>_.
     bindE (validate_period_400 (er_from req) (er_to_date req)) (\<lambda>_.
     (case er_weekly_hours req of
        None \<Rightarrow> Inl (bad_request ''weekly_hours is required; send 0 for a contract with no hours'')
      | Some hours \<Rightarrow>
          bindE (weekly_hours_400 hours) (\<lambda>_.
          let grade = trim_space (er_grade req)
          in bindE (find_owner (ee_employees env) employee org ''employee'') (\<lambda>birthdate.
             bindE (validate_dates_after_birthdate (er_from req) (er_to_date req) birthdate) (\<lambda>_.
             bindE (pay_plan_ok env (er_pay_plan req) org) (\<lambda>_.
             bindE (validate_pay_plan_covers env (er_pay_plan req) grade (er_step req) (er_from req)) (\<lambda>_.
             bindE (section_ok (ee_sections env) (er_section req) org) (\<lambda>_.
               Inr \<lparr>c_id = 0, c_owner = employee, c_from = er_from req, c_to = er_to_date req,
                    c_section = er_section req, c_props = er_props req, c_version = 0,
                    ec_staff_category = er_staff_category req, ec_grade = grade,
                    ec_step = er_step req, ec_weekly_hours = hours,
                    ec_pay_plan = er_pay_plan req\<rparr>)))))))))"

definition create_employee_contract ::
    "employee_env \<Rightarrow> employee_contract ctable \<Rightarrow> nat \<Rightarrow> nat \<Rightarrow> employee_create_request \<Rightarrow>
      employee_contract outcome \<times> employee_contract ctable" where
  "create_employee_contract env t employee org req =
     (case prepare_create_employee env employee org req of
        Inl e \<Rightarrow> (Inl e, t)
      | Inr c \<Rightarrow> create_tx employee (c_from c) (c_to c) c t)"

section \<open>Correct and amend\<close>

record employee_change =
  ch_to :: "gtime opt"
  ch_section :: "nat opt"
  ch_staff_category :: "string opt"
  ch_grade :: "string opt"
  ch_step :: "int opt"
  ch_weekly_hours :: "f64 opt"
  ch_pay_plan :: "nat opt"
  ch_props :: "pmap opt"
  ch_version :: "int option"

record employee_correct_request = employee_change +
  ec_req_from :: "gtime opt"

record employee_amend_request = employee_change +
  ea_effective_from :: gtime

definition validate_employee_contract_fields ::
    "employee_env \<Rightarrow> nat \<Rightarrow> 'a employee_change_scheme \<Rightarrow> unit outcome" where
  "validate_employee_contract_fields env org req =
     bindE (ensureE (\<not> opt_is_null (ch_pay_plan req))
         (bad_request ''payplan_id cannot be null: every contract has a pay plan'')) (\<lambda>_.
     bindE (ensureE (\<not> opt_is_null (ch_staff_category req))
         (bad_request ''staff_category cannot be null'')) (\<lambda>_.
     bindE (ensureE (\<not> opt_is_null (ch_weekly_hours req))
         (bad_request ''weekly_hours cannot be null; send 0 for a contract with no hours'')) (\<lambda>_.
     bindE (ensureE (\<not> opt_is_null (ch_section req))
         (bad_request ''section_id cannot be null: every contract belongs to a section'')) (\<lambda>_.
     bindE (case opt_value (ch_pay_plan req) of None \<Rightarrow> Inr () | Some i \<Rightarrow> pay_plan_ok env i org) (\<lambda>_.
     bindE (case opt_value (ch_staff_category req) of
              None \<Rightarrow> Inr ()
            | Some c \<Rightarrow> ensureE (is_valid_staff_category c) staff_category_error) (\<lambda>_.
     bindE (case opt_value (ch_weekly_hours req) of None \<Rightarrow> Inr () | Some h \<Rightarrow> weekly_hours_400 h) (\<lambda>_.
     (case opt_value (ch_section req) of
        None \<Rightarrow> Inr ()
      | Some i \<Rightarrow> section_ok (ee_sections env) i org))))))))"

text \<open>The field assignments the correction and the amendment have in common.\<close>

definition apply_employee_change ::
    "'a employee_change_scheme \<Rightarrow> employee_contract \<Rightarrow> employee_contract" where
  "apply_employee_change req c =
     c\<lparr>c_to := opt_assign (ch_to req) (c_to c),
       c_section := opt_else (ch_section req) (c_section c),
       ec_pay_plan := opt_else (ch_pay_plan req) (ec_pay_plan c),
       ec_staff_category := opt_else (ch_staff_category req) (ec_staff_category c),
       ec_grade := (case opt_value (ch_grade req) of None \<Rightarrow> ec_grade c | Some g \<Rightarrow> trim_space g),
       ec_step := opt_else (ch_step req) (ec_step c),
       ec_weekly_hours := opt_else (ch_weekly_hours req) (ec_weekly_hours c),
       c_props := opt_assign (ch_props req) (c_props c)\<rparr>"

definition prepare_correct_employee ::
    "employee_env \<Rightarrow> employee_contract ctable \<Rightarrow> nat \<Rightarrow> nat \<Rightarrow> nat \<Rightarrow> employee_correct_request \<Rightarrow>
      employee_contract outcome" where
  "prepare_correct_employee env t0 contract_id employee org req =
     bindE (load_contract (ee_employees env) t0 ''employee'' contract_id employee org)
       (\<lambda>(birthdate, contract).
     bindE (check_version (ch_version req) (c_version contract) ''this contract'') (\<lambda>_.
     bindE (ensureE (\<not> opt_is_null (ec_req_from req))
         (bad_request ''from cannot be null: every contract has a start date'')) (\<lambda>_.
     bindE (ensureE (\<not> opt_is_null (ch_grade req))
         (bad_request ''grade cannot be null; send an empty string to clear it'')) (\<lambda>_.
     bindE (ensureE (\<not> opt_is_null (ch_step req)) (bad_request ''step cannot be null'')) (\<lambda>_.
     bindE (validate_employee_contract_fields env org req) (\<lambda>_.
     let c = (apply_employee_change req contract)
               \<lparr>c_from := opt_else (ec_req_from req) (c_from contract)\<rparr>
     in bindE (validate_dates_after_birthdate (c_from c) (c_to c) birthdate) (\<lambda>_.
        bindE (if opt_set (ch_pay_plan req) \<or> opt_set (ch_grade req) \<or> opt_set (ch_step req) \<or>
                  opt_set (ec_req_from req)
               then validate_pay_plan_covers env (ec_pay_plan c) (ec_grade c) (ec_step c) (c_from c)
               else Inr ()) (\<lambda>_. Inr c))))))))"

definition correct_employee_contract ::
    "employee_env \<Rightarrow> employee_contract ctable \<Rightarrow> employee_contract ctable \<Rightarrow> nat \<Rightarrow> nat \<Rightarrow> nat \<Rightarrow>
      employee_correct_request \<Rightarrow> employee_contract outcome \<times> employee_contract ctable" where
  "correct_employee_contract env t0 t contract_id employee org req =
     (case prepare_correct_employee env t0 contract_id employee org req of
        Inl e \<Rightarrow> (Inl e, t)
      | Inr c \<Rightarrow> in_place_contract_update employee (c_from c) (c_to c) (c_id c) (save_contract c) t)"

definition prepare_amend_employee ::
    "employee_env \<Rightarrow> employee_contract ctable \<Rightarrow> nat \<Rightarrow> nat \<Rightarrow> nat \<Rightarrow> employee_amend_request \<Rightarrow>
      (gtime \<times> employee_contract \<times> employee_contract) outcome" where
  "prepare_amend_employee env t0 contract_id employee org req =
     bindE (load_contract (ee_employees env) t0 ''employee'' contract_id employee org)
       (\<lambda>(birthdate, contract).
     bindE (check_version (ch_version req) (c_version contract) ''this contract'') (\<lambda>_.
     let seam = truncate_to_date (ea_effective_from req)
     in bindE (check_amend_seam (c_from contract) (c_to contract) seam) (\<lambda>_.
        bindE (ensureE (\<not> opt_is_null (ch_grade req))
            (bad_request ''grade cannot be null; send an empty string to clear it'')) (\<lambda>_.
        bindE (ensureE (\<not> opt_is_null (ch_step req)) (bad_request ''step cannot be null'')) (\<lambda>_.
        bindE (validate_employee_contract_fields env org req) (\<lambda>_.
        let successor = (apply_employee_change req contract)
                          \<lparr>c_id := 0, c_version := 0, c_from := seam\<rparr>
        in bindE (validate_dates_after_birthdate (c_from successor) (c_to successor) birthdate) (\<lambda>_.
           bindE (validate_pay_plan_covers env (ec_pay_plan successor) (ec_grade successor)
                    (ec_step successor) (c_from successor)) (\<lambda>_.
             Inr (seam, contract, successor)))))))))"

definition amend_employee_contract ::
    "employee_env \<Rightarrow> employee_contract ctable \<Rightarrow> employee_contract ctable \<Rightarrow> nat \<Rightarrow> nat \<Rightarrow> nat \<Rightarrow>
      employee_amend_request \<Rightarrow>
      (employee_contract \<times> employee_contract) outcome \<times> employee_contract ctable" where
  "amend_employee_contract env t0 t contract_id employee org req =
     (case prepare_amend_employee env t0 contract_id employee org req of
        Inl e \<Rightarrow> (Inl e, t)
      | Inr (seam, contract, successor) \<Rightarrow>
          amend_seam employee seam (c_to successor)
            (\<lambda>day_before s. update_contract s (contract\<lparr>c_to := Some day_before\<rparr>))
            (\<lambda>s. create_contract s successor) t)"

section \<open>End, move, delete, read\<close>

definition end_employee_contract where
  "end_employee_contract env = end_contract (ee_employees env) ''employee''"

definition later_covered :: "employee_env \<Rightarrow> employee_contract \<Rightarrow> unit outcome" where
  "later_covered env later =
     validate_pay_plan_covers env (ec_pay_plan later) (ec_grade later) (ec_step later) (c_from later)"

definition move_employee_boundary where
  "move_employee_boundary env = move_contract_boundary (ee_employees env) ''employee'' (later_covered env)"

definition delete_employee_contract where
  "delete_employee_contract env = delete_contract_op (ee_employees env) ''employee''"

definition get_employee_contract ::
    "employee_env \<Rightarrow> employee_contract ctable \<Rightarrow> nat \<Rightarrow> nat \<Rightarrow> nat \<Rightarrow> employee_contract outcome" where
  "get_employee_contract env t contract_id employee org =
     map_sum id snd (load_contract (ee_employees env) t ''employee'' contract_id employee org)"

definition get_current_employee_contract ::
    "employee_env \<Rightarrow> employee_contract ctable \<Rightarrow> nat \<Rightarrow> nat \<Rightarrow> gtime \<Rightarrow> employee_contract outcome" where
  "get_current_employee_contract env t employee org this_day =
     bindE (find_owner (ee_employees env) employee org ''employee'') (\<lambda>_.
       case get_record_on t employee this_day of
         None \<Rightarrow> Inl (not_found ''active contract'')
       | Some c \<Rightarrow> Inr c)"

end
