(* ===== verification/ContractServices.thy ===== *)
theory ContractServices
  imports ContractLaws ChildContracts EmployeeContracts
begin

text \<open>
  The contract operations of the child and the employee service as one set of operations on a
  table each, the contract they share (locale \<open>guarded_service\<close>), its interpretation on both
  services, and reachability of tables under arbitrary interleavings. Every operation names
  the table it loaded its contract from, which may be any earlier or foreign table.
\<close>

section \<open>What preparing a write leaves\<close>

text \<open>The object a handler writes is the loaded one: same id, owner and version.\<close>

definition loaded_as ::
    "'a base_contract_scheme ctable \<Rightarrow> nat \<Rightarrow> nat \<Rightarrow> int option \<Rightarrow> 'a base_contract_scheme \<Rightarrow>
      'a base_contract_scheme \<Rightarrow> bool" where
  "loaded_as t0 i w expected c0 c \<longleftrightarrow>
     find_contract_by_id t0 i = Inr c0 \<and> c_owner c0 = w \<and> c_id c0 = i \<and>
     c_id c = i \<and> c_owner c = w \<and> c_version c = c_version c0 \<and>
     (\<forall>v. expected = Some v \<longrightarrow> v = c_version c0)"

lemma loaded_as_mem: "loaded_as t0 i w e c0 c \<Longrightarrow> c0 \<in> set (t_rows t0)"
  using find_contract_by_id_Inr by (auto simp add: loaded_as_def)

named_theorems handler_simps

lemmas [handler_simps] = load_contract_Inr find_owner_Inr check_version_Inr bindE_eq_Inr ensureE_eq_Inr
  Let_def loaded_as_def

lemma prepare_correct_child_Inr:
  assumes "prepare_correct_child env t0 i w org req = Inr c"
  shows "\<exists>c0. loaded_as t0 i w (cc_version req) c0 c \<and>
    c_from c = opt_else (cc_from req) (c_from c0) \<and> c_to c = opt_assign (cc_to req) (c_to c0) \<and>
    c_section c = opt_else (cc_section req) (c_section c0) \<and>
    (\<not> opt_set (cc_props req) \<longrightarrow> \<not> opt_set (cc_from req) \<longrightarrow> c_props c = c_props c0)"
proof -
  have opt: "bindE (if p then bindE m (\<lambda>_. Inr (d\<lparr>c_props := q\<rparr>)) else Inr d) f = Inr c \<Longrightarrow>
      \<exists>q'. f (d\<lparr>c_props := q'\<rparr>) = Inr c \<and> (\<not> p \<longrightarrow> q' = c_props d)" for p m q f
      and d :: child_contract
    by (cases p) (auto simp add: bindE_eq_Inr intro: exI [of _ "c_props d"])
  from assms find_contract_by_id_Inr [of t0 i] show ?thesis
    apply (clarsimp simp only: prepare_correct_child_def load_contract_Inr find_owner_Inr
        check_version_Inr bindE_eq_Inr [of "load_contract _ _ _ _ _ _"]
        bindE_eq_Inr [of "check_version _ _ _"] bindE_eq_Inr [of "ensureE _ _"]
        bindE_eq_Inr [of "case_option _ _ _"] Let_def prod.case split_beta split_paired_Ex ensureE_eq_Inr)
    apply (drule opt)
    apply (clarsimp simp add: bindE_eq_Inr loaded_as_def)
    apply (simp add: opt_assign_def)
    done
qed

lemma prepare_amend_child_Inr:
  assumes "prepare_amend_child env t0 i w org req = Inr (seam, c, n)"
  shows "\<exists>c0. loaded_as t0 i w (ca_version req) c0 c \<and> seam_of c0 c seam n \<and>
    seam = truncate_to_date (ca_effective_from req) \<and> c_to n = opt_assign (ca_to req) (c_to c0)"
  using assms find_contract_by_id_Inr [of t0 i]
  by (auto simp add: prepare_amend_child_def handler_simps seam_of_def)

lemma prepare_correct_employee_Inr:
  assumes "prepare_correct_employee env t0 i w org req = Inr c"
  shows "\<exists>c0. loaded_as t0 i w (ch_version req) c0 c \<and>
    c = (apply_employee_change (employee_change.truncate req) c0)
          \<lparr>c_from := opt_else (ec_req_from req) (c_from c0)\<rparr>"
  using assms find_contract_by_id_Inr [of t0 i]
  by (auto simp add: prepare_correct_employee_def handler_simps apply_employee_change_def
      employee_change.truncate_def)

lemma prepare_amend_employee_Inr:
  assumes "prepare_amend_employee env t0 i w org req = Inr (seam, c, n)"
  shows "\<exists>c0. loaded_as t0 i w (ch_version req) c0 c \<and> c = c0 \<and> seam_of c0 c seam n \<and>
    seam = truncate_to_date (ea_effective_from req) \<and> c_to n = opt_assign (ch_to req) (c_to c0)"
  using assms find_contract_by_id_Inr [of t0 i]
  by (auto simp add: prepare_amend_employee_def handler_simps seam_of_def apply_employee_change_def)

section \<open>The operations as one set\<close>

datatype child_op =
    CreateChild nat nat child_create_request
  | CorrectChild nat nat nat child_correct_request
  | AmendChild nat nat nat child_amend_request
  | EndChild nat nat nat end_request
  | MoveChild nat nat boundary_request
  | DeleteChild nat nat nat "int option"

definition ran :: "'r outcome \<times> 't \<Rightarrow> unit outcome \<times> 't" where
  "ran = apfst (map_sum id (\<lambda>_. ()))"

fun run_child ::
    "child_env \<Rightarrow> child_op \<Rightarrow> child_contract ctable \<Rightarrow> child_contract ctable \<Rightarrow>
      unit outcome \<times> child_contract ctable" where
  "run_child env (CreateChild w org req) t0 t = ran (create_child_contract env t w org req)"
| "run_child env (CorrectChild i w org req) t0 t = ran (correct_child_contract env t0 t i w org req)"
| "run_child env (AmendChild i w org req) t0 t = ran (amend_child_contract env t0 t i w org req)"
| "run_child env (EndChild i w org req) t0 t = ran (end_child_contract env t0 t i w org req)"
| "run_child env (MoveChild w org req) t0 t = ran (move_child_boundary env t0 t w org req)"
| "run_child env (DeleteChild i w org v) t0 t = delete_child_contract env t0 t i w org v"

text \<open>The contracts an operation rewrites under a version guard.\<close>

fun child_rewrites :: "child_op \<Rightarrow> nat set" where
  "child_rewrites (CreateChild w org req) = {}"
| "child_rewrites (CorrectChild i w org req) = {i}"
| "child_rewrites (AmendChild i w org req) = {i}"
| "child_rewrites (EndChild i w org req) = {i}"
| "child_rewrites (MoveChild w org req) = {br_earlier req, br_later req}"
| "child_rewrites (DeleteChild i w org v) = (if v = None then {} else {i})"

text \<open>The contract an operation deletes, guarded or not.\<close>

fun child_erases :: "child_op \<Rightarrow> nat set" where
  "child_erases (DeleteChild i w org v) = {i}"
| "child_erases p = {}"

datatype employee_op =
    CreateEmployee nat nat employee_create_request
  | CorrectEmployee nat nat nat employee_correct_request
  | AmendEmployee nat nat nat employee_amend_request
  | EndEmployee nat nat nat end_request
  | MoveEmployee nat nat boundary_request
  | DeleteEmployee nat nat nat "int option"

fun run_employee ::
    "employee_env \<Rightarrow> employee_op \<Rightarrow> employee_contract ctable \<Rightarrow> employee_contract ctable \<Rightarrow>
      unit outcome \<times> employee_contract ctable" where
  "run_employee env (CreateEmployee w org req) t0 t = ran (create_employee_contract env t w org req)"
| "run_employee env (CorrectEmployee i w org req) t0 t =
     ran (correct_employee_contract env t0 t i w org req)"
| "run_employee env (AmendEmployee i w org req) t0 t = ran (amend_employee_contract env t0 t i w org req)"
| "run_employee env (EndEmployee i w org req) t0 t = ran (end_employee_contract env t0 t i w org req)"
| "run_employee env (MoveEmployee w org req) t0 t = ran (move_employee_boundary env t0 t w org req)"
| "run_employee env (DeleteEmployee i w org v) t0 t = delete_employee_contract env t0 t i w org v"

fun employee_rewrites :: "employee_op \<Rightarrow> nat set" where
  "employee_rewrites (CreateEmployee w org req) = {}"
| "employee_rewrites (CorrectEmployee i w org req) = {i}"
| "employee_rewrites (AmendEmployee i w org req) = {i}"
| "employee_rewrites (EndEmployee i w org req) = {i}"
| "employee_rewrites (MoveEmployee w org req) = {br_earlier req, br_later req}"
| "employee_rewrites (DeleteEmployee i w org v) = (if v = None then {} else {i})"

fun employee_erases :: "employee_op \<Rightarrow> nat set" where
  "employee_erases (DeleteEmployee i w org v) = {i}"
| "employee_erases p = {}"

lemma ran_iff:
  "ran p = (Inr u, t') \<longleftrightarrow> (\<exists>x. p = (Inr x, t'))" "ran p = (Inl e, t') \<longleftrightarrow> p = (Inl e, t')"
  by (cases p; cases "fst p"; auto simp add: ran_def)+

lemma ran_keeps: "ran p = (r, t') \<Longrightarrow> (\<And>res. p = (res, t') \<Longrightarrow> P t') \<Longrightarrow> P t'"
  by (cases p) (auto simp add: ran_def)

section \<open>The contract of a guarded service\<close>

text \<open>
  Its operations keep the invariant whatever table they loaded from, leave the table alone on
  an error, and succeed in rewriting a contract only if the version they loaded is still the
  stored one, which they then replace.
\<close>

locale guarded_service =
  fixes run :: "'op \<Rightarrow> 't \<Rightarrow> 't \<Rightarrow> unit outcome \<times> 't"
    and inv :: "'t \<Rightarrow> bool"
    and stored :: "'t \<Rightarrow> nat \<Rightarrow> int option"
    and touched :: "'op \<Rightarrow> nat set"
  assumes run_inv: "inv t \<Longrightarrow> run op t0 t = (r, t') \<Longrightarrow> inv t'"
    and run_error: "run op t0 t = (Inl e, t') \<Longrightarrow> t' = t"
    and run_guard: "inv t \<Longrightarrow> run op t0 t = (Inr (), t') \<Longrightarrow> i \<in> touched op \<Longrightarrow>
        stored t0 i = stored t i \<and> stored t' i \<noteq> stored t i"
begin

text \<open>Two operations that loaded the same contract from the same table cannot both succeed.\<close>

lemma lost_update_refused:
  assumes "inv t" and "run p t0 t = (Inr (), t1)" and "i \<in> touched p" and "i \<in> touched q"
  shows "\<exists>e. run q t0 t1 = (Inl e, t1)"
proof (cases "fst (run q t0 t1)")
  case (Inl e)
  then have "run q t0 t1 = (Inl e, snd (run q t0 t1))" by (metis prod.collapse)
  then show ?thesis using run_error by metis
next
  case (Inr u)
  then have "run q t0 t1 = (Inr (), snd (run q t0 t1))" by (metis prod.collapse old.unit.exhaust)
  then have "stored t0 i = stored t1 i"
    using run_guard [OF run_inv [OF assms(1,2)]] assms(4) by blast
  then show ?thesis using run_guard [OF assms(1,2,3)] by metis
qed

text \<open>Neither can one that loaded what the first has since changed or removed in any way.\<close>

lemma outdated_refused:
  assumes "inv t" and "run p t0 t = (r, t1)" and "stored t0 i \<noteq> stored t1 i" and "i \<in> touched q"
  shows "\<exists>e. run q t0 t1 = (Inl e, t1)"
proof (cases "fst (run q t0 t1)")
  case (Inl e)
  then have "run q t0 t1 = (Inl e, snd (run q t0 t1))" by (metis prod.collapse)
  then show ?thesis using run_error by metis
next
  case (Inr u)
  then have "run q t0 t1 = (Inr (), snd (run q t0 t1))" by (metis prod.collapse old.unit.exhaust)
  then show ?thesis using run_guard [OF run_inv [OF assms(1,2)]] assms(3,4) by blast
qed

primrec run_all :: "('op \<times> 't) list \<Rightarrow> 't \<Rightarrow> 't" where
  "run_all [] t = t"
| "run_all (x # xs) t = run_all xs (snd (run (fst x) (snd x) t))"

lemma run_all_inv: "inv t \<Longrightarrow> inv (run_all xs t)"
  by (induction xs arbitrary: t) (auto intro: run_inv [OF _ prod.collapse [symmetric]])

end

section \<open>Both services are guarded\<close>

lemma find_contract_stored: "find_contract_by_id t i = Inr c \<Longrightarrow> stored_version t i = Some (c_version c)"
  by (auto simp add: find_contract_by_id_def stored_version_def split: option.splits)

lemma stored_version_create:
  "create_contract t c = Inr (c', t') \<Longrightarrow> stored_version t i \<noteq> None \<Longrightarrow>
    stored_version t' i = stored_version t i"
  by (auto simp add: create_contract_def stored_version_def Let_def find_append
      split: if_splits option.splits)

lemma update_guard:
  assumes "table_ok t" and "update_contract t c = Inr (c', t')"
  shows "stored_version t (c_id c) = Some (c_version c)"
    and "stored_version t' (c_id c) = Some (s64 (c_version c + 1))"
    and "s64 (c_version c + 1) \<noteq> c_version c"
proof -
  have wf: "table_wf t" using assms(1) by (simp add: table_ok_iff)
  show "stored_version t (c_id c) = Some (c_version c)" using contracts.upd_guard [OF wf assms(2)] .
  show "stored_version t' (c_id c) = Some (s64 (c_version c + 1))"
    using contracts.upd_stored [OF wf assms(2)] contracts.upd_object [OF assms(2)] by simp
  obtain r where "r \<in> set (t_rows t)" "c_version r = c_version c"
    using update_contract_Inr(3) [OF assms(2)] by blast
  then have "in_s64 (c_version c)" using table_okD(5) [OF assms(1)] by metis
  then show "s64 (c_version c + 1) \<noteq> c_version c" using s64_Suc_neq s64_id by metis
qed

lemma in_place_guard:
  assumes "table_ok t" and "loaded_as t0 i w e c0 c"
    and "in_place_contract_update w f u j (save_contract c) t = (Inr x, t')"
  shows "stored_version t0 i = stored_version t i \<and> stored_version t' i \<noteq> stored_version t i"
proof -
  have "update_contract t c = Inr (x, t')" using assms(3) by (simp add: in_place_Inr save_contract_def)
  note g = update_guard [OF assms(1) this]
  then show ?thesis using assms(2) find_contract_stored by (fastforce simp add: loaded_as_def)
qed

lemma amend_guard:
  assumes "table_ok t" and "loaded_as t0 i w e c0 c"
    and "amend_seam w' seam nt (\<lambda>d s. update_contract s (c\<lparr>c_to := Some d\<rparr>))
           (\<lambda>s. create_contract s n) t = (Inr x, t')"
  shows "stored_version t0 i = stored_version t i \<and> stored_version t' i \<noteq> stored_version t i"
proof -
  obtain s y z where u: "update_contract t (c\<lparr>c_to := Some (add_date seam 0 0 (- 1))\<rparr>) = Inr (y, s)"
      and n: "create_contract s n = Inr (z, t')"
    using assms(3) by (cases x) (auto simp add: amend_seam_Inr)
  note g = update_guard [OF assms(1) u]
  moreover have "stored_version t' i = stored_version s i"
    using stored_version_create [OF n] g assms(2) by (simp add: loaded_as_def)
  ultimately show ?thesis using assms(2) find_contract_stored by (fastforce simp add: loaded_as_def)
qed

lemma move_guard:
  assumes "table_ok t" and "loaded_as t0 i w e c0 c" and "loaded_as t0 j w e' d0 d" and "i \<noteq> j"
    and "move_boundary_tx w a b (save_two c d) t = (Inr x, t')" and "k \<in> {i, j}"
  shows "stored_version t0 k = stored_version t k \<and> stored_version t' k \<noteq> stored_version t k"
proof -
  obtain s y z where u: "update_contract t c = Inr (y, s)" "update_contract s d = Inr (z, t')"
    using assms(5) by (cases x) (auto simp add: move_boundary_Inr save_two_Inr)
  have wf: "table_wf t" "table_wf s"
    using assms(1) update_contract_wf [OF _ u(1)] by (auto simp add: table_ok_iff)
  have ids: "c_id c = i" "c_id d = j" "c_version c = c_version c0" "c_version d = c_version d0"
      "find_contract_by_id t0 i = Inr c0" "find_contract_by_id t0 j = Inr d0"
    using assms(2,3) by (simp_all add: loaded_as_def)
  note g = update_guard [OF assms(1) u(1)]
  have fr: "stored_version t j = stored_version s j" "stored_version t' i = stored_version s i"
    using contracts.upd_frame [OF wf(1) u(1), of j] contracts.upd_frame [OF wf(2) u(2), of i]
      ids assms(4) by simp_all
  have d: "stored_version s j = Some (c_version d)" using contracts.upd_guard [OF wf(2) u(2)] ids by simp
  have "in_s64 (c_version d)"
    using stored_version_iff [of s j "c_version d"] d wf(2) by (auto simp add: table_wf_def)
  then have "s64 (c_version d + 1) \<noteq> c_version d" using s64_Suc_neq s64_id by metis
  then have "stored_version t' j \<noteq> stored_version s j"
    using contracts.upd_stored [OF wf(2) u(2)] contracts.upd_object [OF u(2)] ids d by simp
  then show ?thesis using assms(6) g fr d ids find_contract_stored by fastforce
qed

lemma end_contract_Inr:
  assumes "end_contract owners kind t0 t i w org req = (Inr x, t')"
  shows "\<exists>c0 c. loaded_as t0 i w (er_version req) c0 c \<and>
    in_place_contract_update w (c_from c) (c_to c) i (save_contract c) t = (Inr x, t') \<and>
    (\<exists>b. c = c0\<lparr>c_to := b\<rparr> \<and> b = opt_value (er_to req)) \<and> opt_set (er_to req)"
  using assms find_contract_by_id_Inr [of t0 i]
  by (auto simp add: end_contract_def handler_simps split: sum.splits)

lemma move_contract_boundary_Inr:
  assumes "move_contract_boundary owners kind extra t0 t w org req = (Inr x, t')"
  shows "\<exists>c0 d0 c d. loaded_as t0 (br_earlier req) w (Some (br_earlier_version req)) c0 c \<and>
    loaded_as t0 (br_later req) w (Some (br_later_version req)) d0 d \<and>
    br_earlier req \<noteq> br_later req \<and>
    check_adjacent (c_from c0) (c_to c0) (c_from d0) (c_to d0) (br_at req) = Inr () \<and>
    c = c0\<lparr>c_to := Some (add_date (truncate_to_date (br_at req)) 0 0 (- 1))\<rparr> \<and>
    d = d0\<lparr>c_from := truncate_to_date (br_at req)\<rparr> \<and>
    move_boundary_tx w \<lparr>pr_id = c_id c, pr_from = c_from c, pr_to = c_to c\<rparr>
      \<lparr>pr_id = c_id d, pr_from = c_from d, pr_to = c_to d\<rparr> (save_two c d) t = (Inr x, t')"
  using assms find_contract_by_id_Inr [of t0]
  by (auto simp add: move_contract_boundary_def handler_simps split: sum.splits prod.splits)

text \<open>The three laws for the operations both services share.\<close>

lemma shared_ops_keep:
  assumes "table_ok t"
  shows "end_contract owners kind t0 t i w org er = (res, t') \<Longrightarrow> table_ok t'"
    and "move_contract_boundary owners kind extra t0 t w org br = (res2, t') \<Longrightarrow> table_ok t'"
    and "delete_contract_op owners kind t0 t i w org v = (res3, t') \<Longrightarrow> table_ok t'"
  using assms tx_keeps_table [OF assms] delete_contract_ok [OF assms]
  by (auto simp add: end_contract_def move_contract_boundary_def delete_contract_op_def Let_def
      split: sum.splits prod.splits if_splits)

lemma shared_ops_error:
  "end_contract owners kind t0 t i w org er = (Inl e, t') \<Longrightarrow> t' = t"
  "move_contract_boundary owners kind extra t0 t w org br = (Inl e, t') \<Longrightarrow> t' = t"
  "delete_contract_op owners kind t0 t i w org v = (Inl e, t') \<Longrightarrow> t' = t"
  using tx_error_unchanged
  by (auto simp add: end_contract_def move_contract_boundary_def delete_contract_op_def Let_def
      split: sum.splits prod.splits if_splits)

lemma delete_guard:
  assumes "table_ok t" and "delete_contract_op owners kind t0 t i w org (Some v) = (Inr u, t')"
  shows "stored_version t0 i = stored_version t i \<and> stored_version t' i \<noteq> stored_version t i"
proof -
  obtain c where c: "find_contract_by_id t0 i = Inr c" "c_version c = v"
      and d: "delete_contract t i (Some v) = Inr t'"
    using assms(2) by (auto simp add: delete_contract_op_def handler_simps split: sum.splits if_splits)
  have dist: "distinct (map c_id (t_rows t))" using table_okD(1) [OF assms(1)] .
  obtain r where r: "r \<in> set (t_rows t)" "c_id r = i" "c_version r = v"
    using d by (auto simp add: delete_contract_def Let_def filter_empty_conv split: if_splits)
  have st: "stored_version t i = Some v" using r stored_version_iff [OF dist] by blast
  have t': "t_rows t' = filter (\<lambda>r. \<not> (c_id r = i \<and> c_version r = v)) (t_rows t)"
    using d by (auto simp add: delete_contract_def Let_def split: if_splits)
  have "\<not> (\<exists>r \<in> set (t_rows t'). c_id r = i \<and> c_version r = v)" unfolding t' by simp
  moreover have "distinct (map c_id (t_rows t'))" unfolding t' using dist by (rule distinct_map_filter)
  ultimately have "stored_version t' i \<noteq> Some v" using stored_version_iff by blast
  then show ?thesis using st find_contract_stored [OF c(1)] c(2) by simp
qed

lemma delete_any_Inr:
  assumes "delete_contract_op owners kind t0 t i w org v = (Inr u, t')"
  shows "\<exists>c. find_contract_by_id t0 i = Inr c" and "delete_contract t i v = Inr t'"
  using assms by (auto simp add: delete_contract_op_def bindE_eq_Inr load_contract_Inr Let_def split: sum.splits if_splits)

lemma deleted_not_stored:
  assumes "distinct (map c_id (t_rows t))" and "delete_contract t i v = Inr t'"
  shows "stored_version t' i = None"
proof -
  have "\<forall>r \<in> set (t_rows t'). c_id r \<noteq> i"
  proof (cases v)
    case None
    then show ?thesis using assms(2) by (auto simp add: delete_contract_def Let_def)
  next
    case (Some x)
    then obtain s where s: "s \<in> set (t_rows t)" "c_id s = i" "c_version s = x"
      using assms(2) by (auto simp add: delete_contract_def Let_def filter_empty_conv split: if_splits)
    have "r = s" if "r \<in> set (t_rows t)" "c_id r = i" for r
      using row_unique [OF assms(1) that(1) s(1)] that(2) s(2) by simp
    moreover have "t_rows t' = filter (\<lambda>r. \<not> (c_id r = i \<and> c_version r = x)) (t_rows t)"
      using assms(2) Some by (auto simp add: delete_contract_def Let_def split: if_splits)
    ultimately show ?thesis using s(3) by auto
  qed
  then show ?thesis by (auto simp add: stored_version_def find_None_iff)
qed

text \<open>A contract that was loaded and is then deleted is no longer what any request has loaded.\<close>

lemma delete_erases:
  assumes "table_ok t" and "delete_contract_op owners kind t0 t i w org v = (Inr u, t')"
  shows "stored_version t0 i \<noteq> stored_version t' i"
  using delete_any_Inr [OF assms(2)] deleted_not_stored [OF table_okD(1) [OF assms(1)]] find_contract_stored
  by fastforce

text \<open>A delete without a version is not guarded: it takes the row in whatever version it meets.\<close>

lemma unguarded_delete:
  "delete_contract_op owners kind t0 t i w org None =
    (case load_contract owners t0 kind i w org of
       Inl e \<Rightarrow> (Inl e, t)
     | Inr _ \<Rightarrow> (Inr (), t\<lparr>t_rows := filter (\<lambda>r. c_id r \<noteq> i) (t_rows t)\<rparr>))"
  by (simp add: delete_contract_op_def check_version_def delete_contract_def Let_def split: sum.split prod.split)

lemma shared_guards:
  assumes "table_ok t"
  shows "end_contract owners kind t0 t i w org er = (Inr x, t') \<Longrightarrow>
      stored_version t0 i = stored_version t i \<and> stored_version t' i \<noteq> stored_version t i"
    and "move_contract_boundary owners kind extra t0 t w org br = (Inr y, t') \<Longrightarrow>
      k \<in> {br_earlier br, br_later br} \<Longrightarrow>
      stored_version t0 k = stored_version t k \<and> stored_version t' k \<noteq> stored_version t k"
proof -
  show "stored_version t0 i = stored_version t i \<and> stored_version t' i \<noteq> stored_version t i"
    if "end_contract owners kind t0 t i w org er = (Inr x, t')"
    using end_contract_Inr [OF that] in_place_guard [OF assms] by metis
  show "stored_version t0 k = stored_version t k \<and> stored_version t' k \<noteq> stored_version t k"
    if m: "move_contract_boundary owners kind extra t0 t w org br = (Inr y, t')"
      and k: "k \<in> {br_earlier br, br_later br}"
  proof -
    obtain c0 d0 c d where l: "loaded_as t0 (br_earlier br) w (Some (br_earlier_version br)) c0 c"
        "loaded_as t0 (br_later br) w (Some (br_later_version br)) d0 d" "br_earlier br \<noteq> br_later br"
      and tx: "move_boundary_tx w \<lparr>pr_id = c_id c, pr_from = c_from c, pr_to = c_to c\<rparr>
        \<lparr>pr_id = c_id d, pr_from = c_from d, pr_to = c_to d\<rparr> (save_two c d) t = (Inr y, t')"
      using move_contract_boundary_Inr [OF m] by blast
    show ?thesis by (rule move_guard [OF assms l tx k])
  qed
qed

lemmas child_op_defs = end_child_contract_def move_child_boundary_def delete_child_contract_def
lemmas employee_op_defs = end_employee_contract_def move_employee_boundary_def
  delete_employee_contract_def

lemma child_ops_keep:
  assumes "table_ok t"
  shows "create_child_contract env t w org cr = (res, t') \<Longrightarrow> table_ok t'"
    and "correct_child_contract env t0 t i w org cc = (res, t') \<Longrightarrow> table_ok t'"
    and "amend_child_contract env t0 t i w org ca = (res2, t') \<Longrightarrow> table_ok t'"
  using assms tx_keeps_table [OF assms]
  by (auto simp add: create_child_contract_def correct_child_contract_def amend_child_contract_def
      split: sum.splits prod.splits)

lemma child_ops_error:
  "create_child_contract env t w org cr = (Inl e, t') \<Longrightarrow> t' = t"
  "correct_child_contract env t0 t i w org cc = (Inl e, t') \<Longrightarrow> t' = t"
  "amend_child_contract env t0 t i w org ca = (Inl e, t') \<Longrightarrow> t' = t"
  using tx_error_unchanged
  by (auto simp add: create_child_contract_def correct_child_contract_def amend_child_contract_def
      split: sum.splits prod.splits)

lemma child_guards:
  assumes "table_ok t"
  shows "correct_child_contract env t0 t i w org cc = (Inr x, t') \<Longrightarrow>
      stored_version t0 i = stored_version t i \<and> stored_version t' i \<noteq> stored_version t i"
    and "amend_child_contract env t0 t i w org ca = (Inr y, t') \<Longrightarrow>
      stored_version t0 i = stored_version t i \<and> stored_version t' i \<noteq> stored_version t i"
proof -
  show "stored_version t0 i = stored_version t i \<and> stored_version t' i \<noteq> stored_version t i"
    if c: "correct_child_contract env t0 t i w org cc = (Inr x, t')"
  proof -
    obtain c where p: "prepare_correct_child env t0 i w org cc = Inr c"
        and tx: "in_place_contract_update w (c_from c) (c_to c) (c_id c) (save_contract c) t = (Inr x, t')"
      using c by (auto simp add: correct_child_contract_def split: sum.splits)
    obtain c0 where l: "loaded_as t0 i w (cc_version cc) c0 c"
      using prepare_correct_child_Inr [OF p] by blast
    show ?thesis by (rule in_place_guard [OF assms l tx])
  qed
  show "stored_version t0 i = stored_version t i \<and> stored_version t' i \<noteq> stored_version t i"
    if c: "amend_child_contract env t0 t i w org ca = (Inr y, t')"
  proof -
    obtain seam c n where p: "prepare_amend_child env t0 i w org ca = Inr (seam, c, n)"
        and tx: "amend_seam w seam (c_to n) (\<lambda>d s. update_contract s (c\<lparr>c_to := Some d\<rparr>))
          (\<lambda>s. create_contract s n) t = (Inr y, t')"
      using c by (auto simp add: amend_child_contract_def split: sum.splits)
    obtain c0 where l: "loaded_as t0 i w (ca_version ca) c0 c"
      using prepare_amend_child_Inr [OF p] by blast
    show ?thesis by (rule amend_guard [OF assms l tx])
  qed
qed

interpretation child_service:
  guarded_service "\<lambda>(env, p). run_child env p" table_ok stored_version "\<lambda>(env, p). child_rewrites p"
proof (unfold_locales, goal_cases)
  case (1 t p t0 r t')
  then show ?case
    by (cases p; cases "snd p") (auto simp add: child_op_defs intro: child_ops_keep shared_ops_keep elim!: ran_keeps)
next
  case (2 p t0 t e t')
  then show ?case
    by (cases p; cases "snd p") (auto simp add: child_op_defs ran_iff dest: child_ops_error shared_ops_error)
next
  case (3 t p t0 t' i)
  then show ?case
    using child_guards [OF 3(1)] shared_guards [OF 3(1)] delete_guard [OF 3(1)]
    by (cases p; cases "snd p") (auto simp add: child_op_defs ran_iff split: if_splits)
qed

lemma employee_ops_keep:
  assumes "table_ok t"
  shows "create_employee_contract env t w org cr = (res, t') \<Longrightarrow> table_ok t'"
    and "correct_employee_contract env t0 t i w org cc = (res, t') \<Longrightarrow> table_ok t'"
    and "amend_employee_contract env t0 t i w org ca = (res2, t') \<Longrightarrow> table_ok t'"
  using assms tx_keeps_table [OF assms]
  by (auto simp add: create_employee_contract_def correct_employee_contract_def amend_employee_contract_def
      split: sum.splits prod.splits)

lemma employee_ops_error:
  "create_employee_contract env t w org cr = (Inl e, t') \<Longrightarrow> t' = t"
  "correct_employee_contract env t0 t i w org cc = (Inl e, t') \<Longrightarrow> t' = t"
  "amend_employee_contract env t0 t i w org ca = (Inl e, t') \<Longrightarrow> t' = t"
  using tx_error_unchanged
  by (auto simp add: create_employee_contract_def correct_employee_contract_def amend_employee_contract_def
      split: sum.splits prod.splits)

lemma employee_guards:
  assumes "table_ok t"
  shows "correct_employee_contract env t0 t i w org cc = (Inr x, t') \<Longrightarrow>
      stored_version t0 i = stored_version t i \<and> stored_version t' i \<noteq> stored_version t i"
    and "amend_employee_contract env t0 t i w org ca = (Inr y, t') \<Longrightarrow>
      stored_version t0 i = stored_version t i \<and> stored_version t' i \<noteq> stored_version t i"
proof -
  show "stored_version t0 i = stored_version t i \<and> stored_version t' i \<noteq> stored_version t i"
    if c: "correct_employee_contract env t0 t i w org cc = (Inr x, t')"
  proof -
    obtain c where p: "prepare_correct_employee env t0 i w org cc = Inr c"
        and tx: "in_place_contract_update w (c_from c) (c_to c) (c_id c) (save_contract c) t = (Inr x, t')"
      using c by (auto simp add: correct_employee_contract_def split: sum.splits)
    obtain c0 where l: "loaded_as t0 i w (ch_version cc) c0 c"
      using prepare_correct_employee_Inr [OF p] by blast
    show ?thesis by (rule in_place_guard [OF assms l tx])
  qed
  show "stored_version t0 i = stored_version t i \<and> stored_version t' i \<noteq> stored_version t i"
    if c: "amend_employee_contract env t0 t i w org ca = (Inr y, t')"
  proof -
    obtain seam c n where p: "prepare_amend_employee env t0 i w org ca = Inr (seam, c, n)"
        and tx: "amend_seam w seam (c_to n) (\<lambda>d s. update_contract s (c\<lparr>c_to := Some d\<rparr>))
          (\<lambda>s. create_contract s n) t = (Inr y, t')"
      using c by (auto simp add: amend_employee_contract_def split: sum.splits)
    obtain c0 where l: "loaded_as t0 i w (ch_version ca) c0 c"
      using prepare_amend_employee_Inr [OF p] by blast
    show ?thesis by (rule amend_guard [OF assms l tx])
  qed
qed

interpretation employee_service:
  guarded_service "\<lambda>(env, p). run_employee env p" table_ok stored_version "\<lambda>(env, p). employee_rewrites p"
proof (unfold_locales, goal_cases)
  case (1 t p t0 r t')
  then show ?case
    by (cases p; cases "snd p") (auto simp add: employee_op_defs intro: employee_ops_keep shared_ops_keep elim!: ran_keeps)
next
  case (2 p t0 t e t')
  then show ?case
    by (cases p; cases "snd p") (auto simp add: employee_op_defs ran_iff dest: employee_ops_error shared_ops_error)
next
  case (3 t p t0 t' i)
  then show ?case
    using employee_guards [OF 3(1)] shared_guards [OF 3(1)] delete_guard [OF 3(1)]
    by (cases p; cases "snd p") (auto simp add: employee_op_defs ran_iff split: if_splits)
qed


end
