(* ===== verification/FundingLaws.thy ===== *)
theory FundingLaws
  imports Funding
begin

text \<open>
  What the funding matching and the write-time validation of properties do, stated over all
  configurations: which configured properties match, how a child's values split into matched
  and unmatched ones, and which properties the validation accepts.
\<close>

section \<open>Matching\<close>

definition fp_kv :: "funding_property \<Rightarrow> string" where
  "fp_kv fp = kv_key (fp_key fp) (fp_value fp)"

definition fp_matches :: "int \<Rightarrow> properties \<Rightarrow> funding_property \<Rightarrow> bool" where
  "fp_matches age props fp \<longleftrightarrow> matches_age fp age \<and> has_value props (fp_key fp) (fp_value fp)"

lemma matches_age_iff:
  "matches_age fp age \<longleftrightarrow>
    (\<forall>a. fp_min_age fp = Some a \<longrightarrow> a \<le> age) \<and> (\<forall>a. fp_max_age fp = Some a \<longrightarrow> age \<le> a)"
  by (auto simp add: matches_age_def split: option.splits)

lemma match_loop_simps [simp]:
  "match_loop age props seen (fp # fps) =
    (if fp_matches age props fp \<and> fp_kv fp \<notin> set seen
     then fp # match_loop age props (fp_kv fp # seen) fps else match_loop age props seen fps)"
  by (simp add: fp_matches_def fp_kv_def Let_def)

declare match_loop.simps(2) [simp del]

lemma match_loop_set:
  "fp \<in> set (match_loop age props seen fps) \<Longrightarrow>
    fp \<in> set fps \<and> fp_matches age props fp \<and> fp_kv fp \<notin> set seen"
  by (induction fps arbitrary: seen) (fastforce split: if_splits)+

lemma match_loop_distinct: "distinct (map fp_kv (match_loop age props seen fps))"
  by (induction fps arbitrary: seen) (auto dest: match_loop_set)

lemma match_loop_complete:
  "fp \<in> set fps \<Longrightarrow> fp_matches age props fp \<Longrightarrow> fp_kv fp \<notin> set seen \<Longrightarrow>
    fp_kv fp \<in> fp_kv ` set (match_loop age props seen fps)"
proof (induction fps arbitrary: seen)
  case (Cons g fps)
  then show ?case by (cases "fp_kv g = fp_kv fp") auto
qed simp

lemma match_kv_set:
  "fp_kv ` set (match_loop age props [] fps) = fp_kv ` {fp \<in> set fps. fp_matches age props fp}"
  using match_loop_set [of _ age props "[]" fps] match_loop_complete [of _ fps age props "[]"] by auto

text \<open>The first of several properties with the same key and value wins.\<close>

lemma match_loop_first:
  assumes "fp_matches age props fp" and "fp_kv fp \<notin> set seen"
    and "\<forall>g \<in> set pre. fp_matches age props g \<longrightarrow> fp_kv g \<noteq> fp_kv fp"
  shows "fp \<in> set (match_loop age props seen (pre @ fp # post))"
  using assms by (induction pre arbitrary: seen) auto

lemma match_loop_earliest:
  assumes "fp \<in> set (match_loop age props seen fps)"
  shows "\<exists>pre post. fps = pre @ fp # post \<and> fp_matches age props fp \<and>
    (\<forall>g \<in> set pre. fp_matches age props g \<longrightarrow> fp_kv g \<noteq> fp_kv fp)"
  using assms
proof (induction fps arbitrary: seen)
  case (Cons g gs)
  show ?case
  proof (cases "fp_matches age props g \<and> fp_kv g \<notin> set seen")
    case True
    then consider "fp = g" | "fp \<in> set (match_loop age props (fp_kv g # seen) gs)"
      using Cons.prems by auto
    then show ?thesis
    proof cases
      case 1
      then show ?thesis using True by (intro exI [of _ "[]"] exI [of _ gs]) simp
    next
      case 2
      then obtain pre post where p: "gs = pre @ fp # post" "fp_matches age props fp"
          "\<forall>g \<in> set pre. fp_matches age props g \<longrightarrow> fp_kv g \<noteq> fp_kv fp"
        using Cons.IH by blast
      moreover have "fp_kv g \<noteq> fp_kv fp" using match_loop_set [OF 2] by auto
      ultimately show ?thesis by (intro exI [of _ "g # pre"] exI [of _ post]) simp
    qed
  next
    case False
    then have m: "fp \<in> set (match_loop age props seen gs)" using Cons.prems by auto
    then obtain pre post where p: "gs = pre @ fp # post" "fp_matches age props fp"
        "\<forall>g \<in> set pre. fp_matches age props g \<longrightarrow> fp_kv g \<noteq> fp_kv fp"
      using Cons.IH by blast
    moreover have "fp_matches age props g \<longrightarrow> fp_kv g \<noteq> fp_kv fp"
      using False match_loop_set [OF m] by metis
    ultimately show ?thesis by (intro exI [of _ "g # pre"] exI [of _ post]) simp
  qed
qed simp

section \<open>Funding of one child\<close>

definition kv_of :: "funding_property \<Rightarrow> string \<times> string" where
  "kv_of fp = (fp_key fp, fp_value fp)"

lemma accumulate_matches_eq:
  assumes "distinct (map fp_kv fps)" and "fp_kv ` set fps \<inter> set seen = {}"
  shows "accumulate_matches r seen fps =
    (r\<lparr>cf_funding := foldl (\<lambda>a fp. s64 (a + fp_payment fp)) (cf_funding r) fps,
       cf_requirement := foldl (\<lambda>a fp. fadd a (fp_requirement fp)) (cf_requirement r) fps,
       cf_matched := cf_matched r @ map kv_of fps\<rparr>, rev (map fp_kv fps) @ seen)"
  using assms
proof (induction fps arbitrary: r seen)
  case (Cons fp fps)
  have "fp_kv fp \<notin> set seen" using Cons.prems by simp
  moreover have "distinct (map fp_kv fps)" "fp_kv ` set fps \<inter> set (fp_kv fp # seen) = {}"
    using Cons.prems by auto
  ultimately show ?case using Cons.IH [of "fp_kv fp # seen"]
    by (simp add: fp_kv_def [symmetric] Let_def kv_of_def)
qed simp

lemma foldl_pair:
  "foldl (\<lambda>(a, b) x. (f a x, g b x)) (a, b) xs = (foldl f a xs, foldl g b xs)"
  by (induction xs arbitrary: a b) auto

lemma sum_child_funding_match_eq:
  "sum_child_funding_match age props period =
    (s64 (sum_list (map fp_payment (match_funding_properties age props period))),
     foldl (\<lambda>a fp. fadd a (fp_requirement fp)) (Fin 0) (match_funding_properties age props period))"
proof -
  have "foldl (\<lambda>a fp. s64 (a + fp_payment fp)) (s64 a) fps = s64 (a + sum_list (map fp_payment fps))" for a fps
    using foldl_s64 [of a "map fp_payment fps"] by (simp add: foldl_map)
  from this [of 0] show ?thesis
    by (simp add: sum_child_funding_match_def foldl_pair [of "\<lambda>a fp. s64 (a + fp_payment fp)"])
qed

lemma calculate_child_funding_eq:
  "calculate_child_funding age props period =
    \<lparr>cf_funding = fst (sum_child_funding_match age props period),
     cf_requirement = snd (sum_child_funding_match age props period),
     cf_matched = map kv_of (match_funding_properties age props period),
     cf_unmatched = filter (\<lambda>(k, v). kv_key k v \<notin> fp_kv ` set (match_funding_properties age props period))
       (get_all_contract_key_values props)\<rparr>"
proof (cases period)
  case None
  then show ?thesis
    by (simp add: calculate_child_funding_def match_funding_properties_def sum_child_funding_match_def)
next
  case (Some p)
  have d: "distinct (map fp_kv (match_funding_properties age props period))"
    using match_loop_distinct Some by (simp add: match_funding_properties_def)
  show ?thesis
    using Some accumulate_matches_eq [OF d, of "[]"]
    by (simp add: calculate_child_funding_def Let_def sum_child_funding_match_def
        foldl_pair [of "\<lambda>a fp. s64 (a + fp_payment fp)"] case_prod_beta)
qed

section \<open>The funding of a child, as properties\<close>

definition ex_rate :: "nat \<Rightarrow> string \<Rightarrow> string \<Rightarrow> int \<Rightarrow> int option \<Rightarrow> int option \<Rightarrow> funding_property" where
  "ex_rate i k v payment lo hi = \<lparr>fp_id = i, fp_key = k, fp_value = v, fp_label = [],
     fp_payment = payment, fp_requirement = Fin 0, fp_min_age = lo, fp_max_age = hi,
     fp_apply_to_all = False\<rparr>"

definition ex_rates :: funding_period where
  "ex_rates = \<lparr>p_from = midnight 730000, p_to = None, gp_id = 1, gp_full_time_hours = Fin 39,
     gp_required_keys = [''care''],
     gp_properties =
       [ex_rate 1 ''care'' ''full'' 166847 (Some 0) (Some 1),
        ex_rate 2 ''care'' ''full'' 120000 (Some 2) (Some 6),
        ex_rate 3 ''ndh'' ''yes'' 10000 None None]\<rparr>"

lemma kv_key_inject:
  "CHR '':'' \<notin> set k \<Longrightarrow> CHR '':'' \<notin> set k' \<Longrightarrow> kv_key k v = kv_key k' v' \<longleftrightarrow> k = k' \<and> v = v'"
proof (induction k arbitrary: k')
  case Nil
  then show ?case by (cases k') (auto simp add: kv_key_def)
next
  case (Cons c k)
  then show ?case by (cases k') (auto simp add: kv_key_def)
qed

text \<open>
  C7. The configured properties that fund a child all apply to it (its age is in their range, its
  contract has their value), no two of them share the string \<open>key:value\<close>, each is the first in
  configuration order of those that apply with its string, and every property that applies is
  represented by one with the same string. When no key of a property that applies contains a
  colon, the same holds of the pairs of key and value: none is missed, none counted twice.
\<close>
lemma funding_matches_first_of_each:
  assumes "ms = match_funding_properties age props (Some p)"
    and "applies = {fp \<in> set (gp_properties p). matches_age fp age \<and> has_value props (fp_key fp) (fp_value fp)}"
  shows "set ms \<subseteq> applies \<and> distinct (map fp_kv ms) \<and>
    (\<forall>fp \<in> set ms. \<exists>pre post. gp_properties p = pre @ fp # post \<and>
       (\<forall>g \<in> set pre \<inter> applies. fp_kv g \<noteq> fp_kv fp)) \<and>
    fp_kv ` set ms = fp_kv ` applies \<and>
    ((\<forall>fp \<in> applies. CHR '':'' \<notin> set (fp_key fp)) \<longrightarrow>
       distinct (map kv_of ms) \<and> kv_of ` set ms = kv_of ` applies)"
proof -
  let ?fps = "gp_properties p"
  have ms: "ms = match_loop age props [] ?fps" by (simp add: assms(1) match_funding_properties_def)
  have applies: "applies = {fp \<in> set ?fps. fp_matches age props fp}" by (simp add: assms(2) fp_matches_def)
  have sub: "set ms \<subseteq> applies" using match_loop_set unfolding ms applies by blast
  have d: "distinct (map fp_kv ms)" unfolding ms by (rule match_loop_distinct)
  have all: "fp_kv ` set ms = fp_kv ` applies" unfolding ms applies by (rule match_kv_set)
  have first: "\<exists>pre post. ?fps = pre @ fp # post \<and> (\<forall>g \<in> set pre \<inter> applies. fp_kv g \<noteq> fp_kv fp)"
    if "fp \<in> set ms" for fp
    using match_loop_earliest [of fp age props "[]" ?fps] that unfolding ms applies by auto
  have "map fp_kv ms = map (\<lambda>(k, v). kv_key k v) (map kv_of ms)" by (simp add: kv_of_def fp_kv_def)
  with d have dp: "distinct (map kv_of ms)" by (metis distinct_map)
  have mem: "kv_of x \<in> kv_of ` set ms" if x: "x \<in> applies" and c: "\<forall>fp \<in> applies. CHR '':'' \<notin> set (fp_key fp)" for x
  proof -
    from x all obtain m where m: "m \<in> set ms" "fp_kv m = fp_kv x" by (metis image_iff)
    moreover have "m \<in> applies" using m(1) sub by blast
    ultimately have "kv_of m = kv_of x"
      using c x kv_key_inject [of "fp_key m" "fp_key x"] by (simp add: fp_kv_def kv_of_def)
    with m(1) show ?thesis by (metis imageI)
  qed
  have pairs: "kv_of ` set ms = kv_of ` applies" if c: "\<forall>fp \<in> applies. CHR '':'' \<notin> set (fp_key fp)"
  proof (rule subset_antisym)
    show "kv_of ` applies \<subseteq> kv_of ` set ms" using mem [OF _ c] by (rule image_subsetI)
  qed (rule image_mono [OF sub])
  have "\<forall>fp \<in> set ms. \<exists>pre post. ?fps = pre @ fp # post \<and> (\<forall>g \<in> set pre \<inter> applies. fp_kv g \<noteq> fp_kv fp)"
    by (rule ballI [OF first])
  with sub d all dp pairs show ?thesis by (intro conjI impI) assumption+
qed

lemma funding_matches_first_of_each_witness:
  "kv_of ` set (match_funding_properties 2 (Some [(''care'', PString ''full'')]) (Some ex_rates)) = {(''care'', ''full'')}"
proof -
  let ?a = "{fp \<in> set (gp_properties ex_rates). matches_age fp 2 \<and>
      has_value (Some [(''care'', PString ''full'')]) (fp_key fp) (fp_value fp)}"
  have a: "?a = {ex_rate 2 ''care'' ''full'' 120000 (Some 2) (Some 6)}"
    by (simp only: set_filter [symmetric])
      (simp add: ex_rates_def ex_rate_def matches_age_def has_value_def prop_lookup_def entries_def)
  let ?ms = "match_funding_properties 2 (Some [(''care'', PString ''full'')]) (Some ex_rates)"
  have "(\<forall>fp \<in> ?a. CHR '':'' \<notin> set (fp_key fp)) \<longrightarrow> distinct (map kv_of ?ms) \<and> kv_of ` set ?ms = kv_of ` ?a"
    using funding_matches_first_of_each [OF refl refl, of 2 "Some [(''care'', PString ''full'')]" ex_rates] by (elim conjE)
  then show ?thesis unfolding a by (simp add: kv_of_def ex_rate_def)
qed

lemma get_all_values_key: "v \<in> set (get_all_values props k) \<Longrightarrow> k \<in> fst ` set (entries props)"
proof (cases "map_of (entries props) k")
  case (Some b)
  then show ?thesis by (metis domI dom_map_of_conv_image_fst)
qed (simp add: get_all_values_def prop_lookup_def)

lemma contract_key_values_iff:
  "(k, v) \<in> set (get_all_contract_key_values props) \<longleftrightarrow> has_value props k v"
proof -
  have "(k, v) \<in> set (get_all_contract_key_values props) \<longleftrightarrow>
      k \<in> fst ` set (entries props) \<and> v \<in> set (get_all_values props k)"
    by (force simp add: get_all_contract_key_values_def)
  then show ?thesis using get_all_values_key has_value_get_all_values by blast
qed

lemma match_funding_properties_set:
  "fp \<in> set (match_funding_properties age props (Some p)) \<Longrightarrow>
    fp \<in> set (gp_properties p) \<and> fp_matches age props fp"
  using match_loop_set by (fastforce simp add: match_funding_properties_def)

text \<open>
  C8. The funding of a child is the 64-bit sum of the payments of the matched properties, the
  same total as the one \<open>sumChildFundingMatch\<close> reports; and when no key contains a colon, the
  values of the contract are split exactly into the matched pairs and the unmatched ones.
\<close>
lemma child_funding_partition:
  assumes "\<forall>k \<in> fst ` set (entries props) \<union> fp_key ` set (gp_properties p). CHR '':'' \<notin> set k"
    and "r = calculate_child_funding age props (Some p)"
  shows "cf_funding r = s64 (sum_list (map fp_payment (match_funding_properties age props (Some p)))) \<and>
    cf_funding r = fst (sum_child_funding_match age props (Some p)) \<and>
    cf_requirement r = sum_child_requirement age props (Some p) \<and>
    distinct (cf_matched r) \<and>
    set (cf_matched r) \<inter> set (cf_unmatched r) = {} \<and>
    set (cf_matched r) \<union> set (cf_unmatched r) = set (get_all_contract_key_values props)"
proof -
  let ?m = "match_funding_properties age props (Some p)"
  have inj: "kv_key k v = fp_kv fp \<longleftrightarrow> (k, v) = kv_of fp"
    if "has_value props k v" "fp \<in> set ?m" for k v fp
  proof -
    have "CHR '':'' \<notin> set k" "CHR '':'' \<notin> set (fp_key fp)"
      using that assms(1) get_all_values_key match_funding_properties_set
      by (auto simp add: has_value_get_all_values)
    then show ?thesis by (simp add: fp_kv_def kv_of_def kv_key_inject)
  qed
  have hv: "has_value props (fst (kv_of fp)) (snd (kv_of fp))" if "fp \<in> set ?m" for fp
    using match_funding_properties_set [OF that] by (simp add: kv_of_def fp_matches_def)
  have "distinct (map fp_kv ?m)" using match_loop_distinct by (simp add: match_funding_properties_def)
  moreover have "map fp_kv ?m = map (\<lambda>(k, v). kv_key k v) (map kv_of ?m)"
    by (simp add: kv_of_def fp_kv_def)
  ultimately have "distinct (map kv_of ?m)" by (metis distinct_map)
  moreover have "kv_key k v \<in> fp_kv ` set ?m \<longleftrightarrow> (k, v) \<in> kv_of ` set ?m"
    if "(k, v) \<in> set (get_all_contract_key_values props)" for k v
    using inj [of k v] that by (auto simp add: contract_key_values_iff image_iff)
  then have "set (cf_unmatched r) = {kv \<in> set (get_all_contract_key_values props). kv \<notin> kv_of ` set ?m}"
    unfolding assms(2) by (auto simp add: calculate_child_funding_eq)
  moreover have "kv_of ` set ?m \<subseteq> set (get_all_contract_key_values props)"
    using hv by (auto simp add: contract_key_values_iff kv_of_def)
  ultimately show ?thesis
    unfolding assms(2) by (auto simp add: calculate_child_funding_eq sum_child_funding_match_eq
        sum_child_requirement_def)
qed

lemma child_funding_partition_witness:
  "cf_funding (calculate_child_funding 2 (Some [(''care'', PString ''full'')]) (Some ex_rates)) = 120000"
proof -
  have "cf_funding (calculate_child_funding 2 (Some [(''care'', PString ''full'')]) (Some ex_rates))
      = s64 (sum_list (map fp_payment
          (match_funding_properties 2 (Some [(''care'', PString ''full'')]) (Some ex_rates))))"
    by (rule child_funding_partition [THEN conjunct1, OF _ refl])
      (simp add: ex_rates_def ex_rate_def entries_def)
  also have "\<dots> = 120000"
    by (simp add: match_funding_properties_def ex_rates_def ex_rate_def fp_matches_def
        matches_age_def has_value_def prop_lookup_def entries_def fp_kv_def kv_key_def s64_def)
  finally show ?thesis .
qed

text \<open>
  With a colon in a key the split can fail: here the contract's value of key \<open>a\<close> is
  counted as matched although no configured property has that key.
\<close>
lemma colon_in_key_hides_unmatched:
  "calculate_child_funding 2 (Some [(''a:b'', PString ''c''), (''a'', PString ''b:c'')])
      (Some (ex_rates\<lparr>gp_properties := [ex_rate 1 ''a:b'' ''c'' 100 None None]\<rparr>))
    = \<lparr>cf_funding = 100, cf_requirement = Fin 0, cf_matched = [(''a:b'', ''c'')], cf_unmatched = []\<rparr>"
  by (simp add: calculate_child_funding_eq sum_child_funding_match_eq match_funding_properties_def
      ex_rates_def ex_rate_def fp_matches_def matches_age_def has_value_def prop_lookup_def entries_def
      fp_kv_def kv_key_def s64_def kv_of_def get_all_contract_key_values_def get_all_values_def
      round64_0)

section \<open>What the validation accepts\<close>

lemma declared_values_known:
  "set (snd (declared_values ps vals known)) = fp_kv ` set ps \<union> set known"
  by (induction ps arbitrary: vals known) (auto simp add: fp_kv_def Let_def)

lemma check_key_Nil:
  "check_key props vals known pre key = [] \<longleftrightarrow>
    (\<exists>v. get_all_values props key = [v] \<and> kv_key key v \<in> set known)"
  by (cases "get_all_values props key" rule: remdups_adj.cases) (auto simp add: check_key_def Let_def)

lemma validate_contract_properties_Inr:
  "validate_contract_properties props (Some p) pre = Inr u \<longleftrightarrow>
    (\<forall>key \<in> fst ` set (entries props). \<exists>v. get_all_values props key = [v] \<and>
       kv_key key v \<in> fp_kv ` set (gp_properties p)) \<and>
    (\<forall>key \<in> set (gp_required_keys p). get_all_values props key \<noteq> [])"
proof -
  obtain vals known where d: "declared_values (gp_properties p) [] [] = (vals, known)"
    by (cases "declared_values (gp_properties p) [] []")
  have "set known = fp_kv ` set (gp_properties p)"
    using declared_values_known [of "gp_properties p" "[]" "[]"] d by simp
  then show ?thesis
    by (auto simp add: validate_contract_properties_def d check_key_Nil check_required_def Let_def)
qed

text \<open>Without colons the joined string determines the pair.\<close>

lemma configured_pair_iff:
  assumes "CHR '':'' \<notin> set key" and "\<forall>fp \<in> set fps. CHR '':'' \<notin> set (fp_key fp)"
  shows "kv_key key v \<in> fp_kv ` set fps \<longleftrightarrow> (\<exists>fp \<in> set fps. fp_key fp = key \<and> fp_value fp = v)"
proof -
  have "kv_key key v = fp_kv fp \<longleftrightarrow> key = fp_key fp \<and> v = fp_value fp" if "fp \<in> set fps" for fp
    using kv_key_inject [OF assms(1)] assms(2) that by (simp add: fp_kv_def)
  then show ?thesis by (auto simp add: image_iff)
qed

text \<open>The properties a funding period accepts, spelled out; without a period, any.\<close>

definition meets_period :: "properties \<Rightarrow> funding_period option \<Rightarrow> bool" where
  "meets_period props period \<longleftrightarrow> (\<forall>p. period = Some p \<longrightarrow>
     (\<forall>key \<in> fst ` set (entries props). \<exists>v. get_all_values props key = [v] \<and>
        (\<exists>fp \<in> set (gp_properties p). kv_key (fp_key fp) (fp_value fp) = kv_key key v)) \<and>
     (\<forall>key \<in> set (gp_required_keys p). get_all_values props key \<noteq> []))"

lemma meets_period_iff: "meets_period props period \<longleftrightarrow> validate_contract_properties props period pre = Inr ()"
proof (cases period)
  case None
  then show ?thesis by (simp add: meets_period_def validate_contract_properties_def)
next
  case (Some p)
  have "kv_key key v \<in> fp_kv ` set fps \<longleftrightarrow> (\<exists>fp \<in> set fps. kv_key (fp_key fp) (fp_value fp) = kv_key key v)" for key v fps
    by (auto simp add: image_iff fp_kv_def eq_commute)
  then show ?thesis by (simp add: Some meets_period_def validate_contract_properties_Inr)
qed

text \<open>
  C9. Contract properties are accepted under a funding period exactly when every key has one
  single value, the string \<open>key:value\<close> is that of a configured property, and every required key
  has a value. When no key contains a colon, this means that the very pair of key and value is
  configured.
\<close>
lemma accepted_properties_iff:
  "(validate_contract_properties props (Some p) pre = Inr () \<longleftrightarrow>
      (\<forall>key \<in> fst ` set (entries props). \<exists>v. get_all_values props key = [v] \<and>
         (\<exists>fp \<in> set (gp_properties p). kv_key (fp_key fp) (fp_value fp) = kv_key key v)) \<and>
      (\<forall>key \<in> set (gp_required_keys p). get_all_values props key \<noteq> [])) \<and>
    ((\<forall>k \<in> fst ` set (entries props) \<union> fp_key ` set (gp_properties p). CHR '':'' \<notin> set k) \<longrightarrow>
      (validate_contract_properties props (Some p) pre = Inr () \<longleftrightarrow>
        (\<forall>key \<in> fst ` set (entries props). \<exists>v. get_all_values props key = [v] \<and>
           (\<exists>fp \<in> set (gp_properties p). fp_key fp = key \<and> fp_value fp = v)) \<and>
        (\<forall>key \<in> set (gp_required_keys p). get_all_values props key \<noteq> [])))"
proof (intro conjI impI)
  let ?keys = "fst ` set (entries props)" and ?configured = "set (gp_properties p)"
  have joined: "kv_key key v \<in> fp_kv ` ?configured \<longleftrightarrow>
      (\<exists>fp \<in> ?configured. kv_key (fp_key fp) (fp_value fp) = kv_key key v)" for key v
    by (auto simp add: image_iff fp_kv_def eq_commute)
  show "validate_contract_properties props (Some p) pre = Inr () \<longleftrightarrow>
      (\<forall>key \<in> ?keys. \<exists>v. get_all_values props key = [v] \<and>
         (\<exists>fp \<in> ?configured. kv_key (fp_key fp) (fp_value fp) = kv_key key v)) \<and>
      (\<forall>key \<in> set (gp_required_keys p). get_all_values props key \<noteq> [])"
    by (simp only: validate_contract_properties_Inr joined)
  assume "\<forall>k \<in> ?keys \<union> fp_key ` ?configured. CHR '':'' \<notin> set k"
  then have "kv_key key v \<in> fp_kv ` ?configured \<longleftrightarrow> (\<exists>fp \<in> ?configured. fp_key fp = key \<and> fp_value fp = v)"
    if "key \<in> ?keys" for key v
    using configured_pair_iff [of key "gp_properties p" v] that by simp
  then show "validate_contract_properties props (Some p) pre = Inr () \<longleftrightarrow>
      (\<forall>key \<in> ?keys. \<exists>v. get_all_values props key = [v] \<and> (\<exists>fp \<in> ?configured. fp_key fp = key \<and> fp_value fp = v)) \<and>
      (\<forall>key \<in> set (gp_required_keys p). get_all_values props key \<noteq> [])"
    by (simp add: validate_contract_properties_Inr)
qed

lemma accepted_properties_iff_witness:
  "validate_contract_properties (Some [(''care'', PString ''full'')]) (Some ex_rates) [] = Inr () \<and>
   validate_contract_properties (Some [(''care'', PString ''none'')]) (Some ex_rates) [] \<noteq> Inr ()"
proof -
  have c: "\<forall>k \<in> fst ` set (entries (Some [(''care'', PString v)])) \<union> fp_key ` set (gp_properties ex_rates).
      CHR '':'' \<notin> set k" for v
    by (simp add: ex_rates_def ex_rate_def entries_def)
  show ?thesis
    unfolding accepted_properties_iff [THEN conjunct2, THEN mp, OF c]
    by (simp add: ex_rates_def ex_rate_def entries_def get_all_values_def prop_lookup_def)
qed

section \<open>Automatic properties\<close>

lemma foldl_defaults_keys:
  "fst ` set (foldl (\<lambda>m prop. alist_add (fp_key prop) (PString (fp_value prop)) (\<lambda>_ v. v) m) m ps)
    = fst ` set m \<union> fp_key ` set ps"
proof (induction ps arbitrary: m)
  case (Cons p ps)
  have "fst ` set (alist_add (fp_key p) (PString (fp_value p)) (\<lambda>_ v. v) m) = insert (fp_key p) (fst ` set m)"
    by (simp only: set_map [symmetric] map_fst_alist_add) auto
  then show ?case using Cons by simp
qed simp

lemma auto_apply_lookup:
  assumes "fp \<in> set (gp_properties p)" and "fp_apply_to_all fp"
  shows "prop_lookup (auto_apply_properties (Some p)) (fp_key fp) \<noteq> None"
  using assms foldl_defaults_keys [of "[]" "filter fp_apply_to_all (gp_properties p)"]
  by (auto simp add: auto_apply_properties_def Let_def prop_lookup_def entries_def map_of_eq_None_iff)

section \<open>Ages\<close>

text \<open>
  For a billing date on the first of a month, the funding age counts a birthday as
  reached only when its month lies strictly before the billing month: the age is the
  difference of the years, less one when the billing month is not past the birth month, and
  less one too for a child born on 29 February in a March of a common year; never negative.
\<close>
lemma funding_age_law:
  assumes "day_of billing = 1"
  shows "funding_age_on_date birthdate billing =
    max 0 (year_of billing - year_of birthdate
      - (if month_of billing \<le> month_of birthdate \<or> leap_day_gap birthdate billing then 1 else 0))"
  using funding_age_first [OF assms] .

lemma funding_age_law_witness:
  "funding_age_on_date (date_utc 2020 5 1) (date_utc 2023 5 1) = 2 \<and>
   funding_age_on_date (date_utc 2020 5 31) (date_utc 2023 6 1) = 3"
proof -
  have v: "valid_civil 2020 5 1" "valid_civil 2023 5 1" "valid_civil 2020 5 31" "valid_civil 2023 6 1"
    by code_simp+
  note parts = date_utc_parts [OF v(1)] date_utc_parts [OF v(2)] date_utc_parts [OF v(3)]
    date_utc_parts [OF v(4)]
  show ?thesis by (simp add: funding_age_law parts leap_day_gap_def)
qed

text \<open>
  The funding age of a child born on 29 February differs from its calendar age on the
  first of March of a common year, although it was not born on the first of a month.
\<close>
lemma leap_day_child_is_younger_for_funding:
  "funding_age_on_date (date_utc 2024 2 29) (date_utc 2025 3 1) = 0 \<and>
   calculate_age_on_date (date_utc 2024 2 29) (date_utc 2025 3 1) = 1"
  by code_simp

end
