(* ===== verification/ContractTheorems.thy ===== *)
theory ContractTheorems
  imports ContractServices FundingLaws
begin

text \<open>
  The properties of the contract services, each with a concrete instance: contracts of one
  owner never overlap however requests interleave, no update is lost, errors change nothing,
  amending and moving a boundary keep the days an owner is covered.
\<close>

section \<open>Reachable tables\<close>

text \<open>Each step may load from any table and run in any environment.\<close>

inductive child_reachable :: "child_contract ctable \<Rightarrow> bool" where
  start: "child_reachable \<lparr>t_rows = [], t_next = n\<rparr>"
| step: "child_reachable t \<Longrightarrow> run_child env p t0 t = (r, t') \<Longrightarrow> child_reachable t'"

inductive employee_reachable :: "employee_contract ctable \<Rightarrow> bool" where
  start: "employee_reachable \<lparr>t_rows = [], t_next = n\<rparr>"
| step: "employee_reachable t \<Longrightarrow> run_employee env p t0 t = (r, t') \<Longrightarrow> employee_reachable t'"

lemma empty_table_ok: "table_ok \<lparr>t_rows = [], t_next = n\<rparr>"
  by (simp add: table_ok_def)

lemma child_reachable_ok: "child_reachable t \<Longrightarrow> table_ok t"
  by (induction rule: child_reachable.induct)
    (use empty_table_ok child_service.run_inv [of _ "(env, p)" for env p] in auto)

lemma employee_reachable_ok: "employee_reachable t \<Longrightarrow> table_ok t"
  by (induction rule: employee_reachable.induct)
    (use empty_table_ok employee_service.run_inv [of _ "(env, p)" for env p] in auto)

section \<open>A small example\<close>

definition ex_child_env :: child_env where
  "ex_child_env = \<lparr>ce_children = (\<lambda>i. if i = 1 then Some (1, midnight 737000) else None),
     ce_sections = (\<lambda>i. if i = 1 then Some 1 else None), ce_org_state = (\<lambda>_. None),
     ce_funding = (\<lambda>_. None)\<rparr>"

definition ex_create :: child_create_request where
  "ex_create = \<lparr>cr_from = midnight 738000, cr_to = None, cr_section = 1, cr_props = None\<rparr>"

definition ex_row :: child_contract where
  "ex_row = \<lparr>c_id = 1, c_owner = 1, c_from = midnight 738000, c_to = None, c_section = 1,
     c_props = None, c_version = 1\<rparr>"

definition ex_table :: "child_contract ctable" where
  "ex_table = \<lparr>t_rows = [ex_row], t_next = 2\<rparr>"

definition ex_amend :: child_amend_request where
  "ex_amend = \<lparr>ca_effective_from = midnight 738100, ca_to = Absent, ca_section = Absent,
     ca_props = Absent, ca_version = Some 1\<rparr>"

definition ex_correct :: child_correct_request where
  "ex_correct = \<lparr>cc_from = Absent, cc_to = Value (midnight 738500), cc_section = Absent,
     cc_props = Absent, cc_version = Some 1\<rparr>"

definition ex_amended :: "child_contract \<times> child_contract" where
  "ex_amended = (ex_row\<lparr>c_to := Some (midnight 738099), c_version := 2\<rparr>,
     ex_row\<lparr>c_id := 2, c_from := midnight 738100\<rparr>)"

definition ex_amended_table :: "child_contract ctable" where
  "ex_amended_table = \<lparr>t_rows = [fst ex_amended, snd ex_amended], t_next = 3\<rparr>"

lemmas ex_defs = ex_child_env_def ex_create_def ex_row_def ex_table_def ex_amend_def ex_correct_def
  ex_amended_def ex_amended_table_def

lemmas contract_eval = validate_period_400_def validate_period_def find_owner_def
  verify_org_ownership_def validate_dates_after_birthdate_def truncate_to_date_eq section_ok_def
  funding_period_for_date_def merge_defaults_def auto_apply_properties_def
  validate_contract_properties_def entries_def create_tx_def in_transaction_def
  validate_no_overlap_sql_def create_contract_def range_ok_def update_contract_def to_row_def
  to_day_def from_day_def load_contract_def find_contract_by_id_def verify_record_ownership_def
  check_version_def sql_overlap_def rows_conflict_def daterange_overlap_def
  in_place_contract_update_def save_contract_def check_amend_seam_def amend_seam_def
  amend_contract_tx_def check_adjacent_def move_boundary_tx_def save_two_def s64_def Let_def

lemma ex_create_runs:
  "create_child_contract ex_child_env \<lparr>t_rows = [], t_next = 1\<rparr> 1 1 ex_create = (Inr ex_row, ex_table)"
  by (simp add: ex_defs create_child_contract_def prepare_create_child_def contract_eval)

lemma ex_amend_runs:
  "amend_child_contract ex_child_env ex_table ex_table 1 1 1 ex_amend = (Inr ex_amended, ex_amended_table)"
  by (simp add: ex_defs amend_child_contract_def prepare_amend_child_def contract_eval)

lemma ex_correct_runs:
  "correct_child_contract ex_child_env ex_table ex_table 1 1 1 ex_correct =
    (Inr (ex_row\<lparr>c_to := Some (midnight 738500), c_version := 2\<rparr>),
     ex_table\<lparr>t_rows := [ex_row\<lparr>c_to := Some (midnight 738500), c_version := 2\<rparr>]\<rparr>)"
  by (simp add: ex_defs correct_child_contract_def prepare_correct_child_def contract_eval)

lemma ex_reachable: "child_reachable ex_table" "child_reachable ex_amended_table"
proof -
  have "run_child ex_child_env (CreateChild 1 1 ex_create) ex_table \<lparr>t_rows = [], t_next = 1\<rparr>
      = (Inr (), ex_table)"
    by (simp only: run_child.simps ex_create_runs ran_def) simp
  then show c: "child_reachable ex_table"
    using child_reachable.step [OF child_reachable.start] by blast
  have "run_child ex_child_env (AmendChild 1 1 1 ex_amend) ex_table ex_table = (Inr (), ex_amended_table)"
    by (simp only: run_child.simps ex_amend_runs ran_def) simp
  then show "child_reachable ex_amended_table" using child_reachable.step [OF c] by blast
qed

definition ex_employee_env :: employee_env where
  "ex_employee_env = \<lparr>ee_employees = (\<lambda>i. if i = 1 then Some (1, midnight 720000) else None),
     ee_sections = (\<lambda>i. if i = 1 then Some 1 else None),
     ee_pay_plans = (\<lambda>i. if i = 1 then Some \<lparr>pl_id = 1, pl_org = 1, pl_name = [], pl_periods = []\<rparr> else None)\<rparr>"

definition ex_hire :: employee_create_request where
  "ex_hire = \<lparr>er_from = midnight 738000, er_to_date = None, er_section = 1,
     er_staff_category = ''qualified'', er_grade = [], er_step = 0, er_weekly_hours = Some (Fin 39),
     er_pay_plan = 1, er_props = None\<rparr>"

definition ex_job :: employee_contract where
  "ex_job = \<lparr>c_id = 1, c_owner = 1, c_from = midnight 738000, c_to = None, c_section = 1,
     c_props = None, c_version = 1, ec_staff_category = ''qualified'', ec_grade = [], ec_step = 0,
     ec_weekly_hours = Fin 39, ec_pay_plan = 1\<rparr>"

definition ex_jobs :: "employee_contract ctable" where
  "ex_jobs = \<lparr>t_rows = [ex_job], t_next = 2\<rparr>"

definition ex_raise :: employee_amend_request where
  "ex_raise = \<lparr>ch_to = Absent, ch_section = Absent, ch_staff_category = Absent, ch_grade = Absent,
     ch_step = Absent, ch_weekly_hours = Value (Fin 30), ch_pay_plan = Absent, ch_props = Absent,
     ch_version = None, ea_effective_from = midnight 738100\<rparr>"

definition ex_raised :: "employee_contract \<times> employee_contract" where
  "ex_raised = (ex_job\<lparr>c_to := Some (midnight 738099), c_version := 2\<rparr>,
     ex_job\<lparr>c_id := 2, c_from := midnight 738100, ec_weekly_hours := Fin 30\<rparr>)"

definition ex_raised_table :: "employee_contract ctable" where
  "ex_raised_table = \<lparr>t_rows = [fst ex_raised, snd ex_raised], t_next = 3\<rparr>"

lemmas ex_employee_defs = ex_employee_env_def ex_hire_def ex_job_def ex_jobs_def ex_raise_def
  ex_raised_def ex_raised_table_def

lemmas employee_eval = is_valid_staff_category_def weekly_hours_400_def validate_weekly_hours_def
  pay_plan_ok_def validate_pay_plan_covers_def validate_employee_contract_fields_def
  apply_employee_change_def

lemma ex_hire_runs:
  "create_employee_contract ex_employee_env \<lparr>t_rows = [], t_next = 1\<rparr> 1 1 ex_hire = (Inr ex_job, ex_jobs)"
  by (simp add: ex_employee_defs create_employee_contract_def prepare_create_employee_def
      contract_eval employee_eval)

lemma ex_raise_runs:
  "amend_employee_contract ex_employee_env ex_jobs ex_jobs 1 1 1 ex_raise = (Inr ex_raised, ex_raised_table)"
  by (simp add: ex_employee_defs amend_employee_contract_def prepare_amend_employee_def
      contract_eval employee_eval)

lemma ex_employee_reachable: "employee_reachable ex_jobs" "employee_reachable ex_raised_table"
proof -
  have "run_employee ex_employee_env (CreateEmployee 1 1 ex_hire) ex_jobs \<lparr>t_rows = [], t_next = 1\<rparr>
      = (Inr (), ex_jobs)"
    by (simp only: run_employee.simps ex_hire_runs ran_def) simp
  then show c: "employee_reachable ex_jobs"
    using employee_reachable.step [OF employee_reachable.start] by blast
  have "run_employee ex_employee_env (AmendEmployee 1 1 1 ex_raise) ex_jobs ex_jobs = (Inr (), ex_raised_table)"
    by (simp only: run_employee.simps ex_raise_runs ran_def) simp
  then show "employee_reachable ex_raised_table" using employee_reachable.step [OF c] by blast
qed

section \<open>Invariant\<close>

text \<open>Stored contracts of one child never overlap.\<close>
lemma child_contracts_never_overlap:
  assumes "child_reachable t" and "r \<in> set (t_rows t)" and "s \<in> set (t_rows t)"
    and "c_owner r = c_owner s"
    and "sql_active_on (from_day r) (to_day r) d" and "sql_active_on (from_day s) (to_day s) d"
  shows "r = s"
  using table_ok_disjoint [OF child_reachable_ok [OF assms(1)] assms(2-4)] assms(5,6)
  by (simp add: covers_def days_def)

lemma child_contracts_never_overlap_witness:
  "{r \<in> set (t_rows ex_amended_table). sql_active_on (from_day r) (to_day r) 738100} = {snd ex_amended}"
proof -
  have rows: "set (t_rows ex_amended_table) = {fst ex_amended, snd ex_amended}" by (simp add: ex_amended_table_def)
  have owner: "c_owner (fst ex_amended) = c_owner (snd ex_amended)" by (simp add: ex_amended_def)
  have s: "sql_active_on (from_day (snd ex_amended)) (to_day (snd ex_amended)) 738100"
    by (simp add: ex_amended_def ex_row_def sql_active_on_def from_day_def to_day_def)
  have "r = snd ex_amended" if r: "r \<in> set (t_rows ex_amended_table)" "sql_active_on (from_day r) (to_day r) 738100" for r
  proof (rule child_contracts_never_overlap [OF ex_reachable(2) r(1) _ _ r(2) s])
    show "snd ex_amended \<in> set (t_rows ex_amended_table)" unfolding rows by blast
    from r(1) owner show "c_owner r = c_owner (snd ex_amended)" unfolding rows by blast
  qed
  with s rows show ?thesis by blast
qed

text \<open>Nor do those of one employee.\<close>
lemma employee_contracts_never_overlap:
  assumes "employee_reachable t" and "r \<in> set (t_rows t)" and "s \<in> set (t_rows t)"
    and "c_owner r = c_owner s"
    and "sql_active_on (from_day r) (to_day r) d" and "sql_active_on (from_day s) (to_day s) d"
  shows "r = s"
  using table_ok_disjoint [OF employee_reachable_ok [OF assms(1)] assms(2-4)] assms(5,6)
  by (simp add: covers_def days_def)

lemma employee_contracts_never_overlap_witness:
  "{r \<in> set (t_rows ex_raised_table). sql_active_on (from_day r) (to_day r) 738100} = {snd ex_raised}"
proof -
  have rows: "set (t_rows ex_raised_table) = {fst ex_raised, snd ex_raised}" by (simp add: ex_raised_table_def)
  have owner: "c_owner (fst ex_raised) = c_owner (snd ex_raised)" by (simp add: ex_raised_def)
  have s: "sql_active_on (from_day (snd ex_raised)) (to_day (snd ex_raised)) 738100"
    by (simp add: ex_raised_def ex_job_def sql_active_on_def from_day_def to_day_def)
  have "r = snd ex_raised" if r: "r \<in> set (t_rows ex_raised_table)" "sql_active_on (from_day r) (to_day r) 738100" for r
  proof (rule employee_contracts_never_overlap [OF ex_employee_reachable(2) r(1) _ _ r(2) s])
    show "snd ex_raised \<in> set (t_rows ex_raised_table)" unfolding rows by blast
    from r(1) owner show "c_owner r = c_owner (snd ex_raised)" unfolding rows by blast
  qed
  with s rows show ?thesis by blast
qed

section \<open>Lost updates\<close>

text \<open>A second writer of a child contract is refused.\<close>
lemma child_no_lost_update:
  assumes "table_ok t" and "run_child env p t0 t = (Inr (), t1)"
    and "i \<in> child_rewrites p" and "i \<in> child_rewrites q"
  shows "\<exists>e. run_child env' q t0 t1 = (Inl e, t1)"
  using child_service.lost_update_refused [of t "(env, p)" t0 t1 i "(env', q)"] assms by simp

lemma child_no_lost_update_witness:
  "\<exists>e. run_child ex_child_env (CorrectChild 1 1 1 ex_correct) ex_table ex_amended_table
    = (Inl e, ex_amended_table)"
proof (rule child_no_lost_update)
  show "table_ok ex_table" using child_reachable_ok [OF ex_reachable(1)] .
  show "run_child ex_child_env (AmendChild 1 1 1 ex_amend) ex_table ex_table = (Inr (), ex_amended_table)"
    by (simp only: run_child.simps ex_amend_runs ran_def) simp
qed simp_all

text \<open>So is a second writer of an employee contract.\<close>
lemma employee_no_lost_update:
  assumes "table_ok t" and "run_employee env p t0 t = (Inr (), t1)"
    and "i \<in> employee_rewrites p" and "i \<in> employee_rewrites q"
  shows "\<exists>e. run_employee env' q t0 t1 = (Inl e, t1)"
  using employee_service.lost_update_refused [of t "(env, p)" t0 t1 i "(env', q)"] assms by simp

lemma employee_no_lost_update_witness:
  "\<exists>e. run_employee ex_employee_env (DeleteEmployee 1 1 1 (Some 1)) ex_jobs ex_raised_table
    = (Inl e, ex_raised_table)"
proof (rule employee_no_lost_update)
  show "table_ok ex_jobs" using employee_reachable_ok [OF ex_employee_reachable(1)] .
  show "run_employee ex_employee_env (AmendEmployee 1 1 1 ex_raise) ex_jobs ex_jobs
      = (Inr (), ex_raised_table)"
    by (simp only: run_employee.simps ex_raise_runs ran_def) simp
qed simp_all

text \<open>Nor does a request get through that loaded what another has deleted.\<close>

lemma child_second_refused:
  assumes "table_ok t" and "run_child env p ta t = (Inr (), tw)" and "i \<in> child_rewrites p \<union> child_erases p"
    and "i \<in> child_rewrites q"
  shows "\<exists>e. run_child env' q ta tw = (Inl e, tw)"
proof (cases "i \<in> child_rewrites p")
  case True
  then show ?thesis using child_no_lost_update assms by blast
next
  case False
  then obtain w org v where p: "p = DeleteChild i w org v" using assms(3) by (cases p) auto
  then have "stored_version ta i \<noteq> stored_version tw i"
    using assms(1,2) delete_erases by (fastforce simp add: child_op_defs)
  then show ?thesis
    using child_service.outdated_refused [of t "(env, p)" ta _ tw i "(env', q)"] assms by auto
qed

lemma employee_second_refused:
  assumes "table_ok t" and "run_employee env p ta t = (Inr (), tw)" and "i \<in> employee_rewrites p \<union> employee_erases p"
    and "i \<in> employee_rewrites q"
  shows "\<exists>e. run_employee env' q ta tw = (Inl e, tw)"
proof (cases "i \<in> employee_rewrites p")
  case True
  then show ?thesis using employee_no_lost_update assms by blast
next
  case False
  then obtain w org v where p: "p = DeleteEmployee i w org v" using assms(3) by (cases p) auto
  then have "stored_version ta i \<noteq> stored_version tw i"
    using assms(1,2) delete_erases by (fastforce simp add: employee_op_defs)
  then show ?thesis
    using employee_service.outdated_refused [of t "(env, p)" ta _ tw i "(env', q)"] assms by auto
qed

section \<open>Errors\<close>

text \<open>
  C3. A contract request of either service that answers with an error has changed no stored
  contract.
\<close>
lemma contract_errors_change_nothing:
  "(run_child cenv p t0 t = (Inl e, t') \<longrightarrow> t' = t) \<and>
   (run_employee eenv q u0 u = (Inl e, u') \<longrightarrow> u' = u)"
  using child_service.run_error [of "(cenv, p)"] employee_service.run_error [of "(eenv, q)"] by auto

lemma contract_errors_change_nothing_witness:
  "run_child ex_child_env (MoveChild 1 1 \<lparr>br_earlier = 1, br_later = 1, br_at = midnight 738000,
      br_earlier_version = 1, br_later_version = 1\<rparr>) ex_table ex_table
    = (Inl (bad_request ''earlier_id and later_id must name different contracts''), ex_table)"
proof -
  let ?op = "MoveChild 1 1 \<lparr>br_earlier = 1, br_later = 1, br_at = midnight 738000,
      br_earlier_version = 1, br_later_version = 1\<rparr>"
  have "fst (run_child ex_child_env ?op ex_table ex_table)
      = Inl (bad_request ''earlier_id and later_id must name different contracts'')"
    by (simp add: child_op_defs move_contract_boundary_def ran_def)
  then show ?thesis
    using contract_errors_change_nothing [of ex_child_env ?op ex_table ex_table]
    by (metis prod.collapse)
qed

section \<open>Success conditions\<close>

text \<open>The properties a correction stores: touched ones and a moved start bring in the automatic ones.\<close>

definition corrected_props :: "child_env \<Rightarrow> nat \<Rightarrow> child_correct_request \<Rightarrow> gtime \<Rightarrow> properties \<Rightarrow> properties" where
  "corrected_props env org req from old =
     (if opt_set (cc_props req) \<or> opt_set (cc_from req)
      then fst (merge_defaults (opt_assign (cc_props req) old) (auto_apply_properties (funding_period_for_date env org from)))
      else opt_assign (cc_props req) old)"

text \<open>What a correction asks for of the contract it loaded.\<close>

definition corrected :: "child_env \<Rightarrow> nat \<Rightarrow> child_correct_request \<Rightarrow> child_contract \<Rightarrow> child_contract" where
  "corrected env org req c0 = c0\<lparr>c_section := opt_else (cc_section req) (c_section c0),
     c_from := opt_else (cc_from req) (c_from c0), c_to := opt_assign (cc_to req) (c_to c0),
     c_props := corrected_props env org req (opt_else (cc_from req) (c_from c0)) (c_props c0)\<rparr>"

lemma section_ok_Inr: "section_ok sections s org = Inr u \<longleftrightarrow> sections s = Some org"
  by (auto simp add: section_ok_def ensureE_def split: option.splits)

lemma opt_section_Inr:
  "(case opt_value (cc_section req) of None \<Rightarrow> Inr () | Some sid \<Rightarrow> section_ok sections sid org) = Inr u \<longleftrightarrow>
    (\<forall>s. cc_section req = Value s \<longrightarrow> sections s = Some org)"
  by (cases "cc_section req") (simp_all add: section_ok_Inr)

lemma prepare_correct_child_iff:
  "prepare_correct_child env t0 i w org req = Inr c \<longleftrightarrow>
    (\<exists>birth c0. ce_children env w = Some (org, birth) \<and> find_contract_by_id t0 i = Inr c0 \<and> c_owner c0 = w \<and>
       (\<forall>v. cc_version req = Some v \<longrightarrow> v = c_version c0) \<and>
       cc_from req \<noteq> Null \<and> cc_section req \<noteq> Null \<and> (\<forall>s. cc_section req = Value s \<longrightarrow> ce_sections env s = Some org) \<and>
       c = corrected env org req c0 \<and>
       (opt_set (cc_props req) \<or> opt_set (cc_from req) \<longrightarrow>
          meets_period (c_props c) (funding_period_for_date env org (c_from c))) \<and>
       local_day birth \<le> local_day (c_from c) \<and> (\<forall>e. c_to c = Some e \<longrightarrow> local_day birth \<le> local_day e))"
proof -
  have null: "\<not> opt_is_null x \<longleftrightarrow> x \<noteq> Null" for x :: "'b opt" by (cases x) simp_all
  note simps = prepare_correct_child_def bindE_eq_Inr ensureE_eq_Inr load_contract_Inr find_owner_Inr check_version_Inr
    null opt_section_Inr Let_def corrected_def corrected_props_def meets_period_iff [of _ _ "[]"]
    validate_dates_after_birthdate_Inr
  show ?thesis
  proof (cases "opt_set (cc_props req) \<or> opt_set (cc_from req)")
    case True
    then show ?thesis by (simp add: simps split_beta, intro arg_cong [of _ _ Ex] ext) auto
  next
    case False
    then show ?thesis by (simp add: simps split_beta, intro arg_cong [of _ _ Ex] ext) auto
  qed
qed

lemma corrected_simps [simp]:
  "c_id (corrected env org req c0) = c_id c0" "c_owner (corrected env org req c0) = c_owner c0"
  "c_version (corrected env org req c0) = c_version c0"
  by (simp_all add: corrected_def)

text \<open>The checks before the write leave nothing for the exclusion constraint to refuse.\<close>

lemma correct_child_parts:
  assumes "table_ok t"
  shows "correct_child_contract env t0 t i w org req = (Inr c', t') \<longleftrightarrow>
    (\<exists>c. prepare_correct_child env t0 i w org req = Inr c \<and> validate_period_400 (c_from c) (c_to c) = Inr () \<and>
      validate_no_overlap_sql t w (c_from c) (c_to c) (Some (c_id c)) = Inr () \<and> update_contract t c = Inr (c', t'))"
proof -
  have "exclusion_ok (t_rows t')"
    if "prepare_correct_child env t0 i w org req = Inr c" "update_contract t c = Inr (c', t')"
      "validate_no_overlap_sql t w (c_from c) (c_to c) (Some (c_id c)) = Inr ()" for c
  proof -
    have "c_owner c = w" using prepare_correct_child_Inr [OF that(1)] by (auto simp add: loaded_as_def)
    then show ?thesis using in_place_exclusion_ok [OF assms that(2)] that(3) by simp
  qed
  then show ?thesis
    by (auto simp add: correct_child_contract_def in_place_Inr save_contract_def split: sum.splits)
qed

lemma ex_table_ok: "table_ok ex_table"
  using child_reachable_ok [OF ex_reachable(1)] .

text \<open>
  C4. A correction of a child's contract succeeds exactly when the child exists in the
  organization, the loaded contract is the child's and carries the version the client named, the
  start and the section are not cleared and a named section is one of the organization, the
  corrected contract has properties that the funding period of its start accepts (checked when
  the request names properties or a start), begins and ends on or after the birthdate and ends no
  earlier than it begins, meets no other stored contract of the child, and the version it was
  loaded with is still stored. It then answers and stores just the corrected contract with the
  next version, and no other row changes.
\<close>
lemma correct_child_succeeds_iff:
  assumes "table_ok t0" and "table_ok t"
  shows "correct_child_contract env t0 t i w org req = (Inr c', t') \<longleftrightarrow>
    (\<exists>birth c0 c. ce_children env w = Some (org, birth) \<and>
       c0 \<in> set (t_rows t0) \<and> c_id c0 = i \<and> c_owner c0 = w \<and>
       (\<forall>v. cc_version req = Some v \<longrightarrow> v = c_version c0) \<and>
       cc_from req \<noteq> Null \<and> cc_section req \<noteq> Null \<and> (\<forall>s. cc_section req = Value s \<longrightarrow> ce_sections env s = Some org) \<and>
       c = corrected env org req c0 \<and>
       (opt_set (cc_props req) \<or> opt_set (cc_from req) \<longrightarrow>
          meets_period (c_props c) (funding_period_for_date env org (c_from c))) \<and>
       local_day birth \<le> local_day (c_from c) \<and> (\<forall>e. c_to c = Some e \<longrightarrow> local_day birth \<le> local_day e) \<and>
       (\<forall>e. c_to c = Some e \<longrightarrow> instant (c_from c) \<le> instant e \<and> local_day (c_from c) \<le> local_day e + 1) \<and>
       (\<forall>r \<in> set (t_rows t). c_owner r = w \<longrightarrow> c_id r \<noteq> i \<longrightarrow>
          \<not> sql_overlap (from_day r) (to_day r) (from_day c) (to_day c)) \<and>
       (\<exists>r \<in> set (t_rows t). c_id r = i \<and> c_version r = c_version c0) \<and>
       c' = c\<lparr>c_version := s64 (c_version c0 + 1)\<rparr> \<and>
       t' = t\<lparr>t_rows := map (\<lambda>r. if c_id r = i then to_row c' else r) (t_rows t)\<rparr>)" (is "?l \<longleftrightarrow> ?r")
proof -
  have range: "range_ok c \<longleftrightarrow> (\<forall>e. c_to c = Some e \<longrightarrow> local_day (c_from c) \<le> local_day e + 1)" for c :: child_contract
    by (cases "c_to c") (simp_all add: range_ok_def from_day_def to_day_def)
  note found = find_contract_by_id_iff [OF table_okD(1) [OF assms(1)]]
  note written = update_contract_iff [OF table_okD(1) [OF assms(2)]]
  let ?m = "\<exists>c. prepare_correct_child env t0 i w org req = Inr c \<and> validate_period_400 (c_from c) (c_to c) = Inr () \<and>
      validate_no_overlap_sql t w (c_from c) (c_to c) (Some (c_id c)) = Inr () \<and> update_contract t c = Inr (c', t')"
  have "?l \<longleftrightarrow> ?m" by (rule correct_child_parts [OF assms(2)])
  also have "?m \<longleftrightarrow> ?r"
  proof
    assume ?m
    then obtain c where c: "prepare_correct_child env t0 i w org req = Inr c" "validate_period_400 (c_from c) (c_to c) = Inr ()"
        "validate_no_overlap_sql t w (c_from c) (c_to c) (Some (c_id c)) = Inr ()" "update_contract t c = Inr (c', t')" by blast
    from c(1) obtain birth c0 where p: "ce_children env w = Some (org, birth)" "c0 \<in> set (t_rows t0)" "c_id c0 = i" "c_owner c0 = w"
        "\<forall>v. cc_version req = Some v \<longrightarrow> v = c_version c0" "cc_from req \<noteq> Null" "cc_section req \<noteq> Null"
        "\<forall>s. cc_section req = Value s \<longrightarrow> ce_sections env s = Some org" "c = corrected env org req c0"
        "opt_set (cc_props req) \<or> opt_set (cc_from req) \<longrightarrow> meets_period (c_props c) (funding_period_for_date env org (c_from c))"
        "local_day birth \<le> local_day (c_from c)" "\<forall>e. c_to c = Some e \<longrightarrow> local_day birth \<le> local_day e"
      unfolding prepare_correct_child_iff found by blast
    have "c_id c = i" "c_owner c = w" "c_version c = c_version c0" using p by simp_all
    with c(2-4) p show ?r
      unfolding written validate_period_400_Inr validate_no_overlap_sql_Inr range from_day_def to_day_def
      by (intro exI [of _ birth] exI [of _ c0] exI [of _ c] conjI) auto
  next
    assume ?r
    then obtain birth c0 c where p: "ce_children env w = Some (org, birth)" "c0 \<in> set (t_rows t0)" "c_id c0 = i" "c_owner c0 = w"
        "\<forall>v. cc_version req = Some v \<longrightarrow> v = c_version c0" "cc_from req \<noteq> Null" "cc_section req \<noteq> Null"
        "\<forall>s. cc_section req = Value s \<longrightarrow> ce_sections env s = Some org" "c = corrected env org req c0"
        "opt_set (cc_props req) \<or> opt_set (cc_from req) \<longrightarrow> meets_period (c_props c) (funding_period_for_date env org (c_from c))"
        "local_day birth \<le> local_day (c_from c)" "\<forall>e. c_to c = Some e \<longrightarrow> local_day birth \<le> local_day e"
      and q: "\<forall>e. c_to c = Some e \<longrightarrow> instant (c_from c) \<le> instant e \<and> local_day (c_from c) \<le> local_day e + 1"
        "\<forall>r \<in> set (t_rows t). c_owner r = w \<longrightarrow> c_id r \<noteq> i \<longrightarrow> \<not> sql_overlap (from_day r) (to_day r) (from_day c) (to_day c)"
        "\<exists>r \<in> set (t_rows t). c_id r = i \<and> c_version r = c_version c0" "c' = c\<lparr>c_version := s64 (c_version c0 + 1)\<rparr>"
        "t' = t\<lparr>t_rows := map (\<lambda>r. if c_id r = i then to_row c' else r) (t_rows t)\<rparr>" by blast
    have ids: "c_id c = i" "c_owner c = w" "c_version c = c_version c0" using p by simp_all
    have "prepare_correct_child env t0 i w org req = Inr c" unfolding prepare_correct_child_iff found using p by blast
    moreover have "validate_no_overlap_sql t w (c_from c) (c_to c) (Some (c_id c)) = Inr ()"
      using q(2) ids by (simp add: validate_no_overlap_sql_Inr from_day_def to_day_def)
    moreover have "update_contract t c = Inr (c', t')" using q ids by (simp add: written range)
    ultimately show ?m using q(1) by (auto simp add: validate_period_400_Inr)
  qed
  finally show ?thesis .
qed

lemma correct_child_succeeds_iff_witness:
  "(\<exists>birth. ce_children ex_child_env 1 = Some (1, birth) \<and> local_day birth \<le> 738000) \<and>
   (\<exists>c. corrected ex_child_env 1 ex_correct ex_row = c \<and> c_to c = Some (midnight 738500)) \<and>
   (\<nexists>c t. correct_child_contract ex_child_env ex_table ex_table 1 1 2 ex_correct = (Inr c, t))"
proof (intro conjI notI)
  show "\<exists>birth. ce_children ex_child_env 1 = Some (1, birth) \<and> local_day birth \<le> 738000"
    using correct_child_succeeds_iff [OF ex_table_ok ex_table_ok, THEN iffD1, OF ex_correct_runs]
    by (auto simp add: ex_table_def ex_row_def corrected_def ex_correct_def)
  show "\<exists>c. corrected ex_child_env 1 ex_correct ex_row = c \<and> c_to c = Some (midnight 738500)"
    by (simp add: corrected_def ex_correct_def)
  assume "\<exists>c t. correct_child_contract ex_child_env ex_table ex_table 1 1 2 ex_correct = (Inr c, t)"
  then show False
    by (simp add: correct_child_succeeds_iff [OF ex_table_ok ex_table_ok] ex_child_env_def)
qed

section \<open>Days covered\<close>

text \<open>
  What an amendment at day \<open>z\<close> does to a table: the loaded contract \<open>c0\<close> is replaced by the closed
  one \<open>x\<close> and the successor \<open>y\<close> is added.
\<close>

definition splits_contract :: "'a base_contract_scheme ctable \<Rightarrow> 'a base_contract_scheme ctable \<Rightarrow>
    'a base_contract_scheme \<Rightarrow> 'a base_contract_scheme \<Rightarrow> 'a base_contract_scheme \<Rightarrow> int \<Rightarrow> gtime opt \<Rightarrow> bool" where
  "splits_contract t t' c0 x y z new_to \<longleftrightarrow>
     set (t_rows t') = insert (to_row x) (insert (to_row y) {r \<in> set (t_rows t). c_id r \<noteq> c_id c0}) \<and>
     c_id x = c_id c0 \<and> c_owner x = c_owner c0 \<and> c_owner y = c_owner c0 \<and>
     covers x = {d \<in> covers c0. d < z} \<and>
     covers y = {d. z \<le> d \<and> (\<forall>e. opt_assign new_to (c_to c0) = Some e \<longrightarrow> d \<le> local_day e)} \<and>
     (new_to = Absent \<longrightarrow> covers y = {d \<in> covers c0. z \<le> d}) \<and>
     (new_to = Absent \<and> c0 \<in> set (t_rows t) \<longrightarrow> (\<forall>v. owner_days t' v = owner_days t v))"

lemma amend_splits:
  assumes ok: "table_ok t" and l: "loaded_as t0 i w e c0 c" and sm: "seam_of c0 c seam n"
    and n: "c_to n = opt_assign new_to (c_to c0)" "local_day seam = z"
    and tx: "amend_seam w seam (c_to n) (\<lambda>d s. update_contract s (c\<lparr>c_to := Some d\<rparr>))
        (\<lambda>s. create_contract s n) t = (Inr (x, y), t')"
  shows "splits_contract t t' c0 x y z new_to"
proof -
  let ?shut = "c\<lparr>c_to := Some (add_date seam 0 0 (- 1))\<rparr>"
  obtain s where u: "update_contract t ?shut = Inr (x, s)" and cr: "create_contract s n = Inr (y, t')"
    using tx by (auto simp add: amend_seam_Inr)
  note d = table_okD(1) [OF ok] and cl = seam_of_closed [OF sm refl]
  have rows: "set (t_rows t') = insert (to_row x) (insert (to_row y) {r \<in> set (t_rows t). c_id r \<noteq> c_id c0})"
    using create_contract_Inr(3) [OF cr] update_contract_set [OF d u] sm by (auto simp add: seam_of_def)
  have ids: "c_id x = c_id c0" "c_owner x = c_owner c0" "c_owner y = c_owner c0"
    using sm update_contract_Inr(1) [OF u] create_contract_Inr(1) [OF cr] by (simp_all add: seam_of_def)
  have f: "from_day c0 < z" "case to_day c0 of None \<Rightarrow> True | Some u \<Rightarrow> z \<le> u"
    using sm n(2) by (cases "c_to c0"; simp add: seam_of_def check_amend_seam_Inr from_day_def to_day_def)+
  have xn: "covers x = days (from_day c0) (Some (z - 1))" using cl(1) n(2) update_contract_Inr(1) [OF u] by simp
  have x: "covers x = {d \<in> covers c0. d < z}"
    unfolding xn covers_def [of c0] using f by (cases "to_day c0") (auto simp add: days_simps)
  have fn: "covers n = days z (day_opt (opt_assign new_to (c_to c0)))"
    using sm n by (simp add: seam_of_def covers_def from_day_def to_day_def)
  then have yn: "covers y = days z (day_opt (opt_assign new_to (c_to c0)))"
    using create_contract_Inr(1) [OF cr] by simp
  have y: "covers y = {d. z \<le> d \<and> (\<forall>e. opt_assign new_to (c_to c0) = Some e \<longrightarrow> d \<le> local_day e)}"
    unfolding yn days_def sql_active_on_def day_opt_def by (cases "opt_assign new_to (c_to c0)") simp_all
  have ya: "covers y = {d \<in> covers c0. z \<le> d}" if "new_to = Absent"
    unfolding yn covers_def [of c0] that opt_assign_simps to_day_def [symmetric] days_def sql_active_on_def using f(1) by auto
  have "owner_days t' v = owner_days t v" if "new_to = Absent" "c0 \<in> set (t_rows t)" for v
    by (rule amend_laws(3) [OF ok that(2) sm u cr]) (use fn n(2) that(1) in \<open>simp add: to_day_def\<close>)
  with rows ids x y ya show ?thesis by (simp add: splits_contract_def)
qed

lemma amend_child_splits:
  assumes "table_ok t" and "amend_child_contract env t0 t i w org req = (Inr (x, y), t')"
  shows "\<exists>c0. find_contract_by_id t0 i = Inr c0 \<and> c_owner c0 = w \<and>
    splits_contract t t' c0 x y (local_day (ca_effective_from req)) (ca_to req)"
proof -
  obtain seam c n where p: "prepare_amend_child env t0 i w org req = Inr (seam, c, n)"
      and tx: "amend_seam w seam (c_to n) (\<lambda>d s. update_contract s (c\<lparr>c_to := Some d\<rparr>))
        (\<lambda>s. create_contract s n) t = (Inr (x, y), t')"
    using assms(2) by (auto simp add: amend_child_contract_def split: sum.splits)
  obtain c0 where c0: "loaded_as t0 i w (ca_version req) c0 c" "seam_of c0 c seam n"
      "seam = truncate_to_date (ca_effective_from req)" "c_to n = opt_assign (ca_to req) (c_to c0)"
    using prepare_amend_child_Inr [OF p] by auto
  have z: "local_day seam = local_day (ca_effective_from req)" by (simp add: c0(3) truncate_to_date_eq)
  show ?thesis using amend_splits [OF assms(1) c0(1,2,4) z tx] c0(1) by (auto simp add: loaded_as_def)
qed

lemma amend_employee_splits:
  assumes "table_ok t" and "amend_employee_contract env t0 t i w org req = (Inr (x, y), t')"
  shows "\<exists>c0. find_contract_by_id t0 i = Inr c0 \<and> c_owner c0 = w \<and>
    splits_contract t t' c0 x y (local_day (ea_effective_from req)) (ch_to req)"
proof -
  obtain seam c n where p: "prepare_amend_employee env t0 i w org req = Inr (seam, c, n)"
      and tx: "amend_seam w seam (c_to n) (\<lambda>d s. update_contract s (c\<lparr>c_to := Some d\<rparr>))
        (\<lambda>s. create_contract s n) t = (Inr (x, y), t')"
    using assms(2) by (auto simp add: amend_employee_contract_def split: sum.splits)
  obtain c0 where c0: "loaded_as t0 i w (ch_version req) c0 c" "seam_of c0 c seam n"
      "seam = truncate_to_date (ea_effective_from req)" "c_to n = opt_assign (ch_to req) (c_to c0)"
    using prepare_amend_employee_Inr [OF p] by auto
  have z: "local_day seam = local_day (ea_effective_from req)" by (simp add: c0(3) truncate_to_date_eq)
  show ?thesis using amend_splits [OF assms(1) c0(1,2,4) z tx] c0(1) by (auto simp add: loaded_as_def)
qed

text \<open>
  Moving the boundary between two contracts, on the table they were loaded from, keeps the
  covered days of every owner, in both services (the employee service passes its pay-plan
  check as \<open>extra\<close>).
\<close>
lemma move_boundary_keeps_days:
  assumes "table_ok t"
    and "move_contract_boundary owners kind extra t t w org req = (Inr (x, y), t')"
  shows "owner_days t' v = owner_days t v"
proof -
  obtain c0 d0 c d where l: "loaded_as t (br_earlier req) w (Some (br_earlier_version req)) c0 c"
      "loaded_as t (br_later req) w (Some (br_later_version req)) d0 d" "br_earlier req \<noteq> br_later req"
      and adj: "check_adjacent (c_from c0) (c_to c0) (c_from d0) (c_to d0) (br_at req) = Inr ()"
      and cd: "c = c0\<lparr>c_to := Some (add_date (truncate_to_date (br_at req)) 0 0 (- 1))\<rparr>"
        "d = d0\<lparr>c_from := truncate_to_date (br_at req)\<rparr>"
      and tx: "move_boundary_tx w \<lparr>pr_id = c_id c, pr_from = c_from c, pr_to = c_to c\<rparr>
        \<lparr>pr_id = c_id d, pr_from = c_from d, pr_to = c_to d\<rparr> (save_two c d) t = (Inr (x, y), t')"
    using move_contract_boundary_Inr [OF assms(2)] by blast
  have ids: "c_id c0 \<noteq> c_id d0" "c_owner c0 = c_owner d0" using l by (simp_all add: loaded_as_def)
  have sv: "save_two (c0\<lparr>c_to := Some (add_date (truncate_to_date (br_at req)) 0 0 (- 1))\<rparr>)
      (d0\<lparr>c_from := truncate_to_date (br_at req)\<rparr>) t = Inr ((x, y), t')"
    using tx unfolding cd by (simp add: move_boundary_Inr del: validate_sides.simps overlap_sides.simps)
  show ?thesis
    by (rule move_laws [OF assms(1) loaded_as_mem [OF l(1)] loaded_as_mem [OF l(2)] ids adj sv])
qed

definition ex_move :: boundary_request where
  "ex_move = \<lparr>br_earlier = 1, br_later = 2, br_at = midnight 738050, br_earlier_version = 2,
     br_later_version = 1\<rparr>"

lemma ex_move_runs:
  "\<exists>t. move_child_boundary ex_child_env ex_amended_table ex_amended_table 1 1 ex_move =
    (Inr (ex_row\<lparr>c_to := Some (midnight 738049), c_version := 3\<rparr>,
          ex_row\<lparr>c_id := 2, c_from := midnight 738050, c_version := 2\<rparr>), t)"
  by (simp add: move_child_boundary_def move_contract_boundary_def ex_move_def ex_defs contract_eval)

lemma move_boundary_keeps_days_witness:
  "owner_days (snd (move_child_boundary ex_child_env ex_amended_table ex_amended_table 1 1 ex_move)) 1
    = owner_days ex_amended_table 1"
  using ex_move_runs move_boundary_keeps_days [OF child_reachable_ok [OF ex_reachable(2)]]
  unfolding move_child_boundary_def by fastforce

section \<open>What a correction leaves alone\<close>

text \<open>A successful correction replaces exactly the named fields and increases the version by one.\<close>
lemma correct_employee_replaces_named_fields:
  assumes "correct_employee_contract env t0 t i w org req = (Inr c', t')"
  shows "\<exists>c. find_contract_by_id t0 i = Inr c \<and>
    c_id c' = i \<and> c_owner c' = w \<and> c_version c' = s64 (c_version c + 1) \<and>
    c_from c' = opt_else (ec_req_from req) (c_from c) \<and>
    c_to c' = opt_assign (ch_to req) (c_to c) \<and>
    c_section c' = opt_else (ch_section req) (c_section c) \<and>
    c_props c' = opt_assign (ch_props req) (c_props c) \<and>
    ec_staff_category c' = opt_else (ch_staff_category req) (ec_staff_category c) \<and>
    (ch_grade req = Absent \<longrightarrow> ec_grade c' = ec_grade c) \<and>
    (\<forall>g. ch_grade req = Value g \<longrightarrow> ec_grade c' = trim_space g) \<and>
    ec_step c' = opt_else (ch_step req) (ec_step c) \<and>
    ec_weekly_hours c' = opt_else (ch_weekly_hours req) (ec_weekly_hours c) \<and>
    ec_pay_plan c' = opt_else (ch_pay_plan req) (ec_pay_plan c)"
proof -
  obtain c where p: "prepare_correct_employee env t0 i w org req = Inr c"
      and u: "update_contract t c = Inr (c', t')"
    using assms by (auto simp add: correct_employee_contract_def in_place_Inr save_contract_def
        split: sum.splits)
  obtain c0 where c0: "loaded_as t0 i w (ch_version req) c0 c"
      "c = (apply_employee_change (employee_change.truncate req) c0)
          \<lparr>c_from := opt_else (ec_req_from req) (c_from c0)\<rparr>"
    using prepare_correct_employee_Inr [OF p] by blast
  have f: "find_contract_by_id t0 i = Inr c0" "c_id c0 = i" "c_owner c0 = w"
    using c0(1) by (simp_all add: loaded_as_def)
  show ?thesis unfolding update_contract_Inr(1) [OF u] using f
    by (intro exI [of _ c0])
      (simp add: c0(2) apply_employee_change_def employee_change.truncate_def)
qed

definition ex_fix :: employee_correct_request where
  "ex_fix = \<lparr>ch_to = Null, ch_section = Absent, ch_staff_category = Absent, ch_grade = Absent,
     ch_step = Value 2, ch_weekly_hours = Absent, ch_pay_plan = Absent, ch_props = Absent,
     ch_version = Some 1, ec_req_from = Absent\<rparr>"

lemma ex_fix_runs:
  "correct_employee_contract ex_employee_env ex_jobs ex_jobs 1 1 1 ex_fix =
    (Inr (ex_job\<lparr>ec_step := 2, c_version := 2\<rparr>), ex_jobs\<lparr>t_rows := [ex_job\<lparr>ec_step := 2, c_version := 2\<rparr>]\<rparr>)"
  by (simp add: ex_employee_defs ex_fix_def correct_employee_contract_def prepare_correct_employee_def
      contract_eval employee_eval)

lemma correct_employee_replaces_named_fields_witness:
  "\<exists>c. find_contract_by_id ex_jobs 1 = Inr c \<and> ec_step (ex_job\<lparr>ec_step := 2, c_version := 2\<rparr>) = opt_else (ch_step ex_fix) (ec_step c)"
  using correct_employee_replaces_named_fields [OF ex_fix_runs] by blast

section \<open>Status of a lost race\<close>

text \<open>
  When another writer gets in between the load and the transaction, a correction whose
  \<open>If-Match\<close> version was still current at load time is answered with 409, while a delete in
  the same situation is answered with 412.
\<close>
lemma lost_race_status:
  assumes "prepare_correct_child env t0 i w org req = Inr c"
    and "validate_period_400 (c_from c) (c_to c) = Inr ()"
    and "validate_no_overlap_sql t w (c_from c) (c_to c) (Some i) = Inr ()"
    and "\<forall>r \<in> set (t_rows t). c_id r = i \<longrightarrow> c_version r \<noteq> c_version c"
    and "load_contract (ce_children env) t0 ''child'' i w org = Inr (b, c0)"
  shows "(\<exists>e. correct_child_contract env t0 t i w org req = (Inl e, t) \<and> http_status e = 409) \<and>
    (\<exists>e. delete_child_contract env t0 t i w org (Some (c_version c0)) = (Inl e, t) \<and>
           http_status e = 412)"
proof -
  obtain c1 where "loaded_as t0 i w (cc_version req) c1 c"
    using prepare_correct_child_Inr [OF assms(1)] by blast
  then have c: "c_id c = i" "c_version c = c_version c0"
    using assms(5) by (auto simp add: loaded_as_def load_contract_Inr)
  have "update_contract t c = Inl (StoreError StoreVersionConflict)"
    using assms(4) c by (auto simp add: update_contract_def Let_def list_ex_iff)
  then have "\<exists>e. correct_child_contract env t0 t i w org req = (Inl e, t) \<and> http_status e = 409"
    using assms(1-3) c
    by (simp add: correct_child_contract_def in_place_contract_update_def in_transaction_def
        save_contract_def map_contract_deferred_overlap_def contract_version_conflict_def)
  moreover have d: "delete_contract t i (Some (c_version c0)) = Inl (StoreError StoreVersionConflict)"
    using assms(4) c by (auto simp add: delete_contract_def Let_def filter_empty_conv)
  have "precondition_failed m \<noteq> StoreError StoreVersionConflict" for m
    by (simp add: precondition_failed_def)
  with d have "\<exists>e. delete_child_contract env t0 t i w org (Some (c_version c0)) = (Inl e, t) \<and>
      http_status e = 412"
    using assms(5)
    by (simp add: delete_child_contract_def delete_contract_op_def map_version_race_def check_version_def)
  ultimately show ?thesis ..
qed

lemma lost_race_status_witness:
  "\<exists>e. correct_child_contract ex_child_env ex_table (ex_table\<lparr>t_rows := []\<rparr>) 1 1 1 ex_correct
      = (Inl e, ex_table\<lparr>t_rows := []\<rparr>) \<and> http_status e = 409"
proof -
  have p: "prepare_correct_child ex_child_env ex_table 1 1 1 ex_correct
      = Inr (ex_row\<lparr>c_to := Some (midnight 738500)\<rparr>)"
    by (simp add: ex_defs prepare_correct_child_def contract_eval)
  have l: "load_contract (ce_children ex_child_env) ex_table ''child'' 1 1 1 = Inr (midnight 737000, ex_row)"
    by (simp add: ex_defs contract_eval)
  show ?thesis
    by (rule lost_race_status [OF p _ _ _ l, THEN conjunct1])
      (simp_all add: ex_row_def validate_period_400_Inr validate_no_overlap_sql_Inr midnight_def ns_per_day_def)
qed

section \<open>An amendment that reaches into the past\<close>

definition ex_period :: funding_period where
  "ex_period = \<lparr>p_from = midnight 730000, p_to = None, gp_id = 1, gp_full_time_hours = Fin 39,
     gp_required_keys = [],
     gp_properties = [\<lparr>fp_id = 1, fp_key = ''meals'', fp_value = ''yes'', fp_label = [], fp_payment = 5000,
        fp_requirement = Fin 0, fp_min_age = None, fp_max_age = None, fp_apply_to_all = True\<rparr>,
       \<lparr>fp_id = 2, fp_key = ''care'', fp_value = ''full'', fp_label = [], fp_payment = 9000,
        fp_requirement = Fin 0, fp_min_age = None, fp_max_age = None, fp_apply_to_all = False\<rparr>]\<rparr>"

definition ex_funded_env :: child_env where
  "ex_funded_env = ex_child_env\<lparr>ce_org_state := (\<lambda>_. Some ''berlin''),
     ce_funding := (\<lambda>_. Some [ex_period])\<rparr>"

definition ex_funded_table :: "child_contract ctable" where
  "ex_funded_table =
     \<lparr>t_rows = [ex_row\<lparr>c_props := Some [(''care'', PString ''full'')]\<rparr>], t_next = 2\<rparr>"

lemma ex_accepted:
  "validate_contract_properties (Some [(''care'', PString ''full''), (''meals'', PString ''yes'')])
     (Some ex_period) [] = Inr ()"
  "validate_contract_properties (Some [(''meals'', PString ''yes'')]) (Some ex_period) [] = Inr ()"
  unfolding validate_contract_properties_Inr
  by (simp_all add: ex_period_def entries_def get_all_values_def prop_lookup_def fp_kv_def kv_key_def)

lemma ex_auto_apply: "auto_apply_properties (Some ex_period) = Some [(''meals'', PString ''yes'')]"
  by (simp add: auto_apply_properties_def ex_period_def alist_add_def)

lemma ex_funded_period: "funding_period_for_date ex_funded_env org d = Some ex_period"
  if "730000 \<le> local_day d"
  using that by (simp add: ex_funded_env_def ex_period_def funding_period_for_date_def is_active_on_def
      truncate_to_date_eq)

lemmas funded_eval = validate_period_400_def validate_period_def find_owner_def
  verify_org_ownership_def validate_dates_after_birthdate_def truncate_to_date_eq section_ok_def
  merge_defaults_def entries_def create_tx_def in_transaction_def validate_no_overlap_sql_def
  create_contract_def range_ok_def update_contract_def to_row_def to_day_def from_day_def
  load_contract_def find_contract_by_id_def verify_record_ownership_def check_version_def
  sql_overlap_def rows_conflict_def daterange_overlap_def check_amend_seam_def amend_seam_def
  amend_contract_tx_def s64_def Let_def

lemma ex_funded_lookups:
  "ce_children ex_funded_env = ce_children ex_child_env"
  "ce_sections ex_funded_env = ce_sections ex_child_env"
  by (simp_all add: ex_funded_env_def)

lemma ex_funded_amend_runs:
  "amend_child_contract ex_funded_env ex_funded_table ex_funded_table 1 1 1 ex_amend =
    (Inr (ex_row\<lparr>c_to := Some (midnight 738099), c_version := 2,
            c_props := Some [(''care'', PString ''full''), (''meals'', PString ''yes'')]\<rparr>,
          ex_row\<lparr>c_id := 2, c_from := midnight 738100,
            c_props := Some [(''care'', PString ''full''), (''meals'', PString ''yes'')]\<rparr>),
     \<lparr>t_rows = [ex_row\<lparr>c_to := Some (midnight 738099), c_version := 2,
            c_props := Some [(''care'', PString ''full''), (''meals'', PString ''yes'')]\<rparr>,
          ex_row\<lparr>c_id := 2, c_from := midnight 738100,
            c_props := Some [(''care'', PString ''full''), (''meals'', PString ''yes'')]\<rparr>],
      t_next = 3\<rparr>)"
  by (simp add: amend_child_contract_def
      prepare_amend_child_def ex_funded_table_def ex_amend_def ex_row_def ex_table_def ex_funded_period ex_auto_apply
      ex_funded_lookups ex_child_env_def ex_accepted funded_eval)

text \<open>The closed contract carries the properties the preparation left in the map object.\<close>

lemma prepare_amend_child_props:
  assumes "prepare_amend_child env t0 i w org req = Inr (seam, c, n)"
  shows "\<exists>c0. find_contract_by_id t0 i = Inr c0 \<and>
    c_props c = (if opt_set (ca_props req) then c_props c0
      else snd (merge_defaults (c_props c0) (auto_apply_properties (funding_period_for_date env org (truncate_to_date (ca_effective_from req))))))"
  using assms by (auto simp add: prepare_amend_child_def handler_simps opt_assign_def)

text \<open>
  C6. An amendment that says nothing about properties rewrites those of the contract it closes:
  although that contract is left with earlier days only, it is stored with its own properties
  completed by the automatic properties of the funding period at the effective date. Only a
  contract that has no property map at all keeps having none.
\<close>
lemma amend_rewrites_predecessor_properties:
  assumes "table_ok t" and "amend_child_contract env t0 t i w org req = (Inr (x, y), t')" and "ca_props req = Absent"
    and "period = funding_period_for_date env org (truncate_to_date (ca_effective_from req))"
  shows "\<exists>c0. find_contract_by_id t0 i = Inr c0 \<and>
    to_row x \<in> set (t_rows t') \<and> c_id x = i \<and> (\<forall>d \<in> covers x. d < local_day (ca_effective_from req)) \<and>
    (c_props c0 = None \<longrightarrow> c_props x = None) \<and>
    (c_props c0 \<noteq> None \<longrightarrow>
      (\<forall>k. prop_lookup (c_props x) k = (case prop_lookup (c_props c0) k of Some v \<Rightarrow> Some v
         | None \<Rightarrow> prop_lookup (auto_apply_properties period) k)) \<and>
      (\<forall>p. period = Some p \<longrightarrow> (\<forall>fp \<in> set (gp_properties p). fp_apply_to_all fp \<longrightarrow> prop_lookup (c_props x) (fp_key fp) \<noteq> None)))"
proof -
  obtain c0 where c0: "find_contract_by_id t0 i = Inr c0"
      "splits_contract t t' c0 x y (local_day (ca_effective_from req)) (ca_to req)"
    using amend_child_splits [OF assms(1,2)] by blast
  obtain seam c n where p: "prepare_amend_child env t0 i w org req = Inr (seam, c, n)"
      and tx: "amend_seam w seam (c_to n) (\<lambda>d s. update_contract s (c\<lparr>c_to := Some d\<rparr>))
        (\<lambda>s. create_contract s n) t = (Inr (x, y), t')"
    using assms(2) by (auto simp add: amend_child_contract_def split: sum.splits)
  have "c_props x = c_props c" using tx update_contract_Inr(1) by (fastforce simp add: amend_seam_Inr)
  then have px: "c_props x = snd (merge_defaults (c_props c0) (auto_apply_properties period))"
    using prepare_amend_child_props [OF p] c0(1) assms(3,4) by simp
  have look: "prop_lookup (c_props x) k = (case prop_lookup (c_props c0) k of Some v \<Rightarrow> Some v
         | None \<Rightarrow> prop_lookup (auto_apply_properties period) k)" if "c_props c0 \<noteq> None" for k
    using that merge_defaults_lookup [of "c_props c0" "auto_apply_properties period" k]
    by (simp add: px merge_defaults_receiver del: not_None_eq)
  have auto: "prop_lookup (c_props x) (fp_key fp) \<noteq> None"
    if "c_props c0 \<noteq> None" "period = Some p" "fp \<in> set (gp_properties p)" "fp_apply_to_all fp" for p fp
    using auto_apply_lookup [OF that(3,4)] that(2) by (auto simp add: look [OF that(1)] split: option.splits)
  have none: "c_props x = None" if "c_props c0 = None" using that by (simp add: px merge_defaults_receiver)
  have "c_id c0 = i" using find_contract_by_id_Inr [OF c0(1)] by simp
  then have "to_row x \<in> set (t_rows t')" "c_id x = i" "\<forall>d \<in> covers x. d < local_day (ca_effective_from req)"
    using c0(2) by (auto simp add: splits_contract_def)
  with c0(1) show ?thesis
    by (intro exI [of _ c0] conjI impI allI ballI) (assumption | erule bspec | rule look auto none)+
qed

lemma ex_funded_table_ok: "table_ok ex_funded_table"
  by (simp add: ex_funded_table_def ex_row_def table_ok_def to_row_def range_ok_def to_day_def in_s64_def
      min_int_def max_int_def truncate_to_date_eq)

lemma amend_rewrites_predecessor_properties_witness:
  "\<exists>x y t. amend_child_contract ex_funded_env ex_funded_table ex_funded_table 1 1 1 ex_amend = (Inr (x, y), t) \<and>
    to_row x \<in> set (t_rows t) \<and> (\<forall>d \<in> covers x. d < 738100) \<and> prop_lookup (c_props x) ''meals'' \<noteq> None"
proof -
  obtain x y t where run: "amend_child_contract ex_funded_env ex_funded_table ex_funded_table 1 1 1 ex_amend = (Inr (x, y), t)"
    using ex_funded_amend_runs by blast
  have p: "funding_period_for_date ex_funded_env 1 (truncate_to_date (ca_effective_from ex_amend)) = Some ex_period"
    by (simp add: ex_amend_def ex_funded_period truncate_to_date_eq)
  have "ca_props ex_amend = Absent" by (simp add: ex_amend_def)
  from amend_rewrites_predecessor_properties [OF ex_funded_table_ok run this p [symmetric]] obtain c0
    where c0: "find_contract_by_id ex_funded_table 1 = Inr c0" "to_row x \<in> set (t_rows t)"
      "\<forall>d \<in> covers x. d < local_day (ca_effective_from ex_amend)"
      "c_props c0 \<noteq> None \<longrightarrow> (\<forall>fp \<in> set (gp_properties ex_period). fp_apply_to_all fp \<longrightarrow> prop_lookup (c_props x) (fp_key fp) \<noteq> None)"
    by blast
  have "c_props c0 \<noteq> None" using c0(1) by (auto simp add: find_contract_by_id_def ex_funded_table_def ex_row_def)
  with c0(4) have "prop_lookup (c_props x) ''meals'' \<noteq> None" by (simp add: ex_period_def)
  with run c0(2,3) show ?thesis by (auto simp add: ex_amend_def)
qed

section \<open>What a created child contract is stored with\<close>

text \<open>A created child contract has accepted properties that hold every automatic property.\<close>
lemma created_child_contract_properties:
  assumes "create_child_contract env t w org req = (Inr c, t')"
    and "funding_period_for_date env org (cr_from req) = Some p"
  shows "to_row c \<in> set (t_rows t') \<and>
    (\<forall>key \<in> fst ` set (entries (c_props c)). \<exists>v. get_all_values (c_props c) key = [v] \<and>
       kv_key key v \<in> fp_kv ` set (gp_properties p)) \<and>
    (\<forall>key \<in> set (gp_required_keys p). get_all_values (c_props c) key \<noteq> []) \<and>
    (\<forall>fp \<in> set (gp_properties p). fp_apply_to_all fp \<longrightarrow> prop_lookup (c_props c) (fp_key fp) \<noteq> None)"
proof -
  obtain c0 where p: "prepare_create_child env w org req = Inr c0"
      and cr: "create_contract t c0 = Inr (c, t')"
    using assms(1) by (auto simp add: create_child_contract_def create_tx_Inr split: sum.splits)
  let ?props = "fst (merge_defaults (cr_props req) (auto_apply_properties (Some p)))"
  have props: "c_props c0 = ?props" "validate_contract_properties ?props (Some p) [] = Inr ()"
    using p assms(2) by (auto simp add: prepare_create_child_def bindE_eq_Inr Let_def)
  have c: "c_props c = ?props" using create_contract_Inr(1) [OF cr] props(1) by simp
  have row: "to_row c \<in> set (t_rows t')" using create_contract_Inr(3) [OF cr] by simp
  have "prop_lookup ?props (fp_key fp) \<noteq> None"
    if "fp \<in> set (gp_properties p)" "fp_apply_to_all fp" for fp
    using auto_apply_lookup [OF that] by (auto simp add: merge_defaults_lookup split: option.splits)
  then show ?thesis
    using props(2) row unfolding c validate_contract_properties_Inr by blast
qed

lemma ex_funded_create_runs:
  "create_child_contract ex_funded_env \<lparr>t_rows = [], t_next = 1\<rparr> 1 1 ex_create =
    (Inr (ex_row\<lparr>c_props := Some [(''meals'', PString ''yes'')]\<rparr>),
     ex_table\<lparr>t_rows := [ex_row\<lparr>c_props := Some [(''meals'', PString ''yes'')]\<rparr>]\<rparr>)"
  by (simp add: create_child_contract_def
      prepare_create_child_def ex_create_def ex_row_def ex_table_def ex_funded_period ex_auto_apply
      ex_funded_lookups ex_child_env_def ex_accepted funded_eval)

lemma created_child_contract_properties_witness:
  "prop_lookup (c_props (ex_row\<lparr>c_props := Some [(''meals'', PString ''yes'')]\<rparr>)) ''meals'' \<noteq> None"
proof -
  have "\<forall>fp \<in> set (gp_properties ex_period). fp_apply_to_all fp \<longrightarrow>
      prop_lookup (c_props (ex_row\<lparr>c_props := Some [(''meals'', PString ''yes'')]\<rparr>)) (fp_key fp) \<noteq> None"
    using created_child_contract_properties [OF ex_funded_create_runs ex_funded_period]
    by (simp add: ex_create_def)
  then show ?thesis by (simp add: ex_period_def)
qed

section \<open>Both services\<close>

text \<open>No two stored contracts of one owner cover the day.\<close>

definition one_contract_on :: "'c base_contract_scheme ctable \<Rightarrow> int \<Rightarrow> bool" where
  "one_contract_on t d \<longleftrightarrow>
     (\<forall>r \<in> set (t_rows t). \<forall>s \<in> set (t_rows t). c_owner r = c_owner s \<longrightarrow>
       sql_active_on (from_day r) (to_day r) d \<longrightarrow> sql_active_on (from_day s) (to_day s) d \<longrightarrow> r = s)"

text \<open>
  C1. In every state that the requests of a service can reach, with stale loads and in any
  interleaving, at most one stored contract of a child covers a day, and at most one of an
  employee.
\<close>
lemma contracts_never_overlap:
  "(child_reachable t \<longrightarrow> one_contract_on t d) \<and> (employee_reachable u \<longrightarrow> one_contract_on u d)"
  using child_contracts_never_overlap [of t] employee_contracts_never_overlap [of u]
  unfolding one_contract_on_def by blast

lemma contracts_never_overlap_witness:
  "child_reachable ex_amended_table \<and> length (t_rows ex_amended_table) = 2 \<and> one_contract_on ex_amended_table 738100 \<and>
   employee_reachable ex_raised_table \<and> length (t_rows ex_raised_table) = 2 \<and> one_contract_on ex_raised_table 738100"
  using contracts_never_overlap [of ex_amended_table 738100 ex_raised_table] ex_reachable(2) ex_employee_reachable(2)
  by (simp add: ex_amended_table_def ex_raised_table_def)

text \<open>
  C2. No lost update: when one request has rewritten or deleted a contract, any request of the same
  service that loaded the contract from the same earlier table and would rewrite it too (a
  correction, an amendment, an end, a boundary move) or delete it under a version is refused and
  changes nothing. Only a delete without a version (\<open>If-Match: *\<close>) is not refused for having
  loaded an earlier version: it removes that one contract, whatever version it meets.
\<close>
lemma no_lost_update:
  "(table_ok t \<and> run_child env p ta t = (Inr (), tw) \<and> i \<in> child_rewrites p \<union> child_erases p \<longrightarrow>
     (i \<in> child_rewrites q \<longrightarrow> (\<exists>e. run_child env' q ta tw = (Inl e, tw))) \<and>
     run_child env' (DeleteChild i w org None) ta tw =
       (case load_contract (ce_children env') ta ''child'' i w org of
          Inl e \<Rightarrow> (Inl e, tw)
        | Inr _ \<Rightarrow> (Inr (), tw\<lparr>t_rows := filter (\<lambda>r. c_id r \<noteq> i) (t_rows tw)\<rparr>))) \<and>
   (table_ok u \<and> run_employee eenv ep ul u = (Inr (), uw) \<and> j \<in> employee_rewrites ep \<union> employee_erases ep \<longrightarrow>
     (j \<in> employee_rewrites eq \<longrightarrow> (\<exists>e. run_employee eenv' eq ul uw = (Inl e, uw))) \<and>
     run_employee eenv' (DeleteEmployee j w org None) ul uw =
       (case load_contract (ee_employees eenv') ul ''employee'' j w org of
          Inl e \<Rightarrow> (Inl e, uw)
        | Inr _ \<Rightarrow> (Inr (), uw\<lparr>t_rows := filter (\<lambda>r. c_id r \<noteq> j) (t_rows uw)\<rparr>)))"
  using child_second_refused [of t env p ta tw i q env'] employee_second_refused [of u eenv ep ul uw j eq eenv']
  by (simp add: child_op_defs employee_op_defs unguarded_delete)

lemma no_lost_update_witness:
  "(\<exists>e. run_child ex_child_env (CorrectChild 1 1 1 ex_correct) ex_table ex_amended_table
     = (Inl e, ex_amended_table)) \<and>
   (\<exists>e. run_employee ex_employee_env (DeleteEmployee 1 1 1 (Some 1)) ex_jobs ex_raised_table
     = (Inl e, ex_raised_table))"
proof -
  have c: "run_child ex_child_env (AmendChild 1 1 1 ex_amend) ex_table ex_table = (Inr (), ex_amended_table)"
    by (simp only: run_child.simps ex_amend_runs ran_def) simp
  have e: "run_employee ex_employee_env (AmendEmployee 1 1 1 ex_raise) ex_jobs ex_jobs = (Inr (), ex_raised_table)"
    by (simp only: run_employee.simps ex_raise_runs ran_def) simp
  note ok = ex_table_ok employee_reachable_ok [OF ex_employee_reachable(1)]
  show ?thesis
    using no_lost_update [where t=ex_table and env=ex_child_env and p="AmendChild 1 1 1 ex_amend" and ta=ex_table
        and tw=ex_amended_table and i=1 and q="CorrectChild 1 1 1 ex_correct" and env'=ex_child_env
        and u=ex_jobs and eenv=ex_employee_env and ep="AmendEmployee 1 1 1 ex_raise" and ul=ex_jobs
        and uw=ex_raised_table and j=1 and eq="DeleteEmployee 1 1 1 (Some 1)" and eenv'=ex_employee_env] c e ok
    by (simp del: run_child.simps run_employee.simps)
qed

text \<open>
  C5. A successful amendment replaces the contract it loaded by two: the closed contract keeps
  exactly its days before the effective date, the successor covers the days from then on up to
  the end that was asked for, or up to the end of the loaded contract if none was named; all other
  rows stay as they are, whatever was committed since the contract was loaded. If no end is named
  and the loaded contract is still the stored one, no owner's covered days change. It holds for
  children and for employees.
\<close>
lemma amend_keeps_days:
  "(table_ok t \<and> amend_child_contract env ta t i w org req = (Inr (x, y), t') \<longrightarrow>
     (\<exists>c0. find_contract_by_id ta i = Inr c0 \<and> c_owner c0 = w \<and>
       splits_contract t t' c0 x y (local_day (ca_effective_from req)) (ca_to req))) \<and>
   (table_ok u \<and> amend_employee_contract eenv ua u j w org ereq = (Inr (p, q), u') \<longrightarrow>
     (\<exists>c0. find_contract_by_id ua j = Inr c0 \<and> c_owner c0 = w \<and>
       splits_contract u u' c0 p q (local_day (ea_effective_from ereq)) (ch_to ereq)))"
  using amend_child_splits [of t env ta i w org req x y t'] amend_employee_splits [of u eenv ua j w org ereq p q u']
  by blast

lemma amend_keeps_days_witness:
  "owner_days ex_amended_table 1 = owner_days ex_table 1 \<and>
   738099 \<in> covers (fst ex_raised) \<and> 738100 \<notin> covers (fst ex_raised)"
proof -
  have runs: "amend_child_contract ex_child_env ex_table ex_table 1 1 1 ex_amend
      = (Inr (fst ex_amended, snd ex_amended), ex_amended_table)"
    "amend_employee_contract ex_employee_env ex_jobs ex_jobs 1 1 1 ex_raise
      = (Inr (fst ex_raised, snd ex_raised), ex_raised_table)"
    using ex_amend_runs ex_raise_runs by (simp_all only: prod.collapse)
  note both = amend_keeps_days [where t=ex_table and ta=ex_table and env=ex_child_env and i=1 and w=1 and org=1 and req=ex_amend
        and x="fst ex_amended" and y="snd ex_amended" and t'=ex_amended_table and u=ex_jobs and ua=ex_jobs and eenv=ex_employee_env
        and j=1 and ereq=ex_raise and p="fst ex_raised" and q="snd ex_raised" and u'=ex_raised_table]
  have rows: "find_contract_by_id ex_table 1 = Inr ex_row" "find_contract_by_id ex_jobs 1 = Inr ex_job"
    by (simp_all add: find_contract_by_id_def ex_table_def ex_row_def ex_jobs_def ex_job_def)
  from both runs rows ex_table_ok employee_reachable_ok [OF ex_employee_reachable(1)]
  have c: "splits_contract ex_table ex_amended_table ex_row (fst ex_amended) (snd ex_amended) 738100 Absent"
    and e: "splits_contract ex_jobs ex_raised_table ex_job (fst ex_raised) (snd ex_raised) 738100 Absent"
    by (simp_all add: ex_amend_def ex_raise_def)
  from c have "owner_days ex_amended_table 1 = owner_days ex_table 1"
    by (simp add: splits_contract_def ex_table_def)
  moreover have "covers ex_job = {738000..}"
    by (simp add: covers_def from_day_def to_day_def day_opt_def ex_job_def days_simps)
  with e have "covers (fst ex_raised) = {d \<in> {738000..}. d < 738100}" unfolding splits_contract_def by metis
  then have "738099 \<in> covers (fst ex_raised)" "738100 \<notin> covers (fst ex_raised)" by simp_all
  ultimately show ?thesis by simp
qed

end
