(* ===== verification/PayCost.thy ===== *)
theory PayCost
  imports EmployeeContracts
begin

text \<open>
  Salary arithmetic: \<open>employeeMonthlyCost\<close> and \<open>representableAsInt\<close> of
  \<open>internal/service/calculate.go\<close>, over the binary64 model. Amounts are cents; the employer
  contribution rate is in hundredths of a percent.
\<close>

definition representable_as_int :: "f64 \<Rightarrow> bool" where
  "representable_as_int f =
     (if is_nan f \<or> is_inf f then False
      else fle (f64_of_int min_int) f \<and> fless f (f64_of_int max_int))"

text \<open>
  \<open>int(f)\<close>. Go leaves the result open when the value does not fit; \<open>wild\<close> is what the
  platform then returns.
\<close>

definition int_of_f64 :: "int \<Rightarrow> f64 \<Rightarrow> int" where
  "int_of_f64 wild f =
     (case f of Fin q \<Rightarrow> if in_s64 (trunc_rat q) then trunc_rat q else wild | _ \<Rightarrow> wild)"

definition employee_monthly_cost :: "int \<Rightarrow> int \<Rightarrow> f64 \<Rightarrow> f64 \<Rightarrow> int \<Rightarrow> int \<times> int \<times> bool" where
  "employee_monthly_cost wild monthly_amount weekly_hours period_weekly_hours rate =
     (if is_nan period_weekly_hours \<or> is_inf period_weekly_hours \<or> fle period_weekly_hours (Fin 0)
        then (0, 0, False)
      else if is_nan weekly_hours \<or> is_inf weekly_hours \<or> fless weekly_hours (Fin 0)
        then (0, 0, False)
      else let gross_float =
               fround (fdiv (fmul (f64_of_int monthly_amount) weekly_hours) period_weekly_hours)
           in if \<not> representable_as_int gross_float then (0, 0, False)
              else let gross = int_of_f64 wild gross_float;
                       contrib_float = fround (fdiv (fmul (f64_of_int gross) (f64_of_int rate)) (Fin 10000))
                   in if \<not> representable_as_int contrib_float then (0, 0, False)
                      else (gross, int_of_f64 wild contrib_float, True))"

section \<open>What the guards guarantee\<close>

lemma trunc_rat_int [simp]: "trunc_rat (of_int i) = i"
  by (simp add: trunc_rat_def)

lemma ilog2_limits: "ilog2 9223372036854775807 = 62" "ilog2 9223372036854775808 = 63"
  by code_simp+

lemma round_half_even_limits:
  "round_half_even (9223372036854775807 / 1024) = 9007199254740992"
  "round_half_even (- 4503599627370496) = - 4503599627370496"
  by code_simp (use round_half_even_int [of "- 4503599627370496"] in simp)

lemma f64_of_int_limits: "f64_of_int min_int = Fin (- (2 ^ 63))" "f64_of_int max_int = Fin (2 ^ 63)"
  by (simp_all add: f64_of_int_def round64_def round_rat_def ulp_exp_def ilog2_limits
      round_half_even_limits min_int_def max_int_def Let_def)

lemma fround_Fin: "fround x = Fin q \<Longrightarrow> \<exists>i. q = of_int i"
  by (cases x) auto

text \<open>A rounded value that passes the check converts to itself, in range.\<close>

lemma representable_round:
  assumes "representable_as_int (fround x)"
  shows "\<exists>i. fround x = Fin (of_int i) \<and> in_s64 i \<and> int_of_f64 wild (fround x) = i"
proof (cases "fround x")
  case (Fin q)
  obtain i where i: "q = of_int i" using fround_Fin [OF Fin] by blast
  have "- (2 ^ 63) \<le> q" "q < 2 ^ 63"
    using assms by (simp_all add: representable_as_int_def Fin f64_of_int_limits)
  then have "rat_of_int (- (2 ^ 63)) \<le> of_int i" "rat_of_int i < of_int (2 ^ 63)" by (simp_all add: i)
  then have "in_s64 i"
    unfolding of_int_le_iff of_int_less_iff by (simp add: in_s64_def min_int_def max_int_def)
  then show ?thesis by (simp add: Fin i int_of_f64_def)
qed (use assms in \<open>simp_all add: representable_as_int_def\<close>)

text \<open>One multiplication, one division and the rounding stay within one unit of the quotient.\<close>

lemma rounded_quotient:
  assumes a: "0 \<le> a" "a < 2 ^ 53" and h: "h = 0 \<or> 1 / 2 ^ 20 \<le> h" "h \<le> 2 ^ 20"
    and p: "1 / 2 ^ 20 \<le> p" "p \<le> 2 ^ 20" and q: "of_int a * h / p \<le> 2 ^ 50"
  shows "\<exists>i. fround (fdiv (fmul (f64_of_int a) (Fin h)) (Fin p)) = Fin (of_int i) \<and>
    \<bar>of_int i - of_int a * h / p\<bar> < 1 \<and> 0 \<le> i"
proof -
  define x where "x = of_int a * h"
  have p0: "0 < p" using p(1) by (rule less_le_trans [rotated]) simp
  have fa: "f64_of_int a = Fin (of_int a)" using a f64_of_int_exact by simp
  show ?thesis
  proof (cases "x = 0")
    case True
    then show ?thesis using p0 round64_0
        round_half_away_int [of 0]
      by (intro exI [of _ 0]) (simp add: fa x_def [symmetric])
  next
    case False
    then have a1: "1 \<le> a" and h1: "1 / 2 ^ 20 \<le> h" using a h by (auto simp add: x_def)
    have "rat_of_int a \<le> rat_of_int (2 ^ 53)" unfolding of_int_le_iff using a by simp
    then have ra: "1 \<le> rat_of_int a" "rat_of_int a \<le> 2 ^ 53" using a1 by simp_all
    have "1 * (1 / 2 ^ 20) \<le> x" unfolding x_def using ra h1 by (intro mult_mono) simp_all
    then have x1: "1 / 2 ^ 20 \<le> x" by simp
    have "x \<le> 2 ^ 53 * 2 ^ 20" unfolding x_def using ra h h1 by (intro mult_mono) simp_all
    then have x2: "x \<le> 2 ^ 73" by simp
    have tiny: "2 powi (- 1022) \<le> (1 :: rat) / 2 ^ 60"
      by (simp add: power_int_minus field_simps)
    have x0: "0 < x" using x1 by (rule less_le_trans [rotated]) simp
    define r where "r = round_rat x"
    have r: "round64 x = Fin r" "\<bar>r - x\<bar> \<le> x / 2 ^ 53"
      using round64_Fin [of x] x0 x1 x2 tiny by (auto simp add: r_def)
    define z where "z = x / p"
    define y where "y = r / p"
    have "\<bar>y - z\<bar> = \<bar>r - x\<bar> / p" using p0 by (simp add: y_def z_def abs_divide flip: diff_divide_distrib)
    also have "\<dots> \<le> x / 2 ^ 53 / p" using divide_right_mono [OF r(2), of p] p0 by simp
    finally have yz: "\<bar>y - z\<bar> \<le> z / 2 ^ 53" by (simp add: z_def field_simps)
    have "1 / 2 ^ 20 / 2 ^ 20 \<le> z" unfolding z_def using x1 p p0 by (intro frac_le) simp_all
    then have z1: "1 / 2 ^ 40 \<le> z" by simp
    have z2: "z \<le> 2 ^ 50" using q by (simp add: z_def x_def)
    have z0: "0 < z" using z1 by (rule less_le_trans [rotated]) simp
    have zs: "z / 2 ^ 53 \<le> z / 2" using z0 by simp
    have y2: "z / 2 \<le> y" "y \<le> 2 * z" using yz zs z0 by linarith+
    have y: "1 / 2 ^ 60 \<le> y" "y \<le> 2 ^ 51" using y2 z1 z2 by (simp_all add: field_simps)
    define s where "s = round_rat y"
    have "2 powi (- 1022) \<le> \<bar>y\<bar>" using tiny y(1) by linarith
    moreover have "\<bar>y\<bar> \<le> 2 ^ 1023" using y by simp
    ultimately have s: "round64 y = Fin s" "\<bar>s - y\<bar> \<le> \<bar>y\<bar> / 2 ^ 53"
      using round64_Fin [of y] by (simp_all add: s_def)
    have "\<bar>y\<bar> / 2 ^ 53 \<le> 2 / 8" using y by simp
    moreover have "z / 2 ^ 53 \<le> 1 / 8" using z2 by simp
    ultimately have sz: "\<bar>s - z\<bar> \<le> 3 / 8" using s(2) yz by linarith
    have "\<bar>of_int (round_half_away s) - z\<bar> < 1"
      using round_half_away_bound [of s] sz by linarith
    moreover from this have "- 1 < rat_of_int (round_half_away s)" using z0 by linarith
    then have "0 \<le> round_half_away s" by linarith
    moreover have "fdiv (fmul (f64_of_int a) (Fin h)) (Fin p) = Fin s"
      using r(1) s(1) p0 by (simp add: fa x_def [symmetric] y_def)
    ultimately show ?thesis by (intro exI [of _ "round_half_away s"]) (simp add: z_def x_def)
  qed
qed

section \<open>Properties\<close>

text \<open>
  The cost computation never hands on an implementation-defined conversion: its result
  does not depend on what the platform does with values that do not fit, both amounts are
  64-bit integers, and both are zero when it reports failure.
\<close>
lemma monthly_cost_well_defined:
  assumes "employee_monthly_cost wild a h p r = (g, c, ok)"
  shows "employee_monthly_cost wild' a h p r = (g, c, ok) \<and> in_s64 g \<and> in_s64 c \<and>
    (\<not> ok \<longrightarrow> g = 0 \<and> c = 0)"
proof -
  let ?g = "fdiv (fmul (f64_of_int a) h) p"
  have z: "in_s64 0" by (simp add: in_s64_def min_int_def max_int_def)
  show ?thesis
  proof (cases "representable_as_int (fround ?g)")
    case False
    then show ?thesis using assms z by (auto simp add: employee_monthly_cost_def Let_def split: if_splits)
  next
    case True
    obtain i where i: "fround ?g = Fin (of_int i)" "in_s64 i"
        and gi: "\<And>w. int_of_f64 w (fround ?g) = i"
      using representable_round [OF True] by (metis f64.inject(2) of_int_eq_iff)
    let ?c = "fdiv (fmul (f64_of_int i) (f64_of_int r)) (Fin 10000)"
    show ?thesis
    proof (cases "representable_as_int (fround ?c)")
      case False
      then show ?thesis using assms z
        by (auto simp add: employee_monthly_cost_def Let_def gi split: if_splits)
    next
      case c: True
      obtain j where "in_s64 j" and cj: "\<And>w. int_of_f64 w (fround ?c) = j"
        using representable_round [OF c] by (metis f64.inject(2) of_int_eq_iff)
      then show ?thesis using assms z i(2)
        by (auto simp add: employee_monthly_cost_def Let_def gi cj split: if_splits)
    qed
  qed
qed

lemma monthly_cost_well_defined_witness:
  "employee_monthly_cost 5 300000 (Fin 39) NaN 2200 = (0, 0, False)"
proof -
  have "employee_monthly_cost 7 300000 (Fin 39) NaN 2200 = (0, 0, False)"
    by (simp add: employee_monthly_cost_def)
  then show ?thesis using monthly_cost_well_defined by blast
qed

text \<open>
  C10. For full-time amounts below \<open>2 ^ 53\<close> cents, full-time hours between \<open>2 ^ -20\<close> and \<open>2 ^ 20\<close>,
  contract hours that are zero or in the same range, a share of at most \<open>2 ^ 48\<close> cents and
  contribution rates up to 200 percent, the computation succeeds, the gross salary is within one
  cent of the exact share of the full-time amount and the employer's contribution within one cent
  of the exact percentage of that gross; a full-time contract is paid exactly the amount of its
  pay-plan entry. The service also accepts positive hours below \<open>2 ^ -20\<close> (some three
  milliseconds a week), for which the quotient can leave the integers.
\<close>
lemma monthly_cost_within_a_cent:
  assumes "0 \<le> a" "a < 2 ^ 53" and "h = 0 \<or> 1 / 2 ^ 20 \<le> h" "h \<le> 2 ^ 20"
    and "1 / 2 ^ 20 \<le> p" "p \<le> 2 ^ 20" and "of_int a * h / p \<le> 2 ^ 48" and "0 \<le> r" "r \<le> 20000"
  shows "\<exists>g c. employee_monthly_cost wild a (Fin h) (Fin p) r = (g, c, True) \<and>
    \<bar>of_int g - of_int a * h / p\<bar> < 1 \<and> \<bar>of_int c - of_int g * of_int r / (10000 :: rat)\<bar> < 1 \<and>
    0 \<le> g \<and> 0 \<le> c \<and> (h = p \<longrightarrow> g = a)"
proof -
  obtain i where i: "fround (fdiv (fmul (f64_of_int a) (Fin h)) (Fin p)) = Fin (of_int i)"
      "\<bar>of_int i - of_int a * h / p\<bar> < 1" "0 \<le> i"
    using rounded_quotient [OF assms(1-6)] assms(7) by auto
  have "rat_of_int i < of_int (2 ^ 48 + 1)" using i(2) assms(7) by simp
  then have i2: "i \<le> 2 ^ 48" by linarith
  have conv: "representable_as_int (Fin (of_int k)) \<and> int_of_f64 wild (Fin (of_int k)) = k"
    if "0 \<le> k" "k \<le> 2 ^ 51" for k
  proof -
    have "k < 2 ^ 63" using that(2) by simp
    then have "rat_of_int k < of_int (2 ^ 63)" by (simp only: of_int_less_iff)
    moreover have "in_s64 k" using that by (simp add: in_s64_def min_int_def max_int_def)
    ultimately show ?thesis using that(1)
      by (simp add: representable_as_int_def f64_of_int_limits int_of_f64_def)
  qed
  have fr: "f64_of_int r = Fin (of_int r)" using f64_of_int_exact [of r] assms(8,9) by simp
  have "i * r \<le> 2 ^ 48 * 20000" using i(3) i2 assms(8,9) by (intro mult_mono) simp_all
  then have "rat_of_int (i * r) \<le> of_int (2 ^ 48 * 20000)" by (simp only: of_int_le_iff)
  then have ir: "of_int i * rat_of_int r / 10000 \<le> 2 ^ 50" by simp
  have r: "rat_of_int r = 0 \<or> 1 / 2 ^ 20 \<le> rat_of_int r" "rat_of_int r \<le> 2 ^ 20"
  proof -
    have "rat_of_int r \<le> of_int 20000" using assms(9) by (simp only: of_int_le_iff)
    then show "rat_of_int r \<le> 2 ^ 20" by simp
    have "r = 0 \<or> rat_of_int 1 \<le> of_int r" unfolding of_int_le_iff using assms(8) by linarith
    then show "rat_of_int r = 0 \<or> 1 / 2 ^ 20 \<le> rat_of_int r" by auto
  qed
  obtain j where j: "fround (fdiv (fmul (f64_of_int i) (Fin (of_int r))) (Fin 10000)) = Fin (of_int j)"
      "\<bar>of_int j - of_int i * of_int r / 10000\<bar> < (1 :: rat)" "0 \<le> j"
    using rounded_quotient [of i "of_int r" 10000] i(3) i2 r ir by auto
  have "rat_of_int j < of_int (2 ^ 50 + 1)" using j(2) ir by simp
  then have j2: "j \<le> 2 ^ 51" unfolding of_int_less_iff by simp
  have h0: "0 \<le> h" using assms(3) by auto
  have p0: "0 < p" using assms(5) by (rule less_le_trans [rotated]) simp
  have "employee_monthly_cost wild a (Fin h) (Fin p) r = (i, j, True)"
    using h0 p0 conv [of i] conv [of j] i j j2 i2
    by (simp add: employee_monthly_cost_def Let_def fr)
  moreover have "i = a" if "h = p"
  proof -
    have "rat_of_int i < of_int (a + 1)" "rat_of_int (a - 1) < of_int i"
      using i(2) p0 that by simp_all
    then show ?thesis unfolding of_int_less_iff by linarith
  qed
  ultimately show ?thesis using i j by blast
qed

lemma monthly_cost_within_a_cent_witness:
  "\<exists>c. employee_monthly_cost 0 350000 (Fin 39) (Fin 39) 2200 = (350000, c, True)"
  using monthly_cost_within_a_cent [of 350000 39 39 2200 0] by auto

end
