(* ===== verification/Months.thy ===== *)
theory Months
  imports Periods
begin

text \<open>
  Month ranges: the loop \<open>for date := start; !date.After(end); date = date.AddDate(0, 1, 0)\<close> of
  every calculator, \<open>monthCount\<close> of \<open>internal/service/calculate.go\<close>, the snapping and
  bounding of a requested range in \<open>internal/service/statistics.go\<close>, and the date format of
  the responses.
\<close>

section \<open>Adding a month moves forward\<close>

lemma day_number_next_month:
  assumes "1 \<le> m" and "m \<le> 12"
  shows "date_day y (m + 1) d = day_number y m d + days_in_month y m"
proof (cases "m = 12")
  case True
  then show ?thesis
    by (simp add: date_day_def day_number_def days_in_month_def days_before_year_Suc
        days_before_month_eqs days_in_year_def)
next
  case False
  then have "date_day y (m + 1) d = day_number y (m + 1) d" using assms by (simp add: date_day_def)
  then show ?thesis by (simp add: day_number_def days_in_month_def)
qed

lemma local_day_next_month:
  "local_day (add_date t 0 1 0) = local_day t + days_in_month (year_of t) (month_of t)"
  using day_number_next_month [OF month_of_range] day_number_time [of t]
  by (simp add: local_day_add_date)

lemma add_month_later: "instant t < instant (add_date t 0 1 0)"
proof -
  have "28 \<le> days_in_month (year_of t) (month_of t)"
    using days_in_month_bounds month_of_range by blast
  then have "local_day t < local_day (add_date t 0 1 0)" by (simp add: local_day_next_month)
  moreover have "zone (add_date t 0 1 0) = zone t" by (simp add: add_date_def)
  ultimately show ?thesis
    by (auto simp add: local_day_def ns_per_day_def not_less dest: zdiv_mono1 [where b = 86400000000000])
qed

section \<open>The loop\<close>

function month_dates :: "gtime \<Rightarrow> gtime \<Rightarrow> gtime list" where
  "month_dates date end_date =
     (if after date end_date then [] else date # month_dates (add_date date 0 1 0) end_date)"
  by pat_completeness auto
termination
proof (relation "measure (\<lambda>(d, e). nat (instant e - instant d + 1))", goal_cases)
  case (2 date end_date)
  then show ?case using add_month_later [of date] by (simp add: after_def)
qed simp

declare month_dates.simps [simp del]

definition month_count :: "gtime \<Rightarrow> gtime \<Rightarrow> int" where
  "month_count start end_date =
     (let months = (year_of end_date - year_of start) * 12 + (month_of end_date - month_of start) + 1
      in if months < 0 then 0 else months)"

section \<open>Ranges of requests\<close>

definition snap_date_range :: "gtime \<Rightarrow> gtime option \<Rightarrow> gtime option \<Rightarrow> gtime \<times> gtime" where
  "snap_date_range now from to =
     (let kita_year_start_year = (if month_of now < 8 then year_of now - 1 else year_of now)
      in (case from of
            Some f \<Rightarrow> date_utc (year_of f) (month_of f) 1
          | None \<Rightarrow> date_utc (kita_year_start_year - 1) 7 1,
          case to of
            Some t \<Rightarrow> date_utc (year_of t) (month_of t) 1
          | None \<Rightarrow> date_utc (kita_year_start_year + 2) 8 1))"

definition max_statistics_range_months :: int where
  "max_statistics_range_months = 72"

definition snap_and_validate_range ::
    "gtime \<Rightarrow> gtime option \<Rightarrow> gtime option \<Rightarrow> (gtime \<times> gtime) outcome" where
  "snap_and_validate_range now from to =
     (let (start, end_date) = snap_date_range now from to
      in if before end_date start
           then Inl (bad_request (CHR 0x27 # ''to'' @ CHR 0x27 # '' date must not be before '' @ CHR 0x27 # ''from'' @ CHR 0x27 # '' date''))
         else if max_statistics_range_months < month_count start end_date
           then Inl (bad_request ''date range must not exceed 72 months'')
         else Inr (start, end_date))"

section \<open>First days of months\<close>

definition first_of :: "int \<Rightarrow> gtime" where
  "first_of k = date_utc (k div 12) (k mod 12 + 1) 1"

definition month_index :: "gtime \<Rightarrow> int" where
  "month_index t = 12 * year_of t + (month_of t - 1)"

lemma valid_first: "1 \<le> m \<Longrightarrow> m \<le> 12 \<Longrightarrow> valid_civil y m 1"
  using days_in_month_bounds [of m y] by (simp add: valid_civil_def)

lemma month_range: "1 \<le> k mod 12 + 1" "k mod 12 + 1 \<le> (12::int)"
  using pos_mod_bound [of 12 k] by simp_all

lemma first_of_parts [simp]:
  "year_of (first_of k) = k div 12" "month_of (first_of k) = k mod 12 + 1" "day_of (first_of k) = 1"
  using date_utc_parts [OF valid_first [OF month_range [of k]], of "k div 12"] by (simp_all add: first_of_def)

lemma date_day_index: "date_day y m 1 = local_day (first_of (12 * y + (m - 1)))"
proof -
  have "(12 * y + (m - 1)) div 12 = y + (m - 1) div 12" "(12 * y + (m - 1)) mod 12 = (m - 1) mod 12"
    by simp_all
  then show ?thesis
    by (simp add: first_of_def date_utc_def date_day_def)
qed

lemma first_of_midnight: "first_of k = midnight (local_day (first_of k))"
  by (simp add: first_of_def date_utc_def)

lemma date_utc_first: "date_utc y m 1 = first_of (12 * y + (m - 1))"
  using date_day_index [of y m] first_of_midnight [of "12 * y + (m - 1)"] by (simp add: date_utc_def)

lemma first_of_fields:
  "instant (first_of k) = local_day (first_of k) * ns_per_day" "zone (first_of k) = 0"
  "time_of_day (first_of k) = 0"
proof -
  have m: "instant (midnight z) = z * ns_per_day" for z by (simp add: midnight_def)
  show "instant (first_of k) = local_day (first_of k) * ns_per_day" "zone (first_of k) = 0"
      "time_of_day (first_of k) = 0"
    using first_of_midnight m zone_midnight time_of_day_midnight by metis+
qed

lemma add_month_first [simp]: "add_date (first_of k) 0 1 0 = first_of (k + 1)"
proof -
  have "12 * (k div 12) + (k mod 12 + 2 - 1) = k + 1" by simp
  then have "date_day (k div 12) (2 + k mod 12) 1 = local_day (first_of (k + 1))"
    using date_day_index [of "k div 12" "k mod 12 + 2"] by (simp add: add.commute)
  then show ?thesis
    by (intro gtime.equality) (simp_all add: add_date_def first_of_fields)
qed

lemma local_day_first_mono: "j < k \<Longrightarrow> local_day (first_of j) < local_day (first_of k)"
proof -
  assume "j < k"
  then have "j div 12 < k div 12 \<or> j div 12 = k div 12 \<and> j mod 12 < k mod 12"
    using zdiv_mono1 [of j k 12] div_mult_mod_eq [of j 12] div_mult_mod_eq [of k 12] by linarith
  then have "day_number (j div 12) (j mod 12 + 1) 1 < day_number (k div 12) (k mod 12 + 1) 1"
    by (intro day_number_less valid_first month_range) auto
  then show ?thesis using day_number_time [of "first_of j"] day_number_time [of "first_of k"] by simp
qed

lemma after_first [simp]: "after (first_of j) (first_of k) \<longleftrightarrow> k < j"
proof -
  have "after (first_of j) (first_of k) \<longleftrightarrow> local_day (first_of k) < local_day (first_of j)"
    using after_midnight first_of_midnight by metis
  then show ?thesis
    using local_day_first_mono [of j k] local_day_first_mono [of k j] by (cases j k rule: linorder_cases) auto
qed

lemma before_first [simp]: "before (first_of j) (first_of k) \<longleftrightarrow> j < k"
  using after_first [of k j] by (simp add: after_def before_def)

lemma month_dates_first: "month_dates (first_of a) (first_of b) = map first_of [a..b]"
proof (induction "nat (b - a + 1)" arbitrary: a)
  case 0
  then show ?case by (simp add: month_dates.simps [of "first_of a"])
next
  case (Suc n)
  then have "a \<le> b" "n = nat (b - (a + 1) + 1)" by linarith+
  then show ?case using Suc.hyps(1) [of "a + 1"]
    by (simp add: month_dates.simps [of "first_of a"] upto_rec1 [of a])
qed

lemma month_count_first: "month_count (first_of a) (first_of b) = max 0 (b - a + 1)"
proof -
  have "a = 12 * q + r \<Longrightarrow> b = 12 * q' + r' \<Longrightarrow> 12 * (q' - q) + (r' - r) = b - a" for q r q' r'
    by simp
  from this [of "a div 12" "a mod 12" "b div 12" "b mod 12"]
  have "12 * (b div 12 - a div 12) + (b mod 12 - a mod 12) = b - a" by simp
  then show ?thesis by (simp add: month_count_def Let_def algebra_simps)
qed

lemma snap_date_range_first:
  "\<exists>a b. snap_date_range now from to = (first_of a, first_of b) \<and>
    (\<forall>f. from = Some f \<longrightarrow> a = month_index f) \<and> (\<forall>t. to = Some t \<longrightarrow> b = month_index t)"
  by (auto simp add: snap_date_range_def Let_def date_utc_first month_index_def split: option.splits)

text \<open>
  C11. An accepted statistics range yields between 1 and 72 months, exactly as many as
  \<open>monthCount\<close> says, consecutive first days of months from the month of the requested start to
  the month of the requested end, both included.
\<close>
lemma accepted_range_months:
  assumes "snap_and_validate_range now req_from req_to = Inr (start, end_date)"
  shows "\<exists>a b. month_dates start end_date = map first_of [a..b] \<and>
    length (month_dates start end_date) = nat (month_count start end_date) \<and>
    1 \<le> length (month_dates start end_date) \<and> length (month_dates start end_date) \<le> 72 \<and>
    (\<forall>f. req_from = Some f \<longrightarrow> a = month_index f) \<and> (\<forall>t. req_to = Some t \<longrightarrow> b = month_index t)"
proof -
  obtain a b where ab: "snap_date_range now req_from req_to = (first_of a, first_of b)"
      "\<forall>f. req_from = Some f \<longrightarrow> a = month_index f" "\<forall>t. req_to = Some t \<longrightarrow> b = month_index t"
    using snap_date_range_first [of now req_from req_to] by (elim exE conjE)
  have pick: "(if p then Inl e1 else if q then Inl e2 else Inr x) = Inr y \<Longrightarrow> \<not> p \<and> \<not> q \<and> x = y"
    for p q and e1 e2 :: go_error and x y :: "gtime \<times> gtime"
    by (cases p; cases q) simp_all
  have "\<not> before (first_of b) (first_of a) \<and> \<not> 72 < month_count (first_of a) (first_of b) \<and>
      (first_of a, first_of b) = (start, end_date)"
    by (rule pick [OF assms [unfolded snap_and_validate_range_def ab(1) Let_def prod.case
          max_statistics_range_months_def]])
  then have "start = first_of a" "end_date = first_of b" "a \<le> b" "max 0 (b - a + 1) \<le> 72"
    unfolding before_first month_count_first prod.inject not_less by blast+
  then show ?thesis using ab(2,3)
    by (intro exI [of _ a] exI [of _ b]) (auto simp add: month_dates_first month_count_first)
qed

lemma accepted_range_months_witness:
  "length (month_dates (first_of 24300) (first_of 24311)) = 12 \<and>
   1 \<le> length (month_dates (first_of 24300) (first_of 24311))"
proof -
  have "snap_and_validate_range (first_of 24300) (Some (first_of 24300)) (Some (first_of 24311))
      = Inr (first_of 24300, first_of 24311)"
    by (simp add: snap_and_validate_range_def snap_date_range_def date_utc_first month_count_first
        max_statistics_range_months_def)
  from accepted_range_months [OF this] show ?thesis by (auto simp add: month_count_first)
qed

section \<open>Formatting\<close>

definition pad_left :: "nat \<Rightarrow> string \<Rightarrow> string" where
  "pad_left n s = replicate (n - length s) (CHR ''0'') @ s"

text \<open>\<open>t.Format("2006-01-02")\<close>.\<close>

definition format_date :: "gtime \<Rightarrow> string" where
  "format_date t =
     (let y = year_of t
      in (if y < 0 then ''-'' else []) @ pad_left 4 (digits_of (nat \<bar>y\<bar>)) @ ''-'' @
         pad_left 2 (itoa (month_of t)) @ ''-'' @ pad_left 2 (itoa (day_of t)))"

end
