(* ===== verification/Statistics.thy ===== *)
theory Statistics
  imports ChildContracts PayCost Months
begin

text \<open>
  The calculators of \<open>internal/service/calculate.go\<close>: pure functions on loaded children,
  employees, pay plans, funding periods and budget items. Amounts are \<open>int\<close> with 64-bit
  wrap-around (\<open>s64\<close>), hours are binary64. Go maps that are only collected and sorted are
  association lists; where the iteration order of a map could show, it is a parameter.
\<close>

section \<open>People and budget items\<close>

record person =
  pn_id :: nat
  pn_org :: nat
  pn_first_name :: string
  pn_last_name :: string
  pn_gender :: string
  pn_birthdate :: gtime

record child = person +
  cd_contracts :: "child_contract list"

record employee = person +
  em_contracts :: "employee_contract list"

record budget_entry = period +
  be_id :: nat
  be_amount_cents :: int

record budget_item =
  bi_name :: string
  bi_category :: string
  bi_per_child :: bool
  bi_entries :: "budget_entry list"

section \<open>Pickers\<close>

text \<open>The active record with the latest start, ties broken by the highest id.\<close>

fun pick_latest ::
    "('a \<Rightarrow> bool) \<Rightarrow> ('a \<Rightarrow> gtime) \<Rightarrow> ('a \<Rightarrow> nat) \<Rightarrow> 'a option \<Rightarrow> 'a list \<Rightarrow> 'a option" where
  "pick_latest act start ident best [] = best"
| "pick_latest act start ident best (c # cs) =
     (if \<not> act c then pick_latest act start ident best cs
      else (case best of
              None \<Rightarrow> pick_latest act start ident (Some c) cs
            | Some b \<Rightarrow>
                if after (start c) (start b) \<or> equal_time (start c) (start b) \<and> ident b < ident c
                then pick_latest act start ident (Some c) cs
                else pick_latest act start ident best cs))"

definition contract_period :: "'a base_contract_scheme \<Rightarrow> period" where
  "contract_period c = \<lparr>p_from = c_from c, p_to = c_to c\<rparr>"

definition pick_active_child_contract :: "child_contract list \<Rightarrow> gtime \<Rightarrow> child_contract option" where
  "pick_active_child_contract cs date =
     pick_latest (\<lambda>c. is_active_on (contract_period c) date) c_from c_id None cs"

definition pick_active_employee_contract ::
    "employee_contract list \<Rightarrow> gtime \<Rightarrow> employee_contract option" where
  "pick_active_employee_contract cs date =
     pick_latest (\<lambda>c. is_active_on (contract_period c) date) c_from c_id None cs"

definition pick_active_budget_entry :: "budget_entry list \<Rightarrow> gtime \<Rightarrow> budget_entry option" where
  "pick_active_budget_entry es date = pick_latest (\<lambda>e. is_active_on e date) p_from be_id None es"

definition find_pay_plan_period_for_date :: "pay_plan_period list \<Rightarrow> gtime \<Rightarrow> pay_plan_period option" where
  "find_pay_plan_period_for_date ps date = find (\<lambda>p. is_active_on p date) ps"

text \<open>
  \<open>buildEntryIndex\<close> and the per-period indexes of \<open>buildPayPlanIndex\<close>: a later entry of the
  same grade and step, and a later period of the same id, overwrites an earlier one.
\<close>

definition entry_in_index :: "pay_plan_entry list \<Rightarrow> string \<Rightarrow> int \<Rightarrow> pay_plan_entry option" where
  "entry_in_index es grade step = find (\<lambda>e. pe_grade e = grade \<and> pe_step e = step) (rev es)"

definition entries_of_period_id :: "pay_plan_period list \<Rightarrow> nat \<Rightarrow> pay_plan_entry list" where
  "entries_of_period_id ps i =
     (case find (\<lambda>p. pp_id p = i) (rev ps) of None \<Rightarrow> [] | Some p \<Rightarrow> pp_entries p)"

section \<open>Financials\<close>

record warning =
  w_code :: string
  w_message :: string
  w_employee :: nat
  w_child :: nat
  w_contract :: nat
  w_pay_plan :: nat
  w_grade :: string
  w_step :: int
  w_date :: string

definition add_warning :: "warning list \<Rightarrow> warning \<Rightarrow> warning list" where
  "add_warning ws w =
     (if list_ex (\<lambda>v. w_code v = w_code w \<and> w_contract v = w_contract w) ws then ws else ws @ [w])"

text \<open>\<open>strings.SplitN(s, ":", 2)\<close> of a string with a colon.\<close>

definition split_colon :: "string \<Rightarrow> string \<times> string" where
  "split_colon s = (takeWhile (\<lambda>c. c \<noteq> CHR '':'') s, tl (dropWhile (\<lambda>c. c \<noteq> CHR '':'') s))"

record funding_detail =
  fd_key :: string
  fd_value :: string
  fd_label :: string
  fd_amount :: int

record salary_detail =
  sd_category :: string
  sd_gross :: int
  sd_employer :: int

record budget_detail =
  bd_name :: string
  bd_category :: string
  bd_amount :: int
  bd_per_child :: bool
  bd_unit :: int

text \<open>The children of one month.\<close>

record child_totals =
  ct_income :: int
  ct_count :: int
  ct_details :: "(string \<times> int \<times> string) list"
  ct_warnings :: "warning list"

definition add_funding_match :: "bool \<times> child_totals \<Rightarrow> funding_property \<Rightarrow> bool \<times> child_totals" where
  "add_funding_match acc fp =
     (case acc of (entitled, t) \<Rightarrow>
       (entitled \<or> \<not> fp_apply_to_all fp,
        t\<lparr>ct_income := s64 (ct_income t + fp_payment fp),
          ct_details := alist_add (kv_key (fp_key fp) (fp_value fp)) (s64 (fp_payment fp), fp_label fp)
            (\<lambda>(a, _) _. (s64 (a + fp_payment fp), fp_label fp)) (ct_details t)\<rparr>))"

definition child_month :: "gtime \<Rightarrow> funding_period option \<Rightarrow> child_totals \<Rightarrow> child \<Rightarrow> child_totals" where
  "child_month date period t child =
     (case pick_active_child_contract (cd_contracts child) date of
        None \<Rightarrow> t
      | Some contract \<Rightarrow>
          (let age = funding_age_on_date (pn_birthdate child) date
           in case foldl add_funding_match (False, t\<lparr>ct_count := ct_count t + 1\<rparr>)
                     (match_funding_properties age (c_props contract) period) of
                (entitled, t') \<Rightarrow>
                  if period \<noteq> None \<and> \<not> entitled \<and> entries (c_props contract) \<noteq> []
                  then t'\<lparr>ct_warnings := add_warning (ct_warnings t')
                         \<lparr>w_code = ''child_no_funding_entitlement'',
                          w_message = ''child contract matched no funding entitlement; the figure is the universal deductions alone'',
                          w_employee = 0, w_child = pn_id child, w_contract = c_id contract,
                          w_pay_plan = 0, w_grade = [], w_step = 0, w_date = format_date date\<rparr>\<rparr>
                  else t'))"

definition funding_details :: "(string \<times> int \<times> string) list \<Rightarrow> funding_detail list" where
  "funding_details m =
     sort_key fd_key (sort_key fd_value
       (map (\<lambda>(kv, amount, label).
           \<lparr>fd_key = fst (split_colon kv), fd_value = snd (split_colon kv), fd_label = label,
            fd_amount = amount\<rparr>) m))"

text \<open>The employees of one month; the plan lookup answers why there is no salary.\<close>

record staff_totals =
  st_gross :: int
  st_employer :: int
  st_count :: int
  st_by_category :: "(string \<times> int \<times> int) list"
  st_warnings :: "warning list"

definition salary_of ::
    "int \<Rightarrow> (nat \<Rightarrow> pay_plan option) \<Rightarrow> employee_contract \<Rightarrow> gtime \<Rightarrow> (string \<times> string) + int \<times> int" where
  "salary_of wild plans ec date =
     (case plans (ec_pay_plan ec) of
        None \<Rightarrow> Inl (''missing_pay_plan'', ''employee contract references unknown pay plan; salary excluded'')
      | Some plan \<Rightarrow>
          (case find_pay_plan_period_for_date (pl_periods plan) date of
             None \<Rightarrow> Inl (''no_pay_plan_period'', ''no pay plan period covers contract date; salary excluded'')
           | Some p \<Rightarrow>
               (case entry_in_index (entries_of_period_id (pl_periods plan) (pp_id p)) (ec_grade ec) (ec_step ec) of
                  None \<Rightarrow> Inl (''no_pay_plan_entry'',
                             ''no pay plan entry for contract grade/step; salary excluded'')
                | Some e \<Rightarrow>
                    (case employee_monthly_cost wild (pe_monthly_amount e) (ec_weekly_hours ec)
                            (pp_weekly_hours p) (pp_contribution_rate p) of
                       (gross, contrib, ok) \<Rightarrow>
                         if ok then Inr (gross, contrib)
                         else Inl (''unusable_pay_plan_period'',
                                ''pay plan period has invalid weekly hours; salary excluded'')))))"

definition salary_warning ::
    "employee \<Rightarrow> employee_contract \<Rightarrow> gtime \<Rightarrow> string \<times> string \<Rightarrow> warning" where
  "salary_warning emp ec date reason =
     (let graded = fst reason \<in> {''no_pay_plan_entry'', ''unusable_pay_plan_period''}
      in \<lparr>w_code = fst reason, w_message = snd reason, w_employee = pn_id emp, w_child = 0,
          w_contract = c_id ec, w_pay_plan = ec_pay_plan ec,
          w_grade = (if graded then ec_grade ec else []), w_step = (if graded then ec_step ec else 0),
          w_date = format_date date\<rparr>)"

definition employee_month ::
    "int \<Rightarrow> (nat \<Rightarrow> pay_plan option) \<Rightarrow> gtime \<Rightarrow> staff_totals \<Rightarrow> employee \<Rightarrow> staff_totals" where
  "employee_month wild plans date t emp =
     (case pick_active_employee_contract (em_contracts emp) date of
        None \<Rightarrow> t
      | Some ec \<Rightarrow>
          (let t1 = t\<lparr>st_count := st_count t + 1\<rparr>
           in case salary_of wild plans ec date of
                Inl reason \<Rightarrow>
                  t1\<lparr>st_warnings := add_warning (st_warnings t1) (salary_warning emp ec date reason)\<rparr>
              | Inr (gross, contrib) \<Rightarrow>
                  t1\<lparr>st_gross := s64 (st_gross t1 + gross), st_employer := s64 (st_employer t1 + contrib),
                     st_by_category := alist_add (ec_staff_category ec) (s64 gross, s64 contrib)
                       (\<lambda>(a, b) _. (s64 (a + gross), s64 (b + contrib))) (st_by_category t1)\<rparr>))"

definition salary_details :: "(string \<times> int \<times> int) list \<Rightarrow> salary_detail list" where
  "salary_details m =
     sort_key sd_category (map (\<lambda>(cat, g, c). \<lparr>sd_category = cat, sd_gross = g, sd_employer = c\<rparr>) m)"

record budget_totals =
  bt_income :: int
  bt_expenses :: int
  bt_details :: "budget_detail list"

definition budget_month :: "gtime \<Rightarrow> int \<Rightarrow> budget_totals \<Rightarrow> budget_item \<Rightarrow> budget_totals" where
  "budget_month date child_count t item =
     (case pick_active_budget_entry (bi_entries item) date of
        None \<Rightarrow> t
      | Some entry \<Rightarrow>
          (let unit = be_amount_cents entry;
               amount = (if bi_per_child item then s64 (unit * child_count) else unit);
               t1 = (if bi_category item = ''income''
                     then t\<lparr>bt_income := s64 (bt_income t + amount)\<rparr>
                     else t\<lparr>bt_expenses := s64 (bt_expenses t + amount)\<rparr>)
           in t1\<lparr>bt_details := bt_details t1 @
                [\<lparr>bd_name = bi_name item, bd_category = bi_category item, bd_amount = amount,
                  bd_per_child = bi_per_child item, bd_unit = unit\<rparr>]\<rparr>))"

record financial_point =
  dp_date :: string
  dp_funding_income :: int
  dp_gross_salary :: int
  dp_employer_costs :: int
  dp_budget_income :: int
  dp_budget_expenses :: int
  dp_total_income :: int
  dp_total_expenses :: int
  dp_balance :: int
  dp_child_count :: int
  dp_staff_count :: int
  dp_budget_details :: "budget_detail list"
  dp_funding_details :: "funding_detail list"
  dp_salary_details :: "salary_detail list"

definition financial_month ::
    "int \<Rightarrow> child list \<Rightarrow> employee list \<Rightarrow> (nat \<Rightarrow> pay_plan option) \<Rightarrow> funding_period list \<Rightarrow>
      budget_item list \<Rightarrow> warning list \<Rightarrow> gtime \<Rightarrow> financial_point \<times> warning list" where
  "financial_month wild children employees plans funding items ws date =
     (let period = find_period_for_date funding date;
          ct = foldl (child_month date period)
                 \<lparr>ct_income = 0, ct_count = 0, ct_details = [], ct_warnings = ws\<rparr> children;
          ws1 = (if period = None \<and> 0 < ct_count ct
                 then add_warning (ct_warnings ct)
                   \<lparr>w_code = ''no_funding_period'',
                    w_message = ''no funding configuration covers this month; funding is reported as zero'',
                    w_employee = 0, w_child = 0, w_contract = 0, w_pay_plan = 0, w_grade = [],
                    w_step = 0, w_date = format_date date\<rparr>
                 else ct_warnings ct);
          st = foldl (employee_month wild plans date)
                 \<lparr>st_gross = 0, st_employer = 0, st_count = 0, st_by_category = [], st_warnings = ws1\<rparr>
                 employees;
          bt = foldl (budget_month date (ct_count ct))
                 \<lparr>bt_income = 0, bt_expenses = 0, bt_details = []\<rparr> items;
          income = s64 (ct_income ct + bt_income bt);
          expenses = s64 (s64 (st_gross st + st_employer st) + bt_expenses bt)
      in (\<lparr>dp_date = format_date date, dp_funding_income = ct_income ct,
           dp_gross_salary = st_gross st, dp_employer_costs = st_employer st,
           dp_budget_income = bt_income bt, dp_budget_expenses = bt_expenses bt,
           dp_total_income = income, dp_total_expenses = expenses,
           dp_balance = s64 (income - expenses), dp_child_count = ct_count ct,
           dp_staff_count = st_count st, dp_budget_details = bt_details bt,
           dp_funding_details = funding_details (ct_details ct),
           dp_salary_details = salary_details (st_by_category st)\<rparr>,
          st_warnings st))"

fun financial_months ::
    "int \<Rightarrow> child list \<Rightarrow> employee list \<Rightarrow> (nat \<Rightarrow> pay_plan option) \<Rightarrow> funding_period list \<Rightarrow>
      budget_item list \<Rightarrow> warning list \<Rightarrow> gtime list \<Rightarrow> financial_point list \<times> warning list" where
  "financial_months wild children employees plans funding items ws [] = ([], ws)"
| "financial_months wild children employees plans funding items ws (d # ds) =
     (let (p, ws') = financial_month wild children employees plans funding items ws d;
          (ps, ws'') = financial_months wild children employees plans funding items ws' ds
      in (p # ps, ws''))"

definition calculate_financials ::
    "int \<Rightarrow> child list \<Rightarrow> employee list \<Rightarrow> (nat \<Rightarrow> pay_plan option) \<Rightarrow> funding_period list \<Rightarrow>
      budget_item list \<Rightarrow> gtime \<Rightarrow> gtime \<Rightarrow> financial_point list \<times> warning list" where
  "calculate_financials wild children employees plans funding items start end_date =
     financial_months wild children employees plans funding items [] (month_dates start end_date)"

section \<open>Staffing hours\<close>

record staffing_point =
  sp_date :: string
  sp_required :: f64
  sp_available :: f64
  sp_child_count :: int
  sp_staff_count :: int

definition child_requirement ::
    "gtime \<Rightarrow> funding_period option \<Rightarrow> f64 \<times> int \<Rightarrow> child \<Rightarrow> f64 \<times> int" where
  "child_requirement date period acc child =
     (case acc of (required, n) \<Rightarrow>
       (case pick_active_child_contract (cd_contracts child) date of
          None \<Rightarrow> (required, n)
        | Some contract \<Rightarrow>
            (case period of
               None \<Rightarrow> (required, n + 1)
             | Some p \<Rightarrow>
                 (fadd required
                    (fmul (sum_child_requirement (funding_age_on_date (pn_birthdate child) date)
                             (c_props contract) period) (gp_full_time_hours p)),
                  n + 1))))"

definition employee_hours :: "gtime \<Rightarrow> f64 \<times> int \<Rightarrow> employee \<Rightarrow> f64 \<times> int" where
  "employee_hours date acc emp =
     (case acc of (available, n) \<Rightarrow>
       (case pick_active_employee_contract (em_contracts emp) date of
          None \<Rightarrow> (available, n)
        | Some ec \<Rightarrow> (fadd available (ec_weekly_hours ec), n + 1)))"

definition calculate_staffing_hours ::
    "child list \<Rightarrow> employee list \<Rightarrow> funding_period list \<Rightarrow> gtime \<Rightarrow> gtime \<Rightarrow> staffing_point list" where
  "calculate_staffing_hours children employees funding start end_date =
     map (\<lambda>date.
         let (required, children_n) =
               foldl (child_requirement date (find_period_for_date funding date)) (Fin 0, 0) children;
             (available, staff_n) = foldl (employee_hours date) (Fin 0, 0) employees
         in \<lparr>sp_date = format_date date, sp_required = required, sp_available = available,
             sp_child_count = children_n, sp_staff_count = staff_n\<rparr>)
       (month_dates start end_date)"

record staffing_row =
  sr_employee :: nat
  sr_first_name :: string
  sr_last_name :: string
  sr_staff_category :: string
  sr_hours :: "f64 list"

text \<open>
  The category is that of the latest contract, active or not. The hours are written into a
  slice of \<open>monthCount\<close> cells; an index past its end panics, which is \<open>None\<close>. The final sort
  leaves the order of equal names open; the model keeps the input order there.
\<close>

definition staff_category_of :: "employee_contract list \<Rightarrow> string" where
  "staff_category_of cs =
     (case pick_latest (\<lambda>_. True) c_from c_id None cs of None \<Rightarrow> [] | Some c \<Rightarrow> ec_staff_category c)"

definition monthly_hours :: "employee \<Rightarrow> gtime \<Rightarrow> gtime \<Rightarrow> f64 list option" where
  "monthly_hours emp start end_date =
     (let n = nat (month_count start end_date);
          hs = map (\<lambda>date. case pick_active_employee_contract (em_contracts emp) date of
                              None \<Rightarrow> Fin 0 | Some c \<Rightarrow> ec_weekly_hours c)
                 (month_dates start end_date);
          stored = map (\<lambda>date. pick_active_employee_contract (em_contracts emp) date \<noteq> None)
                     (month_dates start end_date)
      in if True \<in> set (drop n stored) then None
         else Some (take n (hs @ replicate n (Fin 0))))"

fun all_some :: "'a option list \<Rightarrow> 'a list option" where
  "all_some [] = Some []"
| "all_some (None # xs) = None"
| "all_some (Some x # xs) = map_option (Cons x) (all_some xs)"

definition calculate_employee_staffing_hours ::
    "employee list \<Rightarrow> gtime \<Rightarrow> gtime \<Rightarrow> (string list \<times> staffing_row list) option" where
  "calculate_employee_staffing_hours employees start end_date =
     map_option
       (\<lambda>rows. (map format_date (month_dates start end_date),
                sort_key sr_last_name (sort_key sr_first_name rows)))
       (all_some (map (\<lambda>emp.
           map_option (\<lambda>hs. \<lparr>sr_employee = pn_id emp, sr_first_name = pn_first_name emp,
               sr_last_name = pn_last_name emp,
               sr_staff_category = staff_category_of (em_contracts emp), sr_hours = hs\<rparr>)
             (monthly_hours emp start end_date)) employees))"

section \<open>Occupancy\<close>

record age_group =
  ag_label :: string
  ag_min :: int
  ag_max :: int

record care_type =
  ctp_value :: string
  ctp_label :: string

record supplement_type =
  spt_key :: string
  spt_value :: string
  spt_label :: string

text \<open>
  A range with \<open>maxAge + 1 < minAge\<close> makes \<open>make\<close> panic on a negative capacity: \<open>None\<close>.
\<close>

definition format_age_group_label :: "int \<Rightarrow> int \<Rightarrow> string option" where
  "format_age_group_label min_age max_age =
     (if min_age = max_age then Some (itoa min_age)
      else if 6 \<le> max_age then Some (itoa min_age @ ''+'')
      else if max_age - min_age + 1 < 0 then None
      else Some (join_strings ''/'' (map itoa [min_age..max_age])))"

fun find_age_group_label :: "int \<Rightarrow> age_group list \<Rightarrow> string" where
  "find_age_group_label age [] = []"
| "find_age_group_label age (g # gs) =
     (if ag_min g \<le> age \<and> age \<le> ag_max g then ag_label g else find_age_group_label age gs)"

text \<open>\<open>slices.MaxFunc\<close> on the start date: the first of the latest.\<close>

fun latest_period :: "funding_period \<Rightarrow> funding_period list \<Rightarrow> funding_period" where
  "latest_period best [] = best"
| "latest_period best (p # ps) =
     latest_period (if instant (p_from best) < instant (p_from p) then p else best) ps"

definition age_ranges :: "funding_property list \<Rightarrow> (int \<times> int) list" where
  "age_ranges ps =
     foldl (\<lambda>acc p. case (fp_min_age p, fp_max_age p) of
                (Some a, Some b) \<Rightarrow> if (a, b) \<in> set acc then acc else acc @ [(a, b)]
              | _ \<Rightarrow> acc)
       [] (filter (\<lambda>p. fp_key p = ''care_type'') ps)"

definition care_types_of :: "funding_property list \<Rightarrow> care_type list" where
  "care_types_of ps =
     sort_key ctp_value
       (foldl (\<lambda>acc p. if fp_value p \<in> set (map ctp_value acc) then acc
                        else acc @ [\<lparr>ctp_value = fp_value p, ctp_label = fp_label p\<rparr>])
         [] (filter (\<lambda>p. fp_key p = ''care_type'') ps))"

definition supplement_types_of :: "funding_property list \<Rightarrow> supplement_type list" where
  "supplement_types_of ps =
     sort_key spt_value
       (foldl (\<lambda>acc p. if fp_value p \<in> set (map spt_value acc) then acc
                        else acc @ [\<lparr>spt_key = fp_key p, spt_value = fp_value p, spt_label = fp_label p\<rparr>])
         [] (filter (\<lambda>p. fp_key p \<noteq> ''care_type'') ps))"

text \<open>\<open>order\<close> is the order in which Go happens to iterate over the set of age ranges.\<close>

definition extract_occupancy_structure ::
    "((int \<times> int) list \<Rightarrow> (int \<times> int) list) \<Rightarrow> funding_period list \<Rightarrow>
      (age_group list \<times> care_type list \<times> supplement_type list) option" where
  "extract_occupancy_structure order periods =
     (case periods of
        [] \<Rightarrow> Some ([], [], [])
      | p0 # ps \<Rightarrow>
          (let props = gp_properties (latest_period p0 ps)
           in map_option
                (\<lambda>groups. (sort_key ag_min groups, care_types_of props, supplement_types_of props))
                (all_some (map (\<lambda>(a, b).
                    map_option (\<lambda>l. \<lparr>ag_label = l, ag_min = a, ag_max = b\<rparr>) (format_age_group_label a b))
                  (order (age_ranges props))))))"

definition pick_care_type :: "properties \<Rightarrow> string" where
  "pick_care_type props =
     (let vs = foldl (\<lambda>acc v. if v = [] \<or> v \<in> set acc then acc else acc @ [v]) []
                 (get_all_values props ''care_type'')
      in if vs = [] then [] else if 1 < length vs then hd (sort vs) else hd vs)"

record occupancy_point =
  op_date :: string
  op_total :: int
  op_cells :: "(string \<times> (string \<times> int) list) list"
  op_supplements :: "(string \<times> int) list"
  op_unmatched :: int

definition occupancy_child ::
    "gtime \<Rightarrow> age_group list \<Rightarrow> string set \<Rightarrow> supplement_type list \<Rightarrow> occupancy_point \<Rightarrow> child \<Rightarrow>
      occupancy_point" where
  "occupancy_child date groups declared supplements p child =
     (case pick_active_child_contract (cd_contracts child) date of
        None \<Rightarrow> p
      | Some contract \<Rightarrow>
          (let age = funding_age_on_date (pn_birthdate child) date;
               label = find_age_group_label age groups;
               care = pick_care_type (c_props contract);
               p1 = p\<lparr>op_total := op_total p + 1\<rparr>;
               p2 = (if label \<noteq> [] \<and> care \<in> declared
                     then p1\<lparr>op_cells := alist_add label [(care, 1)]
                                (\<lambda>inner _. alist_add care 1 (+) inner) (op_cells p1)\<rparr>
                     else p1\<lparr>op_unmatched := op_unmatched p1 + 1\<rparr>)
           in foldl (\<lambda>q st. if has_value (c_props contract) (spt_key st) (spt_value st)
                            then q\<lparr>op_supplements := alist_add (spt_value st) 1 (+) (op_supplements q)\<rparr>
                            else q) p2 supplements))"

definition empty_cells :: "age_group list \<Rightarrow> (string \<times> (string \<times> int) list) list" where
  "empty_cells groups = foldl (\<lambda>m g. alist_add (ag_label g) [] (\<lambda>_ v. v) m) [] groups"

definition occupancy_point_of ::
    "age_group list \<Rightarrow> string set \<Rightarrow> supplement_type list \<Rightarrow> child list \<Rightarrow> gtime \<Rightarrow> occupancy_point" where
  "occupancy_point_of groups declared supplements children date =
     foldl (occupancy_child date groups declared supplements)
       \<lparr>op_date = format_date date, op_total = 0, op_cells = empty_cells groups,
        op_supplements = [], op_unmatched = 0\<rparr> children"

definition calculate_occupancy ::
    "((int \<times> int) list \<Rightarrow> (int \<times> int) list) \<Rightarrow> child list \<Rightarrow> funding_period list \<Rightarrow> gtime \<Rightarrow> gtime \<Rightarrow>
      (age_group list \<times> care_type list \<times> supplement_type list \<times> occupancy_point list) option" where
  "calculate_occupancy order children periods start end_date =
     map_option
       (\<lambda>(groups, cares, supplements).
         let declared = {v \<in> set (map ctp_value cares). v \<noteq> []}
         in (groups, cares, supplements,
             map (occupancy_point_of groups declared supplements children) (month_dates start end_date)))
       (extract_occupancy_structure order periods)"

section \<open>Age distribution\<close>

record age_bucket =
  ab_label :: string
  ab_min :: int
  ab_max :: "int option"
  ab_count :: int
  ab_male :: int
  ab_female :: int
  ab_diverse :: int
  ab_unknown :: int

definition new_bucket :: "string \<Rightarrow> int \<Rightarrow> int option \<Rightarrow> age_bucket" where
  "new_bucket l lo hi = \<lparr>ab_label = l, ab_min = lo, ab_max = hi, ab_count = 0, ab_male = 0,
     ab_female = 0, ab_diverse = 0, ab_unknown = 0\<rparr>"

definition age_buckets :: "age_bucket list" where
  "age_buckets = [new_bucket ''0'' 0 (Some 0), new_bucket ''1'' 1 (Some 1), new_bucket ''2'' 2 (Some 2),
     new_bucket ''3'' 3 (Some 3), new_bucket ''4'' 4 (Some 4), new_bucket ''5'' 5 (Some 5),
     new_bucket ''6+'' 6 None]"

definition bucket_matches :: "age_bucket \<Rightarrow> int \<Rightarrow> bool" where
  "bucket_matches b age =
     (case ab_max b of None \<Rightarrow> ab_min b \<le> age | Some hi \<Rightarrow> ab_min b \<le> age \<and> age \<le> hi)"

definition count_in_bucket :: "string \<Rightarrow> age_bucket \<Rightarrow> age_bucket" where
  "count_in_bucket gender b =
     (let b1 = b\<lparr>ab_count := ab_count b + 1\<rparr>
      in if gender = ''male'' then b1\<lparr>ab_male := ab_male b1 + 1\<rparr>
         else if gender = ''female'' then b1\<lparr>ab_female := ab_female b1 + 1\<rparr>
         else if gender = ''diverse'' then b1\<lparr>ab_diverse := ab_diverse b1 + 1\<rparr>
         else b1\<lparr>ab_unknown := ab_unknown b1 + 1\<rparr>)"

fun count_age :: "int \<Rightarrow> string \<Rightarrow> age_bucket list \<Rightarrow> age_bucket list" where
  "count_age age gender [] = []"
| "count_age age gender (b # bs) =
     (if bucket_matches b age then count_in_bucket gender b # bs else b # count_age age gender bs)"

definition count_child_age ::
    "gtime \<Rightarrow> int \<times> age_bucket list \<Rightarrow> child \<Rightarrow> int \<times> age_bucket list" where
  "count_child_age date acc child =
     (case acc of (n, buckets) \<Rightarrow>
       if pick_active_child_contract (cd_contracts child) date = None then (n, buckets)
       else (n + 1,
             count_age (calculate_age_on_date (pn_birthdate child) date) (pn_gender child) buckets))"

definition calculate_age_distribution ::
    "child list \<Rightarrow> gtime \<Rightarrow> string \<times> int \<times> age_bucket list" where
  "calculate_age_distribution children date =
     (let (total, buckets) = foldl (count_child_age date) (0, age_buckets) children
      in (format_date date, total, buckets))"

section \<open>Distribution of properties\<close>

record property_count =
  pc_key :: string
  pc_value :: string
  pc_label :: string
  pc_count :: int

definition build_funding_label_map :: "funding_period list \<Rightarrow> (string \<times> string) list" where
  "build_funding_label_map periods =
     foldl (\<lambda>m p. if fp_label p = [] then m
                   else alist_add (kv_key (fp_key p) (fp_value p)) (fp_label p) (\<lambda>old _. old) m)
       [] (concat (map gp_properties periods))"

definition count_key_values ::
    "(string \<times> (string \<times> int) list) list \<Rightarrow> properties \<Rightarrow> (string \<times> (string \<times> int) list) list" where
  "count_key_values counts props =
     foldl (\<lambda>m (k, v). alist_add k [(v, 1)] (\<lambda>inner _. alist_add v 1 (+) inner) m)
       counts (get_all_contract_key_values props)"

definition calculate_properties_distribution ::
    "child list \<Rightarrow> funding_period list \<Rightarrow> gtime \<Rightarrow> string \<times> int \<times> property_count list" where
  "calculate_properties_distribution children periods date =
     (let labels = build_funding_label_map periods;
          (total, counts) =
            foldl (\<lambda>(total, counts) child.
                case pick_active_child_contract (cd_contracts child) date of
                  None \<Rightarrow> (total, counts)
                | Some contract \<Rightarrow> (total + 1, count_key_values counts (c_props contract)))
              (0, []) children
      in (format_date date, total,
          concat (map (\<lambda>(k, inner).
              map (\<lambda>(v, n). \<lparr>pc_key = k, pc_value = v,
                     pc_label = (case map_of labels (kv_key k v) of None \<Rightarrow> [] | Some l \<Rightarrow> l), pc_count = n\<rparr>)
                (sort_key fst inner))
            (sort_key fst counts))))"

section \<open>Funding of all children\<close>

record child_funding_row =
  cfr_child :: nat
  cfr_name :: string
  cfr_age :: int
  cfr_funding :: child_funding

definition calculate_funding ::
    "child list \<Rightarrow> funding_period list \<Rightarrow> gtime \<Rightarrow> gtime \<times> f64 \<times> child_funding_row list" where
  "calculate_funding children periods date =
     (let period = find_period_for_date periods date
      in (date, case period of None \<Rightarrow> Fin 0 | Some p \<Rightarrow> gp_full_time_hours p,
          concat (map (\<lambda>child.
              case pick_active_child_contract (cd_contracts child) date of
                None \<Rightarrow> []
              | Some c \<Rightarrow>
                  [\<lparr>cfr_child = pn_id child,
                    cfr_name = pn_first_name child @ '' '' @ pn_last_name child,
                    cfr_age = calculate_age_on_date (pn_birthdate child) date,
                    cfr_funding = calculate_child_funding
                      (funding_age_on_date (pn_birthdate child) date) (c_props c) period\<rparr>]) children)))"

end
