(* ===== verification/StatisticsLaws.thy ===== *)
theory StatisticsLaws
  imports Statistics "HOL-Library.Multiset"
begin

text \<open>
  Properties of the calculators: the pickers do not depend on the order of the rows, the
  breakdowns of every response add up to its totals, and no salary is left out silently.
\<close>

section \<open>Pickers\<close>

definition candidates :: "('a \<Rightarrow> bool) \<Rightarrow> 'a option \<Rightarrow> 'a list \<Rightarrow> 'a set" where
  "candidates act best cs = set_option best \<union> {c \<in> set cs. act c}"

definition not_later :: "('a \<Rightarrow> gtime) \<Rightarrow> ('a \<Rightarrow> nat) \<Rightarrow> 'a \<Rightarrow> 'a \<Rightarrow> bool" where
  "not_later start ident c b \<longleftrightarrow>
     instant (start c) < instant (start b) \<or>
     instant (start c) = instant (start b) \<and> ident c \<le> ident b"

lemma not_later_trans:
  "not_later start ident a b \<Longrightarrow> not_later start ident b c \<Longrightarrow> not_later start ident a c"
  by (auto simp add: not_later_def)

lemma pick_latest_spec:
  "case pick_latest act start ident best cs of
     None \<Rightarrow> candidates act best cs = {}
   | Some b \<Rightarrow> b \<in> candidates act best cs \<and>
       (\<forall>c \<in> candidates act best cs. not_later start ident c b)"
proof (induction cs arbitrary: best)
  case Nil
  then show ?case by (cases best) (auto simp add: candidates_def not_later_def)
next
  case (Cons c cs)
  show ?case
  proof (cases "act c")
    case False
    then have "candidates act best (c # cs) = candidates act best cs" by (auto simp add: candidates_def)
    then show ?thesis using False Cons [of best] by (simp only: pick_latest.simps if_True simp_thms)
  next
    case True
    show ?thesis
    proof (cases best)
      case None
      then have "candidates act best (c # cs) = candidates act (Some c) cs"
        using True by (auto simp add: candidates_def)
      then show ?thesis using None True Cons [of "Some c"]
        by (simp only: pick_latest.simps if_False simp_thms option.case)
    next
      case (Some b)
      define win where "win \<longleftrightarrow> after (start c) (start b) \<or>
          equal_time (start c) (start b) \<and> ident b < ident c"
      define w where "w = (if win then c else b)"
      define l where "l = (if win then b else c)"
      have lw: "not_later start ident l w"
        by (auto simp add: l_def w_def win_def not_later_def after_def equal_time_def)
      have cand: "candidates act best (c # cs) = insert l (candidates act (Some w) cs)"
        using True Some by (auto simp add: candidates_def l_def w_def)
      have step: "pick_latest act start ident best (c # cs) = pick_latest act start ident (Some w) cs"
        using True Some by (simp add: w_def win_def)
      have ne: "candidates act (Some w) cs \<noteq> {}" by (simp add: candidates_def)
      have "w \<in> candidates act (Some w) cs" by (simp add: candidates_def)
      then show ?thesis using Cons [of "Some w"] ne not_later_trans [OF lw] unfolding step cand
        by (auto split: option.splits)
    qed
  qed
qed

lemma pick_latest_None: "pick_latest act start ident None cs = None \<longleftrightarrow> (\<forall>c \<in> set cs. \<not> act c)"
  using pick_latest_spec [where best = None and act = act and start = start and ident = ident and cs = cs]
  by (cases "pick_latest act start ident None cs") (auto simp add: candidates_def)

lemma pick_latest_Some:
  "pick_latest act start ident None cs = Some b \<Longrightarrow>
    b \<in> set cs \<and> act b \<and> (\<forall>c \<in> set cs. act c \<longrightarrow> not_later start ident c b)"
  using pick_latest_spec [where best = None and act = act and start = start and ident = ident and cs = cs]
  by (simp add: candidates_def)

lemma pick_latest_cong:
  assumes "set cs = set ds" and "inj_on ident (set cs)"
  shows "pick_latest act start ident None cs = pick_latest act start ident None ds"
proof (cases "pick_latest act start ident None cs")
  case None
  then have "pick_latest act start ident None ds = None" using assms(1) by (simp add: pick_latest_None)
  with None show ?thesis by simp
next
  case (Some b)
  then have "pick_latest act start ident None ds \<noteq> None"
    using assms(1) pick_latest_Some [OF Some] by (auto simp add: pick_latest_None)
  then obtain b' where b': "pick_latest act start ident None ds = Some b'" by blast
  note p = pick_latest_Some [OF Some] and q = pick_latest_Some [OF b']
  then have "not_later start ident b b'" "not_later start ident b' b" using assms(1) by auto
  then have "ident b = ident b'" by (auto simp add: not_later_def)
  then show ?thesis using Some b' p q assms by (auto dest: inj_onD)
qed

section \<open>Sums over accumulated maps\<close>

text \<open>With modulus 0 this is plain equality.\<close>

lemma sum_alist_add:
  fixes g :: "'v \<Rightarrow> int"
  assumes "distinct (map fst m)" and "\<And>w. (k, w) \<in> set m \<Longrightarrow> g (f w v) mod M = (g w + d) mod M"
    and "g v mod M = d mod M"
  shows "sum_list (map (\<lambda>(_, x). g x) (alist_add k v f m)) mod M
    = (sum_list (map (\<lambda>(_, x). g x) m) + d) mod M"
proof (cases "map_of m k")
  case None
  then show ?thesis using mod_add_cong [OF refl assms(3)] by (simp add: alist_add_def)
next
  case (Some w)
  then have "(k, w) \<in> set m" by (rule map_of_SomeD)
  then show ?thesis using assms(1,2) Some
  proof (induction m)
    case (Cons p m)
    obtain k' w' where p: "p = (k', w')" by (cases p)
    define upd where "upd = map (\<lambda>(k', w'). if k' = k then (k', f w' v) else (k', w'))"
    have step: "alist_add k v f ((k', w') # m) = upd ((k', w') # m)"
      using Cons.prems(4) p by (simp add: alist_add_def upd_def)
    show ?case
    proof (cases "k' = k")
      case True
      then have "k \<notin> fst ` set m" using Cons.prems(2) p by simp
      then have "upd m = m" unfolding upd_def by (intro map_idI) force
      moreover have "g (f w' v) mod M = (g w' + d) mod M" using Cons.prems(3) p True by simp
      then have "(g (f w' v) + S) mod M = (g w' + d + S) mod M" for S by (rule mod_add_cong) simp
      from this [of "sum_list (map (\<lambda>(_, x). g x) m)"]
      have "(g (f w' v) + sum_list (map (\<lambda>(_, x). g x) m)) mod M
          = (g w' + sum_list (map (\<lambda>(_, x). g x) m) + d) mod M" by (simp only: ac_simps)
      ultimately show ?thesis using True unfolding p step by (simp add: upd_def)
    next
      case False
      have m: "map_of m k = Some w" using Cons.prems(4) p False by simp
      then have "(k, w) \<in> set m" by (rule map_of_SomeD)
      moreover have "alist_add k v f m = upd m" using m by (simp add: alist_add_def upd_def)
      ultimately have "sum_list (map (\<lambda>(_, x). g x) (upd m)) mod M
          = (sum_list (map (\<lambda>(_, x). g x) m) + d) mod M"
        using Cons.IH Cons.prems(2,3) m by simp
      then have "(S + sum_list (map (\<lambda>(_, x). g x) (upd m))) mod M
          = (S + (sum_list (map (\<lambda>(_, x). g x) m) + d)) mod M" for S
        by (intro mod_add_cong) simp_all
      then show ?thesis using False unfolding p step by (simp add: upd_def add.assoc)
    qed
  qed simp
qed

lemma sum_alist_add_eq:
  fixes g :: "'v \<Rightarrow> int"
  assumes "distinct (map fst m)" and "\<And>w. (k, w) \<in> set m \<Longrightarrow> g (f w v) = g w + d" and "g v = d"
  shows "sum_list (map (\<lambda>(_, x). g x) (alist_add k v f m)) = sum_list (map (\<lambda>(_, x). g x) m) + d"
  using sum_alist_add [of m k g f v 0 d] assms by simp

lemma alist_add_all:
  assumes "\<And>w. (k, w) \<in> set m \<Longrightarrow> P (f w v)" and "P v" and "\<forall>(_, x) \<in> set m. P x"
  shows "\<forall>(_, x) \<in> set (alist_add k v f m). P x"
  using assms by (fastforce simp add: alist_add_def split: option.splits if_splits)

text \<open>
  Which contract of a child counts on a date does not depend on the order in which the
  database returns the rows, as long as their ids differ; it is an active contract with the
  latest start, and there is none only if no contract is active.
\<close>
lemma pick_active_order_independent:
  assumes "set cs = set ds" and "inj_on c_id (set cs)"
  shows "pick_active_child_contract cs date = pick_active_child_contract ds date \<and>
    (case pick_active_child_contract cs date of
       None \<Rightarrow> \<forall>c \<in> set cs. \<not> is_active_on (contract_period c) date
     | Some b \<Rightarrow> b \<in> set cs \<and> is_active_on (contract_period b) date \<and>
         (\<forall>c \<in> set cs. is_active_on (contract_period c) date \<longrightarrow> instant (c_from c) \<le> instant (c_from b)))"
proof (intro conjI)
  show "pick_active_child_contract cs date = pick_active_child_contract ds date"
    using pick_latest_cong [OF assms] by (simp add: pick_active_child_contract_def)
  show "case pick_active_child_contract cs date of
       None \<Rightarrow> \<forall>c \<in> set cs. \<not> is_active_on (contract_period c) date
     | Some b \<Rightarrow> b \<in> set cs \<and> is_active_on (contract_period b) date \<and>
         (\<forall>c \<in> set cs. is_active_on (contract_period c) date \<longrightarrow> instant (c_from c) \<le> instant (c_from b))"
  proof (cases "pick_active_child_contract cs date")
    case None
    then have "\<forall>c \<in> set cs. \<not> is_active_on (contract_period c) date"
      by (simp add: pick_active_child_contract_def pick_latest_None)
    then show ?thesis unfolding None by simp
  next
    case (Some b)
    show ?thesis using pick_latest_Some [OF Some [unfolded pick_active_child_contract_def]]
      unfolding Some by (auto simp add: not_later_def)
  qed
qed

definition ex_contract :: "nat \<Rightarrow> int \<Rightarrow> child_contract" where
  "ex_contract i f = \<lparr>c_id = i, c_owner = 1, c_from = midnight f, c_to = None, c_section = 1,
     c_props = Some [(''care_type'', PString ''full'')], c_version = 1\<rparr>"

lemma pick_active_order_independent_witness:
  "pick_active_child_contract [ex_contract 1 100, ex_contract 2 50] (midnight 200)
    = pick_active_child_contract [ex_contract 2 50, ex_contract 1 100] (midnight 200)"
  by (intro pick_active_order_independent [THEN conjunct1]) (auto simp add: ex_contract_def)

section \<open>Occupancy\<close>

definition cell_sum :: "(string \<times> (string \<times> int) list) list \<Rightarrow> int" where
  "cell_sum cells = sum_list (map (\<lambda>(_, inner). sum_list (map (\<lambda>(_, n). n) inner)) cells)"

definition cells_ok :: "string set \<Rightarrow> string set \<Rightarrow> (string \<times> (string \<times> int) list) list \<Rightarrow> bool" where
  "cells_ok labels declared cells \<longleftrightarrow>
     distinct (map fst cells) \<and> fst ` set cells \<subseteq> labels \<and>
     (\<forall>(_, inner) \<in> set cells. distinct (map fst inner) \<and> fst ` set inner \<subseteq> declared)"

lemma fst_set_alist_add: "fst ` set (alist_add k v f m) = insert k (fst ` set m)"
  by (simp only: set_map [symmetric] map_fst_alist_add) auto

lemma find_age_group_label_in: "find_age_group_label age gs \<noteq> [] \<Longrightarrow> find_age_group_label age gs \<in> ag_label ` set gs"
  by (induction gs) auto

lemma add_cell:
  assumes "cells_ok labels declared cells" and "label \<in> labels" and "care \<in> declared"
  defines "cells' \<equiv> alist_add label [(care, 1)] (\<lambda>inner _. alist_add care 1 (+) inner) cells"
  shows "cells_ok labels declared cells'" and "cell_sum cells' = cell_sum cells + 1"
proof -
  have d: "distinct (map fst cells)" and l: "fst ` set cells \<subseteq> labels"
      and all: "\<forall>(_, i) \<in> set cells. distinct (map fst i) \<and> fst ` set i \<subseteq> declared"
    using assms(1) by (simp_all add: cells_ok_def)
  have inner: "distinct (map fst i)" "fst ` set i \<subseteq> declared" if "(k, i) \<in> set cells" for k i
    using bspec [OF all that] by simp_all
  have "\<forall>(_, i) \<in> set cells'. distinct (map fst i) \<and> fst ` set i \<subseteq> declared"
    unfolding cells'_def
  proof (rule alist_add_all)
    show "\<forall>(_, i) \<in> set cells. distinct (map fst i) \<and> fst ` set i \<subseteq> declared" by (rule all)
    show "distinct (map fst (alist_add care 1 (+) w)) \<and> fst ` set (alist_add care 1 (+) w) \<subseteq> declared"
      if "(label, w) \<in> set cells" for w
      using inner [OF that] assms(3) by (simp add: distinct_alist_add fst_set_alist_add)
  qed (use assms(3) in simp)
  then show "cells_ok labels declared cells'"
    using distinct_alist_add [OF d] l assms(2)
    by (simp add: cells_ok_def cells'_def fst_set_alist_add)
  show "cell_sum cells' = cell_sum cells + 1"
    unfolding cell_sum_def cells'_def
  proof (rule sum_alist_add_eq [OF d])
    fix w assume "(label, w) \<in> set cells"
    then have "distinct (map fst w)" by (rule inner(1))
    then show "sum_list (map (\<lambda>(_, n). n) (alist_add care 1 (+) w)) = sum_list (map (\<lambda>(_, n). n) w) + 1"
      by (rule sum_alist_add_eq) simp_all
  qed simp
qed

definition point_ok :: "string set \<Rightarrow> string set \<Rightarrow> occupancy_point \<Rightarrow> bool" where
  "point_ok labels declared p \<longleftrightarrow>
     cells_ok labels declared (op_cells p) \<and> cell_sum (op_cells p) + op_unmatched p = op_total p"

lemma supplements_keep:
  "op_cells (foldl (\<lambda>q st. if P st then q\<lparr>op_supplements := g st q\<rparr> else q) p sts) = op_cells p"
  "op_unmatched (foldl (\<lambda>q st. if P st then q\<lparr>op_supplements := g st q\<rparr> else q) p sts) = op_unmatched p"
  "op_total (foldl (\<lambda>q st. if P st then q\<lparr>op_supplements := g st q\<rparr> else q) p sts) = op_total p"
  by (induction sts arbitrary: p) simp_all

lemma occupancy_child_ok:
  assumes "point_ok (ag_label ` set groups) declared p"
  shows "point_ok (ag_label ` set groups) declared (occupancy_child date groups declared supplements p child)"
proof (cases "pick_active_child_contract (cd_contracts child) date")
  case (Some c)
  define label where "label = find_age_group_label (funding_age_on_date (pn_birthdate child) date) groups"
  define care where "care = pick_care_type (c_props c)"
  define p2 where "p2 = (let p1 = p\<lparr>op_total := op_total p + 1\<rparr> in
      if label \<noteq> [] \<and> care \<in> declared
      then p1\<lparr>op_cells := alist_add label [(care, 1)] (\<lambda>inner _. alist_add care 1 (+) inner) (op_cells p1)\<rparr>
      else p1\<lparr>op_unmatched := op_unmatched p1 + 1\<rparr>)"
  have ok: "cells_ok (ag_label ` set groups) declared (op_cells p)"
      "cell_sum (op_cells p) + op_unmatched p = op_total p"
    using assms by (simp_all add: point_ok_def)
  have "point_ok (ag_label ` set groups) declared p2"
  proof (cases "label \<noteq> [] \<and> care \<in> declared")
    case True
    then have "label \<in> ag_label ` set groups" using find_age_group_label_in by (simp add: label_def)
    note c = add_cell [OF ok(1) this] True
    then show ?thesis using ok(2) by (simp add: p2_def point_ok_def Let_def)
  next
    case False
    then have "p2 = p\<lparr>op_total := op_total p + 1, op_unmatched := op_unmatched p + 1\<rparr>"
      unfolding p2_def Let_def by (simp only: if_False) simp
    then show ?thesis using ok by (simp add: point_ok_def)
  qed
  moreover have "occupancy_child date groups declared supplements p child
      = foldl (\<lambda>q st. if has_value (c_props c) (spt_key st) (spt_value st)
          then q\<lparr>op_supplements := alist_add (spt_value st) 1 (+) (op_supplements q)\<rparr> else q) p2 supplements"
    by (simp add: occupancy_child_def Some p2_def label_def care_def Let_def)
  ultimately show ?thesis by (simp add: point_ok_def supplements_keep)
qed (use assms in \<open>simp add: occupancy_child_def\<close>)

lemma cell_sum_empty: "\<forall>(_, i) \<in> set m. i = [] \<Longrightarrow> cell_sum m = 0"
  by (induction m) (auto simp add: cell_sum_def)

lemma empty_cells_ok: "cells_ok (ag_label ` set groups) declared (empty_cells groups) \<and> cell_sum (empty_cells groups) = 0"
proof -
  have "cells_ok L declared m \<and> cell_sum m = 0 \<and> (\<forall>(_, i) \<in> set m. i = []) \<Longrightarrow> ag_label ` set gs \<subseteq> L \<Longrightarrow>
      cells_ok L declared (foldl (\<lambda>m g. alist_add (ag_label g) [] (\<lambda>_ v. v) m) m gs) \<and>
      cell_sum (foldl (\<lambda>m g. alist_add (ag_label g) [] (\<lambda>_ v. v) m) m gs) = 0" for L m and gs :: "age_group list"
  proof (induction gs arbitrary: m)
    case (Cons g gs)
    let ?m = "alist_add (ag_label g) [] (\<lambda>_ v. v) m"
    have e: "\<forall>(_, i) \<in> set ?m. i = []" using Cons.prems(1) by (intro alist_add_all) auto
    then have z: "cell_sum ?m = 0" by (rule cell_sum_empty)
    have "cells_ok L declared ?m"
      using Cons.prems e by (fastforce simp add: cells_ok_def fst_set_alist_add intro: distinct_alist_add)
    then show ?case using Cons.IH [of ?m] Cons.prems(2) e z by simp
  qed simp
  from this [of "ag_label ` set groups" "[]" groups] show ?thesis
    by (simp add: empty_cells_def cells_ok_def cell_sum_def)
qed

text \<open>
  C12. In every month of the occupancy matrix, for every order Go may iterate its maps in, the
  cells add up, with the unmatched children, to the total; and every cell lies in a row and a
  column the response lists.
\<close>
lemma occupancy_adds_up:
  assumes "calculate_occupancy order children periods start end_date
      = Some (groups, cares, supplements, points)" and "p \<in> set points"
  shows "sum_list (map (\<lambda>(_, inner). sum_list (map (\<lambda>(_, n). n) inner)) (op_cells p)) + op_unmatched p
      = op_total p \<and>
    (\<forall>(label, inner) \<in> set (op_cells p). label \<in> set (map ag_label groups) \<and>
       fst ` set inner \<subseteq> set (map ctp_value cares))"
proof -
  obtain declared date where d: "declared \<subseteq> set (map ctp_value cares)"
      and p: "p = occupancy_point_of groups declared supplements children date"
  proof -
    let ?D = "{v \<in> set (map ctp_value cares). v \<noteq> []}"
    have "points = map (occupancy_point_of groups ?D supplements children) (month_dates start end_date)"
      using assms(1) by (auto simp add: calculate_occupancy_def Let_def)
    then obtain date where "p = occupancy_point_of groups ?D supplements children date"
      using assms(2) by auto
    moreover have "?D \<subseteq> set (map ctp_value cares)" by blast
    ultimately show thesis using that by blast
  qed
  have "point_ok (ag_label ` set groups) declared
      (foldl (occupancy_child date groups declared supplements) q cs)"
    if "point_ok (ag_label ` set groups) declared q" for q cs
    using that by (induction cs arbitrary: q) (auto intro: occupancy_child_ok)
  then have "point_ok (ag_label ` set groups) declared p"
    unfolding p occupancy_point_of_def using empty_cells_ok by (simp add: point_ok_def)
  then have ok: "cells_ok (ag_label ` set groups) declared (op_cells p)"
      "cell_sum (op_cells p) + op_unmatched p = op_total p" by (simp_all add: point_ok_def)
  have "label \<in> set (map ag_label groups) \<and> fst ` set inner \<subseteq> set (map ctp_value cares)"
    if "(label, inner) \<in> set (op_cells p)" for label inner
  proof -
    have "\<forall>(_, i) \<in> set (op_cells p). distinct (map fst i) \<and> fst ` set i \<subseteq> declared"
        and l: "fst ` set (op_cells p) \<subseteq> ag_label ` set groups"
      using ok(1) by (simp_all add: cells_ok_def)
    from bspec [OF this(1) that] have "fst ` set inner \<subseteq> declared" by simp
    from subset_trans [OF this d] have "fst ` set inner \<subseteq> set (map ctp_value cares)" .
    moreover have "label \<in> ag_label ` set groups" using l that by force
    ultimately show ?thesis by simp
  qed
  then have "case x of (label, inner) \<Rightarrow> label \<in> set (map ag_label groups) \<and>
      fst ` set inner \<subseteq> set (map ctp_value cares)" if "x \<in> set (op_cells p)" for x
    using that by (cases x) simp
  then show ?thesis using ok(2) unfolding cell_sum_def by blast
qed

definition ex_kid :: "nat \<Rightarrow> int \<Rightarrow> string \<Rightarrow> child" where
  "ex_kid i born gender = \<lparr>pn_id = i, pn_org = 1, pn_first_name = ''A'', pn_last_name = ''B'',
     pn_gender = gender, pn_birthdate = midnight born, cd_contracts = [ex_contract i 100]\<rparr>"

lemma occupancy_adds_up_witness:
  "op_unmatched (occupancy_point_of [] {} [] [ex_kid 1 0 ''male''] (midnight 200)) = 1"
proof -
  let ?d = "midnight 200"
  have m: "month_dates ?d ?d = [?d]"
    using add_month_later [of ?d]
    by (simp add: month_dates.simps [of ?d] month_dates.simps [of "add_date ?d 0 1 0"] after_def)
  have c: "calculate_occupancy id [ex_kid 1 0 ''male''] [] ?d ?d
      = Some ([], [], [], [occupancy_point_of [] {} [] [ex_kid 1 0 ''male''] ?d])"
    by (simp add: calculate_occupancy_def extract_occupancy_structure_def m)
  have "op_total (occupancy_point_of [] {} [] [ex_kid 1 0 ''male''] ?d) = 1 \<and>
      op_cells (occupancy_point_of [] {} [] [ex_kid 1 0 ''male''] ?d) = []"
    by (simp add: occupancy_point_of_def occupancy_child_def ex_kid_def pick_active_child_contract_def
        ex_contract_def contract_period_def is_active_on_def truncate_to_date_eq empty_cells_def Let_def)
  then show ?thesis using occupancy_adds_up [OF c, of "occupancy_point_of [] {} [] [ex_kid 1 0 ''male''] ?d"]
    by simp
qed

section \<open>Age distribution\<close>

definition bucket_ok :: "age_bucket \<Rightarrow> bool" where
  "bucket_ok b \<longleftrightarrow> ab_count b = ab_male b + ab_female b + ab_diverse b + ab_unknown b"

definition ranges :: "age_bucket list \<Rightarrow> (int \<times> int option) list" where
  "ranges bs = map (\<lambda>b. (ab_min b, ab_max b)) bs"

lemma count_in_bucket_simps [simp]:
  "ab_min (count_in_bucket g b) = ab_min b" "ab_max (count_in_bucket g b) = ab_max b"
  "ab_count (count_in_bucket g b) = ab_count b + 1" "bucket_ok (count_in_bucket g b) = bucket_ok b"
  by (auto simp add: count_in_bucket_def Let_def bucket_ok_def)

lemma count_age_keeps:
  "ranges (count_age age g bs) = ranges bs"
  "\<forall>b \<in> set bs. bucket_ok b \<Longrightarrow> \<forall>b \<in> set (count_age age g bs). bucket_ok b"
  "(\<exists>b \<in> set bs. bucket_matches b age) \<Longrightarrow>
    sum_list (map ab_count (count_age age g bs)) = sum_list (map ab_count bs) + 1"
  by (induction bs) (auto simp add: ranges_def)

lemma some_bucket:
  assumes "ranges bs = ranges age_buckets" and "0 \<le> age"
  shows "\<exists>b \<in> set bs. bucket_matches b age"
proof -
  have "\<exists>r \<in> set (ranges age_buckets). case snd r of None \<Rightarrow> fst r \<le> age
      | Some hi \<Rightarrow> fst r \<le> age \<and> age \<le> hi"
    using assms(2) by (simp add: ranges_def age_buckets_def new_bucket_def) arith
  then obtain r where r: "r \<in> set (ranges bs)"
      "case snd r of None \<Rightarrow> fst r \<le> age | Some hi \<Rightarrow> fst r \<le> age \<and> age \<le> hi"
    unfolding assms(1) by blast
  then obtain b where "b \<in> set bs" "r = (ab_min b, ab_max b)" by (auto simp add: ranges_def)
  then show ?thesis using r(2)
    by (intro bexI [of _ b]) (cases "ab_max b"; simp add: bucket_matches_def)+
qed

lemma calculate_age_nonneg: "0 \<le> calculate_age_on_date b d"
  by (simp add: calculate_age_on_date_def Let_def)

definition ages_ok :: "int \<Rightarrow> int \<times> age_bucket list \<Rightarrow> bool" where
  "ages_ok n acc \<longleftrightarrow> ranges (snd acc) = ranges age_buckets \<and> (\<forall>b \<in> set (snd acc). bucket_ok b) \<and>
     fst acc = sum_list (map ab_count (snd acc)) \<and> fst acc = n"

lemma count_child_age_ok:
  assumes "ages_ok n acc"
  shows "ages_ok (n + (if pick_active_child_contract (cd_contracts c) date = None then 0 else 1))
    (count_child_age date acc c)"
  using assms count_age_keeps [where bs = "snd acc"]
    some_bucket [of "snd acc", OF _ calculate_age_nonneg [of "pn_birthdate c" date]]
  by (cases acc) (simp add: count_child_age_def ages_ok_def)

lemma count_children_age_ok:
  assumes "ages_ok n acc"
  shows "ages_ok (n + int (length (filter (\<lambda>c. pick_active_child_contract (cd_contracts c) date \<noteq> None) cs)))
    (foldl (count_child_age date) acc cs)"
  using assms
proof (induction cs arbitrary: n acc)
  case (Cons c cs)
  from Cons.IH [OF count_child_age_ok [OF Cons.prems, of c date]] show ?case
    by (cases "pick_active_child_contract (cd_contracts c) date") (simp_all add: add.assoc)
qed simp

text \<open>
  Every child with an active contract is counted in exactly one age bucket, and in each
  bucket the counts by gender, with the unknown ones, add up to its count.
\<close>
lemma age_distribution_adds_up:
  "let (_, total, buckets) = calculate_age_distribution children date
   in total = sum_list (map ab_count buckets) \<and>
      total = int (length (filter (\<lambda>c. pick_active_child_contract (cd_contracts c) date \<noteq> None) children)) \<and>
      list_all (\<lambda>b. ab_count b = ab_male b + ab_female b + ab_diverse b + ab_unknown b) buckets"
proof -
  have "ages_ok 0 (0, age_buckets)"
    by (simp add: ages_ok_def age_buckets_def new_bucket_def bucket_ok_def)
  from count_children_age_ok [OF this, of date children] show ?thesis
    by (simp add: calculate_age_distribution_def split_beta Let_def list_all_iff bucket_ok_def ages_ok_def)
qed

section \<open>Financial breakdowns\<close>

lemma sum_list_sort_key: "sum_list (map (g :: 'a \<Rightarrow> int) (sort_key f xs)) = sum_list (map g xs)"
proof -
  have "mset (map g (sort_key f xs)) = mset (map g xs)" by simp
  then show ?thesis by (metis sum_mset_sum_list)
qed

lemma s64_mod': "s64 x mod 18446744073709551616 = x mod 18446744073709551616"
  using s64_mod [of x] by simp

definition income_ok :: "child_totals \<Rightarrow> bool" where
  "income_ok t \<longleftrightarrow> distinct (map fst (ct_details t)) \<and> s64 (ct_income t) = ct_income t \<and>
     sum_list (map (\<lambda>(_, x). fst x) (ct_details t)) mod 2 ^ 64 = ct_income t mod 2 ^ 64"

lemma add_funding_match_ok:
  assumes "income_ok (snd acc)"
  shows "income_ok (snd (add_funding_match acc fp))"
proof -
  obtain e t where acc: "acc = (e, t)" by (cases acc)
  let ?f = "\<lambda>(a, _ :: string) _. (s64 (a + fp_payment fp), fp_label fp)"
  have d: "distinct (map fst (ct_details t))" using assms by (simp add: acc income_ok_def)
  have "sum_list (map (\<lambda>(_, x). fst x)
      (alist_add (kv_key (fp_key fp) (fp_value fp)) (s64 (fp_payment fp), fp_label fp) ?f (ct_details t)))
      mod 2 ^ 64 = (sum_list (map (\<lambda>(_, x). fst x) (ct_details t)) + fp_payment fp) mod 2 ^ 64"
    by (rule sum_alist_add [OF d]) (auto simp add: s64_mod')
  also have "\<dots> = (ct_income t + fp_payment fp) mod 2 ^ 64"
    using assms by (intro mod_add_cong) (simp_all add: acc income_ok_def)
  finally show ?thesis using distinct_alist_add [OF d]
    by (simp add: acc add_funding_match_def income_ok_def s64_mod')
qed

lemma child_month_ok:
  assumes "income_ok t"
  shows "income_ok (child_month date period t child)"
proof -
  have f: "income_ok (snd acc) \<Longrightarrow> income_ok (snd (foldl add_funding_match acc fps))" for acc fps
    by (induction fps arbitrary: acc) (simp_all add: add_funding_match_ok)
  show ?thesis
  proof (cases "pick_active_child_contract (cd_contracts child) date")
    case (Some c)
    have "income_ok (snd (False, t\<lparr>ct_count := ct_count t + 1\<rparr>))" using assms by (simp add: income_ok_def)
    from f [OF this] show ?thesis
      by (simp add: child_month_def Some Let_def split_beta) (simp add: income_ok_def)
  qed (use assms in \<open>simp add: child_month_def\<close>)
qed

definition payroll_ok :: "staff_totals \<Rightarrow> bool" where
  "payroll_ok t \<longleftrightarrow> distinct (map fst (st_by_category t)) \<and>
     s64 (st_gross t) = st_gross t \<and> s64 (st_employer t) = st_employer t \<and>
     sum_list (map (\<lambda>(_, x). fst x) (st_by_category t)) mod 2 ^ 64 = st_gross t mod 2 ^ 64 \<and>
     sum_list (map (\<lambda>(_, x). snd x) (st_by_category t)) mod 2 ^ 64 = st_employer t mod 2 ^ 64"

lemma employee_month_ok:
  assumes "payroll_ok t"
  shows "payroll_ok (employee_month wild plans date t emp)"
proof (cases "pick_active_employee_contract (em_contracts emp) date")
  case (Some ec)
  show ?thesis
  proof (cases "salary_of wild plans ec date")
    case (Inl r)
    then show ?thesis using assms by (simp add: employee_month_def Some Let_def payroll_ok_def)
  next
    case (Inr gc)
    obtain g c where gc: "gc = (g, c)" by (cases gc)
    let ?m = "st_by_category t" and ?f = "\<lambda>(a, b) _. (s64 (a + g), s64 (b + c))"
    have d: "distinct (map fst ?m)" using assms by (simp add: payroll_ok_def)
    let ?m' = "alist_add (ec_staff_category ec) (s64 g, s64 c) ?f ?m"
    have "sum_list (map (\<lambda>(_, x). fst x) ?m') mod 2 ^ 64
        = (sum_list (map (\<lambda>(_, x). fst x) ?m) + g) mod 2 ^ 64"
      by (rule sum_alist_add [OF d]) (auto simp add: s64_mod')
    also have "\<dots> = (st_gross t + g) mod 2 ^ 64"
      using assms by (intro mod_add_cong) (simp_all add: payroll_ok_def)
    finally have 1: "sum_list (map (\<lambda>(_, x). fst x) ?m') mod 2 ^ 64 = (st_gross t + g) mod 2 ^ 64" .
    have "sum_list (map (\<lambda>(_, x). snd x) ?m') mod 2 ^ 64
        = (sum_list (map (\<lambda>(_, x). snd x) ?m) + c) mod 2 ^ 64"
      by (rule sum_alist_add [OF d]) (auto simp add: s64_mod')
    also have "\<dots> = (st_employer t + c) mod 2 ^ 64"
      using assms by (intro mod_add_cong) (simp_all add: payroll_ok_def)
    finally show ?thesis using 1 distinct_alist_add [OF d]
      by (simp add: employee_month_def Some Inr gc Let_def payroll_ok_def s64_mod')
  qed
qed (use assms in \<open>simp add: employee_month_def\<close>)

definition budget_sum :: "bool \<Rightarrow> budget_detail list \<Rightarrow> int" where
  "budget_sum income ds = sum_list (map bd_amount (filter (\<lambda>d. (bd_category d = ''income'') = income) ds))"

definition budget_ok :: "budget_totals \<Rightarrow> bool" where
  "budget_ok t \<longleftrightarrow> bt_income t = s64 (budget_sum True (bt_details t)) \<and>
     bt_expenses t = s64 (budget_sum False (bt_details t))"

lemma budget_month_ok: "budget_ok t \<Longrightarrow> budget_ok (budget_month date n t item)"
  by (auto simp add: budget_month_def budget_ok_def budget_sum_def Let_def split: option.splits)

lemma foldl_keeps: "P acc \<Longrightarrow> (\<And>acc x. P acc \<Longrightarrow> P (f acc x)) \<Longrightarrow> P (foldl f acc xs)"
  by (induction xs arbitrary: acc) auto

lemma s64_from_mod: "s64 y = y \<Longrightarrow> x mod 2 ^ 64 = y mod 2 ^ 64 \<Longrightarrow> y = s64 x"
  using s64_cong by metis

lemma income_total:
  "income_ok t \<Longrightarrow> s64 (sum_list (map (\<lambda>(_, x). fst x) (ct_details t))) = ct_income t"
  unfolding income_ok_def using s64_from_mod [symmetric] by blast

lemma payroll_gross:
  "payroll_ok t \<Longrightarrow> s64 (sum_list (map (\<lambda>(_, x). fst x) (st_by_category t))) = st_gross t"
  unfolding payroll_ok_def using s64_from_mod [symmetric] by blast

lemma payroll_employer:
  "payroll_ok t \<Longrightarrow> s64 (sum_list (map (\<lambda>(_, x). snd x) (st_by_category t))) = st_employer t"
  unfolding payroll_ok_def using s64_from_mod [symmetric] by blast

lemma s64_balance: "s64 (s64 (a + b) - s64 (s64 (g + e) + x)) = s64 (a + b - g - e - x)"
proof -
  have "s64 (s64 (a + b) - s64 (s64 (g + e) + x)) = s64 (a + b - (g + e + x))"
    by (simp only: s64_add_left s64_diff_left s64_diff_right)
  then show ?thesis by (simp add: algebra_simps)
qed

definition month_point ::
    "gtime \<Rightarrow> child_totals \<Rightarrow> staff_totals \<Rightarrow> budget_totals \<Rightarrow> financial_point" where
  "month_point date ct st bt =
     \<lparr>dp_date = format_date date, dp_funding_income = ct_income ct,
      dp_gross_salary = st_gross st, dp_employer_costs = st_employer st,
      dp_budget_income = bt_income bt, dp_budget_expenses = bt_expenses bt,
      dp_total_income = s64 (ct_income ct + bt_income bt),
      dp_total_expenses = s64 (s64 (st_gross st + st_employer st) + bt_expenses bt),
      dp_balance = s64 (s64 (ct_income ct + bt_income bt)
        - s64 (s64 (st_gross st + st_employer st) + bt_expenses bt)),
      dp_child_count = ct_count ct, dp_staff_count = st_count st,
      dp_budget_details = bt_details bt, dp_funding_details = funding_details (ct_details ct),
      dp_salary_details = salary_details (st_by_category st)\<rparr>"

lemma financial_month_shape:
  "\<exists>ct st bt. income_ok ct \<and> payroll_ok st \<and> budget_ok bt \<and>
     fst (financial_month wild children employees plans funding items ws date) = month_point date ct st bt"
proof -
  define period where "period = find_period_for_date funding date"
  define ct where "ct = foldl (child_month date period)
      \<lparr>ct_income = 0, ct_count = 0, ct_details = [], ct_warnings = ws\<rparr> children"
  define ws1 where "ws1 = (if period = None \<and> 0 < ct_count ct
      then add_warning (ct_warnings ct)
        \<lparr>w_code = ''no_funding_period'',
         w_message = ''no funding configuration covers this month; funding is reported as zero'',
         w_employee = 0, w_child = 0, w_contract = 0, w_pay_plan = 0, w_grade = [],
         w_step = 0, w_date = format_date date\<rparr>
      else ct_warnings ct)"
  define st where "st = foldl (employee_month wild plans date)
      \<lparr>st_gross = 0, st_employer = 0, st_count = 0, st_by_category = [], st_warnings = ws1\<rparr> employees"
  define bt where "bt = foldl (budget_month date (ct_count ct))
      \<lparr>bt_income = 0, bt_expenses = 0, bt_details = []\<rparr> items"
  have "income_ok ct" unfolding ct_def
    by (rule foldl_keeps [where P = income_ok]) (simp add: income_ok_def, rule child_month_ok)
  moreover have "payroll_ok st" unfolding st_def
    by (rule foldl_keeps [where P = payroll_ok]) (simp add: payroll_ok_def, rule employee_month_ok)
  moreover have "budget_ok bt" unfolding bt_def
    by (rule foldl_keeps [where P = budget_ok]) (simp add: budget_ok_def budget_sum_def, rule budget_month_ok)
  moreover have "fst (financial_month wild children employees plans funding items ws date)
      = month_point date ct st bt"
    unfolding financial_month_def Let_def month_point_def period_def [symmetric] ct_def [symmetric]
      ws1_def [symmetric] st_def [symmetric] bt_def [symmetric] by (rule fst_conv)
  ultimately show ?thesis by blast
qed

text \<open>
  C13. In every month of the financial overview the breakdowns add up, in 64-bit arithmetic, to
  the totals: the funding by property to the funding income, the salaries by category to the
  gross salaries and to the employer costs, the budget items by category to budget income and
  expenses; and the balance is income minus expenses.
\<close>
lemma financial_breakdowns_add_up:
  "let p = fst (financial_month wild children employees plans funding items ws date)
   in dp_funding_income p = s64 (sum_list (map fd_amount (dp_funding_details p))) \<and>
      dp_gross_salary p = s64 (sum_list (map sd_gross (dp_salary_details p))) \<and>
      dp_employer_costs p = s64 (sum_list (map sd_employer (dp_salary_details p))) \<and>
      dp_budget_income p = s64 (budget_sum True (dp_budget_details p)) \<and>
      dp_budget_expenses p = s64 (budget_sum False (dp_budget_details p)) \<and>
      dp_balance p = s64 (dp_funding_income p + dp_budget_income p - dp_gross_salary p
        - dp_employer_costs p - dp_budget_expenses p)"
proof -
  obtain ct st bt where ok: "income_ok ct" "payroll_ok st" "budget_ok bt"
    and p: "fst (financial_month wild children employees plans funding items ws date)
      = month_point date ct st bt"
    using financial_month_shape by metis
  have fd: "map fd_amount (map (\<lambda>(kv, amount, label).
      \<lparr>fd_key = fst (split_colon kv), fd_value = snd (split_colon kv), fd_label = label, fd_amount = amount\<rparr>) m)
      = map (\<lambda>(_, x). fst x) m" for m :: "(string \<times> int \<times> string) list" by auto
  have sd: "map sd_gross (map (\<lambda>(cat, g, c). \<lparr>sd_category = cat, sd_gross = g, sd_employer = c\<rparr>) m)
      = map (\<lambda>(_, x). fst x) m"
      "map sd_employer (map (\<lambda>(cat, g, c). \<lparr>sd_category = cat, sd_gross = g, sd_employer = c\<rparr>) m)
      = map (\<lambda>(_, x). snd x) m" for m :: "(string \<times> int \<times> int) list" by auto
  let ?p = "month_point date ct st bt"
  have "dp_balance ?p = s64 (dp_funding_income ?p + dp_budget_income ?p - dp_gross_salary ?p
      - dp_employer_costs ?p - dp_budget_expenses ?p)"
    unfolding month_point_def by (simp only: financial_point.simps s64_balance)
  moreover have "dp_funding_income ?p = s64 (sum_list (map fd_amount (dp_funding_details ?p)))"
    "dp_gross_salary ?p = s64 (sum_list (map sd_gross (dp_salary_details ?p)))"
    "dp_employer_costs ?p = s64 (sum_list (map sd_employer (dp_salary_details ?p)))"
    using income_total [OF ok(1)] payroll_gross [OF ok(2)] payroll_employer [OF ok(2)]
    by (simp_all add: month_point_def funding_details_def salary_details_def sum_list_sort_key fd sd
        del: map_map)
  moreover have "dp_budget_income ?p = s64 (budget_sum True (dp_budget_details ?p))"
    "dp_budget_expenses ?p = s64 (budget_sum False (dp_budget_details ?p))"
    using ok(3) by (simp_all add: month_point_def budget_ok_def)
  ultimately show ?thesis unfolding p Let_def by blast
qed

section \<open>Warnings\<close>

abbreviation warning_keys :: "warning list \<Rightarrow> (string \<times> nat) list" where
  "warning_keys ws \<equiv> map (\<lambda>w. (w_code w, w_contract w)) ws"

text \<open>From one list of warnings to a later one: nothing is lost, no key is doubled.\<close>

definition warnings_grow :: "warning list \<Rightarrow> warning list \<Rightarrow> bool" where
  "warnings_grow ws ws' \<longleftrightarrow> set (warning_keys ws) \<subseteq> set (warning_keys ws') \<and>
     (distinct (warning_keys ws) \<longrightarrow> distinct (warning_keys ws'))"

lemma warnings_grow_refl [simp]: "warnings_grow ws ws"
  by (simp add: warnings_grow_def)

lemma warnings_grow_trans [trans]:
  "warnings_grow a b \<Longrightarrow> warnings_grow b c \<Longrightarrow> warnings_grow a c"
  unfolding warnings_grow_def by blast

lemma add_warning_grows [simp]: "warnings_grow ws (add_warning ws w)"
  by (auto simp add: warnings_grow_def add_warning_def list_ex_iff)

lemma add_warning_adds: "(w_code w, w_contract w) \<in> set (warning_keys (add_warning ws w))"
  by (auto simp add: add_warning_def list_ex_iff image_iff) metis

lemma foldl_grows:
  assumes "\<And>t x. warnings_grow (f t) (f (g t x))"
  shows "warnings_grow (f t) (f (foldl g t xs))"
proof (induction xs arbitrary: t)
  case (Cons x xs)
  show ?case using warnings_grow_trans [OF assms Cons.IH] by simp
qed simp

lemma funding_matches_warn_nothing:
  "ct_warnings (snd (foldl add_funding_match acc fps)) = ct_warnings (snd acc)"
  by (induction fps arbitrary: acc) (simp_all add: add_funding_match_def split_beta)

lemma child_month_grows: "warnings_grow (ct_warnings t) (ct_warnings (child_month date period t c))"
proof (cases "pick_active_child_contract (cd_contracts c) date")
  case (Some ctr)
  let ?r = "foldl add_funding_match (False, t\<lparr>ct_count := ct_count t + 1\<rparr>)
    (match_funding_properties (funding_age_on_date (pn_birthdate c) date) (c_props ctr) period)"
  have "ct_warnings (snd ?r) = ct_warnings t" by (simp add: funding_matches_warn_nothing)
  then show ?thesis by (simp add: child_month_def Some Let_def split_beta)
qed (simp add: child_month_def)

lemma employee_month_grows:
  "warnings_grow (st_warnings t) (st_warnings (employee_month wild plans date t emp))"
  by (simp add: employee_month_def Let_def split: option.split sum.split)

lemma employee_month_warns:
  assumes "pick_active_employee_contract (em_contracts emp) date = Some ec"
    and "salary_of wild plans ec date = Inl reason"
  shows "(fst reason, c_id ec) \<in> set (warning_keys (st_warnings (employee_month wild plans date t emp)))"
  using add_warning_adds [of "salary_warning emp ec date reason" "st_warnings t"] assms
  by (simp add: employee_month_def Let_def salary_warning_def)

lemma employees_month_warn:
  assumes "emp \<in> set emps" "pick_active_employee_contract (em_contracts emp) date = Some ec"
    and "salary_of wild plans ec date = Inl reason"
  shows "(fst reason, c_id ec) \<in> set (warning_keys (st_warnings (foldl (employee_month wild plans date) t emps)))"
  using assms(1)
proof (induction emps arbitrary: t)
  case (Cons e es)
  show ?case
  proof (cases "emp = e")
    case True
    have "warnings_grow (st_warnings (employee_month wild plans date t emp))
        (st_warnings (foldl (employee_month wild plans date) (employee_month wild plans date t emp) es))"
      by (rule foldl_grows [where f = st_warnings, OF employee_month_grows])
    then show ?thesis using employee_month_warns [OF assms(2,3), of t] True
      unfolding warnings_grow_def by auto
  qed (use Cons in auto)
qed simp

lemma financial_month_warnings:
  "warnings_grow ws (snd (financial_month wild children emps plans funding items ws date)) \<and>
   (emp \<in> set emps \<longrightarrow> pick_active_employee_contract (em_contracts emp) date = Some ec \<longrightarrow>
     salary_of wild plans ec date = Inl reason \<longrightarrow>
     (fst reason, c_id ec) \<in> set (warning_keys (snd (financial_month wild children emps plans funding items ws date))))"
proof -
  define period where "period = find_period_for_date funding date"
  define ct where "ct = foldl (child_month date period)
      \<lparr>ct_income = 0, ct_count = 0, ct_details = [], ct_warnings = ws\<rparr> children"
  define ws1 where "ws1 = (if period = None \<and> 0 < ct_count ct
      then add_warning (ct_warnings ct)
        \<lparr>w_code = ''no_funding_period'',
         w_message = ''no funding configuration covers this month; funding is reported as zero'',
         w_employee = 0, w_child = 0, w_contract = 0, w_pay_plan = 0, w_grade = [],
         w_step = 0, w_date = format_date date\<rparr>
      else ct_warnings ct)"
  let ?st = "foldl (employee_month wild plans date)
      \<lparr>st_gross = 0, st_employer = 0, st_count = 0, st_by_category = [], st_warnings = ws1\<rparr> emps"
  have r: "snd (financial_month wild children emps plans funding items ws date) = st_warnings ?st"
    unfolding financial_month_def Let_def period_def [symmetric] ct_def [symmetric]
      ws1_def [symmetric] by (rule snd_conv)
  have "warnings_grow ws (ct_warnings ct)"
    using foldl_grows [where f = ct_warnings and g = "child_month date period" and xs = children
        and t = "\<lparr>ct_income = 0, ct_count = 0, ct_details = [], ct_warnings = ws\<rparr>", OF child_month_grows]
    by (simp add: ct_def)
  also have "warnings_grow (ct_warnings ct) ws1" by (simp add: ws1_def)
  also have "warnings_grow ws1 (st_warnings ?st)"
    using foldl_grows [where f = st_warnings and g = "employee_month wild plans date" and xs = emps
        and t = "\<lparr>st_gross = 0, st_employer = 0, st_count = 0, st_by_category = [], st_warnings = ws1\<rparr>",
        OF employee_month_grows] by simp
  finally show ?thesis using employees_month_warn r by auto
qed

lemma financial_months_warnings:
  "warnings_grow ws (snd (financial_months wild children emps plans funding items ws ds)) \<and>
   (date \<in> set ds \<longrightarrow> emp \<in> set emps \<longrightarrow>
     pick_active_employee_contract (em_contracts emp) date = Some ec \<longrightarrow>
     salary_of wild plans ec date = Inl reason \<longrightarrow>
     (fst reason, c_id ec) \<in> set (warning_keys (snd (financial_months wild children emps plans funding items ws ds))))"
proof (induction ds arbitrary: ws)
  case (Cons d ds)
  note m = financial_month_warnings [where wild = wild and children = children and emps = emps
      and plans = plans and funding = funding and items = items and ws = ws and date = d
      and emp = emp and ec = ec and reason = reason]
  let ?ws' = "snd (financial_month wild children emps plans funding items ws d)"
  note IH = Cons.IH [of ?ws']
  have "snd (financial_months wild children emps plans funding items ws (d # ds))
      = snd (financial_months wild children emps plans funding items ?ws' ds)"
    by (simp add: split_beta Let_def)
  then show ?case using m IH warnings_grow_trans unfolding warnings_grow_def
    by (auto simp only: set_simps)
qed simp

text \<open>
  C14. The financial overview drops no salary silently: when the contract an employee has on a
  month of the range gives no salary (unknown pay plan, no period, no entry, unusable hours),
  the warnings hold that reason for that contract; and each reason is reported once per contract.
\<close>
lemma no_salary_excluded_silently:
  assumes "date \<in> set (month_dates start end_date)" and "emp \<in> set employees"
    and "pick_active_employee_contract (em_contracts emp) date = Some ec"
    and "salary_of wild plans ec date = Inl reason"
  shows "let ws = snd (calculate_financials wild children employees plans funding items start end_date)
    in (fst reason, c_id ec) \<in> set (warning_keys ws) \<and> distinct (warning_keys ws)"
proof -
  note financial_months_warnings [where ws = "[]" and ds = "month_dates start end_date"
      and wild = wild and children = children and emps = employees and plans = plans
      and funding = funding and items = items and date = date and emp = emp and ec = ec
      and reason = reason]
  then show ?thesis using assms by (simp add: calculate_financials_def warnings_grow_def Let_def)
qed

definition ex_staff :: employee where
  "ex_staff = \<lparr>pn_id = 3, pn_org = 1, pn_first_name = ''A'', pn_last_name = ''B'', pn_gender = ''female'',
     pn_birthdate = first_of 20000,
     em_contracts = [\<lparr>c_id = 7, c_owner = 3, c_from = first_of 24300, c_to = None, c_section = 0,
       c_props = None, c_version = 1, ec_staff_category = ''qualified'', ec_grade = ''S8a'', ec_step = 1,
       ec_weekly_hours = Fin 39, ec_pay_plan = 9\<rparr>]\<rparr>"

lemma no_salary_excluded_silently_witness:
  "(''missing_pay_plan'', 7) \<in> set (warning_keys (snd (calculate_financials 0 [] [ex_staff]
     (\<lambda>_. None) [] [] (first_of 24300) (first_of 24300))))"
proof -
  let ?d = "first_of 24300" and ?c = "hd (em_contracts ex_staff)"
  have d: "?d \<in> set (month_dates ?d ?d)" by (simp add: month_dates_first)
  have p: "pick_active_employee_contract (em_contracts ex_staff) ?d = Some ?c"
    by (simp add: ex_staff_def pick_active_employee_contract_def contract_period_def is_active_on_def before_def)
  have s: "salary_of 0 (\<lambda>_. None) ?c ?d
      = Inl (''missing_pay_plan'', ''employee contract references unknown pay plan; salary excluded'')"
    by (simp add: salary_of_def)
  have "c_id ?c = 7" by (simp add: ex_staff_def)
  with no_salary_excluded_silently [OF d _ p s, of "[ex_staff]" "[]" "[]" "[]"] show ?thesis
    by (simp add: Let_def)
qed

end
