(* ===== verification/BillStore.thy ===== *)
theory BillStore
  imports Statistics
begin

text \<open>
  The bills of the funding authority as they are stored
  (\<open>internal/models/government_funding_bill.go\<close>, \<open>internal/models/child_voucher.go\<close>) and the
  queries that the comparison reads them with (\<open>internal/store/government_funding_bill_period.go\<close>,
  \<open>internal/store/child_voucher.go\<close>). A table is the list of its rows in the order of their
  ids; children carry their contracts, bills their rows and payments, as the preloads do.
  Where a query leaves an order open, the order of the ids is taken. Failures of the driver and
  the CHECK constraints of migration 000030 on the span of a correction are not modelled, so
  that here a bill is stored whenever the code stores one.
\<close>

section \<open>Rows\<close>

record bill_payment =
  by_key :: string
  by_value :: string
  by_amount :: int
  by_row_index :: nat
  by_row_type :: string
  by_month :: "gtime option"

record bill_child =
  gc_voucher :: string
  gc_name :: string
  gc_birth_date :: string
  gc_district :: int
  gc_payments :: "bill_payment list"

record bill_period = period +
  bl_id :: nat
  bl_org :: nat
  bl_file_name :: string
  bl_hash :: string
  bl_facility_name :: string
  bl_facility_total :: int
  bl_contract_booking :: int
  bl_correction_booking :: int
  bl_correction_from :: "gtime option"
  bl_correction_to :: "gtime option"
  bl_correction_reason :: string
  bl_created_by :: "nat option"
  bl_children :: "bill_child list"

record child_voucher =
  cv_id :: nat
  cv_child :: nat
  cv_number :: string
  cv_first_seen :: gtime

text \<open>The tables: children with their contracts, vouchers, bills, states and fundings.\<close>

record bill_db =
  kd_children :: "child list"
  kd_vouchers :: "child_voucher list"
  kd_next_voucher :: nat
  kd_bills :: "bill_period list"
  kd_next_bill :: nat
  kd_org_states :: "(nat \<times> string) list"
  kd_fundings :: "(string \<times> funding_period list) list"

abbreviation row_regular :: string where "row_regular \<equiv> ''regular''"
abbreviation row_correction :: string where "row_correction \<equiv> ''correction''"

text \<open>\<open>BeforeCreate\<close> of a payment.\<close>

definition default_row_type :: "bill_payment \<Rightarrow> bill_payment" where
  "default_row_type p = (if by_row_type p = [] then p\<lparr>by_row_type := row_regular\<rparr> else p)"

definition first_of_month :: "gtime \<Rightarrow> gtime" where
  "first_of_month t = date_utc (year_of t) (month_of t) 1"

section \<open>Bills\<close>

definition find_bill_by_id :: "bill_db \<Rightarrow> nat \<Rightarrow> bill_period outcome" where
  "find_bill_by_id db i =
     (case find (\<lambda>b. bl_id b = i) (kd_bills db) of
        None \<Rightarrow> Inl (StoreError StoreNotFound) | Some b \<Rightarrow> Inr b)"

definition bill_day :: "bill_period \<Rightarrow> int" where
  "bill_day b = local_day (p_from b)"

definition find_by_org_and_month :: "bill_db \<Rightarrow> nat \<Rightarrow> gtime \<Rightarrow> bill_period outcome" where
  "find_by_org_and_month db org month =
     (case find (\<lambda>b. bl_org b = org \<and> bill_day b = local_day month) (kd_bills db) of
        None \<Rightarrow> Inl (StoreError StoreNotFound) | Some b \<Rightarrow> Inr b)"

definition find_latest_by_organization :: "bill_db \<Rightarrow> nat \<Rightarrow> bill_period outcome" where
  "find_latest_by_organization db org =
     (case sort_key (\<lambda>b. - bill_day b) (filter (\<lambda>b. bl_org b = org) (kd_bills db)) of
        [] \<Rightarrow> Inl (StoreError StoreNotFound) | b # _ \<Rightarrow> Inr b)"

definition bills_by_date :: "bill_db \<Rightarrow> nat \<Rightarrow> bill_period list" where
  "bills_by_date db org = sort_key bill_day (filter (\<lambda>b. bl_org b = org) (kd_bills db))"

text \<open>The bills a voucher appears in, by date.\<close>

record bill_appearance =
  ap_bill :: nat
  ap_from :: string
  ap_facility :: string

definition find_appearances :: "bill_db \<Rightarrow> nat \<Rightarrow> string \<Rightarrow> bill_appearance list" where
  "find_appearances db org voucher =
     map (\<lambda>b. \<lparr>ap_bill = bl_id b, ap_from = format_date (p_from b), ap_facility = bl_facility_name b\<rparr>)
       (filter (\<lambda>b. list_ex (\<lambda>c. gc_voucher c = voucher) (bl_children b)) (bills_by_date db org))"

definition exists_by_org_and_month :: "bill_db \<Rightarrow> nat \<Rightarrow> gtime \<Rightarrow> bool" where
  "exists_by_org_and_month db org from =
     list_ex (\<lambda>b. bl_org b = org \<and> bill_day b = local_day from) (kd_bills db)"

definition exists_by_org_and_hash :: "bill_db \<Rightarrow> nat \<Rightarrow> string \<Rightarrow> bool" where
  "exists_by_org_and_hash db org hash = list_ex (\<lambda>b. bl_org b = org \<and> bl_hash b = hash) (kd_bills db)"

text \<open>
  \<open>Create\<close> under the unique indexes of migration 000004: one bill per organization and file, and
  per organization and month. The payments pass their \<open>BeforeCreate\<close> hook.
\<close>

definition create_bill :: "bill_db \<Rightarrow> bill_period \<Rightarrow> (bill_period \<times> bill_db) outcome" where
  "create_bill db b =
     (if exists_by_org_and_hash db (bl_org b) (bl_hash b) \<or> exists_by_org_and_month db (bl_org b) (p_from b)
      then Inl (PgError ''23505'')
      else let b' = b\<lparr>bl_id := kd_next_bill db,
                      bl_children := map (\<lambda>c. c\<lparr>gc_payments := map default_row_type (gc_payments c)\<rparr>) (bl_children b)\<rparr>
           in Inr (b', db\<lparr>kd_bills := kd_bills db @ [b'], kd_next_bill := Suc (kd_next_bill db)\<rparr>))"

definition delete_bill :: "bill_db \<Rightarrow> nat \<Rightarrow> bill_db" where
  "delete_bill db i = db\<lparr>kd_bills := filter (\<lambda>b. bl_id b \<noteq> i) (kd_bills db)\<rparr>"

text \<open>The month a payment is about: its own, or that of the bill.\<close>

definition attributed_day :: "bill_period \<Rightarrow> bill_payment \<Rightarrow> int" where
  "attributed_day b p = (case by_month p of None \<Rightarrow> bill_day b | Some t \<Rightarrow> local_day t)"

text \<open>
  \<open>billTotalsByMonth\<close>: per month the regular and the correction total, keyed by the attributed
  month of each row (\<open>attr\<close>) or by the month of its bill. Keys are month starts.
\<close>

definition bill_totals_by_month ::
    "(bill_period \<Rightarrow> bill_payment \<Rightarrow> int) \<Rightarrow> bill_db \<Rightarrow> nat \<Rightarrow> gtime \<Rightarrow> gtime \<Rightarrow>
      (int \<times> int \<times> int) list" where
  "bill_totals_by_month attr db org from to =
     (let rows = concat (map (\<lambda>b. concat (map (\<lambda>c. map (\<lambda>p. (attr b p, by_row_type p, by_amount p))
                   (gc_payments c)) (bl_children b)))
                 (filter (\<lambda>b. bl_org b = org) (kd_bills db)));
          hits = filter (\<lambda>(d, _, _). local_day from \<le> d \<and> d \<le> local_day to) rows;
          month = (\<lambda>d. local_day (first_of_month (midnight d)))
      in map (\<lambda>m. (m,
             sum_list (map (\<lambda>(_, _, a). a) (filter (\<lambda>(d, ty, _). month d = m \<and> ty \<noteq> row_correction) hits)),
             sum_list (map (\<lambda>(_, _, a). a) (filter (\<lambda>(d, ty, _). month d = m \<and> ty = row_correction) hits))))
           (sort (remdups (map (\<lambda>(d, _, _). month d) hits))))"

definition find_bill_totals_by_row_type :: "bill_db \<Rightarrow> nat \<Rightarrow> gtime \<Rightarrow> gtime \<Rightarrow> (int \<times> int \<times> int) list" where
  "find_bill_totals_by_row_type = bill_totals_by_month (\<lambda>b p. bill_day b)"

definition find_bill_totals_attributed :: "bill_db \<Rightarrow> nat \<Rightarrow> gtime \<Rightarrow> gtime \<Rightarrow> (int \<times> int \<times> int) list" where
  "find_bill_totals_attributed = bill_totals_by_month attributed_day"

definition find_facility_totals :: "bill_db \<Rightarrow> nat \<Rightarrow> gtime \<Rightarrow> gtime \<Rightarrow> (int \<times> int) list" where
  "find_facility_totals db org from to =
     foldl (\<lambda>m b. alist_add (local_day (first_of_month (p_from b))) (s64 (bl_facility_total b))
              (\<lambda>w _. s64 (w + bl_facility_total b)) m)
       [] (filter (\<lambda>b. local_day from \<le> bill_day b \<and> bill_day b \<le> local_day to) (bills_by_date db org))"

section \<open>Vouchers\<close>

definition org_child_ids :: "bill_db \<Rightarrow> nat \<Rightarrow> nat list" where
  "org_child_ids db org = map pn_id (filter (\<lambda>c. pn_org c = org) (kd_children db))"

text \<open>A later row of the same number overwrites an earlier one.\<close>

definition find_child_ids_by_voucher_numbers :: "bill_db \<Rightarrow> nat \<Rightarrow> string list \<Rightarrow> (string \<rightharpoonup> nat)" where
  "find_child_ids_by_voucher_numbers db org numbers =
     map_of (rev (map (\<lambda>v. (cv_number v, cv_child v))
       (filter (\<lambda>v. cv_child v \<in> set (org_child_ids db org) \<and> cv_number v \<in> set numbers) (kd_vouchers db))))"

definition find_vouchers_by_child_id :: "bill_db \<Rightarrow> nat \<Rightarrow> child_voucher list" where
  "find_vouchers_by_child_id db i =
     sort_key (\<lambda>v. local_day (cv_first_seen v)) (filter (\<lambda>v. cv_child v = i) (kd_vouchers db))"

definition find_vouchers_by_child_ids :: "bill_db \<Rightarrow> nat list \<Rightarrow> child_voucher list" where
  "find_vouchers_by_child_ids db ids = filter (\<lambda>v. cv_child v \<in> set ids) (kd_vouchers db)"

definition find_vouchers_by_organization :: "bill_db \<Rightarrow> nat \<Rightarrow> child_voucher list" where
  "find_vouchers_by_organization db org =
     filter (\<lambda>v. cv_child v \<in> set (org_child_ids db org)) (kd_vouchers db)"

definition find_by_voucher_number :: "bill_db \<Rightarrow> string \<Rightarrow> child_voucher outcome" where
  "find_by_voucher_number db number =
     (case find (\<lambda>v. cv_number v = number) (kd_vouchers db) of
        None \<Rightarrow> Inl (StoreError StoreNotFound) | Some v \<Rightarrow> Inr v)"

definition find_voucher_by_id :: "bill_db \<Rightarrow> nat \<Rightarrow> child_voucher outcome" where
  "find_voucher_by_id db i =
     (case find (\<lambda>v. cv_id v = i) (kd_vouchers db) of
        None \<Rightarrow> Inl (StoreError StoreNotFound) | Some v \<Rightarrow> Inr v)"

text \<open>The number is globally unique: \<open>ON CONFLICT DO NOTHING\<close>, or an error under a savepoint.\<close>

definition create_voucher_strict :: "bill_db \<Rightarrow> child_voucher \<Rightarrow> (child_voucher \<times> bill_db) outcome" where
  "create_voucher_strict db v =
     (if list_ex (\<lambda>w. cv_number w = cv_number v) (kd_vouchers db) then Inl (StoreError StoreDuplicateKey)
      else let v' = v\<lparr>cv_id := kd_next_voucher db\<rparr>
           in Inr (v', db\<lparr>kd_vouchers := kd_vouchers db @ [v'], kd_next_voucher := Suc (kd_next_voucher db)\<rparr>))"

definition create_voucher :: "bill_db \<Rightarrow> child_voucher \<Rightarrow> bill_db" where
  "create_voucher db v = (case create_voucher_strict db v of Inl _ \<Rightarrow> db | Inr (_, db') \<Rightarrow> db')"

definition delete_voucher_by_id :: "bill_db \<Rightarrow> nat \<Rightarrow> bill_db outcome" where
  "delete_voucher_by_id db i =
     (if list_ex (\<lambda>v. cv_id v = i) (kd_vouchers db)
      then Inr (db\<lparr>kd_vouchers := filter (\<lambda>v. cv_id v \<noteq> i) (kd_vouchers db)\<rparr>)
      else Inl (StoreError StoreNotFound))"

section \<open>Contracts on a day\<close>

definition active_contracts :: "child \<Rightarrow> gtime \<Rightarrow> child_contract list" where
  "active_contracts c date =
     filter (\<lambda>k. sql_active_on (from_day k) (to_day k) (local_day date)) (cd_contracts c)"

text \<open>The latest start first, then the highest id; the first row of a child counts.\<close>

definition find_active_contracts :: "bill_db \<Rightarrow> nat \<Rightarrow> nat list \<Rightarrow> gtime \<Rightarrow> (nat \<rightharpoonup> child_contract)" where
  "find_active_contracts db org ids date =
     (let rows = concat (map (\<lambda>c. map (\<lambda>k. (pn_id c, k)) (active_contracts c date))
                   (filter (\<lambda>c. pn_org c = org \<and> pn_id c \<in> set ids) (kd_children db)))
      in map_of (sort_key (\<lambda>(_, k). - from_day k) (sort_key (\<lambda>(_, k). - int (c_id k)) rows)))"

definition find_children_active_on :: "bill_db \<Rightarrow> nat \<Rightarrow> gtime \<Rightarrow> child list" where
  "find_children_active_on db org date =
     map (\<lambda>c. c\<lparr>cd_contracts := active_contracts c date\<rparr>)
       (filter (\<lambda>c. pn_org c = org \<and> active_contracts c date \<noteq> []) (kd_children db))"

definition find_child_by_id_and_org :: "bill_db \<Rightarrow> nat \<Rightarrow> nat \<Rightarrow> child outcome" where
  "find_child_by_id_and_org db i org =
     (case find (\<lambda>c. pn_id c = i \<and> pn_org c = org) (kd_children db) of
        None \<Rightarrow> Inl (StoreError StoreNotFound) | Some c \<Rightarrow> Inr c)"

text \<open>The funding of the state of an organization: its periods, latest first.\<close>

definition find_org_state :: "bill_db \<Rightarrow> nat \<Rightarrow> string outcome" where
  "find_org_state db org =
     (case map_of (kd_org_states db) org of
        None \<Rightarrow> Inl (StoreError StoreNotFound) | Some s \<Rightarrow> Inr s)"

definition find_by_state_with_details :: "bill_db \<Rightarrow> string \<Rightarrow> funding_period list outcome" where
  "find_by_state_with_details db state =
     (case map_of (kd_fundings db) state of
        None \<Rightarrow> Inl (StoreError StoreNotFound)
      | Some ps \<Rightarrow> Inr (sort_key (\<lambda>p. - local_day (p_from p)) ps))"

section \<open>Aggregates\<close>

text \<open>
  What bills of other months attributed to one month, per child: the amounts add up over the
  bills, whose months are listed by date.
\<close>

definition payments_for_child :: "bill_db \<Rightarrow> nat \<Rightarrow> gtime \<Rightarrow> bill_period \<Rightarrow> int list" where
  "payments_for_child db child month b =
     concat (map (\<lambda>c. concat (map (\<lambda>v. if cv_number v = gc_voucher c \<and> cv_child v = child
           then map by_amount (filter (\<lambda>p. attributed_day b p = local_day month) (gc_payments c)) else [])
         (kd_vouchers db))) (bl_children b))"

definition find_settled_later :: "bill_db \<Rightarrow> nat \<Rightarrow> gtime \<Rightarrow> nat \<Rightarrow> (int \<times> gtime list) option" where
  "find_settled_later db org month child =
     (if child \<notin> set (org_child_ids db org) then None
      else let bills = filter (\<lambda>b. bill_day b \<noteq> local_day month \<and> payments_for_child db child month b \<noteq> [])
                         (bills_by_date db org);
               dates = remdups (map bill_day bills);
               total = (\<lambda>d. sum_list (concat (map (payments_for_child db child month)
                                                  (filter (\<lambda>b. bill_day b = d) bills))))
           in if dates = [] then None
              else Some (foldl (\<lambda>acc d. s64 (acc + total d)) 0 dates,
                         map (\<lambda>d. first_of_month (midnight d)) dates))"

text \<open>Regular payments per voucher, and the rows of all bills.\<close>

definition find_billed_totals_by_org :: "bill_db \<Rightarrow> nat \<Rightarrow> (string \<times> int) list" where
  "find_billed_totals_by_org db org =
     (let rows = concat (map (\<lambda>b. concat (map (\<lambda>c. map (\<lambda>p. (gc_voucher c, by_amount p))
                   (filter (\<lambda>p. by_row_type p = row_regular) (gc_payments c))) (bl_children b)))
                 (filter (\<lambda>b. bl_org b = org) (kd_bills db)))
      in map (\<lambda>v. (v, sum_list (map snd (filter (\<lambda>(w, _). w = v) rows)))) (remdups (map fst rows)))"

record bill_date_voucher =
  bv_voucher :: string
  bv_from :: gtime
  bv_bill :: nat

definition find_all_bill_dates_and_vouchers :: "bill_db \<Rightarrow> nat \<Rightarrow> bill_date_voucher list" where
  "find_all_bill_dates_and_vouchers db org =
     sort_key bv_voucher
       (concat (map (\<lambda>b. map (\<lambda>c. \<lparr>bv_voucher = gc_voucher c, bv_from = p_from b, bv_bill = bl_id b\<rparr>)
           (bl_children b)) (bills_by_date db org)))"

text \<open>The rows of some vouchers with their bills, by date of the bill.\<close>

record bill_entry =
  en_bill :: nat
  en_from :: gtime
  en_to :: "gtime option"
  en_facility :: string
  en_child :: bill_child

definition find_child_entries :: "bill_db \<Rightarrow> nat \<Rightarrow> string list \<Rightarrow> bill_entry list" where
  "find_child_entries db org numbers =
     concat (map (\<lambda>b. map (\<lambda>c. \<lparr>en_bill = bl_id b, en_from = p_from b, en_to = p_to b,
                              en_facility = bl_facility_name b, en_child = c\<rparr>)
         (filter (\<lambda>c. gc_voucher c \<in> set numbers) (bl_children b))) (bills_by_date db org))"

end
