(* ===== verification/BillCompare.thy ===== *)
theory BillCompare
  imports BillStore
begin

text \<open>
  Comparison of a bill with the computed funding: the pure functions of
  \<open>internal/service/government_funding_bill.go\<close> that group the rows of a bill by child, set the
  amounts of one child side by side and classify what differs, and \<open>comparePeriod\<close>, which runs
  them over a bill. Go maps from \<open>key:value\<close> to an amount are association lists; only sums
  and sorted key lists are taken from them, so that the order of a map does not show.
\<close>

section \<open>Responses\<close>

datatype mismatch_type = MismatchNone | MismatchMissing | MismatchAdditional | MismatchDifferent

fun mismatch_text :: "mismatch_type \<Rightarrow> string" where
  "mismatch_text MismatchNone = ''''"
| "mismatch_text MismatchMissing = ''missing''"
| "mismatch_text MismatchAdditional = ''additional''"
| "mismatch_text MismatchDifferent = ''different''"

record comparison_amount =
  ca_key :: string
  ca_value :: string
  ca_label :: string
  ca_bill :: "int option"
  ca_calc :: "int option"
  ca_difference :: int
  ca_mismatch :: mismatch_type

record comparison_child =
  co_voucher :: string
  co_vouchers :: "string list"
  co_name :: string
  co_birth_date :: string
  co_child_id :: "nat option"
  co_age :: "int option"
  co_bill_total :: int
  co_correction_total :: int
  co_calc_total :: "int option"
  co_difference :: "int option"
  co_settled :: "int option"
  co_settled_months :: "string list"
  co_status :: string
  co_properties :: "comparison_amount list"
  co_appearances :: "bill_appearance list"
  co_contract_from :: "string option"
  co_contract_to :: "string option"

record comparison =
  cr_bill_id :: nat
  cr_from :: string
  cr_to :: string
  cr_facility :: string
  cr_bill_total :: int
  cr_correction_total :: int
  cr_manual_correction :: int
  cr_calc_total :: int
  cr_difference :: int
  cr_children_count :: int
  cr_match_count :: int
  cr_difference_count :: int
  cr_bill_only_count :: int
  cr_bill_only_amount :: int
  cr_calc_only_count :: int
  cr_calc_only_amount :: int
  cr_no_config_count :: int
  cr_children :: "comparison_child list"

abbreviation status_match :: string where "status_match \<equiv> ''match''"
abbreviation status_difference :: string where "status_difference \<equiv> ''difference''"
abbreviation status_bill_only :: string where "status_bill_only \<equiv> ''bill_only''"
abbreviation status_calc_only :: string where "status_calc_only \<equiv> ''calc_only''"
abbreviation status_not_billed :: string where "status_not_billed \<equiv> ''not_billed''"
abbreviation status_no_config :: string where "status_no_config \<equiv> ''no_funding_config''"

section \<open>Amounts by key and value\<close>

type_synonym amounts = "(string \<times> int) list"

definition add_amount :: "string \<Rightarrow> int \<Rightarrow> amounts \<Rightarrow> amounts" where
  "add_amount kv a m = alist_add kv (s64 a) (\<lambda>w _. s64 (w + a)) m"

definition payment_kv :: "bill_payment \<Rightarrow> string" where
  "payment_kv p = kv_key (by_key p) (by_value p)"

definition bill_payments_to_amount_map :: "bill_payment list \<Rightarrow> string \<Rightarrow> amounts \<times> int" where
  "bill_payments_to_amount_map payments row_type =
     foldl (\<lambda>(m, acc) p. (add_amount (payment_kv p) (by_amount p) m, s64 (acc + by_amount p)))
       ([], 0) (filter (\<lambda>p. row_type = [] \<or> by_row_type p = row_type) payments)"

definition calc_amounts_from_funding :: "int \<Rightarrow> properties \<Rightarrow> funding_period option \<Rightarrow> amounts \<times> int" where
  "calc_amounts_from_funding age props period =
     foldl (\<lambda>(m, acc) fp. (add_amount (kv_key (fp_key fp) (fp_value fp)) (fp_payment fp) m,
                             s64 (acc + fp_payment fp)))
       ([], 0) (match_funding_properties age props period)"

text \<open>The first label of a pair that is not empty.\<close>

definition build_label_map :: "funding_period list \<Rightarrow> string \<Rightarrow> string" where
  "build_label_map periods kv =
     (case find (\<lambda>fp. fp_label fp \<noteq> [] \<and> kv_key (fp_key fp) (fp_value fp) = kv)
             (concat (map gp_properties periods)) of
        None \<Rightarrow> [] | Some fp \<Rightarrow> fp_label fp)"

definition contract_property_keys :: "string list" where
  "contract_property_keys = [''care_type'', ''integration'']"

definition has_kv :: "amounts \<Rightarrow> string \<Rightarrow> bool" where
  "has_kv m kv = (map_of m kv \<noteq> None)"

definition all_kvs :: "amounts \<Rightarrow> amounts \<Rightarrow> string list" where
  "all_kvs bill calc = remdups (map fst bill @ map fst calc)"

definition one_sided :: "amounts \<Rightarrow> amounts \<Rightarrow> string \<Rightarrow> bool" where
  "one_sided bill calc kv = (has_kv bill kv \<noteq> has_kv calc kv)"

text \<open>One base key with its pairs, then all of them.\<close>

definition classify_group :: "amounts \<Rightarrow> amounts \<Rightarrow> string list \<Rightarrow> (string \<times> mismatch_type) list" where
  "classify_group bill calc kvs =
     (if \<not> list_ex (one_sided bill calc) kvs then []
      else if list_ex (has_kv bill) kvs \<and> list_ex (has_kv calc) kvs
        then map (\<lambda>kv. (kv, MismatchDifferent)) (filter (one_sided bill calc) kvs)
      else concat (map (\<lambda>kv. if has_kv bill kv \<and> \<not> has_kv calc kv then [(kv, MismatchAdditional)]
                             else if has_kv calc kv \<and> \<not> has_kv bill kv then [(kv, MismatchMissing)]
                             else []) kvs))"

definition classify_mismatches :: "amounts \<Rightarrow> amounts \<Rightarrow> (string \<times> mismatch_type) list" where
  "classify_mismatches bill calc =
     (let kvs = filter (\<lambda>kv. fst (split_colon kv) \<in> set contract_property_keys) (all_kvs bill calc);
          bases = remdups (map (\<lambda>kv. fst (split_colon kv)) kvs)
      in concat (map (\<lambda>k. classify_group bill calc (filter (\<lambda>kv. fst (split_colon kv) = k) kvs)) bases))"

definition mismatch_of :: "(string \<times> mismatch_type) list \<Rightarrow> string \<Rightarrow> mismatch_type" where
  "mismatch_of m kv = (case map_of m kv of None \<Rightarrow> MismatchNone | Some x \<Rightarrow> x)"

definition or_zero :: "int option \<Rightarrow> int" where
  "or_zero x = (case x of None \<Rightarrow> 0 | Some v \<Rightarrow> v)"

definition build_comparison_properties ::
    "amounts \<Rightarrow> amounts \<Rightarrow> (string \<Rightarrow> string) \<Rightarrow> comparison_amount list" where
  "build_comparison_properties bill calc labels =
     (let mm = classify_mismatches bill calc
      in map (\<lambda>kv. case split_colon kv of (key, value) \<Rightarrow>
           \<lparr>ca_key = key, ca_value = value, ca_label = labels kv, ca_bill = map_of bill kv,
            ca_calc = map_of calc kv,
            ca_difference = s64 (or_zero (map_of bill kv) - or_zero (map_of calc kv)),
            ca_mismatch = mismatch_of mm kv\<rparr>) (sort (all_kvs bill calc)))"

definition build_bill_only_properties ::
    "bill_payment list \<Rightarrow> (string \<Rightarrow> string) \<Rightarrow> comparison_amount list" where
  "build_bill_only_properties payments labels =
     (let totals = fst (bill_payments_to_amount_map payments [])
      in map (\<lambda>kv. case split_colon kv of (key, value) \<Rightarrow>
           \<lparr>ca_key = key, ca_value = value, ca_label = labels kv, ca_bill = map_of totals kv,
            ca_calc = None, ca_difference = or_zero (map_of totals kv), ca_mismatch = MismatchNone\<rparr>)
         (sort (map fst totals)))"

definition build_calc_only_properties :: "amounts \<Rightarrow> (string \<Rightarrow> string) \<Rightarrow> comparison_amount list" where
  "build_calc_only_properties calc labels =
     map (\<lambda>kv. case split_colon kv of (key, value) \<Rightarrow>
       \<lparr>ca_key = key, ca_value = value, ca_label = labels kv, ca_bill = None, ca_calc = map_of calc kv,
        ca_difference = s64 (- or_zero (map_of calc kv)), ca_mismatch = MismatchNone\<rparr>)
       (sort (map fst calc))"

section \<open>One child\<close>

record child_result =
  rs_bill_total :: int
  rs_correction_total :: int
  rs_calc_total :: "int option"
  rs_difference :: "int option"
  rs_status :: string
  rs_age :: "int option"
  rs_properties :: "comparison_amount list"
  rs_cannot_compute :: bool

definition compute_child_comparison ::
    "bill_payment list \<Rightarrow> child_contract option \<Rightarrow> gtime option \<Rightarrow> gtime \<Rightarrow> funding_period list \<Rightarrow>
      (string \<Rightarrow> string) \<Rightarrow> child_result" where
  "compute_child_comparison payments contract birthdate date periods labels =
     (case bill_payments_to_amount_map payments row_regular of (bill_amounts, bill_total) \<Rightarrow>
      (let correction_total = snd (bill_payments_to_amount_map payments row_correction)
       in case contract of
            None \<Rightarrow> \<lparr>rs_bill_total = bill_total, rs_correction_total = correction_total, rs_calc_total = None,
                      rs_difference = None, rs_status = status_bill_only, rs_age = None,
                      rs_properties = build_bill_only_properties payments labels, rs_cannot_compute = False\<rparr>
          | Some k \<Rightarrow>
              (let funding_age = map_option (\<lambda>b. funding_age_on_date b date) birthdate;
                   period = find_period_for_date periods date;
                   cannot = (period = None \<or> funding_age = None)
               in case (if cannot then ([], 0)
                        else calc_amounts_from_funding (the funding_age) (c_props k) period) of
                    (calc_amounts, calc_total) \<Rightarrow>
                      (let diff = s64 (bill_total - calc_total)
                       in \<lparr>rs_bill_total = bill_total, rs_correction_total = correction_total,
                           rs_calc_total = Some calc_total, rs_difference = Some diff,
                           rs_status = (if diff = 0 then status_match
                                        else if bill_amounts = [] then status_not_billed
                                        else status_difference),
                           rs_age = map_option (\<lambda>b. calculate_age_on_date b date) birthdate,
                           rs_properties = build_comparison_properties bill_amounts calc_amounts labels,
                           rs_cannot_compute = cannot\<rparr>))))"

section \<open>Rows of a bill by child\<close>

text \<open>The child of a row: its voucher is known and the child has an active contract.\<close>

definition resolve_row :: "(string \<rightharpoonup> nat) \<Rightarrow> (nat \<rightharpoonup> child_contract) \<Rightarrow> bill_child \<Rightarrow> nat option" where
  "resolve_row ids contracts c =
     (case ids (gc_voucher c) of
        None \<Rightarrow> None | Some i \<Rightarrow> if contracts i = None then None else Some i)"

definition group_row :: "(bill_child \<Rightarrow> nat option) \<Rightarrow> (nat option \<times> bill_child list) list \<Rightarrow> bill_child \<Rightarrow>
    (nat option \<times> bill_child list) list" where
  "group_row child_of groups c =
     (case child_of c of
        None \<Rightarrow> groups @ [(None, [c])]
      | Some i \<Rightarrow>
          if Some i \<in> fst ` set groups
          then map (\<lambda>(k, g). if k = Some i then (k, g @ [c]) else (k, g)) groups
          else groups @ [(Some i, [c])])"

definition group_bill_children_by_child ::
    "bill_child list \<Rightarrow> (string \<rightharpoonup> nat) \<Rightarrow> (nat \<rightharpoonup> child_contract) \<Rightarrow> bill_child list list" where
  "group_bill_children_by_child rows ids contracts =
     map snd (foldl (group_row (resolve_row ids contracts)) [] rows)"

definition merge_bill_children :: "bill_child list \<Rightarrow> bill_child \<times> string list" where
  "merge_bill_children grp =
     (let vouchers = map gc_voucher grp
      in if length grp = 1 then (hd grp, vouchers)
         else let primary = (case find (\<lambda>c. list_ex (\<lambda>p. by_row_type p = row_regular) (gc_payments c)) grp of
                               None \<Rightarrow> hd grp | Some c \<Rightarrow> c)
              in (primary\<lparr>gc_payments := concat (map gc_payments grp)\<rparr>, vouchers))"

section \<open>A bill\<close>

definition kita_manager_child_name :: "'a person_scheme \<Rightarrow> string" where
  "kita_manager_child_name c = pn_last_name c @ '', '' @ pn_first_name c"

definition format_to_date :: "gtime option \<Rightarrow> string" where
  "format_to_date t = (case t of None \<Rightarrow> [] | Some d \<Rightarrow> format_date d)"

definition resolve_vouchers_to_contracts ::
    "bill_db \<Rightarrow> nat \<Rightarrow> string list \<Rightarrow> gtime \<Rightarrow> (string \<rightharpoonup> nat) \<times> (nat \<rightharpoonup> child_contract)" where
  "resolve_vouchers_to_contracts db org numbers date =
     (let ids = find_child_ids_by_voucher_numbers db org numbers
      in (ids, find_active_contracts db org
                 (remdups (List.map_filter ids numbers)) date))"

definition apply_settlement :: "(nat \<Rightarrow> (int \<times> gtime list) option) \<Rightarrow> nat option \<Rightarrow> comparison_child \<Rightarrow> comparison_child" where
  "apply_settlement settled child co =
     (case child of
        None \<Rightarrow> co
      | Some i \<Rightarrow>
          if co_status co \<noteq> status_not_billed \<and> co_status co \<noteq> status_calc_only then co
          else case settled i of
                 None \<Rightarrow> co
               | Some (amount, months) \<Rightarrow>
                   if amount = 0 then co
                   else co\<lparr>co_settled := Some amount, co_settled_months := map format_date months\<rparr>)"

text \<open>The row of one group: what \<open>comparePeriod\<close> fills in before and after the computation.\<close>

definition compare_group ::
    "bill_period \<Rightarrow> funding_period list \<Rightarrow> (string \<Rightarrow> string) \<Rightarrow> (string \<rightharpoonup> nat) \<Rightarrow> (nat \<rightharpoonup> child_contract) \<Rightarrow>
      child list \<Rightarrow> (nat \<Rightarrow> (int \<times> gtime list) option) \<Rightarrow> bill_child list \<Rightarrow> comparison_child" where
  "compare_group b periods labels ids contracts active settled grp =
     (case merge_bill_children grp of (row, vouchers) \<Rightarrow>
      (let child = resolve_row ids contracts row;
           contract = (case child of None \<Rightarrow> None | Some i \<Rightarrow> contracts i);
           cid = map_option c_owner contract;
           ac = (case cid of None \<Rightarrow> None | Some i \<Rightarrow> find (\<lambda>c. pn_id c = i) (rev active));
           r = compute_child_comparison (gc_payments row) contract (map_option pn_birthdate ac) (p_from b) periods labels;
           r' = (if rs_cannot_compute r
                 then r\<lparr>rs_status := status_no_config, rs_calc_total := None, rs_difference := None,
                        rs_properties := build_bill_only_properties (gc_payments row) labels\<rparr>
                 else r)
       in apply_settlement settled cid
            \<lparr>co_voucher = gc_voucher row, co_vouchers = (if 1 < length vouchers then vouchers else []),
             co_name = (case ac of None \<Rightarrow> gc_name row | Some c \<Rightarrow> kita_manager_child_name c),
             co_birth_date = gc_birth_date row, co_child_id = cid, co_age = rs_age r',
             co_bill_total = rs_bill_total r', co_correction_total = rs_correction_total r',
             co_calc_total = rs_calc_total r', co_difference = rs_difference r',
             co_settled = None, co_settled_months = [], co_status = rs_status r',
             co_properties = rs_properties r', co_appearances = [],
             co_contract_from = None, co_contract_to = None\<rparr>))"

text \<open>The switch that adds a row to the totals.\<close>

definition add_compared :: "comparison \<Rightarrow> comparison_child \<Rightarrow> comparison" where
  "add_compared r co =
     (let both = r\<lparr>cr_bill_total := s64 (cr_bill_total r + co_bill_total co),
                   cr_calc_total := s64 (cr_calc_total r + or_zero (co_calc_total co))\<rparr>;
          r1 = (if co_status co = status_bill_only
                then (if 0 < co_bill_total co
                      then r\<lparr>cr_bill_only_count := s64 (cr_bill_only_count r + 1),
                             cr_bill_only_amount := s64 (cr_bill_only_amount r + co_bill_total co)\<rparr>
                      else r)\<lparr>cr_bill_total := s64 (cr_bill_total r + co_bill_total co)\<rparr>
                else if co_status co = status_match
                then both\<lparr>cr_match_count := s64 (cr_match_count r + 1)\<rparr>
                else if co_status co = status_difference \<or> co_status co = status_not_billed
                then both\<lparr>cr_difference_count := s64 (cr_difference_count r + 1)\<rparr>
                else if co_status co = status_no_config
                then r\<lparr>cr_no_config_count := s64 (cr_no_config_count r + 1)\<rparr>
                else both)
      in r1\<lparr>cr_correction_total := s64 (cr_correction_total r + co_correction_total co),
            cr_children := cr_children r @ [co]\<rparr>)"

text \<open>An active child that no row stands for.\<close>

definition calc_only_child ::
    "bill_db \<Rightarrow> nat \<Rightarrow> bill_period \<Rightarrow> funding_period option \<Rightarrow> (string \<Rightarrow> string) \<Rightarrow>
      (nat \<Rightarrow> (int \<times> gtime list) option) \<Rightarrow> child_voucher list \<Rightarrow> child \<Rightarrow> (comparison_child \<times> int) option" where
  "calc_only_child db org b period labels settled vouchers ac =
     (let mine = filter (\<lambda>v. cv_child v = pn_id ac) vouchers;
          in_bill = (\<lambda>v. list_ex (\<lambda>c. gc_voucher c = cv_number v) (bl_children b))
      in if mine \<noteq> [] \<and> list_all in_bill mine then None
         else case pick_active_child_contract (cd_contracts ac) (p_from b) of
                None \<Rightarrow> None
              | Some k \<Rightarrow>
                  (case calc_amounts_from_funding (funding_age_on_date (pn_birthdate ac) (p_from b)) (c_props k) period of
                     (amounts, sum_calc) \<Rightarrow>
                       Some (apply_settlement settled (Some (pn_id ac))
                         \<lparr>co_voucher = (case mine of [] \<Rightarrow> [] | v # _ \<Rightarrow> cv_number v), co_vouchers = [],
                          co_name = kita_manager_child_name ac, co_birth_date = [],
                          co_child_id = Some (pn_id ac),
                          co_age = Some (calculate_age_on_date (pn_birthdate ac) (p_from b)),
                          co_bill_total = 0, co_correction_total = 0, co_calc_total = Some sum_calc,
                          co_difference = None, co_settled = None, co_settled_months = [],
                          co_status = status_calc_only,
                          co_properties = build_calc_only_properties amounts labels,
                          co_appearances = (case mine of [] \<Rightarrow> []
                             | v # _ \<Rightarrow> filter (\<lambda>a. ap_bill a \<noteq> bl_id b) (find_appearances db org (cv_number v))),
                          co_contract_from = Some (format_date (c_from k)),
                          co_contract_to = map_option format_date (c_to k)\<rparr>, sum_calc)))"

definition add_calc_only :: "comparison \<Rightarrow> comparison_child \<times> int \<Rightarrow> comparison" where
  "add_calc_only r ct =
     (case ct of (co, sum_calc) \<Rightarrow>
        r\<lparr>cr_children := cr_children r @ [co], cr_calc_only_count := s64 (cr_calc_only_count r + 1),
          cr_calc_only_amount := s64 (cr_calc_only_amount r + sum_calc),
          cr_calc_total := s64 (cr_calc_total r + sum_calc)\<rparr>)"

definition empty_comparison :: "bill_period \<Rightarrow> comparison" where
  "empty_comparison b =
     \<lparr>cr_bill_id = bl_id b, cr_from = format_date (p_from b), cr_to = format_to_date (p_to b),
      cr_facility = bl_facility_name b, cr_bill_total = 0, cr_correction_total = 0,
      cr_manual_correction = bl_correction_booking b, cr_calc_total = 0, cr_difference = 0,
      cr_children_count = 0, cr_match_count = 0, cr_difference_count = 0, cr_bill_only_count = 0,
      cr_bill_only_amount = 0, cr_calc_only_count = 0, cr_calc_only_amount = 0, cr_no_config_count = 0,
      cr_children = []\<rparr>"

definition compare_period :: "bill_db \<Rightarrow> bill_period \<Rightarrow> nat \<Rightarrow> comparison outcome" where
  "compare_period db b org =
     (case find_org_state db org of
        Inl e \<Rightarrow> Inl (internal_wrap e ''failed to fetch organization'')
      | Inr state \<Rightarrow>
          (let periods = (case find_by_state_with_details db state of Inl e \<Rightarrow> [] | Inr ps \<Rightarrow> ps);
               labels = build_label_map periods
           in case resolve_vouchers_to_contracts db org (map gc_voucher (bl_children b)) (p_from b) of
                (ids, contracts) \<Rightarrow>
                  (let active = find_children_active_on db org (p_from b);
                       settled = find_settled_later db org (p_from b);
                       rows = map (compare_group b periods labels ids contracts active settled)
                                (group_bill_children_by_child (bl_children b) ids contracts);
                       matched = List.map_filter co_child_id rows;
                       rest = filter (\<lambda>c. pn_id c \<notin> set matched) active;
                       vouchers = find_vouchers_by_child_ids db (map pn_id rest);
                       only = List.map_filter (calc_only_child db org b (find_period_for_date periods (p_from b))
                                labels settled vouchers) rest;
                       r = foldl add_calc_only (foldl add_compared (empty_comparison b) rows) only
                   in Inr (r\<lparr>cr_children_count := int (length (cr_children r)),
                             cr_difference := s64 (cr_bill_total r - cr_calc_total r)\<rparr>))))"

section \<open>The bills to compare\<close>

definition not_found_or :: "string \<Rightarrow> string \<Rightarrow> go_error \<Rightarrow> go_error" where
  "not_found_or what message e =
     (if is_store_error e StoreNotFound then not_found what else internal_wrap e message)"

definition compare_bill :: "bill_db \<Rightarrow> nat \<Rightarrow> nat \<Rightarrow> comparison outcome" where
  "compare_bill db i org =
     (case find_bill_by_id db i of
        Inl e \<Rightarrow> Inl (not_found_or ''bill period'' ''failed to fetch bill period'' e)
      | Inr b \<Rightarrow> if bl_org b \<noteq> org then Inl (not_found ''bill period'') else compare_period db b org)"

definition compare_by_date :: "bill_db \<Rightarrow> nat \<Rightarrow> gtime \<Rightarrow> comparison outcome" where
  "compare_by_date db org date =
     (case find_by_org_and_month db org date of
        Inl e \<Rightarrow> Inl (not_found_or ''bill for the specified date'' ''failed to find bill by date'' e)
      | Inr b \<Rightarrow> compare_period db b org)"

definition compare_latest :: "bill_db \<Rightarrow> nat \<Rightarrow> comparison outcome" where
  "compare_latest db org =
     (case find_latest_by_organization db org of
        Inl e \<Rightarrow> Inl (not_found_or ''bills for this organization'' ''failed to find latest bill'' e)
      | Inr b \<Rightarrow> compare_period db b org)"

text \<open>A month without a bill is skipped.\<close>

fun compare_months :: "bill_db \<Rightarrow> nat \<Rightarrow> gtime list \<Rightarrow> comparison list outcome" where
  "compare_months db org [] = Inr []"
| "compare_months db org (d # ds) =
     (case find_by_org_and_month db org d of
        Inl e \<Rightarrow> if is_store_error e StoreNotFound then compare_months db org ds
                 else Inl (internal_wrap e (''failed to find bill for '' @ take 7 (format_date d)))
      | Inr b \<Rightarrow> bindE (compare_period db b org) (\<lambda>c.
                 bindE (compare_months db org ds) (\<lambda>cs. Inr (c # cs))))"

definition compare_range :: "bill_db \<Rightarrow> nat \<Rightarrow> gtime \<Rightarrow> gtime \<Rightarrow> comparison list outcome" where
  "compare_range db org from to = compare_months db org (month_dates from to)"

text \<open>Corrections of the months in a range: those whose month has a bill, and the others.\<close>

definition attributed_corrections :: "bill_db \<Rightarrow> nat \<Rightarrow> gtime \<Rightarrow> gtime \<Rightarrow> int \<times> int" where
  "attributed_corrections db org from to =
     (let billed = map fst (find_facility_totals db org from to)
      in foldl (\<lambda>(b, o') (m, _, c). if m \<in> set billed then (s64 (b + c), o') else (b, s64 (o' + c)))
           (0, 0) (find_bill_totals_attributed db org from to))"

end
