(* ===== verification/BillSummary.thy ===== *)
theory BillSummary
  imports BillCompare
begin

text \<open>
  The summary over several comparisons (\<open>BuildComparisonSummary\<close> and \<open>CompareRangeSummary\<close> of
  \<open>internal/service/government_funding_bill.go\<close>): five categories of the total difference with the
  children they concern, and the issues of each child added up over the months. The Go maps
  are association lists in the order of insertion; the code iterates over a map before it
  sorts, so that the order of issues that compare equal is open there.
\<close>

section \<open>Accumulators\<close>

datatype category = RateDifference | PropertyMismatch | NotBilled | BillOnly | CalcOnly

fun category_text :: "category \<Rightarrow> string" where
  "category_text RateDifference = ''rate_difference''"
| "category_text PropertyMismatch = ''property_mismatch''"
| "category_text NotBilled = status_not_billed"
| "category_text BillOnly = ''bill_only''"
| "category_text CalcOnly = ''calc_only''"

record cat_accum =
  cc_amount :: int
  cc_children :: "string list"

record issue_summary =
  iu_voucher :: string
  iu_name :: string
  iu_child :: "nat option"
  iu_category :: category
  iu_type :: mismatch_type
  iu_description :: string
  iu_key :: string
  iu_calc_value :: string
  iu_bill_value :: string
  iu_per_month :: int
  iu_months :: int
  iu_amount :: int
  iu_settled :: int
  iu_actionable :: bool

record issue_accum =
  ia_issue :: issue_summary
  ia_months :: "string list"
  ia_sum :: int
  ia_settled :: int

text \<open>Child, property key and issue type.\<close>

type_synonym issue_key = "string \<times> string \<times> string"

record summary_state =
  sa_cats :: "category \<Rightarrow> cat_accum"
  sa_issues :: "(issue_key \<times> issue_accum) list"

definition child_key_for :: "comparison_child \<Rightarrow> string" where
  "child_key_for co = (case co_child_id co of Some i \<Rightarrow> digits_of i | None \<Rightarrow> co_voucher co)"

definition add_category :: "category \<Rightarrow> int \<Rightarrow> string \<Rightarrow> summary_state \<Rightarrow> summary_state" where
  "add_category c amount key s =
     s\<lparr>sa_cats := (sa_cats s)(c :=
         \<lparr>cc_amount = s64 (cc_amount (sa_cats s c) + amount),
          cc_children = List.insert key (cc_children (sa_cats s c))\<rparr>)\<rparr>"

definition new_issue :: "comparison_child \<Rightarrow> category \<Rightarrow> mismatch_type \<Rightarrow> string \<Rightarrow> string \<Rightarrow> issue_accum" where
  "new_issue co c typ key text =
     \<lparr>ia_issue = \<lparr>iu_voucher = co_voucher co, iu_name = co_name co, iu_child = co_child_id co,
                  iu_category = c, iu_type = typ, iu_description = text, iu_key = key,
                  iu_calc_value = [], iu_bill_value = [], iu_per_month = 0, iu_months = 0,
                  iu_amount = 0, iu_settled = 0, iu_actionable = True\<rparr>,
      ia_months = [], ia_sum = 0, ia_settled = 0\<rparr>"

definition bump :: "int \<Rightarrow> int \<Rightarrow> string \<Rightarrow> (issue_summary \<Rightarrow> issue_summary) \<Rightarrow> issue_accum \<Rightarrow> issue_accum" where
  "bump amount settled month note a =
     a\<lparr>ia_issue := note (ia_issue a), ia_months := List.insert month (ia_months a),
       ia_sum := s64 (ia_sum a + amount), ia_settled := s64 (ia_settled a + settled)\<rparr>"

definition add_issue ::
    "issue_key \<Rightarrow> issue_accum \<Rightarrow> int \<Rightarrow> int \<Rightarrow> string \<Rightarrow> (issue_summary \<Rightarrow> issue_summary) \<Rightarrow>
      summary_state \<Rightarrow> summary_state" where
  "add_issue key fresh amount settled month note s =
     s\<lparr>sa_issues := alist_add key (bump amount settled month note fresh)
         (\<lambda>a _. bump amount settled month note a) (sa_issues s)\<rparr>"

section \<open>One row\<close>

text \<open>The three statuses that stand for a whole month: one category, one issue.\<close>

definition whole_month ::
    "string \<Rightarrow> comparison_child \<Rightarrow> category \<Rightarrow> int \<Rightarrow> int \<Rightarrow> string \<Rightarrow> summary_state \<Rightarrow> summary_state" where
  "whole_month month co c amount settled text s =
     (let s1 = add_category c amount (child_key_for co) s
      in if amount = 0 then s1
         else add_issue (child_key_for co, [], category_text c) (new_issue co c MismatchNone [] text)
                amount settled month id s1)"

definition note_values :: "comparison_amount \<Rightarrow> issue_summary \<Rightarrow> issue_summary" where
  "note_values p i =
     (case ca_mismatch p of
        MismatchMissing \<Rightarrow> i\<lparr>iu_calc_value := ca_value p\<rparr>
      | MismatchAdditional \<Rightarrow> i\<lparr>iu_bill_value := ca_value p\<rparr>
      | MismatchDifferent \<Rightarrow>
          (let j = (if ca_bill p \<noteq> None then i\<lparr>iu_bill_value := ca_value p\<rparr> else i)
           in if ca_calc p \<noteq> None then j\<lparr>iu_calc_value := ca_value p\<rparr> else j)
      | MismatchNone \<Rightarrow> i)"

definition summarize_property ::
    "string \<Rightarrow> comparison_child \<Rightarrow> summary_state \<Rightarrow> comparison_amount \<Rightarrow> summary_state" where
  "summarize_property month co s p =
     (if ca_difference p = 0 then s
      else if ca_mismatch p = MismatchNone
      then add_category RateDifference (ca_difference p) (child_key_for co) s
      else add_issue (child_key_for co, ca_key p, mismatch_text (ca_mismatch p))
             (new_issue co PropertyMismatch (ca_mismatch p) (ca_key p) [])
             (ca_difference p) 0 month (note_values p)
             (add_category PropertyMismatch (ca_difference p) (child_key_for co) s))"

definition summarize_child :: "string \<Rightarrow> summary_state \<Rightarrow> comparison_child \<Rightarrow> summary_state" where
  "summarize_child month s co =
     (if co_status co = status_bill_only
      then whole_month month co BillOnly (co_bill_total co) 0
             ''child in bill but no matching contract in system'' s
      else if co_status co = status_calc_only
      then whole_month month co CalcOnly (- or_zero (co_calc_total co)) (or_zero (co_settled co))
             ''child has contract but does not appear in bill'' s
      else if co_status co = status_not_billed
      then whole_month month co NotBilled (or_zero (co_difference co)) (or_zero (co_settled co))
             ''child has an active contract but this bill carries no billing row for it'' s
      else if co_status co = status_match \<or> co_status co = status_difference
      then foldl (summarize_property month co) s (co_properties co)
      else s)"

definition summarize_comparison :: "summary_state \<Rightarrow> comparison \<Rightarrow> summary_state" where
  "summarize_comparison s r = foldl (summarize_child (cr_from r)) s (cr_children r)"

definition empty_summary :: summary_state where
  "empty_summary = \<lparr>sa_cats = (\<lambda>_. \<lparr>cc_amount = 0, cc_children = []\<rparr>), sa_issues = []\<rparr>"

section \<open>The result\<close>

text \<open>Integer division of Go: towards zero.\<close>

definition go_div :: "int \<Rightarrow> int \<Rightarrow> int" where
  "go_div a b = sgn a * sgn b * (\<bar>a\<bar> div \<bar>b\<bar>)"

definition abs64 :: "int \<Rightarrow> int" where
  "abs64 x = (if x < 0 then s64 (- x) else x)"

definition issue_description :: "issue_summary \<Rightarrow> string" where
  "issue_description i =
     (if iu_category i \<in> {BillOnly, CalcOnly, NotBilled} then iu_description i
      else case iu_type i of
        MismatchMissing \<Rightarrow> iu_key i @ '':'' @ iu_calc_value i @ '' '' @ em_dash @ '' in contract but not billed''
      | MismatchAdditional \<Rightarrow> iu_key i @ '':'' @ iu_bill_value i @ '' '' @ em_dash @ '' billed but not in contract''
      | MismatchDifferent \<Rightarrow> iu_key i @ '' '' @ em_dash @ '' bill has '' @ [CHR 0x27] @ iu_bill_value i @ [CHR 0x27]
          @ '', contract has '' @ [CHR 0x27] @ iu_calc_value i @ [CHR 0x27]
      | MismatchNone \<Rightarrow> iu_description i)"

definition finalize_issue :: "issue_accum \<Rightarrow> issue_summary option" where
  "finalize_issue a =
     (if ia_sum a = 0 then None
      else let n = int (length (ia_months a));
               i = (ia_issue a)\<lparr>iu_amount := ia_sum a, iu_months := n,
                     iu_per_month := (if 0 < n then go_div (ia_sum a) n else iu_per_month (ia_issue a))\<rparr>;
               j = (if ia_settled a = 0 then i
                    else i\<lparr>iu_settled := ia_settled a,
                           iu_actionable := (s64 (ia_sum a + ia_settled a) \<noteq> 0)\<rparr>)
           in Some (j\<lparr>iu_description := issue_description j\<rparr>))"

definition issue_child_key :: "issue_summary \<Rightarrow> string" where
  "issue_child_key i = (case iu_child i of Some n \<Rightarrow> digits_of n | None \<Rightarrow> iu_voucher i)"

definition child_impact :: "issue_summary list \<Rightarrow> (string \<times> int) list" where
  "child_impact is =
     foldl (\<lambda>m i. alist_add (issue_child_key i) (s64 (abs64 (iu_amount i)))
                    (\<lambda>w _. s64 (w + abs64 (iu_amount i))) m) [] is"

definition sort_issues :: "issue_summary list \<Rightarrow> issue_summary list" where
  "sort_issues is =
     (let impact = (\<lambda>i. or_zero (map_of (child_impact is) (issue_child_key i)))
      in sort_key (\<lambda>i. - impact i) (sort_key issue_child_key (sort_key (\<lambda>i. - abs64 (iu_amount i)) is)))"

record category_summary =
  cy_category :: category
  cy_amount :: int
  cy_count :: int
  cy_actionable :: bool

definition category_summaries :: "(category \<Rightarrow> cat_accum) \<Rightarrow> category_summary list" where
  "category_summaries cats =
     List.map_filter (\<lambda>(c, actionable).
         if cc_amount (cats c) \<noteq> 0 \<or> cc_children (cats c) \<noteq> []
         then Some \<lparr>cy_category = c, cy_amount = cc_amount (cats c),
                    cy_count = int (length (cc_children (cats c))), cy_actionable = actionable\<rparr>
         else None)
       [(PropertyMismatch, True), (NotBilled, True), (BillOnly, True), (CalcOnly, True), (RateDifference, False)]"

record comparison_summary =
  fs_billed :: int
  fs_calculated :: int
  fs_difference :: int
  fs_corrections :: int
  fs_manual :: int
  fs_attributed :: "int option"
  fs_orphan :: "int option"
  fs_months :: int
  fs_categories :: "category_summary list"
  fs_issues :: "issue_summary list"

definition build_comparison_summary :: "comparison list \<Rightarrow> comparison_summary" where
  "build_comparison_summary rs =
     (let s = foldl summarize_comparison empty_summary rs;
          billed = sum64 (map cr_bill_total rs);
          calculated = sum64 (map cr_calc_total rs)
      in \<lparr>fs_billed = billed, fs_calculated = calculated, fs_difference = s64 (billed - calculated),
          fs_corrections = sum64 (map cr_correction_total rs),
          fs_manual = sum64 (map cr_manual_correction rs),
          fs_attributed = None, fs_orphan = None, fs_months = int (length rs),
          fs_categories = category_summaries (sa_cats s),
          fs_issues = sort_issues (List.map_filter (finalize_issue \<circ> snd) (sa_issues s))\<rparr>)"

definition compare_range_summary ::
    "bill_db \<Rightarrow> nat \<Rightarrow> gtime \<Rightarrow> gtime \<Rightarrow> (comparison list \<times> comparison_summary) outcome" where
  "compare_range_summary db org from to =
     bindE (compare_range db org from to) (\<lambda>rs.
       case attributed_corrections db org from to of (billed, orphan) \<Rightarrow>
         Inr (rs, (build_comparison_summary rs)\<lparr>fs_attributed := Some billed, fs_orphan := Some orphan\<rparr>))"

end
