(* ===== verification/BillLaws.thy ===== *)
theory BillLaws
  imports BillSummary StatisticsLaws
begin

text \<open>
  Laws of the comparison: amounts by key add up to the totals they were collected with, the
  properties of a row to its difference, the rows to the totals of the comparison
  (\<open>accounted\<close>), the five categories of the summary to the total difference (\<open>cat_total\<close>) and
  the issues to their categories (\<open>ledger\<close>). All sums are in 64-bit arithmetic.
\<close>

section \<open>Sums in 64-bit arithmetic\<close>

lemma s64_eq_iff: "s64 x = s64 y \<longleftrightarrow> x mod 2 ^ 64 = y mod 2 ^ 64"
  using s64_mod s64_cong by metis

lemma s64_cong_add: "s64 a = s64 b \<Longrightarrow> s64 c = s64 d \<Longrightarrow> s64 (a + c) = s64 (b + d)"
  by (metis s64_add_left s64_add_right)

lemma s64_cong_diff: "s64 a = s64 b \<Longrightarrow> s64 c = s64 d \<Longrightarrow> s64 (a - c) = s64 (b - d)"
  by (metis s64_diff_left s64_diff_right)

lemma s64_sum_list: "s64 (sum_list (map (\<lambda>x. s64 (f x)) xs)) = s64 (sum_list (map f xs))"
  by (induction xs) (simp_all, metis s64_add_right)

lemma s64_sum_cong:
  assumes "\<And>x. x \<in> set xs \<Longrightarrow> s64 (f x) = s64 (g x)"
  shows "s64 (sum_list (map f xs)) = s64 (sum_list (map g xs))"
  using assms
proof (induction xs)
  case (Cons x xs)
  then have "s64 (f x) = s64 (g x)" and "s64 (sum_list (map f xs)) = s64 (sum_list (map g xs))" by simp_all
  from s64_cong_add [OF this] show ?case by simp
qed simp

lemma s64_alist_add:
  fixes g :: "'v \<Rightarrow> int"
  assumes "distinct (map fst m)" and "\<And>w. (k, w) \<in> set m \<Longrightarrow> s64 (g (f w v)) = s64 (g w + d)"
    and "s64 (g v) = s64 d"
  shows "s64 (sum_list (map (\<lambda>(_, x). g x) (alist_add k v f m)))
    = s64 (sum_list (map (\<lambda>(_, x). g x) m) + d)"
  unfolding s64_eq_iff by (rule sum_alist_add) (use assms in \<open>simp_all only: s64_eq_iff\<close>)

definition amount_sum :: "amounts \<Rightarrow> int" where
  "amount_sum m = sum_list (map snd m)"

lemma amount_fold:
  assumes "distinct (map fst m)" and "s64 acc = s64 (amount_sum m)"
    and "foldl (\<lambda>(m, acc) p. (add_amount (f p) (g p) m, s64 (acc + g p))) (m, acc) ps = (m', t)"
  shows "distinct (map fst m') \<and> s64 t = s64 (amount_sum m') \<and> s64 t = s64 (acc + sum_list (map g ps))"
  using assms
proof (induction ps arbitrary: m acc)
  case (Cons p ps)
  have "s64 (amount_sum (add_amount (f p) (g p) m)) = s64 (amount_sum m + g p)"
    unfolding amount_sum_def add_amount_def
    using s64_alist_add [of m "f p" "\<lambda>x. x" "\<lambda>w _. s64 (w + g p)" "s64 (g p)" "g p"] Cons.prems(1)
    by (simp add: case_prod_unfold comp_def)
  also have "\<dots> = s64 (acc + g p)" using Cons.prems(2) by (metis s64_add_left)
  finally have s: "s64 (s64 (acc + g p)) = s64 (amount_sum (add_amount (f p) (g p) m))" by simp
  have d: "distinct (map fst (add_amount (f p) (g p) m))"
    unfolding add_amount_def by (rule distinct_alist_add [OF Cons.prems(1)])
  from Cons.IH [OF d s] Cons.prems(3) show ?case by (simp add: add.assoc)
qed simp

lemma s64_amounts: "s64 acc = acc \<Longrightarrow>
    foldl (\<lambda>(m, acc) p. (add_amount (f p) (g p) m, s64 (acc + g p))) (m, acc) ps = (m', t) \<Longrightarrow> s64 t = t"
proof (induction ps arbitrary: m acc)
  case (Cons p ps)
  show ?case by (rule Cons.IH [of "s64 (acc + g p)"]) (use Cons.prems in simp_all)
qed simp

lemma bill_amounts:
  assumes "bill_payments_to_amount_map ps ty = (m, t)"
  shows "distinct (map fst m)" "s64 t = s64 (amount_sum m)" "s64 t = t"
    "t = s64 (sum_list (map by_amount (filter (\<lambda>p. ty = [] \<or> by_row_type p = ty) ps)))"
proof -
  note d = assms [unfolded bill_payments_to_amount_map_def]
  from amount_fold [OF _ _ d] show "distinct (map fst m)" "s64 t = s64 (amount_sum m)"
    by (simp_all add: amount_sum_def)
  from s64_amounts [OF _ d] show "s64 t = t" by simp
  moreover from amount_fold [OF _ _ d]
  have "s64 t = s64 (sum_list (map by_amount (filter (\<lambda>p. ty = [] \<or> by_row_type p = ty) ps)))"
    by (simp add: amount_sum_def)
  ultimately show "t = s64 (sum_list (map by_amount (filter (\<lambda>p. ty = [] \<or> by_row_type p = ty) ps)))"
    by simp
qed

lemma calc_amounts:
  assumes "calc_amounts_from_funding age props period = (m, t)"
  shows "distinct (map fst m)" "s64 t = s64 (amount_sum m)" "s64 t = t"
proof -
  note d = assms [unfolded calc_amounts_from_funding_def]
  from amount_fold [OF _ _ d] show "distinct (map fst m)" "s64 t = s64 (amount_sum m)"
    by (simp_all add: amount_sum_def)
  from s64_amounts [OF _ d] show "s64 t = t" by simp
qed

lemma sum_map_of:
  assumes "distinct (map fst m)" and "finite S" and "fst ` set m \<subseteq> S"
  shows "(\<Sum>kv\<in>S. or_zero (map_of m kv)) = amount_sum m"
  using assms
proof (induction m)
  case Nil
  then show ?case by (simp add: or_zero_def amount_sum_def)
next
  case (Cons p m)
  obtain k a where p: "p = (k, a)" by (cases p)
  have k: "k \<in> S" "map_of m k = None" using Cons.prems p by (auto simp add: map_of_eq_None_iff)
  have "(\<Sum>kv\<in>S. or_zero (map_of (p # m) kv)) = (\<Sum>kv\<in>S. or_zero (map_of m kv) + (if kv = k then a else 0))"
    using k by (intro sum.cong) (auto simp add: p or_zero_def)
  also have "\<dots> = (\<Sum>kv\<in>S. or_zero (map_of m kv)) + a" using k Cons.prems(2) by (simp add: sum.distrib)
  finally show ?case using Cons.IH Cons.prems by (simp add: p amount_sum_def)
qed

text \<open>The differences of the properties add up to the difference of the two sides.\<close>

lemma comparison_properties_sum:
  assumes "distinct (map fst bill)" and "distinct (map fst calc)"
  shows "s64 (sum_list (map ca_difference (build_comparison_properties bill calc labels)))
    = s64 (amount_sum bill - amount_sum calc)"
proof -
  let ?k = "sort (all_kvs bill calc)"
  let ?d = "\<lambda>kv. or_zero (map_of bill kv) - or_zero (map_of calc kv)"
  have d: "distinct ?k" "set ?k = fst ` set bill \<union> fst ` set calc"
    by (simp_all add: all_kvs_def)
  have m: "map ca_difference (build_comparison_properties bill calc labels) = map (\<lambda>kv. s64 (?d kv)) ?k"
    by (simp add: build_comparison_properties_def Let_def comp_def case_prod_unfold)
  have "s64 (sum_list (map ca_difference (build_comparison_properties bill calc labels)))
      = s64 (sum_list (map ?d ?k))"
    unfolding m by (rule s64_sum_list)
  also have "sum_list (map ?d ?k) = (\<Sum>kv\<in>set ?k. ?d kv)" using d(1) by (simp add: sum_list_distinct_conv_sum_set)
  also have "\<dots> = amount_sum bill - amount_sum calc"
    unfolding sum_subtractf by (subst (1 2) sum_map_of) (use assms d(2) in auto)
  finally show ?thesis .
qed

section \<open>The rows of a comparison\<close>

lemma or_zero_None: "or_zero None = 0"
  by (simp add: or_zero_def)

text \<open>What a row adds to the difference of its bill.\<close>

definition row_balance :: "comparison_child \<Rightarrow> int" where
  "row_balance co =
     (if co_status co = status_no_config then 0 else co_bill_total co - or_zero (co_calc_total co))"

definition row_statuses :: "string list" where
  "row_statuses = [status_match, status_difference, status_not_billed, status_bill_only, status_no_config]"

text \<open>The amounts the summary takes from a row stand for what it adds.\<close>

definition balanced :: "comparison_child \<Rightarrow> bool" where
  "balanced co \<longleftrightarrow>
     (co_status co = status_bill_only \<longrightarrow> co_calc_total co = None) \<and>
     (co_status co = status_calc_only \<longrightarrow> co_bill_total co = 0) \<and>
     (co_status co = status_not_billed \<longrightarrow> s64 (or_zero (co_difference co)) = s64 (row_balance co)) \<and>
     (co_status co = status_match \<or> co_status co = status_difference \<longrightarrow>
        s64 (sum_list (map ca_difference (co_properties co))) = s64 (row_balance co)) \<and>
     co_status co \<in> set (status_calc_only # row_statuses)"

lemma apply_settlement_fields:
  "\<exists>a ms. apply_settlement settled child co = co\<lparr>co_settled := a, co_settled_months := ms\<rparr>"
proof -
  have self: "\<exists>a ms. co = co\<lparr>co_settled := a, co_settled_months := ms\<rparr>"
    by (intro exI [of _ "co_settled co"] exI [of _ "co_settled_months co"]) simp
  have "apply_settlement settled child co = co \<or>
      (\<exists>a ms. apply_settlement settled child co = co\<lparr>co_settled := Some a, co_settled_months := ms\<rparr>)"
    unfolding apply_settlement_def
    by (cases child; simp; cases "settled (the child)"; simp split: prod.split; blast)
  with self show ?thesis by (elim disjE exE) auto
qed

lemma child_result_cases:
  assumes "r = compute_child_comparison payments contract birthdate date periods labels"
  shows "rs_bill_total r = s64 (sum_list (map by_amount (filter (\<lambda>p. by_row_type p = row_regular) payments)))"
    and "rs_correction_total r
      = s64 (sum_list (map by_amount (filter (\<lambda>p. by_row_type p = row_correction) payments)))"
    and "contract = None \<Longrightarrow> rs_status r = status_bill_only \<and> rs_calc_total r = None \<and> \<not> rs_cannot_compute r"
    and "contract \<noteq> None \<Longrightarrow> rs_status r \<in> {status_match, status_not_billed, status_difference} \<and>
      (\<exists>t. rs_calc_total r = Some t \<and> rs_difference r = Some (s64 (rs_bill_total r - t)) \<and>
        s64 (sum_list (map ca_difference (rs_properties r))) = s64 (rs_bill_total r - t))"
proof -
  obtain bill b where b: "bill_payments_to_amount_map payments row_regular = (bill, b)" by fastforce
  obtain corr c where c: "bill_payments_to_amount_map payments row_correction = (corr, c)" by fastforce
  let ?cannot = "find_period_for_date periods date = None \<or> birthdate = None"
  obtain calc t where t: "(if ?cannot then ([], 0)
      else calc_amounts_from_funding (funding_age_on_date (the birthdate) date) (c_props (the contract))
        (find_period_for_date periods date)) = (calc, t)" by fastforce
  have t': "contract = Some k \<Longrightarrow> (if ?cannot then ([], 0)
      else calc_amounts_from_funding (the (map_option (\<lambda>b. funding_age_on_date b date) birthdate)) (c_props k)
        (find_period_for_date periods date)) = (calc, t)" for k
    using t by (cases birthdate; cases "find_period_for_date periods date") simp_all
  have r: "rs_bill_total r = b" "rs_correction_total r = c"
    by (simp_all add: assms compute_child_comparison_def b c Let_def split: option.splits prod.splits)
  show "rs_bill_total r = s64 (sum_list (map by_amount (filter (\<lambda>p. by_row_type p = row_regular) payments)))"
    "rs_correction_total r
      = s64 (sum_list (map by_amount (filter (\<lambda>p. by_row_type p = row_correction) payments)))"
    using bill_amounts(4) [OF b] bill_amounts(4) [OF c] r by simp_all
  show "rs_status r = status_bill_only \<and> rs_calc_total r = None \<and> \<not> rs_cannot_compute r"
    if "contract = None" using that by (simp add: assms compute_child_comparison_def b Let_def)
  show "rs_status r \<in> {status_match, status_not_billed, status_difference} \<and>
      (\<exists>t. rs_calc_total r = Some t \<and> rs_difference r = Some (s64 (rs_bill_total r - t)) \<and>
        s64 (sum_list (map ca_difference (rs_properties r))) = s64 (rs_bill_total r - t))"
    if some: "contract \<noteq> None"
  proof -
    obtain k where k: "contract = Some k" using some by auto
    have cs: "distinct (map fst calc)" "s64 t = s64 (amount_sum calc)"
      using t calc_amounts by (auto simp add: amount_sum_def split: if_splits)
    have "s64 (sum_list (map ca_difference (build_comparison_properties bill calc labels))) = s64 (b - t)"
      using comparison_properties_sum [OF bill_amounts(1) [OF b] cs(1)] s64_cong_diff
        [OF bill_amounts(2) [OF b] cs(2)] by simp
    then show ?thesis
      by (simp add: assms compute_child_comparison_def b k Let_def t' [OF k])
  qed
qed

lemma compare_group_row:
  assumes "co = compare_group b periods labels ids contracts active settled grp"
    and "(row, vouchers) = merge_bill_children grp"
  shows "co_bill_total co = s64 (sum_list (map by_amount (filter (\<lambda>p. by_row_type p = row_regular) (gc_payments row))))"
    and "co_correction_total co
      = s64 (sum_list (map by_amount (filter (\<lambda>p. by_row_type p = row_correction) (gc_payments row))))"
    and "co_child_id co = map_option c_owner (case resolve_row ids contracts row of None \<Rightarrow> None | Some i \<Rightarrow> contracts i)"
    and "balanced co" and "co_status co \<in> set row_statuses"
proof -
  define contract where "contract = (case resolve_row ids contracts row of None \<Rightarrow> None | Some i \<Rightarrow> contracts i)"
  define r where "r = compute_child_comparison (gc_payments row) contract
    (map_option pn_birthdate (case map_option c_owner contract of None \<Rightarrow> None
       | Some i \<Rightarrow> find (\<lambda>c. pn_id c = i) (rev active))) (p_from b) periods labels"
  define r' where "r' = (if rs_cannot_compute r
                 then r\<lparr>rs_status := status_no_config, rs_calc_total := None, rs_difference := None,
                        rs_properties := build_bill_only_properties (gc_payments row) labels\<rparr>
                 else r)"
  obtain a ms where fields: "co_bill_total co = rs_bill_total r'" "co_correction_total co = rs_correction_total r'"
      "co_calc_total co = rs_calc_total r'" "co_difference co = rs_difference r'" "co_status co = rs_status r'"
      "co_properties co = rs_properties r'" "co_child_id co = map_option c_owner contract"
  proof -
    let ?x = "\<lparr>co_voucher = gc_voucher row, co_vouchers = (if 1 < length vouchers then vouchers else []),
             co_name = (case (case map_option c_owner contract of None \<Rightarrow> None
               | Some i \<Rightarrow> find (\<lambda>c. pn_id c = i) (rev active)) of None \<Rightarrow> gc_name row | Some c \<Rightarrow> kita_manager_child_name c),
             co_birth_date = gc_birth_date row, co_child_id = map_option c_owner contract, co_age = rs_age r',
             co_bill_total = rs_bill_total r', co_correction_total = rs_correction_total r',
             co_calc_total = rs_calc_total r', co_difference = rs_difference r',
             co_settled = None, co_settled_months = [], co_status = rs_status r',
             co_properties = rs_properties r', co_appearances = [],
             co_contract_from = None, co_contract_to = None\<rparr>"
    have "co = apply_settlement settled (map_option c_owner contract) ?x"
      unfolding assms(1) compare_group_def assms(2) [symmetric] prod.case Let_def r'_def r_def contract_def
      by (rule refl)
    with apply_settlement_fields [of settled "map_option c_owner contract" ?x] that show ?thesis by auto
  qed
  note rc = child_result_cases [OF r_def]
  have r': "rs_bill_total r' = rs_bill_total r" "rs_correction_total r' = rs_correction_total r"
    by (simp_all add: r'_def)
  show "co_bill_total co = s64 (sum_list (map by_amount (filter (\<lambda>p. by_row_type p = row_regular) (gc_payments row))))"
    "co_correction_total co
      = s64 (sum_list (map by_amount (filter (\<lambda>p. by_row_type p = row_correction) (gc_payments row))))"
    using fields(1,2) r' rc(1,2) by simp_all
  show "co_child_id co = map_option c_owner (case resolve_row ids contracts row of None \<Rightarrow> None | Some i \<Rightarrow> contracts i)"
    using fields(7) contract_def by simp
  have "balanced co \<and> co_status co \<in> set row_statuses"
  proof (cases "rs_cannot_compute r")
    case True
    then show ?thesis using fields by (simp add: balanced_def row_statuses_def r'_def)
  next
    case False
    then have r'r: "r' = r" by (simp add: r'_def)
    show ?thesis
    proof (cases "contract = None")
      case True
      then show ?thesis using rc(3) fields r'r by (simp add: balanced_def row_statuses_def)
    next
      case False
      from rc(4) [OF this] obtain t where t: "rs_calc_total r = Some t"
          "rs_difference r = Some (s64 (rs_bill_total r - t))"
          "s64 (sum_list (map ca_difference (rs_properties r))) = s64 (rs_bill_total r - t)"
        and st: "rs_status r \<in> {status_match, status_not_billed, status_difference}" by blast
      show ?thesis using st t fields r'r
        by (auto simp add: balanced_def row_statuses_def row_balance_def or_zero_def)
    qed
  qed
  then show "balanced co" "co_status co \<in> set row_statuses" by auto
qed

lemma calc_only_child_row:
  assumes "calc_only_child db org b period labels settled vouchers ac = Some (co, t)"
  shows "co_status co = status_calc_only" "co_bill_total co = 0" "co_correction_total co = 0"
    "co_calc_total co = Some t" "co_child_id co = Some (pn_id ac)" "balanced co"
proof -
  obtain x where x: "co = apply_settlement settled (Some (pn_id ac)) x"
      "co_status x = status_calc_only" "co_bill_total x = 0" "co_correction_total x = 0"
      "co_calc_total x = Some t" "co_child_id x = Some (pn_id ac)"
    using assms by (auto simp add: calc_only_child_def Let_def split: if_splits option.splits prod.splits)
  with apply_settlement_fields [of settled "Some (pn_id ac)" x]
  show "co_status co = status_calc_only" "co_bill_total co = 0" "co_correction_total co = 0"
    "co_calc_total co = Some t" "co_child_id co = Some (pn_id ac)" by auto
  then show "balanced co" by (simp add: balanced_def)
qed

section \<open>The totals of a comparison\<close>

lemma add_compared_totals:
  assumes "co_status co \<in> set row_statuses" and "balanced co"
  shows "s64 (cr_bill_total (add_compared r co) - cr_calc_total (add_compared r co))
      = s64 (cr_bill_total r - cr_calc_total r + row_balance co)"
    and "cr_children (add_compared r co) = cr_children r @ [co]"
    and "cr_correction_total (add_compared r co) = s64 (cr_correction_total r + co_correction_total co)"
proof -
  have e: "s64 (s64 (a + b) - s64 (c + d)) = s64 (a - c + (b - d))" for a b c d
    by (simp add: algebra_simps)
  have e': "s64 (s64 (a + b) - cr_calc_total r) = s64 (a - cr_calc_total r + b)" for a b
    by (simp add: algebra_simps)
  show "s64 (cr_bill_total (add_compared r co) - cr_calc_total (add_compared r co))
      = s64 (cr_bill_total r - cr_calc_total r + row_balance co)"
    using assms unfolding row_statuses_def list.set insert_iff empty_iff
    by (elim disjE FalseE) (simp_all add: add_compared_def Let_def balanced_def row_balance_def or_zero_None e e'
      del: s64_diff_left s64_diff_right s64_add_left s64_add_right)
  show "cr_children (add_compared r co) = cr_children r @ [co]"
    "cr_correction_total (add_compared r co) = s64 (cr_correction_total r + co_correction_total co)"
    by (simp_all add: add_compared_def Let_def)
qed

lemma add_calc_only_totals:
  assumes "co_status co = status_calc_only" "co_bill_total co = 0" "co_calc_total co = Some t"
  shows "s64 (cr_bill_total (add_calc_only r (co, t)) - cr_calc_total (add_calc_only r (co, t)))
      = s64 (cr_bill_total r - cr_calc_total r + row_balance co)"
    and "cr_children (add_calc_only r (co, t)) = cr_children r @ [co]"
    and "cr_correction_total (add_calc_only r (co, t)) = cr_correction_total r"
  using assms by (simp_all add: add_calc_only_def row_balance_def or_zero_def algebra_simps)

text \<open>A comparison in which the rows account for the totals.\<close>

definition accounted :: "comparison \<Rightarrow> bool" where
  "accounted r \<longleftrightarrow>
     (\<forall>co \<in> set (cr_children r). balanced co) \<and>
     s64 (cr_bill_total r - cr_calc_total r) = s64 (sum_list (map row_balance (cr_children r))) \<and>
     cr_correction_total r = s64 (sum_list (map co_correction_total (cr_children r)))"

lemma accounted_snoc:
  assumes "accounted r" and "balanced co" and "cr_children r' = cr_children r @ [co]"
    and "s64 (cr_bill_total r' - cr_calc_total r') = s64 (cr_bill_total r - cr_calc_total r + row_balance co)"
    and "cr_correction_total r' = s64 (cr_correction_total r + co_correction_total co)"
  shows "accounted r'"
proof -
  from assms(1) have "s64 (cr_bill_total r - cr_calc_total r) = s64 (sum_list (map row_balance (cr_children r)))"
    by (simp add: accounted_def)
  from s64_cong_add [OF this refl]
  have "s64 (cr_bill_total r - cr_calc_total r + row_balance co)
      = s64 (sum_list (map row_balance (cr_children r)) + row_balance co)" .
  then show ?thesis using assms by (simp add: accounted_def)
qed

lemma accounted_compared:
  assumes "accounted r" and "\<forall>co \<in> set cs. co_status co \<in> set row_statuses \<and> balanced co"
  shows "accounted (foldl add_compared r cs) \<and> cr_children (foldl add_compared r cs) = cr_children r @ cs"
  using assms
proof (induction cs arbitrary: r)
  case (Cons co cs)
  have c: "co_status co \<in> set row_statuses" "balanced co" using Cons.prems by auto
  have "accounted (add_compared r co)"
    by (rule accounted_snoc [OF Cons.prems(1) c(2)]) (rule add_compared_totals [OF c])+
  with Cons show ?case by (simp add: add_compared_totals [OF c])
qed simp

lemma accounted_calc_only:
  assumes "accounted r" and "\<forall>(co, t) \<in> set cs. \<exists>ac. calc_only_child db org b period labels settled vouchers ac = Some (co, t)"
  shows "accounted (foldl add_calc_only r cs) \<and>
    cr_children (foldl add_calc_only r cs) = cr_children r @ map fst cs"
  using assms
proof (induction cs arbitrary: r)
  case (Cons p cs)
  obtain co t where p: "p = (co, t)" by (cases p)
  from Cons.prems p obtain ac where ac: "calc_only_child db org b period labels settled vouchers ac = Some (co, t)"
    by auto
  note f = calc_only_child_row [OF ac] and g = add_calc_only_totals [OF f(1,2,4)]
  have "cr_correction_total r = s64 (cr_correction_total r + co_correction_total co)"
    using Cons.prems(1) f(3) by (simp add: accounted_def)
  then have "accounted (add_calc_only r p)"
    using accounted_snoc [OF Cons.prems(1) f(6), of "add_calc_only r p"] g unfolding p by simp
  with Cons.IH [of "add_calc_only r p"] Cons.prems(2) show ?case by (simp add: p g(2))
qed simp

lemma accounted_empty: "accounted (empty_comparison b)" "cr_children (empty_comparison b) = []"
  by (simp_all add: accounted_def empty_comparison_def)

text \<open>The parts a comparison is built from.\<close>

lemma compare_period_parts:
  assumes "compare_period db b org = Inr r"
  obtains ids contracts periods labels settled vouchers rows only
  where "(ids, contracts) = resolve_vouchers_to_contracts db org (map gc_voucher (bl_children b)) (p_from b)"
    and "rows = map (compare_group b periods labels ids contracts (find_children_active_on db org (p_from b)) settled)
          (group_bill_children_by_child (bl_children b) ids contracts)"
    and "only = List.map_filter (calc_only_child db org b (find_period_for_date periods (p_from b))
          labels settled vouchers)
          (filter (\<lambda>c. pn_id c \<notin> set (List.map_filter co_child_id rows)) (find_children_active_on db org (p_from b)))"
    and "set vouchers \<subseteq> set (kd_vouchers db)"
    and "cr_children r = rows @ map fst only"
    and "accounted r" and "cr_difference r = s64 (cr_bill_total r - cr_calc_total r)"
    and "cr_children_count r = int (length (cr_children r))"
proof -
  obtain state where st: "find_org_state db org = Inr state"
    using assms by (auto simp add: compare_period_def split: sum.splits)
  define periods where "periods = (case find_by_state_with_details db state of Inl e \<Rightarrow> [] | Inr ps \<Rightarrow> ps)"
  define labels where "labels = build_label_map periods"
  obtain ids contracts where rv: "resolve_vouchers_to_contracts db org (map gc_voucher (bl_children b)) (p_from b) = (ids, contracts)"
    by fastforce
  define active where "active = find_children_active_on db org (p_from b)"
  define settled where "settled = find_settled_later db org (p_from b)"
  define rows where "rows = map (compare_group b periods labels ids contracts active settled)
    (group_bill_children_by_child (bl_children b) ids contracts)"
  define rest where "rest = filter (\<lambda>c. pn_id c \<notin> set (List.map_filter co_child_id rows)) active"
  define vouchers where "vouchers = find_vouchers_by_child_ids db (map pn_id rest)"
  define only where "only = List.map_filter (calc_only_child db org b (find_period_for_date periods (p_from b))
    labels settled vouchers) rest"
  define r0 where "r0 = foldl add_calc_only (foldl add_compared (empty_comparison b) rows) only"
  have r: "r = r0\<lparr>cr_children_count := int (length (cr_children r0)),
      cr_difference := s64 (cr_bill_total r0 - cr_calc_total r0)\<rparr>"
    using assms unfolding compare_period_def st sum.case Let_def rv prod.case r0_def only_def vouchers_def
      rest_def rows_def settled_def active_def labels_def periods_def by simp
  have "\<forall>co \<in> set rows. co_status co \<in> set row_statuses \<and> balanced co"
  proof
    fix co assume "co \<in> set rows"
    then obtain grp where g: "co = compare_group b periods labels ids contracts active settled grp"
      by (auto simp add: rows_def)
    obtain row vs where "(row, vs) = merge_bill_children grp" by (metis surj_pair)
    from compare_group_row(4,5) [OF g this] show "co_status co \<in> set row_statuses \<and> balanced co" by simp
  qed
  from accounted_compared [OF accounted_empty(1) this]
  have 1: "accounted (foldl add_compared (empty_comparison b) rows)"
      "cr_children (foldl add_compared (empty_comparison b) rows) = rows" by (simp_all add: accounted_empty)
  have "\<forall>(co, t) \<in> set only. \<exists>ac. calc_only_child db org b (find_period_for_date periods (p_from b))
      labels settled vouchers ac = Some (co, t)"
    by (auto simp add: only_def List.map_filter_def)
  from accounted_calc_only [OF 1(1) this] have 2: "accounted r0" "cr_children r0 = rows @ map fst only"
    using 1(2) by (simp_all add: r0_def)
  show ?thesis
    by (rule that [OF rv [symmetric] rows_def [unfolded active_def] only_def [unfolded rest_def active_def]])
      (use 2 in \<open>auto simp add: r accounted_def vouchers_def find_vouchers_by_child_ids_def\<close>)
qed

section \<open>The categories of the summary\<close>

definition all_categories :: "category list" where
  "all_categories = [PropertyMismatch, NotBilled, BillOnly, CalcOnly, RateDifference]"

definition cat_total :: "summary_state \<Rightarrow> int" where
  "cat_total s = sum_list (map (\<lambda>c. cc_amount (sa_cats s c)) all_categories)"

lemma cats_add_issue [simp]: "sa_cats (add_issue k f a st m n s) = sa_cats s"
  by (simp add: add_issue_def)

lemma cat_total_add_issue [simp]: "cat_total (add_issue k f a st m n s) = cat_total s"
  by (simp add: cat_total_def)

lemma cat_total_add_category: "s64 (cat_total (add_category c a key s)) = s64 (cat_total s + a)"
proof -
  let ?f = "\<lambda>d. cc_amount (sa_cats s d)"
  have "s64 (cat_total (add_category c a key s)) = s64 (sum_list (map (\<lambda>d. ?f d + (if d = c then a else 0)) all_categories))"
    unfolding cat_total_def by (rule s64_sum_cong) (simp add: add_category_def)
  also have "sum_list (map (\<lambda>d. ?f d + (if d = c then a else 0)) all_categories) = cat_total s + a"
    by (cases c) (simp_all add: cat_total_def all_categories_def)
  finally show ?thesis .
qed

lemma cat_total_whole_month: "s64 (cat_total (whole_month month co c a st text s)) = s64 (cat_total s + a)"
  by (simp add: whole_month_def Let_def cat_total_add_category)

lemma cat_total_property:
  "s64 (cat_total (summarize_property month co s p)) = s64 (cat_total s + ca_difference p)"
  by (simp add: summarize_property_def cat_total_add_category)

lemma cat_total_fold:
  assumes "\<And>s x. s64 (cat_total (f s x)) = s64 (cat_total s + g x)"
  shows "s64 (cat_total (foldl f s xs)) = s64 (cat_total s + sum_list (map g xs))"
proof (induction xs arbitrary: s)
  case (Cons x xs)
  from s64_cong_add [OF assms refl] show ?case by (simp add: Cons.IH add.assoc)
qed simp

lemma cat_total_child:
  assumes "balanced co"
  shows "s64 (cat_total (summarize_child month s co)) = s64 (cat_total s + row_balance co)"
proof -
  have "co_status co \<in> set (status_calc_only # row_statuses)" using assms by (simp add: balanced_def)
  then consider "co_status co = status_bill_only" | "co_status co = status_calc_only"
    | "co_status co = status_not_billed" | "co_status co = status_match \<or> co_status co = status_difference"
    | "co_status co = status_no_config" by (auto simp add: row_statuses_def)
  then show ?thesis
  proof cases
    case 1
    then show ?thesis using assms
      by (simp add: summarize_child_def cat_total_whole_month balanced_def row_balance_def or_zero_None)
  next
    case 2
    then show ?thesis using assms
      by (simp add: summarize_child_def cat_total_whole_month balanced_def row_balance_def)
  next
    case 3
    then have "s64 (or_zero (co_difference co)) = s64 (row_balance co)" using assms by (simp add: balanced_def)
    from s64_cong_add [OF refl this] show ?thesis using 3 by (simp add: summarize_child_def cat_total_whole_month)
  next
    case 4
    then have "s64 (sum_list (map ca_difference (co_properties co))) = s64 (row_balance co)"
      using assms by (auto simp add: balanced_def)
    from s64_cong_add [OF refl this] show ?thesis using 4
      by (auto simp add: summarize_child_def cat_total_fold [OF cat_total_property])
  next
    case 5
    then show ?thesis by (simp add: summarize_child_def row_balance_def)
  qed
qed

lemma cat_total_children:
  assumes "\<forall>co \<in> set cs. balanced co"
  shows "s64 (cat_total (foldl (summarize_child month) s cs)) = s64 (cat_total s + sum_list (map row_balance cs))"
  using assms
proof (induction cs arbitrary: s)
  case (Cons co cs)
  have "balanced co" using Cons.prems by simp
  from s64_cong_add [OF cat_total_child [OF this] refl] Cons show ?case by (simp add: add.assoc)
qed simp

lemma cat_total_comparisons:
  assumes "\<forall>r \<in> set rs. accounted r"
  shows "s64 (cat_total (foldl summarize_comparison s rs))
    = s64 (cat_total s + (sum_list (map cr_bill_total rs) - sum_list (map cr_calc_total rs)))"
  using assms
proof (induction rs arbitrary: s)
  case (Cons r rs)
  have a: "\<forall>co \<in> set (cr_children r). balanced co"
    "s64 (cr_bill_total r - cr_calc_total r) = s64 (sum_list (map row_balance (cr_children r)))"
    using Cons.prems by (auto simp add: accounted_def)
  have "s64 (cat_total (summarize_comparison s r)) = s64 (cat_total s + (cr_bill_total r - cr_calc_total r))"
    using cat_total_children [OF a(1)] s64_cong_add [OF refl a(2)] by (simp add: summarize_comparison_def)
  from s64_cong_add [OF this refl]
  have "s64 (cat_total (foldl summarize_comparison s (r # rs)))
      = s64 (cat_total s + (cr_bill_total r - cr_calc_total r)
          + (sum_list (map cr_bill_total rs) - sum_list (map cr_calc_total rs)))"
    using Cons by simp
  then show ?case by (simp add: algebra_simps)
qed simp

lemma category_summaries_sum:
  "sum_list (map cy_amount (category_summaries (sa_cats s))) = cat_total s"
  by (simp add: category_summaries_def cat_total_def all_categories_def List.map_filter_simps)

section \<open>Which comparisons there are\<close>

lemma accounted_comparison: "compare_period db b org = Inr r \<Longrightarrow> accounted r"
  by (erule compare_period_parts)

lemma compare_months_accounted: "compare_months db org ds = Inr rs \<Longrightarrow> \<forall>r \<in> set rs. accounted r"
  by (induction ds arbitrary: rs)
    (auto split: sum.splits if_splits simp add: bindE_eq_Inr dest: accounted_comparison)

lemma categories_exhaustive:
  assumes "compare_range_summary db org from to = Inr (rs, sm)"
  shows "s64 (sum_list (map cy_amount (fs_categories sm))) = fs_difference sm"
proof -
  obtain x y where xy: "attributed_corrections db org from to = (x, y)" by fastforce
  from assms have rs: "compare_months db org (month_dates from to) = Inr rs"
      and sm: "sm = (build_comparison_summary rs)\<lparr>fs_attributed := Some x, fs_orphan := Some y\<rparr>"
    by (auto simp add: compare_range_summary_def compare_range_def bindE_eq_Inr xy)
  have "cat_total empty_summary = 0" by (simp add: cat_total_def all_categories_def empty_summary_def)
  with cat_total_comparisons [OF compare_months_accounted [OF rs], of empty_summary] show ?thesis
    by (simp add: sm build_comparison_summary_def Let_def category_summaries_sum sum64_eq)
qed

section \<open>The issues of the summary\<close>

definition category_of_type :: "string \<Rightarrow> category" where
  "category_of_type ty =
     (if ty = category_text BillOnly then BillOnly else if ty = category_text CalcOnly then CalcOnly
      else if ty = category_text NotBilled then NotBilled else PropertyMismatch)"

lemma category_of_type_category [simp]:
  "c \<notin> {RateDifference, PropertyMismatch} \<Longrightarrow> category_of_type (category_text c) = c"
  by (cases c; simp add: category_of_type_def)

lemma category_of_type_mismatch [simp]: "category_of_type (mismatch_text m) = PropertyMismatch"
  by (cases m; simp add: category_of_type_def)

definition issue_sum :: "category \<Rightarrow> (issue_key \<times> issue_accum) list \<Rightarrow> int" where
  "issue_sum c is = sum_list (map (\<lambda>(_, a). if iu_category (ia_issue a) = c then ia_sum a else 0) is)"

text \<open>The issues of a category add up to its amount, rate differences apart.\<close>

definition ledger :: "summary_state \<Rightarrow> bool" where
  "ledger s \<longleftrightarrow>
     distinct (map fst (sa_issues s)) \<and>
     (\<forall>((_, _, ty), a) \<in> set (sa_issues s). iu_category (ia_issue a) = category_of_type ty) \<and>
     (\<forall>c. s64 (cc_amount (sa_cats s c)) = cc_amount (sa_cats s c)) \<and>
     (\<forall>c. c \<noteq> RateDifference \<longrightarrow> s64 (issue_sum c (sa_issues s)) = cc_amount (sa_cats s c))"

lemma ledger_add_category:
  assumes "ledger s" and "c = RateDifference \<or> a = 0"
  shows "ledger (add_category c a key s)"
  using assms by (auto simp add: ledger_def add_category_def)

lemma alist_add_in:
  assumes "(k', w) \<in> set (alist_add k v f m)"
  shows "(k', w) \<in> set m \<or> k' = k \<and> (w = v \<or> (\<exists>w'. (k, w') \<in> set m \<and> w = f w' v))"
  using assms by (auto simp add: alist_add_def split: option.splits if_splits)

lemma ledger_add_issue:
  assumes s: "ledger s" and c: "c = category_of_type ty" and c': "c \<noteq> RateDifference"
    and fresh: "iu_category (ia_issue fresh) = c" "ia_sum fresh = 0"
    and keep: "\<And>i. iu_category (n i) = iu_category i"
  shows "ledger (add_issue (ck, pk, ty) fresh a st month n (add_category c a ck s))"
proof -
  let ?k = "(ck, pk, ty)" and ?m = "sa_issues s" and ?v = "bump a st month n fresh"
  let ?f = "\<lambda>w _. bump a st month n w"
  let ?m' = "alist_add ?k ?v ?f ?m"
  have d: "distinct (map fst ?m)" using s by (simp add: ledger_def)
  have same: "iu_category (ia_issue w) = c" if "(?k, w) \<in> set ?m" for w
    using s that c by (auto simp add: ledger_def)
  have sums: "s64 (issue_sum e ?m') = s64 (issue_sum e ?m + (if e = c then a else 0))" for e
    unfolding issue_sum_def
    by (rule s64_alist_add [OF d]) (use same fresh keep in \<open>auto simp add: bump_def\<close>)
  have "s64 (issue_sum e ?m') = s64 (cc_amount (sa_cats s e) + (if e = c then a else 0))" if ne: "e \<noteq> RateDifference" for e
  proof -
    from s that have "s64 (issue_sum e ?m) = s64 (cc_amount (sa_cats s e))" by (simp add: ledger_def)
    from sums [of e] s64_cong_add [OF this refl] show ?thesis by simp
  qed
  moreover have "\<forall>((_, _, ty), a) \<in> set ?m'. iu_category (ia_issue a) = category_of_type ty"
  proof (intro ballI, clarify)
    fix x y z w assume w: "((x, y, z), w) \<in> set ?m'"
    from alist_add_in [OF w] show "iu_category (ia_issue w) = category_of_type z"
    proof (elim disjE conjE exE)
      assume "((x, y, z), w) \<in> set ?m"
      then show ?thesis using s by (auto simp add: ledger_def)
    qed (use same fresh keep c in \<open>auto simp add: bump_def\<close>)
  qed
  ultimately show ?thesis
    using s distinct_alist_add [OF d, of ?k ?v ?f] c'
    by (auto simp add: ledger_def add_issue_def add_category_def)
qed

lemma ledger_whole_month:
  assumes "ledger s" and "c \<notin> {RateDifference, PropertyMismatch}"
  shows "ledger (whole_month month co c a st text s)"
proof (cases "a = 0")
  case True
  then show ?thesis using assms by (simp add: whole_month_def ledger_add_category)
next
  case False
  have "ledger (add_issue (child_key_for co, [], category_text c) (new_issue co c MismatchNone [] text)
      a st month id (add_category c a (child_key_for co) s))"
    by (rule ledger_add_issue [OF assms(1)]) (use assms(2) in \<open>auto simp add: new_issue_def\<close>)
  then show ?thesis using False by (simp add: whole_month_def)
qed

lemma note_values_category [simp]: "iu_category (note_values p i) = iu_category i"
  by (simp add: note_values_def Let_def split: mismatch_type.split)

lemma ledger_property: "ledger s \<Longrightarrow> ledger (summarize_property month co s p)"
  unfolding summarize_property_def
  by (auto intro!: ledger_add_category ledger_add_issue simp add: new_issue_def)

lemma ledger_fold: "(\<And>s x. ledger s \<Longrightarrow> ledger (f s x)) \<Longrightarrow> ledger s \<Longrightarrow> ledger (foldl f s xs)"
  by (induction xs arbitrary: s) simp_all

lemma ledger_child: "ledger s \<Longrightarrow> ledger (summarize_child month s co)"
  unfolding summarize_child_def by (simp add: ledger_whole_month ledger_fold [OF ledger_property])

lemma ledger_comparisons: "ledger s \<Longrightarrow> ledger (foldl summarize_comparison s rs)"
  by (rule ledger_fold) (simp_all add: summarize_comparison_def ledger_fold [OF ledger_child])

lemma ledger_empty: "ledger empty_summary"
  by (simp add: ledger_def empty_summary_def issue_sum_def)

lemma finalized_sum:
  "sum_list (map iu_amount (filter (\<lambda>i. iu_category i = c) (List.map_filter (finalize_issue \<circ> snd) is)))
    = issue_sum c is"
proof (induction "is")
  case (Cons x "is")
  have "finalize_issue a = None \<and> ia_sum a = 0 \<or>
      (\<exists>i. finalize_issue a = Some i \<and> iu_amount i = ia_sum a \<and> iu_category i = iu_category (ia_issue a))" for a
    by (simp add: finalize_issue_def Let_def)
  from this [of "snd x"] Cons show ?case
    by (auto simp add: List.map_filter_simps issue_sum_def case_prod_unfold)
qed (simp add: List.map_filter_simps issue_sum_def)

lemma sort_issues_sum:
  "sum_list (map iu_amount (filter P (sort_issues is))) = sum_list (map iu_amount (filter P is))"
proof -
  have "sum_list (map iu_amount (filter P xs)) = sum_mset (image_mset iu_amount (filter_mset P (mset xs)))" for xs
    by (metis mset_filter mset_map sum_mset_sum_list)
  moreover have "mset (sort_issues is) = mset is" by (simp add: sort_issues_def Let_def)
  ultimately show ?thesis by simp
qed

lemma in_map_filter: "y \<in> set (List.map_filter f xs) \<Longrightarrow> \<exists>x \<in> set xs. f x = Some y"
  by (auto simp add: List.map_filter_def)

lemma category_summary_amount:
  "cy \<in> set (category_summaries cats) \<Longrightarrow> cy_amount cy = cc_amount (cats (cy_category cy))"
  unfolding category_summaries_def
  by (drule in_map_filter, elim bexE, simp only: case_prod_unfold split: if_splits) auto

lemma issues_account:
  assumes "cy \<in> set (fs_categories (build_comparison_summary rs))" and "cy_category cy \<noteq> RateDifference"
  shows "cy_amount cy
    = s64 (sum_list (map iu_amount (filter (\<lambda>i. iu_category i = cy_category cy) (fs_issues (build_comparison_summary rs)))))"
proof -
  define s where "s = foldl summarize_comparison empty_summary rs"
  have l: "ledger s" unfolding s_def by (rule ledger_comparisons [OF ledger_empty])
  have "cy_amount cy = cc_amount (sa_cats s (cy_category cy))"
    using assms(1) category_summary_amount by (simp add: build_comparison_summary_def Let_def s_def)
  with l assms(2) have "cy_amount cy = s64 (issue_sum (cy_category cy) (sa_issues s))"
    by (simp add: ledger_def)
  then show ?thesis
    by (simp add: build_comparison_summary_def Let_def sort_issues_sum finalized_sum s_def)
qed

section \<open>The rate differences\<close>

text \<open>
  The rate differences of a range: the differences of the amounts that carry no mismatch, in the
  rows that were compared.
\<close>

definition rate_differences :: "comparison list \<Rightarrow> int" where
  "rate_differences rs = sum_list (map ca_difference (filter (\<lambda>p. ca_mismatch p = MismatchNone)
     (concat (map co_properties (filter (\<lambda>co. co_status co \<in> {status_match, status_difference})
       (concat (map cr_children rs)))))))"

definition rate_of :: "summary_state \<Rightarrow> int" where
  "rate_of s = cc_amount (sa_cats s RateDifference)"

lemma rate_of_fold:
  assumes "\<And>s x. s64 (rate_of (f s x)) = s64 (rate_of s + g x)"
  shows "s64 (rate_of (foldl f s xs)) = s64 (rate_of s + sum_list (map g xs))"
proof (induction xs arbitrary: s)
  case (Cons x xs)
  from s64_cong_add [OF assms refl] show ?case by (simp add: Cons.IH add.assoc)
qed simp

lemma rate_add_category: "rate_of (add_category c a key s) = (if c = RateDifference then s64 (rate_of s + a) else rate_of s)"
  by (simp add: rate_of_def add_category_def)

lemma rate_add_issue [simp]: "rate_of (add_issue k f a st m n s) = rate_of s"
  by (simp add: rate_of_def)

lemma rate_property:
  "s64 (rate_of (summarize_property month co s p)) = s64 (rate_of s + (if ca_mismatch p = MismatchNone then ca_difference p else 0))"
  by (simp add: summarize_property_def rate_add_category)

lemma rate_whole_month: "c \<noteq> RateDifference \<Longrightarrow> rate_of (whole_month month co c a st text s) = rate_of s"
  by (simp add: whole_month_def Let_def rate_add_category)

definition rate_row :: "comparison_child \<Rightarrow> int" where
  "rate_row co = (if co_status co \<in> {status_match, status_difference}
     then sum_list (map (\<lambda>p. if ca_mismatch p = MismatchNone then ca_difference p else 0) (co_properties co)) else 0)"

lemma rate_child: "s64 (rate_of (summarize_child month s co)) = s64 (rate_of s + rate_row co)"
proof (cases "co_status co = status_match \<or> co_status co = status_difference")
  case True
  then show ?thesis
    by (auto simp add: summarize_child_def rate_row_def rate_of_fold [OF rate_property])
next
  case False
  then show ?thesis by (simp add: summarize_child_def rate_row_def rate_whole_month)
qed

lemma rate_comparisons:
  "s64 (rate_of (foldl summarize_comparison s rs)) = s64 (rate_of s + sum_list (map (\<lambda>r. sum_list (map rate_row (cr_children r))) rs))"
  by (rule rate_of_fold) (simp add: summarize_comparison_def rate_of_fold [OF rate_child])

lemma rate_differences_rows: "rate_differences rs = sum_list (map (\<lambda>r. sum_list (map rate_row (cr_children r))) rs)"
proof -
  have p: "sum_list (map ca_difference (filter (\<lambda>p. ca_mismatch p = MismatchNone) ps))
      = sum_list (map (\<lambda>p. if ca_mismatch p = MismatchNone then ca_difference p else 0) ps)" for ps
    by (induction ps) simp_all
  have c: "sum_list (map ca_difference (filter (\<lambda>p. ca_mismatch p = MismatchNone)
      (concat (map co_properties (filter (\<lambda>co. co_status co \<in> {status_match, status_difference}) cs))))) = sum_list (map rate_row cs)" for cs
    by (induction cs) (simp_all add: rate_row_def p)
  show ?thesis unfolding rate_differences_def c by (induction rs) simp_all
qed

lemma rate_differences_account:
  assumes "cy \<in> set (fs_categories (build_comparison_summary rs))" and "cy_category cy = RateDifference"
  shows "cy_amount cy = s64 (rate_differences rs)"
proof -
  define s where "s = foldl summarize_comparison empty_summary rs"
  have l: "ledger s" unfolding s_def by (rule ledger_comparisons [OF ledger_empty])
  have "cy_amount cy = rate_of s"
    using assms category_summary_amount by (simp add: build_comparison_summary_def Let_def s_def rate_of_def)
  moreover have "s64 (rate_of s) = rate_of s" using l by (simp add: ledger_def rate_of_def)
  moreover have "rate_of empty_summary = 0" by (simp add: rate_of_def empty_summary_def)
  ultimately show ?thesis
    using rate_comparisons [of empty_summary rs] by (simp add: s_def rate_differences_rows)
qed

end
