(* ===== verification/BillRows.thy ===== *)
theory BillRows
  imports BillLaws
begin

text \<open>
  Which rows and children a comparison lists: \<open>group_row\<close> partitions the rows of a bill by
  child (\<open>grouped\<close>), a merged row keeps the payments of its group, and under the uniqueness the
  schema guarantees (\<open>bill_db_ok\<close>) every child with an active contract is listed exactly once.
\<close>

section \<open>Rows by child\<close>

text \<open>The groups of \<open>group_row\<close>: rows of one child, or one row of no child.\<close>

definition grouped :: "(bill_child \<Rightarrow> nat option) \<Rightarrow> (nat option \<times> bill_child list) list \<Rightarrow> bool" where
  "grouped f gs \<longleftrightarrow>
     (\<forall>(k, g) \<in> set gs. g \<noteq> [] \<and> (\<forall>c \<in> set g. f c = k) \<and> (k = None \<longrightarrow> length g = 1)) \<and>
     distinct (List.map_filter fst gs)"

lemma map_filter_append: "List.map_filter f (xs @ ys) = List.map_filter f xs @ List.map_filter f ys"
  by (simp add: List.map_filter_def)

lemma map_filter_map: "List.map_filter f (map h xs) = List.map_filter (f \<circ> h) xs"
  by (induction xs) (simp_all add: List.map_filter_simps split: option.split)

lemma set_map_filter: "set (List.map_filter f xs) = {y. \<exists>x \<in> set xs. f x = Some y}"
  by (force simp add: List.map_filter_def image_iff)

lemma mset_append_group:
  assumes "distinct (List.map_filter fst gs)" and "Some i \<in> fst ` set gs"
  shows "mset (concat (map snd (map (\<lambda>(k, g). if k = Some i then (k, g @ [c]) else (k, g)) gs)))
    = mset (concat (map snd gs)) + {#c#}"
  using assms
proof (induction gs)
  case (Cons p gs)
  obtain k g where p: "p = (k, g)" by (cases p)
  show ?case
  proof (cases "k = Some i")
    case True
    then have "Some i \<notin> fst ` set gs"
      using Cons.prems(1) p by (force simp add: List.map_filter_simps set_map_filter)
    then have "map (\<lambda>(k, g). if k = Some i then (k, g @ [c]) else (k, g)) gs = gs"
      by (intro map_idI) force
    then show ?thesis using True p by simp
  next
    case False
    then have "Some i \<in> fst ` set gs" "distinct (List.map_filter fst gs)"
      using Cons.prems p by (auto simp add: List.map_filter_simps split: option.splits)
    from Cons.IH [OF this(2,1)] show ?thesis using False p by simp
  qed
qed simp

lemma grouped_row:
  assumes "grouped f gs"
  shows "grouped f (group_row f gs c)"
    and "mset (concat (map snd (group_row f gs c))) = mset (concat (map snd gs)) + {#c#}"
    and "fst ` set (group_row f gs c) = insert (f c) (fst ` set gs)"
proof -
  have d: "distinct (List.map_filter fst gs)" using assms by (simp add: grouped_def)
  have "grouped f (group_row f gs c) \<and>
    mset (concat (map snd (group_row f gs c))) = mset (concat (map snd gs)) + {#c#} \<and>
    fst ` set (group_row f gs c) = insert (f c) (fst ` set gs)"
  proof (cases "f c")
    case None
    then show ?thesis using assms
      by (auto simp add: group_row_def grouped_def map_filter_append List.map_filter_simps)
  next
    case (Some i)
    show ?thesis
    proof (cases "Some i \<in> fst ` set gs")
      case True
      let ?gs = "map (\<lambda>(k, g). if k = Some i then (k, g @ [c]) else (k, g)) gs"
      have keys: "map fst ?gs = map fst gs" by (simp add: case_prod_unfold)
      then have "fst ` set ?gs = fst ` set gs" by (metis set_map)
      moreover have "List.map_filter fst ?gs = List.map_filter fst gs"
        using map_filter_map [of id fst ?gs] map_filter_map [of id fst gs] by (simp only: keys id_comp)
      moreover have "\<forall>(k, g) \<in> set ?gs. g \<noteq> [] \<and> (\<forall>c \<in> set g. f c = k) \<and> (k = None \<longrightarrow> length g = 1)"
        using assms Some by (force simp add: grouped_def split: if_splits)
      ultimately show ?thesis using True Some mset_append_group [OF d True, of c] d
        by (simp add: group_row_def grouped_def insert_absorb)
    next
      case False
      then have no: "(Some i, g) \<notin> set gs" for g by force
      show ?thesis using assms Some False no
        by (auto simp add: group_row_def grouped_def map_filter_append List.map_filter_simps set_map_filter)
    qed
  qed
  then show "grouped f (group_row f gs c)"
    "mset (concat (map snd (group_row f gs c))) = mset (concat (map snd gs)) + {#c#}"
    "fst ` set (group_row f gs c) = insert (f c) (fst ` set gs)" by auto
qed

lemma grouped_rows:
  assumes "grouped f gs"
  shows "grouped f (foldl (group_row f) gs rows) \<and>
    mset (concat (map snd (foldl (group_row f) gs rows))) = mset (concat (map snd gs)) + mset rows \<and>
    fst ` set (foldl (group_row f) gs rows) = f ` set rows \<union> fst ` set gs"
  using assms
proof (induction rows arbitrary: gs)
  case (Cons c rows)
  note g = grouped_row [OF Cons.prems, of c]
  from Cons.IH [OF g(1)] g show ?case by auto
qed simp

lemma merged_group:
  assumes "grp \<noteq> []" and "\<forall>c \<in> set grp. f c = k" and "\<And>c ps. f (c\<lparr>gc_payments := ps\<rparr>) = f c"
    and "(row, vs) = merge_bill_children grp"
  shows "gc_payments row = concat (map gc_payments grp)" and "f row = k"
proof -
  have "gc_payments row = concat (map gc_payments grp) \<and> f row = k"
  proof (cases "length grp = 1")
    case True
    then obtain c where "grp = [c]" by (cases grp) auto
    then show ?thesis using assms by (simp add: merge_bill_children_def)
  next
    case False
    define primary where "primary = (case find (\<lambda>c. list_ex (\<lambda>p. by_row_type p = row_regular) (gc_payments c)) grp of
      None \<Rightarrow> hd grp | Some c \<Rightarrow> c)"
    have "primary \<in> set grp" using assms(1) unfolding primary_def
      by (auto split: option.splits simp add: find_Some_iff)
    moreover have "row = primary\<lparr>gc_payments := concat (map gc_payments grp)\<rparr>"
      using assms(4) False by (simp add: merge_bill_children_def Let_def primary_def)
    ultimately show ?thesis using assms(2,3) by simp
  qed
  then show "gc_payments row = concat (map gc_payments grp)" "f row = k" by auto
qed

section \<open>Every row and every child once\<close>

text \<open>What the schema guarantees: keys are unique and contracts belong to their child.\<close>

definition bill_db_ok :: "bill_db \<Rightarrow> bool" where
  "bill_db_ok db \<longleftrightarrow>
     distinct (map pn_id (kd_children db)) \<and> distinct (map cv_number (kd_vouchers db)) \<and>
     (\<forall>c \<in> set (kd_children db). \<forall>k \<in> set (cd_contracts c). c_owner k = pn_id c)"

definition row_sum :: "string \<Rightarrow> bill_child list \<Rightarrow> int" where
  "row_sum ty cs = sum_list (map (\<lambda>c. sum_list (map by_amount (filter (\<lambda>p. by_row_type p = ty) (gc_payments c)))) cs)"

lemma row_sum_concat: "row_sum ty (concat gs) = sum_list (map (row_sum ty) gs)"
  by (induction gs) (simp_all add: row_sum_def)

lemma row_sum_payments:
  "sum_list (map by_amount (filter (\<lambda>p. by_row_type p = ty) (concat (map gc_payments cs)))) = row_sum ty cs"
  by (induction cs) (simp_all add: row_sum_def)

lemma row_sum_mset: "mset cs = mset ds \<Longrightarrow> row_sum ty cs = row_sum ty ds"
proof -
  let ?f = "\<lambda>c. sum_list (map by_amount (filter (\<lambda>p. by_row_type p = ty) (gc_payments c)))"
  assume "mset cs = mset ds"
  then have "sum_mset (mset (map ?f cs)) = sum_mset (mset (map ?f ds))" by simp
  then show ?thesis by (simp only: sum_mset_sum_list row_sum_def)
qed

lemma active_on_sql:
  "is_active_on (contract_period k) date \<longleftrightarrow> sql_active_on (from_day k) (to_day k) (local_day date)"
  by (auto simp add: is_active_on_def contract_period_def sql_active_on_def truncate_to_date_eq from_day_def
      to_day_def Let_def not_less split: option.splits)

lemma find_active_contracts_Some:
  assumes "find_active_contracts db org ids date i = Some k"
  obtains c where "c \<in> set (kd_children db)" "pn_id c = i" "pn_org c = org" "k \<in> set (active_contracts c date)"
  using map_of_SomeD [OF assms [unfolded find_active_contracts_def Let_def]] by auto

lemma find_active_contracts_None:
  assumes "find_active_contracts db org ids date (pn_id c) = None" and "c \<in> set (kd_children db)"
    and "pn_org c = org" and "pn_id c \<in> set ids"
  shows "active_contracts c date = []"
proof (rule ccontr)
  assume "active_contracts c date \<noteq> []"
  then obtain k where "k \<in> set (active_contracts c date)" by (cases "active_contracts c date") auto
  then show False using assms by (fastforce simp add: find_active_contracts_def map_of_eq_None_iff image_iff)
qed

lemma child_of_voucher:
  assumes "bill_db_ok db" and "v \<in> set (kd_vouchers db)" and "cv_child v \<in> set (org_child_ids db org)"
    and "cv_number v \<in> set numbers"
  shows "find_child_ids_by_voucher_numbers db org numbers (cv_number v) = Some (cv_child v)"
  unfolding find_child_ids_by_voucher_numbers_def
proof (rule map_of_is_SomeI)
  let ?vs = "filter (\<lambda>v. cv_child v \<in> set (org_child_ids db org) \<and> cv_number v \<in> set numbers) (kd_vouchers db)"
  have "map fst (rev (map (\<lambda>v. (cv_number v, cv_child v)) ?vs)) = rev (map cv_number ?vs)"
    by (simp add: rev_map comp_def)
  moreover have "distinct (map cv_number ?vs)" using assms(1) by (simp add: bill_db_ok_def distinct_map_filter)
  ultimately show "distinct (map fst (rev (map (\<lambda>v. (cv_number v, cv_child v)) ?vs)))" by simp
qed (use assms in auto)

lemma map_filter_fun_cong:
  "(\<And>x. x \<in> set xs \<Longrightarrow> f x = g x) \<Longrightarrow> List.map_filter f xs = List.map_filter g xs"
  by (induction xs) (simp_all add: List.map_filter_simps split: option.split)

lemma map_filter_Some: "(\<And>x. x \<in> set xs \<Longrightarrow> f x = Some (g x)) \<Longrightarrow> List.map_filter f xs = map g xs"
  by (induction xs) (simp_all add: List.map_filter_simps)

definition bill_view :: "bill_db \<Rightarrow> nat \<Rightarrow> bill_period \<Rightarrow> (string \<rightharpoonup> nat) \<Rightarrow> (nat \<rightharpoonup> child_contract) \<Rightarrow> bool" where
  "bill_view db org b ids contracts \<longleftrightarrow> bill_db_ok db \<and>
     (ids, contracts) = resolve_vouchers_to_contracts db org (map gc_voucher (bl_children b)) (p_from b)"

lemma active_child:
  assumes "ac \<in> set (find_children_active_on db org (p_from b))"
  obtains c where "c \<in> set (kd_children db)" "pn_org c = org" "pn_id ac = pn_id c"
    "cd_contracts ac = active_contracts c (p_from b)" "active_contracts c (p_from b) \<noteq> []"
  using assms by (auto simp add: find_children_active_on_def)

lemma contract_of_child:
  assumes view: "bill_view db org b ids contracts" and "contracts i = Some k"
  shows "c_owner k = i" and "i \<in> pn_id ` set (find_children_active_on db org (p_from b))"
proof -
  from view have "contracts = find_active_contracts db org
      (remdups (List.map_filter ids (map gc_voucher (bl_children b)))) (p_from b)"
    by (simp add: resolve_vouchers_to_contracts_def Let_def bill_view_def)
  with assms(2) obtain c where c: "c \<in> set (kd_children db)" "pn_id c = i" "pn_org c = org"
      "k \<in> set (active_contracts c (p_from b))" using find_active_contracts_Some by metis
  then show "c_owner k = i" using view by (auto simp add: bill_view_def bill_db_ok_def active_contracts_def)
  from c have "c\<lparr>cd_contracts := active_contracts c (p_from b)\<rparr> \<in> set (find_children_active_on db org (p_from b))"
    by (auto simp add: find_children_active_on_def)
  then show "i \<in> pn_id ` set (find_children_active_on db org (p_from b))"
    by (rule rev_image_eqI) (simp add: c(2))
qed

lemma key_of_row:
  assumes "bill_view db org b ids contracts" and "resolve_row ids contracts c = k"
  shows "map_option c_owner (case k of None \<Rightarrow> None | Some i \<Rightarrow> contracts i) = k"
    and "\<And>i. k = Some i \<Longrightarrow> i \<in> pn_id ` set (find_children_active_on db org (p_from b))"
  using assms(2) contract_of_child [OF assms(1)] by (auto simp add: resolve_row_def split: option.splits if_splits)

lemma voucher_in_bill:
  assumes view: "bill_view db org b ids contracts"
    and ac: "ac \<in> set (find_children_active_on db org (p_from b))" and v: "v \<in> set (kd_vouchers db)"
    and cv: "cv_child v = pn_id ac" and c: "c \<in> set (bl_children b)" "gc_voucher c = cv_number v"
  shows "resolve_row ids contracts c = Some (pn_id ac)"
proof -
  from ac obtain d where d: "d \<in> set (kd_children db)" "pn_org d = org" "pn_id ac = pn_id d"
      "active_contracts d (p_from b) \<noteq> []" by (rule active_child)
  from view have ok: "bill_db_ok db" and i: "ids = find_child_ids_by_voucher_numbers db org (map gc_voucher (bl_children b))"
    and k: "contracts = find_active_contracts db org
      (remdups (List.map_filter ids (map gc_voucher (bl_children b)))) (p_from b)"
    by (simp_all add: resolve_vouchers_to_contracts_def Let_def bill_view_def)
  have "cv_child v \<in> set (org_child_ids db org)" using d cv by (auto simp add: org_child_ids_def)
  from child_of_voucher [OF ok v this, of "map gc_voucher (bl_children b)"] c
  have id: "ids (gc_voucher c) = Some (pn_id d)" using cv d(3) i by force
  then have "pn_id d \<in> set (remdups (List.map_filter ids (map gc_voucher (bl_children b))))"
    using c(1) by (auto simp add: set_map_filter)
  with find_active_contracts_None [OF _ d(1,2)] d(4) k have "contracts (pn_id d) \<noteq> None" by metis
  with id show ?thesis by (auto simp add: resolve_row_def d(3))
qed

lemma calc_only_listed:
  assumes view: "bill_view db org b ids contracts"
    and ac: "ac \<in> set (find_children_active_on db org (p_from b))" and sub: "set vouchers \<subseteq> set (kd_vouchers db)"
    and un: "Some (pn_id ac) \<notin> resolve_row ids contracts ` set (bl_children b)"
  obtains co t where "calc_only_child db org b period labels settled vouchers ac = Some (co, t)"
proof -
  let ?mine = "filter (\<lambda>v. cv_child v = pn_id ac) vouchers"
  from ac obtain d where d: "cd_contracts ac = active_contracts d (p_from b)" "active_contracts d (p_from b) \<noteq> []"
    by (rule active_child)
  then have "pick_active_child_contract (cd_contracts ac) (p_from b) \<noteq> None"
    by (auto simp add: pick_active_child_contract_def pick_latest_None active_on_sql active_contracts_def
        filter_empty_conv)
  then obtain k where k: "pick_active_child_contract (cd_contracts ac) (p_from b) = Some k" by auto
  have cond: "\<not> (?mine \<noteq> [] \<and> list_all (\<lambda>v. list_ex (\<lambda>c. gc_voucher c = cv_number v) (bl_children b)) ?mine)"
  proof
    assume "?mine \<noteq> [] \<and> list_all (\<lambda>v. list_ex (\<lambda>c. gc_voucher c = cv_number v) (bl_children b)) ?mine"
    then obtain v c where "v \<in> set ?mine" and c: "c \<in> set (bl_children b)" "gc_voucher c = cv_number v"
      by (cases ?mine) (auto simp add: list_ex_iff)
    then have "resolve_row ids contracts c = Some (pn_id ac)"
      using voucher_in_bill [OF view ac _ _ c] sub by auto
    then show False using c(1) un by force
  qed
  obtain am t where am: "calc_amounts_from_funding (funding_age_on_date (pn_birthdate ac) (p_from b)) (c_props k) period = (am, t)"
    by fastforce
  have "calc_only_child db org b period labels settled vouchers ac \<noteq> None"
    unfolding calc_only_child_def Let_def if_not_P [OF cond] k option.case am prod.case by simp
  then show ?thesis using that by auto
qed

lemma comparison_rows:
  assumes ok: "bill_db_ok db" and r: "compare_period db b org = Inr r"
  shows "distinct (List.map_filter co_child_id (cr_children r)) \<and>
    set (List.map_filter co_child_id (cr_children r)) = pn_id ` set (find_children_active_on db org (p_from b)) \<and>
    sum64 (map co_bill_total (cr_children r)) = s64 (row_sum row_regular (bl_children b)) \<and>
    sum64 (map co_correction_total (cr_children r)) = s64 (row_sum row_correction (bl_children b))"
proof -
  from r obtain ids contracts periods labels settled vouchers rows only where
    rv: "(ids, contracts) = resolve_vouchers_to_contracts db org (map gc_voucher (bl_children b)) (p_from b)"
    and rows: "rows = map (compare_group b periods labels ids contracts (find_children_active_on db org (p_from b)) settled)
          (group_bill_children_by_child (bl_children b) ids contracts)"
    and only: "only = List.map_filter (calc_only_child db org b (find_period_for_date periods (p_from b))
          labels settled vouchers)
          (filter (\<lambda>c. pn_id c \<notin> set (List.map_filter co_child_id rows)) (find_children_active_on db org (p_from b)))"
    and vouchers: "set vouchers \<subseteq> set (kd_vouchers db)"
    and children: "cr_children r = rows @ map fst only"
    by (rule compare_period_parts)
  have view: "bill_view db org b ids contracts" using ok rv by (simp add: bill_view_def)
  let ?active = "find_children_active_on db org (p_from b)"
  let ?f = "resolve_row ids contracts"
  let ?gs = "foldl (group_row ?f) [] (bl_children b)"
  let ?row = "compare_group b periods labels ids contracts ?active settled"
  have gs: "grouped ?f ?gs" "mset (concat (map snd ?gs)) = mset (bl_children b)"
      "fst ` set ?gs = ?f ` set (bl_children b)"
    using grouped_rows [of ?f "[]" "bl_children b"] by (simp_all add: grouped_def List.map_filter_simps)
  have rows': "rows = map (?row \<circ> snd) ?gs" by (simp add: rows group_bill_children_by_child_def)
  have row: "co_child_id (?row g) = k \<and> co_bill_total (?row g) = s64 (row_sum row_regular g) \<and>
      co_correction_total (?row g) = s64 (row_sum row_correction g)" if "(k, g) \<in> set ?gs" for k g
  proof -
    obtain rw vs where m: "(rw, vs) = merge_bill_children g" by (metis surj_pair)
    from gs(1) that have "g \<noteq> []" "\<forall>c \<in> set g. ?f c = k" by (auto simp add: grouped_def)
    from merged_group [OF this _ m] have p: "gc_payments rw = concat (map gc_payments g)" "?f rw = k"
      by (simp_all add: resolve_row_def)
    show ?thesis using compare_group_row(1-3) [OF refl m, of b periods labels ids contracts ?active settled]
        key_of_row(1) [OF view p(2)] by (simp add: p row_sum_payments)
  qed
  have ids_rows: "List.map_filter co_child_id rows = List.map_filter fst ?gs"
    unfolding rows' map_filter_map by (rule map_filter_fun_cong) (use row in force)
  have matched: "set (List.map_filter co_child_id rows) \<subseteq> pn_id ` set ?active"
  proof
    fix i assume "i \<in> set (List.map_filter co_child_id rows)"
    then have "Some i \<in> fst ` set ?gs" unfolding ids_rows set_map_filter by force
    then obtain c where "?f c = Some i" unfolding gs(3) by force
    from key_of_row(2) [OF view this refl] show "i \<in> pn_id ` set ?active" .
  qed
  have un: "pn_id ac \<notin> set (List.map_filter co_child_id rows) \<longleftrightarrow> Some (pn_id ac) \<notin> ?f ` set (bl_children b)" for ac :: child
    unfolding ids_rows set_map_filter gs(3) [symmetric] by (force simp add: image_iff)
  define rest where "rest = filter (\<lambda>c. pn_id c \<notin> set (List.map_filter co_child_id rows)) ?active"
  define calc where "calc = calc_only_child db org b (find_period_for_date periods (p_from b)) labels settled vouchers"
  have calc: "\<exists>co t. calc ac = Some (co, t) \<and> co_child_id co = Some (pn_id ac) \<and> co_bill_total co = 0 \<and>
      co_correction_total co = 0" if "ac \<in> set rest" for ac
  proof -
    from that un have "ac \<in> set ?active" "Some (pn_id ac) \<notin> ?f ` set (bl_children b)" by (auto simp add: rest_def)
    from calc_only_listed [OF view this(1) vouchers this(2)] obtain co t where
      "calc_only_child db org b (find_period_for_date periods (p_from b)) labels settled vouchers ac = Some (co, t)" .
    with calc_only_child_row [OF this] show ?thesis by (simp add: calc_def)
  qed
  have only': "only = map (the \<circ> calc) rest"
    unfolding only rest_def [symmetric] calc_def [symmetric] by (rule map_filter_Some) (use calc in force)
  have ids_only: "List.map_filter co_child_id (map fst only) = map pn_id rest"
    unfolding only' map_map map_filter_map by (rule map_filter_Some) (use calc in force)
  have zero: "map co_bill_total (map fst only) = map (\<lambda>_. 0) rest" "map co_correction_total (map fst only) = map (\<lambda>_. 0) rest"
    unfolding only' using calc by force+
  have "distinct (map pn_id ?active)"
    using ok by (simp add: find_children_active_on_def bill_db_ok_def distinct_map_filter comp_def)
  then have "distinct (map pn_id rest)" by (simp add: rest_def distinct_map_filter)
  moreover have "distinct (List.map_filter co_child_id rows)" using gs(1) by (simp add: ids_rows grouped_def)
  ultimately have "distinct (List.map_filter co_child_id (cr_children r))"
    by (auto simp add: children map_filter_append ids_only rest_def)
  moreover have "set (List.map_filter co_child_id (cr_children r)) = pn_id ` set ?active"
    using matched by (auto simp add: children map_filter_append ids_only rest_def)
  moreover have total: "sum64 (map h (cr_children r)) = s64 (row_sum ty (bl_children b))"
    if h: "\<And>k g. (k, g) \<in> set ?gs \<Longrightarrow> h (?row g) = s64 (row_sum ty g)" and z: "map h (map fst only) = map (\<lambda>_. 0) rest"
    for h ty
  proof -
    have "map h rows = map (\<lambda>p. s64 (row_sum ty (snd p))) ?gs" using h by (auto simp add: rows')
    then have "s64 (sum_list (map h rows)) = s64 (sum_list (map (row_sum ty) (map snd ?gs)))"
      using s64_sum_list [of "\<lambda>p. row_sum ty (snd p)" ?gs] by (simp add: comp_def)
    also have "\<dots> = s64 (row_sum ty (bl_children b))"
      by (simp only: row_sum_concat [symmetric] row_sum_mset [OF gs(2)])
    finally show ?thesis using z by (simp add: sum64_eq children del: map_map)
  qed
  ultimately show ?thesis using total [OF _ zero(1)] total [OF _ zero(2)] row by simp
qed

end
