(* ===== verification/BillHistory.thy ===== *)
theory BillHistory
  imports BillCompare
begin

text \<open>
  Billing per child (\<open>ChildBillingHistory\<close> and \<open>ChildrenBillingSummary\<close> of
  \<open>internal/service/government_funding_bill.go\<close>): the bills of one child with a running
  difference, and the totals of all children of an organization. The Go maps of the second are
  association lists in the order of insertion; the order of its result is open in the code.
\<close>

section \<open>One child\<close>

text \<open>
  \<open>groupChildEntriesByBill\<close>: per bill its first entry, with the rows of all entries of that bill
  merged. The rows grouped so far are kept beside the entry.
\<close>

definition group_entry :: "(bill_entry \<times> bill_child list) list \<Rightarrow> bill_entry \<Rightarrow> (bill_entry \<times> bill_child list) list" where
  "group_entry merged e =
     (if list_ex (\<lambda>(m, _). en_bill m = en_bill e) merged
      then map (\<lambda>(m, rows). if en_bill m = en_bill e
                  then (m\<lparr>en_child := fst (merge_bill_children (rows @ [en_child e]))\<rparr>, rows @ [en_child e])
                  else (m, rows)) merged
      else merged @ [(e\<lparr>en_child := fst (merge_bill_children [en_child e])\<rparr>, [en_child e])])"

definition group_child_entries_by_bill :: "bill_entry list \<Rightarrow> bill_entry list" where
  "group_child_entries_by_bill es = map fst (foldl group_entry [] es)"

record history_entry =
  hi_bill :: nat
  hi_from :: string
  hi_to :: string
  hi_facility :: string
  hi_voucher :: string
  hi_name :: string
  hi_birth_date :: string
  hi_age :: "int option"
  hi_bill_total :: int
  hi_correction_total :: int
  hi_calc_total :: "int option"
  hi_difference :: "int option"
  hi_status :: string
  hi_running :: int
  hi_properties :: "comparison_amount list"
  hi_contract :: "nat option"

record billing_history =
  hh_child :: nat
  hh_name :: string
  hh_birthdate :: string
  hh_vouchers :: "string list"
  hh_billed :: int
  hh_calculated :: int
  hh_difference :: int
  hh_entries :: "history_entry list"

definition history_entry_of :: "child \<Rightarrow> funding_period list \<Rightarrow> (string \<Rightarrow> string) \<Rightarrow> bill_entry \<Rightarrow> history_entry" where
  "history_entry_of c periods labels e =
     (let contract = find (\<lambda>k. is_active_on (contract_period k) (en_from e)) (cd_contracts c);
          r = compute_child_comparison (gc_payments (en_child e)) contract (Some (pn_birthdate c))
                (en_from e) periods labels;
          r' = (if contract = None then r\<lparr>rs_status := ''no_contract''\<rparr>
                else if rs_cannot_compute r
                then r\<lparr>rs_status := status_no_config, rs_calc_total := None, rs_difference := None,
                       rs_properties := build_bill_only_properties (gc_payments (en_child e)) labels\<rparr>
                else r)
      in \<lparr>hi_bill = en_bill e, hi_from = format_date (en_from e), hi_to = format_to_date (en_to e),
          hi_facility = en_facility e, hi_voucher = gc_voucher (en_child e), hi_name = gc_name (en_child e),
          hi_birth_date = gc_birth_date (en_child e), hi_age = rs_age r', hi_bill_total = rs_bill_total r',
          hi_correction_total = rs_correction_total r', hi_calc_total = rs_calc_total r',
          hi_difference = rs_difference r', hi_status = rs_status r', hi_running = 0,
          hi_properties = rs_properties r', hi_contract = map_option c_id contract\<rparr>)"

fun running_differences :: "int \<Rightarrow> history_entry list \<Rightarrow> history_entry list" where
  "running_differences acc [] = []"
| "running_differences acc (h # hs) =
     (let acc' = (case hi_difference h of None \<Rightarrow> acc | Some d \<Rightarrow> s64 (acc + d))
      in h\<lparr>hi_running := acc'\<rparr> # running_differences acc' hs)"

text \<open>\<open>allVouchers\<close>: each voucher at its first entry.\<close>

definition unique_vouchers :: "history_entry list \<Rightarrow> string list" where
  "unique_vouchers hs = rev (remdups (rev (map hi_voucher hs)))"

definition history_of_entries ::
    "billing_history \<Rightarrow> child \<Rightarrow> funding_period list \<Rightarrow> bill_entry list \<Rightarrow> billing_history" where
  "history_of_entries h c periods es =
     (let hs = map (history_entry_of c periods (build_label_map periods)) (group_child_entries_by_bill es);
          billed = sum64 (map hi_bill_total hs);
          calcs = List.map_filter hi_calc_total hs
      in h\<lparr>hh_vouchers := unique_vouchers hs, hh_billed := billed,
           hh_calculated := (if calcs = [] then 0 else sum64 calcs),
           hh_difference := (if calcs = [] then 0 else s64 (billed - sum64 calcs)),
           hh_entries := running_differences 0 hs\<rparr>)"

text \<open>The child a voucher of the organization belongs to, and the funding of its state.\<close>

definition voucher_owner :: "bill_db \<Rightarrow> nat \<Rightarrow> (string \<rightharpoonup> nat)" where
  "voucher_owner db org = map_of (rev (map (\<lambda>v. (cv_number v, cv_child v)) (find_vouchers_by_organization db org)))"

definition state_periods :: "bill_db \<Rightarrow> string \<Rightarrow> funding_period list" where
  "state_periods db state = (case find_by_state_with_details db state of Inl e \<Rightarrow> [] | Inr ps \<Rightarrow> ps)"

definition child_billing_history :: "bill_db \<Rightarrow> nat \<Rightarrow> nat \<Rightarrow> billing_history outcome" where
  "child_billing_history db i org =
     (case find_child_by_id_and_org db i org of
        Inl e \<Rightarrow> Inl (not_found_or ''child'' ''failed to fetch child'' e)
      | Inr c \<Rightarrow>
          (let numbers = map cv_number (find_vouchers_by_child_id db i);
               h = \<lparr>hh_child = pn_id c, hh_name = pn_first_name c @ '' '' @ pn_last_name c,
                    hh_birthdate = format_date (pn_birthdate c), hh_vouchers = numbers, hh_billed = 0,
                    hh_calculated = 0, hh_difference = 0, hh_entries = []\<rparr>;
               es = find_child_entries db org numbers
           in if numbers = [] \<or> es = [] then Inr h
              else case find_org_state db org of
                     Inl e \<Rightarrow> Inl (internal_wrap e ''failed to fetch organization'')
                   | Inr state \<Rightarrow>
                       Inr (history_of_entries h c
                         (state_periods db state) es)))"

section \<open>All children\<close>

record billing_row =
  bs_child :: nat
  bs_billed :: int
  bs_calculated :: int
  bs_difference :: int
  bs_bill_count :: int
  bs_contract_months :: int

text \<open>The calculated amount of one voucher on one bill, if there is one.\<close>

definition calc_of_voucher ::
    "bill_db \<Rightarrow> nat \<Rightarrow> funding_period list \<Rightarrow> (string \<rightharpoonup> nat) \<Rightarrow> bill_date_voucher \<Rightarrow> int option" where
  "calc_of_voucher db org periods child_of bv =
     (case child_of (bv_voucher bv) of
        None \<Rightarrow> None
      | Some i \<Rightarrow>
          (case find_child_by_id_and_org db i org of
             Inl e \<Rightarrow> None
           | Inr c \<Rightarrow>
               (case pick_active_child_contract (cd_contracts c) (bv_from bv) of
                  None \<Rightarrow> None
                | Some k \<Rightarrow>
                    (case (find (\<lambda>c'. pn_id c' = c_owner k) (kd_children db), find_period_for_date periods (bv_from bv)) of
                       (Some c', Some p) \<Rightarrow>
                         Some (snd (calc_amounts_from_funding
                           (funding_age_on_date (pn_birthdate c') (bv_from bv)) (c_props k) (Some p)))
                     | _ \<Rightarrow> None))))"

definition calc_by_voucher ::
    "bill_db \<Rightarrow> nat \<Rightarrow> funding_period list \<Rightarrow> (string \<rightharpoonup> nat) \<Rightarrow> bill_date_voucher list \<Rightarrow> (string \<times> int) list" where
  "calc_by_voucher db org periods child_of bvs =
     foldl (\<lambda>m bv. case calc_of_voucher db org periods child_of bv of
              None \<Rightarrow> m
            | Some t \<Rightarrow> alist_add (bv_voucher bv) (s64 t) (\<lambda>w _. s64 (w + t)) m) [] bvs"

text \<open>The months the contracts of a child cover up to today.\<close>

definition covered_months :: "gtime \<Rightarrow> child_contract \<Rightarrow> (int \<times> int) list" where
  "covered_months this_day k =
     (let until = (case c_to k of None \<Rightarrow> this_day | Some t \<Rightarrow> if before t this_day then t else this_day)
      in if before until (c_from k) \<or> after (c_from k) this_day then []
         else map (\<lambda>m. (year_of m, month_of m)) (month_dates (first_of_month (c_from k)) until))"

definition contract_months :: "gtime \<Rightarrow> child_contract list \<Rightarrow> int" where
  "contract_months this_day ks = int (length (remdups (concat (map (covered_months this_day) ks))))"

definition children_billing_summary :: "bill_db \<Rightarrow> nat \<Rightarrow> gtime \<Rightarrow> billing_row list outcome" where
  "children_billing_summary db org this_day =
     (let billed = find_billed_totals_by_org db org;
          bvs = find_all_bill_dates_and_vouchers db org;
          child_of = voucher_owner db org
      in case find_org_state db org of
           Inl e \<Rightarrow> Inl (internal_wrap e ''failed to fetch organization'')
         | Inr state \<Rightarrow>
             (let periods = state_periods db state;
                  calc = calc_by_voucher db org periods child_of bvs;
                  ids = remdups (List.map_filter (child_of \<circ> bv_voucher) bvs
                          @ List.map_filter (child_of \<circ> fst) billed @ List.map_filter (child_of \<circ> fst) calc);
                  add = (\<lambda>m i. sum64 (map snd (filter (\<lambda>(v, _). child_of v = Some i) m)))
              in Inr (map (\<lambda>i.
                   \<lparr>bs_child = i, bs_billed = add billed i, bs_calculated = add calc i,
                    bs_difference = s64 (add billed i - add calc i),
                    bs_bill_count = int (length (remdups (map bv_bill
                      (filter (\<lambda>bv. child_of (bv_voucher bv) = Some i) bvs)))),
                    bs_contract_months = (case find_child_by_id_and_org db i org of
                       Inl e \<Rightarrow> 0 | Inr c \<Rightarrow> contract_months this_day (cd_contracts c))\<rparr>) ids)))"

end
