(* ===== verification/BillHistoryLaws.thy ===== *)
theory BillHistoryLaws
  imports BillRows BillHistory
begin

text \<open>
  Laws of the billing history of a child (one entry per bill, running differences) and of the
  billing summary of an organization (the calculated amount of a child is a sum over the rows
  of bills, not over bills).
\<close>

section \<open>The billing history of a child\<close>

lemma running_length [simp]: "length (running_differences acc hs) = length hs"
  by (induction hs arbitrary: acc) (simp_all add: Let_def)

lemma running_nth:
  assumes "s64 acc = acc" and "n < length hs"
  shows "running_differences acc hs ! n
    = (hs ! n)\<lparr>hi_running := s64 (acc + sum_list (map (\<lambda>x. or_zero (hi_difference x)) (take (Suc n) hs)))\<rparr>"
  using assms
proof (induction hs arbitrary: acc n)
  case (Cons h hs)
  let ?acc = "case hi_difference h of None \<Rightarrow> acc | Some d \<Rightarrow> s64 (acc + d)"
  have acc: "?acc = s64 (acc + or_zero (hi_difference h))" "s64 ?acc = ?acc"
    using Cons.prems(1) by (simp_all add: or_zero_def split: option.split)
  show ?case
  proof (cases n)
    case 0
    then show ?thesis using acc(1) by (simp add: Let_def)
  next
    case (Suc m)
    then have "m < length hs" using Cons.prems(2) by simp
    from Cons.IH [OF acc(2) this] Suc show ?thesis by (simp add: Let_def acc(1) add.assoc)
  qed
qed simp

lemma running_fields:
  assumes "\<And>h x. f (h\<lparr>hi_running := x\<rparr>) = f h"
  shows "map f (running_differences acc hs) = map f hs"
  by (induction hs arbitrary: acc) (simp_all add: Let_def assms)

lemma history_entry_fields:
  assumes "h = history_entry_of c periods labels e"
  shows "hi_bill h = en_bill e"
    and "hi_bill_total h = s64 (sum_list (map by_amount (filter (\<lambda>p. by_row_type p = row_regular) (gc_payments (en_child e)))))"
    and "hi_difference h = map_option (\<lambda>t. s64 (hi_bill_total h - t)) (hi_calc_total h)"
proof -
  define contract where "contract = find (\<lambda>k. is_active_on (contract_period k) (en_from e)) (cd_contracts c)"
  define r where "r = compute_child_comparison (gc_payments (en_child e)) contract (Some (pn_birthdate c))
                (en_from e) periods labels"
  note rc = child_result_cases [OF r_def]
  define r' where "r' = (if contract = None then r\<lparr>rs_status := ''no_contract''\<rparr>
                else if rs_cannot_compute r
                then r\<lparr>rs_status := status_no_config, rs_calc_total := None, rs_difference := None,
                       rs_properties := build_bill_only_properties (gc_payments (en_child e)) labels\<rparr>
                else r)"
  have h: "hi_bill h = en_bill e" "hi_bill_total h = rs_bill_total r'" "hi_difference h = rs_difference r'"
      "hi_calc_total h = rs_calc_total r'"
    by (simp_all only: assms history_entry_of_def r'_def r_def contract_def Let_def history_entry.simps)
  show "hi_bill h = en_bill e" by (rule h)
  have b: "rs_bill_total r' = rs_bill_total r" by (simp add: r'_def)
  then show "hi_bill_total h = s64 (sum_list (map by_amount (filter (\<lambda>p. by_row_type p = row_regular) (gc_payments (en_child e)))))"
    using rc(1) h(2) by simp
  show "hi_difference h = map_option (\<lambda>t. s64 (hi_bill_total h - t)) (hi_calc_total h)"
  proof (cases "contract = None")
    case True
    have "rs_difference r = None" using True by (simp add: r_def compute_child_comparison_def split: prod.split)
    then show ?thesis using rc(3) [OF True] True by (simp add: h r'_def)
  next
    case False
    from rc(4) [OF False] obtain t where "rs_calc_total r = Some t" "rs_difference r = Some (s64 (rs_bill_total r - t))" by blast
    then show ?thesis using False by (simp add: h r'_def)
  qed
qed

text \<open>One entry per bill, holding the rows of all vouchers on it.\<close>

definition entries_grouped :: "(bill_entry \<times> bill_child list) list \<Rightarrow> bool" where
  "entries_grouped gs \<longleftrightarrow>
     distinct (map (en_bill \<circ> fst) gs) \<and>
     (\<forall>(m, rows) \<in> set gs. rows \<noteq> [] \<and> en_child m = fst (merge_bill_children rows))"

lemma mset_group_entry:
  assumes "distinct (map (en_bill \<circ> fst) gs)" and "b \<in> (en_bill \<circ> fst) ` set gs"
  shows "mset (concat (map snd (map (\<lambda>(m, rows). if en_bill m = b then (h m rows, rows @ [c]) else (m, rows)) gs)))
    = mset (concat (map snd gs)) + {#c#}"
  using assms
proof (induction gs)
  case (Cons p gs)
  obtain m rows where p: "p = (m, rows)" by (cases p)
  show ?case
  proof (cases "en_bill m = b")
    case True
    then have "map (\<lambda>(m, rows). if en_bill m = b then (h m rows, rows @ [c]) else (m, rows)) gs = gs"
      using Cons.prems(1) p by (intro map_idI) (force simp add: image_iff)
    then show ?thesis using True p by simp
  next
    case False
    with Cons show ?thesis by (simp add: p)
  qed
qed simp

lemma group_entry_step:
  assumes "entries_grouped gs"
  shows "entries_grouped (group_entry gs e)"
    and "mset (concat (map snd (group_entry gs e))) = mset (concat (map snd gs)) + {#en_child e#}"
proof -
  let ?row = "en_child e"
  let ?h = "\<lambda>m rows. m\<lparr>en_child := fst (merge_bill_children (rows @ [?row]))\<rparr>"
  have d: "distinct (map (en_bill \<circ> fst) gs)" using assms by (simp add: entries_grouped_def)
  have "entries_grouped (group_entry gs e) \<and>
    mset (concat (map snd (group_entry gs e))) = mset (concat (map snd gs)) + {#?row#}"
  proof (cases "list_ex (\<lambda>(m, _). en_bill m = en_bill e) gs")
    case True
    then have b: "en_bill e \<in> (en_bill \<circ> fst) ` set gs" by (force simp add: list_ex_iff)
    let ?gs = "map (\<lambda>(m, rows). if en_bill m = en_bill e then (?h m rows, rows @ [?row]) else (m, rows)) gs"
    have eq: "group_entry gs e = ?gs" using True by (simp add: group_entry_def)
    have "map (en_bill \<circ> fst) ?gs = map (en_bill \<circ> fst) gs"
      by (induction gs) (simp_all add: case_prod_unfold)
    then have "distinct (map (en_bill \<circ> fst) ?gs)" using d by (simp only:)
    moreover have "\<forall>(m, rows) \<in> set ?gs. rows \<noteq> [] \<and> en_child m = fst (merge_bill_children rows)"
      using assms by (force simp add: entries_grouped_def split: if_splits)
    ultimately show ?thesis unfolding eq
      using mset_group_entry [OF d b, of ?h ?row] by (simp add: entries_grouped_def)
  next
    case False
    then show ?thesis using assms
      by (auto simp add: group_entry_def entries_grouped_def list_ex_iff)
  qed
  then show "entries_grouped (group_entry gs e)"
    "mset (concat (map snd (group_entry gs e))) = mset (concat (map snd gs)) + {#en_child e#}" by auto
qed

lemma group_entries:
  assumes "entries_grouped gs"
  shows "entries_grouped (foldl group_entry gs es) \<and>
    mset (concat (map snd (foldl group_entry gs es))) = mset (concat (map snd gs)) + mset (map en_child es)"
  using assms
proof (induction es arbitrary: gs)
  case (Cons e es)
  note g = group_entry_step [OF Cons.prems, of e]
  from Cons.IH [OF g(1)] g(2) show ?case by simp
qed simp

lemma grouped_by_bill:
  shows "distinct (map en_bill (group_child_entries_by_bill es))"
    and "row_sum ty (map en_child (group_child_entries_by_bill es)) = row_sum ty (map en_child es)"
proof -
  let ?gs = "foldl group_entry [] es"
  have g: "entries_grouped ?gs" "mset (concat (map snd ?gs)) = mset (map en_child es)"
    using group_entries [of "[]" es] by (simp_all add: entries_grouped_def)
  then show "distinct (map en_bill (group_child_entries_by_bill es))"
    by (simp add: group_child_entries_by_bill_def entries_grouped_def)
  have "row_sum ty [en_child (fst p)] = row_sum ty (snd p)" if "p \<in> set ?gs" for p
  proof -
    from g(1) that have "snd p \<noteq> []" "en_child (fst p) = fst (merge_bill_children (snd p))"
      by (auto simp add: entries_grouped_def)
    moreover from this(1) have "gc_payments (fst (merge_bill_children (snd p))) = concat (map gc_payments (snd p))"
      by (rule merged_group(1) [where f = "\<lambda>_. None" and k = None
            and vs = "snd (merge_bill_children (snd p))"]) simp_all
    moreover have "row_sum ty [c] = sum_list (map by_amount (filter (\<lambda>p. by_row_type p = ty) (gc_payments c)))" for c
      by (simp add: row_sum_def)
    ultimately show ?thesis by (simp only: row_sum_payments)
  qed
  then have "sum_list (map (\<lambda>p. row_sum ty [en_child (fst p)]) ?gs) = sum_list (map (row_sum ty \<circ> snd) ?gs)"
    by (intro arg_cong [of _ _ sum_list] map_cong) simp_all
  also have "\<dots> = row_sum ty (concat (map snd ?gs))" by (simp add: row_sum_concat comp_def)
  also have "\<dots> = row_sum ty (map en_child es)" by (rule row_sum_mset [OF g(2)])
  finally show "row_sum ty (map en_child (group_child_entries_by_bill es)) = row_sum ty (map en_child es)"
    by (simp add: group_child_entries_by_bill_def row_sum_def comp_def)
qed

lemma history_laws:
  assumes "child_billing_history db i org = Inr h"
  shows "distinct (map hi_bill (hh_entries h)) \<and>
    hh_billed h = s64 (row_sum row_regular
      (map en_child (find_child_entries db org (map cv_number (find_vouchers_by_child_id db i))))) \<and>
    (\<forall>n < length (hh_entries h). hi_running (hh_entries h ! n)
      = s64 (sum_list (map (\<lambda>x. or_zero (hi_difference x)) (take (Suc n) (hh_entries h))))) \<and>
    ((\<exists>e \<in> set (hh_entries h). hi_calc_total e \<noteq> None) \<longrightarrow>
      hh_difference h = s64 (sum_list (map (\<lambda>x. or_zero (hi_difference x)) (hh_entries h))
        + sum_list (map hi_bill_total (filter (\<lambda>e. hi_calc_total e = None) (hh_entries h)))))"
proof -
  let ?es = "find_child_entries db org (map cv_number (find_vouchers_by_child_id db i))"
  from assms obtain c h0 where "?es = [] \<and> hh_entries h = [] \<and> hh_billed h = 0 \<or>
      (\<exists>periods. h = history_of_entries h0 c periods ?es)"
    by (auto simp add: child_billing_history_def Let_def find_child_entries_def split: sum.splits if_splits)
  then show ?thesis
  proof (elim disjE conjE exE)
    assume "?es = []" "hh_entries h = []" "hh_billed h = 0"
    then show ?thesis by (simp add: row_sum_def)
  next
    fix periods assume h: "h = history_of_entries h0 c periods ?es"
    define gs where "gs = group_child_entries_by_bill ?es"
    define hs where "hs = map (history_entry_of c periods (build_label_map periods)) gs"
    note f = history_entry_fields [OF refl, of c periods "build_label_map periods"]
    have e: "hh_entries h = running_differences 0 hs" and billed: "hh_billed h = s64 (sum_list (map hi_bill_total hs))"
      and diff: "hh_difference h = (if List.map_filter hi_calc_total hs = [] then 0
        else s64 (sum_list (map hi_bill_total hs) - sum_list (List.map_filter hi_calc_total hs)))"
      by (simp_all add: h history_of_entries_def Let_def gs_def [symmetric] hs_def [symmetric] sum64_eq)
    have m: "map g (hh_entries h) = map g hs" if "\<And>h x. g (h\<lparr>hi_running := x\<rparr>) = g h" for g :: "history_entry \<Rightarrow> 'z"
      unfolding e using that by (rule running_fields)
    have "map hi_bill hs = map en_bill gs" by (simp add: hs_def f(1))
    then have d: "distinct (map hi_bill (hh_entries h))"
      using m [of hi_bill] grouped_by_bill(1) by (simp add: gs_def)
    have "s64 (sum_list (map hi_bill_total hs)) = s64 (row_sum row_regular (map en_child gs))"
      unfolding hs_def row_sum_def map_map comp_def f(2) by (rule s64_sum_list)
    then have b: "hh_billed h = s64 (row_sum row_regular (map en_child ?es))"
      by (simp add: billed grouped_by_bill(2) gs_def)
    have run: "hi_running (hh_entries h ! n) = s64 (sum_list (map (\<lambda>x. or_zero (hi_difference x)) (take (Suc n) (hh_entries h))))"
      if "n < length (hh_entries h)" for n
    proof -
      have "n < length hs" using that by (simp add: e)
      moreover have "map (\<lambda>x. or_zero (hi_difference x)) (take (Suc n) (hh_entries h))
          = map (\<lambda>x. or_zero (hi_difference x)) (take (Suc n) hs)"
        using m [of "\<lambda>x. or_zero (hi_difference x)"] by (simp flip: take_map)
      ultimately show ?thesis using running_nth [of 0 n hs] by (simp add: e)
    qed
    have dif: "hi_difference x = map_option (\<lambda>t. s64 (hi_bill_total x - t)) (hi_calc_total x)" if "x \<in> set hs" for x
      using that f(3) by (auto simp add: hs_def)
    have total: "s64 (sum_list (map hi_bill_total xs) - sum_list (List.map_filter hi_calc_total xs))
        = s64 (sum_list (map (\<lambda>x. or_zero (hi_difference x)) xs)
            + sum_list (map hi_bill_total (filter (\<lambda>e. hi_calc_total e = None) xs)))"
      if "set xs \<subseteq> set hs" for xs
      using that
    proof (induction xs)
      case (Cons x xs)
      then have ih: "s64 (sum_list (map hi_bill_total xs) - sum_list (List.map_filter hi_calc_total xs))
        = s64 (sum_list (map (\<lambda>x. or_zero (hi_difference x)) xs)
            + sum_list (map hi_bill_total (filter (\<lambda>e. hi_calc_total e = None) xs)))" by simp
      show ?case
      proof (cases "hi_calc_total x")
        case None
        with s64_cong_add [OF refl ih, of "hi_bill_total x"] dif [of x] Cons.prems show ?thesis
          by (simp add: List.map_filter_simps or_zero_None comp_def algebra_simps)
      next
        case (Some t)
        with s64_cong_add [OF refl ih, of "hi_bill_total x - t"] dif [of x] Cons.prems show ?thesis
          by (simp add: List.map_filter_simps or_zero_def comp_def algebra_simps)
      qed
    qed (simp add: List.map_filter_simps)
    have calcs: "List.map_filter hi_calc_total hs \<noteq> []" if "\<exists>e \<in> set (hh_entries h). hi_calc_total e \<noteq> None"
    proof -
      have "map hi_calc_total (hh_entries h) = map hi_calc_total hs" by (rule m) simp
      then have "hi_calc_total ` set (hh_entries h) = hi_calc_total ` set hs" by (metis set_map)
      moreover from that obtain e where "e \<in> set (hh_entries h)" "hi_calc_total e \<noteq> None" by auto
      ultimately have "\<exists>e \<in> set hs. hi_calc_total e \<noteq> None" by (metis (no_types) imageE imageI)
      then show ?thesis by (auto simp add: List.map_filter_def filter_empty_conv)
    qed
    have sums: "sum_list (map hi_bill_total (filter (\<lambda>e. hi_calc_total e = None) (hh_entries h)))
        = sum_list (map hi_bill_total (filter (\<lambda>e. hi_calc_total e = None) hs))"
    proof -
      let ?g = "\<lambda>e. if hi_calc_total e = None then hi_bill_total e else 0"
      have q: "sum_list (map hi_bill_total (filter (\<lambda>e. hi_calc_total e = None) xs)) = sum_list (map ?g xs)" for xs
        by (induction xs) simp_all
      have mg: "map ?g (hh_entries h) = map ?g hs" by (rule m) simp
      show ?thesis by (simp only: q mg)
    qed
    have "hh_difference h = s64 (sum_list (map (\<lambda>x. or_zero (hi_difference x)) (hh_entries h))
        + sum_list (map hi_bill_total (filter (\<lambda>e. hi_calc_total e = None) (hh_entries h))))"
      if "\<exists>e \<in> set (hh_entries h). hi_calc_total e \<noteq> None"
      unfolding sums m [of "\<lambda>x. or_zero (hi_difference x)", simplified] diff
      by (simp only: if_not_P [OF calcs [OF that]] total [OF subset_refl])
    with d b run show ?thesis by blast
  qed
qed

section \<open>The billing summary\<close>

lemma calc_fold:
  assumes "distinct (map fst m)"
  shows "distinct (map fst (foldl (\<lambda>m bv. case h bv of None \<Rightarrow> m
      | Some t \<Rightarrow> alist_add (bv_voucher bv) (s64 t) (\<lambda>w _. s64 (w + t)) m) m bvs))" (is "?D")
    and "s64 (sum_list (map snd (filter (\<lambda>(v, _). P v) (foldl (\<lambda>m bv. case h bv of None \<Rightarrow> m
      | Some t \<Rightarrow> alist_add (bv_voucher bv) (s64 t) (\<lambda>w _. s64 (w + t)) m) m bvs))))
      = s64 (sum_list (map snd (filter (\<lambda>(v, _). P v) m))
          + sum_list (map (\<lambda>bv. or_zero (h bv)) (filter (\<lambda>bv. P (bv_voucher bv)) bvs)))" (is "?S")
proof -
  let ?f = "\<lambda>m bv. case h bv of None \<Rightarrow> m | Some t \<Rightarrow> alist_add (bv_voucher bv) (s64 t) (\<lambda>w _. s64 (w + t)) m"
  let ?sum = "\<lambda>m. sum_list (map snd (filter (\<lambda>(v, _). P v) m))"
  have as_map: "?sum m = sum_list (map (\<lambda>(_, x). x) (filter (\<lambda>(v, _). P v) m))" for m :: "(string \<times> int) list"
    by (simp add: case_prod_unfold)
  have filt: "filter (\<lambda>(v, _). P v) (alist_add k a g m)
      = (if P k then alist_add k a g (filter (\<lambda>(v, _). P v) m) else filter (\<lambda>(v, _). P v) m)"
    for k a and g :: "int \<Rightarrow> int \<Rightarrow> int" and m :: "(string \<times> int) list"
  proof -
    have mo: "map_of (filter (\<lambda>(v, _). P v) m) k = (if P k then map_of m k else None)"
      by (induction m) auto
    have "filter (\<lambda>(v, _). P v) (map (\<lambda>(k', w'). if k' = k then (k', g w' a) else (k', w')) m)
        = map (\<lambda>(k', w'). if k' = k then (k', g w' a) else (k', w')) (filter (\<lambda>(v, _). P v) m)"
      by (induction m) (auto split: if_splits)
    moreover have "\<not> P k \<Longrightarrow> map (\<lambda>(k', w'). if k' = k then (k', g w' a) else (k', w')) (filter (\<lambda>(v, _). P v) m)
        = filter (\<lambda>(v, _). P v) m" by (intro map_idI) auto
    ultimately show ?thesis by (auto simp add: alist_add_def mo split: option.split)
  qed
  have step: "distinct (map fst (?f m bv)) \<and>
      s64 (?sum (?f m bv)) = s64 (?sum m + (if P (bv_voucher bv) then or_zero (h bv) else 0))"
    if d: "distinct (map fst m)" for m bv
  proof (cases "h bv")
    case None
    then show ?thesis using d by (simp add: or_zero_None)
  next
    case (Some t)
    let ?m = "filter (\<lambda>(v, _). P v) m"
    have "distinct (map fst ?m)" using d by (simp add: distinct_map_filter)
    from s64_alist_add [OF this, of "bv_voucher bv" "\<lambda>x. x" "\<lambda>w _. s64 (w + t)" "s64 t" t]
    have "s64 (?sum (alist_add (bv_voucher bv) (s64 t) (\<lambda>w _. s64 (w + t)) m))
        = s64 (?sum m + (if P (bv_voucher bv) then t else 0))"
      unfolding filt by (simp add: case_prod_unfold)
    then show ?thesis using Some distinct_alist_add [OF d] by (simp add: or_zero_def)
  qed
  have "distinct (map fst (foldl ?f m bvs)) \<and>
    s64 (?sum (foldl ?f m bvs)) = s64 (?sum m + sum_list (map (\<lambda>bv. or_zero (h bv)) (filter (\<lambda>bv. P (bv_voucher bv)) bvs)))"
    using assms
  proof (induction bvs arbitrary: m)
    case (Cons bv bvs)
    from step [OF Cons.prems, of bv] have s: "distinct (map fst (?f m bv))"
      "s64 (?sum (?f m bv)) = s64 (?sum m + (if P (bv_voucher bv) then or_zero (h bv) else 0))" by auto
    from Cons.IH [OF s(1)] s64_cong_add [OF s(2) refl] show ?case by (simp add: add.assoc)
  qed simp
  then show ?D ?S by auto
qed

lemma billing_summary_laws:
  assumes "children_billing_summary db org day = Inr rows" and "r \<in> set rows"
  obtains state where "find_org_state db org = Inr state"
    and "bs_calculated r = s64 (sum_list (map (\<lambda>bv. or_zero (calc_of_voucher db org (state_periods db state) (voucher_owner db org) bv))
        (filter (\<lambda>bv. voucher_owner db org (bv_voucher bv) = Some (bs_child r)) (find_all_bill_dates_and_vouchers db org))))"
    and "bs_bill_count r = int (card (bv_bill ` {bv \<in> set (find_all_bill_dates_and_vouchers db org).
        voucher_owner db org (bv_voucher bv) = Some (bs_child r)}))"
    and "bs_difference r = s64 (bs_billed r - bs_calculated r)"
proof -
  from assms(1) obtain state where st: "find_org_state db org = Inr state"
    by (auto simp add: children_billing_summary_def Let_def split: sum.splits)
  let ?o = "voucher_owner db org" and ?bvs = "find_all_bill_dates_and_vouchers db org"
  let ?calc = "calc_by_voucher db org (state_periods db state) ?o ?bvs"
  have r: "bs_calculated r = sum64 (map snd (filter (\<lambda>(v, _). ?o v = Some (bs_child r)) ?calc))"
    "bs_bill_count r = int (length (remdups (map bv_bill (filter (\<lambda>bv. ?o (bv_voucher bv) = Some (bs_child r)) ?bvs))))"
    "bs_difference r = s64 (bs_billed r - bs_calculated r)"
    using assms by (auto simp add: children_billing_summary_def st Let_def)
  show ?thesis
  proof (rule that [OF st])
    show "bs_calculated r = s64 (sum_list (map (\<lambda>bv. or_zero (calc_of_voucher db org (state_periods db state) ?o bv))
        (filter (\<lambda>bv. ?o (bv_voucher bv) = Some (bs_child r)) ?bvs)))"
      using calc_fold(2) [of "[]" "\<lambda>v. ?o v = Some (bs_child r)" "calc_of_voucher db org (state_periods db state) ?o" ?bvs]
      by (simp add: r(1) sum64_eq calc_by_voucher_def)
    show "bs_bill_count r = int (card (bv_bill ` {bv \<in> set ?bvs. ?o (bv_voucher bv) = Some (bs_child r)}))"
      by (simp add: r(2) length_remdups_card_conv)
    show "bs_difference r = s64 (bs_billed r - bs_calculated r)" by (rule r(3))
  qed
qed

lemma billed_children_listed:
  assumes "find_org_state db org = Inr state" and "bv \<in> set (find_all_bill_dates_and_vouchers db org)"
    and "voucher_owner db org (bv_voucher bv) = Some i"
  shows "\<exists>rows r. children_billing_summary db org day = Inr rows \<and> r \<in> set rows \<and> bs_child r = i"
  using assms by (force simp add: children_billing_summary_def Let_def set_map_filter)

end
