(* ===== verification/BillTheorems.thy ===== *)
theory BillTheorems
  imports BillHistoryLaws
begin

text \<open>
  The properties of the funding bills, with the example they are applied to: a child whose
  voucher was renewed, so that one bill carries rows of two vouchers.
\<close>

definition ex_renewal_db :: bill_db where
  "ex_renewal_db =
     \<lparr>kd_children = [\<lparr>pn_id = 7, pn_org = 9, pn_first_name = ''A'', pn_last_name = ''B'', pn_gender = ''female'',
         pn_birthdate = midnight 0,
         cd_contracts = [\<lparr>c_id = 3, c_owner = 7, c_from = midnight 100, c_to = None, c_section = 1,
            c_props = Some [(''care_type'', PString ''ganztag'')], c_version = 1\<rparr>]\<rparr>],
      kd_vouchers = [\<lparr>cv_id = 1, cv_child = 7, cv_number = ''V1'', cv_first_seen = midnight 100\<rparr>,
                     \<lparr>cv_id = 2, cv_child = 7, cv_number = ''V2'', cv_first_seen = midnight 400\<rparr>],
      kd_next_voucher = 3,
      kd_bills = [\<lparr>p_from = midnight 730, p_to = None, bl_id = 5, bl_org = 9, bl_file_name = [], bl_hash = ''H'', bl_facility_name = [],
         bl_facility_total = 0, bl_contract_booking = 0, bl_correction_booking = 0,
         bl_correction_from = None, bl_correction_to = None, bl_correction_reason = [], bl_created_by = None,
         bl_children =
           [\<lparr>gc_voucher = ''V1'', gc_name = [], gc_birth_date = [], gc_district = 1,
             gc_payments = [\<lparr>by_key = ''care_type'', by_value = ''ganztag'', by_amount = -100, by_row_index = 0,
                by_row_type = row_correction, by_month = None\<rparr>]\<rparr>,
            \<lparr>gc_voucher = ''V2'', gc_name = [], gc_birth_date = [], gc_district = 1,
             gc_payments = [\<lparr>by_key = ''care_type'', by_value = ''ganztag'', by_amount = 100, by_row_index = 0,
                by_row_type = row_regular, by_month = None\<rparr>]\<rparr>]\<rparr>],
      kd_next_bill = 6, kd_org_states = [(9, ''berlin'')],
      kd_fundings = [(''berlin'', [\<lparr>p_from = midnight 0, p_to = None, gp_id = 1, gp_full_time_hours = Fin 39,
         gp_required_keys = [], gp_properties = [\<lparr>fp_id = 1, fp_key = ''care_type'', fp_value = ''ganztag'', fp_label = [],
           fp_payment = 100, fp_requirement = Fin 0, fp_min_age = None, fp_max_age = None, fp_apply_to_all = True\<rparr>]\<rparr>])]\<rparr>"

lemma ex_renewal_vouchers:
  "find_all_bill_dates_and_vouchers ex_renewal_db 9
    = [\<lparr>bv_voucher = ''V1'', bv_from = midnight 730, bv_bill = 5\<rparr>, \<lparr>bv_voucher = ''V2'', bv_from = midnight 730, bv_bill = 5\<rparr>]"
  "voucher_owner ex_renewal_db 9 = [''V1'' \<mapsto> 7, ''V2'' \<mapsto> 7]"
  by (simp_all add: find_all_bill_dates_and_vouchers_def bills_by_date_def ex_renewal_db_def voucher_owner_def
      find_vouchers_by_organization_def org_child_ids_def fun_eq_iff) (code_simp)?

lemma ex_renewal_state: "find_org_state ex_renewal_db 9 = Inr ''berlin''"
  by (simp add: find_org_state_def ex_renewal_db_def)

lemma ex_renewal_ok: "bill_db_ok ex_renewal_db"
  by (simp add: bill_db_ok_def ex_renewal_db_def)

lemma compare_period_total: "find_org_state db org = Inr state \<Longrightarrow> \<exists>r. compare_period db b org = Inr r"
  by (simp add: compare_period_def Let_def split: prod.split)

lemma compare_months_total: "find_org_state db org = Inr state \<Longrightarrow> \<exists>rs. compare_months db org ds = Inr rs"
proof (induction ds)
  case (Cons d ds)
  then obtain rs where rs: "compare_months db org ds = Inr rs" by auto
  show ?case
  proof (cases "find_by_org_and_month db org d")
    case (Inl e)
    then have "is_store_error e StoreNotFound"
      by (auto simp add: find_by_org_and_month_def split: option.splits)
    then show ?thesis using Inl rs by simp
  next
    case (Inr b)
    with compare_period_total [OF Cons.prems, of b] rs show ?thesis by auto
  qed
qed simp

lemma child_billing_history_total:
  "find_child_by_id_and_org db i org = Inr c \<Longrightarrow> find_org_state db org = Inr state \<Longrightarrow>
    \<exists>h. child_billing_history db i org = Inr h"
  by (simp add: child_billing_history_def Let_def split: if_split)

text \<open>
  C21. A comparison lists every child with a contract active at the start of the bill exactly
  once, and no other child; and no payment of the bill is lost or counted twice: the regular
  amounts of its rows add up to the regular payments of the bill, the corrections to its
  corrections, in 64-bit arithmetic. It holds although rows of several vouchers are merged into
  one and children without a row are added, as long as the keys of the tables are unique.
\<close>
lemma comparison_lists_everything_once:
  assumes "bill_db_ok db" and "compare_period db b org = Inr r"
  shows "distinct (List.map_filter co_child_id (cr_children r)) \<and>
    set (List.map_filter co_child_id (cr_children r)) = pn_id ` set (find_children_active_on db org (p_from b)) \<and>
    sum64 (map co_bill_total (cr_children r)) = s64 (row_sum row_regular (bl_children b)) \<and>
    sum64 (map co_correction_total (cr_children r)) = s64 (row_sum row_correction (bl_children b))"
  by (rule comparison_rows [OF assms])

lemma comparison_lists_everything_once_witness:
  "\<exists>r. compare_period ex_renewal_db (hd (kd_bills ex_renewal_db)) 9 = Inr r \<and>
    sum64 (map co_bill_total (cr_children r)) = 100 \<and> sum64 (map co_correction_total (cr_children r)) = - 100"
proof -
  let ?b = "hd (kd_bills ex_renewal_db)"
  from compare_period_total [OF ex_renewal_state, of ?b] obtain r
    where r: "compare_period ex_renewal_db ?b 9 = Inr r" by auto
  have "s64 (row_sum row_regular (bl_children ?b)) = 100" "s64 (row_sum row_correction (bl_children ?b)) = - 100"
    by (simp_all add: ex_renewal_db_def row_sum_def s64_def)
  with comparison_lists_everything_once [OF ex_renewal_ok r] r show ?thesis by auto
qed

text \<open>
  C22. The summary of a range accounts for the whole difference: its five categories add up to
  the total difference, as the documentation of \<open>BuildComparisonSummary\<close> promises; the rate
  differences are the sum of the differences without a mismatch in the rows that were compared,
  and each of the other four categories is the sum of the issues listed for it, although issues
  that cancel out are dropped.
\<close>
lemma summary_accounts_for_difference:
  assumes "compare_range_summary db org from to = Inr (rs, sm)"
  shows "s64 (sum_list (map cy_amount (fs_categories sm))) = fs_difference sm \<and>
    (\<forall>cy \<in> set (fs_categories sm). cy_amount cy =
      (if cy_category cy = RateDifference then s64 (rate_differences rs)
       else s64 (sum_list (map iu_amount (filter (\<lambda>i. iu_category i = cy_category cy) (fs_issues sm))))))"
proof -
  obtain x y where "attributed_corrections db org from to = (x, y)" by fastforce
  with assms have "fs_categories sm = fs_categories (build_comparison_summary rs)"
    "fs_issues sm = fs_issues (build_comparison_summary rs)"
    by (auto simp add: compare_range_summary_def bindE_eq_Inr)
  then show ?thesis using categories_exhaustive [OF assms] issues_account [of _ rs] rate_differences_account [of _ rs] by auto
qed

lemma summary_accounts_for_difference_witness:
  "\<exists>rs sm. compare_range_summary ex_renewal_db 9 (midnight 730) (midnight 760) = Inr (rs, sm) \<and>
    s64 (sum_list (map cy_amount (fs_categories sm))) = fs_difference sm"
proof -
  from compare_months_total [OF ex_renewal_state] obtain rs
    where "compare_range ex_renewal_db 9 (midnight 730) (midnight 760) = Inr rs"
    by (auto simp add: compare_range_def)
  then obtain sm where s: "compare_range_summary ex_renewal_db 9 (midnight 730) (midnight 760) = Inr (rs, sm)"
    by (cases "attributed_corrections ex_renewal_db 9 (midnight 730) (midnight 760)")
      (auto simp add: compare_range_summary_def)
  from summary_accounts_for_difference [OF this] s show ?thesis by blast
qed

text \<open>
  The billing history of a child has one entry per bill, bills all regular payments of the
  rows of the child's vouchers, and each running difference is the sum of the differences up
  to its entry. As soon as one month could be calculated, the total difference is the last
  running difference plus the amounts billed for the months that could not: money that the
  comparison of a bill keeps out of both sides counts as a surplus here.
\<close>
lemma history_running_difference:
  assumes "child_billing_history db i org = Inr h"
  shows "distinct (map hi_bill (hh_entries h)) \<and>
    hh_billed h = s64 (row_sum row_regular
      (map en_child (find_child_entries db org (map cv_number (find_vouchers_by_child_id db i))))) \<and>
    (\<forall>n < length (hh_entries h). hi_running (hh_entries h ! n)
      = s64 (sum_list (map (\<lambda>x. or_zero (hi_difference x)) (take (Suc n) (hh_entries h))))) \<and>
    ((\<exists>e \<in> set (hh_entries h). hi_calc_total e \<noteq> None) \<longrightarrow>
      hh_difference h = s64 (sum_list (map (\<lambda>x. or_zero (hi_difference x)) (hh_entries h))
        + sum_list (map hi_bill_total (filter (\<lambda>e. hi_calc_total e = None) (hh_entries h)))))"
  by (rule history_laws [OF assms])

lemma history_running_difference_witness:
  "\<exists>h. child_billing_history ex_renewal_db 7 9 = Inr h \<and> distinct (map hi_bill (hh_entries h)) \<and> hh_billed h = 100"
proof -
  have "find_child_by_id_and_org ex_renewal_db 7 9 = Inr (hd (kd_children ex_renewal_db))"
    by (simp add: find_child_by_id_and_org_def ex_renewal_db_def)
  from child_billing_history_total [OF this ex_renewal_state] obtain h
    where h: "child_billing_history ex_renewal_db 7 9 = Inr h" by auto
  have "s64 (row_sum row_regular (map en_child (find_child_entries ex_renewal_db 9
      (map cv_number (find_vouchers_by_child_id ex_renewal_db 7))))) = 100" by code_simp
  with history_running_difference [OF h] h show ?thesis by auto
qed

text \<open>
  C27. The billing summary of an organization charges the calculated rate once per voucher, not
  once per bill: a child whose two vouchers are on the same bill is listed with one bill and
  twice the calculated amount of that bill. The comparison of a bill and the history of the
  child charge it once.
\<close>
lemma renewed_voucher_charged_twice:
  assumes "children_billing_summary db org day = Inr rows" and "r \<in> set rows"
    and "filter (\<lambda>bv. voucher_owner db org (bv_voucher bv) = Some (bs_child r))
      (find_all_bill_dates_and_vouchers db org) = [v1, v2]"
    and "bv_bill v1 = bv_bill v2" and "bv_from v1 = bv_from v2"
  shows "bs_bill_count r = 1 \<and> (\<exists>state. find_org_state db org = Inr state \<and>
    bs_calculated r = s64 (2 * or_zero (calc_of_voucher db org (state_periods db state) (voucher_owner db org) v1)))"
proof -
  from assms(1,2) obtain state where st: "find_org_state db org = Inr state"
    and c: "bs_calculated r = s64 (sum_list (map (\<lambda>bv. or_zero (calc_of_voucher db org (state_periods db state) (voucher_owner db org) bv))
        (filter (\<lambda>bv. voucher_owner db org (bv_voucher bv) = Some (bs_child r)) (find_all_bill_dates_and_vouchers db org))))"
    and n: "bs_bill_count r = int (card (bv_bill ` {bv \<in> set (find_all_bill_dates_and_vouchers db org).
        voucher_owner db org (bv_voucher bv) = Some (bs_child r)}))"
    by (rule billing_summary_laws)
  have vs: "{bv \<in> set (find_all_bill_dates_and_vouchers db org). voucher_owner db org (bv_voucher bv) = Some (bs_child r)} = {v1, v2}"
    using arg_cong [OF assms(3), of set] by auto
  then have "v1 \<in> {bv \<in> set (find_all_bill_dates_and_vouchers db org). voucher_owner db org (bv_voucher bv) = Some (bs_child r)}"
    and "v2 \<in> {bv \<in> set (find_all_bill_dates_and_vouchers db org). voucher_owner db org (bv_voucher bv) = Some (bs_child r)}"
    by blast+
  then have same: "voucher_owner db org (bv_voucher v1) = voucher_owner db org (bv_voucher v2)" by simp
  have "calc_of_voucher db org p (voucher_owner db org) v1 = calc_of_voucher db org p (voucher_owner db org) v2" for p
    unfolding calc_of_voucher_def same assms(5) by (rule refl)
  with c assms(3) have "bs_calculated r
      = s64 (2 * or_zero (calc_of_voucher db org (state_periods db state) (voucher_owner db org) v1))" by simp
  moreover have "bs_bill_count r = 1" using n vs assms(4) by simp
  ultimately show ?thesis using st by blast
qed

lemma renewed_voucher_charged_twice_witness:
  "\<exists>rows r. children_billing_summary ex_renewal_db 9 (midnight 800) = Inr rows \<and> r \<in> set rows \<and>
    bs_bill_count r = 1 \<and> bs_calculated r = 200"
proof -
  let ?v1 = "\<lparr>bv_voucher = ''V1'', bv_from = midnight 730, bv_bill = 5\<rparr>"
  let ?v2 = "\<lparr>bv_voucher = ''V2'', bv_from = midnight 730, bv_bill = 5\<rparr>"
  have st: "find_org_state ex_renewal_db 9 = Inr ''berlin''" by (simp add: find_org_state_def ex_renewal_db_def)
  from billed_children_listed [OF st, of ?v1 7 "midnight 800"] obtain rows r
    where r: "children_billing_summary ex_renewal_db 9 (midnight 800) = Inr rows" "r \<in> set rows" "bs_child r = 7"
    by (auto simp add: ex_renewal_vouchers)
  have "filter (\<lambda>bv. voucher_owner ex_renewal_db 9 (bv_voucher bv) = Some (bs_child r))
      (find_all_bill_dates_and_vouchers ex_renewal_db 9) = [?v1, ?v2]"
    by (simp add: ex_renewal_vouchers r(3))
  from renewed_voucher_charged_twice [OF r(1,2) this] have "bs_bill_count r = 1"
    and c: "bs_calculated r = s64 (2 * or_zero (calc_of_voucher ex_renewal_db 9 (state_periods ex_renewal_db ''berlin'')
      (voucher_owner ex_renewal_db 9) ?v1))" by (simp_all add: st)
  moreover have "calc_of_voucher ex_renewal_db 9 (state_periods ex_renewal_db ''berlin'')
      (voucher_owner ex_renewal_db 9) ?v1 = Some 100"
    unfolding ex_renewal_vouchers by code_simp
  ultimately show ?thesis using r by (auto simp add: or_zero_def s64_def)
qed

end
