(* ===== verification/Strconv.thy ===== *)
theory Strconv
  imports KitaPrelude
begin

text \<open>
  Reading decimal numbers: \<open>strconv.Atoi\<close>, \<open>strconv.ParseUint\<close> to base 10, and the test for
  plain digits.
\<close>

definition is_digit :: "char \<Rightarrow> bool" where
  "is_digit c \<longleftrightarrow> 48 \<le> (of_char c :: nat) \<and> (of_char c :: nat) \<le> 57"

definition is_all_digits :: "string \<Rightarrow> bool" where
  "is_all_digits s = (s \<noteq> [] \<and> list_all is_digit s)"

definition digits_value :: "string \<Rightarrow> nat" where
  "digits_value s = foldl (\<lambda>n c. 10 * n + (of_char c - 48)) 0 s"

text \<open>\<open>strconv.Atoi\<close>: an optional sign, digits, and the range of an \<open>int\<close>.\<close>

definition atoi :: "string \<Rightarrow> int option" where
  "atoi s =
     (let (neg, ds) = (case s of [] \<Rightarrow> (False, [])
                       | c # cs \<Rightarrow> if c = CHR ''-'' then (True, cs) else if c = CHR ''+'' then (False, cs) else (False, s))
      in if \<not> is_all_digits ds then None
         else let v = (if neg then - int (digits_value ds) else int (digits_value ds))
              in if in_s64 v then Some v else None)"

text \<open>\<open>strconv.ParseUint(s, 10, 32)\<close>: digits only, in the range of 32 bits.\<close>

definition parse_uint32 :: "string \<Rightarrow> nat option" where
  "parse_uint32 s = (if is_all_digits s \<and> digits_value s < 2 ^ 32 then Some (digits_value s) else None)"

end
