(* ===== verification/Isbj.thy ===== *)
theory Isbj
  imports Months Strconv
begin

text \<open>
  The settlement files of the funding authority (\<open>internal/isbj\<close>): the readers of single cells
  (\<open>normalizeDecimal\<close>, \<open>parseMonatTyp\<close>), the check of the contract rows against the header figure,
  the span of a manual correction, and \<open>Convert\<close>, which turns the rows of a file into amounts by
  key, reconciles each with the total of its row and groups the rows by voucher. The readers of a
  workbook rest on the spreadsheet library and are represented by their results. The zero
  \<open>time.Time\<close> is \<open>None\<close>; the texts of errors are given in short form.
\<close>

section \<open>Cells\<close>

text \<open>\<open>strings.Cut\<close> at the first occurrence of a byte; \<open>strings.LastIndex\<close> of a byte.\<close>

definition cut_at :: "char \<Rightarrow> string \<Rightarrow> (string \<times> string) option" where
  "cut_at c s = (if c \<in> set s then Some (takeWhile (\<lambda>x. x \<noteq> c) s, tl (dropWhile (\<lambda>x. x \<noteq> c) s)) else None)"

definition after_last :: "char \<Rightarrow> string \<Rightarrow> string" where
  "after_last c s = rev (takeWhile (\<lambda>x. x \<noteq> c) (rev s))"

definition last_index :: "char \<Rightarrow> string \<Rightarrow> nat" where
  "last_index c s = length s - length (after_last c s) - 1"

text \<open>\<open>strings.Replace\<close> of the first comma by a dot.\<close>

definition comma_to_dot :: "string \<Rightarrow> string" where
  "comma_to_dot s = (case cut_at (CHR '','') s of None \<Rightarrow> s | Some (a, b) \<Rightarrow> a @ ''.'' @ b)"

definition normalize_decimal :: "string \<Rightarrow> string" where
  "normalize_decimal val =
     (let dot = CHR ''.'' \<in> set val; comma = CHR '','' \<in> set val
      in if dot \<and> comma
         then if last_index (CHR ''.'') val < last_index (CHR '','') val
              then comma_to_dot (filter (\<lambda>c. c \<noteq> CHR ''.'') val)
              else filter (\<lambda>c. c \<noteq> CHR '','') val
         else if comma
         then if length (after_last (CHR '','') val) \<le> 2 then comma_to_dot val
              else filter (\<lambda>c. c \<noteq> CHR '','') val
         else val)"

definition quoted :: "string \<Rightarrow> string" where
  "quoted s = [CHR 0x22] @ s @ [CHR 0x22]"

text \<open>\<open>MM.YY\<close> or \<open>MM.YYYY\<close>; the empty cell is the zero time.\<close>

definition parse_monat_typ :: "string \<Rightarrow> string + gtime option" where
  "parse_monat_typ raw =
     (let s = trim_space raw
      in if s = [] then Inr None
         else case cut_at (CHR ''.'') s of
                None \<Rightarrow> Inl (''invalid month format: '' @ quoted s)
              | Some (mm, yy) \<Rightarrow>
                  if \<not> is_all_digits mm
                  then Inl (''invalid month in '' @ quoted s @ '': '' @ quoted mm @ '' is not a plain number'')
                  else case atoi mm of
                         None \<Rightarrow> Inl (''invalid month in '' @ quoted s)
                       | Some month \<Rightarrow>
                           if month < 1 \<or> 12 < month
                           then Inl (''invalid month in '' @ quoted s @ '': '' @ itoa month @ '' is not a month'')
                           else if \<not> is_all_digits yy
                           then Inl (''invalid year in '' @ quoted s @ '': '' @ quoted yy @ '' is not a plain number'')
                           else case atoi yy of
                                  None \<Rightarrow> Inl (''invalid year in '' @ quoted s)
                                | Some year \<Rightarrow>
                                    (if length yy \<noteq> 2 \<and> length yy \<noteq> 4
                                     then Inl (''invalid year in '' @ quoted s @ '': '' @ quoted yy @
                                       '' is neither a two-digit (MM.YY) nor a four-digit (MM.YYYY) year'')
                                     else let y = (if length yy = 2 then year + 2000 else year)
                                          in if y < 2000 \<or> 2099 < y
                                             then Inl (''invalid year in '' @ quoted s @ '': '' @ itoa y @ '' is outside 2000-2099'')
                                             else Inr (Some (date_utc y month 1))))"

section \<open>What a file holds\<close>

record einrichtung =
  ei_name :: string
  ei_qm :: int
  ei_mss :: int
  ei_ndh :: int
  ei_integration :: int
  ei_sum :: int

record abrechnung =
  ab_contracts :: int
  ab_corrections :: int

record kind =
  kn_typ :: string
  kn_month :: "gtime option"
  kn_voucher :: string
  kn_name :: string
  kn_birth_date :: string
  kn_qm_flag :: string
  kn_mss_flag :: string
  kn_hs_flag :: string
  kn_integration_flag :: string
  kn_scope :: string
  kn_district :: int
  kn_base :: int
  kn_abzug :: int
  kn_parent_care :: int
  kn_parent_meals :: int
  kn_but :: int
  kn_qm :: int
  kn_mss :: int
  kn_ndh :: int
  kn_integration :: int
  kn_sum :: int

record korrekturposten =
  ko_reason :: string
  ko_from :: "gtime option"
  ko_to :: "gtime option"
  ko_sum :: int

record senats_output =
  so_einrichtung :: einrichtung
  so_abrechnung :: abrechnung
  so_kinder :: "kind list"
  so_korrekturen :: "korrekturposten list"
  so_month :: gtime

definition reconcile_vertrag_against_header :: "kind list \<Rightarrow> abrechnung \<Rightarrow> string + unit" where
  "reconcile_vertrag_against_header ks ar =
     (let s = sum64 (map kn_sum ks)
      in if s = ab_contracts ar then Inr ()
         else Inl (''sheet: the '' @ itoa (int (length ks)) @ '' contract row(s) total '' @ itoa s
                @ '' cents but the header states '' @ itoa (ab_contracts ar) @ '' cents''))"

text \<open>\<open>SummarizeKorrektur\<close>: the span of the months that are named, and the reason if it is one.\<close>

record korrektur_summary =
  ks_from :: "gtime option"
  ks_to :: "gtime option"
  ks_reason :: string

definition earlier :: "gtime option \<Rightarrow> gtime option \<Rightarrow> gtime option" where
  "earlier best t =
     (case (best, t) of (None, _) \<Rightarrow> t | (Some b, Some d) \<Rightarrow> (if before d b then t else best) | (Some b, None) \<Rightarrow> t)"

definition later :: "gtime option \<Rightarrow> gtime option \<Rightarrow> gtime option" where
  "later best t =
     (case (best, t) of (None, _) \<Rightarrow> t | (Some b, Some d) \<Rightarrow> (if after d b then t else best) | (Some b, None) \<Rightarrow> best)"

definition summarize_korrektur :: "korrekturposten list \<Rightarrow> korrektur_summary" where
  "summarize_korrektur ps =
     (let reasons = remdups (filter (\<lambda>r. r \<noteq> []) (map ko_reason ps));
          dated = filter (\<lambda>p. ko_from p \<noteq> None) ps
      in \<lparr>ks_from = foldl (\<lambda>b p. earlier b (ko_from p)) None dated,
          ks_to = foldl (\<lambda>b p. later b (ko_to p)) None dated,
          ks_reason = (case reasons of [] \<Rightarrow> [] | [r] \<Rightarrow> r | _ \<Rightarrow> ''mixed'')\<rparr>)"

section \<open>Conversion of a row\<close>

record settlement_amount =
  sm_key :: string
  sm_value :: string
  sm_amount :: int

record converted_row =
  cw_correction :: bool
  cw_total :: int
  cw_amounts :: "settlement_amount list"
  cw_month :: "gtime option"

record converted_child =
  cn_voucher :: string
  cn_name :: string
  cn_birth_date :: string
  cn_district :: int
  cn_total :: int
  cn_rows :: "converted_row list"

record converted_settlement =
  cs_facility_name :: string
  cs_facility_total :: int
  cs_contract_booking :: int
  cs_correction_booking :: int
  cs_correction_from :: "gtime option"
  cs_correction_to :: "gtime option"
  cs_correction_reason :: string
  cs_children_count :: int
  cs_surcharges :: "settlement_amount list"
  cs_children :: "converted_child list"

definition surcharge_keys :: "string list" where
  "surcharge_keys = [''ndh'', ''qm/mss'', ''integration'']"

definition care_scope_map :: "string \<rightharpoonup> string" where
  "care_scope_map = map_of
     [(''ganztags'', ''ganztag''), (''erweitert'', ''ganztag erweitert''), (''teilzeit'', ''teilzeit''),
      (''halbtag'', ''halbtag'')]"

text \<open>No letter outside ASCII folds to one of \<open>ja\<close>, or has \<open>A\<close> or \<open>B\<close> as its upper case.\<close>

definition is_flag_active :: "string \<Rightarrow> string \<Rightarrow> bool" where
  "is_flag_active name value =
     (if name = ''QM'' \<or> name = ''MSS'' then value \<in> {''ja'', ''Ja'', ''jA'', ''JA''}
      else if name = ''HS'' then value \<noteq> ''D'' \<and> value \<noteq> []
      else False)"

definition integration_flag_to_value :: "string \<Rightarrow> string" where
  "integration_flag_to_value flag =
     (let f = trim_space flag
      in if f = ''A'' \<or> f = ''a'' then ''integration a''
         else if f = ''B'' \<or> f = ''b'' then ''integration b'' else [])"

definition amount :: "string \<Rightarrow> string \<Rightarrow> int \<Rightarrow> settlement_amount" where
  "amount k v a = \<lparr>sm_key = k, sm_value = v, sm_amount = a\<rparr>"

definition flag_value :: "bool \<Rightarrow> string \<Rightarrow> int \<Rightarrow> string" where
  "flag_value active value a = (if active \<or> a \<noteq> 0 then value else [])"

definition max_meal_share_cents :: int where
  "max_meal_share_cents = 10000"

definition isbj_abs :: "int \<Rightarrow> int" where
  "isbj_abs v = (if v < 0 then s64 (- v) else v)"

definition month_text :: "gtime option \<Rightarrow> string" where
  "month_text t = (case t of None \<Rightarrow> ''0001-01'' | Some d \<Rightarrow> take 7 (format_date d))"

fun add_to_meals :: "int \<Rightarrow> settlement_amount list \<Rightarrow> settlement_amount list option" where
  "add_to_meals r [] = None"
| "add_to_meals r (a # as) =
     (if sm_key a = ''parent'' \<and> sm_value a = ''meals'' then Some (a\<lparr>sm_amount := s64 (sm_amount a + r)\<rparr> # as)
      else map_option ((#) a) (add_to_meals r as))"

text \<open>\<open>reconcileRow\<close> changes the amounts in place; here it returns them.\<close>

definition reconcile_row :: "kind \<Rightarrow> settlement_amount list \<Rightarrow> string + settlement_amount list" where
  "reconcile_row k as =
     (let s = sum64 (map sm_amount as);
          residual = s64 (kn_sum k - s)
      in if residual = 0 then Inr as
         else if kn_but k \<noteq> 0 \<and> ((residual < 0) = (0 < kn_but k)) \<and> isbj_abs residual \<le> max_meal_share_cents
         then (case add_to_meals residual as of
                 None \<Rightarrow> Inl (''row for month '' @ month_text (kn_month k) @
                   '': no parent:meals entry to carry the BuT meal share of '' @ itoa residual @ '' cents'')
               | Some as' \<Rightarrow> Inr as')
         else Inl (''row for month '' @ month_text (kn_month k) @ '': the per-key amounts total '' @ itoa s @
           '' cents but the Abrechn.-summe for the row is '' @ itoa (kn_sum k) @ '' cents''))"

definition row_amounts :: "string \<Rightarrow> kind \<Rightarrow> settlement_amount list" where
  "row_amounts care k =
     (let qm_mss = s64 (kn_qm k + kn_mss k);
          qm = is_flag_active ''QM'' (kn_qm_flag k);
          mss = is_flag_active ''MSS'' (kn_mss_flag k);
          ndh = is_flag_active ''HS'' (kn_hs_flag k);
          integration = integration_flag_to_value (kn_integration_flag k)
      in filter (\<lambda>a. \<not> (sm_value a = [] \<and> sm_amount a = 0))
           [amount ''care_type'' care (kn_base k),
            amount ''abzug'' (flag_value False ''ohne_mittagessen'' (kn_abzug k)) (kn_abzug k),
            amount ''ndh'' (flag_value ndh ''ndh'' (kn_ndh k)) (kn_ndh k),
            amount ''qm/mss'' (flag_value (qm \<or> mss) ''qm/mss'' qm_mss) qm_mss,
            amount ''integration''
              (if integration = [] \<and> kn_integration k \<noteq> 0 then ''integration'' else integration) (kn_integration k),
            amount ''but'' (flag_value False ''but'' (kn_but k)) (kn_but k),
            amount ''parent'' ''care'' (s64 (- kn_parent_care k)),
            amount ''parent'' ''meals'' (s64 (- kn_parent_meals k))])"

definition convert_child :: "kind \<Rightarrow> string + converted_row" where
  "convert_child k =
     (case care_scope_map (kn_scope k) of
        None \<Rightarrow> Inl (''child '' @ kn_name k @ '': unknown Betreuungsumfang '' @ quoted (kn_scope k))
      | Some care \<Rightarrow>
          bindE (reconcile_row k (row_amounts care k)) (\<lambda>as.
            Inr \<lparr>cw_correction = (kn_typ k = ''K''), cw_total = kn_sum k, cw_amounts = as, cw_month = kn_month k\<rparr>))"

section \<open>Conversion of a file\<close>

definition add_converted :: "converted_child list \<Rightarrow> kind \<times> converted_row \<Rightarrow> converted_child list" where
  "add_converted cs kr =
     (case kr of (k, row) \<Rightarrow>
        if list_ex (\<lambda>c. cn_voucher c = kn_voucher k) cs
        then map (\<lambda>c. if cn_voucher c = kn_voucher k
                    then c\<lparr>cn_rows := cn_rows c @ [row], cn_total := s64 (cn_total c + cw_total row)\<rparr> else c) cs
        else cs @ [\<lparr>cn_voucher = kn_voucher k, cn_name = kn_name k, cn_birth_date = kn_birth_date k,
                    cn_district = kn_district k, cn_total = cw_total row, cn_rows = [row]\<rparr>])"

fun convert_kinder :: "converted_child list \<Rightarrow> kind list \<Rightarrow> string + converted_child list" where
  "convert_kinder cs [] = Inr cs"
| "convert_kinder cs (k # ks) =
     bindE (convert_child k) (\<lambda>row. convert_kinder (add_converted cs (k, row)) ks)"

definition convert_output :: "senats_output \<Rightarrow> string + converted_settlement" where
  "convert_output out =
     (let korrektur = summarize_korrektur (so_korrekturen out);
          e = so_einrichtung out
      in bindE (convert_kinder [] (so_kinder out)) (\<lambda>cs.
           Inr \<lparr>cs_facility_name = ei_name e, cs_facility_total = ei_sum e,
             cs_contract_booking = ab_contracts (so_abrechnung out),
             cs_correction_booking = ab_corrections (so_abrechnung out),
             cs_correction_from = ks_from korrektur, cs_correction_to = ks_to korrektur,
             cs_correction_reason = ks_reason korrektur, cs_children_count = int (length cs),
             cs_surcharges = [amount ''ndh'' ''ndh'' (ei_ndh e),
               amount ''qm/mss'' ''qm/mss'' (s64 (ei_qm e + ei_mss e)),
               amount ''integration'' ''integration'' (ei_integration e)],
             cs_children = cs\<rparr>))"

text \<open>
  \<open>ParseFromReader\<close> after the sheets have been read: the results of the sheet readers in the
  order they are asked for. A failing Korrekturuebersicht is not fatal.
\<close>

record workbook =
  wb_einrichtung :: "string + einrichtung"
  wb_abrechnung :: "string + abrechnung"
  wb_kinder :: "string + kind list"
  wb_month :: "string + gtime"
  wb_korrekturen :: "string + korrekturposten list"

definition parse_workbook :: "workbook \<Rightarrow> string + senats_output" where
  "parse_workbook w =
     (case wb_einrichtung w of
        Inl e \<Rightarrow> Inl (''parsing Einrichtung: '' @ e)
      | Inr eu \<Rightarrow>
     (case wb_abrechnung w of
        Inl e \<Rightarrow> Inl (''parsing Abrechnung: '' @ e)
      | Inr ar \<Rightarrow>
     (case wb_kinder w of
        Inl e \<Rightarrow> Inl (''parsing Vertrag: '' @ e)
      | Inr ks \<Rightarrow>
     (case wb_month w of
        Inl e \<Rightarrow> Inl (''parsing billing month: '' @ e)
      | Inr month \<Rightarrow>
          bindE (reconcile_vertrag_against_header ks ar) (\<lambda>_.
            Inr \<lparr>so_einrichtung = eu, so_abrechnung = ar, so_kinder = ks,
                 so_korrekturen = (case wb_korrekturen w of Inl e \<Rightarrow> [] | Inr ps \<Rightarrow> ps), so_month = month\<rparr>)))))"

end
