(* ===== verification/BillUpload.thy ===== *)
theory BillUpload
  imports BillCompare Isbj
begin

text \<open>
  The operations of \<open>internal/service/government_funding_bill.go\<close> that change bills and vouchers:
  the upload of a settlement file (\<open>ProcessISBJ\<close>) with the discovery of vouchers by name and
  month of birth, reading and deleting a bill, and assigning, listing and removing the vouchers
  of a child. \<open>LOWER\<close> of the database is a parameter. The fuzzy suggestions are not modelled.
\<close>

section \<open>Names and months on a bill\<close>

definition parse_bill_child_name :: "string \<Rightarrow> string \<times> string" where
  "parse_bill_child_name name =
     (case cut_at (CHR '','') name of
        Some (lst, first) \<Rightarrow> (trim_space first, trim_space lst)
      | None \<Rightarrow> ([], trim_space name))"

definition parse_bill_birth_month :: "string \<Rightarrow> (int \<times> int) option" where
  "parse_bill_birth_month date =
     (case cut_at (CHR ''.'') (trim_space date) of
        None \<Rightarrow> None
      | Some (mm, yy) \<Rightarrow>
          (case (atoi mm, atoi yy) of
             (Some m, Some y) \<Rightarrow>
               if m < 1 \<or> 12 < m then None else Some (m, if y < 100 then s64 (y + 2000) else y)
           | _ \<Rightarrow> None))"

definition month_delta :: "gtime \<Rightarrow> int \<Rightarrow> int \<Rightarrow> int" where
  "month_delta birthdate m y =
     (let d = s64 (year_of birthdate * 12 + month_of birthdate - s64 (y * 12 + m)) in if d < 0 then s64 (- d) else d)"

definition find_child_by_name_and_birth_month ::
    "(string \<Rightarrow> string) \<Rightarrow> bill_db \<Rightarrow> nat \<Rightarrow> string \<Rightarrow> string \<Rightarrow> int \<Rightarrow> int \<Rightarrow> child list" where
  "find_child_by_name_and_birth_month lower db org first lst m y =
     filter (\<lambda>c. pn_org c = org \<and> lower (pn_first_name c) = lower first \<and> lower (pn_last_name c) = lower lst \<and>
         month_of (pn_birthdate c) = m \<and> year_of (pn_birthdate c) = y) (kd_children db)"

section \<open>Upload\<close>

text \<open>Vouchers are linked when exactly one child of the organization matches.\<close>

definition discover_voucher ::
    "(string \<Rightarrow> string) \<Rightarrow> nat \<Rightarrow> gtime \<Rightarrow> (string \<rightharpoonup> nat) \<Rightarrow> bill_db \<Rightarrow> converted_child \<Rightarrow> bill_db" where
  "discover_voucher lower org date known db c =
     (if known (cn_voucher c) \<noteq> None then db
      else case parse_bill_child_name (cn_name c) of
             (first, lst) \<Rightarrow>
               if first = [] \<or> lst = [] then db
               else case parse_bill_birth_month (cn_birth_date c) of
                      None \<Rightarrow> db
                    | Some (m, y) \<Rightarrow>
                        (case find_child_by_name_and_birth_month lower db org first lst m y of
                           [child] \<Rightarrow> create_voucher db
                             \<lparr>cv_id = 0, cv_child = pn_id child, cv_number = cn_voucher c, cv_first_seen = date\<rparr>
                         | _ \<Rightarrow> db))"

definition auto_discover_vouchers ::
    "(string \<Rightarrow> string) \<Rightarrow> bill_db \<Rightarrow> nat \<Rightarrow> gtime \<Rightarrow> converted_settlement \<Rightarrow> bill_db" where
  "auto_discover_vouchers lower db org date cs =
     foldl (discover_voucher lower org date
              (find_child_ids_by_voucher_numbers db org (map cn_voucher (cs_children cs))))
       db (cs_children cs)"

record bill_row_response =
  br_total :: int
  br_amounts :: "settlement_amount list"

record bill_child_response =
  bc_voucher :: string
  bc_name :: string
  bc_birth_date :: string
  bc_district :: int
  bc_total :: int
  bc_rows :: "bill_row_response list"
  bc_child :: "nat option"
  bc_contract :: "nat option"
  bc_matched :: bool

record bill_response =
  bp_id :: nat
  bp_facility_name :: string
  bp_facility_total :: int
  bp_contract_booking :: int
  bp_correction_booking :: int
  bp_children_count :: int
  bp_matched_count :: int
  bp_unmatched_count :: int
  bp_surcharges :: "settlement_amount list"
  bp_children :: "bill_child_response list"

text \<open>The match of a row: the child its voucher belongs to, if it has an active contract.\<close>

definition match_row ::
    "(string \<rightharpoonup> nat) \<Rightarrow> (nat \<rightharpoonup> child_contract) \<Rightarrow> bill_child_response \<Rightarrow> bill_child_response" where
  "match_row ids contracts r =
     (case ids (bc_voucher r) of
        None \<Rightarrow> r
      | Some i \<Rightarrow> (case contracts i of
                    None \<Rightarrow> r
                  | Some k \<Rightarrow> r\<lparr>bc_child := Some (c_owner k), bc_contract := Some (c_id k), bc_matched := True\<rparr>))"

definition matched_count :: "bill_child_response list \<Rightarrow> int" where
  "matched_count rs = int (length (filter bc_matched rs))"

definition build_response :: "bill_db \<Rightarrow> nat \<Rightarrow> nat \<Rightarrow> gtime \<Rightarrow> converted_settlement \<Rightarrow> bill_response" where
  "build_response db org i date cs =
     (case resolve_vouchers_to_contracts db org (map cn_voucher (cs_children cs)) date of (ids, contracts) \<Rightarrow>
      (let rs = map (\<lambda>c. match_row ids contracts
             \<lparr>bc_voucher = cn_voucher c, bc_name = cn_name c, bc_birth_date = cn_birth_date c,
              bc_district = cn_district c, bc_total = cn_total c,
              bc_rows = map (\<lambda>r. \<lparr>br_total = cw_total r, br_amounts = cw_amounts r\<rparr>) (cn_rows c),
              bc_child = None, bc_contract = None, bc_matched = False\<rparr>) (cs_children cs)
       in \<lparr>bp_id = i, bp_facility_name = cs_facility_name cs, bp_facility_total = cs_facility_total cs,
           bp_contract_booking = cs_contract_booking cs, bp_correction_booking = cs_correction_booking cs,
           bp_children_count = cs_children_count cs, bp_matched_count = matched_count rs,
           bp_unmatched_count = cs_children_count cs - matched_count rs,
           bp_surcharges = cs_surcharges cs, bp_children = rs\<rparr>))"

text \<open>The payments of the rows of a child, numbered by row.\<close>

definition payments_of_row :: "nat \<times> converted_row \<Rightarrow> bill_payment list" where
  "payments_of_row ir =
     (case ir of (i, r) \<Rightarrow>
        map (\<lambda>a. \<lparr>by_key = sm_key a, by_value = sm_value a, by_amount = sm_amount a, by_row_index = i,
                 by_row_type = (if cw_correction r then row_correction else row_regular),
                 by_month = cw_month r\<rparr>) (cw_amounts r))"

definition bill_child_of :: "converted_child \<Rightarrow> bill_child" where
  "bill_child_of c =
     \<lparr>gc_voucher = cn_voucher c, gc_name = cn_name c, gc_birth_date = cn_birth_date c,
      gc_district = cn_district c,
      gc_payments = concat (map payments_of_row (List.enumerate 0 (cn_rows c)))\<rparr>"

definition last_day_of_month :: "gtime \<Rightarrow> gtime" where
  "last_day_of_month t = date_utc (year_of t) (month_of t + 1) 0"

definition bill_of :: "nat \<Rightarrow> gtime \<Rightarrow> string \<Rightarrow> string \<Rightarrow> nat \<Rightarrow> converted_settlement \<Rightarrow> bill_period" where
  "bill_of org month file hash user cs =
     (let span = cs_correction_from cs \<noteq> None \<and> cs_correction_to cs \<noteq> None
      in \<lparr>p_from = month, p_to = Some (last_day_of_month month), bl_id = 0, bl_org = org,
          bl_file_name = file, bl_hash = hash, bl_facility_name = cs_facility_name cs,
          bl_facility_total = cs_facility_total cs, bl_contract_booking = cs_contract_booking cs,
          bl_correction_booking = cs_correction_booking cs,
          bl_correction_from = (if span then cs_correction_from cs else None),
          bl_correction_to = (if span then cs_correction_to cs else None),
          bl_correction_reason = cs_correction_reason cs, bl_created_by = Some user,
          bl_children = map bill_child_of (cs_children cs)\<rparr>)"

definition duplicate_bill :: "string \<Rightarrow> string \<Rightarrow> go_error" where
  "duplicate_bill message error_code = AppErr (Sentinel ErrConflict) message 409 error_code []"

definition process_isbj ::
    "(string \<Rightarrow> string) \<Rightarrow> bill_db \<Rightarrow> nat \<Rightarrow> workbook \<Rightarrow> string \<Rightarrow> string \<Rightarrow> nat \<Rightarrow>
      (bill_response \<times> bill_db) outcome" where
  "process_isbj lower db org w file hash user =
     (if exists_by_org_and_hash db org hash
      then Inl (duplicate_bill ''a bill with the same file has already been uploaded for this organization''
                  ''duplicate_bill_hash'')
      else case parse_workbook w of
             Inl e \<Rightarrow> Inl (bad_request (''failed to parse ISBJ file: '' @ e))
           | Inr out \<Rightarrow>
               if exists_by_org_and_month db org (so_month out)
               then Inl (duplicate_bill (''a bill for '' @ take 7 (format_date (so_month out)) @
                      '' already exists for this organization; delete the existing bill first'')
                      ''duplicate_bill_month'')
               else case convert_output out of
                      Inl e \<Rightarrow> Inl (bad_request (''failed to convert ISBJ data: '' @ e))
                    | Inr cs \<Rightarrow>
                        (case create_bill db (bill_of org (so_month out) file hash user cs) of
                           Inl e \<Rightarrow> Inl (Wrapped ''persisting bill period'' e)
                         | Inr (b, db1) \<Rightarrow>
                             (let db2 = auto_discover_vouchers lower db1 org (p_from b) cs
                              in Inr (build_response db2 org (bl_id b) (p_from b) cs, db2))))"

section \<open>Reading and deleting a bill\<close>

definition amount_of_payment :: "bill_payment \<Rightarrow> settlement_amount" where
  "amount_of_payment p = \<lparr>sm_key = by_key p, sm_value = by_value p, sm_amount = by_amount p\<rparr>"

definition rows_of_payments :: "bill_payment list \<Rightarrow> bill_row_response list" where
  "rows_of_payments ps =
     map (\<lambda>i. let qs = filter (\<lambda>p. by_row_index p = i) ps
              in \<lparr>br_total = sum64 (map by_amount qs), br_amounts = map amount_of_payment qs\<rparr>)
       (sort (remdups (map by_row_index ps)))"

record bill_period_response = bill_response +
  bx_org :: nat
  bx_from :: string
  bx_to :: string
  bx_file_name :: string
  bx_hash :: string
  bx_correction_from :: "string option"
  bx_correction_to :: "string option"
  bx_correction_reason :: "string option"
  bx_created_by :: "nat option"

definition string_ptr_or_nil :: "string \<Rightarrow> string option" where
  "string_ptr_or_nil s = (if s = [] then None else Some s)"

definition format_month_ptr :: "gtime option \<Rightarrow> string option" where
  "format_month_ptr t = map_option format_date t"

definition get_bill :: "bill_db \<Rightarrow> nat \<Rightarrow> nat \<Rightarrow> bill_period_response outcome" where
  "get_bill db i org =
     (case find_bill_by_id db i of
        Inl e \<Rightarrow> Inl (not_found_or ''bill period'' ''failed to fetch bill period'' e)
      | Inr b \<Rightarrow>
          if bl_org b \<noteq> org then Inl (not_found ''bill period'')
          else case resolve_vouchers_to_contracts db org (map gc_voucher (bl_children b)) (p_from b) of
                 (ids, contracts) \<Rightarrow>
                   (let rs = map (\<lambda>c. match_row ids contracts
                          \<lparr>bc_voucher = gc_voucher c, bc_name = gc_name c, bc_birth_date = gc_birth_date c,
                           bc_district = gc_district c, bc_total = sum64 (map by_amount (gc_payments c)),
                           bc_rows = rows_of_payments (gc_payments c),
                           bc_child = None, bc_contract = None, bc_matched = False\<rparr>) (bl_children b);
                        n = int (length (bl_children b));
                        payments = concat (map gc_payments (bl_children b))
                    in Inr \<lparr>bp_id = bl_id b, bp_facility_name = bl_facility_name b,
                         bp_facility_total = bl_facility_total b, bp_contract_booking = bl_contract_booking b,
                         bp_correction_booking = bl_correction_booking b, bp_children_count = n,
                         bp_matched_count = matched_count rs, bp_unmatched_count = n - matched_count rs,
                         bp_surcharges = map (\<lambda>sk. amount sk sk
                           (sum64 (map by_amount (filter (\<lambda>p. by_key p = sk) payments)))) surcharge_keys,
                         bp_children = rs,
                         bx_org = bl_org b, bx_from = format_date (p_from b), bx_to = format_to_date (p_to b),
                         bx_file_name = bl_file_name b, bx_hash = bl_hash b,
                         bx_correction_from = format_month_ptr (bl_correction_from b),
                         bx_correction_to = format_month_ptr (bl_correction_to b),
                         bx_correction_reason = string_ptr_or_nil (bl_correction_reason b),
                         bx_created_by = bl_created_by b\<rparr>))"

definition delete_bill_period :: "bill_db \<Rightarrow> nat \<Rightarrow> nat \<Rightarrow> (bill_period \<times> bill_db) outcome" where
  "delete_bill_period db i org =
     (case find_bill_by_id db i of
        Inl e \<Rightarrow> Inl (not_found_or ''bill period'' ''failed to fetch bill period'' e)
      | Inr b \<Rightarrow> if bl_org b \<noteq> org then Inl (not_found ''bill period'') else Inr (b, delete_bill db i))"

section \<open>Vouchers of a child\<close>

definition verify_child :: "bill_db \<Rightarrow> nat \<Rightarrow> nat \<Rightarrow> child outcome" where
  "verify_child db child org =
     (case find_child_by_id_and_org db child org of
        Inl e \<Rightarrow> Inl (not_found_or ''child'' ''failed to verify child'' e) | Inr c \<Rightarrow> Inr c)"

definition assign_voucher :: "bill_db \<Rightarrow> gtime \<Rightarrow> nat \<Rightarrow> nat \<Rightarrow> string \<Rightarrow> (child_voucher \<times> bill_db) outcome" where
  "assign_voucher db day child org number =
     bindE (verify_child db child org) (\<lambda>_.
       case create_voucher_strict db \<lparr>cv_id = 0, cv_child = child, cv_number = number, cv_first_seen = day\<rparr> of
         Inr (v, db') \<Rightarrow> Inr (v, db')
       | Inl e \<Rightarrow>
           if \<not> is_store_error e StoreDuplicateKey then Inl (internal_wrap e ''failed to create voucher'')
           else case find_by_voucher_number db number of
                  Inl e' \<Rightarrow> Inl (internal_wrap e' ''failed to look up voucher'')
                | Inr v \<Rightarrow> if cv_child v = child then Inr (v, db)
                          else Inl (conflict (''voucher '' @ number @ '' is already assigned to another child'')))"

definition list_vouchers_for_child :: "bill_db \<Rightarrow> nat \<Rightarrow> nat \<Rightarrow> child_voucher list outcome" where
  "list_vouchers_for_child db child org =
     bindE (verify_child db child org) (\<lambda>_. Inr (find_vouchers_by_child_id db child))"

definition remove_voucher :: "bill_db \<Rightarrow> nat \<Rightarrow> nat \<Rightarrow> nat \<Rightarrow> (string \<times> bill_db) outcome" where
  "remove_voucher db voucher child org =
     bindE (verify_child db child org) (\<lambda>_.
       case find_voucher_by_id db voucher of
         Inl e \<Rightarrow> Inl (not_found_or ''voucher'' ''failed to fetch voucher'' e)
       | Inr v \<Rightarrow>
           if cv_child v \<noteq> child then Inl (not_found ''voucher'')
           else case delete_voucher_by_id db voucher of
                  Inl e \<Rightarrow> Inl (not_found_or ''voucher'' ''failed to delete voucher'' e)
                | Inr db' \<Rightarrow> Inr (cv_number v, db'))"

end
