(* ===== verification/BillUploadLaws.thy ===== *)
theory BillUploadLaws
  imports BillUpload BillRows
begin

text \<open>
  Laws of the conversion of a settlement and of the rows it is stored as: reconciled rows add
  up to the total of the child, the totals of the children to those of the workbook, and the
  rows of a child read back from its payments as they were converted.
\<close>

section \<open>Converted rows\<close>

lemma s64_diff_0: "s64 (a - b) = 0 \<Longrightarrow> s64 a = s64 b"
  using s64_cong_add [of "a - b" 0 b b] by simp

lemma add_to_meals_sum:
  "add_to_meals r as = Some as' \<Longrightarrow>
    s64 (sum_list (map sm_amount as')) = s64 (sum_list (map sm_amount as) + r) \<and> length as' = length as"
proof (induction as arbitrary: as')
  case (Cons a as)
  show ?case
  proof (cases "sm_key a = ''parent'' \<and> sm_value a = ''meals''")
    case True
    with Cons.prems show ?thesis by (auto simp add: algebra_simps)
  next
    case False
    with Cons.prems obtain bs where b: "add_to_meals r as = Some bs" "as' = a # bs" by auto
    from Cons.IH [OF b(1)] have "s64 (sum_list (map sm_amount bs)) = s64 (sum_list (map sm_amount as) + r)" "length bs = length as"
      by auto
    with s64_cong_add [OF refl this(1), of "sm_amount a"] show ?thesis by (simp add: b(2) add.assoc)
  qed
qed simp

lemma reconcile_row_sum:
  assumes "reconcile_row k as = Inr as'"
  shows "s64 (sum_list (map sm_amount as')) = s64 (kn_sum k) \<and> length as' = length as"
proof -
  let ?s = "sum64 (map sm_amount as)"
  have s: "s64 ?s = s64 (sum_list (map sm_amount as))" by (simp add: sum64_eq)
  show ?thesis
  proof (cases "s64 (kn_sum k - ?s) = 0")
    case True
    with s64_diff_0 [OF True] s assms show ?thesis by (simp add: reconcile_row_def Let_def)
  next
    case False
    then obtain bs where "add_to_meals (s64 (kn_sum k - ?s)) as = Some bs" "as' = bs"
      using assms by (auto simp add: reconcile_row_def Let_def split: if_splits option.splits)
    with add_to_meals_sum [of "s64 (kn_sum k - ?s)" as bs] s show ?thesis
      by (metis add.commute diff_add_cancel s64_add_left s64_add_right)
  qed
qed

text \<open>A converted row adds up to its total, and has at least its care type.\<close>

definition row_ok :: "converted_row \<Rightarrow> bool" where
  "row_ok r \<longleftrightarrow> s64 (sum_list (map sm_amount (cw_amounts r))) = s64 (cw_total r) \<and> cw_amounts r \<noteq> []"

lemma care_scope_nonempty: "care_scope_map s = Some care \<Longrightarrow> care \<noteq> []"
  by (auto simp add: care_scope_map_def split: if_splits)

lemma convert_child_ok:
  assumes "convert_child k = Inr row"
  shows "row_ok row" and "cw_total row = kn_sum k"
proof -
  obtain care as where care: "care_scope_map (kn_scope k) = Some care"
    and as: "reconcile_row k (row_amounts care k) = Inr as"
    and row: "row = \<lparr>cw_correction = (kn_typ k = ''K''), cw_total = kn_sum k, cw_amounts = as, cw_month = kn_month k\<rparr>"
    using assms by (auto simp add: convert_child_def bindE_eq_Inr split: option.splits)
  have "amount ''care_type'' care (kn_base k) \<in> set (row_amounts care k)"
    using care_scope_nonempty [OF care] by (simp add: row_amounts_def Let_def amount_def)
  then have "row_amounts care k \<noteq> []" by auto
  then show "row_ok row" using reconcile_row_sum [OF as] by (auto simp add: row row_ok_def)
  show "cw_total row = kn_sum k" by (simp add: row)
qed

text \<open>Children are grouped by voucher; their rows and totals belong together.\<close>

definition child_ok :: "converted_child \<Rightarrow> bool" where
  "child_ok c \<longleftrightarrow> (\<forall>r \<in> set (cn_rows c). row_ok r) \<and>
     s64 (cn_total c) = s64 (sum_list (map cw_total (cn_rows c)))"

definition all_totals :: "converted_child list \<Rightarrow> int" where
  "all_totals cs = sum_list (map (\<lambda>c. sum_list (map cw_total (cn_rows c))) cs)"

lemma add_converted_absent:
  "kn_voucher k \<notin> cn_voucher ` set cs \<Longrightarrow> map (\<lambda>c. if cn_voucher c = kn_voucher k then f c else c) cs = cs"
  by (intro map_idI) (force simp add: image_iff)

lemma add_converted_totals:
  assumes "distinct (map cn_voucher cs)"
  shows "distinct (map cn_voucher (add_converted cs (k, row)))"
    and "all_totals (add_converted cs (k, row)) = all_totals cs + cw_total row"
proof -
  have voucher: "map cn_voucher (map (\<lambda>c. if cn_voucher c = kn_voucher k
      then c\<lparr>cn_rows := cn_rows c @ [row], cn_total := s64 (cn_total c + cw_total row)\<rparr> else c) cs) = map cn_voucher cs"
    by (induction cs) simp_all
  show "distinct (map cn_voucher (add_converted cs (k, row)))"
  proof (cases "list_ex (\<lambda>c. cn_voucher c = kn_voucher k) cs")
    case True
    then show ?thesis using voucher assms by (simp add: add_converted_def del: map_map)
  next
    case False
    then show ?thesis using assms by (auto simp add: add_converted_def list_ex_iff)
  qed
  have upd: "all_totals (map (\<lambda>c. if cn_voucher c = kn_voucher k
      then c\<lparr>cn_rows := cn_rows c @ [row], cn_total := s64 (cn_total c + cw_total row)\<rparr> else c) cs)
      = all_totals cs + cw_total row" if "kn_voucher k \<in> cn_voucher ` set cs"
    using assms that
  proof (induction cs)
    case (Cons c cs)
    show ?case
    proof (cases "cn_voucher c = kn_voucher k")
      case True
      then have "kn_voucher k \<notin> cn_voucher ` set cs" using Cons.prems by (auto simp flip: True)
      with True show ?thesis by (simp add: add_converted_absent all_totals_def)
    next
      case False
      with Cons show ?thesis by (simp add: all_totals_def)
    qed
  qed simp
  show "all_totals (add_converted cs (k, row)) = all_totals cs + cw_total row"
  proof (cases "list_ex (\<lambda>c. cn_voucher c = kn_voucher k) cs")
    case True
    then have "kn_voucher k \<in> cn_voucher ` set cs" by (force simp add: list_ex_iff)
    with True upd show ?thesis by (simp add: add_converted_def del: map_map)
  next
    case False
    then show ?thesis by (simp add: add_converted_def all_totals_def)
  qed
qed

lemma add_converted_ok:
  assumes "\<forall>c \<in> set cs. child_ok c" and "row_ok row"
  shows "\<forall>c \<in> set (add_converted cs (k, row)). child_ok c"
proof -
  have "child_ok (c\<lparr>cn_rows := cn_rows c @ [row], cn_total := s64 (cn_total c + cw_total row)\<rparr>)" if "child_ok c" for c
  proof -
    from that have "s64 (cn_total c) = s64 (sum_list (map cw_total (cn_rows c)))" by (simp add: child_ok_def)
    from s64_cong_add [OF this refl] that assms(2) show ?thesis by (auto simp add: child_ok_def)
  qed
  then show ?thesis using assms by (auto simp add: add_converted_def child_ok_def split: if_splits)
qed

lemma convert_kinder_ok:
  assumes "convert_kinder cs ks = Inr cs'" and "distinct (map cn_voucher cs)" and "\<forall>c \<in> set cs. child_ok c"
  shows "distinct (map cn_voucher cs') \<and> (\<forall>c \<in> set cs'. child_ok c) \<and>
    all_totals cs' = all_totals cs + sum_list (map kn_sum ks)"
  using assms
proof (induction ks arbitrary: cs)
  case (Cons k ks)
  from Cons.prems(1) obtain row where r: "convert_child k = Inr row"
    and c: "convert_kinder (add_converted cs (k, row)) ks = Inr cs'" by (auto simp add: bindE_eq_Inr)
  from Cons.IH [OF c add_converted_totals(1) [OF Cons.prems(2)]
      add_converted_ok [OF Cons.prems(3) convert_child_ok(1) [OF r]]]
  show ?case by (simp add: add_converted_totals(2) [OF Cons.prems(2)] convert_child_ok(2) [OF r])
qed simp

section \<open>Stored rows\<close>

lemma amount_of_payment_eta:
  "amount_of_payment \<lparr>by_key = sm_key a, by_value = sm_value a, by_amount = sm_amount a, by_row_index = i,
     by_row_type = ty, by_month = m\<rparr> = a"
  by (cases a) (simp add: amount_of_payment_def)

lemma payments_of_row_simps:
  "map by_amount (payments_of_row (i, r)) = map sm_amount (cw_amounts r)"
  "map amount_of_payment (payments_of_row (i, r)) = cw_amounts r"
  "by_row_index ` set (payments_of_row (i, r)) = (if cw_amounts r = [] then {} else {i})"
  "filter (\<lambda>p. by_row_index p = j) (payments_of_row (i, r)) = (if i = j then payments_of_row (i, r) else [])"
  by (simp_all add: payments_of_row_def comp_def amount_of_payment_eta filter_map image_image
      image_constant_conv)

lemma payment_types:
  "p \<in> set (payments_of_row ir) \<Longrightarrow> by_row_type p = row_regular \<or> by_row_type p = row_correction"
  by (auto simp add: payments_of_row_def split: prod.splits if_splits)

lemma bill_child_types:
  "p \<in> set (gc_payments (bill_child_of c)) \<Longrightarrow> by_row_type p = row_regular \<or> by_row_type p = row_correction"
  using payment_types by (auto simp add: bill_child_of_def)

lemma default_row_types [simp]:
  "map default_row_type (gc_payments (bill_child_of c)) = gc_payments (bill_child_of c)"
  by (rule map_idI) (use bill_child_types in \<open>force simp add: default_row_type_def\<close>)

lemma sum_by_type:
  assumes "\<forall>p \<in> set ps. by_row_type p = row_regular \<or> by_row_type p = row_correction"
  shows "sum_list (map by_amount (filter (\<lambda>p. by_row_type p = row_regular) ps))
    + sum_list (map by_amount (filter (\<lambda>p. by_row_type p = row_correction) ps)) = sum_list (map by_amount ps)"
  using assms by (induction ps) auto

lemma stored_amounts:
  "map by_amount (concat (map payments_of_row (List.enumerate n rows))) = concat (map (map sm_amount \<circ> cw_amounts) rows)"
  by (induction rows arbitrary: n) (simp_all add: payments_of_row_simps)

lemma stored_row:
  assumes "i < length rows"
  shows "filter (\<lambda>p. by_row_index p = n + i) (concat (map payments_of_row (List.enumerate n rows)))
    = payments_of_row (n + i, rows ! i)"
  using assms
proof (induction rows arbitrary: n i)
  case (Cons r rows)
  have none: "filter (\<lambda>p. by_row_index p = n) (concat (map payments_of_row (List.enumerate m rows))) = []"
    if "n < m" for m n and rows :: "converted_row list"
    using that by (induction rows arbitrary: m) (simp_all add: payments_of_row_simps)
  show ?case
  proof (cases i)
    case 0
    then show ?thesis by (simp add: payments_of_row_simps none)
  next
    case (Suc j)
    with Cons.IH [of j "Suc n"] Cons.prems show ?thesis by (simp add: payments_of_row_simps)
  qed
qed simp

lemma stored_indexes:
  assumes "\<forall>r \<in> set rows. row_ok r"
  shows "by_row_index ` set (concat (map payments_of_row (List.enumerate n rows))) = {n..<n + length rows}"
  using assms
proof (induction rows arbitrary: n)
  case (Cons r rows)
  then have "cw_amounts r \<noteq> []" by (simp add: row_ok_def)
  with Cons show ?case by (auto simp add: image_Un payments_of_row_simps)
qed simp

lemma sum_list_concat_lists: "sum_list (concat (map (map f \<circ> g) xs)) = sum_list (map (\<lambda>x. sum_list (map f (g x))) xs)"
  for f :: "'a \<Rightarrow> int"
  by (induction xs) simp_all

text \<open>The rows of a child read back as they were converted.\<close>

lemma rows_read_back:
  assumes "\<forall>r \<in> set (cn_rows c). row_ok r"
  shows "rows_of_payments (gc_payments (bill_child_of c))
    = map (\<lambda>r. \<lparr>br_total = s64 (cw_total r), br_amounts = cw_amounts r\<rparr>) (cn_rows c)"
proof -
  let ?ps = "concat (map payments_of_row (List.enumerate 0 (cn_rows c)))"
  have "set (sort (remdups (map by_row_index ?ps))) = set [0..<length (cn_rows c)]"
    using stored_indexes [OF assms, of 0] by (simp add: atLeast0LessThan)
  then have idx: "sort (remdups (map by_row_index ?ps)) = [0..<length (cn_rows c)]"
    by (intro sorted_distinct_set_unique) simp_all
  show ?thesis
  proof (rule nth_equalityI)
    show "length (rows_of_payments (gc_payments (bill_child_of c)))
        = length (map (\<lambda>r. \<lparr>br_total = s64 (cw_total r), br_amounts = cw_amounts r\<rparr>) (cn_rows c))"
      by (simp add: rows_of_payments_def bill_child_of_def idx)
  next
    fix i assume "i < length (rows_of_payments (gc_payments (bill_child_of c)))"
    then have i: "i < length (cn_rows c)" by (simp add: rows_of_payments_def bill_child_of_def idx)
    then have "row_ok (cn_rows c ! i)" using assms by simp
    then show "rows_of_payments (gc_payments (bill_child_of c)) ! i
        = map (\<lambda>r. \<lparr>br_total = s64 (cw_total r), br_amounts = cw_amounts r\<rparr>) (cn_rows c) ! i"
      using i stored_row [OF i, of 0]
      by (simp add: rows_of_payments_def bill_child_of_def idx Let_def payments_of_row_simps sum64_eq row_ok_def)
  qed
qed

lemma child_amounts:
  assumes "child_ok c"
  shows "s64 (sum_list (map by_amount (gc_payments (bill_child_of c)))) = s64 (sum_list (map cw_total (cn_rows c)))"
proof -
  have "sum_list (map by_amount (gc_payments (bill_child_of c)))
      = sum_list (map (\<lambda>r. sum_list (map sm_amount (cw_amounts r))) (cn_rows c))"
    by (simp add: bill_child_of_def stored_amounts sum_list_concat_lists)
  also have "s64 \<dots> = s64 (sum_list (map cw_total (cn_rows c)))"
    by (rule s64_sum_cong) (use assms in \<open>simp add: child_ok_def row_ok_def\<close>)
  finally show ?thesis .
qed

lemma children_amounts:
  assumes "\<forall>c \<in> set cs. child_ok c"
  shows "s64 (row_sum row_regular (map bill_child_of cs) + row_sum row_correction (map bill_child_of cs))
    = s64 (all_totals cs)"
proof -
  have "row_sum row_regular (map bill_child_of cs) + row_sum row_correction (map bill_child_of cs)
      = sum_list (map (\<lambda>c. sum_list (map by_amount (gc_payments (bill_child_of c)))) cs)"
  proof (induction cs)
    case (Cons c cs)
    have "sum_list (map by_amount (filter (\<lambda>p. by_row_type p = row_regular) (gc_payments (bill_child_of c))))
        + sum_list (map by_amount (filter (\<lambda>p. by_row_type p = row_correction) (gc_payments (bill_child_of c))))
        = sum_list (map by_amount (gc_payments (bill_child_of c)))"
      by (rule sum_by_type) (use bill_child_types in blast)
    with Cons show ?case by (simp add: row_sum_def)
  qed (simp add: row_sum_def)
  also have "s64 \<dots> = s64 (all_totals cs)"
    unfolding all_totals_def by (rule s64_sum_cong) (use assms child_amounts in blast)
  finally show ?thesis .
qed

end
