(* ===== verification/BillTables.thy ===== *)
theory BillTables
  imports BillUploadLaws
begin

text \<open>
  The tables of bills and vouchers under the requests that change them: the step relation
  and its invariant, the voucher table as a partial map, and what an upload stores.
\<close>

section \<open>The tables\<close>

text \<open>Keys, unique indexes and references of the tables of bills and vouchers.\<close>

definition tables_ok :: "bill_db \<Rightarrow> bool" where
  "tables_ok db \<longleftrightarrow> bill_db_ok db \<and>
     distinct (map cv_id (kd_vouchers db)) \<and> (\<forall>v \<in> set (kd_vouchers db). cv_id v < kd_next_voucher db) \<and>
     (\<forall>v \<in> set (kd_vouchers db). cv_child v \<in> pn_id ` set (kd_children db)) \<and>
     distinct (map bl_id (kd_bills db)) \<and> (\<forall>b \<in> set (kd_bills db). bl_id b < kd_next_bill db) \<and>
     distinct (map (\<lambda>b. (bl_org b, bl_hash b)) (kd_bills db)) \<and>
     distinct (map (\<lambda>b. (bl_org b, bill_day b)) (kd_bills db)) \<and>
     (\<forall>b \<in> set (kd_bills db). \<forall>c \<in> set (bl_children b). \<forall>p \<in> set (gc_payments c). by_row_type p \<noteq> [])"

text \<open>The requests that change them; children and their contracts stay as they are.\<close>

inductive bill_step :: "(string \<Rightarrow> string) \<Rightarrow> bill_db \<Rightarrow> bill_db \<Rightarrow> bool" for lower where
  upload: "process_isbj lower db org w fname hash user = Inr (r, db') \<Longrightarrow> bill_step lower db db'"
| delete: "delete_bill_period db i org = Inr (b, db') \<Longrightarrow> bill_step lower db db'"
| assign: "assign_voucher db day child org number = Inr (v, db') \<Longrightarrow> bill_step lower db db'"
| remove: "remove_voucher db i child org = Inr (number, db') \<Longrightarrow> bill_step lower db db'"

lemma create_voucher_strict_cases:
  assumes "create_voucher_strict db v = Inr (v', db')"
  shows "cv_number v \<notin> cv_number ` set (kd_vouchers db)" and "v' = v\<lparr>cv_id := kd_next_voucher db\<rparr>"
    and "db' = db\<lparr>kd_vouchers := kd_vouchers db @ [v'], kd_next_voucher := Suc (kd_next_voucher db)\<rparr>"
  using assms by (auto simp add: create_voucher_strict_def list_ex_iff Let_def split: if_splits)

lemma create_voucher_strict_Inl:
  "create_voucher_strict db v = Inl e \<longleftrightarrow> cv_number v \<in> cv_number ` set (kd_vouchers db) \<and> e = StoreError StoreDuplicateKey"
proof -
  have "list_ex (\<lambda>w. cv_number w = cv_number v) (kd_vouchers db) \<longleftrightarrow> cv_number v \<in> cv_number ` set (kd_vouchers db)"
    unfolding list_ex_iff image_iff by metis
  then show ?thesis by (auto simp add: create_voucher_strict_def Let_def)
qed

lemma tables_ok_create_strict:
  assumes "tables_ok db" and "create_voucher_strict db v = Inr (v', db')" and "cv_child v \<in> pn_id ` set (kd_children db)"
  shows "tables_ok db'"
proof -
  note c = create_voucher_strict_cases [OF assms(2)]
  have "kd_next_voucher db \<notin> cv_id ` set (kd_vouchers db)" using assms(1) by (force simp add: tables_ok_def)
  moreover have "\<forall>v \<in> set (kd_vouchers db). cv_id v < Suc (kd_next_voucher db)"
    using assms(1) by (auto simp add: tables_ok_def less_Suc_eq)
  ultimately show ?thesis using assms(1,3) c(1) by (simp add: tables_ok_def bill_db_ok_def c(2,3))
qed

lemma tables_ok_create:
  assumes "tables_ok db" and "cv_child v \<in> pn_id ` set (kd_children db)"
  shows "tables_ok (create_voucher db v)"
  using assms tables_ok_create_strict by (auto simp add: create_voucher_def split: sum.split prod.split)

lemma tables_ok_delete:
  assumes "tables_ok db"
  shows "tables_ok (delete_bill db i)" and "delete_voucher_by_id db j = Inr db' \<Longrightarrow> tables_ok db'"
  using assms by (auto simp add: tables_ok_def bill_db_ok_def delete_bill_def delete_voucher_by_id_def
      distinct_map_filter split: if_splits)

lemma children_create [simp]: "kd_children (create_voucher db v) = kd_children db"
  by (auto simp add: create_voucher_def create_voucher_strict_def Let_def split: sum.split)

lemma bills_create [simp]: "kd_bills (create_voucher db v) = kd_bills db"
  by (auto simp add: create_voucher_def create_voucher_strict_def Let_def split: sum.split)

lemma discover_voucher_cases:
  obtains "discover_voucher lower org date known db c = db"
  | child where "child \<in> set (kd_children db)" "known (cn_voucher c) = None"
      "discover_voucher lower org date known db c = create_voucher db
        \<lparr>cv_id = 0, cv_child = pn_id child, cv_number = cn_voucher c, cv_first_seen = date\<rparr>"
proof (cases "discover_voucher lower org date known db c = db")
  case False
  obtain first lst where n: "parse_bill_child_name (cn_name c) = (first, lst)" by fastforce
  from False obtain m y where k: "known (cn_voucher c) = None" "first \<noteq> []" "lst \<noteq> []"
    and m: "parse_bill_birth_month (cn_birth_date c) = Some (m, y)"
    by (auto simp add: discover_voucher_def n split: if_splits option.splits)
  from False obtain child where ch: "find_child_by_name_and_birth_month lower db org first lst m y = [child]"
    by (auto simp add: discover_voucher_def n k m split: list.splits)
  then have "child \<in> set (find_child_by_name_and_birth_month lower db org first lst m y)" by simp
  then have "child \<in> set (kd_children db)" by (auto simp add: find_child_by_name_and_birth_month_def)
  with that(2) k ch show ?thesis by (simp add: discover_voucher_def n m)
qed (rule that)

lemma discover_fold:
  assumes "tables_ok db"
  shows "tables_ok (foldl (discover_voucher lower org date known) db cs) \<and>
    kd_children (foldl (discover_voucher lower org date known) db cs) = kd_children db \<and>
    kd_bills (foldl (discover_voucher lower org date known) db cs) = kd_bills db"
  using assms
proof (induction cs arbitrary: db)
  case (Cons c cs)
  let ?db = "discover_voucher lower org date known db c"
  have "tables_ok ?db \<and> kd_children ?db = kd_children db \<and> kd_bills ?db = kd_bills db"
    by (rule discover_voucher_cases [of lower org date known db c]) (use Cons.prems in \<open>auto intro: tables_ok_create\<close>)
  with Cons.IH [of ?db] show ?case by simp
qed simp

lemma create_bill_cases:
  assumes "create_bill db (bill_of org month fname hash user cs) = Inr (b, db')"
  shows "b = (bill_of org month fname hash user cs)\<lparr>bl_id := kd_next_bill db\<rparr>"
    and "db' = db\<lparr>kd_bills := kd_bills db @ [b], kd_next_bill := Suc (kd_next_bill db)\<rparr>"
    and "(org, hash) \<notin> (\<lambda>b. (bl_org b, bl_hash b)) ` set (kd_bills db)"
    and "(org, local_day month) \<notin> (\<lambda>b. (bl_org b, bill_day b)) ` set (kd_bills db)"
proof -
  have "map (\<lambda>c. c\<lparr>gc_payments := map default_row_type (gc_payments c)\<rparr>) (map bill_child_of cs') = map bill_child_of cs'" for cs'
    by (induction cs') (simp_all)
  then have m: "map (\<lambda>c. c\<lparr>gc_payments := map default_row_type (gc_payments c)\<rparr>)
      (bl_children (bill_of org month fname hash user cs)) = bl_children (bill_of org month fname hash user cs)"
    by (simp add: bill_of_def Let_def)
  have o: "bl_org (bill_of org month fname hash user cs) = org" "bl_hash (bill_of org month fname hash user cs) = hash"
    "p_from (bill_of org month fname hash user cs) = month" by (simp_all add: bill_of_def Let_def)
  have ne: "\<not> (exists_by_org_and_hash db org hash \<or> exists_by_org_and_month db org month)"
    using assms by (auto simp add: create_bill_def o split: if_splits)
  then show "(org, hash) \<notin> (\<lambda>b. (bl_org b, bl_hash b)) ` set (kd_bills db)"
    "(org, local_day month) \<notin> (\<lambda>b. (bl_org b, bill_day b)) ` set (kd_bills db)"
    by (auto simp add: exists_by_org_and_hash_def exists_by_org_and_month_def list_ex_iff)
  show b: "b = (bill_of org month fname hash user cs)\<lparr>bl_id := kd_next_bill db\<rparr>"
    using assms ne unfolding create_bill_def o m by (simp add: Let_def)
  show "db' = db\<lparr>kd_bills := kd_bills db @ [b], kd_next_bill := Suc (kd_next_bill db)\<rparr>"
    using assms ne unfolding create_bill_def o m b by (simp add: Let_def)
qed

lemma upload_cases:
  assumes "process_isbj lower db org w fname hash user = Inr (r, db')"
  obtains out cs b db1 where "parse_workbook w = Inr out" and "convert_output out = Inr cs"
    and "create_bill db (bill_of org (so_month out) fname hash user cs) = Inr (b, db1)"
    and "db' = auto_discover_vouchers lower db1 org (p_from b) cs"
    and "r = build_response db' org (bl_id b) (p_from b) cs"
  using assms by (auto simp add: process_isbj_def Let_def split: if_splits sum.splits)

lemma tables_ok_create_bill:
  assumes "tables_ok db" and "create_bill db (bill_of org month fname hash user cs) = Inr (b, db')"
  shows "tables_ok db'" and "kd_children db' = kd_children db" and "kd_bills db' = kd_bills db @ [b]"
proof -
  note c = create_bill_cases [OF assms(2)]
  have f: "bl_id b = kd_next_bill db" "bl_org b = org" "bl_hash b = hash" "bill_day b = local_day month"
      "bl_children b = map bill_child_of (cs_children cs)"
    by (simp_all add: c(1) bill_of_def Let_def bill_day_def)
  have "kd_next_bill db \<notin> bl_id ` set (kd_bills db)" using assms(1) by (force simp add: tables_ok_def)
  moreover have "\<forall>b \<in> set (kd_bills db). bl_id b < Suc (kd_next_bill db)"
    using assms(1) by (auto simp add: tables_ok_def less_Suc_eq)
  moreover have "\<forall>c \<in> set (bl_children b). \<forall>p \<in> set (gc_payments c). by_row_type p \<noteq> []"
    using bill_child_types by (force simp add: f(5))
  ultimately show "tables_ok db'" using assms(1) c(3,4) f
    by (simp add: c(2) tables_ok_def bill_db_ok_def)
  show "kd_children db' = kd_children db" "kd_bills db' = kd_bills db @ [b]" by (simp_all add: c(2))
qed

lemma find_Some: "find P xs = Some x \<Longrightarrow> x \<in> set xs \<and> P x"
  by (auto simp add: find_Some_iff)

lemma verify_child_Inr:
  "verify_child db child org = Inr c \<Longrightarrow> c \<in> set (kd_children db) \<and> pn_id c = child \<and> pn_org c = org"
  by (auto simp add: verify_child_def find_child_by_id_and_org_def split: sum.splits option.splits dest!: find_Some)

lemma assign_cases:
  assumes "assign_voucher db day child org number = Inr (v, db')"
  shows "child \<in> pn_id ` set (kd_children db)"
    and "create_voucher_strict db \<lparr>cv_id = 0, cv_child = child, cv_number = number, cv_first_seen = day\<rparr> = Inr (v, db')
      \<or> db' = db \<and> find_by_voucher_number db number = Inr v \<and> cv_child v = child"
proof -
  from assms obtain c where "verify_child db child org = Inr c" by (auto simp add: assign_voucher_def bindE_eq_Inr)
  from verify_child_Inr [OF this] show "child \<in> pn_id ` set (kd_children db)" by auto
  show "create_voucher_strict db \<lparr>cv_id = 0, cv_child = child, cv_number = number, cv_first_seen = day\<rparr> = Inr (v, db')
      \<or> db' = db \<and> find_by_voucher_number db number = Inr v \<and> cv_child v = child"
    using assms by (auto simp add: assign_voucher_def bindE_eq_Inr split: sum.splits if_splits)
qed

lemma tables_ok_step: "bill_step lower db db' \<Longrightarrow> tables_ok db \<Longrightarrow> tables_ok db'"
proof (induction rule: bill_step.induct)
  case (upload db org w fname hash user r db')
  show ?case
  proof (rule upload_cases [OF upload(1)])
    fix out cs b db1 assume c: "create_bill db (bill_of org (so_month out) fname hash user cs) = Inr (b, db1)"
      and d: "db' = auto_discover_vouchers lower db1 org (p_from b) cs"
    from discover_fold [OF tables_ok_create_bill(1) [OF upload(2) c]] show ?case
      by (simp add: d auto_discover_vouchers_def)
  qed
next
  case (delete db i org b db')
  then show ?case by (auto simp add: delete_bill_period_def tables_ok_delete(1) split: sum.splits if_splits)
next
  case (assign db day child org number v db')
  with assign_cases [OF assign(1)] show ?case using tables_ok_create_strict by fastforce
next
  case (remove db i child org number db')
  then show ?case by (auto simp add: remove_voucher_def bindE_eq_Inr tables_ok_delete(2) split: sum.splits if_splits)
qed

lemma tables_ok_steps: "(bill_step lower)\<^sup>*\<^sup>* db db' \<Longrightarrow> tables_ok db \<Longrightarrow> tables_ok db'"
  by (induction rule: rtranclp_induct) (auto intro: tables_ok_step)

section \<open>The vouchers as a map\<close>

text \<open>
  What the voucher table stands for: a partial map from numbers to children. Assigning extends
  it and never overwrites; releasing removes a number.
\<close>

definition voucher_map :: "bill_db \<Rightarrow> (string \<rightharpoonup> nat)" where
  "voucher_map db = map_of (map (\<lambda>v. (cv_number v, cv_child v)) (kd_vouchers db))"

definition map_assign :: "nat \<Rightarrow> string \<Rightarrow> (string \<rightharpoonup> nat) \<Rightarrow> (string \<rightharpoonup> nat) option" where
  "map_assign child number m =
     (case m number of None \<Rightarrow> Some (m(number \<mapsto> child)) | Some d \<Rightarrow> if d = child then Some m else None)"

definition child_in_org :: "bill_db \<Rightarrow> nat \<Rightarrow> nat \<Rightarrow> bool" where
  "child_in_org db child org = list_ex (\<lambda>c. pn_id c = child \<and> pn_org c = org) (kd_children db)"

lemma verify_child_iff: "(\<exists>c. verify_child db child org = Inr c) \<longleftrightarrow> child_in_org db child org"
proof
  assume "\<exists>c. verify_child db child org = Inr c"
  then show "child_in_org db child org" using verify_child_Inr by (fastforce simp add: child_in_org_def list_ex_iff)
next
  assume "child_in_org db child org"
  then have "find (\<lambda>c. pn_id c = child \<and> pn_org c = org) (kd_children db) \<noteq> None"
    by (auto simp add: child_in_org_def list_ex_iff find_None_iff)
  then show "\<exists>c. verify_child db child org = Inr c"
    by (auto simp add: verify_child_def find_child_by_id_and_org_def)
qed

lemma voucher_map_eq:
  assumes "distinct (map cv_number vs)"
  shows "map_of (map (\<lambda>v. (cv_number v, cv_child v)) vs) n = Some c \<longleftrightarrow> (\<exists>v \<in> set vs. cv_number v = n \<and> cv_child v = c)"
proof -
  have "distinct (map fst (map (\<lambda>v. (cv_number v, cv_child v)) vs))" using assms by (simp add: comp_def)
  from map_of_eq_Some_iff [OF this] show ?thesis by force
qed

lemma voucher_map_None:
  "map_of (map (\<lambda>v. (cv_number v, cv_child v)) vs) n = None \<longleftrightarrow> n \<notin> cv_number ` set vs"
  by (simp add: map_of_eq_None_iff image_image)

lemma find_by_number:
  assumes "n \<in> cv_number ` set (kd_vouchers db)"
  obtains v where "find_by_voucher_number db n = Inr v" "v \<in> set (kd_vouchers db)" "cv_number v = n"
proof -
  from assms have "find (\<lambda>v. cv_number v = n) (kd_vouchers db) \<noteq> None" by (auto simp add: find_None_iff)
  then obtain v where "find (\<lambda>v. cv_number v = n) (kd_vouchers db) = Some v" by auto
  with find_Some [OF this] that show ?thesis by (simp add: find_by_voucher_number_def)
qed

definition assigned :: "(child_voucher \<times> bill_db) outcome \<Rightarrow> (string \<rightharpoonup> nat) option" where
  "assigned res = (case res of Inl e \<Rightarrow> None | Inr (v, db) \<Rightarrow> Some (voucher_map db))"

lemma assign_refines:
  assumes "tables_ok db"
  shows "assigned (assign_voucher db day child org number)
    = (if child_in_org db child org then map_assign child number (voucher_map db) else None)"
proof (cases "verify_child db child org")
  case (Inl e)
  then have "\<not> child_in_org db child org" using verify_child_iff by (metis Inl_Inr_False)
  with Inl show ?thesis by (simp add: assign_voucher_def assigned_def)
next
  case (Inr c)
  then have c: "child_in_org db child org" using verify_child_iff by blast
  have d: "distinct (map cv_number (kd_vouchers db))" using assms by (simp add: tables_ok_def bill_db_ok_def)
  let ?v = "\<lparr>cv_id = 0, cv_child = child, cv_number = number, cv_first_seen = day\<rparr>"
  show ?thesis
  proof (cases "number \<in> cv_number ` set (kd_vouchers db)")
    case True
    then have dup: "create_voucher_strict db ?v = Inl (StoreError StoreDuplicateKey)"
      by (simp add: create_voucher_strict_Inl)
    from True obtain v where v: "find_by_voucher_number db number = Inr v" "v \<in> set (kd_vouchers db)" "cv_number v = number"
      by (rule find_by_number)
    then have "voucher_map db number = Some (cv_child v)"
      using voucher_map_eq [OF d] by (auto simp add: voucher_map_def)
    then show ?thesis using c Inr dup v(1) by (simp add: assign_voucher_def assigned_def map_assign_def)
  next
    case False
    then obtain v db' where cr: "create_voucher_strict db ?v = Inr (v, db')"
      by (cases "create_voucher_strict db ?v") (auto simp add: create_voucher_strict_Inl)
    note k = create_voucher_strict_cases [OF cr]
    have n: "voucher_map db number = None" using False by (simp add: voucher_map_def map_of_eq_None_iff image_image)
    have "voucher_map db' = (voucher_map db)(number \<mapsto> child)"
      using n unfolding voucher_map_def k(3) by (auto simp add: k(2) map_add_def fun_eq_iff split: option.split)
    with c Inr cr n show ?thesis by (simp add: assign_voucher_def assigned_def map_assign_def)
  qed
qed

definition released :: "(string \<times> bill_db) outcome \<Rightarrow> (string \<times> (string \<rightharpoonup> nat)) option" where
  "released res = (case res of Inl e \<Rightarrow> None | Inr (n, db) \<Rightarrow> Some (n, voucher_map db))"

lemma delete_voucher_map:
  assumes "tables_ok db" and "v \<in> set (kd_vouchers db)"
  shows "map_of (map (\<lambda>v. (cv_number v, cv_child v)) (filter (\<lambda>w. cv_id w \<noteq> cv_id v) (kd_vouchers db)))
    = (voucher_map db)(cv_number v := None)"
proof
  fix n
  let ?vs = "filter (\<lambda>w. cv_id w \<noteq> cv_id v) (kd_vouchers db)"
  have d: "distinct (map cv_number (kd_vouchers db))" "distinct (map cv_id (kd_vouchers db))"
    using assms(1) by (simp_all add: tables_ok_def bill_db_ok_def)
  have same: "w = v" if "w \<in> set (kd_vouchers db)" "cv_id w = cv_id v \<or> cv_number w = cv_number v" for w
    using that assms(2) d by (auto simp add: distinct_map dest: inj_onD)
  have d': "distinct (map cv_number ?vs)" using d(1) by (simp add: distinct_map_filter)
  show "map_of (map (\<lambda>v. (cv_number v, cv_child v)) ?vs) n = ((voucher_map db)(cv_number v := None)) n"
  proof (cases "map_of (map (\<lambda>v. (cv_number v, cv_child v)) ?vs) n")
    case None
    then have "n \<notin> cv_number ` set ?vs" by (simp add: map_of_eq_None_iff image_image)
    then have "n = cv_number v \<or> n \<notin> cv_number ` set (kd_vouchers db)" using same by force
    then have "((voucher_map db)(cv_number v := None)) n = None"
      by (auto simp add: voucher_map_def voucher_map_None)
    with None show ?thesis by simp
  next
    case (Some c)
    from voucher_map_eq [OF d'] Some obtain w where w: "w \<in> set ?vs" "cv_number w = n" "cv_child w = c" by auto
    then have "voucher_map db n = Some c" using voucher_map_eq [OF d(1)] by (auto simp add: voucher_map_def)
    moreover have "n \<noteq> cv_number v" using w same by auto
    ultimately show ?thesis using Some by simp
  qed
qed

lemma remove_refines:
  assumes "tables_ok db"
  shows "released (remove_voucher db i child org)
    = (if child_in_org db child org
       then case find (\<lambda>v. cv_id v = i \<and> cv_child v = child) (kd_vouchers db) of
              None \<Rightarrow> None
            | Some v \<Rightarrow> Some (cv_number v, (voucher_map db)(cv_number v := None))
       else None)"
proof (cases "verify_child db child org")
  case (Inl e)
  then have "\<not> child_in_org db child org" using verify_child_iff by (metis Inl_Inr_False)
  with Inl show ?thesis by (simp add: remove_voucher_def released_def)
next
  case (Inr c)
  then have c: "child_in_org db child org" using verify_child_iff by blast
  have d: "distinct (map cv_id (kd_vouchers db))" using assms by (simp add: tables_ok_def)
  show ?thesis
  proof (cases "find (\<lambda>v. cv_id v = i) (kd_vouchers db)")
    case None
    then have "find (\<lambda>v. cv_id v = i \<and> cv_child v = child) (kd_vouchers db) = None" by (auto simp add: find_None_iff)
    with None c Inr show ?thesis
      by (simp add: remove_voucher_def released_def find_voucher_by_id_def)
  next
    case (Some v)
    then have v: "v \<in> set (kd_vouchers db)" "cv_id v = i" using find_Some [OF Some] by auto
    have same: "w = v" if "w \<in> set (kd_vouchers db)" "cv_id w = i" for w
      using that v d by (auto simp add: distinct_map dest: inj_onD)
    show ?thesis
    proof (cases "cv_child v = child")
      case True
      have "find (\<lambda>v. cv_id v = i \<and> cv_child v = child) (kd_vouchers db) \<noteq> None"
        using v True by (auto simp add: find_None_iff)
      then obtain w where w: "find (\<lambda>v. cv_id v = i \<and> cv_child v = child) (kd_vouchers db) = Some w" by auto
      with find_Some [OF w] same have "w = v" by auto
      moreover have "delete_voucher_by_id db i = Inr (db\<lparr>kd_vouchers := filter (\<lambda>w. cv_id w \<noteq> i) (kd_vouchers db)\<rparr>)"
        using v by (auto simp add: delete_voucher_by_id_def list_ex_iff)
      moreover have "voucher_map (db\<lparr>kd_vouchers := filter (\<lambda>w. cv_id w \<noteq> i) (kd_vouchers db)\<rparr>)
          = (voucher_map db)(cv_number v := None)"
        using delete_voucher_map [OF assms v(1)] v(2) by (simp add: voucher_map_def)
      ultimately show ?thesis using Some c Inr w True
        by (simp add: remove_voucher_def released_def find_voucher_by_id_def)
    next
      case False
      then have "find (\<lambda>v. cv_id v = i \<and> cv_child v = child) (kd_vouchers db) = None"
        using same by (auto simp add: find_None_iff)
      with Some c Inr False show ?thesis
        by (simp add: remove_voucher_def released_def find_voucher_by_id_def)
    qed
  qed
qed

lemma list_vouchers_map:
  assumes "tables_ok db" and "list_vouchers_for_child db child org = Inr vs"
  shows "cv_number ` set vs = {n. voucher_map db n = Some child}"
proof -
  have d: "distinct (map cv_number (kd_vouchers db))" using assms(1) by (simp add: tables_ok_def bill_db_ok_def)
  have "set vs = {v \<in> set (kd_vouchers db). cv_child v = child}"
    using assms(2) by (auto simp add: list_vouchers_for_child_def bindE_eq_Inr find_vouchers_by_child_id_def)
  then show ?thesis using voucher_map_eq [OF d] by (auto simp add: voucher_map_def)
qed

section \<open>What an upload stores\<close>

text \<open>Totals that are machine integers stay what they are.\<close>

definition totals_in_range :: "converted_child list \<Rightarrow> bool" where
  "totals_in_range cs \<longleftrightarrow> (\<forall>c \<in> set cs. in_s64 (cn_total c) \<and> (\<forall>r \<in> set (cn_rows c). in_s64 (cw_total r)))"

lemma totals_in_range_add:
  assumes "totals_in_range cs" and "in_s64 (cw_total row)"
  shows "totals_in_range (add_converted cs (k, row))"
  using assms by (auto simp add: totals_in_range_def add_converted_def s64_in_range split: if_splits)

lemma convert_kinder_range:
  assumes "convert_kinder cs ks = Inr cs'" and "totals_in_range cs" and "\<forall>k \<in> set ks. in_s64 (kn_sum k)"
  shows "totals_in_range cs'"
  using assms
proof (induction ks arbitrary: cs)
  case (Cons k ks)
  from Cons.prems(1) obtain row where r: "convert_child k = Inr row"
    and c: "convert_kinder (add_converted cs (k, row)) ks = Inr cs'" by (auto simp add: bindE_eq_Inr)
  have "in_s64 (cw_total row)" using Cons.prems(3) convert_child_ok(2) [OF r] by simp
  with Cons.IH [OF c totals_in_range_add] Cons.prems show ?case by simp
qed simp

lemma convert_output_ok:
  assumes "convert_output out = Inr cs"
  shows "distinct (map cn_voucher (cs_children cs))" and "\<forall>c \<in> set (cs_children cs). child_ok c"
    and "all_totals (cs_children cs) = sum_list (map kn_sum (so_kinder out))"
    and "cs_children_count cs = int (length (cs_children cs))"
    and "cs_contract_booking cs = ab_contracts (so_abrechnung out)"
    and "\<forall>k \<in> set (so_kinder out). in_s64 (kn_sum k) \<Longrightarrow> totals_in_range (cs_children cs)"
proof -
  from assms obtain xs where c: "convert_kinder [] (so_kinder out) = Inr xs" and xs: "cs_children cs = xs"
      "cs_children_count cs = int (length xs)" "cs_contract_booking cs = ab_contracts (so_abrechnung out)"
    by (auto simp add: convert_output_def Let_def bindE_eq_Inr)
  show "cs_children_count cs = int (length (cs_children cs))"
    "cs_contract_booking cs = ab_contracts (so_abrechnung out)" using xs by simp_all
  from convert_kinder_ok [OF c] show "distinct (map cn_voucher (cs_children cs))"
    "\<forall>c \<in> set (cs_children cs). child_ok c"
    "all_totals (cs_children cs) = sum_list (map kn_sum (so_kinder out))"
    by (simp_all add: xs all_totals_def)
  show "\<forall>k \<in> set (so_kinder out). in_s64 (kn_sum k) \<Longrightarrow> totals_in_range (cs_children cs)"
    using convert_kinder_range [OF c] by (simp add: xs totals_in_range_def)
qed

lemma parse_workbook_ok:
  assumes "parse_workbook w = Inr out"
  shows "wb_kinder w = Inr (so_kinder out)"
    and "s64 (sum_list (map kn_sum (so_kinder out))) = ab_contracts (so_abrechnung out)"
  using assms by (auto simp add: parse_workbook_def bindE_eq_Inr reconcile_vertrag_against_header_def Let_def
      sum64_eq split: sum.splits if_splits)

lemma find_snoc: "find P xs = None \<Longrightarrow> find P (xs @ [y]) = (if P y then Some y else None)"
  by (induction xs) (auto split: if_splits)

lemma uploaded_bill:
  assumes ok: "tables_ok db" and up: "process_isbj lower db org w file_name hash user = Inr (r, db')"
  obtains out cs b where "parse_workbook w = Inr out" and "convert_output out = Inr cs"
    and "b = (bill_of org (so_month out) file_name hash user cs)\<lparr>bl_id := kd_next_bill db\<rparr>"
    and "kd_bills db' = kd_bills db @ [b]" and "find_bill_by_id db' (bl_id b) = Inr b"
    and "r = build_response db' org (bl_id b) (p_from b) cs"
proof (rule upload_cases [OF up])
  fix out cs b db1
  assume p: "parse_workbook w = Inr out" "convert_output out = Inr cs"
    and c: "create_bill db (bill_of org (so_month out) file_name hash user cs) = Inr (b, db1)"
    and d: "db' = auto_discover_vouchers lower db1 org (p_from b) cs"
    and r: "r = build_response db' org (bl_id b) (p_from b) cs"
  note b = create_bill_cases(1) [OF c] and t = tables_ok_create_bill [OF ok c]
  from discover_fold [OF t(1)] have bills: "kd_bills db' = kd_bills db @ [b]"
    by (simp add: d auto_discover_vouchers_def t(3))
  have "find (\<lambda>x. bl_id x = bl_id b) (kd_bills db) = None"
    using ok by (auto simp add: find_None_iff tables_ok_def b)
  then have "find (\<lambda>x. bl_id x = bl_id b) (kd_bills db') = Some b"
    by (simp add: bills find_snoc)
  then have "find_bill_by_id db' (bl_id b) = Inr b" by (simp add: find_bill_by_id_def)
  from that [OF p b bills this r] show thesis .
qed

lemma bill_of_fields:
  "bl_org (bill_of org month f hash user cs) = org" "p_from (bill_of org month f hash user cs) = month"
  "bl_children (bill_of org month f hash user cs) = map bill_child_of (cs_children cs)"
  "bl_facility_name (bill_of org month f hash user cs) = cs_facility_name cs"
  "bl_facility_total (bill_of org month f hash user cs) = cs_facility_total cs"
  "bl_contract_booking (bill_of org month f hash user cs) = cs_contract_booking cs"
  "bl_correction_booking (bill_of org month f hash user cs) = cs_correction_booking cs"
  by (simp_all add: bill_of_def Let_def)

lemma bill_child_of_fields [simp]:
  "gc_voucher (bill_child_of c) = cn_voucher c" "gc_name (bill_child_of c) = cn_name c"
  "gc_birth_date (bill_child_of c) = cn_birth_date c" "gc_district (bill_child_of c) = cn_district c"
  by (simp_all add: bill_child_of_def)

lemma child_reads_back:
  assumes "child_ok c" and "in_s64 (cn_total c)" and "\<forall>r \<in> set (cn_rows c). in_s64 (cw_total r)"
  shows "sum64 (map by_amount (gc_payments (bill_child_of c))) = cn_total c"
    and "rows_of_payments (gc_payments (bill_child_of c))
      = map (\<lambda>r. \<lparr>br_total = cw_total r, br_amounts = cw_amounts r\<rparr>) (cn_rows c)"
proof -
  have "s64 (cn_total c) = s64 (sum_list (map cw_total (cn_rows c)))" using assms(1) by (simp add: child_ok_def)
  then show "sum64 (map by_amount (gc_payments (bill_child_of c))) = cn_total c"
    using child_amounts [OF assms(1)] s64_id [OF assms(2)] by (simp add: sum64_eq)
  have "rows_of_payments (gc_payments (bill_child_of c))
      = map (\<lambda>r. \<lparr>br_total = s64 (cw_total r), br_amounts = cw_amounts r\<rparr>) (cn_rows c)"
    using assms(1) by (intro rows_read_back) (simp add: child_ok_def)
  then show "rows_of_payments (gc_payments (bill_child_of c))
      = map (\<lambda>r. \<lparr>br_total = cw_total r, br_amounts = cw_amounts r\<rparr>) (cn_rows c)"
    using assms(3) by (simp add: s64_id)
qed

section \<open>The amounts of a key\<close>

text \<open>The amounts of a key over all rows of a response.\<close>

definition listed_amounts :: "bill_response \<Rightarrow> string \<Rightarrow> int list" where
  "listed_amounts r key = map sm_amount (filter (\<lambda>a. sm_key a = key)
     (concat (map (\<lambda>c. concat (map br_amounts (bc_rows c))) (bp_children r))))"

lemma stored_key_amounts_row:
  "map by_amount (filter (\<lambda>p. by_key p = k) (payments_of_row ir)) = map sm_amount (filter (\<lambda>a. sm_key a = k) (cw_amounts (snd ir)))"
  by (simp add: payments_of_row_def split_beta filter_map comp_def)

lemma stored_key_amounts_rows:
  "map by_amount (filter (\<lambda>p. by_key p = k) (concat (map payments_of_row (List.enumerate n rs))))
    = map sm_amount (filter (\<lambda>a. sm_key a = k) (concat (map cw_amounts rs)))"
  by (induction rs arbitrary: n) (simp_all add: stored_key_amounts_row)

lemma stored_key_amounts:
  "map by_amount (filter (\<lambda>p. by_key p = k) (concat (map gc_payments (map bill_child_of cs))))
    = map sm_amount (filter (\<lambda>a. sm_key a = k) (concat (map (\<lambda>c. concat (map cw_amounts (cn_rows c))) cs)))"
  by (induction cs) (simp_all add: bill_child_of_def stored_key_amounts_rows)

lemma match_row_rows [simp]: "bc_rows (match_row ids contracts r) = bc_rows r"
  by (simp add: match_row_def split: option.split)

lemma response_amounts:
  "listed_amounts (build_response db org i date cs) k
    = map by_amount (filter (\<lambda>p. by_key p = k) (concat (map gc_payments (map bill_child_of (cs_children cs)))))"
  unfolding stored_key_amounts
  by (simp add: listed_amounts_def build_response_def Let_def comp_def split: prod.split)

lemma same_surcharges:
  assumes "as = map (\<lambda>k. amount k k (f k)) ks"
  shows "map (\<lambda>k. amount k k (g k)) ks = as \<longleftrightarrow> (\<forall>a \<in> set as. sm_amount a = g (sm_key a))"
  unfolding assms by (induction ks) (auto simp add: amount_def)

lemma file_surcharges:
  assumes "convert_output out = Inr cs"
  shows "\<exists>f. cs_surcharges cs = map (\<lambda>k. amount k k (f k)) surcharge_keys"
proof -
  obtain x y z where s: "cs_surcharges cs = [amount ''ndh'' ''ndh'' x, amount ''qm/mss'' ''qm/mss'' y,
      amount ''integration'' ''integration'' z]"
    using assms by (auto simp add: convert_output_def Let_def bindE_eq_Inr)
  show ?thesis
    by (rule exI [of _ "\<lambda>k. if k = ''ndh'' then x else if k = ''qm/mss'' then y else z"])
      (simp add: s surcharge_keys_def)
qed

lemma get_bill_surcharges:
  assumes "get_bill db i org = Inr h" and "find_bill_by_id db i = Inr b"
  shows "bp_surcharges h = map (\<lambda>k. amount k k
    (sum64 (map by_amount (filter (\<lambda>p. by_key p = k) (concat (map gc_payments (bl_children b))))))) surcharge_keys"
  using assms by (auto simp add: get_bill_def Let_def split: if_splits prod.splits)

end
