(* ===== verification/BillUploadTheorems.thy ===== *)
theory BillUploadTheorems
  imports BillTables
begin

text \<open>
  The properties of the tables of bills and vouchers: their invariant, the voucher table as a
  map, and what the upload of a settlement stores, with the workbook they are applied to.
\<close>

definition ex_kind :: kind where
  "ex_kind = \<lparr>kn_typ = ''A'', kn_month = None, kn_voucher = ''V3'', kn_name = [], kn_birth_date = [],
        kn_qm_flag = [], kn_mss_flag = [], kn_hs_flag = [], kn_integration_flag = [], kn_scope = ''ganztags'',
        kn_district = 1, kn_base = 1000, kn_abzug = 0, kn_parent_care = 0, kn_parent_meals = 100, kn_but = 0,
        kn_qm = 0, kn_mss = 0, kn_ndh = 0, kn_integration = 0, kn_sum = 900\<rparr>"

definition ex_workbook :: workbook where
  "ex_workbook =
     \<lparr>wb_einrichtung = Inr \<lparr>ei_name = ''Kita'', ei_qm = 0, ei_mss = 0, ei_ndh = 0, ei_integration = 0, ei_sum = 900\<rparr>,
      wb_abrechnung = Inr \<lparr>ab_contracts = 900, ab_corrections = 0\<rparr>,
      wb_kinder = Inr [ex_kind],
      wb_month = Inr (midnight 761), wb_korrekturen = Inr []\<rparr>"

definition ex_empty_db :: bill_db where
  "ex_empty_db = \<lparr>kd_children = [], kd_vouchers = [], kd_next_voucher = 1, kd_bills = [], kd_next_bill = 1,
     kd_org_states = [], kd_fundings = []\<rparr>"

lemma ex_empty_ok: "tables_ok ex_empty_db"
  by (simp add: ex_empty_db_def tables_ok_def bill_db_ok_def)

lemma ex_kind_fields:
  "kn_scope ex_kind = ''ganztags''" "kn_integration_flag ex_kind = []" "kn_qm_flag ex_kind = []"
  "kn_mss_flag ex_kind = []" "kn_hs_flag ex_kind = []" "kn_base ex_kind = 1000" "kn_abzug ex_kind = 0"
  "kn_parent_care ex_kind = 0" "kn_parent_meals ex_kind = 100" "kn_but ex_kind = 0" "kn_qm ex_kind = 0"
  "kn_mss ex_kind = 0" "kn_ndh ex_kind = 0" "kn_integration ex_kind = 0" "kn_sum ex_kind = 900"
  by (simp_all add: ex_kind_def)

lemma ex_kind_amounts:
  "row_amounts ''ganztag'' ex_kind
    = [amount ''care_type'' ''ganztag'' 1000, amount ''parent'' ''care'' 0, amount ''parent'' ''meals'' (- 100)]"
  by (simp add: row_amounts_def ex_kind_fields amount_def integration_flag_to_value_def is_flag_active_def
      flag_value_def s64_def Let_def)

lemma ex_kind_converts: "\<exists>row. convert_child ex_kind = Inr row"
proof -
  have "care_scope_map (kn_scope ex_kind) = Some ''ganztag''" by (simp add: ex_kind_fields care_scope_map_def)
  moreover have "reconcile_row ex_kind (row_amounts ''ganztag'' ex_kind) = Inr (row_amounts ''ganztag'' ex_kind)"
    by (simp add: ex_kind_amounts reconcile_row_def ex_kind_fields amount_def sum64_eq s64_def)
  ultimately show ?thesis by (simp add: convert_child_def)
qed

lemma ex_upload: "\<exists>r db'. process_isbj id ex_empty_db 9 ex_workbook ''f.xlsx'' ''X'' 3 = Inr (r, db')"
proof -
  have "\<exists>out. parse_workbook ex_workbook = Inr out"
    by (simp add: parse_workbook_def ex_workbook_def reconcile_vertrag_against_header_def sum64_eq s64_def ex_kind_fields)
  then obtain out where p: "parse_workbook ex_workbook = Inr out" ..
  have "so_kinder out = [ex_kind]" using parse_workbook_ok(1) [OF p] by (simp add: ex_workbook_def)
  with ex_kind_converts obtain cs where cs: "convert_output out = Inr cs"
    by (auto simp add: convert_output_def Let_def)
  have "\<exists>b db'. create_bill ex_empty_db (bill_of 9 (so_month out) ''f.xlsx'' ''X'' 3 cs) = Inr (b, db')"
    by (simp add: create_bill_def exists_by_org_and_hash_def exists_by_org_and_month_def ex_empty_db_def Let_def)
  then obtain b db1 where "create_bill ex_empty_db (bill_of 9 (so_month out) ''f.xlsx'' ''X'' 3 cs) = Inr (b, db1)" by blast
  moreover have "\<not> exists_by_org_and_hash ex_empty_db 9 ''X''" "\<not> exists_by_org_and_month ex_empty_db 9 (so_month out)"
    by (simp_all add: exists_by_org_and_hash_def exists_by_org_and_month_def ex_empty_db_def)
  ultimately show ?thesis by (simp add: process_isbj_def p cs Let_def)
qed

text \<open>
  C23. The tables stay well formed under every request that changes them: the primary keys and
  the unique indexes (voucher number; bill per organization and file hash; bill per
  organization and month) have no duplicates, every voucher belongs to a child that exists,
  keys stay below the sequences, and every stored payment carries its row type. An upload keeps
  them whatever the workbook holds, vouchers discovered on the way included.
\<close>
lemma tables_stay_well_formed:
  assumes "(bill_step lower)\<^sup>*\<^sup>* db db'" and "tables_ok db"
  shows "tables_ok db'"
  by (rule tables_ok_steps [OF assms])

lemma tables_stay_well_formed_witness:
  "\<exists>r db'. process_isbj id ex_empty_db 9 ex_workbook ''f.xlsx'' ''X'' 3 = Inr (r, db') \<and> tables_ok db'"
proof -
  obtain r db' where up: "process_isbj id ex_empty_db 9 ex_workbook ''f.xlsx'' ''X'' 3 = Inr (r, db')"
    using ex_upload by blast
  have "(bill_step id)\<^sup>*\<^sup>* ex_empty_db db'" by (rule r_into_rtranclp) (rule bill_step.upload [OF up])
  from tables_stay_well_formed [OF this ex_empty_ok] up show ?thesis by blast
qed

text \<open>
  C24. The voucher table implements a partial map from numbers to children, one map for all
  organizations. Assigning a number succeeds exactly for a child of the organization whose
  number is free or already its own, and then maps the number to the child; an owner is never
  overwritten. Releasing takes exactly the number of the voucher out, and only for the child
  it belongs to. Listing returns the numbers mapped to the child.
\<close>
lemma vouchers_refine_a_map:
  assumes "tables_ok db"
  shows "assigned (assign_voucher db day child org number)
      = (if child_in_org db child org then map_assign child number (voucher_map db) else None) \<and>
    released (remove_voucher db i child org)
      = (if child_in_org db child org
         then case find (\<lambda>v. cv_id v = i \<and> cv_child v = child) (kd_vouchers db) of
                None \<Rightarrow> None
              | Some v \<Rightarrow> Some (cv_number v, (voucher_map db)(cv_number v := None))
         else None) \<and>
    (\<forall>vs. list_vouchers_for_child db child org = Inr vs \<longrightarrow>
      cv_number ` set vs = {n. voucher_map db n = Some child})"
  using assign_refines [OF assms] remove_refines [OF assms] list_vouchers_map [OF assms] by blast

text \<open>A database with one child and no voucher.\<close>

definition ex_child_db :: bill_db where
  "ex_child_db = ex_empty_db\<lparr>kd_children := [\<lparr>pn_id = 7, pn_org = 9, pn_first_name = ''A'', pn_last_name = ''B'',
     pn_gender = ''female'', pn_birthdate = midnight 0, cd_contracts = []\<rparr>]\<rparr>"

lemma vouchers_refine_a_map_witness:
  "assigned (assign_voucher ex_child_db (midnight 5) 7 9 ''V'') = Some [''V'' \<mapsto> 7] \<and>
   assigned (assign_voucher ex_child_db (midnight 5) 7 8 ''V'') = None \<and>
   released (remove_voucher ex_child_db 1 7 9) = None \<and>
   (\<exists>vs. list_vouchers_for_child ex_child_db 7 9 = Inr vs \<and> cv_number ` set vs = {})"
proof -
  have ok: "tables_ok ex_child_db"
    by (simp add: ex_child_db_def ex_empty_db_def tables_ok_def bill_db_ok_def)
  have c: "child_in_org ex_child_db 7 9" "\<not> child_in_org ex_child_db 7 8"
    "voucher_map ex_child_db = Map.empty" "kd_vouchers ex_child_db = []"
    by (simp_all add: child_in_org_def ex_child_db_def ex_empty_db_def voucher_map_def)
  have l: "list_vouchers_for_child ex_child_db 7 9 = Inr []"
    by (simp add: list_vouchers_for_child_def verify_child_def find_child_by_id_and_org_def
        find_vouchers_by_child_id_def ex_child_db_def ex_empty_db_def)
  from vouchers_refine_a_map [OF ok, of "midnight 5" 7 9 "''V''" 1] vouchers_refine_a_map [OF ok, of "midnight 5" 7 8 "''V''" 1] l
  show ?thesis by (simp add: c map_assign_def)
qed

text \<open>
  C25. What an upload answers is what the bill reads back as, except for the surcharges: every
  child, row, amount, total, match and count, with the file it came from and the user who uploaded
  it. The answer has the surcharges the file states for the facility, the reading sums up the stored
  amounts of each surcharge key; so the two agree exactly when the amounts of the rows add up to
  what the file states. The row totals of the workbook are 64-bit integers, as every \<open>int\<close> is.
\<close>
lemma upload_reads_back:
  assumes ok: "tables_ok db" and up: "process_isbj lower db org w file_name hash user = Inr (r, db')"
    and ks: "wb_kinder w = Inr ks" "\<forall>k \<in> set ks. in_s64 (kn_sum k)"
  shows "\<exists>h. get_bill db' (bp_id r) org = Inr h \<and>
    bill_response.truncate h = r\<lparr>bp_surcharges := map (\<lambda>k. amount k k (s64 (sum_list (listed_amounts r k)))) surcharge_keys\<rparr> \<and>
    (bp_surcharges h = bp_surcharges r \<longleftrightarrow>
      (\<forall>a \<in> set (bp_surcharges r). sm_amount a = s64 (sum_list (listed_amounts r (sm_key a))))) \<and>
    bx_org h = org \<and> bx_file_name h = file_name \<and> bx_hash h = hash \<and> bx_created_by h = Some user"
proof (rule uploaded_bill [OF ok up])
  fix out cs b
  assume p: "parse_workbook w = Inr out" and cs: "convert_output out = Inr cs"
    and b: "b = (bill_of org (so_month out) file_name hash user cs)\<lparr>bl_id := kd_next_bill db\<rparr>"
    and f: "find_bill_by_id db' (bl_id b) = Inr b" and r: "r = build_response db' org (bl_id b) (p_from b) cs"
  note c = convert_output_ok [OF cs]
  have range: "totals_in_range (cs_children cs)" using c(6) ks parse_workbook_ok(1) [OF p] by simp
  note bf = bill_of_fields [of org "so_month out" file_name hash user cs]
  have id: "bp_id r = bl_id b" unfolding r build_response_def by (simp add: Let_def split: prod.split)
  obtain ids contracts where rv: "resolve_vouchers_to_contracts db' org (map cn_voucher (cs_children cs)) (p_from b) = (ids, contracts)"
    by fastforce
  have v: "map gc_voucher (bl_children b) = map cn_voucher (cs_children cs)" by (simp add: b bf)
  have rows: "map (\<lambda>c. match_row ids contracts
        \<lparr>bc_voucher = gc_voucher c, bc_name = gc_name c, bc_birth_date = gc_birth_date c,
         bc_district = gc_district c, bc_total = sum64 (map by_amount (gc_payments c)),
         bc_rows = rows_of_payments (gc_payments c), bc_child = None, bc_contract = None, bc_matched = False\<rparr>) (bl_children b)
      = map (\<lambda>c. match_row ids contracts
        \<lparr>bc_voucher = cn_voucher c, bc_name = cn_name c, bc_birth_date = cn_birth_date c,
         bc_district = cn_district c, bc_total = cn_total c,
         bc_rows = map (\<lambda>r. \<lparr>br_total = cw_total r, br_amounts = cw_amounts r\<rparr>) (cn_rows c),
         bc_child = None, bc_contract = None, bc_matched = False\<rparr>) (cs_children cs)"
    using range c(2) by (simp add: b bf totals_in_range_def child_reads_back)
  have o: "bl_org b = org" by (simp add: b bf)
  obtain h where h: "get_bill db' (bl_id b) org = Inr h"
    unfolding get_bill_def f sum.case o v rv prod.case Let_def by simp
  have kids: "bl_children b = map bill_child_of (cs_children cs)" by (simp add: b bf)
  have sur: "bp_surcharges h = map (\<lambda>k. amount k k (s64 (sum_list (listed_amounts r k)))) surcharge_keys"
    by (simp only: get_bill_surcharges [OF h f] kids r response_amounts sum64_eq)
  have "bill_response.truncate h = r\<lparr>bp_surcharges := bp_surcharges h\<rparr> \<and>
      bx_org h = org \<and> bx_file_name h = file_name \<and> bx_hash h = hash \<and> bx_created_by h = Some user"
    using h unfolding get_bill_def f sum.case o v rv prod.case Let_def rows r build_response_def
    using c(4) by (auto simp add: b bf bill_response.truncate_def bill_of_def Let_def)
  moreover obtain g where "cs_surcharges cs = map (\<lambda>k. amount k k (g k)) surcharge_keys"
    using file_surcharges [OF cs] by blast
  then have g: "bp_surcharges r = map (\<lambda>k. amount k k (g k)) surcharge_keys" by (simp add: r rv build_response_def Let_def)
  have "bp_surcharges h = bp_surcharges r \<longleftrightarrow>
      (\<forall>a \<in> set (bp_surcharges r). sm_amount a = s64 (sum_list (listed_amounts r (sm_key a))))"
    unfolding sur by (rule same_surcharges [OF g])
  ultimately show ?thesis using h id sur by (intro exI [of _ h]) simp
qed

lemma upload_reads_back_witness:
  "\<exists>r db' h. process_isbj id ex_empty_db 9 ex_workbook ''f.xlsx'' ''X'' 3 = Inr (r, db') \<and>
    get_bill db' (bp_id r) 9 = Inr h \<and> bp_children h = bp_children r \<and> bx_hash h = ''X''"
proof -
  obtain r db' where up: "process_isbj id ex_empty_db 9 ex_workbook ''f.xlsx'' ''X'' 3 = Inr (r, db')"
    using ex_upload by blast
  have "wb_kinder ex_workbook = Inr [ex_kind]" by (simp add: ex_workbook_def)
  moreover have "\<forall>k \<in> set [ex_kind]. in_s64 (kn_sum k)"
    by (simp add: ex_kind_fields in_s64_def min_int_def max_int_def)
  ultimately obtain h where h: "get_bill db' (bp_id r) 9 = Inr h" "bx_hash h = ''X''"
    and t: "bill_response.truncate h
      = r\<lparr>bp_surcharges := map (\<lambda>k. amount k k (s64 (sum_list (listed_amounts r k)))) surcharge_keys\<rparr>"
    using upload_reads_back [OF ex_empty_ok up] by blast
  from arg_cong [OF t, of bp_children] have "bp_children h = bp_children r" by (simp add: bill_response.truncate_def)
  with up h show ?thesis by blast
qed

text \<open>
  C26. An upload stores exactly one bill, in which every voucher has one child, and the payments
  of the bill add up to the contract booking of the settlement in 64-bit arithmetic: the
  rounding of the senate's workbook is put on the meals of the parents, row by row, and a
  workbook that does not add up is refused.
\<close>
lemma upload_adds_up:
  assumes ok: "tables_ok db" and up: "process_isbj lower db org w file_name hash user = Inr (r, db')"
  shows "\<exists>b. kd_bills db' = kd_bills db @ [b] \<and> distinct (map gc_voucher (bl_children b)) \<and>
    s64 (row_sum row_regular (bl_children b) + row_sum row_correction (bl_children b)) = bl_contract_booking b"
proof (rule uploaded_bill [OF ok up])
  fix out cs b
  assume p: "parse_workbook w = Inr out" and cs: "convert_output out = Inr cs"
    and b: "b = (bill_of org (so_month out) file_name hash user cs)\<lparr>bl_id := kd_next_bill db\<rparr>"
    and bills: "kd_bills db' = kd_bills db @ [b]"
  note c = convert_output_ok [OF cs]
  have "s64 (row_sum row_regular (bl_children b) + row_sum row_correction (bl_children b)) = bl_contract_booking b"
    using children_amounts [OF c(2)] parse_workbook_ok(2) [OF p] c(3,5) by (simp add: b bill_of_fields)
  moreover have "distinct (map gc_voucher (bl_children b))" using c(1) by (simp add: b bill_of_fields comp_def)
  ultimately show ?thesis using bills by blast
qed

lemma upload_adds_up_witness:
  "\<exists>r db' b. process_isbj id ex_empty_db 9 ex_workbook ''f.xlsx'' ''X'' 3 = Inr (r, db') \<and> kd_bills db' = [b] \<and>
    s64 (row_sum row_regular (bl_children b) + row_sum row_correction (bl_children b)) = bl_contract_booking b"
proof -
  obtain r db' where up: "process_isbj id ex_empty_db 9 ex_workbook ''f.xlsx'' ''X'' 3 = Inr (r, db')"
    using ex_upload by blast
  from upload_adds_up [OF ex_empty_ok up] up show ?thesis by (auto simp add: ex_empty_db_def)
qed

end
