(* ===== verification/MfaStore.thy ===== *)
theory MfaStore
  imports AppError
begin

text \<open>
  Tables behind authentication: \<open>internal/store/factor.go\<close>, \<open>internal/store/session.go\<close>, the
  parts of \<open>internal/store/user.go\<close> and \<open>internal/store/audit.go\<close> that the login code uses,
  and the row types of \<open>internal/models/factor.go\<close>, \<open>session.go\<close> and \<open>user.go\<close>. A table is
  the list of its rows in the order of insertion, which is the order of the generated keys.
  Instants are nanoseconds since 1970; the operations take the current one as an argument.
  Byte strings are strings. Failures of the database driver are not modelled.
\<close>

section \<open>Rows\<close>

record factor =
  fa_id :: nat
  fa_user :: nat
  fa_type :: string
  fa_label :: "string option"
  fa_enabled_at :: "int option"
  fa_last_used_at :: "int option"
  fa_failures :: int
  fa_challenge :: "string option"
  fa_challenge_expires :: "int option"
  fa_created_at :: int

record totp_secret =
  ts_factor :: nat
  ts_ciphertext :: string
  ts_nonce :: string
  ts_last_step :: "int option"

record backup_code =
  bc_id :: nat
  bc_factor :: nat
  bc_hash :: string
  bc_used_at :: "int option"
  bc_created_at :: int

record credential =
  wc_factor :: nat
  wc_id :: string
  wc_public_key :: string
  wc_aaguid :: string
  wc_sign_count :: int
  wc_transports :: string
  wc_format :: string
  wc_backup_eligible :: bool
  wc_backup_state :: bool
  wc_uv_initialized :: bool
  wc_created_at :: int

record session_row =
  ss_id :: string
  ss_user :: nat
  ss_kind :: string
  ss_created_at :: int
  ss_expires_at :: int
  ss_failures :: int
  ss_password_verified_at :: "int option"
  ss_challenge :: "string option"
  ss_ip :: string
  ss_agent :: string

record user_row =
  us_id :: nat
  us_name :: string
  us_email :: string
  us_password :: string
  us_active :: bool
  us_superadmin :: bool
  us_created_by :: string
  us_deleted :: bool
  us_last_login :: "int option"

record audit_row =
  au_action :: string
  au_user :: "nat option"
  au_email :: string
  au_time :: int

record auth_db =
  db_factors :: "factor list"
  db_next_factor :: nat
  db_secrets :: "totp_secret list"
  db_codes :: "backup_code list"
  db_next_code :: nat
  db_credentials :: "credential list"
  db_sessions :: "session_row list"
  db_users :: "user_row list"
  db_audit :: "audit_row list"

section \<open>Factors\<close>

abbreviation totp :: string where "totp \<equiv> ''totp''"
abbreviation backup_codes :: string where "backup_codes \<equiv> ''backup_codes''"
abbreviation webauthn :: string where "webauthn \<equiv> ''webauthn''"

text \<open>
  The listing of active factors: backup codes last, then the most recently used, then the
  newest. Factors that tie on all three keep the order of insertion here.
\<close>

definition find_active_by_user :: "auth_db \<Rightarrow> nat \<Rightarrow> factor list" where
  "find_active_by_user db user =
     sort_key (\<lambda>f. if fa_type f = backup_codes then 1 else (0::int))
       (sort_key (\<lambda>f. case fa_last_used_at f of None \<Rightarrow> 1 | Some _ \<Rightarrow> (0::int))
         (sort_key (\<lambda>f. case fa_last_used_at f of None \<Rightarrow> 0 | Some t \<Rightarrow> - t)
           (sort_key (\<lambda>f. - fa_created_at f)
             (filter (\<lambda>f. fa_user f = user \<and> fa_enabled_at f \<noteq> None) (db_factors db)))))"

definition find_by_id_and_user :: "auth_db \<Rightarrow> nat \<Rightarrow> nat \<Rightarrow> factor outcome" where
  "find_by_id_and_user db i user =
     (case find (\<lambda>f. fa_id f = i \<and> fa_user f = user) (db_factors db) of
        None \<Rightarrow> Inl (StoreError StoreNotFound) | Some f \<Rightarrow> Inr f)"

definition find_pending_by_user_and_type :: "auth_db \<Rightarrow> nat \<Rightarrow> string \<Rightarrow> factor outcome" where
  "find_pending_by_user_and_type db user ty =
     (case find (\<lambda>f. fa_user f = user \<and> fa_type f = ty \<and> fa_enabled_at f = None) (db_factors db) of
        None \<Rightarrow> Inl (StoreError StoreNotFound) | Some f \<Rightarrow> Inr f)"

definition find_backup_codes_factor :: "auth_db \<Rightarrow> nat \<Rightarrow> factor outcome" where
  "find_backup_codes_factor db user =
     (case find (\<lambda>f. fa_user f = user \<and> fa_type f = backup_codes) (db_factors db) of
        None \<Rightarrow> Inl (StoreError StoreNotFound) | Some f \<Rightarrow> Inr f)"

text \<open>
  The insert meets the unique index of migration 000010, one \<open>backup_codes\<close> row per user. The
  result is the row with its generated id.
\<close>

definition create_factor :: "auth_db \<Rightarrow> factor \<Rightarrow> (factor \<times> auth_db) outcome" where
  "create_factor db f =
     (if fa_type f = backup_codes \<and>
         list_ex (\<lambda>g. fa_user g = fa_user f \<and> fa_type g = backup_codes) (db_factors db)
      then Inl (PgError ''23505'')
      else let f' = f\<lparr>fa_id := db_next_factor db\<rparr>
           in Inr (f', db\<lparr>db_factors := db_factors db @ [f'], db_next_factor := Suc (db_next_factor db)\<rparr>))"

definition activate_factor :: "auth_db \<Rightarrow> nat \<Rightarrow> nat \<Rightarrow> int \<Rightarrow> bool \<times> auth_db" where
  "activate_factor db i user now =
     (let hit = (\<lambda>f. fa_id f = i \<and> fa_user f = user \<and> fa_enabled_at f = None)
      in (length (filter hit (db_factors db)) = 1,
          db\<lparr>db_factors := map (\<lambda>f. if hit f then f\<lparr>fa_enabled_at := Some now, fa_last_used_at := Some now\<rparr>
                                     else f) (db_factors db)\<rparr>))"

definition increment_activation_failures :: "auth_db \<Rightarrow> nat \<Rightarrow> nat \<Rightarrow> (int \<times> auth_db) outcome" where
  "increment_activation_failures db i user =
     (let hit = (\<lambda>f. fa_id f = i \<and> fa_user f = user \<and> fa_enabled_at f = None);
          fs = map (\<lambda>f. if hit f then f\<lparr>fa_failures := fa_failures f + 1\<rparr> else f) (db_factors db)
      in if \<not> list_ex hit (db_factors db) then Inl (StoreError StoreNotFound)
         else case find (\<lambda>f. fa_id f = i \<and> fa_user f = user) fs of
                None \<Rightarrow> Inl (StoreError StoreNotFound)
              | Some f \<Rightarrow> Inr (fa_failures f, db\<lparr>db_factors := fs\<rparr>))"

text \<open>Deleting a factor takes the rows of its subtables with it (\<open>ON DELETE CASCADE\<close>).\<close>

definition remove_factors :: "auth_db \<Rightarrow> (factor \<Rightarrow> bool) \<Rightarrow> auth_db" where
  "remove_factors db p =
     (let gone = fa_id ` set (filter p (db_factors db))
      in db\<lparr>db_factors := filter (\<lambda>f. \<not> p f) (db_factors db),
            db_secrets := filter (\<lambda>s. ts_factor s \<notin> gone) (db_secrets db),
            db_codes := filter (\<lambda>c. bc_factor c \<notin> gone) (db_codes db),
            db_credentials := filter (\<lambda>c. wc_factor c \<notin> gone) (db_credentials db)\<rparr>)"

definition delete_factor_row :: "auth_db \<Rightarrow> nat \<Rightarrow> nat \<Rightarrow> nat \<times> auth_db" where
  "delete_factor_row db i user =
     (let hit = (\<lambda>f. fa_id f = i \<and> fa_user f = user)
      in (length (filter hit (db_factors db)), remove_factors db hit))"

definition update_label_row :: "auth_db \<Rightarrow> nat \<Rightarrow> nat \<Rightarrow> string option \<Rightarrow> bool \<times> auth_db" where
  "update_label_row db i user label =
     (let hit = (\<lambda>f. fa_id f = i \<and> fa_user f = user)
      in (length (filter hit (db_factors db)) = 1,
          db\<lparr>db_factors := map (\<lambda>f. if hit f then f\<lparr>fa_label := label\<rparr> else f) (db_factors db)\<rparr>))"

definition touch_last_used :: "auth_db \<Rightarrow> nat \<Rightarrow> int \<Rightarrow> auth_db" where
  "touch_last_used db i now =
     db\<lparr>db_factors := map (\<lambda>f. if fa_id f = i then f\<lparr>fa_last_used_at := Some now\<rparr> else f) (db_factors db)\<rparr>"

definition cleanup_abandoned_pending :: "auth_db \<Rightarrow> int \<Rightarrow> int \<Rightarrow> auth_db" where
  "cleanup_abandoned_pending db now older_than =
     remove_factors db (\<lambda>f. fa_enabled_at f = None \<and> fa_created_at f < now - older_than)"

section \<open>TOTP secrets\<close>

definition create_totp_secret :: "auth_db \<Rightarrow> totp_secret \<Rightarrow> auth_db outcome" where
  "create_totp_secret db s =
     (if list_ex (\<lambda>r. ts_factor r = ts_factor s) (db_secrets db) then Inl (PgError ''23505'')
      else Inr (db\<lparr>db_secrets := db_secrets db @ [s]\<rparr>))"

definition find_totp_secret :: "auth_db \<Rightarrow> nat \<Rightarrow> totp_secret outcome" where
  "find_totp_secret db i =
     (case find (\<lambda>s. ts_factor s = i) (db_secrets db) of
        None \<Rightarrow> Inl (StoreError StoreNotFound) | Some s \<Rightarrow> Inr s)"

definition accept_totp_step :: "auth_db \<Rightarrow> nat \<Rightarrow> int \<Rightarrow> bool \<times> auth_db" where
  "accept_totp_step db i step =
     (let hit = (\<lambda>s. ts_factor s = i \<and> (case ts_last_step s of None \<Rightarrow> True | Some l \<Rightarrow> l < step))
      in (length (filter hit (db_secrets db)) = 1,
          db\<lparr>db_secrets := map (\<lambda>s. if hit s then s\<lparr>ts_last_step := Some step\<rparr> else s) (db_secrets db)\<rparr>))"

section \<open>Backup codes\<close>

text \<open>The rows come without ids; the insert numbers them.\<close>

definition insert_backup_codes :: "auth_db \<Rightarrow> backup_code list \<Rightarrow> auth_db" where
  "insert_backup_codes db cs =
     db\<lparr>db_codes := db_codes db @ map (\<lambda>(k, c). c\<lparr>bc_id := k\<rparr>)
           (zip [db_next_code db ..< db_next_code db + length cs] cs),
        db_next_code := db_next_code db + length cs\<rparr>"

definition list_unused_backup_codes :: "auth_db \<Rightarrow> nat \<Rightarrow> backup_code list" where
  "list_unused_backup_codes db i = filter (\<lambda>c. bc_factor c = i \<and> bc_used_at c = None) (db_codes db)"

definition count_unused_backup_codes :: "auth_db \<Rightarrow> nat \<Rightarrow> int" where
  "count_unused_backup_codes db i = int (length (list_unused_backup_codes db i))"

definition mark_backup_code_used :: "auth_db \<Rightarrow> nat \<Rightarrow> int \<Rightarrow> bool \<times> auth_db" where
  "mark_backup_code_used db i now =
     (let hit = (\<lambda>c. bc_id c = i \<and> bc_used_at c = None)
      in (length (filter hit (db_codes db)) = 1,
          db\<lparr>db_codes := map (\<lambda>c. if hit c then c\<lparr>bc_used_at := Some now\<rparr> else c) (db_codes db)\<rparr>))"

definition replace_backup_codes :: "auth_db \<Rightarrow> nat \<Rightarrow> backup_code list \<Rightarrow> auth_db outcome" where
  "replace_backup_codes db i fresh =
     (if \<not> list_ex (\<lambda>f. fa_id f = i) (db_factors db) then Inl (PlainError ''record not found'')
      else Inr (insert_backup_codes (db\<lparr>db_codes := filter (\<lambda>c. bc_factor c \<noteq> i) (db_codes db)\<rparr>) fresh))"

section \<open>WebAuthn credentials\<close>

text \<open>Two unique keys: the factor and the credential id.\<close>

definition create_webauthn_credential :: "auth_db \<Rightarrow> credential \<Rightarrow> auth_db outcome" where
  "create_webauthn_credential db c =
     (if list_ex (\<lambda>r. wc_factor r = wc_factor c \<or> wc_id r = wc_id c) (db_credentials db)
      then Inl (PgError ''23505'') else Inr (db\<lparr>db_credentials := db_credentials db @ [c]\<rparr>))"

definition find_webauthn_credential :: "auth_db \<Rightarrow> nat \<Rightarrow> credential outcome" where
  "find_webauthn_credential db i =
     (case find (\<lambda>c. wc_factor c = i) (db_credentials db) of
        None \<Rightarrow> Inl (StoreError StoreNotFound) | Some c \<Rightarrow> Inr c)"

definition find_webauthn_credential_by_id :: "auth_db \<Rightarrow> string \<Rightarrow> credential outcome" where
  "find_webauthn_credential_by_id db i =
     (case find (\<lambda>c. wc_id c = i) (db_credentials db) of
        None \<Rightarrow> Inl (StoreError StoreNotFound) | Some c \<Rightarrow> Inr c)"

definition update_webauthn_sign_count :: "auth_db \<Rightarrow> nat \<Rightarrow> int \<Rightarrow> bool \<Rightarrow> auth_db" where
  "update_webauthn_sign_count db i n state =
     db\<lparr>db_credentials := map (\<lambda>c. if wc_factor c = i
           then c\<lparr>wc_sign_count := n, wc_backup_state := state\<rparr> else c) (db_credentials db)\<rparr>"

definition set_registration_challenge :: "auth_db \<Rightarrow> nat \<Rightarrow> string \<Rightarrow> int \<Rightarrow> auth_db" where
  "set_registration_challenge db i challenge expires =
     db\<lparr>db_factors := map (\<lambda>f. if fa_id f = i
           then f\<lparr>fa_challenge := Some challenge, fa_challenge_expires := Some expires\<rparr> else f) (db_factors db)\<rparr>"

definition clear_registration_challenge :: "auth_db \<Rightarrow> nat \<Rightarrow> auth_db" where
  "clear_registration_challenge db i =
     db\<lparr>db_factors := map (\<lambda>f. if fa_id f = i
           then f\<lparr>fa_challenge := None, fa_challenge_expires := None\<rparr> else f) (db_factors db)\<rparr>"

section \<open>Users\<close>

text \<open>Soft-deleted users are invisible to every query.\<close>

definition find_user_by_id :: "auth_db \<Rightarrow> nat \<Rightarrow> user_row outcome" where
  "find_user_by_id db i =
     (case find (\<lambda>u. us_id u = i \<and> \<not> us_deleted u) (db_users db) of
        None \<Rightarrow> Inl (StoreError StoreNotFound) | Some u \<Rightarrow> Inr u)"

text \<open>\<open>sql_lower\<close> is PostgreSQL's \<open>lower\<close> under the collation of the database.\<close>

definition find_user_by_email :: "(string \<Rightarrow> string) \<Rightarrow> auth_db \<Rightarrow> string \<Rightarrow> user_row outcome" where
  "find_user_by_email sql_lower db email =
     (case find (\<lambda>u. sql_lower (us_email u) = sql_lower email \<and> \<not> us_deleted u) (db_users db) of
        None \<Rightarrow> Inl (StoreError StoreNotFound) | Some u \<Rightarrow> Inr u)"

definition update_user :: "auth_db \<Rightarrow> user_row \<Rightarrow> auth_db" where
  "update_user db u = db\<lparr>db_users := map (\<lambda>r. if us_id r = us_id u then u else r) (db_users db)\<rparr>"

definition update_last_login :: "auth_db \<Rightarrow> nat \<Rightarrow> int \<Rightarrow> auth_db" where
  "update_last_login db i now =
     db\<lparr>db_users := map (\<lambda>u. if us_id u = i \<and> \<not> us_deleted u then u\<lparr>us_last_login := Some now\<rparr> else u) (db_users db)\<rparr>"

text \<open>\<open>HardDelete\<close>: the foreign keys take the user's sessions and factors along.\<close>

definition hard_delete_user :: "auth_db \<Rightarrow> nat \<Rightarrow> auth_db" where
  "hard_delete_user db i =
     (remove_factors db (\<lambda>f. fa_user f = i))
       \<lparr>db_users := filter (\<lambda>u. us_id u \<noteq> i) (db_users db),
        db_sessions := filter (\<lambda>s. ss_user s \<noteq> i) (db_sessions db)\<rparr>"

section \<open>Sessions\<close>

abbreviation regular :: string where "regular \<equiv> ''regular''"
abbreviation pending_mfa :: string where "pending_mfa \<equiv> ''pending_mfa''"

definition create_session :: "auth_db \<Rightarrow> session_row \<Rightarrow> auth_db outcome" where
  "create_session db s =
     (if list_ex (\<lambda>r. ss_id r = ss_id s) (db_sessions db) then Inl (PgError ''23505'')
      else Inr (db\<lparr>db_sessions := db_sessions db @ [s]\<rparr>))"

record lookup_result =
  lr_user :: nat
  lr_email :: string
  lr_active :: bool
  lr_expires :: int
  lr_failures :: int
  lr_challenge :: "string option"

text \<open>
  \<open>Lookup\<close> and \<open>LookupPendingMFA\<close>: the row of the kind, not expired, joined with its user
  unless that one is soft-deleted.
\<close>

definition lookup_kind :: "string \<Rightarrow> auth_db \<Rightarrow> int \<Rightarrow> string \<Rightarrow> lookup_result outcome" where
  "lookup_kind kind db now id_hash =
     (case find (\<lambda>s. ss_id s = id_hash \<and> ss_kind s = kind \<and> now < ss_expires_at s) (db_sessions db) of
        None \<Rightarrow> Inl (StoreError StoreNotFound)
      | Some s \<Rightarrow>
          (case find (\<lambda>u. us_id u = ss_user s \<and> \<not> us_deleted u) (db_users db) of
             None \<Rightarrow> Inl (StoreError StoreNotFound)
           | Some u \<Rightarrow> Inr \<lparr>lr_user = us_id u, lr_email = us_email u, lr_active = us_active u,
                lr_expires = ss_expires_at s, lr_failures = ss_failures s,
                lr_challenge = ss_challenge s\<rparr>))"

definition lookup_session :: "auth_db \<Rightarrow> int \<Rightarrow> string \<Rightarrow> lookup_result outcome" where
  "lookup_session = lookup_kind regular"

definition lookup_pending_mfa :: "auth_db \<Rightarrow> int \<Rightarrow> string \<Rightarrow> lookup_result outcome" where
  "lookup_pending_mfa = lookup_kind pending_mfa"

definition bump_mfa_challenge_failures :: "auth_db \<Rightarrow> int \<Rightarrow> string \<Rightarrow> (int \<times> auth_db) outcome" where
  "bump_mfa_challenge_failures db now id_hash =
     (let hit = (\<lambda>s. ss_id s = id_hash \<and> ss_kind s = pending_mfa \<and> now < ss_expires_at s);
          ss = map (\<lambda>s. if hit s then s\<lparr>ss_failures := ss_failures s + 1\<rparr> else s) (db_sessions db);
          n = (case find hit (db_sessions db) of None \<Rightarrow> 0 | Some s \<Rightarrow> ss_failures s + 1)
      in if n = 0 then Inl (StoreError StoreNotFound) else Inr (n, db\<lparr>db_sessions := ss\<rparr>))"

definition remove_sessions :: "auth_db \<Rightarrow> (session_row \<Rightarrow> bool) \<Rightarrow> auth_db" where
  "remove_sessions db p = db\<lparr>db_sessions := filter (\<lambda>s. \<not> p s) (db_sessions db)\<rparr>"

definition delete_pending_mfa :: "auth_db \<Rightarrow> string \<Rightarrow> auth_db" where
  "delete_pending_mfa db id_hash = remove_sessions db (\<lambda>s. ss_id s = id_hash \<and> ss_kind s = pending_mfa)"

definition set_pending_mfa_challenge :: "auth_db \<Rightarrow> string \<Rightarrow> string \<Rightarrow> auth_db outcome" where
  "set_pending_mfa_challenge db id_hash challenge =
     (let hit = (\<lambda>s. ss_id s = id_hash \<and> ss_kind s = pending_mfa)
      in if \<not> list_ex hit (db_sessions db) then Inl (StoreError StoreNotFound)
         else Inr (db\<lparr>db_sessions := map (\<lambda>s. if hit s then s\<lparr>ss_challenge := Some challenge\<rparr> else s)
                (db_sessions db)\<rparr>))"

definition delete_session :: "auth_db \<Rightarrow> string \<Rightarrow> auth_db" where
  "delete_session db id_hash = remove_sessions db (\<lambda>s. ss_id s = id_hash)"

definition delete_all_for_user :: "auth_db \<Rightarrow> nat \<Rightarrow> auth_db" where
  "delete_all_for_user db user = remove_sessions db (\<lambda>s. ss_user s = user)"

definition delete_all_for_user_except :: "auth_db \<Rightarrow> nat \<Rightarrow> string \<Rightarrow> auth_db" where
  "delete_all_for_user_except db user keep = remove_sessions db (\<lambda>s. ss_user s = user \<and> ss_id s \<noteq> keep)"

definition cleanup_expired :: "auth_db \<Rightarrow> int \<Rightarrow> auth_db" where
  "cleanup_expired db now = remove_sessions db (\<lambda>s. ss_expires_at s < now)"

definition list_for_user :: "auth_db \<Rightarrow> int \<Rightarrow> nat \<Rightarrow> session_row list" where
  "list_for_user db now user =
     sort_key (\<lambda>s. - ss_created_at s)
       (filter (\<lambda>s. ss_user s = user \<and> ss_kind s = regular \<and> now < ss_expires_at s) (db_sessions db))"

definition delete_for_user :: "auth_db \<Rightarrow> string \<Rightarrow> nat \<Rightarrow> nat \<times> auth_db" where
  "delete_for_user db id_hash user =
     (let hit = (\<lambda>s. ss_id s = id_hash \<and> ss_user s = user)
      in (length (filter hit (db_sessions db)), remove_sessions db hit))"

section \<open>Audit rows that count\<close>

text \<open>
  The service appends through a worker; here the row is there at once. Only the columns the
  lockouts query are kept.
\<close>

definition log_event :: "auth_db \<Rightarrow> string \<Rightarrow> nat option \<Rightarrow> string \<Rightarrow> int \<Rightarrow> auth_db" where
  "log_event db action user email now =
     db\<lparr>db_audit := db_audit db @ [\<lparr>au_action = action, au_user = user, au_email = email, au_time = now\<rparr>]\<rparr>"

definition count_failed_logins_since :: "(string \<Rightarrow> string) \<Rightarrow> auth_db \<Rightarrow> string \<Rightarrow> int \<Rightarrow> int" where
  "count_failed_logins_since sql_lower db email since =
     int (length (filter (\<lambda>r. au_action r = ''login_failed'' \<and> sql_lower (au_email r) = sql_lower email \<and>
        since \<le> au_time r) (db_audit db)))"

definition count_by_user_since :: "string \<Rightarrow> auth_db \<Rightarrow> nat \<Rightarrow> int \<Rightarrow> int" where
  "count_by_user_since action db user since =
     int (length (filter (\<lambda>r. au_action r = action \<and> au_user r = Some user \<and> since \<le> au_time r) (db_audit db)))"

definition count_failed_password_changes_since :: "auth_db \<Rightarrow> nat \<Rightarrow> int \<Rightarrow> int" where
  "count_failed_password_changes_since = count_by_user_since ''password_change_failed''"

definition count_failed_mfa_challenges_since :: "auth_db \<Rightarrow> nat \<Rightarrow> int \<Rightarrow> int" where
  "count_failed_mfa_challenges_since = count_by_user_since ''mfa_challenge_failed''"

end
