(* ===== verification/BackupCodes.thy ===== *)
theory BackupCodes
  imports KitaPrelude "HOL-Library.Word"
begin

text \<open>
  Recovery codes of \<open>internal/service/factor.go\<close>: how a code is drawn, printed and read back
  (\<open>generateBackupCodes\<close>, \<open>normalizeBackupCode\<close>) with the parts of \<open>encoding/base32\<close> and
  \<open>strings.ToLower\<close> they use. The random bytes and the salts of the hash are arguments.
\<close>

section \<open>Base 32\<close>

definition crockford :: string where
  "crockford = ''0123456789abcdefghjkmnpqrstvwxyz''"

definition bits_of_byte :: "8 word \<Rightarrow> bool list" where
  "bits_of_byte b = map (bit b) (rev [0..<8])"

definition bits_value :: "bool list \<Rightarrow> nat" where
  "bits_value bs = foldl (\<lambda>a b. 2 * a + of_bool b) 0 bs"

text \<open>Groups of five bits, the last one filled up with zeros.\<close>

fun quintets :: "bool list \<Rightarrow> bool list list" where
  "quintets [] = []"
| "quintets (b # bs) = take 5 (b # bs @ replicate 4 False) # quintets (drop 4 bs)"

definition base32_encode :: "8 word list \<Rightarrow> string" where
  "base32_encode bytes = map (\<lambda>q. crockford ! bits_value q) (quintets (concat (map bits_of_byte bytes)))"

section \<open>Reading a code\<close>

text \<open>
  \<open>strings.ToLower\<close>: byte by byte on ASCII strings; \<open>ulower\<close> is what it does to others, which
  takes the Unicode tables.
\<close>

definition ascii_lower :: "char \<Rightarrow> char" where
  "ascii_lower c = (if 65 \<le> (of_char c :: nat) \<and> (of_char c :: nat) \<le> 90
                    then char_of ((of_char c :: nat) + 32) else c)"

definition to_lower :: "(string \<Rightarrow> string) \<Rightarrow> string \<Rightarrow> string" where
  "to_lower ulower s = (if list_all (\<lambda>c. (of_char c :: nat) < 128) s then map ascii_lower s else ulower s)"

definition normalize_backup_code :: "(string \<Rightarrow> string) \<Rightarrow> string \<Rightarrow> string" where
  "normalize_backup_code ulower s =
     filter (\<lambda>c. c \<noteq> CHR ''-'' \<and> c \<noteq> CHR '' '') (to_lower ulower (trim_space s))"

section \<open>Drawing codes\<close>

definition pretty_code :: "string \<Rightarrow> string" where
  "pretty_code code =
     (let mid = length code div 2
      in if 0 < mid then take mid code @ ''-'' @ drop mid code else code)"

definition generate_backup_codes ::
    "(string \<Rightarrow> string) \<Rightarrow> (string \<Rightarrow> string \<Rightarrow> string) \<Rightarrow> (8 word list \<times> string) list \<Rightarrow>
      string list \<times> string list" where
  "generate_backup_codes ulower hash draws =
     (map (\<lambda>(bytes, _). pretty_code (base32_encode bytes)) draws,
      map (\<lambda>(bytes, salt). hash salt (normalize_backup_code ulower (pretty_code (base32_encode bytes)))) draws)"

section \<open>Facts\<close>

lemma length_quintets: "length (quintets bs) = (length bs + 4) div 5"
proof (induction bs rule: quintets.induct)
  case (2 b bs)
  have "Suc ((length bs - 4 + 4) div 5) = (5 + length bs) div 5" by (cases "4 \<le> length bs") auto
  with 2 show ?case by simp
qed simp

lemma quintets_length: "q \<in> set (quintets bs) \<Longrightarrow> length q = 5"
  by (induction bs rule: quintets.induct) auto

lemma take_concat_quintets: "take (length bs) (concat (quintets bs)) = bs"
proof (induction bs rule: quintets.induct)
  case (2 b bs)
  show ?case
  proof (cases "4 \<le> length bs")
    case True
    then have "take 5 (b # bs @ replicate 4 False) = b # take 4 bs" by simp
    moreover have "take (length bs) (take 4 bs @ concat (quintets (drop 4 bs)))
        = take 4 bs @ drop 4 bs" using 2 True by simp
    ultimately show ?thesis by simp
  next
    case False
    then show ?thesis by simp
  qed
qed simp

lemma bits_value_snoc: "bits_value (bs @ [b]) = 2 * bits_value bs + of_bool b"
  by (simp add: bits_value_def)

lemma bits_value_inject: "length p = length q \<Longrightarrow> bits_value p = bits_value q \<Longrightarrow> p = q"
proof (induction p arbitrary: q rule: rev_induct)
  case (snoc x xs)
  then obtain ys y where q: "q = ys @ [y]" by (cases q rule: rev_cases) auto
  with snoc.prems have e: "2 * bits_value xs + of_bool x = 2 * bits_value ys + of_bool y"
    by (simp add: bits_value_snoc)
  then have "x = y" by (cases x; cases y) (simp_all, presburger+)
  with e have "bits_value xs = bits_value ys" by simp
  with snoc.IH [of ys] snoc.prems q \<open>x = y\<close> show ?case by simp
qed simp

lemma bits_value_bound: "bits_value q < 2 ^ length q"
proof (induction q rule: rev_induct)
  case (snoc x xs)
  then show ?case by (cases x) (simp_all add: bits_value_snoc)
qed (simp add: bits_value_def)

lemma crockford_facts: "length crockford = 32" "distinct crockford"
  by (simp_all add: crockford_def)

lemma symbol_inject:
  assumes "length p = 5" and "length q = 5" and "crockford ! bits_value p = crockford ! bits_value q"
  shows "p = q"
proof -
  have "bits_value p < length crockford" "bits_value q < length crockford"
    using bits_value_bound [of p] bits_value_bound [of q] assms(1,2) by (simp_all add: crockford_facts(1))
  with assms(3) have "bits_value p = bits_value q"
    using nth_eq_iff_index_eq [OF crockford_facts(2)] by simp
  with assms(1,2) show ?thesis using bits_value_inject by simp
qed

lemma bits_of_byte_inject: "bits_of_byte a = bits_of_byte b \<Longrightarrow> a = b"
proof (rule bit_word_eqI)
  fix n assume eq: "bits_of_byte a = bits_of_byte b" and n: "n < LENGTH(8)"
  have "\<forall>i \<in> set (rev [0..<8]). bit a i = bit b i"
    using eq unfolding bits_of_byte_def map_eq_conv .
  with n show "bit a n = bit b n" by simp
qed

lemma concat_inject:
  "(\<And>x y. f x = f y \<Longrightarrow> x = y) \<Longrightarrow> (\<And>x. length (f x) = n) \<Longrightarrow> 0 < n \<Longrightarrow>
    concat (map f xs) = concat (map f ys) \<Longrightarrow> xs = ys"
proof (induction xs arbitrary: ys)
  case Nil
  then show ?case by (cases ys) (auto, metis length_0_conv less_numeral_extra(3))
next
  case (Cons x xs)
  then show ?case
  proof (cases ys)
    case Nil
    then show ?thesis using Cons.prems by (auto, metis length_0_conv less_numeral_extra(3))
  next
    case (Cons y ys')
    have "f x @ concat (map f xs) = f y @ concat (map f ys')" using Cons.prems(4) Cons by simp
    then have "f x = f y" "concat (map f xs) = concat (map f ys')"
      using Cons.prems(2) by (metis append_eq_append_conv)+
    then show ?thesis using Cons.IH [OF Cons.prems(1-3)] Cons.prems(1) Cons by simp
  qed
qed

lemma map_inject_on:
  "map f xs = map f ys \<Longrightarrow> (\<And>x y. x \<in> set xs \<Longrightarrow> y \<in> set ys \<Longrightarrow> f x = f y \<Longrightarrow> x = y) \<Longrightarrow> xs = ys"
  by (induction xs arbitrary: ys) (auto simp add: Cons_eq_map_conv map_eq_Cons_conv)

lemma length_bits: "length (concat (map bits_of_byte bytes)) = 8 * length bytes"
  by (induction bytes) (simp_all add: bits_of_byte_def)

lemma base32_inject:
  assumes "length xs = length ys" and "base32_encode xs = base32_encode ys"
  shows "xs = ys"
proof -
  let ?b = "\<lambda>xs. concat (map bits_of_byte xs)"
  have "quintets (?b xs) = quintets (?b ys)"
    using assms(2) unfolding base32_encode_def
    by (rule map_inject_on) (auto intro: symbol_inject dest: quintets_length)
  then have "?b xs = ?b ys"
    using take_concat_quintets [of "?b xs"] take_concat_quintets [of "?b ys"] assms(1)
    by (simp add: length_bits)
  moreover have "length (bits_of_byte x) = 8" for x by (simp add: bits_of_byte_def)
  ultimately show ?thesis using concat_inject [where f = bits_of_byte and n = 8] bits_of_byte_inject by simp
qed

lemma base32_symbols: "c \<in> set (base32_encode bytes) \<Longrightarrow> c \<in> set crockford"
proof -
  assume "c \<in> set (base32_encode bytes)"
  then obtain q where q: "q \<in> set (quintets (concat (map bits_of_byte bytes)))" "c = crockford ! bits_value q"
    by (auto simp add: base32_encode_def)
  have "bits_value q < length crockford"
    using bits_value_bound [of q] quintets_length [OF q(1)] by (simp add: crockford_facts(1))
  then show ?thesis using q(2) by simp
qed


text \<open>The symbols of a code are lower-case ASCII and neither hyphens nor spaces.\<close>

lemma space_ends:
  "\<forall>x \<in> hd ` set space_seqs \<union> last ` set space_seqs. (of_char x :: nat) \<le> 32 \<or> 128 \<le> (of_char x :: nat)"
  by (simp add: space_seqs_def byte_def)

lemma crockford_codes:
  "c \<in> set crockford \<Longrightarrow> ascii_lower c = c \<and> 32 < (of_char c :: nat) \<and> (of_char c :: nat) < 128 \<and>
     c \<noteq> CHR ''-'' \<and> c \<noteq> CHR '' ''"
  unfolding crockford_def by (simp add: ascii_lower_def) (elim disjE; simp)

lemma crockford_plain:
  assumes "c \<in> set crockford"
  shows "ascii_lower c = c \<and> (of_char c :: nat) < 128 \<and> c \<noteq> CHR ''-'' \<and> c \<noteq> CHR '' '' \<and>
     c \<notin> hd ` set space_seqs \<and> c \<notin> last ` set space_seqs"
proof -
  note k = crockford_codes [OF assms]
  have "c \<notin> hd ` set space_seqs \<union> last ` set space_seqs"
  proof
    assume "c \<in> hd ` set space_seqs \<union> last ` set space_seqs"
    from bspec [OF space_ends this] k show False by linarith
  qed
  with k show ?thesis by simp
qed

lemma trim_seqs_id:
  assumes "c \<notin> hd ` {p \<in> set ws. p \<noteq> []}"
  shows "trim_seqs ws (c # s) = c # s"
proof -
  have "\<not> starts_with p (c # s)" if "p \<in> set ws" "p \<noteq> []" for p
    using assms that by (cases p) (force simp add: starts_with_def image_iff)+
  then have "find (\<lambda>p. 0 < length p \<and> starts_with p (c # s)) ws = None"
    by (auto simp add: find_None_iff)
  then show ?thesis by (simp add: trim_seqs.simps)
qed

lemma trim_space_id:
  assumes "s \<noteq> []" "hd s \<notin> hd ` set space_seqs" "last s \<notin> last ` set space_seqs"
  shows "trim_space s = s"
proof -
  obtain c s' where s: "s = c # s'" using assms(1) by (cases s) auto
  have "trim_seqs space_seqs s = s" unfolding s by (rule trim_seqs_id) (use assms(2) s in auto)
  moreover obtain d r where r: "rev s = d # r" using assms(1) by (cases "rev s") auto
  then have d: "d = last s" by (metis hd_rev list.sel(1))
  have "hd ` {p \<in> set (map rev space_seqs). p \<noteq> []} \<subseteq> last ` set space_seqs"
    by (auto simp add: hd_rev)
  then have "trim_seqs (map rev space_seqs) (rev s) = rev s"
    unfolding r by (intro trim_seqs_id) (use assms(3) d in auto)
  ultimately show ?thesis by (simp add: trim_space_def trim_left_def trim_right_def)
qed

lemma normalize_plain:
  assumes "set s \<subseteq> set crockford" "s \<noteq> []"
  shows "normalize_backup_code ulower (pretty_code s) = s"
proof -
  let ?p = "pretty_code s"
  have p: "set ?p \<subseteq> insert (CHR ''-'') (set crockford)"
    using assms(1) by (auto simp add: pretty_code_def Let_def dest: in_set_takeD in_set_dropD)
  have ends: "?p \<noteq> []" "hd ?p \<in> set crockford" "last ?p \<in> set crockford"
  proof -
    show "?p \<noteq> []" using assms(2) by (simp add: pretty_code_def Let_def)
    have "hd ?p = hd s" using assms(2) by (cases s) (auto simp add: pretty_code_def Let_def take_Cons')
    then show "hd ?p \<in> set crockford" using assms by (metis hd_in_set subsetD)
    have "last ?p = last s" using assms(2) by (cases s) (auto simp add: pretty_code_def Let_def)
    then show "last ?p \<in> set crockford" using assms by (metis last_in_set subsetD)
  qed
  have "trim_space ?p = ?p" using trim_space_id ends crockford_plain by metis
  moreover have "ascii_lower (CHR ''-'') = CHR ''-''" by (simp add: ascii_lower_def)
  then have "to_lower ulower ?p = ?p"
    using p crockford_plain unfolding to_lower_def
    by (intro if_P [THEN trans] map_idI) (auto simp add: list_all_iff subset_iff)
  moreover have "filter (\<lambda>c. c \<noteq> CHR ''-'' \<and> c \<noteq> CHR '' '') ?p = s"
  proof -
    have "filter (\<lambda>c. c \<noteq> CHR ''-'' \<and> c \<noteq> CHR '' '') s' = s'" if "set s' \<subseteq> set s" for s'
      using that assms(1) crockford_plain by (intro filter_True) blast
    from this [of "take (length s div 2) s"] this [of "drop (length s div 2) s"] this [of s]
    show ?thesis by (simp add: pretty_code_def Let_def set_take_subset set_drop_subset)
  qed
  ultimately show ?thesis by (simp add: normalize_backup_code_def)
qed

lemma length_base32: "length bs = 8 \<Longrightarrow> length (base32_encode bs) = 13"
  by (simp add: base32_encode_def length_quintets length_bits)

lemma normalize_drawn:
  assumes "length bs = 8"
  shows "normalize_backup_code ulower (pretty_code (base32_encode bs)) = base32_encode bs"
  using normalize_plain [of "base32_encode bs"] base32_symbols length_base32 [OF assms] by fastforce

text \<open>
  A printed recovery code reads back as the code that was drawn, however many hyphens the
  printing inserted; it has 13 symbols; and two draws of 8 bytes give the same printed code only
  when the bytes are the same.
\<close>
lemma backup_code_roundtrip:
  assumes "length bytes = 8"
  shows "normalize_backup_code ulower (pretty_code (base32_encode bytes)) = base32_encode bytes \<and>
    length (base32_encode bytes) = 13 \<and>
    (length bytes' = 8 \<longrightarrow>
       pretty_code (base32_encode bytes) = pretty_code (base32_encode bytes') \<longrightarrow> bytes = bytes')"
  using assms length_base32 normalize_drawn base32_inject by metis

lemma backup_code_roundtrip_witness:
  "normalize_backup_code id (pretty_code (base32_encode [1, 2, 3, 4, 5, 6, 7, 255]))
    = base32_encode [1, 2, 3, 4, 5, 6, 7, 255]"
  by (rule backup_code_roundtrip [THEN conjunct1]) simp

end
