(* ===== verification/Mfa.thy ===== *)
theory Mfa
  imports MfaStore BackupCodes
begin

text \<open>
  The factor service of \<open>internal/service/factor.go\<close>: enrolment, activation, removal and
  verification of second factors. What third-party packages compute (bcrypt, AES-GCM, one-time
  codes, the WebAuthn ceremonies) is in the record \<open>mfa_env\<close>; random values are arguments of
  the operations. Every operation takes the current instant and returns its answer with the
  tables it leaves. Audit records are kept only where a lockout counts them, which none of
  these operations does.
\<close>

section \<open>What the service calls\<close>

text \<open>A credential in the shape of the WebAuthn library.\<close>

record lib_credential =
  lc_id :: string
  lc_public_key :: string
  lc_aaguid :: string
  lc_sign_count :: int
  lc_backup_eligible :: bool
  lc_backup_state :: bool
  lc_user_verified :: bool
  lc_transports :: "string list"
  lc_format :: string

record mfa_env =
  me_password_ok :: "string \<Rightarrow> string \<Rightarrow> bool"
  me_code_hash :: "string \<Rightarrow> string \<Rightarrow> string"
  me_code_ok :: "string \<Rightarrow> string \<Rightarrow> bool"
  me_totp_code :: "string \<Rightarrow> int \<Rightarrow> string option"
  me_seal :: "string \<Rightarrow> string \<Rightarrow> string \<Rightarrow> string"
  me_open :: "string \<Rightarrow> string \<Rightarrow> string \<Rightarrow> string option"
  me_ulower :: "string \<Rightarrow> string"
  me_sql_lower :: "string \<Rightarrow> string"
  me_password_hash :: "string \<Rightarrow> string \<Rightarrow> string option"
  me_token_hash :: "string \<Rightarrow> string"
  me_csrf_token :: "string \<Rightarrow> string"
  me_webauthn :: bool
  me_begin_registration :: "nat \<Rightarrow> string \<Rightarrow> string \<Rightarrow> lib_credential list \<Rightarrow> string + string \<times> string"
  me_session_ok :: "string \<Rightarrow> bool"
  me_parse_creation :: "string \<Rightarrow> string + string"
  me_create_credential ::
    "nat \<Rightarrow> string \<Rightarrow> string \<Rightarrow> lib_credential list \<Rightarrow> string \<Rightarrow> string \<Rightarrow> string + lib_credential"
  me_begin_login :: "nat \<Rightarrow> string \<Rightarrow> string \<Rightarrow> lib_credential list \<Rightarrow> string + string \<times> string"
  me_parse_assertion :: "string \<Rightarrow> string + string"
  me_validate_login ::
    "nat \<Rightarrow> string \<Rightarrow> string \<Rightarrow> lib_credential list \<Rightarrow> string \<Rightarrow> string \<Rightarrow> string + lib_credential"

definition backup_code_count :: nat where "backup_code_count = 8"

definition factor_activation_failure_limit :: int where "factor_activation_failure_limit = 5"

definition otp_digit_count :: nat where "otp_digit_count = 6"

definition totp_skew_steps :: int where "totp_skew_steps = 1"

definition totp_period :: int where "totp_period = 30"

definition second :: int where "second = 1000000000"

text \<open>\<open>time.Time.Unix\<close> and Go's division, which truncates towards zero.\<close>

definition unix_of :: "int \<Rightarrow> int" where
  "unix_of t = t div second"

definition quot_int :: "int \<Rightarrow> int \<Rightarrow> int" where
  "quot_int a b = (if 0 \<le> a then a div b else - ((- a) div b))"

section \<open>Reading\<close>

definition get_for_user :: "auth_db \<Rightarrow> nat \<Rightarrow> nat \<Rightarrow> (factor \<times> int option) outcome" where
  "get_for_user db user i =
     (case find_by_id_and_user db i user of
        Inl e \<Rightarrow> Inl (if is_store_error e StoreNotFound then not_found ''factor''
                      else internal_wrap e ''find factor'')
      | Inr f \<Rightarrow> Inr (f, if fa_type f = backup_codes
                          then Some (count_unused_backup_codes db (fa_id f)) else None))"

definition list_for_user_factors :: "auth_db \<Rightarrow> nat \<Rightarrow> (factor \<times> int option) list" where
  "list_for_user_factors db user =
     map (\<lambda>f. (f, if fa_type f = backup_codes then Some (count_unused_backup_codes db (fa_id f)) else None))
       (find_active_by_user db user)"

definition has_active_primary_factor :: "auth_db \<Rightarrow> nat \<Rightarrow> bool" where
  "has_active_primary_factor db user = list_ex (\<lambda>f. fa_type f \<noteq> backup_codes) (find_active_by_user db user)"

definition lookup_active_factor :: "auth_db \<Rightarrow> nat \<Rightarrow> nat \<Rightarrow> factor outcome" where
  "lookup_active_factor db user i =
     (case find_by_id_and_user db i user of
        Inl e \<Rightarrow> Inl (if is_store_error e StoreNotFound then not_found ''factor''
                      else internal_wrap e ''find factor'')
      | Inr f \<Rightarrow> if fa_enabled_at f = None then Inl (not_found ''factor'') else Inr f)"

definition descriptors_for_login :: "auth_db \<Rightarrow> nat \<Rightarrow> (nat \<times> string \<times> string option) list" where
  "descriptors_for_login db user =
     map (\<lambda>f. (fa_id f, fa_type f, fa_label f)) (find_active_by_user db user)"

section \<open>Codes\<close>

definition verify_password :: "mfa_env \<Rightarrow> auth_db \<Rightarrow> nat \<Rightarrow> string \<Rightarrow> unit outcome" where
  "verify_password env db user password =
     (if password = [] then Inl (bad_request ''password is required'')
      else case find_user_by_id db user of
             Inl e \<Rightarrow> Inl (classify_store_error e ''user'')
           | Inr u \<Rightarrow> ensureE (me_password_ok env (us_password u) password) (unauthorized ''invalid credentials''))"

definition totp_aad :: "nat \<Rightarrow> string" where
  "totp_aad i = ''factor:'' @ itoa (int i) @ '':totp_secret''"

definition decrypt_totp_secret :: "mfa_env \<Rightarrow> auth_db \<Rightarrow> nat \<Rightarrow> string outcome" where
  "decrypt_totp_secret env db i =
     (case find_totp_secret db i of
        Inl e \<Rightarrow> Inl (classify_store_error e ''totp secret'')
      | Inr s \<Rightarrow>
          (case me_open env (ts_ciphertext s) (ts_nonce s) (totp_aad i) of
             None \<Rightarrow> Inl (internal_wrap (PlainError ''aead open'') ''decrypt totp secret'')
           | Some plain \<Rightarrow> Inr plain))"

text \<open>
  The first step of the skew window whose code is the one submitted: the loop over \<open>d\<close> in
  \<open>tryTOTPCode\<close> and \<open>verifyTOTPForActivation\<close>.
\<close>

definition matching_step :: "mfa_env \<Rightarrow> string \<Rightarrow> int \<Rightarrow> string \<Rightarrow> int option" where
  "matching_step env secret now code =
     map_option (\<lambda>d. quot_int (unix_of (now + d * totp_period * second)) totp_period)
       (find (\<lambda>d. me_totp_code env secret (unix_of (now + d * totp_period * second)) = Some code)
         [- totp_skew_steps .. totp_skew_steps])"

definition try_totp_code :: "mfa_env \<Rightarrow> auth_db \<Rightarrow> int \<Rightarrow> nat \<Rightarrow> string \<Rightarrow> bool \<times> auth_db" where
  "try_totp_code env db now i code =
     (if length code \<noteq> otp_digit_count then (False, db)
      else case decrypt_totp_secret env db i of
             Inl e \<Rightarrow> (False, db)
           | Inr secret \<Rightarrow>
               (case matching_step env secret now code of
                  None \<Rightarrow> (False, db)
                | Some step \<Rightarrow>
                    (case accept_totp_step db i step of
                       (ok, db1) \<Rightarrow> if ok then (True, touch_last_used db1 i now) else (False, db1))))"

definition verify_totp_for_activation ::
    "mfa_env \<Rightarrow> auth_db \<Rightarrow> int \<Rightarrow> nat \<Rightarrow> string \<Rightarrow> unit outcome \<times> auth_db" where
  "verify_totp_for_activation env db now i code =
     (if length code \<noteq> otp_digit_count then (Inl (unauthorized ''invalid code''), db)
      else case decrypt_totp_secret env db i of
             Inl e \<Rightarrow> (Inl e, db)
           | Inr secret \<Rightarrow>
               (case matching_step env secret now code of
                  None \<Rightarrow> (Inl (unauthorized ''invalid code''), db)
                | Some step \<Rightarrow>
                    (case accept_totp_step db i step of
                       (ok, db1) \<Rightarrow> (if ok then Inr () else Inl (unauthorized ''invalid code''), db1))))"

text \<open>A code matches at most one row, so the scan stops at the first match.\<close>

definition try_backup_code :: "mfa_env \<Rightarrow> auth_db \<Rightarrow> int \<Rightarrow> nat \<Rightarrow> string \<Rightarrow> bool \<times> auth_db" where
  "try_backup_code env db now i raw_code =
     (let norm = normalize_backup_code (me_ulower env) raw_code
      in case find (\<lambda>r. me_code_ok env (bc_hash r) norm) (list_unused_backup_codes db i) of
           None \<Rightarrow> (False, db)
         | Some r \<Rightarrow>
             (case mark_backup_code_used db (bc_id r) now of
                (ok, db1) \<Rightarrow> if ok then (True, touch_last_used db1 i now) else (False, db1)))"

fun try_factors :: "mfa_env \<Rightarrow> auth_db \<Rightarrow> int \<Rightarrow> string \<Rightarrow> factor list \<Rightarrow> bool \<times> auth_db" where
  "try_factors env db now code [] = (False, db)"
| "try_factors env db now code (f # fs) =
     (case (if fa_type f = totp then try_totp_code env db now (fa_id f) code
            else if fa_type f = backup_codes then try_backup_code env db now (fa_id f) code
            else (False, db)) of
        (True, db1) \<Rightarrow> (True, db1)
      | (False, db1) \<Rightarrow> try_factors env db1 now code fs)"

definition verify_any_factor_code ::
    "mfa_env \<Rightarrow> auth_db \<Rightarrow> int \<Rightarrow> nat \<Rightarrow> string \<Rightarrow> unit outcome \<times> auth_db" where
  "verify_any_factor_code env db now user code =
     (case try_factors env db now code (find_active_by_user db user) of
        (ok, db1) \<Rightarrow> (ensureE ok (unauthorized ''invalid code''), db1))"

definition verify_step_up_mfa ::
    "mfa_env \<Rightarrow> auth_db \<Rightarrow> int \<Rightarrow> nat \<Rightarrow> string \<Rightarrow> unit outcome \<times> auth_db" where
  "verify_step_up_mfa env db now user code =
     (if \<not> has_active_primary_factor db user then (Inr (), db)
      else if code = [] then (Inl (bad_request ''a current TOTP or backup code is required''), db)
      else verify_any_factor_code env db now user code)"

definition verify_code_for_login ::
    "mfa_env \<Rightarrow> auth_db \<Rightarrow> int \<Rightarrow> nat \<Rightarrow> nat \<Rightarrow> string \<Rightarrow> unit outcome \<times> auth_db" where
  "verify_code_for_login env db now user i code =
     (case lookup_active_factor db user i of
        Inl e \<Rightarrow> (Inl e, db)
      | Inr f \<Rightarrow>
          if fa_type f = totp
            then (case try_totp_code env db now (fa_id f) code of
                    (ok, db1) \<Rightarrow> (ensureE ok (unauthorized ''invalid code''), db1))
          else if fa_type f = backup_codes
            then (case try_backup_code env db now (fa_id f) code of
                    (ok, db1) \<Rightarrow> (ensureE ok (unauthorized ''invalid code''), db1))
          else if fa_type f = webauthn
            then (Inl (bad_request ''webauthn factors must be verified via the webauthn assertion endpoint''), db)
          else (Inl (bad_request (''unsupported factor type: '' @ fa_type f)), db))"

text \<open>A step with its own answer, then the rest on the tables it left.\<close>

definition andThen :: "'a outcome \<times> auth_db \<Rightarrow> ('a \<Rightarrow> auth_db \<Rightarrow> 'b outcome \<times> auth_db) \<Rightarrow> 'b outcome \<times> auth_db" where
  "andThen m k = (case m of (Inl e, db) \<Rightarrow> (Inl e, db) | (Inr x, db) \<Rightarrow> k x db)"

lemma andThen_simps [simp]: "andThen (Inl e, db) k = (Inl e, db)" "andThen (Inr x, db) k = k x db"
  by (simp_all add: andThen_def)

lemma andThen_eq_Inr:
  "andThen m k = (Inr y, db') \<longleftrightarrow> (\<exists>x db. m = (Inr x, db) \<and> k x db = (Inr y, db'))"
  by (cases m; cases "fst m") auto

section \<open>WebAuthn credentials\<close>

definition safe_uint32 :: "int \<Rightarrow> int" where
  "safe_uint32 v = (if v < 0 then 0 else if 4294967295 < v then 4294967295 else v)"

definition join_transports :: "string list \<Rightarrow> string" where
  "join_transports ts = join_strings '','' ts"

text \<open>\<open>strings.Split\<close> at commas.\<close>

fun split_commas :: "string \<Rightarrow> string list" where
  "split_commas [] = [[]]"
| "split_commas (c # s) =
     (if c = CHR '','' then [] # split_commas s
      else case split_commas s of [] \<Rightarrow> [[c]] | p # ps \<Rightarrow> (c # p) # ps)"

definition split_transports :: "string \<Rightarrow> string list" where
  "split_transports s =
     (if s = [] then [] else filter (\<lambda>p. p \<noteq> []) (map trim_space (split_commas s)))"

definition to_lib_credential :: "credential \<Rightarrow> lib_credential" where
  "to_lib_credential c =
     \<lparr>lc_id = wc_id c, lc_public_key = wc_public_key c, lc_aaguid = wc_aaguid c,
      lc_sign_count = safe_uint32 (wc_sign_count c), lc_backup_eligible = wc_backup_eligible c,
      lc_backup_state = wc_backup_state c, lc_user_verified = wc_uv_initialized c,
      lc_transports = split_transports (wc_transports c), lc_format = []\<rparr>"

definition gather_user_webauthn_credentials :: "auth_db \<Rightarrow> nat \<Rightarrow> lib_credential list" where
  "gather_user_webauthn_credentials db user =
     concat (map (\<lambda>f. if fa_type f \<noteq> webauthn then []
                       else case find_webauthn_credential db (fa_id f) of
                              Inl e \<Rightarrow> [] | Inr c \<Rightarrow> [to_lib_credential c])
       (find_active_by_user db user))"

definition filter_credentials :: "lib_credential list \<Rightarrow> string \<Rightarrow> lib_credential list" where
  "filter_credentials all_creds target =
     (if target = [] then all_creds
      else case find (\<lambda>c. lc_id c = target) all_creds of None \<Rightarrow> [] | Some c \<Rightarrow> [c])"

definition factor_id_to_credential_id :: "auth_db \<Rightarrow> nat \<Rightarrow> string" where
  "factor_id_to_credential_id db i =
     (case find_webauthn_credential db i of Inl e \<Rightarrow> [] | Inr c \<Rightarrow> wc_id c)"

abbreviation not_enabled_error :: go_error where
  "not_enabled_error \<equiv> bad_request ''WebAuthn is not enabled on this deployment''"

definition build_webauthn_request_options ::
    "mfa_env \<Rightarrow> auth_db \<Rightarrow> nat \<Rightarrow> nat \<Rightarrow> (string \<times> string) outcome" where
  "build_webauthn_request_options env db user i =
     (if \<not> me_webauthn env then Inl not_enabled_error
      else case find_by_id_and_user db i user of
             Inl e \<Rightarrow> Inl (if is_store_error e StoreNotFound then not_found ''factor''
                           else internal_wrap e ''find factor'')
           | Inr f \<Rightarrow>
               if fa_type f \<noteq> webauthn \<or> fa_enabled_at f = None
                 then Inl (bad_request ''factor is not an active webauthn credential'')
               else case find_user_by_id db user of
                      Inl e \<Rightarrow> Inl (classify_store_error e ''user'')
                    | Inr u \<Rightarrow>
                        (case me_begin_login env user (us_email u) (us_name u)
                                (filter_credentials (gather_user_webauthn_credentials db user)
                                  (factor_id_to_credential_id db i)) of
                           Inl m \<Rightarrow> Inl (internal_wrap (PlainError m) ''begin webauthn login'')
                         | Inr r \<Rightarrow> Inr r))"

definition verify_webauthn_assertion ::
    "mfa_env \<Rightarrow> auth_db \<Rightarrow> int \<Rightarrow> nat \<Rightarrow> nat \<Rightarrow> string \<Rightarrow> string \<Rightarrow> unit outcome \<times> auth_db" where
  "verify_webauthn_assertion env db now user i session response =
     (if \<not> me_webauthn env then (Inl not_enabled_error, db)
      else if response = [] \<or> session = [] then (Inl (unauthorized ''invalid webauthn response''), db)
      else if \<not> me_session_ok env session
        then (Inl (internal_wrap (PlainError ''json'') ''decode session data''), db)
      else case me_parse_assertion env response of
             Inl m \<Rightarrow> (Inl (unauthorized ''invalid webauthn response''), db)
           | Inr parsed \<Rightarrow>
               (case find_user_by_id db user of
                  Inl e \<Rightarrow> (Inl (classify_store_error e ''user''), db)
                | Inr u \<Rightarrow>
                    (case me_validate_login env user (us_email u) (us_name u)
                            (gather_user_webauthn_credentials db user) session parsed of
                       Inl m \<Rightarrow> (Inl (unauthorized (''assertion verification failed: '' @ m)), db)
                     | Inr cred \<Rightarrow>
                         (case find_webauthn_credential db i of
                            Inl e \<Rightarrow> (Inl (not_found ''factor''), db)
                          | Inr row \<Rightarrow>
                              if wc_id row \<noteq> lc_id cred
                                then (Inl (unauthorized ''credential mismatch''), db)
                              else (Inr (), touch_last_used
                                (update_webauthn_sign_count db i (lc_sign_count cred) (lc_backup_state cred))
                                i now)))))"

section \<open>Enrolment\<close>

definition new_factor :: "nat \<Rightarrow> string \<Rightarrow> string option \<Rightarrow> int option \<Rightarrow> int \<Rightarrow> factor" where
  "new_factor user ty label enabled now =
     \<lparr>fa_id = 0, fa_user = user, fa_type = ty, fa_label = label, fa_enabled_at = enabled,
      fa_last_used_at = None, fa_failures = 0, fa_challenge = None, fa_challenge_expires = None,
      fa_created_at = now\<rparr>"

text \<open>An enrolment replaces the pending factor of the same type.\<close>

definition drop_pending :: "auth_db \<Rightarrow> nat \<Rightarrow> string \<Rightarrow> auth_db" where
  "drop_pending db user ty =
     (case find_pending_by_user_and_type db user ty of
        Inl e \<Rightarrow> db | Inr f \<Rightarrow> snd (delete_factor_row db (fa_id f) user))"

definition enroll_totp ::
    "mfa_env \<Rightarrow> auth_db \<Rightarrow> int \<Rightarrow> nat \<Rightarrow> string option \<Rightarrow> string \<Rightarrow> string \<Rightarrow> string \<Rightarrow> string \<Rightarrow>
      (factor \<times> string) outcome \<times> auth_db" where
  "enroll_totp env db now user label password code secret nonce =
     andThen (verify_password env db user password, db) (\<lambda>_ db.
     andThen (verify_step_up_mfa env db now user code) (\<lambda>_ db.
     let db1 = drop_pending db user totp
     in case create_factor db1 (new_factor user totp label None now) of
          Inl e \<Rightarrow> (Inl (internal_wrap e ''create factor''), db1)
        | Inr (f, db2) \<Rightarrow>
            (case create_totp_secret db2
                    \<lparr>ts_factor = fa_id f, ts_ciphertext = me_seal env secret nonce (totp_aad (fa_id f)),
                     ts_nonce = nonce, ts_last_step = None\<rparr> of
               Inl e \<Rightarrow> (Inl (internal_wrap e ''create totp secret''), db2)
             | Inr db3 \<Rightarrow> (Inr (f, secret), db3))))"

definition webauthn_registration_challenge_lifetime :: int where
  "webauthn_registration_challenge_lifetime = 5 * 60 * second"

definition enroll_webauthn ::
    "mfa_env \<Rightarrow> auth_db \<Rightarrow> int \<Rightarrow> nat \<Rightarrow> string option \<Rightarrow> string \<Rightarrow> string \<Rightarrow> string \<Rightarrow> string \<Rightarrow>
      (factor \<times> string) outcome \<times> auth_db" where
  "enroll_webauthn env db now user label password code account display =
     (if \<not> me_webauthn env then (Inl not_enabled_error, db)
      else andThen (verify_password env db user password, db) (\<lambda>_ db.
           andThen (verify_step_up_mfa env db now user code) (\<lambda>_ db.
           let db1 = drop_pending db user webauthn;
               existing = gather_user_webauthn_credentials db1 user
           in case create_factor db1 (new_factor user webauthn label None now) of
                Inl e \<Rightarrow> (Inl (internal_wrap e ''create factor''), db1)
              | Inr (f, db2) \<Rightarrow>
                  (case me_begin_registration env user account display existing of
                     Inl m \<Rightarrow> (Inl (internal_wrap (PlainError m) ''begin webauthn registration''), db2)
                   | Inr (options, session) \<Rightarrow>
                       (Inr (f, options), set_registration_challenge db2 (fa_id f) session
                          (now + webauthn_registration_challenge_lifetime))))))"

section \<open>Activation\<close>

definition activate_webauthn_factor ::
    "mfa_env \<Rightarrow> auth_db \<Rightarrow> int \<Rightarrow> nat \<Rightarrow> factor \<Rightarrow> string \<Rightarrow> unit outcome \<times> auth_db" where
  "activate_webauthn_factor env db now user f response =
     (if \<not> me_webauthn env then (Inl not_enabled_error, db)
      else if response = [] then (Inl (bad_request ''webauthn_response is required''), db)
      else case fa_challenge f of
             None \<Rightarrow> (Inl (bad_request ''no registration challenge on factor''), db)
           | Some challenge \<Rightarrow>
               if (case fa_challenge_expires f of None \<Rightarrow> False | Some t \<Rightarrow> t < now)
                 then (Inl (unauthorized ''registration challenge expired''),
                       snd (delete_factor_row db (fa_id f) user))
               else if \<not> me_session_ok env challenge
                 then (Inl (internal_wrap (PlainError ''json'') ''decode session data''), db)
               else case me_parse_creation env response of
                      Inl m \<Rightarrow> (Inl (bad_request (''invalid webauthn response: '' @ m)), db)
                    | Inr parsed \<Rightarrow>
                        (case find_user_by_id db user of
                           Inl e \<Rightarrow> (Inl (classify_store_error e ''user''), db)
                         | Inr u \<Rightarrow>
                             (case me_create_credential env user (us_email u) (us_name u)
                                     (gather_user_webauthn_credentials db user) challenge parsed of
                                Inl m \<Rightarrow> (Inl (unauthorized (''attestation verification failed: '' @ m)), db)
                              | Inr cred \<Rightarrow>
                                  if (case find_webauthn_credential_by_id db (lc_id cred) of
                                        Inl e \<Rightarrow> False | Inr c \<Rightarrow> wc_factor c \<noteq> fa_id f)
                                    then (Inl (conflict ''this security key is already registered''), db)
                                  else (case create_webauthn_credential db
                                          \<lparr>wc_factor = fa_id f, wc_id = lc_id cred,
                                           wc_public_key = lc_public_key cred, wc_aaguid = lc_aaguid cred,
                                           wc_sign_count = lc_sign_count cred,
                                           wc_transports = join_transports (lc_transports cred),
                                           wc_format = lc_format cred,
                                           wc_backup_eligible = lc_backup_eligible cred,
                                           wc_backup_state = lc_backup_state cred,
                                           wc_uv_initialized = lc_user_verified cred,
                                           wc_created_at = now\<rparr> of
                                          Inl e \<Rightarrow> (Inl (conflict ''this security key is already registered''), db)
                                        | Inr db1 \<Rightarrow> (Inr (), clear_registration_challenge db1 (fa_id f))))))"

text \<open>
  \<open>draw k\<close> are the bytes and the salt of the \<open>k\<close>-th code. An error of the insert is only
  logged by the caller: \<open>None\<close>.
\<close>

definition draw_backup_codes :: "mfa_env \<Rightarrow> (nat \<Rightarrow> 8 word list \<times> string) \<Rightarrow> string list \<times> string list" where
  "draw_backup_codes env draw =
     generate_backup_codes (me_ulower env) (me_code_hash env) (map draw [0..<backup_code_count])"

definition code_rows :: "nat \<Rightarrow> int \<Rightarrow> string list \<Rightarrow> backup_code list" where
  "code_rows i now hashes =
     map (\<lambda>h. \<lparr>bc_id = 0, bc_factor = i, bc_hash = h, bc_used_at = None, bc_created_at = now\<rparr>) hashes"

definition ensure_backup_codes_factor ::
    "mfa_env \<Rightarrow> auth_db \<Rightarrow> int \<Rightarrow> nat \<Rightarrow> (nat \<Rightarrow> 8 word list \<times> string) \<Rightarrow>
      (nat \<times> string list) option \<times> auth_db" where
  "ensure_backup_codes_factor env db now user draw =
     (case find_backup_codes_factor db user of
        Inr f \<Rightarrow> (None, db)
      | Inl e \<Rightarrow>
          if \<not> is_store_error e StoreNotFound then (None, db)
          else case draw_backup_codes env draw of
                 (raw, hashed) \<Rightarrow>
                   (case create_factor db (new_factor user backup_codes None (Some now) now) of
                      Inl e \<Rightarrow> (None, db)
                    | Inr (f, db1) \<Rightarrow>
                        (Some (fa_id f, raw), insert_backup_codes db1 (code_rows (fa_id f) now hashed))))"

text \<open>A wrong code counts; the fifth deletes the pending factor.\<close>

definition count_wrong_code ::
    "auth_db \<Rightarrow> nat \<Rightarrow> factor \<Rightarrow> go_error \<Rightarrow> go_error \<times> auth_db" where
  "count_wrong_code db user f err =
     (if \<not> is_sentinel err ErrUnauthorized then (err, db)
      else case increment_activation_failures db (fa_id f) user of
             Inl e \<Rightarrow> (err, db)
           | Inr (n, db1) \<Rightarrow>
               if factor_activation_failure_limit \<le> n
               then (too_many_requests ''too many wrong codes; re-enroll the factor'',
                     snd (delete_factor_row db1 (fa_id f) user))
               else (err, db1))"

definition activate_factor_op ::
    "mfa_env \<Rightarrow> auth_db \<Rightarrow> int \<Rightarrow> nat \<Rightarrow> nat \<Rightarrow> string \<Rightarrow> string \<Rightarrow> (nat \<Rightarrow> 8 word list \<times> string) \<Rightarrow>
      (nat \<times> string list) option outcome \<times> auth_db" where
  "activate_factor_op env db now user i code response draw =
     (case find_by_id_and_user db i user of
        Inl e \<Rightarrow> (Inl (if is_store_error e StoreNotFound then not_found ''factor''
                       else internal_wrap e ''find factor''), db)
      | Inr f \<Rightarrow>
          if fa_enabled_at f \<noteq> None then (Inl (conflict ''factor already activated''), db)
          else andThen
            (if fa_type f = totp
               then (case verify_totp_for_activation env db now (fa_id f) code of
                       (Inr u, db1) \<Rightarrow> (Inr u, db1)
                     | (Inl err, db1) \<Rightarrow> apfst Inl (count_wrong_code db1 user f err))
             else if fa_type f = webauthn then activate_webauthn_factor env db now user f response
             else if fa_type f = backup_codes
               then (Inl (bad_request ''backup_codes factors are auto-activated; do not call activate on them''), db)
             else (Inl (bad_request (''unsupported factor type: '' @ fa_type f)), db))
            (\<lambda>_ db1.
               case activate_factor db1 (fa_id f) user now of
                 (activated, db2) \<Rightarrow>
                   if \<not> activated then (Inl (conflict ''factor already activated''), db2)
                   else if fa_type f \<noteq> backup_codes
                     then (case ensure_backup_codes_factor env db2 now user draw of
                             (payload, db3) \<Rightarrow> (Inr payload, db3))
                   else (Inr None, db2)))"

section \<open>Removal, labels, regeneration\<close>

definition delete_factor_op ::
    "mfa_env \<Rightarrow> auth_db \<Rightarrow> int \<Rightarrow> nat \<Rightarrow> nat \<Rightarrow> string \<Rightarrow> string \<Rightarrow> unit outcome \<times> auth_db" where
  "delete_factor_op env db now user i password code =
     andThen (verify_password env db user password, db) (\<lambda>_ db.
     case find_by_id_and_user db i user of
       Inl e \<Rightarrow> (Inl (if is_store_error e StoreNotFound then not_found ''factor''
                      else internal_wrap e ''find factor''), db)
     | Inr f \<Rightarrow>
         (let primaries = filter (\<lambda>g. fa_type g \<noteq> backup_codes) (find_active_by_user db user);
              remaining = length (filter (\<lambda>g. fa_id g \<noteq> fa_id f) primaries)
          in andThen (if primaries \<noteq> [] then verify_step_up_mfa env db now user code else (Inr (), db)) (\<lambda>_ db.
             case delete_factor_row db i user of
               (rows, db1) \<Rightarrow>
                 if rows = 0 then (Inl (not_found ''factor''), db1)
                 else if fa_type f \<noteq> backup_codes \<and> remaining = 0
                   then (case find_backup_codes_factor db1 user of
                           Inl e \<Rightarrow> (Inr (), db1)
                         | Inr bf \<Rightarrow> (Inr (), snd (delete_factor_row db1 (fa_id bf) user)))
                 else (Inr (), db1))))"

definition update_label :: "auth_db \<Rightarrow> nat \<Rightarrow> nat \<Rightarrow> string option \<Rightarrow> (factor \<times> int option) outcome \<times> auth_db" where
  "update_label db user i label =
     (case (case label of
              None \<Rightarrow> Inr None
            | Some l \<Rightarrow>
                (let trimmed = trim_space l
                 in if 100 < length trimmed then Inl (bad_request ''label must be 100 characters or fewer'')
                    else Inr (if trimmed = [] then None else Some trimmed))) of
        Inl e \<Rightarrow> (Inl e, db)
      | Inr label' \<Rightarrow>
          (case find_by_id_and_user db i user of
             Inl e \<Rightarrow> (Inl (if is_store_error e StoreNotFound then not_found ''factor''
                            else internal_wrap e ''find factor''), db)
           | Inr f \<Rightarrow>
               (case update_label_row db i user label' of
                  (ok, db1) \<Rightarrow> if \<not> ok then (Inl (not_found ''factor''), db1)
                               else (get_for_user db1 user i, db1))))"

definition regenerate_backup_codes ::
    "mfa_env \<Rightarrow> auth_db \<Rightarrow> int \<Rightarrow> nat \<Rightarrow> nat \<Rightarrow> string \<Rightarrow> string \<Rightarrow> (nat \<Rightarrow> 8 word list \<times> string) \<Rightarrow>
      (nat \<times> string list) outcome \<times> auth_db" where
  "regenerate_backup_codes env db now user i password code draw =
     andThen (verify_password env db user password, db) (\<lambda>_ db.
     andThen (verify_step_up_mfa env db now user code) (\<lambda>_ db.
     case find_by_id_and_user db i user of
       Inl e \<Rightarrow> (Inl (if is_store_error e StoreNotFound then not_found ''factor''
                      else internal_wrap e ''find factor''), db)
     | Inr f \<Rightarrow>
         if fa_type f \<noteq> backup_codes
           then (Inl (bad_request ''regenerate is only valid for backup_codes factors''), db)
         else case draw_backup_codes env draw of
                (raw, hashed) \<Rightarrow>
                  (case replace_backup_codes db (fa_id f) (code_rows (fa_id f) now hashed) of
                     Inl e \<Rightarrow> (Inl (internal_wrap e ''replace backup codes''), db)
                   | Inr db1 \<Rightarrow> (Inr (fa_id f, raw), db1))))"

end
