(* ===== verification/Login.thy ===== *)
theory Login
  imports Mfa
begin

text \<open>
  The two-step login and the sessions of \<open>internal/service/auth.go\<close>. \<open>raw\<close> is the random
  session token an operation draws; the store keeps its SHA-256 (\<open>me_token_hash\<close>). The bcrypt
  comparisons that only equalise the response time are left out.
\<close>

definition session_lifetime :: int where "session_lifetime = 7 * 24 * 3600 * second"
definition lockout_threshold :: int where "lockout_threshold = 5"
definition lockout_window :: int where "lockout_window = 15 * 60 * second"
definition password_change_lockout_threshold :: int where "password_change_lockout_threshold = 5"
definition password_change_lockout_window :: int where "password_change_lockout_window = 15 * 60 * second"
definition pending_mfa_lifetime :: int where "pending_mfa_lifetime = 5 * 60 * second"
definition mfa_challenge_failure_limit :: int where "mfa_challenge_failure_limit = 5"
definition mfa_per_user_lockout_threshold :: int where "mfa_per_user_lockout_threshold = 20"
definition mfa_per_user_lockout_window :: int where "mfa_per_user_lockout_window = 15 * 60 * second"

record auth_result =
  ar_session_token :: string
  ar_csrf_token :: string
  ar_expires_in :: int

record pending_result =
  pr_token :: string
  pr_expires_at :: int
  pr_factors :: "(nat \<times> string \<times> string option) list"

datatype login_result = Authenticated auth_result | Pending pending_result

definition canonical_email :: "mfa_env \<Rightarrow> string \<Rightarrow> string" where
  "canonical_email env email = to_lower (me_ulower env) (trim_space email)"

section \<open>Issuing rows\<close>

definition issue_session ::
    "mfa_env \<Rightarrow> auth_db \<Rightarrow> int \<Rightarrow> nat \<Rightarrow> string \<Rightarrow> string \<Rightarrow> string \<Rightarrow> auth_result outcome \<times> auth_db" where
  "issue_session env db now user raw ip agent =
     (case create_session db
             \<lparr>ss_id = me_token_hash env raw, ss_user = user, ss_kind = regular, ss_created_at = now,
              ss_expires_at = now + session_lifetime, ss_failures = 0, ss_password_verified_at = None,
              ss_challenge = None, ss_ip = ip, ss_agent = agent\<rparr> of
        Inl e \<Rightarrow> (Inl (internal_error ''failed to create session''), db)
      | Inr db1 \<Rightarrow> (Inr \<lparr>ar_session_token = raw, ar_csrf_token = me_csrf_token env raw,
                        ar_expires_in = unix_of session_lifetime\<rparr>, db1))"

definition issue_pending_mfa ::
    "mfa_env \<Rightarrow> auth_db \<Rightarrow> int \<Rightarrow> nat \<Rightarrow> string \<Rightarrow> string \<Rightarrow> string \<Rightarrow> pending_result outcome \<times> auth_db" where
  "issue_pending_mfa env db now user raw ip agent =
     (case create_session db
             \<lparr>ss_id = me_token_hash env raw, ss_user = user, ss_kind = pending_mfa, ss_created_at = now,
              ss_expires_at = now + pending_mfa_lifetime, ss_failures = 0,
              ss_password_verified_at = Some now, ss_challenge = None, ss_ip = ip, ss_agent = agent\<rparr> of
        Inl e \<Rightarrow> (Inl (internal_error ''failed to create pending session''), db)
      | Inr db1 \<Rightarrow> (Inr \<lparr>pr_token = raw, pr_expires_at = now + pending_mfa_lifetime,
                        pr_factors = descriptors_for_login db1 user\<rparr>, db1))"

section \<open>Login\<close>

definition login ::
    "mfa_env \<Rightarrow> auth_db \<Rightarrow> int \<Rightarrow> string \<Rightarrow> string \<Rightarrow> string \<Rightarrow> string \<Rightarrow> string \<Rightarrow> login_result outcome \<times> auth_db" where
  "login env db now email password raw ip agent =
     (let canonical = canonical_email env email;
          failed = (\<lambda>err. (Inl err, log_event db ''login_failed'' None canonical now))
      in if lockout_threshold \<le> count_failed_logins_since (me_sql_lower env) db canonical (now - lockout_window)
           then failed (too_many_requests ''too many failed login attempts, please try again later'')
         else case find_user_by_email (me_sql_lower env) db canonical of
                Inl e \<Rightarrow> failed (unauthorized ''invalid credentials'')
              | Inr u \<Rightarrow>
                  if \<not> us_active u then failed (unauthorized ''invalid credentials'')
                  else if \<not> me_password_ok env (us_password u) password
                    then failed (unauthorized ''invalid credentials'')
                  else if has_active_primary_factor db (us_id u)
                    then (case issue_pending_mfa env db now (us_id u) raw ip agent of
                            (Inl e, db1) \<Rightarrow> (Inl e, db1)
                          | (Inr p, db1) \<Rightarrow>
                              (Inr (Pending p), log_event db1 ''login_mfa_required'' (Some (us_id u)) (us_email u) now))
                  else let db1 = log_event (update_last_login db (us_id u) now) ''login''
                                   (Some (us_id u)) (us_email u) now
                       in apfst (map_sum id Authenticated) (issue_session env db1 now (us_id u) raw ip agent))"

section \<open>The second step\<close>

definition dispatch_mfa_verify ::
    "mfa_env \<Rightarrow> auth_db \<Rightarrow> int \<Rightarrow> lookup_result \<Rightarrow> nat \<Rightarrow> string \<Rightarrow> string \<Rightarrow> unit outcome \<times> auth_db" where
  "dispatch_mfa_verify env db now pending i code response =
     (case lookup_active_factor db (lr_user pending) i of
        Inl e \<Rightarrow> (Inl e, db)
      | Inr f \<Rightarrow>
          if fa_type f = webauthn
            then (case lr_challenge pending of
                    None \<Rightarrow> (Inl (bad_request ''no webauthn challenge issued; call /auth/mfa/challenge first''), db)
                  | Some nonce \<Rightarrow>
                      if nonce = []
                        then (Inl (bad_request ''no webauthn challenge issued; call /auth/mfa/challenge first''), db)
                      else verify_webauthn_assertion env db now (lr_user pending) i nonce response)
          else verify_code_for_login env db now (lr_user pending) i code)"

text \<open>
  A wrong code: \<open>event\<close> is what the branch logs before the counter goes up (an unknown factor),
  \<open>after\<close> what it logs when the limit is not reached (a wrong code).
\<close>

definition count_challenge_failure ::
    "auth_db \<Rightarrow> int \<Rightarrow> string \<Rightarrow> lookup_result \<Rightarrow> bool \<Rightarrow> go_error \<times> auth_db" where
  "count_challenge_failure db now pend_hash pending unknown =
     (let fail = (\<lambda>d. log_event d ''mfa_challenge_failed'' (Some (lr_user pending)) (lr_email pending) now);
          db0 = (if unknown then fail db else db)
      in case bump_mfa_challenge_failures db0 now pend_hash of
           Inl e \<Rightarrow> (unauthorized ''invalid code'', db0)
         | Inr (n, db1) \<Rightarrow>
             if mfa_challenge_failure_limit \<le> n
               then (too_many_requests ''too many wrong codes, please restart login'',
                     log_event (delete_pending_mfa db1 pend_hash) ''mfa_challenge_locked''
                       (Some (lr_user pending)) (lr_email pending) now)
             else (unauthorized ''invalid code'', if unknown then db1 else fail db1))"

definition verify_mfa_login ::
    "mfa_env \<Rightarrow> auth_db \<Rightarrow> int \<Rightarrow> string \<Rightarrow> nat \<Rightarrow> string \<Rightarrow> string \<Rightarrow> string \<Rightarrow> string \<Rightarrow> string \<Rightarrow>
      auth_result outcome \<times> auth_db" where
  "verify_mfa_login env db now pending_token i code response raw ip agent =
     (if pending_token = [] then (Inl (unauthorized ''invalid pending token''), db)
      else let pend_hash = me_token_hash env pending_token
           in case lookup_pending_mfa db now pend_hash of
                Inl e \<Rightarrow> (Inl (if is_store_error e StoreNotFound then unauthorized ''invalid pending token''
                               else internal_wrap e ''lookup pending''), db)
              | Inr pending \<Rightarrow>
                  if \<not> lr_active pending
                    then (Inl (unauthorized ''invalid pending token''), delete_pending_mfa db pend_hash)
                  else if mfa_per_user_lockout_threshold
                          \<le> count_failed_mfa_challenges_since db (lr_user pending) (now - mfa_per_user_lockout_window)
                    then (Inl (too_many_requests ''too many failed MFA attempts, please try again later''),
                          log_event (delete_pending_mfa db pend_hash) ''mfa_challenge_locked''
                            (Some (lr_user pending)) (lr_email pending) now)
                  else (case dispatch_mfa_verify env db now pending i code response of
                          (Inl err, db1) \<Rightarrow>
                            if is_sentinel err ErrNotFound
                              then apfst Inl (count_challenge_failure db1 now pend_hash pending True)
                            else if is_sentinel err ErrUnauthorized
                              then apfst Inl (count_challenge_failure db1 now pend_hash pending False)
                            else (Inl err, db1)
                        | (Inr u, db1) \<Rightarrow>
                            (let db2 = log_event (update_last_login (delete_pending_mfa db1 pend_hash)
                                   (lr_user pending) now) ''login'' (Some (lr_user pending)) (lr_email pending) now
                             in issue_session env db2 now (lr_user pending) raw ip agent)))"

definition begin_mfa_challenge ::
    "mfa_env \<Rightarrow> auth_db \<Rightarrow> int \<Rightarrow> string \<Rightarrow> nat \<Rightarrow> string outcome \<times> auth_db" where
  "begin_mfa_challenge env db now pending_token i =
     (if pending_token = [] then (Inl (unauthorized ''invalid pending token''), db)
      else let pend_hash = me_token_hash env pending_token
           in case lookup_pending_mfa db now pend_hash of
                Inl e \<Rightarrow> (Inl (if is_store_error e StoreNotFound then unauthorized ''invalid pending token''
                               else internal_wrap e ''lookup pending''), db)
              | Inr pending \<Rightarrow>
                  if \<not> lr_active pending
                    then (Inl (unauthorized ''invalid pending token''), delete_pending_mfa db pend_hash)
                  else case build_webauthn_request_options env db (lr_user pending) i of
                         Inl e \<Rightarrow> (Inl e, db)
                       | Inr (options, session) \<Rightarrow>
                           (case set_pending_mfa_challenge db pend_hash session of
                              Inl e \<Rightarrow> (Inl (internal_wrap e ''persist challenge''), db)
                            | Inr db1 \<Rightarrow> (Inr options, db1)))"

section \<open>Passwords and sessions\<close>

definition change_password ::
    "mfa_env \<Rightarrow> auth_db \<Rightarrow> int \<Rightarrow> nat \<Rightarrow> string \<Rightarrow> string \<Rightarrow> string \<Rightarrow> string \<Rightarrow> string \<Rightarrow> string \<Rightarrow> string \<Rightarrow>
      auth_result outcome \<times> auth_db" where
  "change_password env db now user current new_password session_hash salt raw ip agent =
     (case find_user_by_id db user of
        Inl e \<Rightarrow> (Inl (classify_store_error e ''user''), db)
      | Inr u \<Rightarrow>
          (let failed = (\<lambda>err. (Inl err, log_event db ''password_change_failed'' (Some user) (us_email u) now))
           in if password_change_lockout_threshold
                 \<le> count_failed_password_changes_since db user (now - password_change_lockout_window)
                then failed (too_many_requests ''too many failed password-change attempts, please try again later'')
              else if \<not> me_password_ok env (us_password u) current
                then failed (unauthorized ''current password is incorrect'')
              else case me_password_hash env salt new_password of
                     None \<Rightarrow> (Inl (internal_error ''failed to hash password''), db)
                   | Some h \<Rightarrow>
                       (let db1 = update_user db (u\<lparr>us_password := h\<rparr>);
                            db2 = (if session_hash \<noteq> []
                                   then delete_session (delete_all_for_user_except db1 user session_hash) session_hash
                                   else delete_all_for_user db1 user);
                            db3 = log_event db2 ''password_change'' (Some user) (us_email u) now
                        in issue_session env db3 now (us_id u) raw ip agent)))"

definition logout :: "auth_db \<Rightarrow> int \<Rightarrow> string \<Rightarrow> nat \<Rightarrow> string \<Rightarrow> unit outcome \<times> auth_db" where
  "logout db now session_hash user email =
     (if session_hash = [] then (Inr (), db)
      else let db1 = delete_session db session_hash
           in if user = 0 then (Inr (), db1)
              else (Inr (), log_event db1 ''logout'' (Some user) email now))"

definition list_sessions :: "auth_db \<Rightarrow> int \<Rightarrow> nat \<Rightarrow> string \<Rightarrow> (session_row \<times> bool) list" where
  "list_sessions db now user current = map (\<lambda>s. (s, ss_id s = current)) (list_for_user db now user)"

definition revoke_session :: "auth_db \<Rightarrow> int \<Rightarrow> nat \<Rightarrow> string \<Rightarrow> string \<Rightarrow> unit outcome \<times> auth_db" where
  "revoke_session db now user id_hash email =
     (case delete_for_user db id_hash user of
        (rows, db1) \<Rightarrow>
          if rows = 0 then (Inl (not_found ''session''), db1)
          else (Inr (), log_event db1 ''session_revoked'' (Some user) email now))"

section \<open>The requests as one transition system\<close>

text \<open>
  \<open>ReplaceUser\<close> stands for the other writers of the user table (deactivation, password reset,
  soft deletion, a new user); \<open>PurgeUser\<close> for the hard deletion.
\<close>

datatype auth_op =
  EnrollTotp nat "string option" string string string string
| EnrollWebauthn nat "string option" string string string string
| ActivateFactor nat nat string string "nat \<Rightarrow> 8 word list \<times> string"
| DeleteFactor nat nat string string
| UpdateLabel nat nat "string option"
| RegenerateCodes nat nat string string "nat \<Rightarrow> 8 word list \<times> string"
| CleanupPending int
| Login string string string string string
| VerifyMfa string nat string string string string string
| BeginChallenge string nat
| ChangePassword nat string string string string string string string
| Logout string nat string
| RevokeSession nat string string
| CleanupSessions
| ReplaceUser "user_row list"
| PurgeUser nat

fun run_auth :: "mfa_env \<Rightarrow> int \<Rightarrow> auth_op \<Rightarrow> auth_db \<Rightarrow> auth_db" where
  "run_auth env now (EnrollTotp u l p c s n) db = snd (enroll_totp env db now u l p c s n)"
| "run_auth env now (EnrollWebauthn u l p c a d) db = snd (enroll_webauthn env db now u l p c a d)"
| "run_auth env now (ActivateFactor u i c r draw) db = snd (activate_factor_op env db now u i c r draw)"
| "run_auth env now (DeleteFactor u i p c) db = snd (delete_factor_op env db now u i p c)"
| "run_auth env now (UpdateLabel u i l) db = snd (update_label db u i l)"
| "run_auth env now (RegenerateCodes u i p c draw) db = snd (regenerate_backup_codes env db now u i p c draw)"
| "run_auth env now (CleanupPending age) db = cleanup_abandoned_pending db now age"
| "run_auth env now (Login e p raw ip ag) db = snd (login env db now e p raw ip ag)"
| "run_auth env now (VerifyMfa t i c r raw ip ag) db = snd (verify_mfa_login env db now t i c r raw ip ag)"
| "run_auth env now (BeginChallenge t i) db = snd (begin_mfa_challenge env db now t i)"
| "run_auth env now (ChangePassword u c n s salt raw ip ag) db =
     snd (change_password env db now u c n s salt raw ip ag)"
| "run_auth env now (Logout s u e) db = snd (logout db now s u e)"
| "run_auth env now (RevokeSession u s e) db = snd (revoke_session db now u s e)"
| "run_auth env now CleanupSessions db = cleanup_expired db now"
| "run_auth env now (ReplaceUser us) db = db\<lparr>db_users := us\<rparr>"
| "run_auth env now (PurgeUser u) db = hard_delete_user db u"

definition empty_auth_db :: auth_db where
  "empty_auth_db = \<lparr>db_factors = [], db_next_factor = 1, db_secrets = [], db_codes = [],
     db_next_code = 1, db_credentials = [], db_sessions = [], db_users = [], db_audit = []\<rparr>"

inductive auth_reachable :: "mfa_env \<Rightarrow> auth_db \<Rightarrow> bool" for env where
  start: "auth_reachable env empty_auth_db"
| step: "auth_reachable env db \<Longrightarrow> auth_reachable env (run_auth env now op db)"

end
