(* ===== verification/AccountStore.thy ===== *)
theory AccountStore
  imports ContractStore Login Strconv
begin

text \<open>
  The tables behind accounts: users (with the tables of \<open>MfaStore\<close>), organizations, memberships
  and sections, and the queries of \<open>internal/store/user.go\<close>, \<open>user_organization.go\<close>,
  \<open>organization.go\<close> and \<open>section.go\<close>. Soft deletion leaves a row as a tombstone that queries
  starting from its model do not see. The unique indexes are those of the migrations 000015,
  000019 and 000020. \<open>lower\<close> is PostgreSQL's. Failures of the driver are not modelled.
\<close>

section \<open>Rows\<close>

record org_row =
  og_id :: nat
  og_name :: string
  og_active :: bool
  og_state :: string
  og_created_by :: string
  og_deleted :: bool

record member_row =
  mb_user :: nat
  mb_org :: nat
  mb_role :: string
  mb_created_by :: string

record section_row =
  sc_id :: nat
  sc_org :: nat
  sc_name :: string
  sc_default :: bool
  sc_min_age :: "int option"
  sc_max_age :: "int option"
  sc_created_by :: string
  sc_deleted :: bool

text \<open>Of the contract tables, the rows that sections are asked about.\<close>

record account_db =
  ac_auth :: auth_db
  ac_next_user :: nat
  ac_orgs :: "org_row list"
  ac_next_org :: nat
  ac_members :: "member_row list"
  ac_sections :: "section_row list"
  ac_next_section :: nat
  ac_child_rows :: "base_contract list"
  ac_employee_rows :: "base_contract list"

abbreviation role_admin :: string where "role_admin \<equiv> ''admin''"
abbreviation role_manager :: string where "role_manager \<equiv> ''manager''"
abbreviation role_member :: string where "role_member \<equiv> ''member''"
abbreviation role_staff :: string where "role_staff \<equiv> ''staff''"

section \<open>Users\<close>

definition account_user :: "account_db \<Rightarrow> nat \<Rightarrow> user_row outcome" where
  "account_user db i = find_user_by_id (ac_auth db) i"

definition find_user_unscoped :: "account_db \<Rightarrow> nat \<Rightarrow> user_row outcome" where
  "find_user_unscoped db i =
     (case find (\<lambda>u. us_id u = i) (db_users (ac_auth db)) of
        None \<Rightarrow> Inl (StoreError StoreNotFound) | Some u \<Rightarrow> Inr u)"

definition email_exists_for_other_user :: "(string \<Rightarrow> string) \<Rightarrow> account_db \<Rightarrow> string \<Rightarrow> nat \<Rightarrow> bool" where
  "email_exists_for_other_user lower db email i =
     list_ex (\<lambda>u. lower (us_email u) = lower email \<and> us_id u \<noteq> i \<and> \<not> us_deleted u) (db_users (ac_auth db))"

text \<open>
  \<open>Create\<close> under the index on \<open>lower(email)\<close> of live users. GORM leaves a zero value out of the
  statement when its column has a default, so \<open>active\<close> (\<open>default:true\<close>) comes out true
  whatever the struct says, and is read back.
\<close>

definition with_default_true :: "bool \<Rightarrow> bool" where
  "with_default_true b = (if b then b else True)"

definition insert_user :: "(string \<Rightarrow> string) \<Rightarrow> account_db \<Rightarrow> user_row \<Rightarrow> (user_row \<times> account_db) outcome" where
  "insert_user lower db u =
     (if list_ex (\<lambda>r. lower (us_email r) = lower (us_email u) \<and> \<not> us_deleted r) (db_users (ac_auth db))
      then Inl (PgError ''23505'')
      else let u' = u\<lparr>us_id := ac_next_user db, us_active := with_default_true (us_active u)\<rparr>
           in Inr (u', db\<lparr>ac_auth := (ac_auth db)\<lparr>db_users := db_users (ac_auth db) @ [u']\<rparr>,
                          ac_next_user := Suc (ac_next_user db)\<rparr>))"

definition save_user :: "(string \<Rightarrow> string) \<Rightarrow> account_db \<Rightarrow> user_row \<Rightarrow> account_db outcome" where
  "save_user lower db u =
     (if email_exists_for_other_user lower db (us_email u) (us_id u) \<and> \<not> us_deleted u
      then Inl (PgError ''23505'')
      else Inr (db\<lparr>ac_auth := update_user (ac_auth db) u\<rparr>))"

definition soft_delete_user :: "account_db \<Rightarrow> nat \<Rightarrow> account_db" where
  "soft_delete_user db i =
     db\<lparr>ac_auth := (ac_auth db)\<lparr>db_users :=
          map (\<lambda>u. if us_id u = i then u\<lparr>us_deleted := True\<rparr> else u) (db_users (ac_auth db))\<rparr>\<rparr>"

text \<open>The foreign keys cascade to factors, sessions and memberships.\<close>

definition purge_user :: "account_db \<Rightarrow> nat \<Rightarrow> account_db" where
  "purge_user db i =
     db\<lparr>ac_auth := hard_delete_user (ac_auth db) i,
        ac_members := filter (\<lambda>m. mb_user m \<noteq> i) (ac_members db)\<rparr>"

definition live_org :: "account_db \<Rightarrow> nat \<Rightarrow> bool" where
  "live_org db i = list_ex (\<lambda>g. og_id g = i \<and> \<not> og_deleted g) (ac_orgs db)"

definition live_user :: "account_db \<Rightarrow> nat \<Rightarrow> bool" where
  "live_user db i = list_ex (\<lambda>u. us_id u = i \<and> \<not> us_deleted u) (db_users (ac_auth db))"

text \<open>A membership of each in the same live organization, both users live.\<close>

definition shares_organization :: "account_db \<Rightarrow> nat \<Rightarrow> nat \<Rightarrow> bool" where
  "shares_organization db i j =
     list_ex (\<lambda>m. mb_user m = i \<and> list_ex (\<lambda>n. mb_user n = j \<and> mb_org n = mb_org m) (ac_members db)
       \<and> live_user db i \<and> live_user db j \<and> live_org db (mb_org m)) (ac_members db)"

definition is_admin_in_shared_org :: "account_db \<Rightarrow> nat \<Rightarrow> nat \<Rightarrow> bool" where
  "is_admin_in_shared_org db requester target =
     list_ex (\<lambda>m. mb_user m = requester \<and> mb_role m = role_admin \<and>
         list_ex (\<lambda>n. mb_user n = target \<and> mb_org n = mb_org m) (ac_members db)
       \<and> live_user db requester \<and> live_user db target \<and> live_org db (mb_org m)) (ac_members db)"

section \<open>Memberships\<close>

definition find_by_user_and_org :: "account_db \<Rightarrow> nat \<Rightarrow> nat \<Rightarrow> member_row outcome" where
  "find_by_user_and_org db i org =
     (case find (\<lambda>m. mb_user m = i \<and> mb_org m = org) (ac_members db) of
        None \<Rightarrow> Inl (StoreError StoreNotFound) | Some m \<Rightarrow> Inr m)"

definition find_by_user :: "account_db \<Rightarrow> nat \<Rightarrow> member_row list" where
  "find_by_user db i = filter (\<lambda>m. mb_user m = i) (ac_members db)"

definition get_role_in_org :: "account_db \<Rightarrow> nat \<Rightarrow> nat \<Rightarrow> string" where
  "get_role_in_org db i org =
     (case find (\<lambda>m. mb_user m = i \<and> mb_org m = org) (ac_members db) of None \<Rightarrow> [] | Some m \<Rightarrow> mb_role m)"

definition is_super_admin :: "account_db \<Rightarrow> nat \<Rightarrow> bool" where
  "is_super_admin db i = (case account_user db i of Inl e \<Rightarrow> False | Inr u \<Rightarrow> us_superadmin u)"

definition count_usable_super_admins_excluding :: "account_db \<Rightarrow> nat \<Rightarrow> int" where
  "count_usable_super_admins_excluding db i =
     int (length (filter (\<lambda>u. us_superadmin u \<and> us_active u \<and> us_id u \<noteq> i \<and> \<not> us_deleted u) (db_users (ac_auth db))))"

definition store_super_admin :: "account_db \<Rightarrow> nat \<Rightarrow> bool \<Rightarrow> account_db outcome" where
  "store_super_admin db i flag =
     (if live_user db i
      then Inr (db\<lparr>ac_auth := (ac_auth db)\<lparr>db_users :=
             map (\<lambda>u. if us_id u = i \<and> \<not> us_deleted u then u\<lparr>us_superadmin := flag\<rparr> else u) (db_users (ac_auth db))\<rparr>\<rparr>)
      else Inl (StoreError StoreNotFound))"

definition membership_exists :: "account_db \<Rightarrow> nat \<Rightarrow> nat \<Rightarrow> bool" where
  "membership_exists db i org = list_ex (\<lambda>m. mb_user m = i \<and> mb_org m = org) (ac_members db)"

text \<open>The primary key is the pair; both sides are foreign keys, tombstones included.\<close>

definition add_user_to_org :: "account_db \<Rightarrow> nat \<Rightarrow> nat \<Rightarrow> string \<Rightarrow> string \<Rightarrow> (member_row \<times> account_db) outcome" where
  "add_user_to_org db i org role by_whom =
     (if membership_exists db i org then Inl (PgError ''23505'')
      else if \<not> list_ex (\<lambda>g. og_id g = org) (ac_orgs db) \<or> \<not> list_ex (\<lambda>u. us_id u = i) (db_users (ac_auth db))
      then Inl (PgError ''23503'')
      else let m = \<lparr>mb_user = i, mb_org = org, mb_role = role, mb_created_by = by_whom\<rparr>
           in Inr (m, db\<lparr>ac_members := ac_members db @ [m]\<rparr>))"

definition update_role :: "account_db \<Rightarrow> nat \<Rightarrow> nat \<Rightarrow> string \<Rightarrow> account_db outcome" where
  "update_role db i org role =
     (if membership_exists db i org
      then Inr (db\<lparr>ac_members :=
             map (\<lambda>m. if mb_user m = i \<and> mb_org m = org then m\<lparr>mb_role := role\<rparr> else m) (ac_members db)\<rparr>)
      else Inl (StoreError StoreNotFound))"

definition remove_user_from_org :: "account_db \<Rightarrow> nat \<Rightarrow> nat \<Rightarrow> account_db" where
  "remove_user_from_org db i org =
     db\<lparr>ac_members := filter (\<lambda>m. \<not> (mb_user m = i \<and> mb_org m = org)) (ac_members db)\<rparr>"

end
