(* ===== verification/Rbac.thy ===== *)
theory Rbac
  imports AccountStore
begin

text \<open>
  Authorization (\<open>internal/rbac\<close>, \<open>internal/middleware/authorization.go\<close>): the seeded policies, the
  matcher of \<open>configs/rbac_model.conf\<close>, the permission service and the three middlewares in
  front of the routes. Superadmins are a column of the user table, not a role; a middleware
  answers with a status, an error code and a message, or lets the request pass.
\<close>

section \<open>Policies\<close>

type_synonym policy = "string \<times> string \<times> string \<times> string"

definition grants :: "string \<Rightarrow> string \<Rightarrow> string list \<Rightarrow> policy list" where
  "grants role resource actions = map (\<lambda>a. (role, ''*'', resource, a)) actions"

definition admin_policies :: "policy list" where
  "admin_policies = concat [
     grants role_admin ''organizations'' [''read'', ''update''],
     grants role_admin ''employees'' [''create'', ''read'', ''update'', ''delete''],
     grants role_admin ''children'' [''create'', ''read'', ''update'', ''delete''],
     grants role_admin ''employee_contracts'' [''create'', ''read'', ''update'', ''delete''],
     grants role_admin ''child_contracts'' [''create'', ''read'', ''update'', ''delete''],
     grants role_admin ''users'' [''create'', ''read'', ''update'', ''delete'', ''reset_password''],
     grants role_admin ''sections'' [''create'', ''read'', ''update'', ''delete''],
     grants role_admin ''payplans'' [''create'', ''read'', ''update'', ''delete''],
     grants role_admin ''child_attendance'' [''create'', ''read'', ''update'', ''delete''],
     grants role_admin ''budget_items'' [''create'', ''read'', ''update'', ''delete''],
     grants role_admin ''budget_item_entries'' [''create'', ''read'', ''update'', ''delete''],
     grants role_admin ''government_funding_bills'' [''create'', ''read'', ''delete''],
     grants role_admin ''fundings'' [''read''],
     grants role_admin ''statistics'' [''read''],
     grants role_admin ''audit_log'' [''read'']]"

definition manager_policies :: "policy list" where
  "manager_policies = concat [
     grants role_manager ''organizations'' [''read''],
     grants role_manager ''employees'' [''create'', ''read'', ''update'', ''delete''],
     grants role_manager ''children'' [''create'', ''read'', ''update'', ''delete''],
     grants role_manager ''employee_contracts'' [''create'', ''read'', ''update'', ''delete''],
     grants role_manager ''child_contracts'' [''create'', ''read'', ''update'', ''delete''],
     grants role_manager ''users'' [''read''],
     grants role_manager ''sections'' [''read''],
     grants role_manager ''payplans'' [''read''],
     grants role_manager ''child_attendance'' [''create'', ''read'', ''update'', ''delete''],
     grants role_manager ''budget_items'' [''create'', ''read'', ''update'', ''delete''],
     grants role_manager ''budget_item_entries'' [''create'', ''read'', ''update'', ''delete''],
     grants role_manager ''government_funding_bills'' [''create'', ''read'', ''delete''],
     grants role_manager ''fundings'' [''read''],
     grants role_manager ''statistics'' [''read'']]"

definition member_policies :: "policy list" where
  "member_policies = concat [
     grants role_member ''organizations'' [''read''],
     grants role_member ''employees'' [''read''],
     grants role_member ''children'' [''read''],
     grants role_member ''employee_contracts'' [''read''],
     grants role_member ''child_contracts'' [''read''],
     grants role_member ''sections'' [''read''],
     grants role_member ''payplans'' [''read''],
     grants role_member ''child_attendance'' [''read''],
     grants role_member ''budget_items'' [''read''],
     grants role_member ''budget_item_entries'' [''read''],
     grants role_member ''statistics'' [''read'']]"

definition staff_policies :: "policy list" where
  "staff_policies = concat [
     grants role_staff ''organizations'' [''read''],
     grants role_staff ''children'' [''read''],
     grants role_staff ''child_contracts'' [''read''],
     grants role_staff ''child_attendance'' [''create'', ''read'', ''update'', ''delete''],
     grants role_staff ''sections'' [''read'']]"

definition default_policies :: "policy list" where
  "default_policies = admin_policies @ manager_policies @ member_policies @ staff_policies"

text \<open>
  The matcher: no grouping policies are issued, so \<open>g\<close> holds between a subject and itself only;
  a request is allowed if some policy matches.
\<close>

definition enforce :: "policy list \<Rightarrow> string \<Rightarrow> string \<Rightarrow> string \<Rightarrow> string \<Rightarrow> bool" where
  "enforce ps sub domain obj act =
     list_ex (\<lambda>(s, d, ob, a). s = sub \<and> (d = domain \<or> d = ''*'') \<and> ob = obj \<and> a = act) ps"

section \<open>Permission service\<close>

definition check_permission :: "policy list \<Rightarrow> account_db \<Rightarrow> nat \<Rightarrow> nat \<Rightarrow> string \<Rightarrow> string \<Rightarrow> bool" where
  "check_permission ps db user org resource action =
     (if is_super_admin db user then True
      else let role = get_role_in_org db user org
           in if role = [] then False else enforce ps role ''*'' resource action)"

definition has_permission_in_any_org :: "policy list \<Rightarrow> account_db \<Rightarrow> nat \<Rightarrow> string \<Rightarrow> string \<Rightarrow> bool" where
  "has_permission_in_any_org ps db user resource action =
     (if is_super_admin db user then True
      else list_ex (\<lambda>m. enforce ps (mb_role m) ''*'' resource action) (find_by_user db user))"

definition has_any_role_in_org :: "account_db \<Rightarrow> nat \<Rightarrow> nat \<Rightarrow> bool" where
  "has_any_role_in_org db user org = (get_role_in_org db user org \<noteq> [])"

definition has_any_role :: "account_db \<Rightarrow> nat \<Rightarrow> bool" where
  "has_any_role db user = (is_super_admin db user \<or> find_by_user db user \<noteq> [])"

section \<open>Middleware\<close>

type_synonym problem = "int \<times> string \<times> string"

text \<open>The user of the session, if there is one, and the path parameter \<open>orgId\<close>.\<close>

definition require_permission ::
    "policy list \<Rightarrow> account_db \<Rightarrow> string \<Rightarrow> string \<Rightarrow> nat option \<Rightarrow> string \<Rightarrow> problem + nat" where
  "require_permission ps db resource action user org_param =
     (case user of
        None \<Rightarrow> Inl (401, ''unauthorized'', ''unauthorized'')
      | Some u \<Rightarrow>
          if org_param = [] then Inl (403, ''forbidden'', ''organization context required'')
          else case parse_uint32 org_param of
                 None \<Rightarrow> Inl (400, ''bad_request'', ''invalid organization id'')
               | Some org \<Rightarrow>
                   if \<not> is_super_admin db u \<and> \<not> check_permission ps db u org resource action
                   then Inl (403, ''forbidden'', ''forbidden'')
                   else if \<not> live_org db org then Inl (404, ''not_found'', ''organization not found'')
                   else Inr org)"

definition require_super_admin :: "account_db \<Rightarrow> nat option \<Rightarrow> problem + nat" where
  "require_super_admin db user =
     (case user of
        None \<Rightarrow> Inl (401, ''unauthorized'', ''unauthorized'')
      | Some u \<Rightarrow> if is_super_admin db u then Inr u
                  else Inl (403, ''forbidden'', ''superadmin access required''))"

definition require_global_permission ::
    "policy list \<Rightarrow> account_db \<Rightarrow> string \<Rightarrow> string \<Rightarrow> nat option \<Rightarrow> problem + nat" where
  "require_global_permission ps db resource action user =
     (case user of
        None \<Rightarrow> Inl (401, ''unauthorized'', ''unauthorized'')
      | Some u \<Rightarrow> if has_permission_in_any_org ps db u resource action then Inr u
                  else Inl (403, ''forbidden'', ''forbidden''))"

end
