(* ===== verification/Users.thy ===== *)
theory Users
  imports Rbac
begin

text \<open>
  The services of accounts: \<open>internal/service/user.go\<close> and \<open>user_organization.go\<close>, with the
  handlers of \<open>internal/handlers/user.go\<close> where they do more than decode: the default role, the
  step-up before a superadmin change and the sessions revoked after a password reset. Audit
  records are kept where a lockout counts them. \<open>env\<close> is the environment of \<open>Mfa\<close>.
\<close>

section \<open>Rules\<close>

definition valid_role :: "string \<Rightarrow> bool" where
  "valid_role r = (r \<in> {role_admin, role_manager, role_member, role_staff})"

definition precedence :: "string \<Rightarrow> int" where
  "precedence r =
     (if r = role_admin then 3 else if r = role_manager then 2 else if r = role_member then 1 else 0)"

text \<open>\<open>ToResponse\<close> leaves the password out.\<close>

definition user_response :: "user_row \<Rightarrow> user_row" where
  "user_response u = u\<lparr>us_password := []\<rparr>"

definition target_is_protected_super_admin :: "account_db \<Rightarrow> nat \<Rightarrow> nat \<Rightarrow> bool" where
  "target_is_protected_super_admin db requester target =
     (if requester = target then False
      else if \<not> is_super_admin db target then False
      else \<not> is_super_admin db requester)"

definition removing_would_orphan_super_admins :: "account_db \<Rightarrow> nat \<Rightarrow> bool" where
  "removing_would_orphan_super_admins db target = (count_usable_super_admins_excluding db target = 0)"

definition verify_requester_can_modify_user :: "account_db \<Rightarrow> nat \<Rightarrow> nat \<Rightarrow> unit outcome" where
  "verify_requester_can_modify_user db requester target =
     (if requester = target then Inr ()
      else if is_super_admin db requester then Inr ()
      else ensureE (is_admin_in_shared_org db requester target) (not_found ''user''))"

definition verify_requester_can_access_user :: "account_db \<Rightarrow> nat \<Rightarrow> nat \<Rightarrow> unit outcome" where
  "verify_requester_can_access_user db requester target =
     (if requester = target then Inr ()
      else if is_super_admin db requester then Inr ()
      else ensureE (shares_organization db requester target) (not_found ''user''))"

definition validate_required_name :: "string \<Rightarrow> string outcome" where
  "validate_required_name name =
     (let n = trim_space name
      in if trim_space n = [] then Inl (bad_request ''name cannot be empty or whitespace only'') else Inr n)"

section \<open>Users\<close>

record user_create_request =
  uc_name :: string
  uc_email :: string
  uc_password :: string
  uc_active :: bool

record user_update_request =
  uu_name :: string
  uu_email :: string
  uu_active :: "bool option"

definition get_user :: "account_db \<Rightarrow> nat \<Rightarrow> nat \<Rightarrow> user_row outcome" where
  "get_user db i requester =
     (case account_user db i of
        Inl e \<Rightarrow> Inl (classify_store_error e ''user'')
      | Inr u \<Rightarrow> (case verify_requester_can_access_user db requester i of
                    Inl e \<Rightarrow> Inl (not_found ''user'') | Inr _ \<Rightarrow> Inr (user_response u)))"

definition create_user :: "mfa_env \<Rightarrow> account_db \<Rightarrow> user_create_request \<Rightarrow> string \<Rightarrow> string \<Rightarrow> user_row outcome \<times> account_db" where
  "create_user env db req salt created_by =
     (case validate_required_name (uc_name req) of
        Inl e \<Rightarrow> (Inl e, db)
      | Inr name \<Rightarrow>
          (case me_password_hash env salt (uc_password req) of
             None \<Rightarrow> (Inl (internal_error ''failed to hash password''), db)
           | Some h \<Rightarrow>
               (case insert_user (me_sql_lower env) db
                       \<lparr>us_id = 0, us_name = name, us_email = canonical_email env (uc_email req), us_password = h,
                        us_active = uc_active req, us_superadmin = False, us_created_by = created_by,
                        us_deleted = False, us_last_login = None\<rparr> of
                  Inl e \<Rightarrow> (Inl (if is_duplicate_key_error e then email_conflict
                                else internal_wrap e ''failed to create user''), db)
                | Inr (u, db') \<Rightarrow> (Inr (user_response u), db'))))"

definition update_account ::
    "mfa_env \<Rightarrow> account_db \<Rightarrow> nat \<Rightarrow> user_update_request \<Rightarrow> nat \<Rightarrow> user_row outcome \<times> account_db" where
  "update_account env db i req requester =
     (case verify_requester_can_modify_user db requester i of
        Inl e \<Rightarrow> (Inl (not_found ''user''), db)
      | Inr _ \<Rightarrow>
          if target_is_protected_super_admin db requester i
          then (Inl (forbidden ''only superadmins can modify a superadmin''), db)
          else case account_user db i of
            Inl e \<Rightarrow> (Inl (classify_store_error e ''user''), db)
          | Inr u \<Rightarrow>
              (let name = trim_space (uu_name req);
                   email = canonical_email env (uu_email req);
                   u1 = (if name \<noteq> [] then u\<lparr>us_name := name\<rparr> else u);
                   deactivating = (uu_active req = Some False \<and> us_active u)
               in if email \<noteq> [] \<and> email_exists_for_other_user (me_sql_lower env) db email i
                  then (Inl email_conflict, db)
                  else
                    (let u2 = (if email \<noteq> [] then u1\<lparr>us_email := email\<rparr> else u1)
                     in if deactivating \<and> us_superadmin u2 \<and> removing_would_orphan_super_admins db i
                        then (Inl (bad_request ''cannot deactivate the last superadmin''), db)
                        else
                          (let u3 = (case uu_active req of None \<Rightarrow> u2 | Some b \<Rightarrow> u2\<lparr>us_active := b\<rparr>)
                           in case save_user (me_sql_lower env) db u3 of
                                Inl e \<Rightarrow> (Inl (internal_wrap e ''failed to update user''), db)
                              | Inr db1 \<Rightarrow>
                                  (Inr (user_response u3),
                                   if deactivating then db1\<lparr>ac_auth := delete_all_for_user (ac_auth db1) i\<rparr> else db1)))))"

definition verify_actor_password :: "mfa_env \<Rightarrow> account_db \<Rightarrow> nat \<Rightarrow> string \<Rightarrow> unit outcome" where
  "verify_actor_password env db actor_id password =
     (if password = [] then Inl (bad_request ''actor_password is required'')
      else case account_user db actor_id of
             Inl e \<Rightarrow> Inl (classify_store_error e ''requester'')
           | Inr a \<Rightarrow> ensureE (me_password_ok env (us_password a) password) (unauthorized ''actor password is incorrect''))"

definition password_reset_lockout_threshold :: int where
  "password_reset_lockout_threshold = 5"

definition password_reset_lockout_window :: int where
  "password_reset_lockout_window = 15 * 60 * 1000000000"

definition log_account :: "account_db \<Rightarrow> string \<Rightarrow> nat \<Rightarrow> string \<Rightarrow> int \<Rightarrow> account_db" where
  "log_account db action user email now = db\<lparr>ac_auth := log_event (ac_auth db) action (Some user) email now\<rparr>"

definition reset_password ::
    "mfa_env \<Rightarrow> account_db \<Rightarrow> int \<Rightarrow> nat \<Rightarrow> string \<Rightarrow> string \<Rightarrow> string \<Rightarrow> nat \<Rightarrow> unit outcome \<times> account_db" where
  "reset_password env db now i new_password salt actor_password requester =
     (if requester = i then (Inl (bad_request ''use /me/password to change your own password''), db)
      else case account_user db i of
        Inl e \<Rightarrow> (Inl (classify_store_error e ''user''), db)
      | Inr u \<Rightarrow>
      (case account_user db requester of
        Inl e \<Rightarrow> (Inl (classify_store_error e ''requester''), db)
      | Inr a \<Rightarrow>
          (let failed = (\<lambda>err. (Inl err, log_account db ''password_reset_failed'' requester (us_email a) now))
           in if password_reset_lockout_threshold
                 \<le> count_by_user_since ''password_reset_failed'' (ac_auth db) requester (now - password_reset_lockout_window)
              then failed (too_many_requests ''too many failed attempts, please try again later'')
              else case verify_actor_password env db requester actor_password of
                     Inl e \<Rightarrow> if is_sentinel e ErrUnauthorized then failed e else (Inl e, db)
                   | Inr _ \<Rightarrow>
                       if target_is_protected_super_admin db requester i
                       then (Inl (forbidden (''only superadmins can reset a superadmin'' @ [CHR 0x27] @ ''s password'')), db)
                       else case verify_requester_can_modify_user db requester i of
                              Inl e \<Rightarrow> (Inl (not_found ''user''), db)
                            | Inr _ \<Rightarrow>
                                (case me_password_hash env salt new_password of
                                   None \<Rightarrow> (Inl (internal_error ''failed to hash password''), db)
                                 | Some h \<Rightarrow>
                                     (case save_user (me_sql_lower env) db (u\<lparr>us_password := h\<rparr>) of
                                        Inl e \<Rightarrow> (Inl (internal_wrap e ''failed to update password''), db)
                                      | Inr db1 \<Rightarrow> (Inr (), db1))))))"

text \<open>The handler revokes the sessions of the target.\<close>

definition reset_password_request ::
    "mfa_env \<Rightarrow> account_db \<Rightarrow> int \<Rightarrow> nat \<Rightarrow> string \<Rightarrow> string \<Rightarrow> string \<Rightarrow> nat \<Rightarrow> unit outcome \<times> account_db" where
  "reset_password_request env db now i new_password salt actor_password requester =
     (case reset_password env db now i new_password salt actor_password requester of
        (Inl e, db1) \<Rightarrow> (Inl e, db1)
      | (Inr _, db1) \<Rightarrow> (Inr (), db1\<lparr>ac_auth := delete_all_for_user (ac_auth db1) i\<rparr>))"

definition delete_account :: "account_db \<Rightarrow> nat \<Rightarrow> nat \<Rightarrow> unit outcome \<times> account_db" where
  "delete_account db i requester =
     (if i = requester then (Inl (bad_request ''cannot delete your own account''), db)
      else case verify_requester_can_modify_user db requester i of
        Inl e \<Rightarrow> (Inl (not_found ''user''), db)
      | Inr _ \<Rightarrow>
          if target_is_protected_super_admin db requester i
          then (Inl (forbidden ''only superadmins can delete a superadmin''), db)
          else case account_user db i of
            Inl e \<Rightarrow> (Inl (classify_store_error e ''user''), db)
          | Inr u \<Rightarrow>
              if us_superadmin u \<and> removing_would_orphan_super_admins db i
              then (Inl (bad_request ''cannot delete the last superadmin''), db)
              else (let db1 = soft_delete_user db i
                    in (Inr (), db1\<lparr>ac_auth := delete_all_for_user (ac_auth db1) i\<rparr>)))"

definition hard_delete_account :: "account_db \<Rightarrow> nat \<Rightarrow> nat \<Rightarrow> unit outcome \<times> account_db" where
  "hard_delete_account db i requester =
     (if i = requester then (Inl (bad_request ''cannot purge your own account''), db)
      else case verify_requester_can_modify_user db requester i of
        Inl e \<Rightarrow> (Inl (not_found ''user''), db)
      | Inr _ \<Rightarrow>
          (case find_user_unscoped db i of
             Inl e \<Rightarrow> (Inl (classify_store_error e ''user''), db)
           | Inr u \<Rightarrow>
               if us_superadmin u \<and> removing_would_orphan_super_admins db i
               then (Inl (bad_request ''cannot purge the last superadmin''), db)
               else (Inr (), purge_user db i)))"

definition get_user_including_tombstoned :: "account_db \<Rightarrow> nat \<Rightarrow> nat \<Rightarrow> user_row outcome" where
  "get_user_including_tombstoned db i requester =
     (case verify_requester_can_access_user db requester i of
        Inl e \<Rightarrow> if \<not> is_super_admin db requester then Inl e
                 else map_sum (\<lambda>e. classify_store_error e ''user'') user_response (find_user_unscoped db i)
      | Inr _ \<Rightarrow> map_sum (\<lambda>e. classify_store_error e ''user'') user_response (find_user_unscoped db i))"

section \<open>Memberships\<close>

definition verify_requester_org_access :: "account_db \<Rightarrow> nat \<Rightarrow> nat \<Rightarrow> unit outcome" where
  "verify_requester_org_access db requester org =
     (if is_super_admin db requester then Inr ()
      else ensureE (get_role_in_org db requester org = role_admin)
             (forbidden ''insufficient permissions for this organization''))"

definition add_user_to_organization ::
    "account_db \<Rightarrow> nat \<Rightarrow> nat \<Rightarrow> string \<Rightarrow> string \<Rightarrow> nat \<Rightarrow> member_row outcome \<times> account_db" where
  "add_user_to_organization db i org role by_whom requester =
     (if \<not> valid_role role then (Inl (bad_request ''invalid role: must be admin, manager, or member''), db)
      else case account_user db i of
        Inl e \<Rightarrow> (Inl (classify_store_error e ''user''), db)
      | Inr u \<Rightarrow>
          (case verify_requester_org_access db requester org of
             Inl e \<Rightarrow> (Inl e, db)
           | Inr _ \<Rightarrow>
               if membership_exists db i org
               then (Inl (bad_request ''user is already a member of this organization''), db)
               else case add_user_to_org db i org role by_whom of
                      Inl e \<Rightarrow> (Inl (internal_wrap e ''failed to add user to organization''), db)
                    | Inr (m, db') \<Rightarrow> (Inr m, db')))"

text \<open>The handler fills in the role.\<close>

definition add_to_organization_request ::
    "account_db \<Rightarrow> nat \<Rightarrow> nat \<Rightarrow> string \<Rightarrow> string \<Rightarrow> nat \<Rightarrow> member_row outcome \<times> account_db" where
  "add_to_organization_request db i org role by_whom requester =
     add_user_to_organization db i org (if role = [] then role_member else role) by_whom requester"

definition update_user_organization_role ::
    "account_db \<Rightarrow> nat \<Rightarrow> nat \<Rightarrow> string \<Rightarrow> nat \<Rightarrow> member_row outcome \<times> account_db" where
  "update_user_organization_role db i org role requester =
     (if \<not> valid_role role then (Inl (bad_request ''invalid role: must be admin, manager, or member''), db)
      else case find_by_user_and_org db i org of
        Inl e \<Rightarrow> (Inl (classify_store_error e ''user-organization membership''), db)
      | Inr m \<Rightarrow>
          (case verify_requester_org_access db requester org of
             Inl e \<Rightarrow> (Inl e, db)
           | Inr _ \<Rightarrow>
               (case update_role db i org role of
                  Inl e \<Rightarrow> (Inl (internal_wrap e ''failed to update role''), db)
                | Inr db' \<Rightarrow> (Inr (m\<lparr>mb_role := role\<rparr>), db'))))"

definition remove_user_from_organization :: "account_db \<Rightarrow> nat \<Rightarrow> nat \<Rightarrow> nat \<Rightarrow> unit outcome \<times> account_db" where
  "remove_user_from_organization db i org requester =
     (case verify_requester_org_access db requester org of
        Inl e \<Rightarrow> (Inl e, db)
      | Inr _ \<Rightarrow>
          (case account_user db i of
             Inl e \<Rightarrow> (Inl (classify_store_error e ''user''), db)
           | Inr u \<Rightarrow>
               if \<not> membership_exists db i org then (Inl (not_found ''user-organization membership''), db)
               else (Inr (), remove_user_from_org db i org)))"

definition filter_memberships_for_requester ::
    "account_db \<Rightarrow> member_row list \<Rightarrow> nat \<Rightarrow> nat \<Rightarrow> member_row list outcome" where
  "filter_memberships_for_requester db ms target requester =
     (if requester = target \<or> is_super_admin db requester then Inr ms
      else let own = map mb_org (find_by_user db requester);
               ms' = filter (\<lambda>m. mb_org m \<in> set own) ms
           in if ms' = [] then Inl (not_found ''user'') else Inr ms')"

definition get_user_memberships :: "account_db \<Rightarrow> nat \<Rightarrow> nat \<Rightarrow> member_row list outcome" where
  "get_user_memberships db target requester =
     (case account_user db target of
        Inl e \<Rightarrow> Inl (classify_store_error e ''user'')
      | Inr _ \<Rightarrow> filter_memberships_for_requester db (find_by_user db target) target requester)"

definition list_membership_org_ids :: "account_db \<Rightarrow> nat \<Rightarrow> nat list" where
  "list_membership_org_ids db target = map mb_org (find_by_user db target)"

definition set_super_admin :: "account_db \<Rightarrow> nat \<Rightarrow> bool \<Rightarrow> unit outcome \<times> account_db" where
  "set_super_admin db i flag =
     (case account_user db i of
        Inl e \<Rightarrow> (Inl (classify_store_error e ''user''), db)
      | Inr u \<Rightarrow>
          if \<not> flag \<and> us_superadmin u \<and> count_usable_super_admins_excluding db i = 0
          then (Inl (bad_request ''cannot demote the last superadmin''), db)
          else case store_super_admin db i flag of
                 Inl e \<Rightarrow> (Inl (internal_wrap e ''failed to update superadmin status''), db)
               | Inr db' \<Rightarrow> (Inr (), db'))"

text \<open>The handler: the target must be visible, and the actor proves its password.\<close>

definition set_super_admin_request ::
    "mfa_env \<Rightarrow> account_db \<Rightarrow> nat \<Rightarrow> bool \<Rightarrow> string \<Rightarrow> nat \<Rightarrow> unit outcome \<times> account_db" where
  "set_super_admin_request env db i flag actor_password requester =
     (case get_user db i requester of
        Inl e \<Rightarrow> (Inl e, db)
      | Inr _ \<Rightarrow>
          (case verify_actor_password env db requester actor_password of
             Inl e \<Rightarrow> (Inl e, db)
           | Inr _ \<Rightarrow>
               (case set_super_admin db i flag of
                  (Inl e, db1) \<Rightarrow> (Inl e, db1)
                | (Inr _, db1) \<Rightarrow> (map_sum id (\<lambda>_. ()) (get_user db1 i requester), db1))))"

end
