(* ===== verification/Organizations.thy ===== *)
theory Organizations
  imports Users
begin

text \<open>
  Organizations and their sections: \<open>internal/service/organization.go\<close>, \<open>section.go\<close> and the
  queries of \<open>internal/store/organization.go\<close>, \<open>section.go\<close>. \<open>lower\<close> is PostgreSQL's; \<open>this_day\<close> is
  the current calendar day. A transaction that fails leaves the tables alone.
\<close>

section \<open>Store\<close>

definition find_org_by_id :: "account_db \<Rightarrow> nat \<Rightarrow> org_row outcome" where
  "find_org_by_id db i =
     (case find (\<lambda>g. og_id g = i \<and> \<not> og_deleted g) (ac_orgs db) of
        None \<Rightarrow> Inl (StoreError StoreNotFound) | Some g \<Rightarrow> Inr g)"

definition find_org_unscoped :: "account_db \<Rightarrow> nat \<Rightarrow> org_row outcome" where
  "find_org_unscoped db i =
     (case find (\<lambda>g. og_id g = i) (ac_orgs db) of None \<Rightarrow> Inl (StoreError StoreNotFound) | Some g \<Rightarrow> Inr g)"

definition sql_trim :: "string \<Rightarrow> string" where
  "sql_trim s = rev (dropWhile (\<lambda>c. c = CHR '' '') (rev (dropWhile (\<lambda>c. c = CHR '' '') s)))"

definition age_range_ok :: "int option \<Rightarrow> int option \<Rightarrow> bool" where
  "age_range_ok low high \<longleftrightarrow>
     (\<forall>a \<in> set_option low. 0 \<le> a) \<and> (\<forall>b \<in> set_option high. 0 \<le> b) \<and>
     (\<forall>a \<in> set_option low. \<forall>b \<in> set_option high. a < b)"

text \<open>What the constraints of the section table say of a row beside the other live ones.\<close>

definition section_clash :: "(string \<Rightarrow> string) \<Rightarrow> section_row \<Rightarrow> section_row \<Rightarrow> bool" where
  "section_clash lower s r \<longleftrightarrow>
     sc_org r = sc_org s \<and> \<not> sc_deleted r \<and> \<not> sc_deleted s \<and>
     (lower (sql_trim (sc_name r)) = lower (sql_trim (sc_name s)) \<or> sc_default r \<and> sc_default s)"

definition check_section :: "(string \<Rightarrow> string) \<Rightarrow> section_row list \<Rightarrow> section_row \<Rightarrow> unit outcome" where
  "check_section lower rows s =
     (if \<not> age_range_ok (sc_min_age s) (sc_max_age s) then Inl (PgError ''23514'')
      else if list_ex (section_clash lower s) rows then Inl (PgError ''23505'')
      else Inr ())"

definition insert_section :: "(string \<Rightarrow> string) \<Rightarrow> account_db \<Rightarrow> section_row \<Rightarrow> (section_row \<times> account_db) outcome" where
  "insert_section lower db s =
     bindE (ensureE (list_ex (\<lambda>g. og_id g = sc_org s) (ac_orgs db)) (PgError ''23503'')) (\<lambda>_.
     bindE (check_section lower (ac_sections db) s) (\<lambda>_.
       let s' = s\<lparr>sc_id := ac_next_section db\<rparr>
       in Inr (s', db\<lparr>ac_sections := ac_sections db @ [s'], ac_next_section := Suc (ac_next_section db)\<rparr>)))"

definition save_section :: "(string \<Rightarrow> string) \<Rightarrow> account_db \<Rightarrow> section_row \<Rightarrow> account_db outcome" where
  "save_section lower db s =
     bindE (check_section lower (filter (\<lambda>r. sc_id r \<noteq> sc_id s) (ac_sections db)) s) (\<lambda>_.
       Inr (db\<lparr>ac_sections := map (\<lambda>r. if sc_id r = sc_id s then s else r) (ac_sections db)\<rparr>))"

definition find_section_by_id :: "account_db \<Rightarrow> nat \<Rightarrow> section_row outcome" where
  "find_section_by_id db i =
     (case find (\<lambda>s. sc_id s = i \<and> \<not> sc_deleted s) (ac_sections db) of
        None \<Rightarrow> Inl (StoreError StoreNotFound) | Some s \<Rightarrow> Inr s)"

definition find_section_by_name_and_org :: "account_db \<Rightarrow> string \<Rightarrow> nat \<Rightarrow> section_row option" where
  "find_section_by_name_and_org db name org =
     find (\<lambda>s. sc_org s = org \<and> sc_name s = name \<and> \<not> sc_deleted s) (ac_sections db)"

definition find_default_section :: "account_db \<Rightarrow> nat \<Rightarrow> section_row outcome" where
  "find_default_section db org =
     (case find (\<lambda>s. sc_org s = org \<and> sc_default s \<and> \<not> sc_deleted s) (ac_sections db) of
        None \<Rightarrow> Inl (StoreError StoreNotFound) | Some s \<Rightarrow> Inr s)"

text \<open>First all defaults of the organization are cleared, then the one is set.\<close>

definition store_promote_to_default :: "account_db \<Rightarrow> nat \<Rightarrow> nat \<Rightarrow> account_db" where
  "store_promote_to_default db i org =
     (let cleared = map (\<lambda>s. if sc_org s = org \<and> sc_default s \<and> \<not> sc_deleted s
                             then s\<lparr>sc_default := False\<rparr> else s) (ac_sections db)
      in db\<lparr>ac_sections := map (\<lambda>s. if sc_id s = i \<and> sc_org s = org \<and> \<not> sc_deleted s
                                 then s\<lparr>sc_default := True\<rparr> else s) cleared\<rparr>)"

definition soft_delete_section :: "account_db \<Rightarrow> nat \<Rightarrow> account_db" where
  "soft_delete_section db i =
     db\<lparr>ac_sections := map (\<lambda>s. if sc_id s = i then s\<lparr>sc_deleted := True\<rparr> else s) (ac_sections db)\<rparr>"

definition count_active :: "base_contract list \<Rightarrow> nat \<Rightarrow> gtime \<Rightarrow> int" where
  "count_active rows i this_day =
     int (length (filter (\<lambda>c. c_section c = i \<and> sql_active_on (from_day c) (to_day c) (local_day this_day)) rows))"

definition insert_org :: "account_db \<Rightarrow> org_row \<Rightarrow> (org_row \<times> account_db) outcome" where
  "insert_org db g =
     (if list_ex (\<lambda>r. og_name r = og_name g \<and> \<not> og_deleted r) (ac_orgs db) then Inl (PgError ''23505'')
      else let g' = g\<lparr>og_id := ac_next_org db, og_active := with_default_true (og_active g)\<rparr>
           in Inr (g', db\<lparr>ac_orgs := ac_orgs db @ [g'], ac_next_org := Suc (ac_next_org db)\<rparr>))"

definition create_with_default_section ::
    "(string \<Rightarrow> string) \<Rightarrow> account_db \<Rightarrow> org_row \<Rightarrow> section_row \<Rightarrow> (org_row \<times> account_db) outcome" where
  "create_with_default_section lower db g s =
     bindE (insert_org db g) (\<lambda>(g', db1).
       bindE (insert_section lower db1 (s\<lparr>sc_org := og_id g'\<rparr>)) (\<lambda>(_, db2). Inr (g', db2)))"

definition save_org :: "account_db \<Rightarrow> org_row \<Rightarrow> account_db outcome" where
  "save_org db g =
     (if \<not> og_deleted g \<and> list_ex (\<lambda>r. og_name r = og_name g \<and> \<not> og_deleted r \<and> og_id r \<noteq> og_id g) (ac_orgs db)
      then Inl (PgError ''23505'')
      else Inr (db\<lparr>ac_orgs := map (\<lambda>r. if og_id r = og_id g then g else r) (ac_orgs db)\<rparr>))"

definition soft_delete_org :: "account_db \<Rightarrow> nat \<Rightarrow> account_db" where
  "soft_delete_org db i =
     db\<lparr>ac_orgs := map (\<lambda>g. if og_id g = i then g\<lparr>og_deleted := True\<rparr> else g) (ac_orgs db)\<rparr>"

definition purge_org :: "account_db \<Rightarrow> nat \<Rightarrow> account_db" where
  "purge_org db i =
     db\<lparr>ac_orgs := filter (\<lambda>g. og_id g \<noteq> i) (ac_orgs db),
        ac_members := filter (\<lambda>m. mb_org m \<noteq> i) (ac_members db),
        ac_sections := filter (\<lambda>s. sc_org s \<noteq> i) (ac_sections db),
        ac_child_rows := filter (\<lambda>c. c_section c \<notin> sc_id ` set (filter (\<lambda>s. sc_org s = i) (ac_sections db))) (ac_child_rows db),
        ac_employee_rows := filter (\<lambda>c. c_section c \<notin> sc_id ` set (filter (\<lambda>s. sc_org s = i) (ac_sections db))) (ac_employee_rows db)\<rparr>"

section \<open>Organizations\<close>

definition valid_states :: "string list" where
  "valid_states = [''berlin'']"

definition invalid_state :: go_error where
  "invalid_state = bad_request (''invalid state, must be one of: '' @ join_strings '', '' valid_states)"

record org_create_request =
  oc_name :: string
  oc_active :: bool
  oc_state :: string
  oc_default_section :: string

record org_update_request =
  ou_name :: "string option"
  ou_active :: "bool option"
  ou_state :: "string option"

definition get_org :: "account_db \<Rightarrow> nat \<Rightarrow> org_row outcome" where
  "get_org db i = map_sum (\<lambda>e. classify_store_error e ''organization'') id (find_org_by_id db i)"

definition create_organization ::
    "(string \<Rightarrow> string) \<Rightarrow> account_db \<Rightarrow> org_create_request \<Rightarrow> string \<Rightarrow> org_row outcome \<times> account_db" where
  "create_organization lower db req by_whom =
     (case validate_required_name (oc_name req) of
        Inl e \<Rightarrow> (Inl e, db)
      | Inr name \<Rightarrow>
          if oc_state req \<notin> set valid_states then (Inl invalid_state, db)
          else case validate_required_name (oc_default_section req) of
            Inl e \<Rightarrow> (Inl (bad_request ''default_section_name is required''), db)
          | Inr section_name \<Rightarrow>
              (case create_with_default_section lower db
                     \<lparr>og_id = 0, og_name = name, og_active = oc_active req, og_state = oc_state req,
                      og_created_by = by_whom, og_deleted = False\<rparr>
                     \<lparr>sc_id = 0, sc_org = 0, sc_name = section_name, sc_default = True, sc_min_age = None,
                      sc_max_age = None, sc_created_by = by_whom, sc_deleted = False\<rparr> of
                 Inl e \<Rightarrow> (Inl (if is_duplicate_key_error e then conflict ''organization with this name already exists''
                               else internal_wrap e ''failed to create organization''), db)
               | Inr (g, db') \<Rightarrow> (Inr g, db')))"

definition update_organization :: "account_db \<Rightarrow> nat \<Rightarrow> org_update_request \<Rightarrow> org_row outcome \<times> account_db" where
  "update_organization db i req =
     (case find_org_by_id db i of
        Inl e \<Rightarrow> (Inl (classify_store_error e ''organization''), db)
      | Inr g \<Rightarrow>
          if (\<exists>n \<in> set_option (ou_name req). trim_space n = [])
          then (Inl (bad_request ''name cannot be empty or whitespace only''), db)
          else if (\<exists>st \<in> set_option (ou_state req). st \<notin> set valid_states) then (Inl invalid_state, db)
          else (let g' = g\<lparr>og_name := (case ou_name req of None \<Rightarrow> og_name g | Some n \<Rightarrow> trim_space n),
                           og_active := (case ou_active req of None \<Rightarrow> og_active g | Some b \<Rightarrow> b),
                           og_state := (case ou_state req of None \<Rightarrow> og_state g | Some st \<Rightarrow> st)\<rparr>
                in case save_org db g' of
                     Inl e \<Rightarrow> (Inl (internal_wrap e ''failed to update organization''), db)
                   | Inr db' \<Rightarrow> (Inr g', db')))"

definition delete_organization :: "account_db \<Rightarrow> nat \<Rightarrow> unit outcome \<times> account_db" where
  "delete_organization db i = (Inr (), soft_delete_org db i)"

definition hard_delete_organization :: "account_db \<Rightarrow> nat \<Rightarrow> unit outcome \<times> account_db" where
  "hard_delete_organization db i =
     (case find_org_unscoped db i of
        Inl e \<Rightarrow> (Inl (classify_store_error e ''organization''), db)
      | Inr _ \<Rightarrow> (Inr (), purge_org db i))"

section \<open>Sections\<close>

record section_request =
  sr_name :: "string option"
  sr_min_age :: "int option"
  sr_max_age :: "int option"

definition validate_age_range :: "int option \<Rightarrow> int option \<Rightarrow> unit outcome" where
  "validate_age_range low high =
     (if low = None \<and> high = None then Inr ()
      else if (\<exists>a \<in> set_option low. a < 0) then Inl (bad_request ''min_age_months cannot be negative'')
      else if (\<exists>b \<in> set_option high. b < 0) then Inl (bad_request ''max_age_months cannot be negative'')
      else if (\<exists>a \<in> set_option low. \<exists>b \<in> set_option high. b \<le> a)
      then Inl (bad_request ''min_age_months must be less than max_age_months'')
      else Inr ())"

definition owned_section :: "account_db \<Rightarrow> nat \<Rightarrow> nat \<Rightarrow> section_row outcome" where
  "owned_section db i org =
     (case find_section_by_id db i of
        Inl e \<Rightarrow> Inl (classify_store_error e ''section'')
      | Inr s \<Rightarrow> bindE (verify_org_ownership (sc_org s) org ''section'') (\<lambda>_. Inr s))"

definition create_section ::
    "(string \<Rightarrow> string) \<Rightarrow> account_db \<Rightarrow> nat \<Rightarrow> string \<Rightarrow> int option \<Rightarrow> int option \<Rightarrow> string \<Rightarrow>
      section_row outcome \<times> account_db" where
  "create_section lower db org name low high by_whom =
     (case validate_required_name name of
        Inl e \<Rightarrow> (Inl e, db)
      | Inr n \<Rightarrow>
          (case validate_age_range low high of
             Inl e \<Rightarrow> (Inl e, db)
           | Inr _ \<Rightarrow>
               if find_section_by_name_and_org db n org \<noteq> None
               then (Inl (conflict ''section with this name already exists in the organization''), db)
               else case insert_section lower db
                           \<lparr>sc_id = 0, sc_org = org, sc_name = n, sc_default = False, sc_min_age = low,
                            sc_max_age = high, sc_created_by = by_whom, sc_deleted = False\<rparr> of
                      Inl e \<Rightarrow> (Inl (if is_duplicate_key_error e
                                    then conflict ''section with this name already exists in this organization''
                                    else internal_wrap e ''failed to create section''), db)
                    | Inr (s, db') \<Rightarrow> (Inr s, db')))"

definition update_section ::
    "(string \<Rightarrow> string) \<Rightarrow> account_db \<Rightarrow> nat \<Rightarrow> nat \<Rightarrow> section_request \<Rightarrow> section_row outcome \<times> account_db" where
  "update_section lower db i org req =
     (case owned_section db i org of
        Inl e \<Rightarrow> (Inl e, db)
      | Inr s \<Rightarrow>
          if (\<exists>n \<in> set_option (sr_name req). trim_space n = [])
          then (Inl (bad_request ''name cannot be empty or whitespace only''), db)
          else if (\<exists>n \<in> set_option (sr_name req).
                     \<exists>r \<in> set_option (find_section_by_name_and_org db (trim_space n) org). sc_id r \<noteq> i)
          then (Inl (conflict ''section with this name already exists in the organization''), db)
          else (let s' = s\<lparr>sc_name := (case sr_name req of None \<Rightarrow> sc_name s | Some n \<Rightarrow> trim_space n),
                           sc_min_age := sr_min_age req, sc_max_age := sr_max_age req\<rparr>
                in case validate_age_range (sc_min_age s') (sc_max_age s') of
                     Inl e \<Rightarrow> (Inl e, db)
                   | Inr _ \<Rightarrow>
                       (case save_section lower db s' of
                          Inl e \<Rightarrow> (Inl (if is_duplicate_key_error e
                                        then conflict ''section with this name already exists in the organization''
                                        else internal_wrap e ''failed to update section''), db)
                        | Inr db' \<Rightarrow> (Inr s', db'))))"

definition promote_to_default :: "account_db \<Rightarrow> nat \<Rightarrow> nat \<Rightarrow> unit outcome \<times> account_db" where
  "promote_to_default db i org =
     (case owned_section db i org of
        Inl e \<Rightarrow> (Inl e, db)
      | Inr _ \<Rightarrow> (Inr (), store_promote_to_default db i org))"

definition delete_section :: "account_db \<Rightarrow> gtime \<Rightarrow> nat \<Rightarrow> nat \<Rightarrow> unit outcome \<times> account_db" where
  "delete_section db this_day i org =
     (case owned_section db i org of
        Inl e \<Rightarrow> (Inl e, db)
      | Inr s \<Rightarrow>
          if sc_default s then (Inl (bad_request ''cannot delete the default section''), db)
          else let children = count_active (ac_child_rows db) i this_day;
                   employees = count_active (ac_employee_rows db) i this_day
               in if 0 < children
                  then (Inl (bad_request (''cannot delete section with '' @ itoa children @
                          '' currently-assigned children; reassign them first'')), db)
                  else if 0 < employees
                  then (Inl (bad_request (''cannot delete section with '' @ itoa employees @
                          '' currently-assigned employees; reassign them first'')), db)
                  else (Inr (), soft_delete_section db i))"

end
