(* ===== verification/AccountSteps.thy ===== *)
theory AccountSteps
  imports Organizations
begin

text \<open>
  Every request that changes accounts, organizations or sections as one step relation, and what
  each of them does to the tables: lemmas for the invariants of \<open>AccountLaws\<close>.
\<close>

section \<open>Requests\<close>

text \<open>
  Every route that changes accounts, organizations or sections, behind its middleware
  (\<open>internal/routes/routes.go\<close>); \<open>r\<close> is the user of the session.
\<close>

inductive account_step :: "mfa_env \<Rightarrow> policy list \<Rightarrow> nat \<Rightarrow> account_db \<Rightarrow> account_db \<Rightarrow> bool" for env ps where
  new_user: "require_super_admin db (Some r) = Inr u \<Longrightarrow>
    create_user env db creq salt by_whom = (x, db') \<Longrightarrow> account_step env ps r db db'"
| edit_user: "require_global_permission ps db ''users'' ''update'' (Some r) = Inr u \<Longrightarrow>
    update_account env db i ureq r = (x, db') \<Longrightarrow> account_step env ps r db db'"
| remove_user: "require_global_permission ps db ''users'' ''delete'' (Some r) = Inr u \<Longrightarrow>
    delete_account db i r = (y, db') \<Longrightarrow> account_step env ps r db db'"
| purge_user_row: "require_super_admin db (Some r) = Inr u \<Longrightarrow>
    hard_delete_account db i r = (y, db') \<Longrightarrow> account_step env ps r db db'"
| set_password: "require_global_permission ps db ''users'' ''reset_password'' (Some r) = Inr u \<Longrightarrow>
    reset_password_request env db now i pw salt apw r = (y, db') \<Longrightarrow> account_step env ps r db db'"
| set_super: "require_super_admin db (Some r) = Inr u \<Longrightarrow>
    set_super_admin_request env db i flag apw r = (y, db') \<Longrightarrow> account_step env ps r db db'"
| new_member: "require_global_permission ps db ''users'' ''update'' (Some r) = Inr u \<Longrightarrow>
    add_to_organization_request db i org role by_whom r = (m, db') \<Longrightarrow> account_step env ps r db db'"
| edit_member: "require_global_permission ps db ''users'' ''update'' (Some r) = Inr u \<Longrightarrow>
    update_user_organization_role db i org role r = (m, db') \<Longrightarrow> account_step env ps r db db'"
| remove_member: "require_global_permission ps db ''users'' ''update'' (Some r) = Inr u \<Longrightarrow>
    remove_user_from_organization db i org r = (y, db') \<Longrightarrow> account_step env ps r db db'"
| new_org: "require_super_admin db (Some r) = Inr u \<Longrightarrow>
    create_organization (me_sql_lower env) db oreq by_whom = (g, db') \<Longrightarrow> account_step env ps r db db'"
| edit_org: "require_permission ps db ''organizations'' ''update'' (Some r) par = Inr org \<Longrightarrow>
    update_organization db org oureq = (g, db') \<Longrightarrow> account_step env ps r db db'"
| remove_org: "require_super_admin db (Some r) = Inr u \<Longrightarrow>
    delete_organization db org = (y, db') \<Longrightarrow> account_step env ps r db db'"
| purge_org_row: "require_super_admin db (Some r) = Inr u \<Longrightarrow>
    hard_delete_organization db org = (y, db') \<Longrightarrow> account_step env ps r db db'"
| new_section: "require_permission ps db ''sections'' ''create'' (Some r) par = Inr org \<Longrightarrow>
    create_section (me_sql_lower env) db org name low high by_whom = (s, db') \<Longrightarrow> account_step env ps r db db'"
| edit_section: "require_permission ps db ''sections'' ''update'' (Some r) par = Inr org \<Longrightarrow>
    update_section (me_sql_lower env) db i org sreq = (s, db') \<Longrightarrow> account_step env ps r db db'"
| promote_section: "require_permission ps db ''sections'' ''update'' (Some r) par = Inr org \<Longrightarrow>
    promote_to_default db i org = (y, db') \<Longrightarrow> account_step env ps r db db'"
| remove_section: "require_permission ps db ''sections'' ''delete'' (Some r) par = Inr org \<Longrightarrow>
    delete_section db this_day i org = (y, db') \<Longrightarrow> account_step env ps r db db'"

section \<open>Users\<close>

abbreviation account_users :: "account_db \<Rightarrow> user_row list" where
  "account_users db \<equiv> db_users (ac_auth db)"

lemma users_delete_all [simp]: "db_users (delete_all_for_user a i) = db_users a"
  by (simp add: delete_all_for_user_def remove_sessions_def)

lemma users_log [simp]: "account_users (log_account db act i e n) = account_users db"
  by (simp add: log_account_def log_event_def)

text \<open>The user table after a request: as before, or changed under the conditions of the code.\<close>

lemma same_key: "distinct (map f xs) \<Longrightarrow> x \<in> set xs \<Longrightarrow> y \<in> set xs \<Longrightarrow> f x = f y \<Longrightarrow> x = y"
  by (auto simp add: distinct_map dest: inj_onD)

lemma set_user_row:
  assumes "distinct (map us_id us)" and "u \<in> set us"
  shows "find (\<lambda>r. us_id r = us_id u) us = Some u"
  using assms by (induction us) (auto simp add: image_iff)

lemma account_user_Inr:
  "account_user db i = Inr u \<Longrightarrow> u \<in> set (account_users db) \<and> us_id u = i \<and> \<not> us_deleted u"
  by (auto simp add: account_user_def find_user_by_id_def find_Some_iff split: option.splits)

lemma is_super_admin_iff:
  assumes "distinct (map us_id (account_users db))"
  shows "is_super_admin db i \<longleftrightarrow> (\<exists>u \<in> set (account_users db). us_id u = i \<and> \<not> us_deleted u \<and> us_superadmin u)"
proof -
  have "u = v" if "u \<in> set (account_users db)" "v \<in> set (account_users db)" "us_id u = us_id v" for u v
    using assms that by (auto simp add: distinct_map dest: inj_onD)
  then show ?thesis
    by (auto simp add: is_super_admin_def account_user_def find_user_by_id_def find_Some_iff find_None_iff
        split: option.splits) (metis nth_mem)
qed

lemma save_user_Inr:
  "save_user lower db u = Inr db' \<Longrightarrow> db' = db\<lparr>ac_auth := update_user (ac_auth db) u\<rparr>"
  by (auto simp add: save_user_def split: if_splits)

lemma users_update [simp]: "db_users (update_user a u) = map (\<lambda>r. if us_id r = us_id u then u else r) (db_users a)"
  by (simp add: update_user_def)

definition may_change :: "account_db \<Rightarrow> nat \<Rightarrow> nat \<Rightarrow> bool" where
  "may_change db r i \<longleftrightarrow>
     r = i \<or> is_super_admin db r \<or> is_admin_in_shared_org db r i \<and> \<not> is_super_admin db i"

lemma allowed_change:
  assumes "verify_requester_can_modify_user db r i = Inr x" and "\<not> target_is_protected_super_admin db r i"
  shows "may_change db r i"
  using assms by (auto simp add: verify_requester_can_modify_user_def target_is_protected_super_admin_def
      may_change_def ensureE_def split: if_splits)

text \<open>One row of one user is rewritten, with the flags the code leaves it.\<close>

definition row_rewritten :: "account_db \<Rightarrow> nat \<Rightarrow> account_db \<Rightarrow> user_row \<Rightarrow> user_row \<Rightarrow> bool" where
  "row_rewritten db i db' u v \<longleftrightarrow> u \<in> set (account_users db) \<and> us_id u = i \<and> us_id v = i \<and>
     account_users db' = map (\<lambda>r. if us_id r = i then v else r) (account_users db)"

definition orphan_free :: "account_db \<Rightarrow> nat \<Rightarrow> bool" where
  "orphan_free db i \<longleftrightarrow>
     (\<exists>w \<in> set (account_users db). us_superadmin w \<and> us_active w \<and> us_id w \<noteq> i \<and> \<not> us_deleted w)"

lemma orphan_free_iff: "removing_would_orphan_super_admins db i \<longleftrightarrow> \<not> orphan_free db i"
  by (auto simp add: removing_would_orphan_super_admins_def count_usable_super_admins_excluding_def orphan_free_def
      filter_empty_conv)

lemma update_account_users:
  assumes "update_account env db i req r = (x, db')"
  obtains "db' = db"
  | u v where "may_change db r i" "row_rewritten db i db' u v" "ac_members db' = ac_members db"
      "us_superadmin v = us_superadmin u" "us_deleted v = us_deleted u" "us_password v = us_password u"
      "us_active v \<or> \<not> us_active u \<or> \<not> us_superadmin u \<or> orphan_free db i"
proof (cases "db' = db")
  case False
  from assms False obtain y where v: "verify_requester_can_modify_user db r i = Inr y"
    by (auto simp add: update_account_def split: sum.splits)
  from assms False v have p: "\<not> target_is_protected_super_admin db r i"
    by (auto simp add: update_account_def split: if_splits)
  from assms False v p obtain u where u: "account_user db i = Inr u"
    by (auto simp add: update_account_def split: sum.splits)
  define e where "e = canonical_email env (uu_email req)"
  define u2 where "u2 = (let u1 = (if trim_space (uu_name req) \<noteq> [] then u\<lparr>us_name := trim_space (uu_name req)\<rparr> else u)
    in if e \<noteq> [] then u1\<lparr>us_email := e\<rparr> else u1)"
  define u3 where "u3 = (case uu_active req of None \<Rightarrow> u2 | Some b \<Rightarrow> u2\<lparr>us_active := b\<rparr>)"
  have same: "us_superadmin u2 = us_superadmin u" "us_deleted u2 = us_deleted u" "us_password u2 = us_password u"
    "us_active u2 = us_active u" "us_id u2 = us_id u" by (simp_all add: u2_def Let_def)
  then have same3: "us_superadmin u3 = us_superadmin u" "us_deleted u3 = us_deleted u" "us_password u3 = us_password u"
    "us_id u3 = i" using account_user_Inr [OF u] by (simp_all add: u3_def split: option.split)
  have eq: "update_account env db i req r =
     (if e \<noteq> [] \<and> email_exists_for_other_user (me_sql_lower env) db e i then (Inl email_conflict, db)
      else if (uu_active req = Some False \<and> us_active u) \<and> us_superadmin u2 \<and> removing_would_orphan_super_admins db i
      then (Inl (bad_request ''cannot deactivate the last superadmin''), db)
      else case save_user (me_sql_lower env) db u3 of
             Inl x \<Rightarrow> (Inl (internal_wrap x ''failed to update user''), db)
           | Inr db1 \<Rightarrow> (Inr (user_response u3), if uu_active req = Some False \<and> us_active u
                                  then db1\<lparr>ac_auth := delete_all_for_user (ac_auth db1) i\<rparr> else db1))"
    by (simp only: update_account_def v p u Let_def u2_def u3_def e_def sum.case if_False)
  from assms False obtain db1 where s: "save_user (me_sql_lower env) db u3 = Inr db1"
    and d: "db' = (if uu_active req = Some False \<and> us_active u
                   then db1\<lparr>ac_auth := delete_all_for_user (ac_auth db1) i\<rparr> else db1)"
    and g: "\<not> ((uu_active req = Some False \<and> us_active u) \<and> us_superadmin u2 \<and> removing_would_orphan_super_admins db i)"
    unfolding eq by (auto split: if_split_asm sum.split_asm)
  note db1 = save_user_Inr [OF s]
  show thesis
  proof (rule that(2) [OF allowed_change [OF v p], of u u3])
    show "row_rewritten db i db' u u3" using account_user_Inr [OF u] same3 by (simp add: row_rewritten_def d db1)
    show "ac_members db' = ac_members db" by (simp add: d db1)
    show "us_active u3 \<or> \<not> us_active u \<or> \<not> us_superadmin u \<or> orphan_free db i"
      using g same by (auto simp add: orphan_free_iff u3_def split: option.splits)
  qed (use same3 in simp_all)
qed (rule that)

lemma reset_password_users:
  assumes "reset_password_request env db now i pw salt apw r = (x, db')"
  obtains "account_users db' = account_users db" "ac_members db' = ac_members db"
  | u h a where "r \<noteq> i" "may_change db r i" "row_rewritten db i db' u (u\<lparr>us_password := h\<rparr>)" "ac_members db' = ac_members db"
      "me_password_hash env salt pw = Some h" "account_user db r = Inr a" "me_password_ok env (us_password a) apw"
      "x = Inr ()"
proof (cases "\<exists>y. fst (reset_password env db now i pw salt apw r) = Inr y")
  case False
  then have "account_users (snd (reset_password env db now i pw salt apw r)) = account_users db \<and>
      ac_members (snd (reset_password env db now i pw salt apw r)) = ac_members db"
    by (auto simp add: reset_password_def Let_def log_account_def log_event_def split: if_splits sum.splits option.splits)
  moreover have "db' = snd (reset_password env db now i pw salt apw r)"
    using assms False by (auto simp add: reset_password_request_def split: prod.splits sum.splits)
  ultimately show thesis using that(1) by simp
next
  case True
  then obtain db1 where rp: "reset_password env db now i pw salt apw r = (Inr (), db1)"
    by (metis (full_types) old.unit.exhaust prod.collapse)
  then have ne: "r \<noteq> i" by (auto simp add: reset_password_def)
  from rp ne obtain u where u: "account_user db i = Inr u" by (auto simp add: reset_password_def split: sum.splits)
  from rp ne u obtain a where a: "account_user db r = Inr a" by (auto simp add: reset_password_def split: sum.splits)
  from rp ne u a obtain y where va: "verify_actor_password env db r apw = Inr y"
    by (auto simp add: reset_password_def Let_def split: sum.splits if_splits)
  from rp ne u a va have p: "\<not> target_is_protected_super_admin db r i"
    by (auto simp add: reset_password_def Let_def split: if_splits)
  from rp ne u a va p obtain z where v: "verify_requester_can_modify_user db r i = Inr z"
    by (auto simp add: reset_password_def Let_def split: sum.splits if_splits)
  from rp ne u a va p v obtain h where h: "me_password_hash env salt pw = Some h"
    and s: "save_user (me_sql_lower env) db (u\<lparr>us_password := h\<rparr>) = Inr db1"
    by (auto simp add: reset_password_def Let_def split: sum.splits if_splits option.splits)
  note db1 = save_user_Inr [OF s]
  have d: "db' = db1\<lparr>ac_auth := delete_all_for_user (ac_auth db1) i\<rparr>" "x = Inr ()"
    using assms rp by (simp_all add: reset_password_request_def)
  have ok: "me_password_ok env (us_password a) apw"
    using va a by (auto simp add: verify_actor_password_def ensureE_def split: if_splits)
  show thesis
  proof (rule that(2) [OF ne allowed_change [OF v p], of u h a])
    show "row_rewritten db i db' u (u\<lparr>us_password := h\<rparr>)"
      using account_user_Inr [OF u] by (simp add: row_rewritten_def d db1)
  qed (simp_all add: d db1 h a ok)
qed


text \<open>The two halves of the tables, and what a request of \<open>r\<close> does to the first.\<close>

definition user_part :: "account_db \<Rightarrow> user_row list \<times> nat \<times> member_row list" where
  "user_part db = (account_users db, ac_next_user db, ac_members db)"

definition org_part :: "account_db \<Rightarrow> org_row list \<times> nat \<times> section_row list \<times> nat" where
  "org_part db = (ac_orgs db, ac_next_org db, ac_sections db, ac_next_section db)"

inductive user_change :: "account_db \<Rightarrow> nat \<Rightarrow> account_db \<Rightarrow> bool" for db r db' where
  untouched: "user_part db' = user_part db \<Longrightarrow> user_change db r db'"
| created: "user_part db' = (account_users db @ [v], Suc (ac_next_user db), ac_members db) \<Longrightarrow>
    us_id v = ac_next_user db \<Longrightarrow> \<not> us_superadmin v \<Longrightarrow> is_super_admin db r \<Longrightarrow> user_change db r db'"
| edited: "row_rewritten db i db' u v \<Longrightarrow> ac_members db' = ac_members db \<Longrightarrow> ac_next_user db' = ac_next_user db \<Longrightarrow>
    may_change db r i \<Longrightarrow> us_superadmin v = us_superadmin u \<or> is_super_admin db r \<Longrightarrow>
    us_superadmin u \<and> us_active u \<and> \<not> us_deleted u \<longrightarrow>
      us_superadmin v \<and> us_active v \<and> \<not> us_deleted v \<or> orphan_free db i \<Longrightarrow> user_change db r db'"
| purged: "user_part db' = (filter (\<lambda>u. us_id u \<noteq> i) (account_users db), ac_next_user db,
      filter (\<lambda>m. mb_user m \<noteq> i) (ac_members db)) \<Longrightarrow> is_super_admin db r \<Longrightarrow>
    find_user_unscoped db i = Inr u \<Longrightarrow> us_superadmin u \<longrightarrow> orphan_free db i \<Longrightarrow> user_change db r db'"
| members: "account_users db' = account_users db \<Longrightarrow> ac_next_user db' = ac_next_user db \<Longrightarrow>
    is_super_admin db r \<or> get_role_in_org db r org = role_admin \<Longrightarrow>
    filter (\<lambda>m. mb_org m \<noteq> org) (ac_members db') = filter (\<lambda>m. mb_org m \<noteq> org) (ac_members db) \<Longrightarrow>
    distinct (map (\<lambda>m. (mb_user m, mb_org m)) (ac_members db)) \<longrightarrow>
      distinct (map (\<lambda>m. (mb_user m, mb_org m)) (ac_members db')) \<Longrightarrow> user_change db r db'"

lemma log_account_parts [simp]:
  "user_part (log_account db act i e n) = user_part db" "org_part (log_account db act i e n) = org_part db"
  by (simp_all add: user_part_def org_part_def log_account_def log_event_def)

lemma auth_part_simps [simp]:
  "org_part (db\<lparr>ac_auth := a\<rparr>) = org_part db" "org_part (db\<lparr>ac_members := ms\<rparr>) = org_part db"
  "org_part (db\<lparr>ac_next_user := k\<rparr>) = org_part db"
  by (simp_all add: org_part_def)

lemma create_user_change:
  assumes "create_user env db req salt by_whom = (x, db')" and "is_super_admin db r"
  shows "user_change db r db' \<and> org_part db' = org_part db"
proof (cases "db' = db")
  case True
  then show ?thesis by (simp add: untouched)
next
  case False
  with assms(1) obtain nm h u where
    "insert_user (me_sql_lower env) db \<lparr>us_id = 0, us_name = nm, us_email = canonical_email env (uc_email req),
        us_password = h, us_active = uc_active req, us_superadmin = False, us_created_by = by_whom,
        us_deleted = False, us_last_login = None\<rparr> = Inr (u, db')"
    unfolding create_user_def by (auto split: sum.split_asm option.split_asm prod.split_asm)
  then show ?thesis
    by (auto simp add: insert_user_def Let_def user_part_def org_part_def assms(2) split: if_split_asm
        intro!: created [where v = u])
qed

lemma update_account_change:
  assumes "update_account env db i req r = (x, db')"
  shows "user_change db r db' \<and> org_part db' = org_part db"
proof -
  have k: "ac_next_user db' = ac_next_user db \<and> org_part db' = org_part db"
    using assms unfolding update_account_def Let_def
    by (auto dest!: save_user_Inr split: if_split_asm sum.split_asm)
  from assms show ?thesis
  proof (cases rule: update_account_users)
    case 1
    then show ?thesis by (simp add: untouched)
  next
    case (2 u v)
    then show ?thesis using k by (auto intro!: edited [of db i db' u v])
  qed
qed

lemma reset_password_change:
  assumes "reset_password_request env db now i pw salt apw r = (x, db')"
  shows "user_change db r db' \<and> org_part db' = org_part db"
proof -
  have k: "ac_next_user db' = ac_next_user db \<and> org_part db' = org_part db"
    using assms unfolding reset_password_request_def reset_password_def Let_def
    by (auto dest!: save_user_Inr simp add: log_account_def split: if_split_asm sum.split_asm option.split_asm prod.split_asm)
  from assms show ?thesis
  proof (cases rule: reset_password_users)
    case 1
    then show ?thesis using k by (simp add: untouched user_part_def)
  next
    case (2 u h a)
    then show ?thesis using k by (auto intro!: edited [of db i db' u "u\<lparr>us_password := h\<rparr>"])
  qed
qed

lemma delete_account_change:
  assumes "delete_account db i r = (x, db')" and d: "distinct (map us_id (account_users db))"
  shows "user_change db r db' \<and> org_part db' = org_part db"
proof (cases "db' = db")
  case True
  then show ?thesis by (simp add: untouched)
next
  case False
  from assms(1) False obtain y u where v: "verify_requester_can_modify_user db r i = Inr y"
    and p: "\<not> target_is_protected_super_admin db r i" and u: "account_user db i = Inr u"
    and g: "us_superadmin u \<longrightarrow> orphan_free db i"
    and d': "db' = (let db1 = soft_delete_user db i in db1\<lparr>ac_auth := delete_all_for_user (ac_auth db1) i\<rparr>)"
    unfolding delete_account_def
    by (auto simp add: orphan_free_iff Let_def split: if_split_asm sum.split_asm)
  note uu = account_user_Inr [OF u]
  have "row_rewritten db i db' u (u\<lparr>us_deleted := True\<rparr>)"
    using uu by (auto simp add: row_rewritten_def d' Let_def soft_delete_user_def dest: same_key [OF d])
  then have "user_change db r db'"
    by (rule edited) (use allowed_change [OF v p] g in \<open>simp_all add: d' Let_def soft_delete_user_def\<close>)
  then show ?thesis by (simp add: d' Let_def soft_delete_user_def)
qed


lemma hard_delete_account_change:
  assumes "hard_delete_account db i r = (x, db')" and "is_super_admin db r"
  shows "user_change db r db' \<and> org_part db' = org_part db"
proof (cases "db' = db")
  case True
  then show ?thesis by (simp add: untouched)
next
  case False
  from assms(1) False obtain u where u: "find_user_unscoped db i = Inr u"
    and g: "us_superadmin u \<longrightarrow> orphan_free db i" and d: "db' = purge_user db i"
    unfolding hard_delete_account_def by (auto simp add: orphan_free_iff split: if_split_asm sum.split_asm)
  show ?thesis
    using purged [OF _ assms(2) u g]
    by (simp add: d purge_user_def user_part_def hard_delete_user_def remove_sessions_def remove_factors_def)
qed

lemma set_super_admin_change:
  assumes "set_super_admin_request env db i flag apw r = (x, db')" and s: "is_super_admin db r"
    and d: "distinct (map us_id (account_users db))"
  shows "user_change db r db' \<and> org_part db' = org_part db"
proof (cases "db' = db")
  case True
  then show ?thesis by (simp add: untouched)
next
  case False
  obtain y db1 where sa: "set_super_admin db i flag = (y, db1)" by (cases "set_super_admin db i flag")
  from assms(1) False sa have db1: "db1 = db'"
    unfolding set_super_admin_request_def by (auto split: sum.split_asm)
  from sa False obtain u where u: "account_user db i = Inr u"
    and g: "\<not> flag \<and> us_superadmin u \<longrightarrow> orphan_free db i" and st: "store_super_admin db i flag = Inr db'"
    unfolding set_super_admin_def db1 orphan_free_iff [unfolded removing_would_orphan_super_admins_def]
    by (auto split: if_split_asm sum.split_asm)
  note uu = account_user_Inr [OF u]
  have "row_rewritten db i db' u (u\<lparr>us_superadmin := flag\<rparr>)"
    using st uu by (auto simp add: row_rewritten_def store_super_admin_def split: if_splits dest: same_key [OF d])
  moreover have "ac_members db' = ac_members db \<and> ac_next_user db' = ac_next_user db \<and> org_part db' = org_part db"
    using st by (auto simp add: store_super_admin_def split: if_splits)
  ultimately show ?thesis
    using g s by (auto intro!: edited [of db i db' u "u\<lparr>us_superadmin := flag\<rparr>"] simp add: may_change_def)
qed

section \<open>Memberships\<close>

lemma org_access_Inr:
  "verify_requester_org_access db r org = Inr x \<longleftrightarrow> is_super_admin db r \<or> get_role_in_org db r org = role_admin"
  by (auto simp add: verify_requester_org_access_def ensureE_def)

lemma add_member_change:
  assumes "add_to_organization_request db i org role by_whom r = (m, db')"
  shows "user_change db r db' \<and> org_part db' = org_part db"
proof (cases "db' = db")
  case True
  then show ?thesis by (simp add: untouched)
next
  case False
  with assms obtain y where v: "verify_requester_org_access db r org = Inr y"
    and n: "\<not> membership_exists db i org"
    and d: "db' = db\<lparr>ac_members := ac_members db @ [\<lparr>mb_user = i, mb_org = org,
        mb_role = (if role = [] then role_member else role), mb_created_by = by_whom\<rparr>]\<rparr>"
    unfolding add_to_organization_request_def add_user_to_organization_def add_user_to_org_def
    by (auto simp add: Let_def split: if_split_asm sum.split_asm prod.split_asm)
  have "user_change db r db'"
    by (rule members [of db' db r org])
      (use v n in \<open>auto simp add: d org_access_Inr membership_exists_def list_ex_iff\<close>)
  then show ?thesis by (simp add: d)
qed

lemma edit_member_change:
  assumes "update_user_organization_role db i org role r = (m, db')"
  shows "user_change db r db' \<and> org_part db' = org_part db"
proof (cases "db' = db")
  case True
  then show ?thesis by (simp add: untouched)
next
  case False
  with assms obtain y where v: "verify_requester_org_access db r org = Inr y"
    and u: "update_role db i org role = Inr db'"
    unfolding update_user_organization_role_def by (auto split: if_split_asm sum.split_asm)
  let ?g = "\<lambda>m :: member_row. if mb_user m = i \<and> mb_org m = org then m\<lparr>mb_role := role\<rparr> else m"
  have d: "db' = db\<lparr>ac_members := map ?g (ac_members db)\<rparr>"
    using u by (simp add: update_role_def split: if_splits)
  have f: "filter (\<lambda>m. mb_org m \<noteq> org) (map ?g ms) = filter (\<lambda>m. mb_org m \<noteq> org) ms" for ms
    by (induction ms) auto
  have "user_change db r db'"
  proof (rule members [of db' db r org])
    show "distinct (map (\<lambda>m. (mb_user m, mb_org m)) (ac_members db)) \<longrightarrow>
      distinct (map (\<lambda>m. (mb_user m, mb_org m)) (ac_members db'))"
      by (auto simp add: d distinct_map inj_on_def)
  qed (use v f in \<open>simp_all add: d org_access_Inr\<close>)
  then show ?thesis by (simp add: d)
qed

lemma remove_member_change:
  assumes "remove_user_from_organization db i org r = (x, db')"
  shows "user_change db r db' \<and> org_part db' = org_part db"
proof (cases "db' = db")
  case True
  then show ?thesis by (simp add: untouched)
next
  case False
  with assms obtain y where v: "verify_requester_org_access db r org = Inr y"
    and d: "db' = remove_user_from_org db i org"
    unfolding remove_user_from_organization_def by (auto split: if_split_asm sum.split_asm)
  have "filter (\<lambda>m. mb_org m \<noteq> org) (filter (\<lambda>m. \<not> (mb_user m = i \<and> mb_org m = org)) ms)
      = filter (\<lambda>m. mb_org m \<noteq> org) ms" for ms
    by (induction ms) auto
  then have "user_change db r db'"
    by (intro members [of db' db r org])
      (use v in \<open>auto simp add: d remove_user_from_org_def org_access_Inr distinct_map inj_on_def\<close>)
  then show ?thesis by (simp add: d remove_user_from_org_def)
qed


section \<open>Organizations and sections\<close>

lemma user_part_simps [simp]:
  "user_part (db\<lparr>ac_orgs := gs\<rparr>) = user_part db" "user_part (db\<lparr>ac_sections := ss\<rparr>) = user_part db"
  "user_part (db\<lparr>ac_next_org := k\<rparr>) = user_part db" "user_part (db\<lparr>ac_next_section := k\<rparr>) = user_part db"
  "user_part (db\<lparr>ac_child_rows := cs\<rparr>) = user_part db" "user_part (db\<lparr>ac_employee_rows := cs\<rparr>) = user_part db"
  by (simp_all add: user_part_def)

inductive org_change :: "account_db \<Rightarrow> nat \<Rightarrow> account_db \<Rightarrow> bool" for db r db' where
  untouched: "org_part db' = org_part db \<Longrightarrow> org_change db r db'"
| founded: "org_part db' = (ac_orgs db @ [g], Suc (ac_next_org db), ac_sections db @ [s], Suc (ac_next_section db)) \<Longrightarrow>
    og_id g = ac_next_org db \<Longrightarrow> sc_id s = ac_next_section db \<Longrightarrow> sc_org s = ac_next_org db \<Longrightarrow> sc_default s \<Longrightarrow>
    \<not> sc_deleted s \<Longrightarrow> is_super_admin db r \<Longrightarrow> org_change db r db'"
| org_edited: "org_part db' = (map (\<lambda>g. if og_id g = org then f g else g) (ac_orgs db), ac_next_org db, ac_sections db,
      ac_next_section db) \<Longrightarrow> \<forall>g. og_id (f g) = og_id g \<Longrightarrow>
    is_super_admin db r \<or> get_role_in_org db r org = role_admin \<Longrightarrow> org_change db r db'"
| dissolved: "org_part db' = (filter (\<lambda>g. og_id g \<noteq> org) (ac_orgs db), ac_next_org db,
      filter (\<lambda>s. sc_org s \<noteq> org) (ac_sections db), ac_next_section db) \<Longrightarrow> is_super_admin db r \<Longrightarrow> org_change db r db'"
| section_added: "org_part db' = (ac_orgs db, ac_next_org db, ac_sections db @ [s], Suc (ac_next_section db)) \<Longrightarrow>
    sc_id s = ac_next_section db \<Longrightarrow> \<not> sc_default s \<Longrightarrow> sc_org s \<in> og_id ` set (ac_orgs db) \<Longrightarrow>
    is_super_admin db r \<or> get_role_in_org db r (sc_org s) = role_admin \<Longrightarrow> org_change db r db'"
| section_edited: "org_part db' = (ac_orgs db, ac_next_org db, map (\<lambda>x. if sc_id x = sc_id s then t else x) (ac_sections db),
      ac_next_section db) \<Longrightarrow> s \<in> set (ac_sections db) \<Longrightarrow> sc_id t = sc_id s \<Longrightarrow> sc_org t = sc_org s \<Longrightarrow>
    sc_default t = sc_default s \<Longrightarrow> sc_deleted t = sc_deleted s \<or> \<not> sc_default s \<Longrightarrow>
    is_super_admin db r \<or> get_role_in_org db r (sc_org s) = role_admin \<Longrightarrow> org_change db r db'"
| promoted: "org_part db' = org_part (store_promote_to_default db (sc_id s) (sc_org s)) \<Longrightarrow> s \<in> set (ac_sections db) \<Longrightarrow>
    \<not> sc_deleted s \<Longrightarrow> is_super_admin db r \<or> get_role_in_org db r (sc_org s) = role_admin \<Longrightarrow> org_change db r db'"

lemma owned_section_Inr:
  "owned_section db i org = Inr s \<Longrightarrow> s \<in> set (ac_sections db) \<and> sc_id s = i \<and> sc_org s = org \<and> \<not> sc_deleted s"
  by (auto simp add: owned_section_def find_section_by_id_def find_Some_iff verify_org_ownership_def ensureE_def
      split: sum.splits option.splits if_splits)

lemma create_organization_change:
  assumes "create_organization lower db req by_whom = (x, db')" and "is_super_admin db r"
  shows "org_change db r db' \<and> user_part db' = user_part db"
proof (cases "db' = db")
  case True
  then show ?thesis by (simp add: org_change.untouched)
next
  case False
  with assms(1) obtain nm sn g where "create_with_default_section lower db
      \<lparr>og_id = 0, og_name = nm, og_active = oc_active req, og_state = oc_state req, og_created_by = by_whom,
       og_deleted = False\<rparr>
      \<lparr>sc_id = 0, sc_org = 0, sc_name = sn, sc_default = True, sc_min_age = None, sc_max_age = None,
       sc_created_by = by_whom, sc_deleted = False\<rparr> = Inr (g, db')"
    unfolding create_organization_def by (auto split: if_split_asm sum.split_asm prod.split_asm)
  then show ?thesis
    using assms(2)
    by (auto simp add: create_with_default_section_def insert_org_def insert_section_def Let_def result_simps org_part_def
        split: if_split_asm intro!: founded)
qed

lemma update_organization_change:
  assumes "update_organization db org req = (x, db')"
    and "is_super_admin db r \<or> get_role_in_org db r org = role_admin"
  shows "org_change db r db' \<and> user_part db' = user_part db"
proof (cases "db' = db")
  case True
  then show ?thesis by (simp add: org_change.untouched)
next
  case False
  from assms(1) False obtain g where g: "find_org_by_id db org = Inr g"
    unfolding update_organization_def by (auto split: sum.split_asm)
  define g' where "g' = g\<lparr>og_name := (case ou_name req of None \<Rightarrow> og_name g | Some n \<Rightarrow> trim_space n),
      og_active := (case ou_active req of None \<Rightarrow> og_active g | Some b \<Rightarrow> b),
      og_state := (case ou_state req of None \<Rightarrow> og_state g | Some st \<Rightarrow> st)\<rparr>"
  from assms(1) False g have s: "save_org db g' = Inr db'"
    unfolding update_organization_def Let_def g'_def by (auto split: if_split_asm sum.split_asm)
  have i: "og_id g' = org" using g by (auto simp add: g'_def find_org_by_id_def find_Some_iff split: option.splits)
  have d: "db' = db\<lparr>ac_orgs := map (\<lambda>r. if og_id r = org then g' else r) (ac_orgs db)\<rparr>"
    using s i by (auto simp add: save_org_def split: if_splits)
  have "org_change db r db'"
    by (rule org_edited [of db' org "\<lambda>r. if og_id r = org then g' else r"])
      (use assms(2) i in \<open>simp_all add: d org_part_def if_distrib cong: map_cong\<close>)
  then show ?thesis by (simp add: d)
qed


lemma delete_organization_change:
  assumes "delete_organization db org = (x, db')" and "is_super_admin db r"
  shows "org_change db r db' \<and> user_part db' = user_part db"
proof -
  have d: "db' = soft_delete_org db org" using assms(1) by (simp add: delete_organization_def)
  have "org_change db r db'"
    by (rule org_edited [of db' org "\<lambda>g. g\<lparr>og_deleted := True\<rparr>"])
      (use assms(2) in \<open>simp_all add: d soft_delete_org_def org_part_def\<close>)
  then show ?thesis by (simp add: d soft_delete_org_def)
qed

lemma purge_organization_change:
  assumes "hard_delete_organization db org = (x, db')" and "is_super_admin db r"
  shows "org_change db r db' \<and> (user_part db' = user_part db \<or>
    user_part db' = (account_users db, ac_next_user db, filter (\<lambda>m. mb_org m \<noteq> org) (ac_members db)))"
  using assms
  by (auto simp add: hard_delete_organization_def purge_org_def org_part_def user_part_def org_change.untouched
      split: sum.split_asm intro!: dissolved [of _ org])

lemma create_section_change:
  assumes "create_section lower db org name low high by_whom = (x, db')"
    and a: "is_super_admin db r \<or> get_role_in_org db r org = role_admin"
  shows "org_change db r db' \<and> user_part db' = user_part db"
proof (cases "db' = db")
  case True
  then show ?thesis by (simp add: org_change.untouched)
next
  case False
  with assms(1) obtain n s where "insert_section lower db
      \<lparr>sc_id = 0, sc_org = org, sc_name = n, sc_default = False, sc_min_age = low, sc_max_age = high,
       sc_created_by = by_whom, sc_deleted = False\<rparr> = Inr (s, db')"
    unfolding create_section_def by (auto split: if_split_asm sum.split_asm prod.split_asm)
  then show ?thesis
    using a by (auto simp add: insert_section_def Let_def result_simps org_part_def list_ex_iff
        intro!: section_added [where s = s])
qed

lemma update_section_change:
  assumes "update_section lower db i org req = (x, db')"
    and a: "is_super_admin db r \<or> get_role_in_org db r org = role_admin"
  shows "org_change db r db' \<and> user_part db' = user_part db"
proof (cases "db' = db")
  case True
  then show ?thesis by (simp add: org_change.untouched)
next
  case False
  from assms(1) False obtain s where o1: "owned_section db i org = Inr s"
    unfolding update_section_def by (auto split: sum.split_asm)
  define s' where "s' = s\<lparr>sc_name := (case sr_name req of None \<Rightarrow> sc_name s | Some n \<Rightarrow> trim_space n),
      sc_min_age := sr_min_age req, sc_max_age := sr_max_age req\<rparr>"
  from assms(1) False o1 have "save_section lower db s' = Inr db'"
    unfolding update_section_def Let_def s'_def by (auto split: if_split_asm sum.split_asm)
  then have d: "db' = db\<lparr>ac_sections := map (\<lambda>r. if sc_id r = sc_id s then s' else r) (ac_sections db)\<rparr>"
    by (auto simp add: save_section_def result_simps s'_def)
  have "org_change db r db'"
    by (rule section_edited [where s = s and t = s'])
      (use owned_section_Inr [OF o1] a in \<open>simp_all add: d org_part_def s'_def\<close>)
  then show ?thesis by (simp add: d)
qed

lemma promote_section_change:
  assumes "promote_to_default db i org = (x, db')"
    and a: "is_super_admin db r \<or> get_role_in_org db r org = role_admin"
  shows "org_change db r db' \<and> user_part db' = user_part db"
proof (cases "owned_section db i org")
  case (Inl e)
  then show ?thesis using assms(1) by (simp add: promote_to_default_def org_change.untouched)
next
  case (Inr s)
  then have "db' = store_promote_to_default db i org" using assms(1) by (simp add: promote_to_default_def)
  then show ?thesis
    using promoted [where s = s] owned_section_Inr [OF Inr] a by (simp add: store_promote_to_default_def Let_def)
qed

lemma delete_section_change:
  assumes "delete_section db this_day i org = (x, db')" and d: "distinct (map sc_id (ac_sections db))"
    and a: "is_super_admin db r \<or> get_role_in_org db r org = role_admin"
  shows "org_change db r db' \<and> user_part db' = user_part db"
proof (cases "db' = db")
  case True
  then show ?thesis by (simp add: org_change.untouched)
next
  case False
  from assms(1) False obtain s where s: "owned_section db i org = Inr s" "\<not> sc_default s"
    and d': "db' = soft_delete_section db i"
    unfolding delete_section_def Let_def by (auto split: if_split_asm sum.split_asm)
  note own = owned_section_Inr [OF s(1)]
  have "map (\<lambda>s. if sc_id s = i then s\<lparr>sc_deleted := True\<rparr> else s) (ac_sections db)
      = map (\<lambda>x. if sc_id x = sc_id s then s\<lparr>sc_deleted := True\<rparr> else x) (ac_sections db)"
    using own by (auto dest: same_key [OF d])
  then have "org_change db r db'"
    by (intro section_edited [where s = s and t = "s\<lparr>sc_deleted := True\<rparr>"])
      (use own a s(2) in \<open>simp_all add: d' org_part_def soft_delete_section_def\<close>)
  then show ?thesis by (simp add: d' soft_delete_section_def)
qed

section \<open>Every request\<close>

lemma grants_only_admin:
  "enforce default_policies role ''*'' ''sections'' act \<Longrightarrow> act \<in> {''create'', ''update'', ''delete''} \<Longrightarrow> role = role_admin"
  "enforce default_policies role ''*'' ''organizations'' ''update'' \<Longrightarrow> role = role_admin"
  by (auto simp add: enforce_def default_policies_def admin_policies_def manager_policies_def member_policies_def
      staff_policies_def grants_def)

lemma require_permission_Inr:
  "require_permission ps db res act (Some r) par = Inr org \<Longrightarrow>
     live_org db org \<and> (is_super_admin db r \<or> enforce ps (get_role_in_org db r org) ''*'' res act)"
  by (auto simp add: require_permission_def check_permission_def Let_def split: if_splits option.splits)

lemma require_super_admin_Inr: "require_super_admin db (Some r) = Inr u \<Longrightarrow> is_super_admin db r"
  by (simp add: require_super_admin_def split: if_splits)

end
