(* ===== verification/MfaLaws.thy ===== *)
theory MfaLaws
  imports Login
begin

text \<open>
  Lemmas on the authentication tables: what every primitive keeps (\<open>store_ok\<close>), what only ever
  grows (\<open>progress\<close>), and the policy on factors (\<open>policy_ok\<close>).
\<close>

section \<open>Keys\<close>

definition store_ok :: "auth_db \<Rightarrow> bool" where
  "store_ok db \<longleftrightarrow>
     distinct (map fa_id (db_factors db)) \<and> (\<forall>f \<in> set (db_factors db). fa_id f < db_next_factor db) \<and>
     distinct (map ts_factor (db_secrets db)) \<and> (\<forall>s \<in> set (db_secrets db). ts_factor s < db_next_factor db) \<and>
     distinct (map bc_id (db_codes db)) \<and>
     (\<forall>c \<in> set (db_codes db). bc_id c < db_next_code db \<and> bc_factor c < db_next_factor db)"

definition step_le :: "int option \<Rightarrow> int option \<Rightarrow> bool" where
  "step_le a b \<longleftrightarrow> (case a of None \<Rightarrow> True | Some x \<Rightarrow> (case b of None \<Rightarrow> False | Some y \<Rightarrow> x \<le> y))"

text \<open>
  From one state of the tables to a later one: a secret or a code is a fresh one, or the row of
  the same key, whose content is the same, whose last step has not decreased, and which is used
  if it was.
\<close>

definition progress :: "auth_db \<Rightarrow> auth_db \<Rightarrow> bool" where
  "progress db db' \<longleftrightarrow>
     db_next_factor db \<le> db_next_factor db' \<and> db_next_code db \<le> db_next_code db' \<and>
     (\<forall>s' \<in> set (db_secrets db'). db_next_factor db \<le> ts_factor s' \<or>
        (\<exists>s \<in> set (db_secrets db). ts_factor s = ts_factor s' \<and> ts_ciphertext s = ts_ciphertext s' \<and>
           ts_nonce s = ts_nonce s' \<and> step_le (ts_last_step s) (ts_last_step s'))) \<and>
     (\<forall>c' \<in> set (db_codes db'). db_next_code db \<le> bc_id c' \<or>
        (\<exists>c \<in> set (db_codes db). bc_id c = bc_id c' \<and> bc_factor c = bc_factor c' \<and> bc_hash c = bc_hash c' \<and>
           (bc_used_at c \<noteq> None \<longrightarrow> bc_used_at c' = bc_used_at c)))"

lemma step_le_refl [simp]: "step_le a a"
  by (cases a) (simp_all add: step_le_def)

lemma step_le_trans: "step_le a b \<Longrightarrow> step_le b c \<Longrightarrow> step_le a c"
  by (auto simp add: step_le_def split: option.splits)

lemma progress_refl [simp]: "progress db db"
  by (auto simp add: progress_def)

lemma progress_trans [trans]:
  assumes "progress a b" and "progress b c"
  shows "progress a c"
  unfolding progress_def
proof (intro conjI ballI)
  show "db_next_factor a \<le> db_next_factor c" "db_next_code a \<le> db_next_code c"
    using assms by (auto simp add: progress_def)
next
  fix s' assume "s' \<in> set (db_secrets c)"
  with assms(2) consider "db_next_factor b \<le> ts_factor s'"
    | s where "s \<in> set (db_secrets b)" "ts_factor s = ts_factor s'" "ts_ciphertext s = ts_ciphertext s'"
      "ts_nonce s = ts_nonce s'" "step_le (ts_last_step s) (ts_last_step s')"
    unfolding progress_def by blast
  then show "db_next_factor a \<le> ts_factor s' \<or>
      (\<exists>s \<in> set (db_secrets a). ts_factor s = ts_factor s' \<and> ts_ciphertext s = ts_ciphertext s' \<and>
         ts_nonce s = ts_nonce s' \<and> step_le (ts_last_step s) (ts_last_step s'))"
  proof cases
    case 1
    then show ?thesis using assms(1) unfolding progress_def by linarith
  next
    case (2 s)
    with assms(1) step_le_trans show ?thesis unfolding progress_def by metis
  qed
next
  fix c' assume "c' \<in> set (db_codes c)"
  with assms(2) consider "db_next_code b \<le> bc_id c'"
    | x where "x \<in> set (db_codes b)" "bc_id x = bc_id c'" "bc_factor x = bc_factor c'"
      "bc_hash x = bc_hash c'" "bc_used_at x \<noteq> None \<longrightarrow> bc_used_at c' = bc_used_at x"
    unfolding progress_def by blast
  then show "db_next_code a \<le> bc_id c' \<or>
      (\<exists>x \<in> set (db_codes a). bc_id x = bc_id c' \<and> bc_factor x = bc_factor c' \<and> bc_hash x = bc_hash c' \<and>
         (bc_used_at x \<noteq> None \<longrightarrow> bc_used_at c' = bc_used_at x))"
  proof cases
    case 1
    then show ?thesis using assms(1) unfolding progress_def by linarith
  next
    case (2 x)
    with assms(1) show ?thesis unfolding progress_def by metis
  qed
qed

lemma key_kept [simp]:
  "(\<And>x. key (g x) = key x) \<Longrightarrow> key \<circ> (\<lambda>x. if P x then g x else x) = key"
  "(\<And>x. key (g x) = key x) \<Longrightarrow> key (if P x then g x else x) = key x"
  by auto

text \<open>A step is good when it keeps the keys in order and makes progress.\<close>

definition good :: "auth_db \<Rightarrow> auth_db \<Rightarrow> bool" where
  "good db db' \<longleftrightarrow> (store_ok db \<longrightarrow> store_ok db' \<and> progress db db')"

lemma good_refl [simp]: "good db db"
  by (simp add: good_def)

lemma good_trans [trans]: "good a b \<Longrightarrow> good b c \<Longrightarrow> good a c"
  unfolding good_def using progress_trans by blast

lemma goodI: "(store_ok db \<Longrightarrow> store_ok db') \<Longrightarrow> (store_ok db \<Longrightarrow> progress db db') \<Longrightarrow> good db db'"
  by (simp add: good_def)

lemma good_store: "good db db' \<Longrightarrow> store_ok db \<Longrightarrow> store_ok db'"
  by (simp add: good_def)

text \<open>Steps that touch no key, no secret and no code.\<close>

lemma good_frame:
  assumes "map fa_id (db_factors db') = map fa_id (db_factors db)"
    and "db_next_factor db' = db_next_factor db" and "db_secrets db' = db_secrets db"
    and "db_codes db' = db_codes db" and "db_next_code db' = db_next_code db"
  shows "good db db'"
proof -
  have "fa_id ` set (db_factors db') = fa_id ` set (db_factors db)"
    using assms(1) by (metis set_map)
  moreover have "(\<forall>f \<in> set fs. fa_id f < n) = (\<forall>i \<in> fa_id ` set fs. i < n)" for n and fs :: "factor list"
    by simp
  ultimately have "(\<forall>f \<in> set (db_factors db'). fa_id f < n) = (\<forall>f \<in> set (db_factors db). fa_id f < n)" for n
    by (simp only:)
  then show ?thesis using assms by (auto simp add: good_def store_ok_def progress_def)
qed

lemma good_touch: "good db (touch_last_used db i now)"
  by (rule good_frame) (auto simp add: touch_last_used_def)

lemma good_activate: "good db (snd (activate_factor db i u now))"
  by (rule good_frame) (auto simp add: activate_factor_def Let_def)

lemma good_increment: "increment_activation_failures db i u = Inr (n, db') \<Longrightarrow> good db db'"
  by (rule good_frame)
    (auto simp add: increment_activation_failures_def Let_def split: if_splits option.splits)

lemma good_label: "good db (snd (update_label_row db i u l))"
  by (rule good_frame) (auto simp add: update_label_row_def Let_def)

lemma good_challenge: "good db (set_registration_challenge db i c e)" "good db (clear_registration_challenge db i)"
  by (rule good_frame; auto simp add: set_registration_challenge_def clear_registration_challenge_def)+

lemma good_sign_count: "good db (update_webauthn_sign_count db i n b)"
  by (rule good_frame) (simp_all add: update_webauthn_sign_count_def)

lemma good_credential: "create_webauthn_credential db c = Inr db' \<Longrightarrow> good db db'"
  by (rule good_frame) (auto simp add: create_webauthn_credential_def split: if_splits)

lemma create_factor_Inr:
  assumes "create_factor db f = Inr (f', db')"
  shows "f' = f\<lparr>fa_id := db_next_factor db\<rparr>"
    "db' = db\<lparr>db_factors := db_factors db @ [f'], db_next_factor := Suc (db_next_factor db)\<rparr>"
  using assms by (auto simp add: create_factor_def Let_def split: if_splits)

lemma good_create_factor: "create_factor db f = Inr (f', db') \<Longrightarrow> good db db'"
  by (frule create_factor_Inr(1), drule create_factor_Inr(2))
    (auto simp add: good_def store_ok_def progress_def less_Suc_eq)

lemma good_remove: "good db (remove_factors db p)"
proof (rule goodI)
  assume "store_ok db"
  then show "store_ok (remove_factors db p)"
    by (auto simp add: store_ok_def remove_factors_def Let_def distinct_map inj_on_def)
  show "progress db (remove_factors db p)"
    by (auto simp add: progress_def remove_factors_def Let_def)
qed

lemma good_delete: "good db (snd (delete_factor_row db i u))"
  by (simp add: delete_factor_row_def good_remove Let_def)

lemma good_cleanup: "good db (cleanup_abandoned_pending db now a)"
  by (simp add: cleanup_abandoned_pending_def good_remove)

lemma good_accept: "good db (snd (accept_totp_step db i step))"
proof (rule goodI)
  show "progress db (snd (accept_totp_step db i step))"
    by (force simp add: progress_def accept_totp_step_def Let_def step_le_def split: option.splits)
  assume "store_ok db"
  then show "store_ok (snd (accept_totp_step db i step))"
    by (auto simp add: store_ok_def accept_totp_step_def Let_def)
qed

lemma good_mark: "good db (snd (mark_backup_code_used db i now))"
proof (rule goodI)
  show "progress db (snd (mark_backup_code_used db i now))"
    by (force simp add: progress_def mark_backup_code_used_def Let_def)
  assume "store_ok db"
  then show "store_ok (snd (mark_backup_code_used db i now))"
    by (auto simp add: store_ok_def mark_backup_code_used_def Let_def)
qed

section \<open>Operations are good\<close>

lemma andThen_cases:
  assumes "andThen m k = (r, db')"
  obtains e where "m = (Inl e, db')" "r = Inl e" | x db1 where "m = (Inr x, db1)" "k x db1 = (r, db')"
  using assms by (cases m; cases "fst m") auto

lemma good_andThen:
  assumes "good db (snd m)" and "\<And>x db1. m = (Inr x, db1) \<Longrightarrow> good db1 (snd (k x db1))"
  shows "good db (snd (andThen m k))"
proof (cases m)
  case (Pair r db1)
  show ?thesis
  proof (cases r)
    case (Inl e)
    then show ?thesis using assms(1) Pair by simp
  next
    case (Inr x)
    have "good db db1" using assms(1) Pair by simp
    also have "good db1 (snd (k x db1))" using assms(2) Pair Inr by simp
    finally show ?thesis using Pair Inr by simp
  qed
qed

lemma good_try_totp: "good db (snd (try_totp_code env db now i code))"
proof -
  have "good db (touch_last_used (snd (accept_totp_step db i s)) i now)" for s
    using good_trans good_accept good_touch by blast
  then show ?thesis using good_accept [of db i]
    by (auto simp add: try_totp_code_def split_beta split: sum.split option.split)
qed

lemma good_verify_totp: "good db (snd (verify_totp_for_activation env db now i code))"
  using good_accept [of db i]
  by (auto simp add: verify_totp_for_activation_def split_beta split: sum.split option.split)

lemma good_try_backup: "good db (snd (try_backup_code env db now i code))"
proof -
  have "good db (touch_last_used (snd (mark_backup_code_used db j now)) i now)" for j
    using good_trans good_mark good_touch by blast
  then show ?thesis using good_mark [of db]
    by (auto simp add: try_backup_code_def Let_def split_beta split: option.split)
qed

text \<open>The attempt on one factor inside \<open>verifyAnyFactorCode\<close>.\<close>

definition try_factor :: "mfa_env \<Rightarrow> auth_db \<Rightarrow> int \<Rightarrow> string \<Rightarrow> factor \<Rightarrow> bool \<times> auth_db" where
  "try_factor env db now code f =
     (if fa_type f = totp then try_totp_code env db now (fa_id f) code
      else if fa_type f = backup_codes then try_backup_code env db now (fa_id f) code
      else (False, db))"

lemma try_factors_Cons:
  "try_factors env db now code (f # fs) =
     (case try_factor env db now code f of
        (ok, db1) \<Rightarrow> if ok then (True, db1) else try_factors env db1 now code fs)"
  by (simp add: try_factor_def split: bool.split prod.split)

declare try_factors.simps(2) [simp del]

lemma good_try_factor: "good db (snd (try_factor env db now code f))"
  by (simp add: try_factor_def good_try_totp good_try_backup)

lemma good_try_factors: "good db (snd (try_factors env db now code fs))"
proof (induction fs arbitrary: db)
  case (Cons f fs)
  have "good db (snd (try_factor env db now code f))" by (rule good_try_factor)
  with Cons.IH good_trans show ?case
    by (auto simp add: try_factors_Cons split_beta)
qed simp

lemma good_step_up: "good db (snd (verify_step_up_mfa env db now u code))"
  using good_try_factors by (simp add: verify_step_up_mfa_def verify_any_factor_code_def split_beta)

lemma good_login_code: "good db (snd (verify_code_for_login env db now u i code))"
  using good_try_totp good_try_backup
  by (auto simp add: verify_code_for_login_def split_beta split: sum.split)

lemma good_assertion: "good db (snd (verify_webauthn_assertion env db now u i session response))"
proof -
  have "good db (touch_last_used (update_webauthn_sign_count db i n b) i now)" for n b
    using good_trans good_sign_count good_touch by blast
  then show ?thesis by (auto simp add: verify_webauthn_assertion_def split: sum.split)
qed

lemma good_drop_pending: "good db (drop_pending db u ty)"
  using good_delete by (auto simp add: drop_pending_def split: sum.split)

lemma good_enroll_rows:
  assumes "create_factor db f = Inr (f', db1)" and "create_totp_secret db1 s = Inr db2"
    and "ts_factor s = fa_id f'"
  shows "good db db2"
proof (rule goodI)
  note c = create_factor_Inr [OF assms(1)]
  have s: "db2 = db1\<lparr>db_secrets := db_secrets db1 @ [s]\<rparr>"
    using assms(2) by (auto simp add: create_totp_secret_def split: if_splits)
  show "progress db db2" unfolding s c(2) using assms(3) c(1) by (auto simp add: progress_def)
  assume "store_ok db"
  then show "store_ok db2" unfolding s c(2) using assms(3) c(1)
    by (auto simp add: store_ok_def less_Suc_eq)
qed

lemma good_enroll_totp: "good db (snd (enroll_totp env db now u l p c secret nonce))"
  unfolding enroll_totp_def
proof (intro good_andThen)
  fix x y db0 db1
  let ?d = "drop_pending db1 u totp"
  show "good db1 (snd (let db1 = ?d
     in case create_factor db1 (new_factor u totp l None now) of
          Inl e \<Rightarrow> (Inl (internal_wrap e ''create factor''), db1)
        | Inr (f, db2) \<Rightarrow>
            (case create_totp_secret db2
                    \<lparr>ts_factor = fa_id f, ts_ciphertext = me_seal env secret nonce (totp_aad (fa_id f)),
                     ts_nonce = nonce, ts_last_step = None\<rparr> of
               Inl e \<Rightarrow> (Inl (internal_wrap e ''create totp secret''), db2)
             | Inr db3 \<Rightarrow> (Inr (f, secret), db3))))"
    using good_drop_pending good_create_factor good_enroll_rows good_trans
    by (auto simp add: Let_def split: sum.split) (meson totp_secret.select_convs(1))+
qed (use good_step_up in auto)

lemma good_enroll_webauthn: "good db (snd (enroll_webauthn env db now u l p c a d))"
proof (cases "me_webauthn env")
  case True
  show ?thesis unfolding enroll_webauthn_def
    using True good_drop_pending good_create_factor good_challenge(1) good_trans
    by (auto simp add: Let_def split: sum.split intro!: good_andThen good_step_up) meson+
qed (simp add: enroll_webauthn_def)

lemma good_insert_codes:
  assumes "\<And>c. c \<in> set cs \<Longrightarrow> bc_factor c < db_next_factor db"
  shows "good db (insert_backup_codes db cs)"
proof (rule goodI)
  let ?new = "map (\<lambda>(k, c). c\<lparr>bc_id := k\<rparr>) (zip [db_next_code db ..< db_next_code db + length cs] cs)"
  have ids: "map bc_id ?new = [db_next_code db ..< db_next_code db + length cs]"
    by (rule nth_equalityI) auto
  have range: "db_next_code db \<le> bc_id c \<and> bc_id c < db_next_code db + length cs \<and>
      bc_factor c < db_next_factor db" if "c \<in> set ?new" for c
    using that assms by (auto simp add: dest: set_zip_leftD set_zip_rightD)
  show "progress db (insert_backup_codes db cs)"
    using range by (auto simp add: progress_def insert_backup_codes_def)
  assume ok: "store_ok db"
  have "distinct (map bc_id (db_codes db @ ?new))"
    using ok range by (force simp add: store_ok_def ids simp del: map_map)
  then show "store_ok (insert_backup_codes db cs)"
    using ok range by (fastforce simp add: store_ok_def insert_backup_codes_def)
qed

lemma good_replace_codes:
  assumes "store_ok db" and "replace_backup_codes db i (code_rows i now hs) = Inr db'"
  shows "good db db'"
proof -
  have f: "\<exists>f \<in> set (db_factors db). fa_id f = i"
    and db': "db' = insert_backup_codes (db\<lparr>db_codes := filter (\<lambda>c. bc_factor c \<noteq> i) (db_codes db)\<rparr>) (code_rows i now hs)"
    using assms(2) by (auto simp add: replace_backup_codes_def list_ex_iff split: if_splits)
  have "good db (db\<lparr>db_codes := filter (\<lambda>c. bc_factor c \<noteq> i) (db_codes db)\<rparr>)"
    by (auto simp add: good_def store_ok_def progress_def distinct_map inj_on_def)
  also have "good (db\<lparr>db_codes := filter (\<lambda>c. bc_factor c \<noteq> i) (db_codes db)\<rparr>) db'"
    unfolding db' by (rule good_insert_codes)
      (use assms(1) f in \<open>auto simp add: store_ok_def code_rows_def\<close>)
  finally show ?thesis .
qed

lemma find_by_id_and_user_Inr:
  assumes "find_by_id_and_user db i u = Inr f"
  shows "f \<in> set (db_factors db)" "fa_id f = i" "fa_user f = u"
  using assms by (auto simp add: find_by_id_and_user_def find_Some_iff split: option.splits)

lemma good_ensure: "good db (snd (ensure_backup_codes_factor env db now u draw))"
proof -
  have "good db (insert_backup_codes db1 (code_rows (fa_id f) now hs))"
    if "create_factor db g = Inr (f, db1)" for g f db1 hs
  proof -
    note c = create_factor_Inr [OF that]
    have "good db db1" by (rule good_create_factor [OF that])
    also have "good db1 (insert_backup_codes db1 (code_rows (fa_id f) now hs))"
      by (rule good_insert_codes) (use c in \<open>auto simp add: code_rows_def\<close>)
    finally show ?thesis .
  qed
  then show ?thesis
    by (auto simp add: ensure_backup_codes_factor_def split_beta split: sum.split)
qed

lemma good_activate_webauthn: "good db (snd (activate_webauthn_factor env db now u f response))"
proof -
  have "good db (clear_registration_challenge db1 i)" if "create_webauthn_credential db c = Inr db1" for c db1 i
    using good_trans good_credential [OF that] good_challenge(2) by blast
  then show ?thesis using good_delete
    by (auto simp add: activate_webauthn_factor_def split: sum.split option.split)
qed

lemma good_count_wrong: "good db (snd (count_wrong_code db u f err))"
  using good_increment good_delete good_trans
  by (auto simp add: count_wrong_code_def split: sum.split) blast

lemma good_activate_op: "good db (snd (activate_factor_op env db now u i c r draw))"
proof (cases "find_by_id_and_user db i u")
  case (Inr f)
  have v: "good db (snd (case verify_totp_for_activation env db now (fa_id f) c of
        (Inr x, db1) \<Rightarrow> (Inr x, db1) | (Inl err, db1) \<Rightarrow> apfst Inl (count_wrong_code db1 u f err)))"
  proof (cases "verify_totp_for_activation env db now (fa_id f) c")
    case (Pair x db1)
    have "good db db1" using good_verify_totp [of db env now "fa_id f" c] Pair by simp
    with good_count_wrong good_trans show ?thesis using Pair by (cases x) auto
  qed
  have e: "good db1 (snd (case activate_factor db1 (fa_id f) u now of
      (activated, db2) \<Rightarrow> if \<not> activated then (Inl (conflict ''factor already activated''), db2)
        else if fa_type f \<noteq> backup_codes
          then (case ensure_backup_codes_factor env db2 now u draw of (payload, db3) \<Rightarrow> (Inr payload, db3))
        else (Inr None, db2)))" for db1
  proof -
    have a: "good db1 (snd (activate_factor db1 (fa_id f) u now))" by (rule good_activate)
    then show ?thesis
      using good_trans [OF a good_ensure [of _ env now u draw]] by (auto simp add: split_beta)
  qed
  show ?thesis unfolding activate_factor_op_def Inr sum.case
    using v good_activate_webauthn by (auto intro!: good_andThen e)
qed (simp add: activate_factor_op_def)

lemma good_delete_op: "good db (snd (delete_factor_op env db now u i p c))"
proof -
  have d: "good db1 (snd (case delete_factor_row db1 i u of
     (rows, db1) \<Rightarrow>
       if rows = 0 then (Inl (not_found ''factor''), db1)
       else if Q then (case find_backup_codes_factor db1 u of
                 Inl e \<Rightarrow> (Inr (), db1)
               | Inr bf \<Rightarrow> (Inr (), snd (delete_factor_row db1 (fa_id bf) u)))
       else (Inr (), db1)))" for db1 Q
  proof -
    have a: "good db1 (snd (delete_factor_row db1 i u))" by (rule good_delete)
    then show ?thesis using good_trans [OF a good_delete] by (auto simp add: split_beta split: sum.split)
  qed
  show ?thesis unfolding delete_factor_op_def Let_def
    by (intro good_andThen) (auto intro!: good_andThen d good_step_up split: sum.split)
qed

lemma good_update_label: "good db (snd (update_label db u i l))"
  using good_label by (auto simp add: update_label_def split_beta split: sum.split)

lemma good_regenerate: "good db (snd (regenerate_backup_codes env db now u i p c draw))"
proof -
  have r: "good db1 (snd (case find_by_id_and_user db1 i u of
       Inl e \<Rightarrow> (Inl (if is_store_error e StoreNotFound then not_found ''factor''
                      else internal_wrap e ''find factor''), db1)
     | Inr f \<Rightarrow>
         if fa_type f \<noteq> backup_codes
           then (Inl (bad_request ''regenerate is only valid for backup_codes factors''), db1)
         else case draw_backup_codes env draw of
                (raw, hashed) \<Rightarrow>
                  (case replace_backup_codes db1 (fa_id f) (code_rows (fa_id f) now hashed) of
                     Inl e \<Rightarrow> (Inl (internal_wrap e ''replace backup codes''), db1)
                   | Inr db1 \<Rightarrow> (Inr (fa_id f, raw), db1))))" for db1
  proof (cases "store_ok db1")
    case True
    then show ?thesis using good_replace_codes
      by (auto simp add: split_beta split: sum.split)
  qed (simp add: good_def)
  show ?thesis unfolding regenerate_backup_codes_def
    by (intro good_andThen r good_step_up) simp
qed

section \<open>Sessions leave the factors alone\<close>

definition factor_part :: "auth_db \<Rightarrow> factor list \<times> nat \<times> totp_secret list \<times> backup_code list \<times> nat \<times> credential list" where
  "factor_part db = (db_factors db, db_next_factor db, db_secrets db, db_codes db, db_next_code db, db_credentials db)"

lemma factor_part_good: "factor_part db' = factor_part db \<Longrightarrow> good db db'"
  by (rule good_frame) (auto simp add: factor_part_def)

lemma factor_part_simps [simp]:
  "factor_part (log_event db a u e now) = factor_part db"
  "factor_part (remove_sessions db p) = factor_part db"
  "factor_part (delete_pending_mfa db h) = factor_part db"
  "factor_part (delete_session db h) = factor_part db"
  "factor_part (delete_all_for_user db v) = factor_part db"
  "factor_part (delete_all_for_user_except db v h) = factor_part db"
  "factor_part (cleanup_expired db now) = factor_part db"
  "factor_part (snd (delete_for_user db h v)) = factor_part db"
  "factor_part (update_user db r) = factor_part db"
  "factor_part (update_last_login db v now) = factor_part db"
  "factor_part (db\<lparr>db_users := us\<rparr>) = factor_part db"
  "factor_part (snd (issue_session env db now v raw ip ag)) = factor_part db"
  "factor_part (snd (issue_pending_mfa env db now v raw ip ag)) = factor_part db"
  by (auto simp add: factor_part_def log_event_def remove_sessions_def delete_pending_mfa_def
      delete_session_def delete_all_for_user_def delete_all_for_user_except_def cleanup_expired_def
      delete_for_user_def update_user_def update_last_login_def issue_session_def issue_pending_mfa_def
      create_session_def Let_def split: sum.splits if_splits)

lemma factor_part_bump: "bump_mfa_challenge_failures db now h = Inr (n, db') \<Longrightarrow> factor_part db' = factor_part db"
  by (auto simp add: bump_mfa_challenge_failures_def factor_part_def Let_def split: if_splits option.splits)

lemma factor_part_set_challenge: "set_pending_mfa_challenge db h ch = Inr db' \<Longrightarrow> factor_part db' = factor_part db"
  by (auto simp add: set_pending_mfa_challenge_def factor_part_def Let_def split: if_splits)

lemma factor_part_count_challenge: "factor_part (snd (count_challenge_failure db now h p unk)) = factor_part db"
  using factor_part_bump
  by (auto simp add: count_challenge_failure_def Let_def split: sum.split)

lemma factor_part_login: "factor_part (snd (login env db now e p raw ip ag)) = factor_part db"
proof -
  have "factor_part (snd (case issue_pending_mfa env db now u raw ip ag of
      (Inl e, db1) \<Rightarrow> (Inl e, db1)
    | (Inr p, db1) \<Rightarrow> (Inr (Pending p), log_event db1 a v m now))) = factor_part db" for u a v m
    using factor_part_simps(13) [of env db now u raw ip ag]
    by (cases "issue_pending_mfa env db now u raw ip ag"; cases "fst (issue_pending_mfa env db now u raw ip ag)") auto
  then show ?thesis by (auto simp add: login_def Let_def split: sum.split)
qed

lemma factor_part_change_password:
  "factor_part (snd (change_password env db now u c n s salt raw ip ag)) = factor_part db"
  by (auto simp add: change_password_def Let_def split: sum.split option.split)

lemma factor_part_begin: "factor_part (snd (begin_mfa_challenge env db now t i)) = factor_part db"
  using factor_part_set_challenge
  by (auto simp add: begin_mfa_challenge_def Let_def split: sum.split)

lemma factor_part_logout: "factor_part (snd (logout db now s u e)) = factor_part db"
  by (simp add: logout_def Let_def)

lemma factor_part_revoke: "factor_part (snd (revoke_session db now u s e)) = factor_part db"
  using factor_part_simps(8) [of db s u] by (simp add: revoke_session_def split_beta)

lemma good_dispatch: "good db (snd (dispatch_mfa_verify env db now p i c r))"
  using good_assertion good_login_code
  by (auto simp add: dispatch_mfa_verify_def split: sum.split option.split)

lemma good_verify_mfa: "good db (snd (verify_mfa_login env db now t i c r raw ip ag))"
proof -
  have "good db (snd (case dispatch_mfa_verify env db now p i c r of
      (Inl err, db1) \<Rightarrow>
        if is_sentinel err ErrNotFound then apfst Inl (count_challenge_failure db1 now h p True)
        else if is_sentinel err ErrUnauthorized then apfst Inl (count_challenge_failure db1 now h p False)
        else (Inl err, db1)
    | (Inr u, db1) \<Rightarrow>
        (let db2 = log_event (update_last_login (delete_pending_mfa db1 h) (lr_user p) now) ''login''
               (Some (lr_user p)) (lr_email p) now
         in issue_session env db2 now (lr_user p) raw ip ag)))" for p h
  proof (cases "dispatch_mfa_verify env db now p i c r")
    case (Pair x db1)
    have 1: "good db db1" using good_dispatch [of db env now p i c r] Pair by simp
    have 2: "good db db2" if "factor_part db2 = factor_part db1" for db2
      using good_trans [OF 1 factor_part_good [OF that]] .
    show ?thesis using Pair 1 2 factor_part_count_challenge
      by (cases x) (auto simp add: Let_def)
  qed
  then show ?thesis
    by (auto simp add: verify_mfa_login_def Let_def factor_part_good split: sum.split)
qed

lemma good_hard_delete: "good db (hard_delete_user db u)"
proof -
  have "good db (remove_factors db (\<lambda>f. fa_user f = u))" by (rule good_remove)
  also have "good (remove_factors db (\<lambda>f. fa_user f = u)) (hard_delete_user db u)"
    by (rule factor_part_good) (simp add: hard_delete_user_def factor_part_def)
  finally show ?thesis .
qed

theorem good_run_auth: "good db (run_auth env now op db)"
  by (cases op) (simp_all add: good_enroll_totp good_enroll_webauthn good_activate_op good_delete_op
      good_update_label good_regenerate good_cleanup good_verify_mfa good_hard_delete factor_part_good
      factor_part_login factor_part_change_password factor_part_begin factor_part_logout factor_part_revoke)

lemma reachable_store_ok: "auth_reachable env db \<Longrightarrow> store_ok db"
proof (induction rule: auth_reachable.induct)
  case start
  show ?case by (simp add: store_ok_def empty_auth_db_def)
next
  case (step db now op)
  then show ?case using good_store [OF good_run_auth] by blast
qed

end
