(* ===== verification/MfaPolicy.thy ===== *)
theory MfaPolicy
  imports MfaLaws
begin

text \<open>
  The policy on factors as an invariant: at most one row of recovery codes per user, never
  without an active primary factor; at most one pending factor per user and type; fewer wrong
  activation codes than the limit on every pending one. Then the sessions.
\<close>

definition policy_ok :: "factor list \<Rightarrow> bool" where
  "policy_ok fs \<longleftrightarrow>
     (\<forall>f \<in> set fs. fa_enabled_at f = None \<longrightarrow> fa_failures f < factor_activation_failure_limit) \<and>
     (\<forall>f \<in> set fs. \<forall>g \<in> set fs. fa_user f = fa_user g \<and> fa_type f = fa_type g \<and>
        (fa_type f = backup_codes \<or> fa_enabled_at f = None \<and> fa_enabled_at g = None) \<longrightarrow> fa_id f = fa_id g) \<and>
     (\<forall>f \<in> set fs. fa_type f = backup_codes \<longrightarrow> fa_enabled_at f \<noteq> None \<and>
        (\<exists>g \<in> set fs. fa_user g = fa_user f \<and> fa_type g \<noteq> backup_codes \<and> fa_enabled_at g \<noteq> None))"

text \<open>What the policy looks at.\<close>

definition view :: "factor \<Rightarrow> nat \<times> nat \<times> string \<times> bool \<times> int" where
  "view f = (fa_id f, fa_user f, fa_type f, fa_enabled_at f = None, fa_failures f)"

lemma viewD:
  assumes "view f = view g"
  shows "fa_id f = fa_id g" "fa_user f = fa_user g" "fa_type f = fa_type g"
    "(fa_enabled_at f = None) = (fa_enabled_at g = None)" "fa_failures f = fa_failures g"
  using assms by (simp_all add: view_def)

lemma policyI:
  assumes "\<And>f. f \<in> set fs \<Longrightarrow> fa_enabled_at f = None \<Longrightarrow> fa_failures f < factor_activation_failure_limit"
    and "\<And>f g. f \<in> set fs \<Longrightarrow> g \<in> set fs \<Longrightarrow> fa_user f = fa_user g \<Longrightarrow> fa_type f = fa_type g \<Longrightarrow>
      fa_type f = backup_codes \<or> fa_enabled_at f = None \<and> fa_enabled_at g = None \<Longrightarrow> fa_id f = fa_id g"
    and "\<And>f. f \<in> set fs \<Longrightarrow> fa_type f = backup_codes \<Longrightarrow> fa_enabled_at f \<noteq> None"
    and "\<And>f. f \<in> set fs \<Longrightarrow> fa_type f = backup_codes \<Longrightarrow>
      \<exists>g \<in> set fs. fa_user g = fa_user f \<and> fa_type g \<noteq> backup_codes \<and> fa_enabled_at g \<noteq> None"
  shows "policy_ok fs"
  unfolding policy_ok_def by (intro conjI ballI impI; (elim conjE)?; rule assms; assumption)

lemma policyD:
  assumes "policy_ok fs" and "f \<in> set fs"
  shows "fa_enabled_at f = None \<Longrightarrow> fa_failures f < factor_activation_failure_limit"
    "g \<in> set fs \<Longrightarrow> fa_user f = fa_user g \<Longrightarrow> fa_type f = fa_type g \<Longrightarrow>
      fa_type f = backup_codes \<or> fa_enabled_at f = None \<and> fa_enabled_at g = None \<Longrightarrow> fa_id f = fa_id g"
    "fa_type f = backup_codes \<Longrightarrow> fa_enabled_at f \<noteq> None"
  using assms unfolding policy_ok_def by blast+

lemma policy_primary:
  assumes "policy_ok fs" and "f \<in> set fs" and "fa_type f = backup_codes"
  obtains g where "g \<in> set fs" "fa_user g = fa_user f" "fa_type g \<noteq> backup_codes" "fa_enabled_at g \<noteq> None"
  using assms unfolding policy_ok_def by blast

lemma policy_same_view:
  assumes "policy_ok fs" and "view ` set fs' = view ` set fs"
  shows "policy_ok fs'"
proof (rule policyI)
  have down: "\<exists>f \<in> set fs. view f = view f'" if "f' \<in> set fs'" for f'
    using assms(2) that by (metis image_eqI imageE)
  have up: "\<exists>f' \<in> set fs'. view f' = view f" if "f \<in> set fs" for f
    using assms(2) that by (metis image_eqI imageE)
  {
    fix f assume f: "f \<in> set fs'"
    obtain f0 where f0: "f0 \<in> set fs" "view f0 = view f" using down [OF f] by blast
    note v = viewD [OF f0(2)]
    show "fa_enabled_at f = None \<Longrightarrow> fa_failures f < factor_activation_failure_limit"
      using policyD(1) [OF assms(1) f0(1)] v by simp
    show "fa_type f = backup_codes \<Longrightarrow> fa_enabled_at f \<noteq> None"
      using policyD(3) [OF assms(1) f0(1)] v by simp
    show "\<exists>g \<in> set fs'. fa_user g = fa_user f \<and> fa_type g \<noteq> backup_codes \<and> fa_enabled_at g \<noteq> None"
      if "fa_type f = backup_codes"
    proof -
      from that v have "fa_type f0 = backup_codes" by simp
      from policy_primary [OF assms(1) f0(1) this] obtain g0 where g0: "g0 \<in> set fs"
        "fa_user g0 = fa_user f0" "fa_type g0 \<noteq> backup_codes" "fa_enabled_at g0 \<noteq> None" .
      obtain g where "g \<in> set fs'" "view g = view g0" using up [OF g0(1)] by blast
      with g0 v viewD [of g g0] show ?thesis by metis
    qed
    fix g assume g: "g \<in> set fs'" "fa_user f = fa_user g" "fa_type f = fa_type g"
      "fa_type f = backup_codes \<or> fa_enabled_at f = None \<and> fa_enabled_at g = None"
    obtain g0 where g0: "g0 \<in> set fs" "view g0 = view g" using down [OF g(1)] by blast
    from viewD [OF g0(2)] v g policyD(2) [OF assms(1) f0(1) g0(1)] show "fa_id f = fa_id g" by simp
  }
qed

text \<open>Steps that leave the view, the sessions, the users and the log alone.\<close>

definition calm :: "auth_db \<Rightarrow> auth_db \<Rightarrow> bool" where
  "calm db db' \<longleftrightarrow> map view (db_factors db') = map view (db_factors db) \<and>
     db_sessions db' = db_sessions db \<and> db_users db' = db_users db \<and> db_audit db' = db_audit db \<and>
     db_next_factor db' = db_next_factor db"

lemma calm_refl [simp]: "calm db db"
  by (simp add: calm_def)

lemma calm_trans [trans]: "calm a b \<Longrightarrow> calm b c \<Longrightarrow> calm a c"
  by (simp add: calm_def)

lemma calm_policy: "calm db db' \<Longrightarrow> policy_ok (db_factors db) \<Longrightarrow> policy_ok (db_factors db')"
  by (rule policy_same_view) (simp_all add: calm_def flip: set_map)

lemma view_simps [simp]:
  "view (f\<lparr>fa_label := l\<rparr>) = view f" "view (f\<lparr>fa_last_used_at := t\<rparr>) = view f"
  "view (f\<lparr>fa_challenge := c, fa_challenge_expires := e\<rparr>) = view f"
  by (simp_all add: view_def)

lemma calm_touch: "calm db (touch_last_used db i now)"
  by (simp add: calm_def touch_last_used_def)

lemma calm_label: "calm db (snd (update_label_row db i u l))"
  by (simp add: calm_def update_label_row_def Let_def)

lemma calm_challenge: "calm db (set_registration_challenge db i c e)" "calm db (clear_registration_challenge db i)"
  by (simp_all add: calm_def set_registration_challenge_def clear_registration_challenge_def)

lemma calm_rows:
  "calm db (snd (accept_totp_step db i s))" "calm db (snd (mark_backup_code_used db j now))"
  "calm db (update_webauthn_sign_count db i n b)" "calm db (insert_backup_codes db cs)"
  by (simp_all add: calm_def accept_totp_step_def mark_backup_code_used_def update_webauthn_sign_count_def
      insert_backup_codes_def Let_def)

lemma calm_create_rows:
  "create_totp_secret db s = Inr db' \<Longrightarrow> calm db db'" "create_webauthn_credential db c = Inr db' \<Longrightarrow> calm db db'"
  "replace_backup_codes db i cs = Inr db' \<Longrightarrow> calm db db'"
  by (auto simp add: calm_def create_totp_secret_def create_webauthn_credential_def replace_backup_codes_def
      insert_backup_codes_def split: if_splits)

lemma calm_try_totp: "calm db (snd (try_totp_code env db now i code))"
  using calm_rows(1) calm_trans [OF calm_rows(1) calm_touch]
  by (auto simp add: try_totp_code_def split_beta split: sum.split option.split)

lemma calm_verify_totp: "calm db (snd (verify_totp_for_activation env db now i code))"
  using calm_rows(1) by (auto simp add: verify_totp_for_activation_def split_beta split: sum.split option.split)

lemma calm_try_backup: "calm db (snd (try_backup_code env db now i code))"
  using calm_rows(2) calm_trans [OF calm_rows(2) calm_touch]
  by (auto simp add: try_backup_code_def Let_def split_beta split: option.split)

lemma calm_try_factor: "calm db (snd (try_factor env db now code f))"
  by (simp add: try_factor_def calm_try_totp calm_try_backup)

lemma calm_try_factors: "calm db (snd (try_factors env db now code fs))"
proof (induction fs arbitrary: db)
  case (Cons f fs)
  have "calm db (snd (try_factor env db now code f))" by (rule calm_try_factor)
  with Cons.IH calm_trans show ?case by (auto simp add: try_factors_Cons split_beta)
qed simp

lemma calm_step_up: "calm db (snd (verify_step_up_mfa env db now u code))"
  using calm_try_factors by (simp add: verify_step_up_mfa_def verify_any_factor_code_def split_beta)

lemma calm_login_code: "calm db (snd (verify_code_for_login env db now u i code))"
  using calm_try_totp calm_try_backup
  by (auto simp add: verify_code_for_login_def split_beta split: sum.split)

lemma calm_assertion: "calm db (snd (verify_webauthn_assertion env db now u i session response))"
  using calm_trans [OF calm_rows(3) calm_touch]
  by (auto simp add: verify_webauthn_assertion_def split: sum.split)

lemma calm_dispatch: "calm db (snd (dispatch_mfa_verify env db now p i c r))"
  using calm_assertion calm_login_code
  by (auto simp add: dispatch_mfa_verify_def split: sum.split option.split)

section \<open>Removing factors\<close>

definition factors_ok :: "auth_db \<Rightarrow> bool" where
  "factors_ok db \<longleftrightarrow> store_ok db \<and> policy_ok (db_factors db)"

definition keeps :: "auth_db \<Rightarrow> auth_db \<Rightarrow> bool" where
  "keeps db db' \<longleftrightarrow> (factors_ok db \<longrightarrow> factors_ok db')"

lemma keeps_refl [simp]: "keeps db db"
  by (simp add: keeps_def)

lemma keeps_trans [trans]: "keeps a b \<Longrightarrow> keeps b c \<Longrightarrow> keeps a c"
  by (simp add: keeps_def)

lemma keepsI: "good db db' \<Longrightarrow> (factors_ok db \<Longrightarrow> policy_ok (db_factors db')) \<Longrightarrow> keeps db db'"
  by (simp add: keeps_def factors_ok_def good_def)

lemma calm_keeps: "good db db' \<Longrightarrow> calm db db' \<Longrightarrow> keeps db db'"
  by (rule keepsI) (simp_all add: factors_ok_def calm_policy)

lemma keeps_andThen:
  assumes "keeps db (snd m)" and "\<And>x db1. m = (Inr x, db1) \<Longrightarrow> keeps db1 (snd (k x db1))"
  shows "keeps db (snd (andThen m k))"
proof (cases m)
  case (Pair r db1)
  show ?thesis
  proof (cases r)
    case (Inr x)
    have "keeps db db1" using assms(1) Pair by simp
    also have "keeps db1 (snd (k x db1))" using assms(2) Pair Inr by simp
    finally show ?thesis using Pair Inr by simp
  qed (use assms(1) Pair in simp)
qed

text \<open>Removing pending factors, or every factor of some users, keeps the policy.\<close>

lemma policy_filter:
  assumes "policy_ok fs"
    and "\<And>f. f \<in> set fs \<Longrightarrow> q f \<Longrightarrow> fa_type f = backup_codes \<Longrightarrow>
      \<exists>g \<in> set fs. q g \<and> fa_user g = fa_user f \<and> fa_type g \<noteq> backup_codes \<and> fa_enabled_at g \<noteq> None"
  shows "policy_ok (filter q fs)"
proof (rule policyI)
  fix f assume "f \<in> set (filter q fs)"
  then have f: "f \<in> set fs" "q f" by auto
  show "fa_enabled_at f = None \<Longrightarrow> fa_failures f < factor_activation_failure_limit"
    "fa_type f = backup_codes \<Longrightarrow> fa_enabled_at f \<noteq> None"
    using policyD(1,3) [OF assms(1) f(1)] by blast+
  show "fa_type f = backup_codes \<Longrightarrow> \<exists>g \<in> set (filter q fs). fa_user g = fa_user f \<and>
      fa_type g \<noteq> backup_codes \<and> fa_enabled_at g \<noteq> None"
  proof -
    assume "fa_type f = backup_codes"
    with assms(2) [OF f] obtain g where "g \<in> set fs" "q g" "fa_user g = fa_user f"
      "fa_type g \<noteq> backup_codes" "fa_enabled_at g \<noteq> None" by blast
    then show ?thesis by (intro bexI [of _ g]) simp_all
  qed
  fix g assume "g \<in> set (filter q fs)"
  then have "g \<in> set fs" by simp
  from policyD(2) [OF assms(1) f(1) this] show "fa_user f = fa_user g \<Longrightarrow> fa_type f = fa_type g \<Longrightarrow>
      fa_type f = backup_codes \<or> fa_enabled_at f = None \<and> fa_enabled_at g = None \<Longrightarrow> fa_id f = fa_id g" .
qed

lemma policy_filter_pending:
  assumes "policy_ok fs" and "\<And>f. f \<in> set fs \<Longrightarrow> \<not> q f \<Longrightarrow> fa_enabled_at f = None"
  shows "policy_ok (filter q fs)"
proof (rule policy_filter [OF assms(1)])
  fix f assume "f \<in> set fs" "fa_type f = backup_codes"
  from policy_primary [OF assms(1) this] obtain g where g: "g \<in> set fs" "fa_user g = fa_user f"
    "fa_type g \<noteq> backup_codes" "fa_enabled_at g \<noteq> None" .
  with assms(2) [OF g(1)] have "q g" by metis
  with g show "\<exists>g \<in> set fs. q g \<and> fa_user g = fa_user f \<and> fa_type g \<noteq> backup_codes \<and> fa_enabled_at g \<noteq> None"
    by (intro bexI [of _ g]) simp_all
qed

lemma policy_filter_users:
  assumes "policy_ok fs"
  shows "policy_ok (filter (\<lambda>f. fa_user f \<noteq> u) fs)"
proof (rule policy_filter [OF assms])
  fix f assume f: "f \<in> set fs" "fa_type f = backup_codes" "fa_user f \<noteq> u"
  from policy_primary [OF assms f(1,2)] obtain g where g: "g \<in> set fs" "fa_user g = fa_user f"
    "fa_type g \<noteq> backup_codes" "fa_enabled_at g \<noteq> None" .
  with f(3) show "\<exists>g \<in> set fs. fa_user g \<noteq> u \<and> fa_user g = fa_user f \<and> fa_type g \<noteq> backup_codes \<and> fa_enabled_at g \<noteq> None"
    by (intro bexI [of _ g]) simp_all
qed

lemma policy_map:
  assumes "policy_ok fs"
    and "\<And>f. f \<in> set fs \<Longrightarrow> fa_id (h f) = fa_id f \<and> fa_user (h f) = fa_user f \<and> fa_type (h f) = fa_type f"
    and "\<And>f. f \<in> set fs \<Longrightarrow> fa_enabled_at (h f) = None \<Longrightarrow>
      fa_enabled_at f = None \<and> fa_failures (h f) < factor_activation_failure_limit"
  shows "policy_ok (map h fs)"
proof (rule policyI)
  fix f' assume "f' \<in> set (map h fs)"
  then obtain f where f: "f \<in> set fs" "f' = h f" by auto
  note e = assms(2) [OF f(1)] and n = assms(3) [OF f(1)]
  show "fa_enabled_at f' = None \<Longrightarrow> fa_failures f' < factor_activation_failure_limit" using n f(2) by simp
  show "fa_enabled_at f' \<noteq> None" if b: "fa_type f' = backup_codes"
  proof -
    from b e f(2) have "fa_type f = backup_codes" by simp
    from policyD(3) [OF assms(1) f(1) this] n f(2) show ?thesis by metis
  qed
  show "\<exists>g \<in> set (map h fs). fa_user g = fa_user f' \<and> fa_type g \<noteq> backup_codes \<and> fa_enabled_at g \<noteq> None"
    if b: "fa_type f' = backup_codes"
  proof -
    from b e f(2) have "fa_type f = backup_codes" by simp
    from policy_primary [OF assms(1) f(1) this] obtain g where g: "g \<in> set fs" "fa_user g = fa_user f"
      "fa_type g \<noteq> backup_codes" "fa_enabled_at g \<noteq> None" .
    have "fa_enabled_at (h g) \<noteq> None" using assms(3) [OF g(1)] g(4) by blast
    with g assms(2) [OF g(1)] e f(2) show ?thesis by (intro bexI [of _ "h g"]) simp_all
  qed
  fix g' assume "g' \<in> set (map h fs)" and u: "fa_user f' = fa_user g'" "fa_type f' = fa_type g'"
    "fa_type f' = backup_codes \<or> fa_enabled_at f' = None \<and> fa_enabled_at g' = None"
  then obtain g where g: "g \<in> set fs" "g' = h g" by auto
  have "fa_type f = backup_codes \<or> fa_enabled_at f = None \<and> fa_enabled_at g = None"
    using u(3) e n assms(3) [OF g(1)] f(2) g(2) by auto
  with policyD(2) [OF assms(1) f(1) g(1)] u e assms(2) [OF g(1)] f(2) g(2) show "fa_id f' = fa_id g'" by simp
qed

lemma policy_append:
  assumes "policy_ok fs"
    and "fa_enabled_at n = None \<Longrightarrow> fa_failures n < factor_activation_failure_limit"
    and "\<And>f. f \<in> set fs \<Longrightarrow> fa_user f = fa_user n \<Longrightarrow> fa_type f = fa_type n \<Longrightarrow>
      \<not> (fa_type n = backup_codes \<or> fa_enabled_at f = None \<and> fa_enabled_at n = None)"
    and "fa_type n = backup_codes \<Longrightarrow> fa_enabled_at n \<noteq> None"
    and "fa_type n = backup_codes \<Longrightarrow>
      \<exists>g \<in> set fs. fa_user g = fa_user n \<and> fa_type g \<noteq> backup_codes \<and> fa_enabled_at g \<noteq> None"
  shows "policy_ok (fs @ [n])"
proof (rule policyI)
  fix f assume "f \<in> set (fs @ [n])"
  then consider (old) "f \<in> set fs" | (new) "f = n" by auto
  note c = this
  from c show "fa_enabled_at f = None \<Longrightarrow> fa_failures f < factor_activation_failure_limit"
    by cases (use policyD(1) [OF assms(1)] assms(2) in simp_all)
  from c show "fa_type f = backup_codes \<Longrightarrow> fa_enabled_at f \<noteq> None"
    by cases (use policyD(3) [OF assms(1)] assms(4) in simp_all)
  from c show "\<exists>g \<in> set (fs @ [n]). fa_user g = fa_user f \<and> fa_type g \<noteq> backup_codes \<and> fa_enabled_at g \<noteq> None"
    if "fa_type f = backup_codes"
  proof cases
    case old
    with policy_primary [OF assms(1) old that] show ?thesis by (metis UnCI set_append)
  next
    case new
    with assms(5) that obtain g where "g \<in> set fs" "fa_user g = fa_user f" "fa_type g \<noteq> backup_codes"
      "fa_enabled_at g \<noteq> None" by blast
    then show ?thesis by (intro bexI [of _ g]) simp_all
  qed
  fix g assume g: "g \<in> set (fs @ [n])" "fa_user f = fa_user g" "fa_type f = fa_type g"
    "fa_type f = backup_codes \<or> fa_enabled_at f = None \<and> fa_enabled_at g = None"
  from g(1) consider (old') "g \<in> set fs" | (new') "g = n" by auto
  then show "fa_id f = fa_id g"
  proof cases
    case old'
    from c show ?thesis
    proof cases
      case old
      then show ?thesis using policyD(2) [OF assms(1) old old'] g by blast
    next
      case new
      then show ?thesis using assms(3) [OF old'] g by simp
    qed
  next
    case new'
    from c show ?thesis
    proof cases
      case old
      then show ?thesis using assms(3) [OF old] g new' by simp
    qed (simp add: new')
  qed
qed

section \<open>Operations keep the policy\<close>

lemma store_same_id:
  assumes "store_ok db" and "f \<in> set (db_factors db)" and "g \<in> set (db_factors db)" and "fa_id f = fa_id g"
  shows "f = g"
  using assms by (auto simp add: store_ok_def distinct_map dest: inj_onD)

lemma factors_remove [simp]: "db_factors (remove_factors db p) = filter (\<lambda>f. \<not> p f) (db_factors db)"
  by (simp add: remove_factors_def Let_def)

lemma factors_delete [simp]:
  "db_factors (snd (delete_factor_row db i u)) = filter (\<lambda>f. \<not> (fa_id f = i \<and> fa_user f = u)) (db_factors db)"
  by (simp add: delete_factor_row_def Let_def)

lemma keeps_delete_pending:
  assumes "\<And>g. g \<in> set (db_factors db) \<Longrightarrow> fa_id g = i \<Longrightarrow> fa_user g = u \<Longrightarrow> fa_enabled_at g = None"
  shows "keeps db (snd (delete_factor_row db i u))"
proof (rule keepsI [OF good_delete])
  assume "factors_ok db"
  then show "policy_ok (db_factors (snd (delete_factor_row db i u)))" unfolding factors_delete
    by (intro policy_filter_pending) (use assms in \<open>auto simp add: factors_ok_def\<close>)
qed

lemma keeps_cleanup: "keeps db (cleanup_abandoned_pending db now age)"
proof (rule keepsI [OF good_cleanup])
  assume "factors_ok db"
  then show "policy_ok (db_factors (cleanup_abandoned_pending db now age))"
    unfolding cleanup_abandoned_pending_def factors_remove
    by (intro policy_filter_pending) (auto simp add: factors_ok_def)
qed

lemma find_pending_Inr:
  assumes "find_pending_by_user_and_type db u ty = Inr f"
  shows "f \<in> set (db_factors db)" "fa_user f = u" "fa_type f = ty" "fa_enabled_at f = None"
  using assms by (auto simp add: find_pending_by_user_and_type_def find_Some_iff split: option.splits)

lemma drop_pending_policy:
  assumes "factors_ok db"
  shows "factors_ok (drop_pending db u ty)"
    and "\<And>g. g \<in> set (db_factors (drop_pending db u ty)) \<Longrightarrow> fa_user g = u \<Longrightarrow> fa_type g = ty \<Longrightarrow>
      fa_enabled_at g \<noteq> None"
proof -
  have "factors_ok (drop_pending db u ty) \<and> (\<forall>g \<in> set (db_factors (drop_pending db u ty)).
      fa_user g = u \<longrightarrow> fa_type g = ty \<longrightarrow> fa_enabled_at g \<noteq> None)"
  proof (cases "find_pending_by_user_and_type db u ty")
    case (Inl e)
    then show ?thesis using assms
      by (auto simp add: drop_pending_def find_pending_by_user_and_type_def find_None_iff split: option.splits)
  next
    case (Inr f)
    note f = find_pending_Inr [OF Inr]
    have d: "drop_pending db u ty = snd (delete_factor_row db (fa_id f) u)" by (simp add: drop_pending_def Inr)
    have "fa_enabled_at g = None" if "g \<in> set (db_factors db)" "fa_id g = fa_id f" for g
      using store_same_id [of db f g] that f assms by (auto simp add: factors_ok_def)
    then have "factors_ok (drop_pending db u ty)"
      unfolding d using keeps_delete_pending [of db "fa_id f" u] assms by (simp add: keeps_def)
    moreover have "fa_enabled_at g \<noteq> None" if g: "g \<in> set (db_factors (drop_pending db u ty))"
      "fa_user g = u" "fa_type g = ty" for g
    proof
      assume n: "fa_enabled_at g = None"
      have "g \<in> set (db_factors db)" "fa_id g \<noteq> fa_id f" using g(1,2) unfolding d factors_delete by auto
      moreover have "fa_id f = fa_id g"
        using policyD(2) [OF _ f(1) calculation(1)] assms f g n by (simp add: factors_ok_def)
      ultimately show False by simp
    qed
    ultimately show ?thesis by blast
  qed
  then show "factors_ok (drop_pending db u ty)"
    "\<And>g. g \<in> set (db_factors (drop_pending db u ty)) \<Longrightarrow> fa_user g = u \<Longrightarrow> fa_type g = ty \<Longrightarrow>
      fa_enabled_at g \<noteq> None" by blast+
qed

lemma new_factor_simps [simp]:
  "fa_user (new_factor u ty l e now) = u" "fa_type (new_factor u ty l e now) = ty"
  "fa_enabled_at (new_factor u ty l e now) = e" "fa_failures (new_factor u ty l e now) = 0"
  by (simp_all add: new_factor_def)

lemma limit_pos [simp]: "0 < factor_activation_failure_limit"
  by (simp add: factor_activation_failure_limit_def)

lemma create_pending_policy:
  assumes "factors_ok db" and "ty \<noteq> backup_codes"
    and "create_factor (drop_pending db u ty) (new_factor u ty l None now) = Inr (f, db')"
  shows "factors_ok db'"
proof -
  note c = create_factor_Inr [OF assms(3)] and d = drop_pending_policy [OF assms(1), where u = u and ty = ty]
  have "store_ok db'" using good_store [OF good_create_factor [OF assms(3)]] d(1) by (simp add: factors_ok_def)
  moreover have "policy_ok (db_factors (drop_pending db u ty) @ [f])"
  proof (rule policy_append)
    show "policy_ok (db_factors (drop_pending db u ty))" using d(1) by (simp add: factors_ok_def)
    fix g assume "g \<in> set (db_factors (drop_pending db u ty))" "fa_user g = fa_user f" "fa_type g = fa_type f"
    then show "\<not> (fa_type f = backup_codes \<or> fa_enabled_at g = None \<and> fa_enabled_at f = None)"
      using d(2) assms(2) c(1) by simp
  qed (use assms(2) c(1) in simp_all)
  ultimately show ?thesis using c(2) by (simp add: factors_ok_def)
qed

lemma calm_factors_ok: "good db db' \<Longrightarrow> calm db db' \<Longrightarrow> factors_ok db \<Longrightarrow> factors_ok db'"
  using calm_keeps by (simp add: keeps_def)

lemma keeps_step_up: "keeps db (snd (verify_step_up_mfa env db now u code))"
  by (rule calm_keeps [OF good_step_up calm_step_up])

lemma keeps_enroll_totp: "keeps db (snd (enroll_totp env db now u l p c secret nonce))"
  unfolding enroll_totp_def
proof (intro keeps_andThen)
  fix x y db0 db1
  show "keeps db1 (snd (let db1 = drop_pending db1 u totp
     in case create_factor db1 (new_factor u totp l None now) of
          Inl e \<Rightarrow> (Inl (internal_wrap e ''create factor''), db1)
        | Inr (f, db2) \<Rightarrow>
            (case create_totp_secret db2
                    \<lparr>ts_factor = fa_id f, ts_ciphertext = me_seal env secret nonce (totp_aad (fa_id f)),
                     ts_nonce = nonce, ts_last_step = None\<rparr> of
               Inl e \<Rightarrow> (Inl (internal_wrap e ''create totp secret''), db2)
             | Inr db3 \<Rightarrow> (Inr (f, secret), db3))))" (is "keeps db1 (snd ?r)")
    unfolding keeps_def
  proof
    assume ok: "factors_ok db1"
    note d = drop_pending_policy(1) [OF ok, of u totp]
    show "factors_ok (snd ?r)"
    proof (cases "create_factor (drop_pending db1 u totp) (new_factor u totp l None now)")
      case (Inr fd)
      obtain f db2 where fd: "fd = (f, db2)" by (cases fd)
      have ok2: "factors_ok db2" using create_pending_policy [OF ok _ Inr [unfolded fd]] by simp
      let ?s = "\<lparr>ts_factor = fa_id f, ts_ciphertext = me_seal env secret nonce (totp_aad (fa_id f)),
          ts_nonce = nonce, ts_last_step = None\<rparr>"
      show ?thesis
      proof (cases "create_totp_secret db2 ?s")
        case (Inr db3)
        have "store_ok db3"
          using good_store [OF good_enroll_rows [OF \<open>create_factor _ _ = Inr fd\<close> [unfolded fd] Inr]] d
          by (simp add: factors_ok_def)
        moreover have "policy_ok (db_factors db3)"
          using calm_policy [OF calm_create_rows(1) [OF Inr]] ok2 by (simp add: factors_ok_def)
        ultimately show ?thesis using \<open>create_factor _ _ = Inr fd\<close> fd Inr by (simp add: factors_ok_def)
      qed (use Inr fd ok2 in simp)
    qed (use d in simp)
  qed
qed (use keeps_step_up in auto)

lemma keeps_enroll_webauthn: "keeps db (snd (enroll_webauthn env db now u l p c a d))"
proof (cases "me_webauthn env")
  case True
  show ?thesis
    unfolding enroll_webauthn_def using True
  proof (simp only: not_True_eq_False if_False, intro keeps_andThen)
    fix x y db0 db1
    show "keeps db1 (snd (let db1 = drop_pending db1 u webauthn;
               existing = gather_user_webauthn_credentials db1 u
           in case create_factor db1 (new_factor u webauthn l None now) of
                Inl e \<Rightarrow> (Inl (internal_wrap e ''create factor''), db1)
              | Inr (f, db2) \<Rightarrow>
                  (case me_begin_registration env u a d existing of
                     Inl m \<Rightarrow> (Inl (internal_wrap (PlainError m) ''begin webauthn registration''), db2)
                   | Inr (options, session) \<Rightarrow>
                       (Inr (f, options), set_registration_challenge db2 (fa_id f) session
                          (now + webauthn_registration_challenge_lifetime)))))" (is "keeps db1 (snd ?r)")
      unfolding keeps_def
    proof
      assume ok: "factors_ok db1"
      show "factors_ok (snd ?r)"
      proof (cases "create_factor (drop_pending db1 u webauthn) (new_factor u webauthn l None now)")
        case (Inr fd)
        obtain f db2 where fd: "fd = (f, db2)" by (cases fd)
        have ok2: "factors_ok db2" using create_pending_policy [OF ok _ Inr [unfolded fd]] by simp
        then have "factors_ok (set_registration_challenge db2 i s e)" for i s e
          using calm_factors_ok [OF good_challenge(1) calm_challenge(1)] by blast
        with ok2 show ?thesis using Inr fd by (auto simp add: Let_def split: sum.split)
      qed (use drop_pending_policy(1) [OF ok] in \<open>simp add: Let_def\<close>)
    qed
  qed (use keeps_step_up in auto)
qed (simp add: enroll_webauthn_def)

lemma activate_factor_policy:
  assumes "factors_ok db"
  shows "factors_ok (snd (activate_factor db i u now))"
proof -
  have "store_ok (snd (activate_factor db i u now))"
    using good_store [OF good_activate] assms by (simp add: factors_ok_def)
  moreover have m: "db_factors (snd (activate_factor db i u now)) =
      map (\<lambda>f. if fa_id f = i \<and> fa_user f = u \<and> fa_enabled_at f = None
        then f\<lparr>fa_enabled_at := Some now, fa_last_used_at := Some now\<rparr> else f) (db_factors db)"
    by (simp add: activate_factor_def Let_def)
  have "policy_ok (db_factors (snd (activate_factor db i u now)))"
    unfolding m
    by (rule policy_map) (use assms policyD(1) [of "db_factors db"] in \<open>auto simp add: factors_ok_def split: if_splits\<close>)
  ultimately show ?thesis by (simp add: factors_ok_def)
qed

lemma increment_Inr:
  assumes "increment_activation_failures db i u = Inr (n, db')"
  shows "\<exists>f \<in> set (db_factors db). fa_id f = i \<and> fa_user f = u"
    and "db_factors db' = map (\<lambda>f. if fa_id f = i \<and> fa_user f = u \<and> fa_enabled_at f = None
      then f\<lparr>fa_failures := fa_failures f + 1\<rparr> else f) (db_factors db)"
    and "\<exists>f \<in> set (db_factors db'). fa_id f = i \<and> fa_user f = u \<and> fa_failures f = n"
  using assms
  by (auto simp add: increment_activation_failures_def Let_def list_ex_iff find_Some_iff
      split: if_splits option.splits dest: nth_mem)

lemma keeps_count_wrong:
  assumes ok: "factors_ok db" and f: "\<And>g. g \<in> set (db_factors db) \<Longrightarrow> fa_id g = fa_id f \<Longrightarrow> fa_enabled_at g = None"
  shows "factors_ok (snd (count_wrong_code db u f err))"
proof (cases "increment_activation_failures db (fa_id f) u")
  case (Inr nd)
  obtain n db1 where nd: "nd = (n, db1)" by (cases nd)
  note inc = increment_Inr [OF Inr [unfolded nd]]
  let ?h = "\<lambda>g. if fa_id g = fa_id f \<and> fa_user g = u \<and> fa_enabled_at g = None
      then g\<lparr>fa_failures := fa_failures g + 1\<rparr> else g"
  have s1: "store_ok db1" using good_store [OF good_increment [OF Inr [unfolded nd]]] ok by (simp add: factors_ok_def)
  have pol: "policy_ok (db_factors db)" using ok by (simp add: factors_ok_def)
  show ?thesis
  proof (cases "factor_activation_failure_limit \<le> n")
    case True
    have "db_factors (snd (delete_factor_row db1 (fa_id f) u))
        = filter (\<lambda>g. \<not> (fa_id g = fa_id f \<and> fa_user g = u)) (db_factors db)"
    proof -
      have "filter (\<lambda>g. \<not> (fa_id g = fa_id f \<and> fa_user g = u)) (map ?h fs)
          = filter (\<lambda>g. \<not> (fa_id g = fa_id f \<and> fa_user g = u)) fs" for fs
        by (induction fs) auto
      then show ?thesis by (simp only: factors_delete inc(2))
    qed
    moreover have "policy_ok (filter (\<lambda>g. \<not> (fa_id g = fa_id f \<and> fa_user g = u)) (db_factors db))"
      by (rule policy_filter_pending [OF pol]) (use f in auto)
    moreover have "store_ok (snd (delete_factor_row db1 (fa_id f) u))" using good_store [OF good_delete s1] .
    ultimately show ?thesis using ok True Inr nd by (simp add: count_wrong_code_def factors_ok_def)
  next
    case False
    obtain f' where f': "f' \<in> set (db_factors db1)" "fa_id f' = fa_id f" "fa_user f' = u" "fa_failures f' = n"
      using inc(3) by blast
    have "policy_ok (map ?h (db_factors db))"
    proof (rule policy_map [OF pol])
      fix g assume g: "g \<in> set (db_factors db)" "fa_enabled_at (?h g) = None"
      have "fa_failures (?h g) < factor_activation_failure_limit"
      proof (cases "fa_id g = fa_id f \<and> fa_user g = u \<and> fa_enabled_at g = None")
        case True
        have "?h g \<in> set (db_factors db1)" using g(1) inc(2) by auto
        with True have "?h g = f'" by (intro store_same_id [OF s1 _ f'(1)]) (use f'(2) in simp_all)
        with f'(4) False show ?thesis by simp
      next
        case False
        then show ?thesis using policyD(1) [OF pol g(1)] g(2) by auto
      qed
      then show "fa_enabled_at g = None \<and> fa_failures (?h g) < factor_activation_failure_limit"
        using g(2) by (auto split: if_splits)
    qed auto
    then show ?thesis using ok s1 False Inr nd inc(2) by (simp add: count_wrong_code_def factors_ok_def)
  qed
qed (use ok in \<open>simp add: count_wrong_code_def\<close>)

end
