(* ===== verification/MfaInvariant.thy ===== *)
theory MfaInvariant
  imports MfaPolicy
begin

text \<open>
  Activation, removal and the other requests keep the policy on factors; the invariant of the
  reachable tables.
\<close>

section \<open>Activation\<close>

lemma calm_view:
  assumes "calm db db'" and "g \<in> set (db_factors db')"
  shows "\<exists>f \<in> set (db_factors db). view f = view g"
proof -
  have "view g \<in> view ` set (db_factors db')" using assms(2) by simp
  also have "view ` set (db_factors db') = view ` set (db_factors db)"
    using assms(1) by (metis calm_def set_map)
  finally show ?thesis by (metis imageE)
qed

lemma find_backup_Inr:
  assumes "find_backup_codes_factor db u = Inr f"
  shows "f \<in> set (db_factors db)" "fa_user f = u" "fa_type f = backup_codes"
  using assms by (auto simp add: find_backup_codes_factor_def find_Some_iff split: option.splits)

lemma find_backup_Inl:
  assumes "find_backup_codes_factor db u = Inl e" and "f \<in> set (db_factors db)" and "fa_user f = u"
  shows "fa_type f \<noteq> backup_codes"
  using assms by (auto simp add: find_backup_codes_factor_def find_None_iff split: option.splits)

lemma ensure_policy:
  assumes ok: "factors_ok db"
    and g: "g \<in> set (db_factors db)" "fa_user g = u" "fa_type g \<noteq> backup_codes" "fa_enabled_at g \<noteq> None"
  shows "factors_ok (snd (ensure_backup_codes_factor env db now u draw))"
proof -
  have "store_ok (snd (ensure_backup_codes_factor env db now u draw))"
    using good_store [OF good_ensure] ok by (simp add: factors_ok_def)
  moreover have "policy_ok (db_factors (snd (ensure_backup_codes_factor env db now u draw)))"
  proof (cases "find_backup_codes_factor db u")
    case (Inl e)
    have p: "policy_ok (db_factors db1)"
      if "create_factor db (new_factor u backup_codes None (Some now) now) = Inr (f, db1)" for f db1
    proof -
      note c = create_factor_Inr [OF that]
      have "policy_ok (db_factors db @ [f])"
      proof (rule policy_append)
        show "policy_ok (db_factors db)" using ok by (simp add: factors_ok_def)
        show "\<not> (fa_type f = backup_codes \<or> fa_enabled_at h = None \<and> fa_enabled_at f = None)"
          if "h \<in> set (db_factors db)" "fa_user h = fa_user f" "fa_type h = fa_type f" for h
          using find_backup_Inl [OF Inl that(1)] that c(1) by simp
        show "\<exists>g \<in> set (db_factors db). fa_user g = fa_user f \<and> fa_type g \<noteq> backup_codes \<and> fa_enabled_at g \<noteq> None"
          using g c(1) by auto
      qed (simp_all add: c(1))
      then show ?thesis using c(2) by simp
    qed
    show ?thesis using ok p Inl
      by (auto simp add: ensure_backup_codes_factor_def split_beta insert_backup_codes_def factors_ok_def
          split: sum.split)
  qed (use ok in \<open>simp add: ensure_backup_codes_factor_def factors_ok_def\<close>)
  ultimately show ?thesis by (simp add: factors_ok_def)
qed

lemma verify_totp_error:
  "verify_totp_for_activation env db now i c = (Inl e, db') \<Longrightarrow> calm db db'"
  using calm_verify_totp [of db env now i c] by simp

lemma pending_after_calm:
  assumes "factors_ok db" and "f \<in> set (db_factors db)" and "fa_enabled_at f = None" and "calm db db1"
    and "g \<in> set (db_factors db1)" and "fa_id g = fa_id f"
  shows "fa_enabled_at g = None" "fa_user g = fa_user f" "fa_type g = fa_type f"
proof -
  obtain h where h: "h \<in> set (db_factors db)" "view h = view g" using calm_view [OF assms(4,5)] by blast
  have "h = f" using store_same_id [of db h f] assms h(1) viewD(1) [OF h(2)] by (simp add: factors_ok_def)
  with h(2) assms(3) show "fa_enabled_at g = None" "fa_user g = fa_user f" "fa_type g = fa_type f"
    by (auto simp add: view_def)
qed

lemma activate_webauthn_policy:
  assumes ok: "factors_ok db" and f: "f \<in> set (db_factors db)" "fa_user f = u" "fa_enabled_at f = None"
  shows "factors_ok (snd (activate_webauthn_factor env db now u f response))"
    and "activate_webauthn_factor env db now u f response = (Inr x, db') \<Longrightarrow> calm db db'"
proof -
  have d: "factors_ok (snd (delete_factor_row db (fa_id f) u))"
    using keeps_delete_pending [of db "fa_id f" u] pending_after_calm(1) [OF ok f(1,3) calm_refl] ok
    by (simp add: keeps_def)
  have c: "calm db (clear_registration_challenge db1 i)" if "create_webauthn_credential db k = Inr db1" for k db1 i
    using calm_trans [OF calm_create_rows(2) [OF that] calm_challenge(2)] .
  have s: "factors_ok (clear_registration_challenge db1 i)" if "create_webauthn_credential db k = Inr db1" for k db1 i
    using calm_factors_ok [OF good_trans [OF good_credential [OF that] good_challenge(2)] c [OF that] ok] .
  show "factors_ok (snd (activate_webauthn_factor env db now u f response))"
    using d s ok by (auto simp add: activate_webauthn_factor_def split: sum.split option.split)
  show "activate_webauthn_factor env db now u f response = (Inr x, db') \<Longrightarrow> calm db db'"
    using c by (auto simp add: activate_webauthn_factor_def split: sum.splits option.splits if_splits)
qed

text \<open>The verification that precedes an activation.\<close>

abbreviation check_activation ::
    "mfa_env \<Rightarrow> auth_db \<Rightarrow> int \<Rightarrow> nat \<Rightarrow> factor \<Rightarrow> string \<Rightarrow> string \<Rightarrow> unit outcome \<times> auth_db" where
  "check_activation env db now u f code response \<equiv>
     (if fa_type f = totp
      then (case verify_totp_for_activation env db now (fa_id f) code of
              (Inr u, db1) \<Rightarrow> (Inr u, db1)
            | (Inl err, db1) \<Rightarrow> apfst Inl (count_wrong_code db1 u f err))
      else if fa_type f = webauthn then activate_webauthn_factor env db now u f response
      else if fa_type f = backup_codes
        then (Inl (bad_request ''backup_codes factors are auto-activated; do not call activate on them''), db)
      else (Inl (bad_request (''unsupported factor type: '' @ fa_type f)), db))"

lemma apfst_Inl [simp]: "apfst Inl p = (Inr x, d) \<longleftrightarrow> False"
  by (cases p) simp

lemma check_activation_policy:
  assumes ok: "factors_ok db" and f: "f \<in> set (db_factors db)" "fa_user f = u" "fa_enabled_at f = None"
  shows "factors_ok (snd (check_activation env db now u f c r))"
    and "check_activation env db now u f c r = (Inr x, db') \<Longrightarrow> calm db db' \<and> fa_type f \<noteq> backup_codes"
proof -
  obtain y db1 where v: "verify_totp_for_activation env db now (fa_id f) c = (y, db1)"
    by (cases "verify_totp_for_activation env db now (fa_id f) c")
  have calm: "calm db db1" using calm_verify_totp [of db env now "fa_id f" c] v by simp
  have ok1: "factors_ok db1"
    using calm_factors_ok [OF _ calm ok] good_verify_totp [of db env now "fa_id f" c] v by simp
  have w: "factors_ok (snd (count_wrong_code db1 u f e))" for e
    by (rule keeps_count_wrong [OF ok1]) (rule pending_after_calm(1) [OF ok f(1,3) calm])
  show "factors_ok (snd (check_activation env db now u f c r))"
    using v w ok1 ok activate_webauthn_policy(1) [OF ok f] by (cases y) simp_all
  show "check_activation env db now u f c r = (Inr x, db') \<Longrightarrow> calm db db' \<and> fa_type f \<noteq> backup_codes"
    using v calm activate_webauthn_policy(2) [OF ok f] by (cases y) (auto split: if_splits)
qed

lemma activate_factor_hit:
  assumes "activate_factor db i u now = (True, db')"
  shows "\<exists>g \<in> set (db_factors db'). fa_id g = i \<and> fa_user g = u \<and> fa_enabled_at g \<noteq> None \<and>
    (\<exists>h \<in> set (db_factors db). fa_id h = i \<and> fa_type h = fa_type g)"
proof -
  have "filter (\<lambda>f. fa_id f = i \<and> fa_user f = u \<and> fa_enabled_at f = None) (db_factors db) \<noteq> []"
    and db': "db_factors db' = map (\<lambda>f. if fa_id f = i \<and> fa_user f = u \<and> fa_enabled_at f = None
        then f\<lparr>fa_enabled_at := Some now, fa_last_used_at := Some now\<rparr> else f) (db_factors db)"
    using assms by (auto simp add: activate_factor_def Let_def)
  then obtain h where h: "h \<in> set (db_factors db)" "fa_id h = i" "fa_user h = u" "fa_enabled_at h = None"
    by (auto simp add: filter_empty_conv)
  let ?g = "h\<lparr>fa_enabled_at := Some now, fa_last_used_at := Some now\<rparr>"
  have "?g \<in> set (db_factors db')" using h unfolding db' by force
  then show ?thesis using h by (intro bexI [of _ ?g]) auto
qed

lemma keeps_activate_op: "keeps db (snd (activate_factor_op env db now u i c r draw))"
  unfolding keeps_def
proof
  assume ok: "factors_ok db"
  show "factors_ok (snd (activate_factor_op env db now u i c r draw))"
  proof (cases "find_by_id_and_user db i u")
    case (Inr f)
    note f = find_by_id_and_user_Inr [OF Inr]
    show ?thesis
    proof (cases "fa_enabled_at f = None")
      case True
      note p = check_activation_policy [OF ok f(1,3) True]
      obtain x db1 where m: "check_activation env db now u f c r = (x, db1)"
        by (cases "check_activation env db now u f c r")
      have ok1: "factors_ok db1" using p(1) [of env now c r] m by simp
      show ?thesis
      proof (cases x)
        case (Inl e)
        then show ?thesis unfolding activate_factor_op_def \<open>find_by_id_and_user db i u = Inr f\<close> sum.case m
          using ok1 ok True by simp
      next
        case x: (Inr y)
        have calm: "calm db db1" "fa_type f \<noteq> backup_codes" using p(2) m x by auto
        obtain act db2 where a: "activate_factor db1 (fa_id f) u now = (act, db2)"
          by (cases "activate_factor db1 (fa_id f) u now")
        have ok2: "factors_ok db2" using activate_factor_policy [OF ok1, of "fa_id f" u now] a by simp
        have e: "factors_ok (snd (ensure_backup_codes_factor env db2 now u draw))" if "act"
        proof -
          have "activate_factor db1 (fa_id f) u now = (True, db2)" using a that by simp
          from activate_factor_hit [OF this] obtain g h where g: "g \<in> set (db_factors db2)" "fa_user g = u"
            "fa_enabled_at g \<noteq> None" "h \<in> set (db_factors db1)" "fa_id h = fa_id f" "fa_type h = fa_type g"
            by blast
          have "fa_type g \<noteq> backup_codes"
            using pending_after_calm(3) [OF ok f(1) True calm(1) g(4,5)] calm(2) g(6) by simp
          from ensure_policy [OF ok2 g(1,2) this g(3)] show ?thesis .
        qed
        show ?thesis unfolding activate_factor_op_def \<open>find_by_id_and_user db i u = Inr f\<close> sum.case m
          using True x calm(2) a ok2 e by (simp add: split_beta)
      qed
    qed (use ok Inr in \<open>simp add: activate_factor_op_def\<close>)
  qed (use ok in \<open>simp add: activate_factor_op_def\<close>)
qed

section \<open>Removal\<close>

lemma set_find_active [simp]:
  "set (find_active_by_user db u) = {f \<in> set (db_factors db). fa_user f = u \<and> fa_enabled_at f \<noteq> None}"
  by (auto simp add: find_active_by_user_def)

lemma calm_sym: "calm db db' \<Longrightarrow> calm db' db"
  by (simp add: calm_def)

lemma policy_delete:
  assumes ok: "policy_ok fs" and q: "\<And>f. fa_user f \<noteq> u \<Longrightarrow> q f"
    and u: "\<And>h. h \<in> set fs \<Longrightarrow> q h \<Longrightarrow> fa_user h = u \<Longrightarrow> fa_type h = backup_codes \<Longrightarrow>
      \<exists>g \<in> set fs. q g \<and> fa_user g = u \<and> fa_type g \<noteq> backup_codes \<and> fa_enabled_at g \<noteq> None"
  shows "policy_ok (filter q fs)"
proof (rule policy_filter [OF ok])
  fix h assume h: "h \<in> set fs" "q h" "fa_type h = backup_codes"
  show "\<exists>g \<in> set fs. q g \<and> fa_user g = fa_user h \<and> fa_type g \<noteq> backup_codes \<and> fa_enabled_at g \<noteq> None"
  proof (cases "fa_user h = u")
    case True
    then show ?thesis using u [OF h(1,2) True h(3)] by simp
  next
    case False
    from policy_primary [OF ok h(1,3)] obtain g where g: "g \<in> set fs" "fa_user g = fa_user h"
      "fa_type g \<noteq> backup_codes" "fa_enabled_at g \<noteq> None" .
    with False q [of g] show ?thesis by (intro bexI [of _ g]) simp_all
  qed
qed

text \<open>A row goes; with the user's last active primary factor go the recovery codes.\<close>

lemma delete_row_policy:
  assumes ok: "factors_ok db" and f: "f \<in> set (db_factors db)" "fa_user f = u"
    and other: "fa_type f = backup_codes \<or>
      (\<exists>g \<in> set (db_factors db). fa_user g = u \<and> fa_id g \<noteq> fa_id f \<and> fa_type g \<noteq> backup_codes \<and>
         fa_enabled_at g \<noteq> None)"
  shows "factors_ok (snd (delete_factor_row db (fa_id f) u))"
proof -
  have pol: "policy_ok (db_factors db)" and st: "store_ok db" using ok by (simp_all add: factors_ok_def)
  have "policy_ok (filter (\<lambda>h. \<not> (fa_id h = fa_id f \<and> fa_user h = u)) (db_factors db))"
  proof (rule policy_delete [OF pol, where u = u])
    fix h assume h: "h \<in> set (db_factors db)" "\<not> (fa_id h = fa_id f \<and> fa_user h = u)" "fa_user h = u"
      "fa_type h = backup_codes"
    have "\<exists>g \<in> set (db_factors db). fa_user g = u \<and> fa_id g \<noteq> fa_id f \<and> fa_type g \<noteq> backup_codes \<and>
         fa_enabled_at g \<noteq> None"
      using other
    proof
      assume "fa_type f = backup_codes"
      with policyD(2) [OF pol h(1) f(1)] h f have "fa_id h = fa_id f" by simp
      with h show ?thesis by simp
    qed
    then obtain g where "g \<in> set (db_factors db)" "fa_user g = u" "fa_id g \<noteq> fa_id f" "fa_type g \<noteq> backup_codes"
         "fa_enabled_at g \<noteq> None" by blast
    then show "\<exists>g \<in> set (db_factors db). \<not> (fa_id g = fa_id f \<and> fa_user g = u) \<and> fa_user g = u \<and>
        fa_type g \<noteq> backup_codes \<and> fa_enabled_at g \<noteq> None" by (intro bexI [of _ g]) simp_all
  qed simp
  then show ?thesis using good_store [OF good_delete st] by (simp add: factors_ok_def)
qed

lemma sweep_policy:
  assumes ok: "factors_ok db" and f: "f \<in> set (db_factors db)" "fa_user f = u"
  shows "factors_ok (snd (case find_backup_codes_factor (snd (delete_factor_row db (fa_id f) u)) u of
      Inl e \<Rightarrow> (Inr (), snd (delete_factor_row db (fa_id f) u))
    | Inr bf \<Rightarrow> (Inr (), snd (delete_factor_row (snd (delete_factor_row db (fa_id f) u)) (fa_id bf) u))))"
    (is "factors_ok (snd ?r)")
proof -
  let ?db1 = "snd (delete_factor_row db (fa_id f) u)"
  have pol: "policy_ok (db_factors db)" and st: "store_ok db" using ok by (simp_all add: factors_ok_def)
  have st1: "store_ok ?db1" by (rule good_store [OF good_delete st])
  show ?thesis
  proof (cases "find_backup_codes_factor ?db1 u")
    case (Inl e)
    have "policy_ok (db_factors ?db1)" unfolding factors_delete
    proof (rule policy_delete [OF pol, where u = u])
      fix h assume h: "h \<in> set (db_factors db)" "\<not> (fa_id h = fa_id f \<and> fa_user h = u)" "fa_user h = u"
        "fa_type h = backup_codes"
      then have "h \<in> set (db_factors ?db1)" by simp
      from find_backup_Inl [OF Inl this h(3)] h(4)
      show "\<exists>g \<in> set (db_factors db). \<not> (fa_id g = fa_id f \<and> fa_user g = u) \<and> fa_user g = u \<and>
        fa_type g \<noteq> backup_codes \<and> fa_enabled_at g \<noteq> None" by simp
    qed simp
    then show ?thesis using Inl st1 by (simp add: factors_ok_def)
  next
    case (Inr bf)
    note b = find_backup_Inr [OF Inr]
    have b1: "bf \<in> set (db_factors db)" using b(1) by simp
    have "policy_ok (db_factors (snd (delete_factor_row ?db1 (fa_id bf) u)))"
      unfolding factors_delete filter_filter
    proof (rule policy_delete [OF pol, where u = u])
      fix h assume h: "h \<in> set (db_factors db)" "fa_user h = u" "fa_type h = backup_codes"
        "\<not> (fa_id h = fa_id f \<and> fa_user h = u) \<and> \<not> (fa_id h = fa_id bf \<and> fa_user h = u)"
      from policyD(2) [OF pol h(1) b1] h b have "fa_id h = fa_id bf" by simp
      with h show "\<exists>g \<in> set (db_factors db). (\<not> (fa_id g = fa_id f \<and> fa_user g = u) \<and>
         \<not> (fa_id g = fa_id bf \<and> fa_user g = u)) \<and> fa_user g = u \<and> fa_type g \<noteq> backup_codes \<and>
         fa_enabled_at g \<noteq> None" by simp
    qed simp
    then show ?thesis using Inr good_store [OF good_delete st1] by (simp add: factors_ok_def)
  qed
qed

lemma keeps_delete_op: "keeps db (snd (delete_factor_op env db now u i p c))"
  unfolding keeps_def
proof
  assume ok: "factors_ok db"
  show "factors_ok (snd (delete_factor_op env db now u i p c))"
  proof (cases "verify_password env db u p")
    case (Inr ux)
    show ?thesis
    proof (cases "find_by_id_and_user db i u")
      case f: (Inr f)
      note ff = find_by_id_and_user_Inr [OF f]
      let ?prim = "filter (\<lambda>g. fa_type g \<noteq> backup_codes) (find_active_by_user db u)"
      let ?m = "if ?prim \<noteq> [] then verify_step_up_mfa env db now u c else (Inr (), db)"
      obtain x db1 where m: "?m = (x, db1)" by (cases ?m)
      have calm: "calm db db1" using calm_step_up [of db env now u c] m by (auto split: if_splits)
      have "good db db1" using good_step_up [of db env now u c] m by (auto split: if_splits)
      then have ok1: "factors_ok db1" using calm_factors_ok calm ok by blast
      obtain f1 where f1: "f1 \<in> set (db_factors db1)" "view f1 = view f"
        using calm_view [OF calm_sym [OF calm] ff(1)] by blast
      note v = viewD [OF f1(2)]
      have keep: "factors_ok (snd (delete_factor_row db1 i u))"
        if "fa_type f = backup_codes \<or> length (filter (\<lambda>g. fa_id g \<noteq> fa_id f) ?prim) \<noteq> 0"
      proof -
        have "fa_type f1 = backup_codes \<or> (\<exists>g \<in> set (db_factors db1). fa_user g = u \<and> fa_id g \<noteq> fa_id f1 \<and>
            fa_type g \<noteq> backup_codes \<and> fa_enabled_at g \<noteq> None)"
        proof (cases "fa_type f = backup_codes")
          case False
          with that obtain g where g: "g \<in> set (db_factors db)" "fa_user g = u" "fa_enabled_at g \<noteq> None"
            "fa_type g \<noteq> backup_codes" "fa_id g \<noteq> fa_id f"
            by (auto simp add: filter_empty_conv)
          obtain g1 where g1: "g1 \<in> set (db_factors db1)" "view g1 = view g"
            using calm_view [OF calm_sym [OF calm] g(1)] by blast
          show ?thesis using g viewD [OF g1(2)] v by (intro disjI2 bexI [OF _ g1(1)]) simp
        qed (use v in simp)
        from delete_row_policy [OF ok1 f1(1) _ this] v ff show ?thesis by simp
      qed
      have sweep: "factors_ok (snd (case find_backup_codes_factor (snd (delete_factor_row db1 i u)) u of
          Inl e \<Rightarrow> (Inr (), snd (delete_factor_row db1 i u))
        | Inr bf \<Rightarrow> (Inr (), snd (delete_factor_row (snd (delete_factor_row db1 i u)) (fa_id bf) u))))"
      proof -
        have e: "fa_id f1 = i" "fa_user f1 = u" using v ff by simp_all
        from sweep_policy [OF ok1 f1(1) e(2)] show ?thesis unfolding e(1) .
      qed
      have none: "factors_ok (snd (delete_factor_row db1 i u))" if "fst (delete_factor_row db1 i u) = 0"
      proof -
        have "f1 \<in> set (filter (\<lambda>f. fa_id f = i \<and> fa_user f = u) (db_factors db1))" using f1(1) v ff by simp
        then show ?thesis using that by (auto simp add: delete_factor_row_def Let_def filter_empty_conv)
      qed
      show ?thesis
        unfolding delete_factor_op_def Inr f sum.case andThen_simps Let_def m
        using ok1 keep sweep none by (cases x) (auto simp add: split_beta)
    qed (use ok Inr in \<open>simp add: delete_factor_op_def\<close>)
  qed (use ok in \<open>simp add: delete_factor_op_def\<close>)
qed

section \<open>The invariant\<close>

lemma keeps_update_label: "keeps db (snd (update_label db u i l))"
  using calm_keeps [OF good_label calm_label]
  by (auto simp add: update_label_def split_beta split: sum.split)

lemma keeps_regenerate: "keeps db (snd (regenerate_backup_codes env db now u i p c draw))"
  unfolding regenerate_backup_codes_def
proof (intro keeps_andThen keeps_step_up)
  fix x y db0 db1
  have r: "factors_ok db2" if "factors_ok db1" "replace_backup_codes db1 j (code_rows j now hs) = Inr db2" for j hs db2
    using calm_factors_ok [OF good_replace_codes [OF _ that(2)] calm_create_rows(3) [OF that(2)] that(1)] that(1)
    by (simp add: factors_ok_def)
  show "keeps db1 (snd (case find_by_id_and_user db1 i u of
       Inl e \<Rightarrow> (Inl (if is_store_error e StoreNotFound then not_found ''factor''
                      else internal_wrap e ''find factor''), db1)
     | Inr f \<Rightarrow>
         if fa_type f \<noteq> backup_codes
           then (Inl (bad_request ''regenerate is only valid for backup_codes factors''), db1)
         else case draw_backup_codes env draw of
                (raw, hashed) \<Rightarrow>
                  (case replace_backup_codes db1 (fa_id f) (code_rows (fa_id f) now hashed) of
                     Inl e \<Rightarrow> (Inl (internal_wrap e ''replace backup codes''), db1)
                   | Inr db1 \<Rightarrow> (Inr (fa_id f, raw), db1))))"
    using r by (auto simp add: keeps_def split_beta split: sum.split)
qed simp

lemma keeps_factor_part: "factor_part db' = factor_part db \<Longrightarrow> keeps db db'"
  by (rule keepsI [OF factor_part_good]) (simp_all add: factor_part_def factors_ok_def)

lemma keeps_verify_mfa: "keeps db (snd (verify_mfa_login env db now t i c r raw ip ag))"
proof -
  have "keeps db (snd (case dispatch_mfa_verify env db now p i c r of
      (Inl err, db1) \<Rightarrow>
        if is_sentinel err ErrNotFound then apfst Inl (count_challenge_failure db1 now h p True)
        else if is_sentinel err ErrUnauthorized then apfst Inl (count_challenge_failure db1 now h p False)
        else (Inl err, db1)
    | (Inr u, db1) \<Rightarrow>
        (let db2 = log_event (update_last_login (delete_pending_mfa db1 h) (lr_user p) now) ''login''
               (Some (lr_user p)) (lr_email p) now
         in issue_session env db2 now (lr_user p) raw ip ag)))" for p h
  proof (cases "dispatch_mfa_verify env db now p i c r")
    case (Pair x db1)
    have 1: "keeps db db1"
      using calm_keeps [OF good_dispatch calm_dispatch, of db env now p i c r] Pair by simp
    have 2: "keeps db db2" if "factor_part db2 = factor_part db1" for db2
      using keeps_trans [OF 1 keeps_factor_part [OF that]] .
    show ?thesis using Pair 1 2 factor_part_count_challenge
      by (cases x) (auto simp add: Let_def)
  qed
  then show ?thesis
    by (auto simp add: verify_mfa_login_def Let_def keeps_factor_part split: sum.split)
qed

lemma keeps_hard_delete: "keeps db (hard_delete_user db u)"
  by (rule keepsI [OF good_hard_delete])
    (auto simp add: hard_delete_user_def factors_ok_def intro: policy_filter_users)

theorem keeps_run_auth: "keeps db (run_auth env now op db)"
  by (cases op) (simp_all add: keeps_enroll_totp keeps_enroll_webauthn keeps_activate_op keeps_delete_op
      keeps_update_label keeps_regenerate keeps_cleanup keeps_verify_mfa keeps_hard_delete keeps_factor_part
      factor_part_login factor_part_change_password factor_part_begin factor_part_logout factor_part_revoke)

lemma reachable_factors_ok: "auth_reachable env db \<Longrightarrow> factors_ok db"
proof (induction rule: auth_reachable.induct)
  case start
  show ?case by (simp add: factors_ok_def store_ok_def policy_ok_def empty_auth_db_def)
next
  case (step db now op)
  then show ?case using keeps_run_auth by (simp add: keeps_def)
qed

end
