(* ===== verification/MfaSessions.thy ===== *)
theory MfaSessions
  imports MfaInvariant
begin

text \<open>
  What the requests do to the session table: the requests on factors leave it alone, every
  other one is described row by row; ids stay distinct and failure counters below the limit.
\<close>

section \<open>Requests on factors\<close>

definition session_part :: "auth_db \<Rightarrow> session_row list \<times> user_row list \<times> audit_row list" where
  "session_part db = (db_sessions db, db_users db, db_audit db)"

lemma calm_session_part: "calm db db' \<Longrightarrow> session_part db' = session_part db"
  by (simp add: calm_def session_part_def)

lemma session_part_rows [simp]:
  "session_part (touch_last_used db i now) = session_part db"
  "session_part (snd (activate_factor db i u now)) = session_part db"
  "session_part (snd (update_label_row db i u l)) = session_part db"
  "session_part (set_registration_challenge db i c e) = session_part db"
  "session_part (clear_registration_challenge db i) = session_part db"
  "session_part (remove_factors db p) = session_part db"
  "session_part (snd (delete_factor_row db i u)) = session_part db"
  "session_part (insert_backup_codes db cs) = session_part db"
  by (simp_all add: session_part_def touch_last_used_def activate_factor_def update_label_row_def
      set_registration_challenge_def clear_registration_challenge_def remove_factors_def
      delete_factor_row_def insert_backup_codes_def Let_def)

lemma session_part_created:
  "create_factor db f = Inr (f', db') \<Longrightarrow> session_part db' = session_part db"
  "create_totp_secret db s = Inr db' \<Longrightarrow> session_part db' = session_part db"
  "create_webauthn_credential db c = Inr db' \<Longrightarrow> session_part db' = session_part db"
  "replace_backup_codes db i cs = Inr db' \<Longrightarrow> session_part db' = session_part db"
  "increment_activation_failures db i u = Inr (n, db') \<Longrightarrow> session_part db' = session_part db"
  by (auto simp add: session_part_def create_factor_def create_totp_secret_def create_webauthn_credential_def
      replace_backup_codes_def insert_backup_codes_def increment_activation_failures_def Let_def
      split: if_splits option.splits)

lemma session_part_calm [simp]:
  "session_part (snd (verify_step_up_mfa env db now u c)) = session_part db"
  "session_part (snd (verify_totp_for_activation env db now i c)) = session_part db"
  "session_part (snd (dispatch_mfa_verify env db now p i c r)) = session_part db"
  using calm_step_up calm_verify_totp calm_dispatch calm_session_part by blast+

lemma session_part_andThen:
  assumes "session_part (snd m) = session_part db"
    and "\<And>x db1. m = (Inr x, db1) \<Longrightarrow> session_part (snd (k x db1)) = session_part db1"
  shows "session_part (snd (andThen m k)) = session_part db"
proof (cases m)
  case (Pair r db1)
  then show ?thesis using assms by (cases r) simp_all
qed

lemma session_part_drop [simp]: "session_part (drop_pending db u ty) = session_part db"
  by (simp add: drop_pending_def split: sum.split)

lemma session_part_enroll [simp]:
  "session_part (snd (enroll_totp env db now u l p c s n)) = session_part db"
  "session_part (snd (enroll_webauthn env db now u l p c a d)) = session_part db"
  unfolding enroll_totp_def enroll_webauthn_def
  by (auto intro!: session_part_andThen simp add: Let_def session_part_created split: sum.split prod.split)

lemma session_part_ensure [simp]:
  "session_part (snd (ensure_backup_codes_factor env db now u draw)) = session_part db"
  by (auto simp add: ensure_backup_codes_factor_def session_part_created split_beta split: sum.split)

lemma session_part_count_wrong [simp]: "session_part (snd (count_wrong_code db u f e)) = session_part db"
  by (auto simp add: count_wrong_code_def session_part_created split: sum.split)

lemma session_part_activate_webauthn [simp]:
  "session_part (snd (activate_webauthn_factor env db now u f r)) = session_part db"
  by (auto simp add: activate_webauthn_factor_def session_part_created split: sum.split option.split)

lemma session_part_check:
  assumes "check_activation env db now u f c r = (x, db')"
  shows "session_part db' = session_part db"
proof -
  obtain y db1 where v: "verify_totp_for_activation env db now (fa_id f) c = (y, db1)"
    by (cases "verify_totp_for_activation env db now (fa_id f) c")
  have 1: "session_part db1 = session_part db" using session_part_calm(2) v by (metis snd_conv)
  have w: "session_part db2 = session_part db1" if "apfst Inl (count_wrong_code db1 u f e) = (x, db2)" for e db2
    using session_part_count_wrong [of db1 u f e] that by (metis snd_apfst snd_conv)
  have a: "session_part db2 = session_part db" if "activate_webauthn_factor env db now u f r = (x, db2)" for db2
    using session_part_activate_webauthn that by (metis snd_conv)
  show ?thesis using assms v 1 w a by (cases y) (auto split: if_splits)
qed

lemma session_part_activate_op [simp]:
  "session_part (snd (activate_factor_op env db now u i c r draw)) = session_part db"
proof (cases "find_by_id_and_user db i u")
  case (Inr f)
  obtain x db1 where m: "check_activation env db now u f c r = (x, db1)"
    by (cases "check_activation env db now u f c r")
  show ?thesis unfolding activate_factor_op_def Inr sum.case m
    using session_part_check [OF m] by (cases x) (auto simp add: split_beta)
qed (simp add: activate_factor_op_def)

lemma session_part_delete_op [simp]:
  "session_part (snd (delete_factor_op env db now u i p c)) = session_part db"
  unfolding delete_factor_op_def Let_def
  by (auto intro!: session_part_andThen simp add: split_beta split: sum.split)

lemma session_part_label_op [simp]: "session_part (snd (update_label db u i l)) = session_part db"
  by (auto simp add: update_label_def split_beta split: sum.split)

lemma session_part_regenerate [simp]:
  "session_part (snd (regenerate_backup_codes env db now u i p c draw)) = session_part db"
  unfolding regenerate_backup_codes_def
  by (auto intro!: session_part_andThen simp add: split_beta session_part_created split: sum.split)

section \<open>The session table\<close>

lemma sessions_frame [simp]:
  "db_sessions (log_event db a u e now) = db_sessions db"
  "db_sessions (update_last_login db i now) = db_sessions db"
  "db_sessions (update_user db r) = db_sessions db"
  "db_sessions (remove_sessions db p) = filter (\<lambda>s. \<not> p s) (db_sessions db)"
  "db_sessions (delete_pending_mfa db h) = filter (\<lambda>s. \<not> (ss_id s = h \<and> ss_kind s = pending_mfa)) (db_sessions db)"
  by (simp_all add: log_event_def update_last_login_def update_user_def remove_sessions_def delete_pending_mfa_def)

lemma create_session_Inr:
  "create_session db s = Inr db' \<Longrightarrow>
     db' = db\<lparr>db_sessions := db_sessions db @ [s]\<rparr> \<and> (\<forall>r \<in> set (db_sessions db). ss_id r \<noteq> ss_id s)"
  by (auto simp add: create_session_def list_ex_iff split: if_splits)

text \<open>At most one row is added, at the end.\<close>

lemma issue_session_cases:
  obtains e where "issue_session env db now u raw ip ag = (Inl e, db)"
  | s r where "issue_session env db now u raw ip ag = (Inr r, db\<lparr>db_sessions := db_sessions db @ [s]\<rparr>)"
    "ss_user s = u" "ss_kind s = regular" "ss_failures s = 0" "ss_id s \<notin> ss_id ` set (db_sessions db)"
    "ss_expires_at s = now + session_lifetime"
proof (cases "create_session db \<lparr>ss_id = me_token_hash env raw, ss_user = u, ss_kind = regular, ss_created_at = now,
              ss_expires_at = now + session_lifetime, ss_failures = 0, ss_password_verified_at = None,
              ss_challenge = None, ss_ip = ip, ss_agent = ag\<rparr>")
  case (Inl e)
  then show ?thesis by (intro that(1)) (simp add: issue_session_def)
next
  case (Inr db1)
  from create_session_Inr [OF this] Inr show ?thesis by (intro that(2)) (auto simp add: issue_session_def)
qed

lemma issue_pending_cases:
  obtains e where "issue_pending_mfa env db now u raw ip ag = (Inl e, db)"
  | s p where "issue_pending_mfa env db now u raw ip ag = (Inr p, db\<lparr>db_sessions := db_sessions db @ [s]\<rparr>)"
    "ss_user s = u" "ss_kind s = pending_mfa" "ss_failures s = 0" "ss_id s \<notin> ss_id ` set (db_sessions db)"
proof (cases "create_session db \<lparr>ss_id = me_token_hash env raw, ss_user = u, ss_kind = pending_mfa, ss_created_at = now,
              ss_expires_at = now + pending_mfa_lifetime, ss_failures = 0,
              ss_password_verified_at = Some now, ss_challenge = None, ss_ip = ip, ss_agent = ag\<rparr>")
  case (Inl e)
  then show ?thesis by (intro that(1)) (simp add: issue_pending_mfa_def)
next
  case (Inr db1)
  from create_session_Inr [OF this] Inr show ?thesis by (intro that(2)) (auto simp add: issue_pending_mfa_def)
qed

text \<open>
  \<open>sess_step ok ss ss'\<close>: every row of \<open>ss'\<close> is one of \<open>ss\<close> with its user and kind, its
  counter unchanged or raised to a value below the limit, or a fresh one with the counter at
  zero that satisfies \<open>ok\<close>; ids stay distinct.
\<close>

definition sess_step :: "(session_row \<Rightarrow> bool) \<Rightarrow> session_row list \<Rightarrow> session_row list \<Rightarrow> bool" where
  "sess_step ok ss ss' \<longleftrightarrow> (distinct (map ss_id ss) \<longrightarrow>
     distinct (map ss_id ss') \<and>
     (\<forall>s' \<in> set ss'.
        (\<exists>s \<in> set ss. ss_id s' = ss_id s \<and> ss_user s' = ss_user s \<and> ss_kind s' = ss_kind s \<and>
           (ss_failures s' = ss_failures s \<or>
            ss_failures s' = ss_failures s + 1 \<and> ss_failures s' < mfa_challenge_failure_limit) \<and>
           (ss_kind s = regular \<longrightarrow> s' = s)) \<or>
        ss_failures s' = 0 \<and> ok s'))"

lemma sess_step_refl [simp]: "sess_step ok ss ss"
  by (auto simp add: sess_step_def)

lemma sess_step_filter [simp]: "sess_step ok ss (filter p ss)"
  by (auto simp add: sess_step_def distinct_map inj_on_def)

lemma sess_step_snoc:
  "ss_id s \<notin> ss_id ` set ss \<Longrightarrow> ss_failures s = 0 \<Longrightarrow> ok s \<Longrightarrow> sess_step ok ss (ss @ [s])"
  by (auto simp add: sess_step_def)

lemma sess_step_filter_snoc:
  "ss_id s \<notin> ss_id ` set (filter p ss) \<Longrightarrow> ss_failures s = 0 \<Longrightarrow> ok s \<Longrightarrow> sess_step ok ss (filter p ss @ [s])"
  by (auto simp add: sess_step_def distinct_map inj_on_def)

lemma sess_step_map:
  assumes "\<And>s. s \<in> set ss \<Longrightarrow> ss_id (g s) = ss_id s \<and> ss_user (g s) = ss_user s \<and> ss_kind (g s) = ss_kind s \<and>
      (ss_kind s = regular \<longrightarrow> g s = s)"
    and "\<And>s. distinct (map ss_id ss) \<Longrightarrow> s \<in> set ss \<Longrightarrow> ss_failures (g s) = ss_failures s \<or>
      ss_failures (g s) = ss_failures s + 1 \<and> ss_failures (g s) < mfa_challenge_failure_limit"
  shows "sess_step ok ss (map g ss)"
proof -
  have e: "map ss_id (map g ss) = map ss_id ss" using assms(1) by simp
  have "\<exists>s \<in> set ss. ss_id s' = ss_id s \<and> ss_user s' = ss_user s \<and> ss_kind s' = ss_kind s \<and>
           (ss_failures s' = ss_failures s \<or>
            ss_failures s' = ss_failures s + 1 \<and> ss_failures s' < mfa_challenge_failure_limit) \<and>
           (ss_kind s = regular \<longrightarrow> s' = s)" if "distinct (map ss_id ss)" "s' \<in> set (map g ss)" for s'
  proof -
    from that(2) obtain s where s: "s \<in> set ss" "s' = g s" by auto
    show ?thesis unfolding s(2)
      by (rule bexI [of _ s]) (use assms(1) [OF s(1)] assms(2) [OF that(1) s(1)] s(1) in auto)
  qed
  then show ?thesis unfolding sess_step_def e by blast
qed

lemma sess_step_challenge:
  "sess_step ok ss (map (\<lambda>s. if ss_id s = h \<and> ss_kind s = pending_mfa then s\<lparr>ss_challenge := c\<rparr> else s) ss)"
  by (rule sess_step_map) auto

text \<open>Why a regular session may appear.\<close>

definition fresh_session_ok :: "mfa_env \<Rightarrow> auth_db \<Rightarrow> int \<Rightarrow> auth_op \<Rightarrow> session_row \<Rightarrow> bool" where
  "fresh_session_ok env db now op s \<longleftrightarrow>
     ss_kind s = pending_mfa \<or> ss_kind s = regular \<and>
     (case op of
        Login e p raw ip ag \<Rightarrow>
          \<exists>u. find_user_by_email (me_sql_lower env) db (canonical_email env e) = Inr u \<and> us_active u \<and>
            me_password_ok env (us_password u) p \<and> \<not> has_active_primary_factor db (us_id u) \<and> ss_user s = us_id u
      | VerifyMfa t i c r raw ip ag \<Rightarrow>
          \<exists>p. lookup_pending_mfa db now (me_token_hash env t) = Inr p \<and> lr_active p \<and>
            count_failed_mfa_challenges_since db (lr_user p) (now - mfa_per_user_lockout_window)
              < mfa_per_user_lockout_threshold \<and>
            fst (dispatch_mfa_verify env db now p i c r) = Inr () \<and> ss_user s = lr_user p
      | ChangePassword v c n sh salt raw ip ag \<Rightarrow>
          \<exists>u. find_user_by_id db v = Inr u \<and> me_password_ok env (us_password u) c \<and> ss_user s = us_id u
      | _ \<Rightarrow> False)"

lemma sess_login:
  "sess_step (fresh_session_ok env db now (Login e p raw ip ag)) (db_sessions db)
     (db_sessions (snd (login env db now e p raw ip ag)))"
proof (cases "find_user_by_email (me_sql_lower env) db (canonical_email env e)")
  case (Inr u)
  show ?thesis
  proof (cases "has_active_primary_factor db (us_id u)")
    case True
    show ?thesis
      by (rule issue_pending_cases [of env db now "us_id u" raw ip ag])
        (use True Inr in \<open>auto simp add: login_def Let_def fresh_session_ok_def intro!: sess_step_snoc\<close>)
  next
    case False
    show ?thesis
      by (rule issue_session_cases [of env
            "log_event (update_last_login db (us_id u) now) ''login'' (Some (us_id u)) (us_email u) now" now "us_id u" raw ip ag])
        (use False Inr in \<open>auto simp add: login_def Let_def fresh_session_ok_def intro!: sess_step_snoc\<close>)
  qed
qed (simp add: login_def Let_def)

lemma sess_change_password:
  "sess_step (fresh_session_ok env db now (ChangePassword v c n sh salt raw ip ag)) (db_sessions db)
     (db_sessions (snd (change_password env db now v c n sh salt raw ip ag)))"
proof (cases "find_user_by_id db v")
  case (Inr u)
  have i: "sess_step (fresh_session_ok env db now (ChangePassword v c n h salt raw ip ag)) (db_sessions db)
     (db_sessions (snd (issue_session env db1 now (us_id u) raw ip ag)))"
    if "me_password_ok env (us_password u) c" "db_sessions db1 = filter q (db_sessions db)" for db1 q h
    by (rule issue_session_cases [of env db1 now "us_id u" raw ip ag])
      (use that Inr in \<open>auto simp add: fresh_session_ok_def intro!: sess_step_filter_snoc\<close>)
  show ?thesis
    using i by (simp add: change_password_def Inr Let_def delete_session_def delete_all_for_user_def
        delete_all_for_user_except_def split: option.split)
qed (simp add: change_password_def)

text \<open>The counter of a pending row.\<close>

lemma same_session: "distinct (map ss_id ss) \<Longrightarrow> s \<in> set ss \<Longrightarrow> s' \<in> set ss \<Longrightarrow> ss_id s = ss_id s' \<Longrightarrow> s = s'"
  by (auto simp add: distinct_map dest: inj_onD)

lemma bump_Inr:
  assumes "bump_mfa_challenge_failures db now h = Inr (n, db')"
  defines "hit \<equiv> \<lambda>s. ss_id s = h \<and> ss_kind s = pending_mfa \<and> now < ss_expires_at s"
  shows "\<exists>s \<in> set (db_sessions db). hit s \<and> n = ss_failures s + 1"
    and "db' = db\<lparr>db_sessions := map (\<lambda>s. if hit s then s\<lparr>ss_failures := ss_failures s + 1\<rparr> else s) (db_sessions db)\<rparr>"
  using assms
  by (auto simp add: bump_mfa_challenge_failures_def Let_def find_Some_iff split: if_splits option.splits
      intro: nth_mem)

lemma sess_count_challenge:
  "sess_step ok (db_sessions db) (db_sessions (snd (count_challenge_failure db now h p unk)))"
proof -
  let ?f = "\<lambda>d. log_event d ''mfa_challenge_failed'' (Some (lr_user p)) (lr_email p) now"
  let ?db0 = "if unk then ?f db else db"
  have s0: "db_sessions ?db0 = db_sessions db" by simp
  show ?thesis
  proof (cases "bump_mfa_challenge_failures ?db0 now h")
    case (Inl e)
    then show ?thesis using s0 by (simp add: count_challenge_failure_def Let_def)
  next
    case (Inr nd)
    obtain n db1 where nd: "nd = (n, db1)" by (cases nd)
    note b = bump_Inr [OF Inr [unfolded nd], unfolded s0]
    let ?hit = "\<lambda>s. ss_id s = h \<and> ss_kind s = pending_mfa \<and> now < ss_expires_at s"
    let ?g = "\<lambda>s. if ?hit s then s\<lparr>ss_failures := ss_failures s + 1\<rparr> else s"
    have s1: "db_sessions db1 = map ?g (db_sessions db)" using b(2) by simp
    show ?thesis
    proof (cases "mfa_challenge_failure_limit \<le> n")
      case True
      have "filter (\<lambda>s. \<not> (ss_id s = h \<and> ss_kind s = pending_mfa)) (map ?g ss)
          = filter (\<lambda>s. \<not> (ss_id s = h \<and> ss_kind s = pending_mfa)) ss" for ss
        by (induction ss) auto
      then have "db_sessions (delete_pending_mfa db1 h)
          = filter (\<lambda>s. \<not> (ss_id s = h \<and> ss_kind s = pending_mfa)) (db_sessions db)"
        by (simp only: sessions_frame(5) s1)
      then show ?thesis using Inr nd True by (simp add: count_challenge_failure_def Let_def del: sessions_frame(5))
    next
      case False
      obtain s where s: "s \<in> set (db_sessions db)" "?hit s" "n = ss_failures s + 1" using b(1) by blast
      have "sess_step ok (db_sessions db) (map ?g (db_sessions db))"
      proof (rule sess_step_map)
        fix s' assume d: "distinct (map ss_id (db_sessions db))" and s': "s' \<in> set (db_sessions db)"
        show "ss_failures (?g s') = ss_failures s' \<or>
            ss_failures (?g s') = ss_failures s' + 1 \<and> ss_failures (?g s') < mfa_challenge_failure_limit"
        proof (cases "?hit s'")
          case True
          with same_session [OF d s' s(1)] s(2) have "s' = s" by simp
          with s False True show ?thesis by simp
        qed (simp only: if_False simp_thms)
      qed auto
      then show ?thesis using Inr nd False s1 by (auto simp add: count_challenge_failure_def Let_def)
    qed
  qed
qed

lemma sess_verify_mfa:
  "sess_step (fresh_session_ok env db now (VerifyMfa t i c r raw ip ag)) (db_sessions db)
     (db_sessions (snd (verify_mfa_login env db now t i c r raw ip ag)))"
proof (cases "lookup_pending_mfa db now (me_token_hash env t)")
  case (Inr p)
  let ?ok = "fresh_session_ok env db now (VerifyMfa t i c r raw ip ag)"
  obtain x db1 where d: "dispatch_mfa_verify env db now p i c r = (x, db1)"
    by (cases "dispatch_mfa_verify env db now p i c r")
  have s1: "db_sessions db1 = db_sessions db"
    using session_part_calm(3) [of env db now p i c r] d by (simp add: session_part_def del: session_part_calm)
  have c: "sess_step ok (db_sessions db) (db_sessions (snd (count_challenge_failure db1 now h p unk)))" for ok h unk
    using sess_count_challenge [of ok db1 now h p unk] s1 by simp
  have l: "sess_step ?ok (db_sessions db) (db_sessions (snd (issue_session env
        (log_event (update_last_login (delete_pending_mfa db1 h) (lr_user p) now) a v e now) now (lr_user p) raw ip ag)))"
    if "x = Inr ()" "lr_active p" "\<not> mfa_per_user_lockout_threshold
          \<le> count_failed_mfa_challenges_since db (lr_user p) (now - mfa_per_user_lockout_window)" for h a v e
    by (rule issue_session_cases [of env "log_event (update_last_login (delete_pending_mfa db1 h) (lr_user p) now) a v e now"
          now "lr_user p" raw ip ag])
      (use that s1 d Inr in \<open>auto simp add: fresh_session_ok_def intro!: sess_step_filter_snoc\<close>)
  show ?thesis
    using c l s1 d Inr by (cases x) (auto simp add: verify_mfa_login_def Let_def)
qed (simp add: verify_mfa_login_def Let_def)

lemma sess_begin: "sess_step ok (db_sessions db) (db_sessions (snd (begin_mfa_challenge env db now t i)))"
proof -
  have "sess_step ok (db_sessions db) (db_sessions db')" if "set_pending_mfa_challenge db h ch = Inr db'" for h ch db'
    using that sess_step_challenge by (auto simp add: set_pending_mfa_challenge_def Let_def split: if_splits)
  then show ?thesis by (auto simp add: begin_mfa_challenge_def Let_def split: sum.split)
qed

theorem sess_run_auth:
  "sess_step (fresh_session_ok env db now op) (db_sessions db) (db_sessions (run_auth env now op db))"
proof -
  have f: "sess_step ok (db_sessions db) (db_sessions db')" if "session_part db' = session_part db" for ok db'
    using that by (simp add: session_part_def)
  show ?thesis
    by (cases op) (simp_all add: f sess_login sess_verify_mfa sess_begin sess_change_password
        cleanup_abandoned_pending_def logout_def Let_def delete_session_def revoke_session_def delete_for_user_def
        cleanup_expired_def hard_delete_user_def)
qed

definition sessions_ok :: "auth_db \<Rightarrow> bool" where
  "sessions_ok db \<longleftrightarrow> distinct (map ss_id (db_sessions db)) \<and>
     (\<forall>s \<in> set (db_sessions db). 0 \<le> ss_failures s \<and> ss_failures s < mfa_challenge_failure_limit)"

lemma sessions_run_auth: "sessions_ok db \<Longrightarrow> sessions_ok (run_auth env now op db)"
  using sess_run_auth [of env db now op] unfolding sessions_ok_def sess_step_def
  by (fastforce simp add: mfa_challenge_failure_limit_def)

lemma reachable_sessions_ok: "auth_reachable env db \<Longrightarrow> sessions_ok db"
  by (induction rule: auth_reachable.induct) (simp_all add: sessions_run_auth, simp add: sessions_ok_def empty_auth_db_def)

end
