(* ===== verification/AccountLaws.thy ===== *)
theory AccountLaws
  imports AccountSteps MfaSessions
begin

text \<open>
  The invariants of the account tables under every request, and whose rows a request may change.
\<close>

section \<open>Sign-in and factors leave the flags alone\<close>

definition user_flags :: "user_row \<Rightarrow> nat \<times> bool \<times> bool \<times> bool" where
  "user_flags u = (us_id u, us_active u, us_superadmin u, us_deleted u)"

lemma flags_rows [simp]:
  "db_users (log_event a act u e now) = db_users a" "db_users (remove_sessions a p) = db_users a"
  "db_users (delete_pending_mfa a h) = db_users a" "db_users (delete_session a h) = db_users a"
  "db_users (delete_all_for_user_except a i h) = db_users a" "db_users (cleanup_expired a now) = db_users a"
  "db_users (cleanup_abandoned_pending a now age) = db_users a"
  "map user_flags (db_users (update_last_login a i now)) = map user_flags (db_users a)"
  by (simp_all add: log_event_def remove_sessions_def delete_pending_mfa_def delete_session_def user_flags_def
      delete_all_for_user_except_def cleanup_expired_def cleanup_abandoned_pending_def update_last_login_def
      remove_factors_def)

lemma flags_sessions [simp]:
  "db_users (snd (issue_session env a now i raw ip ag)) = db_users a"
  "db_users (snd (issue_pending_mfa env a now i raw ip ag)) = db_users a"
  by (auto simp add: issue_session_def issue_pending_mfa_def create_session_def split: sum.split if_splits)

lemma flags_bump: "bump_mfa_challenge_failures a now h = Inr (n, a1) \<Longrightarrow> db_users a1 = db_users a"
  by (auto simp add: bump_mfa_challenge_failures_def Let_def split: if_splits option.splits)

lemma flags_update:
  assumes "find_user_by_id a i = Inr u" and "distinct (map us_id (db_users a))"
  shows "map user_flags (db_users (update_user a (u\<lparr>us_password := h\<rparr>))) = map user_flags (db_users a)"
proof -
  have "u \<in> set (db_users a)" using assms(1) by (auto simp add: find_user_by_id_def find_Some_iff split: option.splits)
  then show ?thesis by (auto simp add: user_flags_def dest: same_key [OF assms(2)])
qed

lemma flags_count: "db_users (snd (count_challenge_failure a now h p unk)) = db_users a"
  by (auto simp add: count_challenge_failure_def Let_def split: sum.split dest!: flags_bump split: if_splits)

lemma flags_run_auth:
  assumes "distinct (map us_id (db_users a))" and "\<forall>us. op \<noteq> ReplaceUser us" and "\<forall>i. op \<noteq> PurgeUser i"
  shows "map user_flags (db_users (run_auth env now op a)) = map user_flags (db_users a)"
proof -
  have f: "map user_flags (db_users a') = map user_flags (db_users a)" if "session_part a' = session_part a" for a'
    using that by (simp add: session_part_def)
  have d: "db_users (snd (dispatch_mfa_verify env a now p i c r)) = db_users a" for p i c r
    using session_part_calm(3) [of env a now p i c r] by (simp add: session_part_def del: session_part_calm)
  have l: "map user_flags (db_users (snd (login env a now e p raw ip ag))) = map user_flags (db_users a)" for e p raw ip ag
    by (simp add: login_def Let_def split_beta split: sum.split)
  have v: "map user_flags (db_users (snd (verify_mfa_login env a now t i c r raw ip ag))) = map user_flags (db_users a)" for t i c r raw ip ag
    by (auto simp add: verify_mfa_login_def Let_def flags_count split_beta d
        split: sum.split)
  have b: "db_users (snd (begin_mfa_challenge env a now t i)) = db_users a" for t i
    by (auto simp add: begin_mfa_challenge_def Let_def set_pending_mfa_challenge_def split: sum.split)
  have c: "map user_flags (db_users (snd (change_password env a now v cu n sh salt raw ip ag))) = map user_flags (db_users a)" for v cu n sh salt raw ip ag
    using flags_update [OF _ assms(1)]
    by (auto simp add: change_password_def Let_def split: sum.split option.split)
  show ?thesis
    using assms(2,3) by (cases op) (auto intro: f simp add: l v b c logout_def Let_def revoke_session_def delete_for_user_def split_beta)
qed


section \<open>The tables as a whole\<close>

text \<open>
  Every request of a client: of an administrator (\<open>account_step\<close>), or of the sign-in, session and
  factor routes, which are those of \<open>Login\<close>.
\<close>

inductive system_step :: "mfa_env \<Rightarrow> policy list \<Rightarrow> account_db \<Rightarrow> account_db \<Rightarrow> bool" for env ps where
  managed: "account_step env ps r db db' \<Longrightarrow> system_step env ps db db'"
| signed_in: "\<forall>us. op \<noteq> ReplaceUser us \<Longrightarrow> \<forall>i. op \<noteq> PurgeUser i \<Longrightarrow>
    system_step env ps db (db\<lparr>ac_auth := run_auth env now op (ac_auth db)\<rparr>)"

definition live_defaults :: "account_db \<Rightarrow> nat \<Rightarrow> section_row list" where
  "live_defaults db org = filter (\<lambda>s. sc_org s = org \<and> sc_default s \<and> \<not> sc_deleted s) (ac_sections db)"

definition users_wf :: "account_db \<Rightarrow> bool" where
  "users_wf db \<longleftrightarrow> distinct (map us_id (account_users db)) \<and> (\<forall>i \<in> set (map us_id (account_users db)). i < ac_next_user db) \<and>
     distinct (map (\<lambda>m. (mb_user m, mb_org m)) (ac_members db))"

definition orgs_wf :: "account_db \<Rightarrow> bool" where
  "orgs_wf db \<longleftrightarrow> distinct (map og_id (ac_orgs db)) \<and> (\<forall>i \<in> set (map og_id (ac_orgs db)). i < ac_next_org db) \<and>
     distinct (map sc_id (ac_sections db)) \<and> (\<forall>i \<in> set (map sc_id (ac_sections db)). i < ac_next_section db) \<and>
     set (map sc_org (ac_sections db)) \<subseteq> set (map og_id (ac_orgs db)) \<and>
     (\<forall>i \<in> set (map og_id (ac_orgs db)). length (live_defaults db i) = 1)"

definition usable_superadmin :: "account_db \<Rightarrow> bool" where
  "usable_superadmin db \<longleftrightarrow> (\<exists>u \<in> set (account_users db). us_superadmin u \<and> us_active u \<and> \<not> us_deleted u)"

lemma account_step_change:
  assumes "account_step env default_policies r db db'" and u: "users_wf db" and g: "orgs_wf db"
  shows "user_change db r db' \<and> org_part db' = org_part db \<or>
    org_change db r db' \<and> (user_part db' = user_part db \<or> is_super_admin db r \<and> (\<exists>org.
      user_part db' = (account_users db, ac_next_user db, filter (\<lambda>m. mb_org m \<noteq> org) (ac_members db))))"
proof -
  have d: "distinct (map us_id (account_users db))" and ds: "distinct (map sc_id (ac_sections db))"
    using u g by (simp_all add: users_wf_def orgs_wf_def)
  note super = require_super_admin_Inr
  have per: "is_super_admin db r \<or> get_role_in_org db r org = role_admin"
    if "require_permission default_policies db res act (Some r) par = Inr org"
      "res = ''sections'' \<and> act \<in> {''create'', ''update'', ''delete''} \<or> res = ''organizations'' \<and> act = ''update''"
    for res act par org
    using require_permission_Inr [OF that(1)] that(2) grants_only_admin by blast
  from assms(1) show ?thesis
  proof cases
    case (new_user u creq salt by_whom x)
    with create_user_change super show ?thesis by blast
  next
    case (edit_user u i ureq x)
    with update_account_change show ?thesis by blast
  next
    case (remove_user u i y)
    with delete_account_change d show ?thesis by blast
  next
    case (purge_user_row u i y)
    with hard_delete_account_change super show ?thesis by blast
  next
    case (set_password u now i pw salt apw y)
    with reset_password_change show ?thesis by blast
  next
    case (set_super u i flag apw y)
    with set_super_admin_change super d show ?thesis by blast
  next
    case (new_member u i org role by_whom m)
    with add_member_change show ?thesis by blast
  next
    case (edit_member u i org role m)
    with edit_member_change show ?thesis by blast
  next
    case (remove_member u i org y)
    with remove_member_change show ?thesis by blast
  next
    case (new_org u oreq by_whom g)
    with create_organization_change super show ?thesis by blast
  next
    case (edit_org par org oureq g)
    with update_organization_change per show ?thesis by blast
  next
    case (remove_org u org y)
    with delete_organization_change super show ?thesis by blast
  next
    case (purge_org_row u org y)
    with purge_organization_change super show ?thesis by blast
  next
    case (new_section par org name low high by_whom s)
    with create_section_change per show ?thesis by blast
  next
    case (edit_section par org i sreq s)
    with update_section_change per show ?thesis by blast
  next
    case (promote_section par org i y)
    with promote_section_change per show ?thesis by blast
  next
    case (remove_section par org this_day i y)
    with delete_section_change per ds show ?thesis by blast
  qed
qed


lemma users_wf_part: "user_part db' = user_part db \<Longrightarrow> users_wf db' = users_wf db"
  by (simp add: user_part_def users_wf_def)

lemma orgs_wf_part: "org_part db' = org_part db \<Longrightarrow> orgs_wf db' = orgs_wf db"
  by (simp add: org_part_def orgs_wf_def live_defaults_def)

lemma ids_rewritten: "us_id v = i \<Longrightarrow> map us_id (map (\<lambda>r. if us_id r = i then v else r) us) = map us_id us"
  by simp

lemma distinct_filter_key: "distinct (map f xs) \<Longrightarrow> distinct (map f (filter p xs))"
  by (simp add: distinct_map inj_on_def)

lemma users_wf_change:
  assumes "user_change db r db'" and "users_wf db"
  shows "users_wf db'"
  using assms(1)
proof cases
  case (created v)
  then show ?thesis using assms(2) by (auto simp add: users_wf_def user_part_def less_Suc_eq)
next
  case (edited i u v)
  have "map us_id (account_users db') = map us_id (account_users db)"
    using edited(1) ids_rewritten [of v i "account_users db"] by (simp add: row_rewritten_def)
  then show ?thesis using assms(2) edited(2,3) by (simp only: users_wf_def simp_thms) blast
qed (use assms(2) in \<open>auto simp add: users_wf_def user_part_def distinct_filter_key\<close>)

lemma usable_change:
  assumes "user_change db r db'" and "users_wf db" and "usable_superadmin db"
  shows "usable_superadmin db'"
proof -
  obtain w where w: "w \<in> set (account_users db)" "us_superadmin w" "us_active w" "\<not> us_deleted w"
    using assms(3) by (auto simp add: usable_superadmin_def)
  have d: "distinct (map us_id (account_users db))" using assms(2) by (simp add: users_wf_def)
  have other: "\<exists>x \<in> set (account_users db). us_id x \<noteq> i \<and> us_superadmin x \<and> us_active x \<and> \<not> us_deleted x"
    if "orphan_free db i" for i
    using that by (auto simp add: orphan_free_def)
  from assms(1) show ?thesis
  proof cases
    case (edited i u v)
    note e = edited(1) [unfolded row_rewritten_def]
    show ?thesis
    proof (cases "us_superadmin u \<and> us_active u \<and> \<not> us_deleted u \<and> us_id w = i")
      case True
      with edited(6) other consider "us_superadmin v" "us_active v" "\<not> us_deleted v"
        | x where "x \<in> set (account_users db)" "us_id x \<noteq> i" "us_superadmin x" "us_active x" "\<not> us_deleted x"
        by blast
      then show ?thesis
      proof cases
        case 1
        then show ?thesis using e w(1) True unfolding usable_superadmin_def by force
      next
        case 2
        then show ?thesis using e unfolding usable_superadmin_def by force
      qed
    next
      case False
      have "us_id w \<noteq> i" using False w e same_key [OF d w(1), of u] by auto
      then show ?thesis using w e unfolding usable_superadmin_def by force
    qed
  next
    case (purged i u)
    have "u \<in> set (account_users db)" "us_id u = i"
      using purged(3) by (auto simp add: find_user_unscoped_def find_Some_iff split: option.splits)
    then have "us_id w = i \<Longrightarrow> u = w" using same_key [OF d _ w(1)] by simp
    then have "us_id w \<noteq> i \<or> orphan_free db i" using purged(4) w(2) by auto
    then obtain x where "x \<in> set (account_users db)" "us_id x \<noteq> i" "us_superadmin x" "us_active x" "\<not> us_deleted x"
      using w other [of i] by auto
    moreover have "account_users db' = filter (\<lambda>u. us_id u \<noteq> i) (account_users db)"
      using purged(1) by (simp add: user_part_def)
    ultimately show ?thesis unfolding usable_superadmin_def by auto
  qed (use w in \<open>auto simp add: usable_superadmin_def user_part_def\<close>)
qed

lemma one_default_only:
  assumes "distinct (map sc_id ss)" and "s \<in> set ss" and "\<And>x. P x \<longleftrightarrow> sc_id x = sc_id s"
  shows "length (filter P ss) = 1"
proof -
  have "P x \<longleftrightarrow> x = s" if "x \<in> set ss" for x using assms(3) same_key [OF assms(1) that assms(2)] by blast
  then have "{x. P x} \<inter> set ss = {s}" using assms(2) by blast
  moreover have "distinct ss" using assms(1) by (simp add: distinct_map)
  ultimately show ?thesis by (simp add: distinct_length_filter)
qed

lemma orgs_wf_same_keys:
  assumes "orgs_wf db" and "map og_id (ac_orgs db') = map og_id (ac_orgs db)" and "ac_next_org db' = ac_next_org db"
    and "map sc_id (ac_sections db') = map sc_id (ac_sections db)" and "ac_next_section db' = ac_next_section db"
    and "map sc_org (ac_sections db') = map sc_org (ac_sections db)"
    and "\<And>i. length (live_defaults db i) = 1 \<Longrightarrow> length (live_defaults db' i) = 1"
  shows "orgs_wf db'"
  using assms(1,7) unfolding orgs_wf_def assms(2-6) by blast

lemma orgs_wf_change:
  assumes "org_change db r db'" and "orgs_wf db"
  shows "orgs_wf db'"
  using assms(1)
proof cases
  case untouched
  then show ?thesis using assms(2) orgs_wf_part by blast
next
  case (founded g s)
  have n: "filter (\<lambda>s. sc_org s = ac_next_org db \<and> sc_default s \<and> \<not> sc_deleted s) (ac_sections db) = []"
    using assms(2) unfolding orgs_wf_def filter_empty_conv by fastforce
  have "\<forall>x \<in> set (ac_orgs db). og_id x \<noteq> ac_next_org db" using assms(2) by (auto simp add: orgs_wf_def)
  then show ?thesis
    using assms(2) founded n by (auto simp add: orgs_wf_def org_part_def live_defaults_def less_Suc_eq)
next
  case (org_edited org f)
  then show ?thesis
    by (intro orgs_wf_same_keys [OF assms(2)]) (simp_all add: org_part_def live_defaults_def)
next
  case (dissolved org)
  have "filter (\<lambda>s. sc_org s = i \<and> sc_default s \<and> \<not> sc_deleted s) (filter (\<lambda>s. sc_org s \<noteq> org) ss)
      = filter (\<lambda>s. sc_org s = i \<and> sc_default s \<and> \<not> sc_deleted s) ss" if "i \<noteq> org" for ss :: "section_row list" and i
    using that by (induction ss) auto
  then show ?thesis using assms(2) dissolved
    by (auto simp add: orgs_wf_def org_part_def live_defaults_def distinct_filter_key simp del: filter_filter)
next
  case (section_added s)
  then show ?thesis using assms(2) by (auto simp add: orgs_wf_def org_part_def live_defaults_def less_Suc_eq)
next
  case (section_edited s t)
  have ds: "distinct (map sc_id (ac_sections db))" using assms(2) by (simp add: orgs_wf_def)
  let ?m = "\<lambda>x :: section_row. if sc_id x = sc_id s then t else x"
  have e: "sc_id (?m x) = sc_id x" "sc_org (?m x) = sc_org x"
      "(sc_default (?m x) \<and> \<not> sc_deleted (?m x)) = (sc_default x \<and> \<not> sc_deleted x)" if "x \<in> set (ac_sections db)" for x
    using section_edited same_key [OF ds that section_edited(2)] by auto
  have "length (filter (\<lambda>s. sc_org s = org \<and> sc_default s \<and> \<not> sc_deleted s) (map ?m (ac_sections db)))
      = length (filter (\<lambda>s. sc_org s = org \<and> sc_default s \<and> \<not> sc_deleted s) (ac_sections db))" for org
    unfolding filter_map length_map by (rule arg_cong [where f = length], rule filter_cong) (use e in auto)
  then show ?thesis
    by (intro orgs_wf_same_keys [OF assms(2)])
      (use section_edited(1) e in \<open>simp_all add: org_part_def live_defaults_def del: filter_map\<close>)
next
  case (promoted s)
  have ds: "distinct (map sc_id (ac_sections db))" using assms(2) by (simp add: orgs_wf_def)
  let ?c = "\<lambda>x :: section_row. if sc_org x = sc_org s \<and> sc_default x \<and> \<not> sc_deleted x then x\<lparr>sc_default := False\<rparr> else x"
  let ?m = "\<lambda>x :: section_row. if sc_id x = sc_id s \<and> sc_org x = sc_org s \<and> \<not> sc_deleted x then x\<lparr>sc_default := True\<rparr> else x"
  let ?D = "\<lambda>org (x :: section_row). sc_org x = org \<and> sc_default x \<and> \<not> sc_deleted x"
  have sec: "ac_sections db' = map (?m \<circ> ?c) (ac_sections db)" and
    rest: "ac_orgs db' = ac_orgs db" "ac_next_org db' = ac_next_org db" "ac_next_section db' = ac_next_section db"
    using promoted(1) by (simp_all add: org_part_def store_promote_to_default_def Let_def)
  have e: "sc_id ((?m \<circ> ?c) x) = sc_id x" "sc_org ((?m \<circ> ?c) x) = sc_org x" for x by simp_all
  have "length (filter (?D (sc_org s)) (map (?m \<circ> ?c) (ac_sections db))) = 1"
  proof -
    have "filter (?D (sc_org s) \<circ> (?m \<circ> ?c)) (ac_sections db) = filter (\<lambda>x. sc_id x = sc_id s) (ac_sections db)"
      by (rule filter_cong) (use promoted(2,3) in \<open>auto dest: same_key [OF ds _ promoted(2)]\<close>)
    then show ?thesis unfolding filter_map length_map using one_default_only [OF ds promoted(2)] by simp
  qed
  moreover have "length (filter (?D org) (map (?m \<circ> ?c) (ac_sections db))) = length (filter (?D org) (ac_sections db))"
    if "org \<noteq> sc_org s" for org
    unfolding filter_map length_map by (rule arg_cong [where f = length], rule filter_cong) (use that in auto)
  ultimately have "length (filter (?D org) (ac_sections db)) = 1 \<Longrightarrow>
      length (filter (?D org) (map (?m \<circ> ?c) (ac_sections db))) = 1" for org
    by (cases "org = sc_org s") (simp_all only: simp_thms)
  then show ?thesis
    by (intro orgs_wf_same_keys [OF assms(2)]) (simp_all only: live_defaults_def sec rest, simp_all)
qed


lemma flags_facts:
  assumes "map user_flags us' = map user_flags us"
  shows "map us_id us' = map us_id us"
    and "(\<exists>u \<in> set us'. us_superadmin u \<and> us_active u \<and> \<not> us_deleted u) =
      (\<exists>u \<in> set us. us_superadmin u \<and> us_active u \<and> \<not> us_deleted u)"
proof -
  have "map fst (map user_flags us') = map fst (map user_flags us)" by (simp only: assms)
  then show "map us_id us' = map us_id us" by (simp add: user_flags_def comp_def)
  have "(\<exists>u \<in> set vs. us_superadmin u \<and> us_active u \<and> \<not> us_deleted u) =
      (\<exists>f \<in> set (map user_flags vs). fst (snd f) \<and> fst (snd (snd f)) \<and> \<not> snd (snd (snd f)))" for vs
    by (auto simp add: user_flags_def)
  then show "(\<exists>u \<in> set us'. us_superadmin u \<and> us_active u \<and> \<not> us_deleted u) =
      (\<exists>u \<in> set us. us_superadmin u \<and> us_active u \<and> \<not> us_deleted u)"
    by (simp only: assms)
qed

lemma system_step_invariant:
  assumes "system_step env default_policies db db'" and "users_wf db" and "orgs_wf db"
  shows "users_wf db' \<and> orgs_wf db' \<and> (usable_superadmin db \<longrightarrow> usable_superadmin db')"
  using assms(1)
proof cases
  case (managed r)
  from account_step_change [OF this assms(2,3)] show ?thesis
  proof (elim disjE conjE exE)
    assume "user_change db r db'" "org_part db' = org_part db"
    then show ?thesis using users_wf_change usable_change orgs_wf_part assms(2,3) by metis
  next
    assume "org_change db r db'" "user_part db' = user_part db"
    then show ?thesis using orgs_wf_change users_wf_part [of db' db] assms(2,3)
      by (simp add: usable_superadmin_def user_part_def)
  next
    fix org
    assume g: "org_change db r db'"
      and u: "user_part db' = (account_users db, ac_next_user db, filter (\<lambda>m. mb_org m \<noteq> org) (ac_members db))"
    have "users_wf db'" using u assms(2) by (simp add: users_wf_def user_part_def distinct_filter_key)
    then show ?thesis using orgs_wf_change [OF g assms(3)] u by (simp add: usable_superadmin_def user_part_def)
  qed
next
  case (signed_in op now)
  let ?a = "run_auth env now op (ac_auth db)"
  have "distinct (map us_id (account_users db))" using assms(2) by (simp add: users_wf_def)
  from flags_run_auth [OF this signed_in(2,3)]
  have f: "map user_flags (db_users ?a) = map user_flags (account_users db)" .
  have "users_wf db'" using assms(2) unfolding signed_in(1) users_wf_def by (simp add: flags_facts(1) [OF f] del: set_map)
  moreover have "usable_superadmin db' = usable_superadmin db"
    using flags_facts(2) [OF f] by (simp add: usable_superadmin_def signed_in(1))
  ultimately show ?thesis using assms(3) orgs_wf_part [of db' db] signed_in(1) by simp
qed

lemma system_run_invariant:
  assumes "(system_step env default_policies)\<^sup>*\<^sup>* db db'" and "users_wf db" and "orgs_wf db"
  shows "users_wf db' \<and> orgs_wf db' \<and> (usable_superadmin db \<longrightarrow> usable_superadmin db')"
  using assms by (induction rule: rtranclp_induct) (use system_step_invariant in blast)+

section \<open>What may change\<close>

lemma user_change_rows:
  assumes "user_change db r db'" and "users_wf db"
  shows "(\<forall>u \<in> set (account_users db). u \<notin> set (account_users db') \<longrightarrow> may_change db r (us_id u)) \<and>
    (\<forall>v \<in> set (account_users db'). us_id v \<notin> us_id ` set (account_users db) \<longrightarrow> is_super_admin db r \<and> \<not> us_superadmin v) \<and>
    (\<forall>u \<in> set (account_users db). \<forall>v \<in> set (account_users db'). us_id v = us_id u \<longrightarrow>
       us_superadmin v \<noteq> us_superadmin u \<longrightarrow> is_super_admin db r) \<and>
    (\<forall>m. (m \<in> set (ac_members db)) \<noteq> (m \<in> set (ac_members db')) \<longrightarrow>
       is_super_admin db r \<or> get_role_in_org db r (mb_org m) = role_admin)"
proof -
  have d: "distinct (map us_id (account_users db))" and b: "\<forall>u \<in> set (account_users db). us_id u < ac_next_user db"
    using assms(2) by (auto simp add: users_wf_def)
  from assms(1) show ?thesis
  proof cases
    case untouched
    then show ?thesis using same_key [OF d] by (auto simp add: user_part_def)
  next
    case (created v)
    then show ?thesis using b same_key [OF d] by (fastforce simp add: user_part_def may_change_def)
  next
    case (edited i u v)
    then show ?thesis using same_key [OF d] by (force simp add: row_rewritten_def)
  next
    case (purged i u)
    then show ?thesis using same_key [OF d] by (auto simp add: user_part_def may_change_def)
  next
    case (members org)
    have "m \<in> set (ac_members db) \<longleftrightarrow> m \<in> set (ac_members db')" if "mb_org m \<noteq> org" for m
      using arg_cong [OF members(4), of set] that by auto
    then have "mb_org m = org" if "(m \<in> set (ac_members db)) \<noteq> (m \<in> set (ac_members db'))" for m
      using that by blast
    then have "\<forall>m. (m \<in> set (ac_members db)) \<noteq> (m \<in> set (ac_members db')) \<longrightarrow>
        is_super_admin db r \<or> get_role_in_org db r (mb_org m) = role_admin"
      using members(3) by blast
    then show ?thesis using same_key [OF d] by (auto simp add: members(1))
  qed
qed

lemma kept_by_map: "(\<And>g. F g = x \<longleftrightarrow> g = x) \<Longrightarrow> x \<in> set (map F gs) \<longleftrightarrow> x \<in> set gs"
  unfolding set_map image_iff by metis

lemma org_change_rows:
  assumes "org_change db r db'" and "orgs_wf db"
  shows "(\<forall>g. (g \<in> set (ac_orgs db)) \<noteq> (g \<in> set (ac_orgs db')) \<longrightarrow>
       is_super_admin db r \<or> get_role_in_org db r (og_id g) = role_admin) \<and>
    (\<forall>s. (s \<in> set (ac_sections db)) \<noteq> (s \<in> set (ac_sections db')) \<longrightarrow>
       is_super_admin db r \<or> get_role_in_org db r (sc_org s) = role_admin)"
proof -
  have d: "distinct (map sc_id (ac_sections db))" using assms(2) by (simp add: orgs_wf_def)
  from assms(1) show ?thesis
  proof cases
    case (section_edited s t)
    then show ?thesis using same_key [OF d] by (force simp add: org_part_def)
  next
    case (promoted s)
    have "x \<in> set (ac_sections db) \<longleftrightarrow> x \<in> set (ac_sections db')" if "sc_org x \<noteq> sc_org s" for x
    proof -
      let ?c = "\<lambda>g :: section_row. if sc_org g = sc_org s \<and> sc_default g \<and> \<not> sc_deleted g then g\<lparr>sc_default := False\<rparr> else g"
      let ?m = "\<lambda>g :: section_row. if sc_id g = sc_id s \<and> sc_org g = sc_org s \<and> \<not> sc_deleted g then g\<lparr>sc_default := True\<rparr> else g"
      define F where "F = ?m \<circ> ?c"
      have e: "ac_sections db' = map F (ac_sections db)"
        using promoted(1) by (simp add: F_def org_part_def store_promote_to_default_def Let_def)
      have o1: "sc_org (F g) = sc_org g" and o2: "sc_org g \<noteq> sc_org s \<Longrightarrow> F g = g" for g by (simp_all add: F_def)
      then have "F g = x \<longleftrightarrow> g = x" for g using that by metis
      then show ?thesis unfolding e by (rule kept_by_map [symmetric])
    qed
    moreover have "ac_orgs db' = ac_orgs db"
      using promoted(1) by (simp add: org_part_def store_promote_to_default_def Let_def)
    ultimately show ?thesis using promoted(4) by metis
  next
    case (org_edited org f)
    have "x \<in> set (ac_orgs db) \<longleftrightarrow> x \<in> set (ac_orgs db')" if "og_id x \<noteq> org" for x
    proof -
      have e: "ac_orgs db' = map (\<lambda>g. if og_id g = org then f g else g) (ac_orgs db)"
        using org_edited(1) by (simp add: org_part_def)
      have "(if og_id g = org then f g else g) = x \<longleftrightarrow> g = x" for g
        using org_edited(2) [rule_format, of g] that by (cases "og_id g = org") auto
      then show ?thesis unfolding e by (rule kept_by_map [symmetric])
    qed
    moreover have "ac_sections db' = ac_sections db" using org_edited(1) by (simp add: org_part_def)
    ultimately show ?thesis using org_edited(3) by metis
  qed (auto simp add: org_part_def)
qed



lemma account_step_rows:
  assumes "account_step env default_policies r db db'" and "users_wf db" and "orgs_wf db"
  shows "(\<forall>u \<in> set (account_users db). u \<notin> set (account_users db') \<longrightarrow> may_change db r (us_id u)) \<and>
    (\<forall>v \<in> set (account_users db'). us_id v \<notin> us_id ` set (account_users db) \<longrightarrow> is_super_admin db r \<and> \<not> us_superadmin v) \<and>
    (\<forall>u \<in> set (account_users db). \<forall>v \<in> set (account_users db').
       us_id v = us_id u \<longrightarrow> us_superadmin v \<noteq> us_superadmin u \<longrightarrow> is_super_admin db r) \<and>
    (\<forall>m. (m \<in> set (ac_members db)) \<noteq> (m \<in> set (ac_members db')) \<longrightarrow>
       is_super_admin db r \<or> get_role_in_org db r (mb_org m) = role_admin) \<and>
    (\<forall>g. (g \<in> set (ac_orgs db)) \<noteq> (g \<in> set (ac_orgs db')) \<longrightarrow>
       is_super_admin db r \<or> get_role_in_org db r (og_id g) = role_admin) \<and>
    (\<forall>s. (s \<in> set (ac_sections db)) \<noteq> (s \<in> set (ac_sections db')) \<longrightarrow>
       is_super_admin db r \<or> get_role_in_org db r (sc_org s) = role_admin)"
proof -
  have d: "us_superadmin v = us_superadmin u"
    if "u \<in> set (account_users db)" "v \<in> set (account_users db)" "us_id v = us_id u" for u v
    using assms(2) same_key [OF _ that(2,1,3)] by (auto simp add: users_wf_def)
  from account_step_change [OF assms] show ?thesis
  proof (elim disjE conjE exE)
    assume "user_change db r db'" "org_part db' = org_part db"
    then have e: "ac_orgs db' = ac_orgs db" "ac_sections db' = ac_sections db" by (simp_all add: org_part_def)
    from user_change_rows [OF \<open>user_change db r db'\<close> assms(2)] show ?thesis
      unfolding e by (elim conjE, intro conjI) (assumption | blast)+
  next
    assume "org_change db r db'" "user_part db' = user_part db"
    then have e: "account_users db' = account_users db" "ac_members db' = ac_members db" by (simp_all add: user_part_def)
    from org_change_rows [OF \<open>org_change db r db'\<close> assms(3)] show ?thesis
      unfolding e by (elim conjE, intro conjI) (assumption | blast dest: d)+
  next
    fix org
    assume "org_change db r db'" and "is_super_admin db r"
      and "user_part db' = (account_users db, ac_next_user db, filter (\<lambda>m. mb_org m \<noteq> org) (ac_members db))"
    then show ?thesis by (auto simp add: user_part_def)
  qed
qed

end
