(* ===== verification/MfaCodes.thy ===== *)
theory MfaCodes
  imports MfaSessions
begin

text \<open>
  What an accepted code leaves behind: the steps of one-time codes only go up, a recovery code
  is used once, a refused code changes nothing.
\<close>

lemma length_filter_single: "distinct xs \<Longrightarrow> x \<in> set xs \<Longrightarrow> length (filter (\<lambda>y. y = x) xs) = 1"
proof (induction xs)
  case (Cons a xs)
  then show ?case by (cases "a = x") (auto simp add: filter_empty_conv)
qed simp

section \<open>One-time codes\<close>

lemma find_secret:
  assumes "store_ok db" and "r \<in> set (db_secrets db)"
  shows "find_totp_secret db (ts_factor r) = Inr r"
proof -
  have "find (\<lambda>s. ts_factor s = ts_factor r) (db_secrets db) = Some r"
  proof (cases "find (\<lambda>s. ts_factor s = ts_factor r) (db_secrets db)")
    case None
    then show ?thesis using assms(2) by (auto simp add: find_None_iff)
  next
    case (Some r')
    then have "r' \<in> set (db_secrets db)" "ts_factor r' = ts_factor r" by (auto simp add: find_Some_iff)
    with assms have "r' = r" by (auto simp add: store_ok_def distinct_map dest: inj_onD)
    with Some show ?thesis by simp
  qed
  then show ?thesis by (simp add: find_totp_secret_def)
qed

lemma find_secret_Inr:
  "find_totp_secret db i = Inr r \<Longrightarrow> r \<in> set (db_secrets db) \<and> ts_factor r = i"
  by (auto simp add: find_totp_secret_def find_Some_iff split: option.splits)

lemma accept_hit:
  assumes ok: "store_ok db" and a: "accept_totp_step db i s = (b, db')"
  shows "b \<Longrightarrow> \<exists>r \<in> set (db_secrets db). ts_factor r = i \<and>
      (\<forall>l. ts_last_step r = Some l \<longrightarrow> l < s) \<and>
      r\<lparr>ts_last_step := Some s\<rparr> \<in> set (db_secrets db')"
    and "\<not> b \<Longrightarrow> db' = db"
proof -
  let ?hit = "\<lambda>r. ts_factor r = i \<and> (case ts_last_step r of None \<Rightarrow> True | Some l \<Rightarrow> l < s)"
  have b: "b \<longleftrightarrow> length (filter ?hit (db_secrets db)) = 1"
    and db': "db' = db\<lparr>db_secrets := map (\<lambda>r. if ?hit r then r\<lparr>ts_last_step := Some s\<rparr> else r) (db_secrets db)\<rparr>"
    using a by (simp_all add: accept_totp_step_def Let_def)
  show "\<exists>r \<in> set (db_secrets db). ts_factor r = i \<and> (\<forall>l. ts_last_step r = Some l \<longrightarrow> l < s) \<and>
      r\<lparr>ts_last_step := Some s\<rparr> \<in> set (db_secrets db')" if "b"
  proof -
    from that b have "filter ?hit (db_secrets db) \<noteq> []" by auto
    then obtain r where r: "r \<in> set (db_secrets db)" "?hit r" by (auto simp add: filter_empty_conv)
    have "r\<lparr>ts_last_step := Some s\<rparr> \<in> set (db_secrets db')" unfolding db' using r by force
    with r show ?thesis by (intro bexI [of _ r]) (auto split: option.splits)
  qed
  show "db' = db" if "\<not> b"
  proof -
    have "\<not> ?hit r" if "r \<in> set (db_secrets db)" for r
    proof
      assume h: "?hit r"
      have "filter ?hit (db_secrets db) = filter (\<lambda>r'. r' = r) (db_secrets db)"
        using ok that h by (intro filter_cong) (auto simp add: store_ok_def distinct_map dest: inj_onD)
      moreover have "distinct (db_secrets db)" using ok by (simp add: store_ok_def distinct_map)
      ultimately have "length (filter ?hit (db_secrets db)) = 1" using length_filter_single that by metis
      with \<open>\<not> b\<close> b show False by simp
    qed
    then have "map (\<lambda>r. if ?hit r then r\<lparr>ts_last_step := Some s\<rparr> else r) (db_secrets db) = db_secrets db"
      by (intro map_idI) (simp only: if_False)
    then show ?thesis unfolding db' by simp
  qed
qed

text \<open>Two ways to accept a one-time code: at the login or step-up, and at the activation.\<close>

definition totp_accepted :: "mfa_env \<Rightarrow> auth_db \<Rightarrow> int \<Rightarrow> nat \<Rightarrow> string \<Rightarrow> auth_db \<Rightarrow> bool" where
  "totp_accepted env db now i code db' \<longleftrightarrow>
     try_totp_code env db now i code = (True, db') \<or>
     verify_totp_for_activation env db now i code = (Inr (), db')"

lemma secrets_touch [simp]: "db_secrets (touch_last_used db i now) = db_secrets db"
  by (simp add: touch_last_used_def)

lemma totp_acceptedE:
  assumes "store_ok db" and "totp_accepted env db now i code db'"
  obtains r secret s where "r \<in> set (db_secrets db)" "ts_factor r = i"
    "decrypt_totp_secret env db i = Inr secret" "matching_step env secret now code = Some s"
    "\<And>l. ts_last_step r = Some l \<Longrightarrow> l < s" "r\<lparr>ts_last_step := Some s\<rparr> \<in> set (db_secrets db')" "good db db'"
proof -
  have g: "good db db'"
    using assms(2) good_try_totp [of db env now i code] good_verify_totp [of db env now i code]
    by (auto simp add: totp_accepted_def)
  from assms(2) obtain secret where d: "decrypt_totp_secret env db i = Inr secret"
    by (auto simp add: totp_accepted_def try_totp_code_def verify_totp_for_activation_def
        split: if_splits sum.splits)
  with assms(2) obtain s where m: "matching_step env secret now code = Some s"
    by (auto simp add: totp_accepted_def try_totp_code_def verify_totp_for_activation_def
        split: if_splits option.splits)
  obtain b db1 where a: "accept_totp_step db i s = (b, db1)" by (cases "accept_totp_step db i s")
  have "b" "db_secrets db' = db_secrets db1"
    using assms(2) d m a by (auto simp add: totp_accepted_def try_totp_code_def verify_totp_for_activation_def
        split: if_splits)
  with accept_hit(1) [OF assms(1) a] that [OF _ _ d m _ _ g] show ?thesis by metis
qed

text \<open>Requests in a sequence.\<close>

definition run_all :: "mfa_env \<Rightarrow> (int \<times> auth_op) list \<Rightarrow> auth_db \<Rightarrow> auth_db" where
  "run_all env ops db = fold (\<lambda>(now, op) d. run_auth env now op d) ops db"

lemma good_run_all: "good db (run_all env ops db)"
proof (induction ops arbitrary: db)
  case (Cons x ops)
  have "good db (run_auth env (fst x) (snd x) db)" by (rule good_run_auth)
  also have "good (run_auth env (fst x) (snd x) db) (run_all env ops (run_auth env (fst x) (snd x) db))" by (rule Cons.IH)
  finally show ?case by (simp add: run_all_def split_beta)
qed (simp add: run_all_def)

lemma secret_later:
  assumes "store_ok a" and "good a b" and "r \<in> set (db_secrets a)" and "r' \<in> set (db_secrets b)"
    and "ts_factor r' = ts_factor r"
  shows "ts_ciphertext r' = ts_ciphertext r" "ts_nonce r' = ts_nonce r" "step_le (ts_last_step r) (ts_last_step r')"
proof -
  have p: "progress a b" using assms(1,2) by (simp add: good_def)
  have "ts_factor r < db_next_factor a" using assms(1,3) by (simp add: store_ok_def)
  with p assms(4,5) obtain q where q: "q \<in> set (db_secrets a)" "ts_factor q = ts_factor r'"
    "ts_ciphertext q = ts_ciphertext r'" "ts_nonce q = ts_nonce r'" "step_le (ts_last_step q) (ts_last_step r')"
    unfolding progress_def by (metis linorder_not_le)
  moreover have "q = r" using assms(1,3,5) q(1,2) by (auto simp add: store_ok_def distinct_map dest: inj_onD)
  ultimately show "ts_ciphertext r' = ts_ciphertext r" "ts_nonce r' = ts_nonce r"
    "step_le (ts_last_step r) (ts_last_step r')" by simp_all
qed

lemma totp_steps_increase:
  assumes ok: "store_ok db" and a: "totp_accepted env db now i code db1"
    and r: "good db1 db2" and a2: "totp_accepted env db2 now' i code' db3"
  shows "\<exists>secret s s'. decrypt_totp_secret env db i = Inr secret \<and> decrypt_totp_secret env db2 i = Inr secret \<and>
      matching_step env secret now code = Some s \<and> matching_step env secret now' code' = Some s' \<and> s < s'"
proof -
  from totp_acceptedE [OF ok a] obtain r secret s where f: "r \<in> set (db_secrets db)" "ts_factor r = i"
    "decrypt_totp_secret env db i = Inr secret" "matching_step env secret now code = Some s"
    "r\<lparr>ts_last_step := Some s\<rparr> \<in> set (db_secrets db1)" "good db db1" by metis
  have ok1: "store_ok db1" and ok2: "store_ok db2" using good_store f(6) r ok by blast+
  from totp_acceptedE [OF ok2 a2] obtain r2 secret2 s2 where g: "r2 \<in> set (db_secrets db2)" "ts_factor r2 = i"
    "decrypt_totp_secret env db2 i = Inr secret2" "matching_step env secret2 now' code' = Some s2"
    "\<And>l. ts_last_step r2 = Some l \<Longrightarrow> l < s2" by metis
  note l = secret_later [OF ok1 r f(5) g(1)]
  have "step_le (Some s) (ts_last_step r2)" "ts_ciphertext r2 = ts_ciphertext r" "ts_nonce r2 = ts_nonce r"
    using l f(2) g(2) by simp_all
  then have "s < s2" using g(5) by (cases "ts_last_step r2") (auto simp add: step_le_def)
  moreover have "secret2 = secret"
    using find_secret [OF ok f(1)] find_secret [OF ok2 g(1)] f(2,3) g(2,3) l f(2)
    by (simp add: decrypt_totp_secret_def split: option.splits)
  ultimately show ?thesis using f g by blast
qed

section \<open>Recovery codes\<close>

lemma mark_hit:
  assumes ok: "store_ok db" and r: "r \<in> set (db_codes db)" "bc_used_at r = None"
    and m: "mark_backup_code_used db (bc_id r) now = (b, db')"
  shows "b" "r\<lparr>bc_used_at := Some now\<rparr> \<in> set (db_codes db')"
    "db_codes db' = map (\<lambda>c. if c = r then c\<lparr>bc_used_at := Some now\<rparr> else c) (db_codes db)"
proof -
  let ?hit = "\<lambda>c. bc_id c = bc_id r \<and> bc_used_at c = None"
  have h: "?hit c \<longleftrightarrow> c = r" if "c \<in> set (db_codes db)" for c
    using ok r that by (auto simp add: store_ok_def distinct_map dest: inj_onD)
  have "filter ?hit (db_codes db) = filter (\<lambda>c. c = r) (db_codes db)" by (rule filter_cong) (use h in auto)
  moreover have "distinct (db_codes db)" using ok by (simp add: store_ok_def distinct_map)
  then have "length (filter (\<lambda>c. c = r) (db_codes db)) = 1"
    using r(1) by (rule length_filter_single)
  ultimately show "b" using m by (simp add: mark_backup_code_used_def Let_def)
  show e: "db_codes db' = map (\<lambda>c. if c = r then c\<lparr>bc_used_at := Some now\<rparr> else c) (db_codes db)"
    using m h by (auto simp add: mark_backup_code_used_def Let_def)
  show "r\<lparr>bc_used_at := Some now\<rparr> \<in> set (db_codes db')" unfolding e using r(1) by force
qed

lemma try_backup_cases:
  assumes ok: "store_ok db" and t: "try_backup_code env db now i code = (b, db')"
  shows "b \<Longrightarrow> \<exists>r \<in> set (list_unused_backup_codes db i).
      me_code_ok env (bc_hash r) (normalize_backup_code (me_ulower env) code) \<and>
      db_codes db' = map (\<lambda>c. if c = r then c\<lparr>bc_used_at := Some now\<rparr> else c) (db_codes db)"
    and "\<not> b \<Longrightarrow> db' = db"
    and "b \<longleftrightarrow> (\<exists>r \<in> set (list_unused_backup_codes db i).
      me_code_ok env (bc_hash r) (normalize_backup_code (me_ulower env) code))"
proof -
  let ?p = "\<lambda>r. me_code_ok env (bc_hash r) (normalize_backup_code (me_ulower env) code)"
  have "(b \<longrightarrow> (\<exists>r \<in> set (list_unused_backup_codes db i). ?p r \<and>
      db_codes db' = map (\<lambda>c. if c = r then c\<lparr>bc_used_at := Some now\<rparr> else c) (db_codes db))) \<and>
    (\<not> b \<longrightarrow> db' = db) \<and> (b \<longleftrightarrow> (\<exists>r \<in> set (list_unused_backup_codes db i). ?p r))"
  proof (cases "find ?p (list_unused_backup_codes db i)")
    case None
    then have "b = False" "db' = db" using t by (simp_all add: try_backup_code_def Let_def)
    moreover have "\<not> ?p r" if "r \<in> set (list_unused_backup_codes db i)" for r
      using None that by (auto simp add: find_None_iff)
    ultimately show ?thesis by blast
  next
    case (Some r)
    then have r: "r \<in> set (list_unused_backup_codes db i)" "?p r" by (auto simp add: find_Some_iff)
    then have u: "r \<in> set (db_codes db)" "bc_used_at r = None" by (simp_all add: list_unused_backup_codes_def)
    obtain m db1 where m: "mark_backup_code_used db (bc_id r) now = (m, db1)"
      by (cases "mark_backup_code_used db (bc_id r) now")
    note h = mark_hit [OF ok u m]
    have "b" "db' = touch_last_used db1 i now" using t Some m h(1) by (simp_all add: try_backup_code_def Let_def)
    moreover have "db_codes (touch_last_used db1 i now) = db_codes db1" by (simp add: touch_last_used_def)
    ultimately show ?thesis using r h(3) by auto
  qed
  then show "b \<Longrightarrow> \<exists>r \<in> set (list_unused_backup_codes db i). ?p r \<and>
      db_codes db' = map (\<lambda>c. if c = r then c\<lparr>bc_used_at := Some now\<rparr> else c) (db_codes db)"
    "\<not> b \<Longrightarrow> db' = db" "b \<longleftrightarrow> (\<exists>r \<in> set (list_unused_backup_codes db i). ?p r)" by blast+
qed

lemma length_filter_update:
  assumes "distinct xs" "r \<in> set xs" "p r" "\<not> p (h r)"
  shows "Suc (length (filter p (map (\<lambda>c. if c = r then h c else c) xs))) = length (filter p xs)"
  using assms
proof (induction xs)
  case (Cons a xs)
  show ?case
  proof (cases "a = r")
    case True
    have "map (\<lambda>c. if c = r then h c else c) xs = xs" by (rule map_idI) (use Cons.prems True in auto)
    then show ?thesis using True Cons.prems by simp
  next
    case False
    with Cons show ?thesis by auto
  qed
qed simp

lemma code_stays_used:
  assumes "store_ok a" and "good a b" and "r \<in> set (db_codes a)" and "bc_used_at r \<noteq> None"
    and "c \<in> set (db_codes b)" and "bc_id c = bc_id r"
  shows "bc_used_at c = bc_used_at r"
proof -
  have p: "progress a b" using assms(1,2) by (simp add: good_def)
  have "bc_id r < db_next_code a" using assms(1,3) by (simp add: store_ok_def)
  with p assms(5,6) obtain q where q: "q \<in> set (db_codes a)" "bc_id q = bc_id c"
    "bc_used_at q \<noteq> None \<longrightarrow> bc_used_at c = bc_used_at q"
    unfolding progress_def by (metis linorder_not_le)
  moreover have "q = r" using assms(1,3,6) q(1,2) by (auto simp add: store_ok_def distinct_map dest: inj_onD)
  ultimately show ?thesis using assms(4) by simp
qed

lemma backup_code_once:
  assumes ok: "store_ok db" and t: "try_backup_code env db now i code = (True, db')"
  shows "\<exists>r \<in> set (list_unused_backup_codes db i).
    me_code_ok env (bc_hash r) (normalize_backup_code (me_ulower env) code) \<and>
    count_unused_backup_codes db' i = count_unused_backup_codes db i - 1 \<and>
    (\<forall>ops. bc_id r \<notin> bc_id ` set (list_unused_backup_codes (run_all env ops db') i))"
proof -
  from try_backup_cases(1) [OF ok t] obtain r where r: "r \<in> set (list_unused_backup_codes db i)"
    "me_code_ok env (bc_hash r) (normalize_backup_code (me_ulower env) code)"
    "db_codes db' = map (\<lambda>c. if c = r then c\<lparr>bc_used_at := Some now\<rparr> else c) (db_codes db)" by blast
  have u: "r \<in> set (db_codes db)" "bc_factor r = i" "bc_used_at r = None"
    using r(1) by (simp_all add: list_unused_backup_codes_def)
  have "distinct (db_codes db)" using ok by (simp add: store_ok_def distinct_map)
  from length_filter_update [OF this u(1), of "\<lambda>c. bc_factor c = i \<and> bc_used_at c = None"
      "\<lambda>c. c\<lparr>bc_used_at := Some now\<rparr>"] u
  have n: "count_unused_backup_codes db' i = count_unused_backup_codes db i - 1"
    by (simp add: count_unused_backup_codes_def list_unused_backup_codes_def r(3) flip: of_nat_Suc)
  have m: "r\<lparr>bc_used_at := Some now\<rparr> \<in> set (db_codes db')" unfolding r(3) using u(1) by force
  have ok': "store_ok db'" using good_store [OF good_try_backup ok, of env now i code] t by simp
  have "bc_id r \<notin> bc_id ` set (list_unused_backup_codes (run_all env ops db') i)" for ops
  proof
    assume "bc_id r \<in> bc_id ` set (list_unused_backup_codes (run_all env ops db') i)"
    then obtain c where "c \<in> set (db_codes (run_all env ops db'))" "bc_id c = bc_id r" "bc_used_at c = None"
      by (auto simp add: list_unused_backup_codes_def)
    with code_stays_used [OF ok' good_run_all m] show False by simp
  qed
  with r n show ?thesis by blast
qed

text \<open>The codes an operation hands out are accepted.\<close>

lemma drawn_codes_accepted:
  assumes ok: "store_ok (insert_backup_codes db (code_rows j now hashed))"
    and d: "draw_backup_codes env draw = (raw, hashed)" and c: "code \<in> set raw"
    and law: "\<And>salt x. me_code_ok env (me_code_hash env salt x) x"
  shows "fst (try_backup_code env (insert_backup_codes db (code_rows j now hashed)) now' j code)"
proof -
  let ?db = "insert_backup_codes db (code_rows j now hashed)"
  obtain k where k: "k < backup_code_count" "code = raw ! k" "length raw = backup_code_count"
    using c d by (auto simp add: draw_backup_codes_def generate_backup_codes_def in_set_conv_nth)
  have h: "hashed ! k = me_code_hash env (snd (draw k)) (normalize_backup_code (me_ulower env) code)"
    "length hashed = backup_code_count"
    using k d by (auto simp add: draw_backup_codes_def generate_backup_codes_def split_beta)
  let ?r = "\<lparr>bc_id = db_next_code db + k, bc_factor = j, bc_hash = hashed ! k, bc_used_at = None, bc_created_at = now\<rparr>"
  have "?r \<in> set (map (\<lambda>(k, c). c\<lparr>bc_id := k\<rparr>)
      (zip [db_next_code db ..< db_next_code db + length (code_rows j now hashed)] (code_rows j now hashed)))"
    unfolding set_map
  proof (rule image_eqI)
    show "(db_next_code db + k, code_rows j now hashed ! k)
        \<in> set (zip [db_next_code db ..< db_next_code db + length (code_rows j now hashed)] (code_rows j now hashed))"
      using k(1) h(2) by (auto simp add: in_set_zip code_rows_def intro!: exI [of _ k])
  qed (use k(1) h(2) in \<open>simp add: code_rows_def\<close>)
  then have "?r \<in> set (db_codes ?db)" by (simp add: insert_backup_codes_def)
  then have "?r \<in> set (list_unused_backup_codes ?db j)" by (simp add: list_unused_backup_codes_def)
  moreover have "me_code_ok env (bc_hash ?r) (normalize_backup_code (me_ulower env) code)"
    using law h(1) by simp
  ultimately show ?thesis
    using try_backup_cases(3) [OF ok surjective_pairing] by blast
qed

section \<open>Step-up\<close>

lemma try_totp_refused:
  assumes "store_ok db" and "try_totp_code env db now i code = (False, db')"
  shows "db' = db"
proof (cases "decrypt_totp_secret env db i")
  case (Inr secret)
  show ?thesis
  proof (cases "matching_step env secret now code")
    case (Some s)
    obtain b db1 where a: "accept_totp_step db i s = (b, db1)" by (cases "accept_totp_step db i s")
    show ?thesis using assms(2) accept_hit(2) [OF assms(1) a] a Inr Some
      by (auto simp add: try_totp_code_def split: if_splits)
  qed (use assms(2) Inr in \<open>simp add: try_totp_code_def split: if_splits\<close>)
qed (use assms(2) in \<open>simp add: try_totp_code_def split: if_splits\<close>)

lemma try_factor_refused:
  "store_ok db \<Longrightarrow> try_factor env db now code f = (False, db') \<Longrightarrow> db' = db"
  using try_totp_refused try_backup_cases(2) [where b = False] by (auto simp add: try_factor_def split: if_splits)

lemma try_factors_result:
  assumes "store_ok db"
  shows "fst (try_factors env db now code fs) \<longleftrightarrow> (\<exists>f \<in> set fs. fst (try_factor env db now code f))"
    and "\<not> fst (try_factors env db now code fs) \<Longrightarrow> snd (try_factors env db now code fs) = db"
proof (induction fs)
  case (Cons f fs)
  obtain b db1 where t: "try_factor env db now code f = (b, db1)" by (cases "try_factor env db now code f")
  have e: "db1 = db" if "\<not> b" using try_factor_refused [OF assms] t that by simp
  {
    case 1
    show ?case using t e Cons by (auto simp add: try_factors_Cons)
  next
    case 2
    then show ?case using t e Cons by (auto simp add: try_factors_Cons split: if_splits)
  }
qed simp_all

text \<open>A code that one of the user's active factors accepts.\<close>

definition code_accepted :: "mfa_env \<Rightarrow> auth_db \<Rightarrow> int \<Rightarrow> nat \<Rightarrow> string \<Rightarrow> bool" where
  "code_accepted env db now user code \<longleftrightarrow>
     (\<exists>f \<in> set (db_factors db). fa_user f = user \<and> fa_enabled_at f \<noteq> None \<and>
        (fa_type f = totp \<and> fst (try_totp_code env db now (fa_id f) code) \<or>
         fa_type f = backup_codes \<and> fst (try_backup_code env db now (fa_id f) code)))"

lemma step_up_result:
  assumes "store_ok db" and "has_active_primary_factor db u" and "code \<noteq> []"
  shows "fst (verify_step_up_mfa env db now u code) = Inr () \<longleftrightarrow> code_accepted env db now u code"
proof -
  have "fst (try_factors env db now code (find_active_by_user db u)) \<longleftrightarrow> code_accepted env db now u code"
    unfolding try_factors_result(1) [OF assms(1)]
    by (auto simp add: code_accepted_def try_factor_def split: if_splits)
  then show ?thesis using assms(2,3)
    by (simp add: verify_step_up_mfa_def verify_any_factor_code_def split_beta ensureE_def)
qed

lemma step_up_Inr:
  assumes "store_ok db" and "has_active_primary_factor db u" and "verify_step_up_mfa env db now u code = (Inr x, db')"
  shows "code_accepted env db now u code"
proof -
  have "code \<noteq> []" using assms(2,3) by (auto simp add: verify_step_up_mfa_def)
  from step_up_result [OF assms(1,2) this, of env now] assms(3) show ?thesis by simp
qed

lemma verify_password_Inr:
  "verify_password env db u p = Inr x \<Longrightarrow> \<exists>r. find_user_by_id db u = Inr r \<and> me_password_ok env (us_password r) p"
  by (auto simp add: verify_password_def ensureE_def split: if_splits sum.splits)

end
