(* ===== verification/MfaSteps.thy ===== *)
theory MfaSteps
  imports MfaCodes
begin

text \<open>
  What the properties of authentication rest on, operation by operation: which checks a
  successful change of factors has passed, what an activation hands out, and the branches of
  the second step of the login.
\<close>

section \<open>Factors and wrong codes\<close>

lemma has_active_primary_iff:
  "has_active_primary_factor db u \<longleftrightarrow> filter (\<lambda>g. fa_type g \<noteq> backup_codes) (find_active_by_user db u) \<noteq> []"
  by (auto simp add: has_active_primary_factor_def list_ex_iff filter_empty_conv)

lemma enroll_Inr:
  assumes "fst (enroll_totp env db now u l p c secret nonce) = Inr x \<or>
      fst (enroll_webauthn env db now u l p c account display) = Inr y \<or>
      fst (regenerate_backup_codes env db now u i p c draw) = Inr z"
  shows "verify_password env db u p = Inr () \<and> (\<exists>db1. verify_step_up_mfa env db now u c = (Inr (), db1))"
  using assms
  by (cases "verify_password env db u p"; cases "verify_step_up_mfa env db now u c";
      cases "fst (verify_step_up_mfa env db now u c)")
    (auto simp add: enroll_totp_def enroll_webauthn_def regenerate_backup_codes_def split: if_splits)

lemma delete_Inr:
  assumes "fst (delete_factor_op env db now u i p c) = Inr ()" and "has_active_primary_factor db u"
  shows "verify_password env db u p = Inr () \<and> (\<exists>db1. verify_step_up_mfa env db now u c = (Inr (), db1))"
proof -
  note has = assms(2) [unfolded has_active_primary_iff]
  obtain x db1 where s: "verify_step_up_mfa env db now u c = (x, db1)" by (cases "verify_step_up_mfa env db now u c")
  show ?thesis using assms(1) has s
    by (cases "verify_password env db u p"; cases x)
      (auto simp add: delete_factor_op_def Let_def split: sum.splits)
qed

lemma sentinel_unique: "is_sentinel e s \<Longrightarrow> is_sentinel e t \<Longrightarrow> s = t"
  by (induction e s rule: is_sentinel.induct) auto

lemma sentinel_simps [simp]:
  "is_sentinel (not_found m) s \<longleftrightarrow> s = ErrNotFound" "is_sentinel (bad_request m) s \<longleftrightarrow> s = ErrBadRequest"
  "is_sentinel (unauthorized m) s \<longleftrightarrow> s = ErrUnauthorized"
  "is_sentinel (too_many_requests m) s \<longleftrightarrow> s = ErrTooManyRequests"
  "is_sentinel (conflict m) s \<longleftrightarrow> s = ErrConflict"
  "is_sentinel (internal_error m) s \<longleftrightarrow> s = ErrInternalServer"
  "is_sentinel (internal_wrap e m) s \<longleftrightarrow> is_sentinel e s"
  by (auto simp add: app_error_defs)

lemma dispatch_not_429: "dispatch_mfa_verify env db now p i c r = (Inl e, db') \<Longrightarrow> \<not> is_sentinel e ErrTooManyRequests"
  by (auto simp add: dispatch_mfa_verify_def lookup_active_factor_def find_by_id_and_user_def
      verify_webauthn_assertion_def verify_code_for_login_def classify_store_error_def find_user_by_id_def
      find_webauthn_credential_def ensureE_def split_beta split: option.splits sum.splits if_splits)

lemma lookup_pending_Inr:
  assumes "lookup_pending_mfa db now h = Inr p"
  shows "\<exists>s \<in> set (db_sessions db). ss_id s = h \<and> ss_kind s = pending_mfa \<and> now < ss_expires_at s \<and>
      ss_user s = lr_user p \<and> ss_failures s = lr_failures p"
  using assms
  by (auto simp add: lookup_pending_mfa_def lookup_kind_def find_Some_iff split: option.splits intro!: bexI [OF _ nth_mem])

text \<open>The counter after a wrong code.\<close>

lemma count_challenge_result:
  assumes ok: "sessions_ok db" and p: "lookup_pending_mfa db now h = Inr p" and s: "db_sessions db1 = db_sessions db"
    and c: "count_challenge_failure db1 now h p unk = (e, db')"
  shows "\<forall>r \<in> set (db_sessions db'). ss_id r = h \<longrightarrow> ss_kind r = pending_mfa \<longrightarrow>
      ss_failures r = lr_failures p + 1 \<and> ss_failures r < mfa_challenge_failure_limit"
    and "db_audit db' = db_audit db1 @ [\<lparr>au_action = (if unk \<or> lr_failures p + 1 < mfa_challenge_failure_limit
        then ''mfa_challenge_failed'' else ''mfa_challenge_locked''),
        au_user = Some (lr_user p), au_email = lr_email p, au_time = now\<rparr>] @
      (if unk \<and> mfa_challenge_failure_limit \<le> lr_failures p + 1
       then [\<lparr>au_action = ''mfa_challenge_locked'', au_user = Some (lr_user p), au_email = lr_email p, au_time = now\<rparr>] else [])"
proof -
  let ?f = "\<lambda>d. log_event d ''mfa_challenge_failed'' (Some (lr_user p)) (lr_email p) now"
  let ?db0 = "if unk then ?f db1 else db1"
  let ?hit = "\<lambda>s. ss_id s = h \<and> ss_kind s = pending_mfa \<and> now < ss_expires_at s"
  have d: "distinct (map ss_id (db_sessions db))" and n: "\<forall>s \<in> set (db_sessions db). 0 \<le> ss_failures s"
    using ok by (auto simp add: sessions_ok_def)
  obtain s0 where s0: "s0 \<in> set (db_sessions db)" "?hit s0" "ss_failures s0 = lr_failures p"
    using lookup_pending_Inr [OF p] by blast
  have ss: "db_sessions ?db0 = db_sessions db" using s by simp
  have only: "r = s0" if "r \<in> set (db_sessions db)" "ss_id r = h" for r
    using same_session [OF d that(1) s0(1)] that(2) s0(2) by simp
  have fnd: "find ?hit (db_sessions db) = Some s0"
  proof (cases "find ?hit (db_sessions db)")
    case None
    then show ?thesis using s0 by (auto simp add: find_None_iff)
  next
    case (Some x)
    then have "x \<in> set (db_sessions db)" "ss_id x = h" by (auto simp add: find_Some_iff)
    then show ?thesis using only Some by simp
  qed
  let ?g = "\<lambda>s. if ?hit s then s\<lparr>ss_failures := ss_failures s + 1\<rparr> else s"
  have b: "bump_mfa_challenge_failures ?db0 now h =
      Inr (lr_failures p + 1, ?db0\<lparr>db_sessions := map ?g (db_sessions db)\<rparr>)"
  proof -
    have "lr_failures p + 1 \<noteq> 0" using n s0(1,3) by fastforce
    then show ?thesis
      unfolding bump_mfa_challenge_failures_def Let_def ss fnd option.case s0(3) by (simp only: if_False)
  qed
  show "\<forall>r \<in> set (db_sessions db'). ss_id r = h \<longrightarrow> ss_kind r = pending_mfa \<longrightarrow>
      ss_failures r = lr_failures p + 1 \<and> ss_failures r < mfa_challenge_failure_limit"
  proof (cases "mfa_challenge_failure_limit \<le> lr_failures p + 1")
    case True
    then have "db' = log_event (delete_pending_mfa (?db0\<lparr>db_sessions := map ?g (db_sessions db)\<rparr>) h)
        ''mfa_challenge_locked'' (Some (lr_user p)) (lr_email p) now"
      using c unfolding count_challenge_failure_def Let_def b by simp
    then show ?thesis by auto
  next
    case False
    then have "db_sessions db' = map ?g (db_sessions db)"
      using c unfolding count_challenge_failure_def Let_def b by (auto split: if_splits)
    then have e: "set (db_sessions db') = ?g ` set (db_sessions db)" by simp
    show ?thesis
    proof (intro ballI impI)
      fix r assume "r \<in> set (db_sessions db')" and h: "ss_id r = h"
      then obtain r0 where r0: "r0 \<in> set (db_sessions db)" "r = ?g r0" unfolding e by blast
      then have "ss_id r0 = h" using h by (simp split: if_splits)
      from only [OF r0(1) this] r0(2) s0(2,3) False
      show "ss_failures r = lr_failures p + 1 \<and> ss_failures r < mfa_challenge_failure_limit" by simp
    qed
  qed
  show "db_audit db' = db_audit db1 @ [\<lparr>au_action = (if unk \<or> lr_failures p + 1 < mfa_challenge_failure_limit
        then ''mfa_challenge_failed'' else ''mfa_challenge_locked''),
        au_user = Some (lr_user p), au_email = lr_email p, au_time = now\<rparr>] @
      (if unk \<and> mfa_challenge_failure_limit \<le> lr_failures p + 1
       then [\<lparr>au_action = ''mfa_challenge_locked'', au_user = Some (lr_user p), au_email = lr_email p, au_time = now\<rparr>] else [])"
    using c unfolding count_challenge_failure_def Let_def b
    by (auto simp add: log_event_def delete_pending_mfa_def remove_sessions_def split: if_splits)
qed

lemma find_by_id_unique:
  assumes "store_ok db" and "f \<in> set (db_factors db)"
  shows "find_by_id_and_user db (fa_id f) (fa_user f) = Inr f"
proof (cases "find (\<lambda>g. fa_id g = fa_id f \<and> fa_user g = fa_user f) (db_factors db)")
  case None
  then show ?thesis using assms(2) by (auto simp add: find_None_iff)
next
  case (Some g)
  then have "g \<in> set (db_factors db)" "fa_id g = fa_id f" by (auto simp add: find_Some_iff)
  with store_same_id [OF assms(1) _ assms(2)] Some show ?thesis by (simp add: find_by_id_and_user_def)
qed

text \<open>What an activation that hands out codes did.\<close>

lemma ensure_handout:
  assumes "ensure_backup_codes_factor env db now u draw = (Some (j, raw), db')"
  shows "\<exists>f db3 hashed. draw_backup_codes env draw = (raw, hashed) \<and>
    db' = insert_backup_codes db3 (code_rows j now hashed) \<and> f \<in> set (db_factors db') \<and> fa_id f = j \<and>
    fa_user f = u \<and> fa_type f = backup_codes \<and> fa_enabled_at f \<noteq> None"
proof -
  obtain raw' hashed where d: "draw_backup_codes env draw = (raw', hashed)" by (cases "draw_backup_codes env draw")
  with assms obtain f db1 where c: "create_factor db (new_factor u backup_codes None (Some now) now) = Inr (f, db1)"
    by (auto simp add: ensure_backup_codes_factor_def split: sum.splits if_splits)
  have "raw' = raw" "fa_id f = j" "db' = insert_backup_codes db1 (code_rows j now hashed)"
    using assms c d by (auto simp add: ensure_backup_codes_factor_def split: sum.splits if_splits)
  moreover have "f \<in> set (db_factors (insert_backup_codes db1 cs))" for cs
    using create_factor_Inr(2) [OF c] by (simp add: insert_backup_codes_def)
  ultimately show ?thesis using d create_factor_Inr(1) [OF c] by (intro exI [of _ f] exI [of _ db1] exI [of _ hashed]) simp
qed

lemma activation_handout:
  assumes "activate_factor_op env db now u i code response draw = (Inr (Some (j, raw)), db')"
  shows "\<exists>f db3 hashed. draw_backup_codes env draw = (raw, hashed) \<and>
    db' = insert_backup_codes db3 (code_rows j now hashed) \<and> f \<in> set (db_factors db') \<and> fa_id f = j \<and>
    fa_user f = u \<and> fa_type f = backup_codes \<and> fa_enabled_at f \<noteq> None"
proof (cases "find_by_id_and_user db i u")
  case (Inr f)
  obtain x db1 where m: "check_activation env db now u f code response = (x, db1)"
    by (cases "check_activation env db now u f code response")
  have "\<exists>db2. ensure_backup_codes_factor env db2 now u draw = (Some (j, raw), db')"
    using assms unfolding activate_factor_op_def Inr sum.case m
    by (cases x) (auto simp add: split_beta prod_eq_iff split: if_splits)
  then show ?thesis using ensure_handout by blast
qed (use assms in \<open>simp add: activate_factor_op_def\<close>)

text \<open>The second step of the login, branch by branch.\<close>

lemma dispatch_frame:
  assumes "dispatch_mfa_verify env db now p i c r = (x, db1)"
  shows "db_sessions db1 = db_sessions db" "db_audit db1 = db_audit db"
  using calm_session_part [OF calm_dispatch [of db env now p i c r]] assms
  by (simp_all add: session_part_def del: session_part_calm)

lemma verify_mfa_consumes:
  assumes d: "distinct (map ss_id (db_sessions db))"
    and s: "s \<in> set (db_sessions (snd (verify_mfa_login env db now t i c r raw ip ag)))" "ss_kind s = regular"
      "s \<notin> set (db_sessions db)"
    and s': "s' \<in> set (db_sessions (snd (verify_mfa_login env db now t i c r raw ip ag)))"
  shows "\<not> (ss_id s' = me_token_hash env t \<and> ss_kind s' = pending_mfa)"
proof (cases "lookup_pending_mfa db now (me_token_hash env t)")
  case (Inl e)
  then show ?thesis using s by (simp add: verify_mfa_login_def Let_def split: if_splits)
next
  case (Inr p)
  obtain x db1 where m: "dispatch_mfa_verify env db now p i c r = (x, db1)"
    by (cases "dispatch_mfa_verify env db now p i c r")
  note fr = dispatch_frame(1) [OF m]
  show ?thesis
  proof (cases x)
    case (Inl e)
    have cc: "s \<notin> set (db_sessions (snd (count_challenge_failure db1 now h p unk)))" for h unk
      using sess_count_challenge [of "\<lambda>_. False" db1 now h p unk] d s(2,3) unfolding sess_step_def fr by metis
    show ?thesis using s(1,3) cc Inr m Inl fr by (auto simp add: verify_mfa_login_def Let_def split: if_splits)
  next
    case (Inr u)
    have l: "\<not> (ss_id s' = h \<and> ss_kind s' = pending_mfa)"
      if "s' \<in> set (db_sessions (snd (issue_session env
        (log_event (update_last_login (delete_pending_mfa db1 h) (lr_user p) now) a v e now) now (lr_user p) raw ip ag)))"
      for h a v e
      by (rule issue_session_cases [of env "log_event (update_last_login (delete_pending_mfa db1 h) (lr_user p) now) a v e now"
          now "lr_user p" raw ip ag]) (use that in auto)
    show ?thesis using s s' l \<open>lookup_pending_mfa db now (me_token_hash env t) = Inr p\<close> m Inr
      by (auto simp add: verify_mfa_login_def Let_def split: if_splits)
  qed
qed

lemma verify_mfa_refused:
  assumes ok: "sessions_ok db" and p: "lookup_pending_mfa db now (me_token_hash env t) = Inr p"
    and v: "verify_mfa_login env db now t i c r raw ip ag = (Inl e, db')"
    and e: "is_sentinel e ErrUnauthorized \<or> is_sentinel e ErrTooManyRequests" and t: "t \<noteq> []"
  shows "\<forall>s \<in> set (db_sessions db'). ss_id s = me_token_hash env t \<longrightarrow> ss_kind s = pending_mfa \<longrightarrow>
    ss_failures s = lr_failures p + 1 \<and> ss_failures s < mfa_challenge_failure_limit"
proof -
  obtain x db1 where m: "dispatch_mfa_verify env db now p i c r = (x, db1)"
    by (cases "dispatch_mfa_verify env db now p i c r")
  note fr = dispatch_frame(1) [OF m]
  show ?thesis
  proof (cases "lr_active p \<and> \<not> mfa_per_user_lockout_threshold
      \<le> count_failed_mfa_challenges_since db (lr_user p) (now - mfa_per_user_lockout_window)")
    case False
    then show ?thesis using v p t by (auto simp add: verify_mfa_login_def Let_def split: if_splits)
  next
    case True
    show ?thesis
    proof (cases x)
      case (Inl err)
      show ?thesis
      proof (cases "is_sentinel err ErrNotFound \<or> is_sentinel err ErrUnauthorized")
        case True
        let ?unk = "is_sentinel err ErrNotFound"
        have "apfst Inl (count_challenge_failure db1 now (me_token_hash env t) p ?unk) = (Inl e :: auth_result outcome, db')"
          using True v p t m Inl \<open>lr_active p \<and> _\<close> by (auto simp add: verify_mfa_login_def Let_def split: if_splits)
        then have "count_challenge_failure db1 now (me_token_hash env t) p ?unk = (e, db')"
          by (cases "count_challenge_failure db1 now (me_token_hash env t) p ?unk") simp
        from count_challenge_result(1) [OF ok p fr this] show ?thesis .
      next
        case False
        then show ?thesis using v p t m Inl \<open>lr_active p \<and> _\<close> e dispatch_not_429 [of env db now p i c r]
          by (auto simp add: verify_mfa_login_def Let_def split: if_splits)
      qed
    next
      case (Inr u)
      have "\<not> is_sentinel e ErrUnauthorized \<and> \<not> is_sentinel e ErrTooManyRequests"
        using v p t m Inr True
        by (auto simp add: verify_mfa_login_def Let_def issue_session_def split: if_splits sum.splits)
      with e show ?thesis by blast
    qed
  qed
qed

text \<open>
  What the attempt needs to be compared at all: a factor of a known type and, for a passkey, the
  feature switched on and a readable challenge that was issued for this pending session.
\<close>

definition comparable :: "mfa_env \<Rightarrow> lookup_result \<Rightarrow> factor \<Rightarrow> bool" where
  "comparable env p f \<longleftrightarrow> fa_type f = totp \<or> fa_type f = backup_codes \<or>
     (fa_type f = webauthn \<and> me_webauthn env \<and>
        (\<exists>nonce. lr_challenge p = Some nonce \<and> nonce \<noteq> [] \<and> me_session_ok env nonce))"

lemma dispatch_other_error:
  assumes "dispatch_mfa_verify env db now p i c r = (Inl err, db1)"
    and "\<not> is_sentinel err ErrNotFound" and "\<not> is_sentinel err ErrUnauthorized"
  shows "db1 = db \<and> (\<exists>f. lookup_active_factor db (lr_user p) i = Inr f \<and> \<not> comparable env p f)"
  using assms
  by (auto simp add: dispatch_mfa_verify_def lookup_active_factor_def find_by_id_and_user_def
      verify_webauthn_assertion_def verify_code_for_login_def classify_store_error_def find_user_by_id_def
      comparable_def ensureE_def not_found_def unauthorized_def split: option.splits sum.splits if_splits prod.splits)

lemma verify_mfa_not_accepted:
  assumes ok: "sessions_ok db" and p: "lookup_pending_mfa db now (me_token_hash env t) = Inr p" and t: "t \<noteq> []"
    and v: "verify_mfa_login env db now t i c r raw ip ag = (Inl e, db')"
  shows "(\<forall>s \<in> set (db_sessions db'). ss_id s = me_token_hash env t \<longrightarrow> ss_kind s = pending_mfa \<longrightarrow>
      ss_failures s = lr_failures p + 1 \<and> ss_failures s < mfa_challenge_failure_limit) \<or>
    (db' = db \<and> (\<exists>f. lookup_active_factor db (lr_user p) i = Inr f \<and> \<not> comparable env p f))"
proof (cases "is_sentinel e ErrUnauthorized \<or> is_sentinel e ErrTooManyRequests")
  case True
  then show ?thesis using verify_mfa_refused [OF ok p v _ t] by blast
next
  case False
  obtain x db1 where m: "dispatch_mfa_verify env db now p i c r = (x, db1)"
    by (cases "dispatch_mfa_verify env db now p i c r")
  show ?thesis
  proof (cases x)
    case (Inl err)
    have "\<not> is_sentinel err ErrNotFound \<and> \<not> is_sentinel err ErrUnauthorized \<and> db' = db1"
      using v p t m Inl False
      by (auto simp add: verify_mfa_login_def Let_def unauthorized_def too_many_requests_def count_challenge_failure_def split: if_splits sum.splits prod.splits)
    then show ?thesis using dispatch_other_error m Inl by blast
  next
    case (Inr u)
    then show ?thesis using v p t m False
      by (auto simp add: verify_mfa_login_def Let_def issue_session_def unauthorized_def too_many_requests_def split: if_splits sum.splits)
  qed
qed

lemma verify_mfa_audit:
  assumes ok: "sessions_ok db" and p: "lookup_pending_mfa db now (me_token_hash env t) = Inr p" and a: "lr_active p"
    and n: "count_failed_mfa_challenges_since db (lr_user p) (now - mfa_per_user_lockout_window) < mfa_per_user_lockout_threshold"
    and d: "fst (dispatch_mfa_verify env db now p i c r) = Inl e" and e: "is_sentinel e ErrUnauthorized"
    and t: "t \<noteq> []" and since: "since \<le> now"
  shows "count_failed_mfa_challenges_since (snd (verify_mfa_login env db now t i c r raw ip ag)) (lr_user p) since
    = count_failed_mfa_challenges_since db (lr_user p) since
      + (if lr_failures p + 1 < mfa_challenge_failure_limit then 1 else 0)"
proof -
  obtain db1 where m: "dispatch_mfa_verify env db now p i c r = (Inl e, db1)" using d by (metis fst_conv prod.collapse)
  note fr = dispatch_frame [OF m]
  obtain e' db' where c: "count_challenge_failure db1 now (me_token_hash env t) p False = (e', db')"
    by (cases "count_challenge_failure db1 now (me_token_hash env t) p False")
  have "\<not> is_sentinel e ErrNotFound" using sentinel_unique [OF e] by blast
  then have "snd (verify_mfa_login env db now t i c r raw ip ag) = db'"
    using p a n m e t c by (simp add: verify_mfa_login_def Let_def)
  then show ?thesis
    using count_challenge_result(2) [OF ok p fr(1) c] fr(2) since
    by (simp add: count_failed_mfa_challenges_since_def count_by_user_since_def)
qed

end
