(* ===== verification/MfaTheorems.thy ===== *)
theory MfaTheorems
  imports MfaSteps
begin

text \<open>
  The properties of authentication, with a concrete instance of the third-party functions and
  a short history of requests at which their witnesses are evaluated.
\<close>

section \<open>An instance\<close>

text \<open>
  Concrete functions for the third-party packages, a user, and a history in which the user
  enrols and activates a one-time-code factor: the inputs of the witnesses below.
\<close>

definition demo_env :: mfa_env where
  "demo_env = \<lparr>me_password_ok = (=), me_code_hash = (\<lambda>salt x. x), me_code_ok = (=),
     me_totp_code = (\<lambda>secret t. Some (if t < 60 then ''111111'' else if t < 90 then ''222222'' else ''333333'')),
     me_seal = (\<lambda>s n a. s), me_open = (\<lambda>c n a. Some c), me_ulower = (\<lambda>s. s), me_sql_lower = (\<lambda>s. s),
     me_password_hash = (\<lambda>salt p. Some p), me_token_hash = (\<lambda>s. s), me_csrf_token = (\<lambda>s. s),
     me_webauthn = False, me_begin_registration = (\<lambda>u a d cs. Inl []), me_session_ok = (\<lambda>s. False),
     me_parse_creation = Inl, me_create_credential = (\<lambda>u a d cs c p. Inl []),
     me_begin_login = (\<lambda>u a d cs. Inl []), me_parse_assertion = Inl,
     me_validate_login = (\<lambda>u a d cs c p. Inl [])\<rparr>"

definition demo_user :: user_row where
  "demo_user = \<lparr>us_id = 1, us_name = ''Ann'', us_email = ''a@b.c'', us_password = ''pw'', us_active = True,
     us_superadmin = False, us_created_by = [], us_deleted = False, us_last_login = None\<rparr>"

definition demo_draw :: "nat \<Rightarrow> 8 word list \<times> string" where
  "demo_draw k = ([of_nat k, 0, 0, 0, 0, 0, 0, 1], [])"

definition demo_time :: int where "demo_time = 60 * second"

definition demo_enrolled :: auth_db where
  "demo_enrolled = run_all demo_env
     [(demo_time, ReplaceUser [demo_user]),
      (demo_time, EnrollTotp 1 None ''pw'' [] ''key'' ''nonce'')] empty_auth_db"

definition demo_codes :: "string list" where
  "demo_codes = [''0000000000002'', ''0400000000002'', ''0800000000002'', ''0c00000000002'',
     ''0g00000000002'', ''0m00000000002'', ''0r00000000002'', ''0w00000000002'']"

definition demo_db :: auth_db where
  "demo_db = \<lparr>db_factors =
      [\<lparr>fa_id = 1, fa_user = 1, fa_type = totp, fa_label = None, fa_enabled_at = Some demo_time,
         fa_last_used_at = Some demo_time, fa_failures = 0, fa_challenge = None,
         fa_challenge_expires = None, fa_created_at = demo_time\<rparr>,
       \<lparr>fa_id = 2, fa_user = 1, fa_type = backup_codes, fa_label = None, fa_enabled_at = Some demo_time,
         fa_last_used_at = None, fa_failures = 0, fa_challenge = None, fa_challenge_expires = None,
         fa_created_at = demo_time\<rparr>],
     db_next_factor = 3,
     db_secrets = [\<lparr>ts_factor = 1, ts_ciphertext = ''key'', ts_nonce = ''nonce'', ts_last_step = Some 1\<rparr>],
     db_codes = map (\<lambda>(k, h). \<lparr>bc_id = k, bc_factor = 2, bc_hash = h, bc_used_at = None, bc_created_at = demo_time\<rparr>)
       (zip [1..<9] demo_codes),
     db_next_code = 9, db_credentials = [], db_sessions = [], db_users = [demo_user], db_audit = []\<rparr>"

lemma demo_base32: "map (\<lambda>k. base32_encode (fst (demo_draw k))) [0..<8] = demo_codes"
  by code_simp

lemma demo_draws: "draw_backup_codes demo_env demo_draw = (map pretty_code demo_codes, demo_codes)"
  by (simp add: draw_backup_codes_def generate_backup_codes_def backup_code_count_def split_beta
      normalize_drawn demo_env_def flip: demo_base32) (simp add: demo_draw_def normalize_drawn)

lemma demo_enrolled_eq: "demo_enrolled = \<lparr>db_factors =
      [\<lparr>fa_id = 1, fa_user = 1, fa_type = totp, fa_label = None, fa_enabled_at = None,
         fa_last_used_at = None, fa_failures = 0, fa_challenge = None,
         fa_challenge_expires = None, fa_created_at = demo_time\<rparr>],
     db_next_factor = 2,
     db_secrets = [\<lparr>ts_factor = 1, ts_ciphertext = ''key'', ts_nonce = ''nonce'', ts_last_step = None\<rparr>],
     db_codes = [],
     db_next_code = 1, db_credentials = [], db_sessions = [], db_users = [demo_user], db_audit = []\<rparr>"
  by code_simp

lemma demo_fields [simp]:
  "db_factors demo_enrolled = [\<lparr>fa_id = 1, fa_user = 1, fa_type = totp, fa_label = None, fa_enabled_at = None,
         fa_last_used_at = None, fa_failures = 0, fa_challenge = None,
         fa_challenge_expires = None, fa_created_at = demo_time\<rparr>]"
  "db_next_factor demo_enrolled = 2" "db_codes demo_enrolled = []" "db_next_code demo_enrolled = 1"
  by (simp_all add: demo_enrolled_eq)

lemma demo_verify: "verify_totp_for_activation demo_env demo_enrolled demo_time 1 ''111111''
   = (Inr (), demo_enrolled\<lparr>db_secrets := [\<lparr>ts_factor = 1, ts_ciphertext = ''key'', ts_nonce = ''nonce'', ts_last_step = Some 1\<rparr>]\<rparr>)"
  by code_simp

lemma demo_activation:
  "activate_factor_op demo_env demo_enrolled demo_time 1 1 ''111111'' [] demo_draw
    = (Inr (Some (2, map pretty_code demo_codes)), demo_db)"
  by (simp add: activate_factor_op_def demo_verify find_by_id_and_user_def activate_factor_def
     ensure_backup_codes_factor_def find_backup_codes_factor_def demo_draws create_factor_def new_factor_def
     insert_backup_codes_def code_rows_def demo_codes_def demo_db_def Let_def upt_conv_Cons del: One_nat_def) 
   (simp add: demo_enrolled_eq)

lemma demo_db_run: "demo_db = run_auth demo_env demo_time (ActivateFactor 1 1 ''111111'' [] demo_draw) demo_enrolled"
  by (simp add: demo_activation del: One_nat_def)

lemma auth_reachable_run_all: "auth_reachable env db \<Longrightarrow> auth_reachable env (run_all env ops db)"
  by (induction ops arbitrary: db) (simp_all add: run_all_def split_beta auth_reachable.step)

lemma demo_reachable: "auth_reachable demo_env demo_enrolled" "auth_reachable demo_env demo_db"
  unfolding demo_db_run demo_enrolled_def
  by (intro auth_reachable.step auth_reachable_run_all auth_reachable.start)+

lemma map_single: "map f xs = [a] \<Longrightarrow> \<exists>x. xs = [x]"
  by auto

text \<open>The user logs in: a pending session.\<close>

definition demo_pending :: auth_db where
  "demo_pending = demo_db\<lparr>db_sessions := [\<lparr>ss_id = ''tok'', ss_user = 1, ss_kind = pending_mfa,
       ss_created_at = demo_time, ss_expires_at = demo_time + pending_mfa_lifetime, ss_failures = 0,
       ss_password_verified_at = Some demo_time, ss_challenge = None, ss_ip = [], ss_agent = []\<rparr>],
     db_audit := [\<lparr>au_action = ''login_mfa_required'', au_user = Some 1, au_email = ''a@b.c'', au_time = demo_time\<rparr>]\<rparr>"

lemma demo_canonical: "canonical_email demo_env ''a@b.c'' = ''a@b.c''"
proof -
  have "trim_space ''a@b.c'' = ''a@b.c''"
    by (rule trim_space_id) (use crockford_plain [of "CHR ''a''"] crockford_plain [of "CHR ''c''"] in
        \<open>simp_all add: crockford_def\<close>)
  then show ?thesis by (simp add: canonical_email_def to_lower_def ascii_lower_def)
qed

lemma demo_login: "run_auth demo_env demo_time (Login ''a@b.c'' ''pw'' ''tok'' [] []) demo_db = demo_pending"
  unfolding run_auth.simps login_def Let_def demo_canonical by code_simp

lemma demo_pending_reachable: "auth_reachable demo_env demo_pending"
  unfolding demo_login [symmetric] by (rule auth_reachable.step [OF demo_reachable(2)])

lemma demo_lookup: "lookup_pending_mfa demo_pending demo_time (me_token_hash demo_env ''tok'') =
    Inr \<lparr>lr_user = 1, lr_email = ''a@b.c'', lr_active = True, lr_expires = demo_time + pending_mfa_lifetime,
      lr_failures = 0, lr_challenge = None\<rparr>"
  by code_simp

section \<open>Factors\<close>

text \<open>
  C15. In every state the requests can produce: at most one row of recovery codes per user,
  always active and never without another active factor of that user; at most one pending
  factor per user and type; and every pending factor has fewer wrong codes than the limit.
\<close>
lemma factor_policy_invariant:
  assumes "auth_reachable env db"
  shows "policy_ok (db_factors db)"
  using reachable_factors_ok [OF assms] by (simp add: factors_ok_def)

lemma factor_policy_invariant_witness:
  "policy_ok (db_factors demo_db) \<and> map fa_type (db_factors demo_db) = [totp, backup_codes]"
  using factor_policy_invariant [OF demo_reachable(2)] by (simp add: demo_db_def)

text \<open>
  C16. While a user has an active primary factor, whoever enrols another one, removes any or
  draws new recovery codes has the current password and a code that one of the user's active
  factors accepts.
\<close>
lemma factor_changes_need_step_up:
  assumes "auth_reachable env db" and "has_active_primary_factor db u"
    and "fst (enroll_totp env db now u l p code secret nonce) = Inr x \<or>
      fst (enroll_webauthn env db now u l p code account display) = Inr y \<or>
      fst (delete_factor_op env db now u i p code) = Inr () \<or>
      fst (regenerate_backup_codes env db now u i p code draw) = Inr z"
  shows "\<exists>r. find_user_by_id db u = Inr r \<and> me_password_ok env (us_password r) p \<and>
    code_accepted env db now u code"
proof -
  have "verify_password env db u p = Inr () \<and> (\<exists>db1. verify_step_up_mfa env db now u code = (Inr (), db1))"
  proof (cases "fst (delete_factor_op env db now u i p code) = Inr ()")
    case True
    then show ?thesis by (rule delete_Inr [OF _ assms(2)])
  next
    case False
    with assms(3) have "fst (enroll_totp env db now u l p code secret nonce) = Inr x \<or>
      fst (enroll_webauthn env db now u l p code account display) = Inr y \<or>
      fst (regenerate_backup_codes env db now u i p code draw) = Inr z" by blast
    then show ?thesis by (rule enroll_Inr)
  qed
  then show ?thesis
    using verify_password_Inr step_up_Inr [OF reachable_store_ok [OF assms(1)] assms(2)] by blast
qed

lemma demo_delete: "fst (delete_factor_op demo_env demo_db demo_time 1 1 ''pw'' ''222222'') = Inr ()"
  by code_simp

lemma factor_changes_need_step_up_witness:
  "code_accepted demo_env demo_db demo_time 1 ''222222''"
proof -
  have "has_active_primary_factor demo_db 1" by code_simp
  from factor_changes_need_step_up [OF demo_reachable(2) this disjI2 [OF disjI2 [OF disjI1 [OF demo_delete]]]]
  show ?thesis by blast
qed

text \<open>
  The codes an activation hands out work: under the law of the hash, each of them passes
  the second step of a login with the recovery-code factor the activation created.
\<close>
lemma activation_codes_log_in:
  assumes "auth_reachable env db"
    and "activate_factor_op env db now u i code response draw = (Inr (Some (j, raw)), db')"
    and "\<And>salt x. me_code_ok env (me_code_hash env salt x) x" and "c \<in> set raw"
  shows "fst (verify_code_for_login env db' now' u j c) = Inr ()"
proof -
  have ok': "store_ok db'"
    using good_store [OF good_activate_op reachable_store_ok [OF assms(1)], of env now u i code response draw] assms(2)
    by simp
  from activation_handout [OF assms(2)] obtain f db3 hashed where
    h: "draw_backup_codes env draw = (raw, hashed)" "db' = insert_backup_codes db3 (code_rows j now hashed)"
      "f \<in> set (db_factors db')" "fa_id f = j" "fa_user f = u" "fa_type f = backup_codes" "fa_enabled_at f \<noteq> None"
    by blast
  have "find_by_id_and_user db' j u = Inr f" using find_by_id_unique [OF ok' h(3)] h(4,5) by simp
  then have "lookup_active_factor db' u j = Inr f" using h(7) by (simp add: lookup_active_factor_def)
  moreover have "fst (try_backup_code env db' now' j c)"
    using drawn_codes_accepted [OF _ h(1) assms(4,3)] ok' unfolding h(2) by blast
  ultimately show ?thesis using h(4,6) by (simp add: verify_code_for_login_def split_beta ensureE_def)
qed

lemma activation_codes_log_in_witness:
  "fst (verify_code_for_login demo_env demo_db demo_time 1 2 (pretty_code (hd demo_codes))) = Inr ()"
proof (rule activation_codes_log_in [OF demo_reachable(1) demo_activation])
  show "me_code_ok demo_env (me_code_hash demo_env salt x) x" for salt x by (simp add: demo_env_def)
  show "pretty_code (hd demo_codes) \<in> set (map pretty_code demo_codes)" by (simp add: demo_codes_def)
qed

section \<open>Codes\<close>

text \<open>
  C18. A one-time code is never accepted twice, whatever requests come in between: the step of
  every acceptance of a factor, at the activation or later, is greater than that of the one
  before, for the same secret.
\<close>
lemma totp_code_not_replayed:
  assumes "auth_reachable env db" and "totp_accepted env db now i code db1"
    and "totp_accepted env (run_all env ops db1) now' i code' db2"
  shows "\<exists>secret s s'. decrypt_totp_secret env db i = Inr secret \<and>
      decrypt_totp_secret env (run_all env ops db1) i = Inr secret \<and>
      matching_step env secret now code = Some s \<and> matching_step env secret now' code' = Some s' \<and> s < s'"
  by (rule totp_steps_increase [OF reachable_store_ok [OF assms(1)] assms(2) good_run_all assms(3)])

lemma totp_code_not_replayed_witness:
  "\<exists>s s'. matching_step demo_env ''key'' demo_time ''222222'' = Some s \<and>
     matching_step demo_env ''key'' demo_time ''333333'' = Some s' \<and> s < s'"
proof -
  have 1: "totp_accepted demo_env demo_db demo_time 1 ''222222'' (snd (try_totp_code demo_env demo_db demo_time 1 ''222222''))"
    unfolding totp_accepted_def by (rule disjI1) code_simp
  have 2: "totp_accepted demo_env (run_all demo_env [] (snd (try_totp_code demo_env demo_db demo_time 1 ''222222'')))
      demo_time 1 ''333333'' (snd (try_totp_code demo_env (snd (try_totp_code demo_env demo_db demo_time 1 ''222222''))
        demo_time 1 ''333333''))"
    unfolding totp_accepted_def by (rule disjI1) code_simp
  have "decrypt_totp_secret demo_env demo_db 1 = Inr ''key''" by code_simp
  with totp_code_not_replayed [OF demo_reachable(2) 1 2] show ?thesis by auto
qed

text \<open>
  C19. A recovery code is good for one use: when it is accepted, the number of codes left falls
  by one, and the row that matched is never again among the unused ones, whatever requests
  follow.
\<close>
lemma backup_code_used_once:
  assumes "auth_reachable env db" and "try_backup_code env db now i code = (True, db')"
  shows "\<exists>r \<in> set (list_unused_backup_codes db i).
    me_code_ok env (bc_hash r) (normalize_backup_code (me_ulower env) code) \<and>
    count_unused_backup_codes db' i = count_unused_backup_codes db i - 1 \<and>
    (\<forall>ops. bc_id r \<notin> bc_id ` set (list_unused_backup_codes (run_all env ops db') i))"
  by (rule backup_code_once [OF reachable_store_ok [OF assms(1)] assms(2)])

lemma backup_code_used_once_witness:
  "\<exists>db'. try_backup_code demo_env demo_db demo_time 2 (pretty_code (hd demo_codes)) = (True, db') \<and>
     count_unused_backup_codes db' 2 = 7"
proof -
  have f: "fst (try_backup_code demo_env demo_db demo_time 2 (pretty_code (hd demo_codes)))"
  proof -
    have "demo_db = insert_backup_codes (demo_db\<lparr>db_codes := [], db_next_code := 1\<rparr>) (code_rows 2 demo_time demo_codes)"
      by (simp add: demo_db_def insert_backup_codes_def code_rows_def demo_codes_def upt_conv_Cons del: One_nat_def)
    from drawn_codes_accepted [OF _ demo_draws, of "demo_db\<lparr>db_codes := [], db_next_code := 1\<rparr>" 2 demo_time, folded this]
    show ?thesis using reachable_store_ok [OF demo_reachable(2)] by (simp add: demo_env_def demo_codes_def)
  qed
  then obtain db' where t: "try_backup_code demo_env demo_db demo_time 2 (pretty_code (hd demo_codes)) = (True, db')"
    by (metis prod.collapse)
  have "count_unused_backup_codes demo_db 2 = 8" by code_simp
  with backup_code_used_once [OF demo_reachable(2) t] t show ?thesis by auto
qed

section \<open>Sessions\<close>

text \<open>
  C17. A full session comes into being in three ways only, and never with an id that is in use:
  a login with the right password of an active user without an active primary factor; the
  second step of a login, which consumes the pending session; a password change with the
  current password.
\<close>
lemma session_provenance:
  assumes "auth_reachable env db" and "s \<in> set (db_sessions (run_auth env now op db))"
    and "ss_kind s = regular" and "s \<notin> set (db_sessions db)"
  shows "fresh_session_ok env db now op s \<and>
    (\<forall>s' \<in> set (db_sessions (run_auth env now op db)). ss_id s' = ss_id s \<longrightarrow> s' = s) \<and>
    (\<forall>t i c r raw ip ag. op = VerifyMfa t i c r raw ip ag \<longrightarrow>
       (\<forall>s' \<in> set (db_sessions (run_auth env now op db)).
          \<not> (ss_id s' = me_token_hash env t \<and> ss_kind s' = pending_mfa)))"
proof (intro conjI allI impI ballI)
  have d: "distinct (map ss_id (db_sessions db))" "distinct (map ss_id (db_sessions (run_auth env now op db)))"
    using reachable_sessions_ok [OF assms(1)] reachable_sessions_ok [OF auth_reachable.step [OF assms(1)]]
    by (simp_all add: sessions_ok_def)
  show "fresh_session_ok env db now op s"
    using sess_run_auth [of env db now op] d(1) assms(2-4) unfolding sess_step_def by metis
  show "s' = s" if "s' \<in> set (db_sessions (run_auth env now op db))" "ss_id s' = ss_id s" for s'
    using same_session [OF d(2)] that assms(2) by blast
  fix t i c r raw ip ag s'
  assume op: "op = VerifyMfa t i c r raw ip ag" and s': "s' \<in> set (db_sessions (run_auth env now op db))"
  show "\<not> (ss_id s' = me_token_hash env t \<and> ss_kind s' = pending_mfa)"
    using verify_mfa_consumes [OF d(1), of s env now t i c r raw ip ag s'] assms(2-4) s' op by simp
qed

lemma session_provenance_witness:
  "fresh_session_ok demo_env demo_enrolled demo_time (ChangePassword 1 ''pw'' ''new'' [] [] ''tok'' [] [])
     (hd (db_sessions (run_auth demo_env demo_time (ChangePassword 1 ''pw'' ''new'' [] [] ''tok'' [] []) demo_enrolled)))"
proof -
  let ?db' = "run_auth demo_env demo_time (ChangePassword 1 ''pw'' ''new'' [] [] ''tok'' [] []) demo_enrolled"
  have k: "map ss_kind (db_sessions ?db') = [regular]" by code_simp
  then have "hd (db_sessions ?db') \<in> set (db_sessions ?db')" "ss_kind (hd (db_sessions ?db')) = regular"
    by (cases "db_sessions ?db'"; simp)+
  moreover have "db_sessions demo_enrolled = []" by (simp add: demo_enrolled_eq)
  ultimately show ?thesis using session_provenance [OF demo_reachable(1)] by (metis empty_iff empty_set)
qed

text \<open>
  C20. Every attempt at the second step that does not log in is paid for: afterwards the pending
  session is gone, or its counter is up by one and below the limit of 5. The one exception is an
  attempt in which nothing could be compared, on a passkey for which no readable challenge was
  issued or while passkeys are switched off, or on a factor of an unknown type; it changes nothing.
\<close>
lemma refused_attempt_is_counted:
  assumes "auth_reachable env db" and "lookup_pending_mfa db now (me_token_hash env t) = Inr p" and "t \<noteq> []"
    and "verify_mfa_login env db now t i code response raw ip agent = (Inl e, db')"
  shows "(\<forall>s \<in> set (db_sessions db'). ss_id s = me_token_hash env t \<longrightarrow> ss_kind s = pending_mfa \<longrightarrow>
      ss_failures s = lr_failures p + 1 \<and> ss_failures s < mfa_challenge_failure_limit) \<or>
    (db' = db \<and> (\<exists>f. lookup_active_factor db (lr_user p) i = Inr f \<and> \<not> comparable env p f))"
  using verify_mfa_not_accepted [OF reachable_sessions_ok [OF assms(1)] assms(2-4)] .

lemma refused_attempt_is_counted_witness:
  "map ss_failures (db_sessions (snd (verify_mfa_login demo_env demo_pending demo_time ''tok'' 1 ''000000'' [] ''new'' [] [])))
    = [1]"
proof -
  let ?r = "verify_mfa_login demo_env demo_pending demo_time ''tok'' 1 ''000000'' [] ''new'' [] []"
  have v: "fst ?r = Inl (unauthorized ''invalid code'')" and k: "map ss_id (db_sessions (snd ?r)) = [''tok'']"
    "map ss_kind (db_sessions (snd ?r)) = [pending_mfa]" by code_simp+
  from v have r: "?r = (Inl (unauthorized ''invalid code''), snd ?r)" by (metis prod.collapse)
  have f: "map_sum (\<lambda>_. ()) fa_type (lookup_active_factor demo_pending 1 1) = Inr totp" by code_simp
  have "lookup_active_factor demo_pending 1 1 = Inr f \<Longrightarrow> comparable demo_env p f" for f p
    using f by (simp add: comparable_def)
  with refused_attempt_is_counted [OF demo_pending_reachable demo_lookup _ r]
  have "\<forall>s \<in> set (db_sessions (snd ?r)). ss_id s = me_token_hash demo_env ''tok'' \<longrightarrow> ss_kind s = pending_mfa \<longrightarrow>
      ss_failures s = 1" by auto
  moreover have "me_token_hash demo_env ''tok'' = ''tok''" by (simp add: demo_env_def)
  moreover obtain s where "db_sessions (snd ?r) = [s]" by (rule exE [OF map_single [OF k(1)]])
  ultimately show ?thesis using k by simp
qed

text \<open>
  What a wrong code adds to the count that locks the user: nothing when it is the one that
  exhausts its pending session, one otherwise. So 20 counted failures are 25 wrong codes when
  each pending session is used up.
\<close>
lemma last_wrong_code_not_counted:
  assumes "auth_reachable env db" and "lookup_pending_mfa db now (me_token_hash env t) = Inr p" and "lr_active p"
    and "count_failed_mfa_challenges_since db (lr_user p) (now - mfa_per_user_lockout_window) < mfa_per_user_lockout_threshold"
    and "fst (dispatch_mfa_verify env db now p i code response) = Inl e" and "is_sentinel e ErrUnauthorized"
    and "t \<noteq> []" and "since \<le> now"
  shows "count_failed_mfa_challenges_since (snd (verify_mfa_login env db now t i code response raw ip agent)) (lr_user p) since
    = count_failed_mfa_challenges_since db (lr_user p) since
      + (if lr_failures p + 1 < mfa_challenge_failure_limit then 1 else 0)"
  using verify_mfa_audit [OF reachable_sessions_ok [OF assms(1)] assms(2-8)] .

lemma last_wrong_code_not_counted_witness:
  "count_failed_mfa_challenges_since
     (snd (verify_mfa_login demo_env demo_pending demo_time ''tok'' 1 ''000000'' [] ''new'' [] [])) 1 0 = 1"
proof -
  have d: "fst (dispatch_mfa_verify demo_env demo_pending demo_time
      \<lparr>lr_user = 1, lr_email = ''a@b.c'', lr_active = True, lr_expires = demo_time + pending_mfa_lifetime,
       lr_failures = 0, lr_challenge = None\<rparr> 1 ''000000'' []) = Inl (unauthorized ''invalid code'')" by code_simp
  have n: "count_failed_mfa_challenges_since demo_pending 1 t = 0" for t
    by (simp add: count_failed_mfa_challenges_since_def count_by_user_since_def demo_pending_def)
  have t: "0 \<le> demo_time" by code_simp
  from last_wrong_code_not_counted [OF demo_pending_reachable demo_lookup _ _ d _ _ t]
  show ?thesis
    by (simp add: n mfa_per_user_lockout_threshold_def mfa_challenge_failure_limit_def del: One_nat_def)
qed

end
