(* ===== verification/AccountTheorems.thy ===== *)
theory AccountTheorems
  imports AccountLaws MfaTheorems
begin

text \<open>
  The properties of accounts, roles and organizations, with a small installation at which their
  witnesses are evaluated: a superadmin, the administrator of one organization and the member of
  another.
\<close>

section \<open>An installation\<close>

definition demo_person :: "nat \<Rightarrow> string \<Rightarrow> bool \<Rightarrow> user_row" where
  "demo_person i name super = \<lparr>us_id = i, us_name = name, us_email = name, us_password = name, us_active = True,
     us_superadmin = super, us_created_by = [], us_deleted = False, us_last_login = None\<rparr>"

definition demo_org :: "nat \<Rightarrow> string \<Rightarrow> org_row" where
  "demo_org i name = \<lparr>og_id = i, og_name = name, og_active = True, og_state = ''berlin'', og_created_by = [], og_deleted = False\<rparr>"

definition demo_section :: "nat \<Rightarrow> nat \<Rightarrow> bool \<Rightarrow> section_row" where
  "demo_section i org def = \<lparr>sc_id = i, sc_org = org, sc_name = ''Base'', sc_default = def, sc_min_age = None,
     sc_max_age = None, sc_created_by = [], sc_deleted = False\<rparr>"

definition demo_accounts :: account_db where
  "demo_accounts = \<lparr>ac_auth = empty_auth_db\<lparr>db_users := [demo_person 1 ''root'' True, demo_person 2 ''ann'' False, demo_person 3 ''bob'' False]\<rparr>,
     ac_next_user = 4, ac_orgs = [demo_org 1 ''Sun'', demo_org 2 ''Moon''], ac_next_org = 3,
     ac_members = [\<lparr>mb_user = 2, mb_org = 1, mb_role = role_admin, mb_created_by = []\<rparr>,
       \<lparr>mb_user = 3, mb_org = 2, mb_role = role_admin, mb_created_by = []\<rparr>],
     ac_sections = [demo_section 1 1 True, demo_section 2 2 True], ac_next_section = 3,
     ac_child_rows = [], ac_employee_rows = []\<rparr>"

lemmas demo_accounts_defs = demo_accounts_def demo_person_def demo_org_def demo_section_def empty_auth_db_def

lemma demo_accounts_wf: "users_wf demo_accounts" "orgs_wf demo_accounts" "usable_superadmin demo_accounts"
  by (simp_all add: users_wf_def orgs_wf_def live_defaults_def usable_superadmin_def demo_accounts_defs)

definition demo_deactivated :: account_db where
  "demo_deactivated = snd (update_account demo_env demo_accounts 3 \<lparr>uu_name = [], uu_email = [], uu_active = Some False\<rparr> 1)"

lemma demo_edit: "account_step demo_env default_policies 1 demo_accounts demo_deactivated"
proof (rule account_step.edit_user)
  show "require_global_permission default_policies demo_accounts ''users'' ''update'' (Some 1) = Inr 1"
    by (simp add: require_global_permission_def has_permission_in_any_org_def is_super_admin_def account_user_def
        find_user_by_id_def demo_accounts_defs)
  show "update_account demo_env demo_accounts 3 \<lparr>uu_name = [], uu_email = [], uu_active = Some False\<rparr> 1
      = (fst (update_account demo_env demo_accounts 3 \<lparr>uu_name = [], uu_email = [], uu_active = Some False\<rparr> 1), demo_deactivated)"
    by (simp add: demo_deactivated_def)
qed

lemma demo_deactivated_users: "db_users (ac_auth demo_deactivated) =
    [demo_person 1 ''root'' True, demo_person 2 ''ann'' False, (demo_person 3 ''bob'' False)\<lparr>us_active := False\<rparr>]"
  by (simp add: demo_deactivated_def update_account_def verify_requester_can_modify_user_def is_super_admin_def
      account_user_def find_user_by_id_def target_is_protected_super_admin_def canonical_email_def to_lower_def save_user_def
      email_exists_for_other_user_def demo_env_def demo_accounts_defs Let_def)

section \<open>Invariants\<close>

text \<open>
  C28. The installation cannot lock itself out: from tables with unique keys, whatever requests
  follow each other (accounts, memberships, organizations, sections, sign-in, sessions, factors),
  a superadmin who is active and not deleted remains if there was one.
\<close>
lemma usable_superadmin_remains:
  assumes "(system_step env default_policies)\<^sup>*\<^sup>* db db'" and "users_wf db" and "orgs_wf db"
    and "\<exists>u \<in> set (db_users (ac_auth db)). us_superadmin u \<and> us_active u \<and> \<not> us_deleted u"
  shows "\<exists>u \<in> set (db_users (ac_auth db')). us_superadmin u \<and> us_active u \<and> \<not> us_deleted u"
  using system_run_invariant [OF assms(1-3)] assms(4) by (simp add: usable_superadmin_def)

lemma usable_superadmin_remains_witness:
  "\<exists>u \<in> set (db_users (ac_auth demo_deactivated)). us_superadmin u \<and> us_active u \<and> \<not> us_deleted u"
proof (rule usable_superadmin_remains [of demo_env demo_accounts demo_deactivated])
  show "(system_step demo_env default_policies)\<^sup>*\<^sup>* demo_accounts demo_deactivated"
    using system_step.managed [OF demo_edit] by (rule r_into_rtranclp)
qed (use demo_accounts_wf in \<open>simp_all add: usable_superadmin_def\<close>)

text \<open>
  C29. The account tables stay well formed under every request: user ids are unique and below the
  sequence, a user has at most one membership in an organization, and every organization has
  exactly one live default section, so that a new contract always has a section to go to.
\<close>
lemma account_tables_stay_well_formed:
  assumes "(system_step env default_policies)\<^sup>*\<^sup>* db db'" and "users_wf db" and "orgs_wf db"
  shows "users_wf db' \<and> orgs_wf db'"
  using system_run_invariant [OF assms] by simp

lemma account_tables_stay_well_formed_witness: "users_wf demo_deactivated \<and> orgs_wf demo_deactivated"
proof -
  have run: "(system_step demo_env default_policies)\<^sup>*\<^sup>* demo_accounts demo_deactivated"
    using system_step.managed [OF demo_edit] by (rule r_into_rtranclp)
  show ?thesis using account_tables_stay_well_formed [OF run demo_accounts_wf(1,2)] by simp
qed

section \<open>Authorization\<close>

text \<open>
  C30. Who may change what: a request of user \<open>r\<close> changes or removes another user's row only if \<open>r\<close>
  is a superadmin, or administers a live organization the two share and the other is no superadmin;
  it grants or revokes superadmin rights and creates users only if \<open>r\<close> is a superadmin; memberships,
  organizations and sections change only if \<open>r\<close> is a superadmin or an administrator of that very
  organization.
\<close>
lemma account_changes_are_authorized:
  assumes "account_step env default_policies r db db'" and "users_wf db" and "orgs_wf db"
  shows "(\<forall>u \<in> set (db_users (ac_auth db)). u \<notin> set (db_users (ac_auth db')) \<longrightarrow>
       r = us_id u \<or> is_super_admin db r \<or> is_admin_in_shared_org db r (us_id u) \<and> \<not> is_super_admin db (us_id u)) \<and>
    (\<forall>v \<in> set (db_users (ac_auth db')). us_id v \<notin> us_id ` set (db_users (ac_auth db)) \<longrightarrow>
       is_super_admin db r \<and> \<not> us_superadmin v) \<and>
    (\<forall>u \<in> set (db_users (ac_auth db)). \<forall>v \<in> set (db_users (ac_auth db')).
       us_id v = us_id u \<longrightarrow> us_superadmin v \<noteq> us_superadmin u \<longrightarrow> is_super_admin db r) \<and>
    (\<forall>m. (m \<in> set (ac_members db)) \<noteq> (m \<in> set (ac_members db')) \<longrightarrow>
       is_super_admin db r \<or> get_role_in_org db r (mb_org m) = role_admin) \<and>
    (\<forall>g. (g \<in> set (ac_orgs db)) \<noteq> (g \<in> set (ac_orgs db')) \<longrightarrow>
       is_super_admin db r \<or> get_role_in_org db r (og_id g) = role_admin) \<and>
    (\<forall>s. (s \<in> set (ac_sections db)) \<noteq> (s \<in> set (ac_sections db')) \<longrightarrow>
       is_super_admin db r \<or> get_role_in_org db r (sc_org s) = role_admin)"
  using account_step_rows [OF assms] unfolding may_change_def by blast

lemma account_changes_are_authorized_witness:
  "demo_person 3 ''bob'' False \<in> set (db_users (ac_auth demo_accounts)) \<and>
   demo_person 3 ''bob'' False \<notin> set (db_users (ac_auth demo_deactivated)) \<and>
   ((1::nat) = 3 \<or> is_super_admin demo_accounts 1 \<or>
     is_admin_in_shared_org demo_accounts 1 3 \<and> \<not> is_super_admin demo_accounts 3)"
proof -
  have u: "demo_person 3 ''bob'' False \<in> set (db_users (ac_auth demo_accounts))"
    by (simp add: demo_accounts_defs)
  have g: "demo_person 3 ''bob'' False \<notin> set (db_users (ac_auth demo_deactivated))"
    by (simp add: demo_deactivated_users demo_person_def)
  have "us_id (demo_person 3 ''bob'' False) = 3" by (simp add: demo_person_def)
  with u g account_changes_are_authorized [OF demo_edit demo_accounts_wf(1,2)] show ?thesis by metis
qed

end
