(* ===== verification/PeriodTables.thy ===== *)
theory PeriodTables
  imports Periods
begin

text \<open>
  Tables whose rows have an owner and an inclusive span of days, of which no two rows of one
  owner may share a day: periods of a pay plan, of a funding configuration, entries of a budget
  item. \<open>span_change\<close> says which changes keep that; the locale \<open>span_keeper\<close> carries it to every
  component whose operations amount to such changes.
\<close>

section \<open>The abstract table\<close>

record span =
  sp_id :: nat
  sp_owner :: nat
  sp_from :: int
  sp_to :: "int option"

text \<open>The next key and the rows.\<close>

type_synonym span_table = "nat \<times> span list"

definition span_days :: "span \<Rightarrow> int set" where
  "span_days s = days (sp_from s) (sp_to s)"

definition spans_ok :: "span_table \<Rightarrow> bool" where
  "spans_ok T \<longleftrightarrow> distinct (map sp_id (snd T)) \<and> (\<forall>s \<in> set (snd T). sp_id s < fst T) \<and>
     (\<forall>s \<in> set (snd T). \<forall>r \<in> set (snd T).
        sp_owner s = sp_owner r \<and> sp_id s \<noteq> sp_id r \<longrightarrow> span_days s \<inter> span_days r = {})"

definition move_span :: "nat \<Rightarrow> int \<Rightarrow> int option \<Rightarrow> span \<Rightarrow> span" where
  "move_span i f t s = (if sp_id s = i then s\<lparr>sp_from := f, sp_to := t\<rparr> else s)"

inductive span_change :: "span_table \<Rightarrow> span_table \<Rightarrow> bool" where
  span_removed: "span_change (n, ss) (n, filter P ss)"
| span_added: "(\<And>s. s \<in> set ss \<Longrightarrow> sp_owner s = w \<Longrightarrow> days f t \<inter> span_days s = {}) \<Longrightarrow>
    span_change (n, ss) (Suc n, ss @ [\<lparr>sp_id = n, sp_owner = w, sp_from = f, sp_to = t\<rparr>])"
| span_moved: "(\<And>s. s \<in> set ss \<Longrightarrow> sp_id s = i \<Longrightarrow> sp_owner s = w) \<Longrightarrow>
    (\<And>s. s \<in> set ss \<Longrightarrow> sp_owner s = w \<Longrightarrow> sp_id s \<noteq> i \<Longrightarrow> days f t \<inter> span_days s = {}) \<Longrightarrow>
    span_change (n, ss) (n, map (move_span i f t) ss)"

lemma move_span_simps [simp]:
  "sp_id (move_span i f t s) = sp_id s" "sp_owner (move_span i f t s) = sp_owner s"
  "span_days (move_span i f t s) = (if sp_id s = i then days f t else span_days s)"
  by (simp_all add: move_span_def span_days_def)

lemma span_change_ok:
  assumes "span_change T U" and "spans_ok T"
  shows "spans_ok U"
  using assms
proof (induction rule: span_change.induct)
  case (span_removed n ss P)
  then show ?case by (auto simp add: spans_ok_def distinct_map_filter)
next
  case (span_added ss w f t n)
  from span_added(2) have "n \<notin> sp_id ` set ss" by (auto simp add: spans_ok_def)
  moreover have "sp_id s < Suc n" if "s \<in> set ss" for s
    using span_added(2) that by (auto simp add: spans_ok_def less_Suc_eq)
  ultimately show ?case using span_added
    by (fastforce simp add: spans_ok_def span_days_def)
next
  case (span_moved ss i w f t n)
  have "sp_id \<circ> move_span i f t = sp_id" by (rule ext) simp
  moreover have "span_days (move_span i f t s) \<inter> span_days (move_span i f t r) = {}"
    if "s \<in> set ss" "r \<in> set ss" "sp_owner s = sp_owner r" "sp_id s \<noteq> sp_id r" for s r
  proof -
    consider "sp_id s = i" | "sp_id r = i" | "sp_id s \<noteq> i" "sp_id r \<noteq> i" by blast
    then show ?thesis
    proof cases
      case 1
      then show ?thesis using that span_moved(1) [of s] span_moved(2) [of r] by simp
    next
      case 2
      then show ?thesis using that span_moved(1) [of r] span_moved(2) [of s] by (simp add: Int_commute)
    next
      case 3
      then show ?thesis using that span_moved(3) by (auto simp add: spans_ok_def)
    qed
  qed
  ultimately show ?case using span_moved(3) by (auto simp add: spans_ok_def)
qed

lemma span_changes_ok:
  assumes "span_change\<^sup>*\<^sup>* T U" and "spans_ok T"
  shows "spans_ok U"
  using assms by (induction rule: rtranclp_induct) (auto intro: span_change_ok)

text \<open>On a day, at most one row of an owner applies.\<close>

lemma one_span_per_day:
  assumes "spans_ok T" and "s \<in> set (snd T)" and "r \<in> set (snd T)" and "sp_owner s = sp_owner r"
    and "d \<in> span_days s" and "d \<in> span_days r"
  shows "s = r"
proof -
  have "sp_id s = sp_id r" using assms by (auto simp add: spans_ok_def)
  then show ?thesis using assms(1-3) by (auto simp add: spans_ok_def distinct_map dest: inj_onD)
qed

section \<open>Components that keep one\<close>

text \<open>
  A step of the component, under its own invariant \<open>inv\<close>, is a sequence of such changes of the
  span table read off its state.
\<close>

locale span_keeper =
  fixes step :: "'d \<Rightarrow> 'd \<Rightarrow> bool" and inv :: "'d \<Rightarrow> bool" and spans :: "'d \<Rightarrow> span_table"
  assumes inv_step: "step d e \<Longrightarrow> inv d \<Longrightarrow> inv e"
    and simulates: "step d e \<Longrightarrow> inv d \<Longrightarrow> spans_ok (spans d) \<Longrightarrow> span_change\<^sup>*\<^sup>* (spans d) (spans e)"
begin

lemma reachable_simulates:
  assumes "step\<^sup>*\<^sup>* d e" and "inv d" and "spans_ok (spans d)"
  shows "inv e \<and> span_change\<^sup>*\<^sup>* (spans d) (spans e)"
  using assms
proof (induction rule: rtranclp_induct)
  case (step e f)
  then have "inv e" and c: "span_change\<^sup>*\<^sup>* (spans d) (spans e)" by blast+
  moreover have "spans_ok (spans e)" using c step.prems(2) by (rule span_changes_ok)
  ultimately show ?case using simulates inv_step step.hyps(2) by (blast intro: rtranclp_trans)
qed simp

lemma reachable_ok:
  assumes "step\<^sup>*\<^sup>* d e" and "inv d" and "spans_ok (spans d)"
  shows "inv e" and "spans_ok (spans e)"
  using reachable_simulates [OF assms] assms(3) span_changes_ok by blast+

lemma one_applies:
  assumes "step\<^sup>*\<^sup>* d e" and "inv d" and "spans_ok (spans d)"
    and "s \<in> set (snd (spans e))" and "r \<in> set (snd (spans e))" and "sp_owner s = sp_owner r"
    and "day \<in> span_days s" and "day \<in> span_days r"
  shows "s = r"
  using one_span_per_day [OF reachable_ok(2) [OF assms(1-3)] assms(4-)] .

end

section \<open>The overlap test of the services\<close>

text \<open>
  A range whose end lies before its start covers no day, and the test may still report an
  overlap for it; but what it lets pass is disjoint, whatever the ranges.
\<close>

lemma periods_overlap_sound:
  "\<not> periods_overlap f t (p_from p) (p_to p) \<Longrightarrow> days (local_day f) (day_opt t) \<inter> period_days p = {}"
  by (cases t; cases "p_to p")
    (auto simp add: periods_overlap_def Let_def truncate_to_date_eq period_days_def days_simps
      split: if_splits)

lemma validate_no_overlap_sound:
  assumes "validate_no_overlap es f t x = Inr u" and "(i, p) \<in> set es" and "x \<noteq> Some i"
  shows "days (local_day f) (day_opt t) \<inter> period_days p = {}"
  using assms periods_overlap_sound by (fastforce simp add: validate_no_overlap_Inr)

text \<open>What a DATE column keeps of an instant.\<close>

definition stored_period :: "gtime \<Rightarrow> gtime option \<Rightarrow> period" where
  "stored_period from to = \<lparr>p_from = truncate_to_date from, p_to = map_option truncate_to_date to\<rparr>"

lemma stored_period_days [simp]:
  "local_day (p_from (stored_period f t)) = local_day f"
  "day_opt (p_to (stored_period f t)) = day_opt t"
  "period_days (stored_period f t) = days (local_day f) (day_opt t)"
  by (cases t; simp add: stored_period_def truncate_to_date_eq period_days_def)+

lemma stored_period_midnights [simp]:
  "p_from (stored_period f t) = midnight (local_day f)"
  "p_to (stored_period f t) = map_option midnight (day_opt t)"
  by (cases t; simp add: stored_period_def truncate_to_date_eq)+

lemma day_opt_midnight [simp]: "day_opt (map_option midnight d) = d"
  by (cases d) simp_all

end
