(* ===== verification/SqlTypes.thy ===== *)
theory SqlTypes
  imports AppError
begin

text \<open>
  What the column types of the migrations accept: 32-bit integers and bounded character strings.
\<close>

text \<open>An \<open>int\<close> bound to an INTEGER column has to fit 32 bits; the driver refuses it otherwise.\<close>

definition in_int4 :: "int \<Rightarrow> bool" where
  "in_int4 i \<longleftrightarrow> - (2 ^ 31) \<le> i \<and> i < 2 ^ 31"

definition int4_error :: go_error where
  "int4_error = PlainError ''value out of range for type int4''"

text \<open>
  A VARCHAR counts characters, and a character of a UTF-8 string is the byte that starts it with
  the continuation bytes after it.
\<close>

definition utf8_length :: "string \<Rightarrow> nat" where
  "utf8_length s = length (filter (\<lambda>c. \<not> (128 \<le> (of_char c :: nat) \<and> (of_char c :: nat) < 192)) s)"

definition varchar :: "nat \<Rightarrow> string \<Rightarrow> unit outcome" where
  "varchar n s = ensureE (utf8_length s \<le> n) (PgError ''22001'')"

end
