(* ===== verification/PayPlans.thy ===== *)
theory PayPlans
  imports PeriodTables SqlTypes PayCost Users Strconv
begin

text \<open>
  Pay plans: \<open>internal/service/payplan.go\<close> with the queries of \<open>internal/store/payplan.go\<close>, the
  order of grades in \<open>internal/models/payplan.go\<close> and the constraints of the migrations. The
  plan a reader gets, with its periods and their entries, is the record \<open>pay_plan\<close> the contract
  and salary code works on; here it is assembled from three tables.
\<close>

section \<open>The order of grades\<close>

text \<open>
  \<open>S8a\<close> is split at its first run of digits. \<open>strconv.Atoi\<close> answers the largest integer for a
  run that is too long, and the error is dropped.
\<close>

definition split_grade :: "string \<Rightarrow> string \<times> int \<times> string" where
  "split_grade g =
     (let prefix = takeWhile (\<lambda>c. \<not> is_digit c) g;
          rest = dropWhile (\<lambda>c. \<not> is_digit c) g;
          run = takeWhile is_digit rest
      in if rest = [] then (g, 0, [])
         else (prefix, min (int (digits_value run)) max_int, dropWhile is_digit rest))"

text \<open>\<open>cmp.Compare\<close> and \<open>cmp.Or\<close>, which takes the first argument that is not zero.\<close>

definition compare_go :: "'a :: linorder \<Rightarrow> 'a \<Rightarrow> int" where
  "compare_go x y = (if x < y then - 1 else if y < x then 1 else 0)"

fun cmp_or :: "int list \<Rightarrow> int" where
  "cmp_or [] = 0"
| "cmp_or (x # xs) = (if x \<noteq> 0 then x else cmp_or xs)"

definition compare_grade :: "string \<Rightarrow> string \<Rightarrow> int" where
  "compare_grade a b =
     (case (split_grade a, split_grade b) of ((pa, na, sa), (pb, nb, sb)) \<Rightarrow>
        cmp_or [compare_go pa pb, compare_go na nb, compare_go sa sb])"

definition compare_entries :: "pay_plan_entry \<Rightarrow> pay_plan_entry \<Rightarrow> int" where
  "compare_entries a b =
     cmp_or [compare_grade (pe_grade a) (pe_grade b), compare_go (pe_step a) (pe_step b)]"

text \<open>
  \<open>slices.SortFunc\<close> with that comparison. Entries it does not tell apart keep their order here;
  Go leaves it open.
\<close>

fun insert_entry_sorted :: "pay_plan_entry \<Rightarrow> pay_plan_entry list \<Rightarrow> pay_plan_entry list" where
  "insert_entry_sorted e [] = [e]"
| "insert_entry_sorted e (d # ds) =
     (if compare_entries e d \<le> 0 then e # d # ds else d # insert_entry_sorted e ds)"

definition sort_entries_natural :: "pay_plan_entry list \<Rightarrow> pay_plan_entry list" where
  "sort_entries_natural es = foldr insert_entry_sorted es []"

section \<open>Tables\<close>

record plan_row =
  pw_id :: nat
  pw_org :: nat
  pw_name :: string

record plan_period_row = period +
  pd_id :: nat
  pd_plan :: nat
  pd_hours :: f64
  pd_rate :: int

record plan_entry_row =
  pt_id :: nat
  pt_period :: nat
  pt_grade :: string
  pt_step :: int
  pt_amount :: int
  pt_min_years :: "int option"

text \<open>
  \<open>pb_orgs\<close> are the organizations there are and \<open>pb_used\<close> the pay plans that employee contracts
  refer to: the foreign keys into and out of the three tables.
\<close>

record payplan_db =
  pb_plans :: "plan_row list"
  pb_periods :: "plan_period_row list"
  pb_entries :: "plan_entry_row list"
  pb_next_plan :: nat
  pb_next_period :: nat
  pb_next_entry :: nat
  pb_orgs :: "nat list"
  pb_used :: "nat list"

definition insert_plan :: "payplan_db \<Rightarrow> nat \<Rightarrow> string \<Rightarrow> (plan_row \<times> payplan_db) outcome" where
  "insert_plan db org name =
     (if org \<notin> set (pb_orgs db) then Inl (PgError ''23503'')
      else if list_ex (\<lambda>r. pw_org r = org \<and> pw_name r = name) (pb_plans db) then Inl (PgError ''23505'')
      else let r = \<lparr>pw_id = pb_next_plan db, pw_org = org, pw_name = name\<rparr>
           in Inr (r, db\<lparr>pb_plans := pb_plans db @ [r], pb_next_plan := Suc (pb_next_plan db)\<rparr>))"

definition save_plan :: "payplan_db \<Rightarrow> plan_row \<Rightarrow> payplan_db outcome" where
  "save_plan db r =
     (if list_ex (\<lambda>s. pw_org s = pw_org r \<and> pw_name s = pw_name r \<and> pw_id s \<noteq> pw_id r) (pb_plans db)
      then Inl (PgError ''23505'')
      else Inr (db\<lparr>pb_plans := map (\<lambda>s. if pw_id s = pw_id r then r else s) (pb_plans db)\<rparr>))"

definition find_plan :: "payplan_db \<Rightarrow> nat \<Rightarrow> plan_row outcome" where
  "find_plan db i =
     (case find (\<lambda>r. pw_id r = i) (pb_plans db) of None \<Rightarrow> Inl (StoreError StoreNotFound) | Some r \<Rightarrow> Inr r)"

definition find_by_name_and_org :: "payplan_db \<Rightarrow> string \<Rightarrow> nat \<Rightarrow> plan_row option" where
  "find_by_name_and_org db name org = find (\<lambda>r. pw_name r = name \<and> pw_org r = org) (pb_plans db)"

text \<open>The cascade along \<open>ON DELETE CASCADE\<close>, and the foreign key of the employee contracts.\<close>

definition periods_of_plan :: "payplan_db \<Rightarrow> nat \<Rightarrow> plan_period_row list" where
  "periods_of_plan db i = filter (\<lambda>p. pd_plan p = i) (pb_periods db)"

definition delete_periods_and_entries :: "payplan_db \<Rightarrow> nat \<Rightarrow> payplan_db" where
  "delete_periods_and_entries db i =
     db\<lparr>pb_entries := filter (\<lambda>e. pt_period e \<notin> pd_id ` set (periods_of_plan db i)) (pb_entries db),
        pb_periods := filter (\<lambda>p. pd_plan p \<noteq> i) (pb_periods db)\<rparr>"

definition delete_plan :: "payplan_db \<Rightarrow> nat \<Rightarrow> payplan_db outcome" where
  "delete_plan db i =
     (if i \<in> set (pb_used db) then Inl (PgError ''23503'')
      else let db' = delete_periods_and_entries db i
           in Inr (db'\<lparr>pb_plans := filter (\<lambda>r. pw_id r \<noteq> i) (pb_plans db')\<rparr>))"

definition period_checks :: "f64 \<Rightarrow> int \<Rightarrow> unit outcome" where
  "period_checks hours rate =
     (if \<not> in_int4 rate then Inl int4_error
      else if fless (Fin 0) hours \<and> fle hours (Fin 168) \<and> 0 \<le> rate \<and> rate \<le> 10000 then Inr ()
      else Inl (PgError ''23514''))"

definition insert_period ::
    "payplan_db \<Rightarrow> nat \<Rightarrow> gtime \<Rightarrow> gtime option \<Rightarrow> f64 \<Rightarrow> int \<Rightarrow> (nat \<times> payplan_db) outcome" where
  "insert_period db plan from to hours rate =
     bindE (period_checks hours rate) (\<lambda>_.
     bindE (ensureE (list_ex (\<lambda>r. pw_id r = plan) (pb_plans db)) (PgError ''23503'')) (\<lambda>_.
       let n = pb_next_period db;
           p = period.extend (stored_period from to) \<lparr>pd_id = n, pd_plan = plan, pd_hours = hours, pd_rate = rate\<rparr>
       in Inr (n, db\<lparr>pb_periods := pb_periods db @ [p], pb_next_period := Suc n\<rparr>)))"

definition find_period :: "payplan_db \<Rightarrow> nat \<Rightarrow> plan_period_row outcome" where
  "find_period db i =
     (case find (\<lambda>p. pd_id p = i) (pb_periods db) of None \<Rightarrow> Inl (StoreError StoreNotFound) | Some p \<Rightarrow> Inr p)"

definition save_period ::
    "payplan_db \<Rightarrow> plan_period_row \<Rightarrow> gtime \<Rightarrow> gtime option \<Rightarrow> f64 \<Rightarrow> int \<Rightarrow> payplan_db outcome" where
  "save_period db p from to hours rate =
     bindE (period_checks hours rate) (\<lambda>_.
       let p' = p\<lparr>p_from := p_from (stored_period from to), p_to := p_to (stored_period from to),
                  pd_hours := hours, pd_rate := rate\<rparr>
       in Inr (db\<lparr>pb_periods := map (\<lambda>q. if pd_id q = pd_id p then p' else q) (pb_periods db)\<rparr>))"

definition delete_period_row :: "payplan_db \<Rightarrow> nat \<Rightarrow> payplan_db" where
  "delete_period_row db i =
     db\<lparr>pb_entries := filter (\<lambda>e. pt_period e \<noteq> i) (pb_entries db),
        pb_periods := filter (\<lambda>p. pd_id p \<noteq> i) (pb_periods db)\<rparr>"

definition entry_checks :: "payplan_db \<Rightarrow> nat \<Rightarrow> plan_entry_row \<Rightarrow> unit outcome" where
  "entry_checks db i e =
     (if \<not> (in_int4 (pt_step e) \<and> in_int4 (pt_amount e) \<and> list_all in_int4 (case pt_min_years e of None \<Rightarrow> [] | Some y \<Rightarrow> [y]))
      then Inl int4_error
      else if list_ex (\<lambda>r. pt_period r = pt_period e \<and> pt_grade r = pt_grade e \<and> pt_step r = pt_step e \<and> pt_id r \<noteq> i)
             (pb_entries db) then Inl (PgError ''23505'')
      else Inr ())"

definition insert_entry :: "payplan_db \<Rightarrow> plan_entry_row \<Rightarrow> (nat \<times> payplan_db) outcome" where
  "insert_entry db e =
     bindE (entry_checks db (pb_next_entry db) e) (\<lambda>_.
     bindE (ensureE (list_ex (\<lambda>p. pd_id p = pt_period e) (pb_periods db)) (PgError ''23503'')) (\<lambda>_.
       let n = pb_next_entry db
       in Inr (n, db\<lparr>pb_entries := pb_entries db @ [e\<lparr>pt_id := n\<rparr>], pb_next_entry := Suc n\<rparr>)))"

definition find_entry_row :: "payplan_db \<Rightarrow> nat \<Rightarrow> plan_entry_row outcome" where
  "find_entry_row db i =
     (case find (\<lambda>e. pt_id e = i) (pb_entries db) of None \<Rightarrow> Inl (StoreError StoreNotFound) | Some e \<Rightarrow> Inr e)"

definition save_entry :: "payplan_db \<Rightarrow> plan_entry_row \<Rightarrow> payplan_db outcome" where
  "save_entry db e =
     bindE (entry_checks db (pt_id e) e) (\<lambda>_.
       Inr (db\<lparr>pb_entries := map (\<lambda>r. if pt_id r = pt_id e then e else r) (pb_entries db)\<rparr>))"

definition delete_entry_row :: "payplan_db \<Rightarrow> nat \<Rightarrow> payplan_db" where
  "delete_entry_row db i = db\<lparr>pb_entries := filter (\<lambda>e. pt_id e \<noteq> i) (pb_entries db)\<rparr>"

section \<open>Reading a plan\<close>

definition load_entry :: "plan_entry_row \<Rightarrow> pay_plan_entry" where
  "load_entry e = \<lparr>pe_id = pt_id e, pe_grade = pt_grade e, pe_step = pt_step e,
     pe_monthly_amount = pt_amount e, pe_step_min_years = pt_min_years e\<rparr>"

definition entries_of_period :: "payplan_db \<Rightarrow> nat \<Rightarrow> pay_plan_entry list" where
  "entries_of_period db i = map load_entry (filter (\<lambda>e. pt_period e = i) (pb_entries db))"

definition load_period :: "plan_period_row \<Rightarrow> pay_plan_entry list \<Rightarrow> pay_plan_period" where
  "load_period p es = \<lparr>p_from = p_from p, p_to = p_to p, pp_id = pd_id p, pp_weekly_hours = pd_hours p,
     pp_contribution_rate = pd_rate p, pp_entries = es\<rparr>"

text \<open>\<open>Order("from_date DESC")\<close>; the active filter compares days.\<close>

definition find_by_id_with_periods :: "payplan_db \<Rightarrow> nat \<Rightarrow> gtime option \<Rightarrow> pay_plan outcome" where
  "find_by_id_with_periods db i active_on =
     bindE (find_plan db i) (\<lambda>r.
       let ps = sort_key (\<lambda>p. - local_day (p_from p)) (periods_of_plan db i);
           kept = (case active_on of None \<Rightarrow> ps
                   | Some d \<Rightarrow> filter (\<lambda>p. sql_active_on (local_day (p_from p)) (day_opt (p_to p)) (local_day d)) ps)
       in Inr \<lparr>pl_id = i, pl_org = pw_org r, pl_name = pw_name r,
               pl_periods = map (\<lambda>p. load_period p (sort_entries_natural (entries_of_period db (pd_id p)))) kept\<rparr>)"

definition get_pay_plan :: "payplan_db \<Rightarrow> nat \<Rightarrow> nat \<Rightarrow> gtime option \<Rightarrow> pay_plan outcome" where
  "get_pay_plan db i org active_on =
     (case find_by_id_with_periods db i active_on of
        Inl e \<Rightarrow> Inl (if is_store_error e StoreNotFound then not_found ''pay plan''
                     else internal_wrap e ''failed to fetch pay plan'')
      | Inr pl \<Rightarrow> if pl_org pl \<noteq> org then Inl (not_found ''pay plan'') else Inr pl)"

definition find_active_plan_period :: "payplan_db \<Rightarrow> nat \<Rightarrow> gtime \<Rightarrow> pay_plan_period outcome" where
  "find_active_plan_period db plan date =
     (case latest_covering None
             (map (\<lambda>p. load_period p (entries_of_period db (pd_id p))) (periods_of_plan db plan)) date of
        None \<Rightarrow> Inl (StoreError StoreNotFound) | Some p \<Rightarrow> Inr p)"

section \<open>Ownership\<close>

definition verify_pay_plan_ownership :: "payplan_db \<Rightarrow> nat \<Rightarrow> nat \<Rightarrow> plan_row outcome" where
  "verify_pay_plan_ownership db i org =
     (case find_plan db i of
        Inl e \<Rightarrow> Inl (if is_store_error e StoreNotFound then not_found ''pay plan''
                     else internal_wrap e ''failed to fetch pay plan'')
      | Inr r \<Rightarrow> bindE (verify_org_ownership (pw_org r) org ''pay plan'') (\<lambda>_. Inr r))"

definition verify_period_ownership :: "payplan_db \<Rightarrow> nat \<Rightarrow> nat \<Rightarrow> plan_period_row outcome" where
  "verify_period_ownership db i plan =
     (case find_period db i of
        Inl e \<Rightarrow> Inl (if is_store_error e StoreNotFound then not_found ''period''
                     else internal_wrap e ''failed to fetch period'')
      | Inr p \<Rightarrow> if pd_plan p \<noteq> plan then Inl (not_found ''period'') else Inr p)"

definition verify_entry_ownership :: "payplan_db \<Rightarrow> nat \<Rightarrow> nat \<Rightarrow> plan_entry_row outcome" where
  "verify_entry_ownership db i per =
     (case find_entry_row db i of
        Inl e \<Rightarrow> Inl (if is_store_error e StoreNotFound then not_found ''entry''
                     else internal_wrap e ''failed to fetch entry'')
      | Inr e \<Rightarrow> if pt_period e \<noteq> per then Inl (not_found ''entry'') else Inr e)"

section \<open>Validation\<close>

definition validate_pay_plan_period_fields ::
    "gtime \<Rightarrow> gtime option \<Rightarrow> f64 \<Rightarrow> int \<Rightarrow> unit outcome" where
  "validate_pay_plan_period_fields from to hours rate =
     (if fle hours (Fin 0) then Inl (bad_request ''weekly_hours must be > 0'')
      else if fless (Fin 168) hours then Inl (bad_request ''weekly_hours cannot exceed 168 hours per week'')
      else if rate < 0 \<or> 10000 < rate
        then Inl (bad_request ''employer_contribution_rate must be in [0, 10000] (hundredths of a percent)'')
      else if (case to of None \<Rightarrow> False | Some t \<Rightarrow> before (truncate_to_date t) (truncate_to_date from))
        then Inl (bad_request ''to must be on or after from'')
      else Inr ())"

definition validate_pay_plan_entry_fields ::
    "string \<Rightarrow> int \<Rightarrow> int \<Rightarrow> int option \<Rightarrow> unit outcome" where
  "validate_pay_plan_entry_fields grade step amount min_years =
     (if trim_space grade = [] then Inl (bad_request ''grade cannot be empty'')
      else if step < 1 then Inl (bad_request ''step must be >= 1'')
      else if amount < 0 then Inl (bad_request ''monthly_amount must be >= 0'')
      else if (case min_years of None \<Rightarrow> False | Some y \<Rightarrow> y < 0)
        then Inl (bad_request ''step_min_years must be >= 0'')
      else Inr ())"

definition validate_pay_plan_period_no_overlap ::
    "payplan_db \<Rightarrow> nat \<Rightarrow> gtime \<Rightarrow> gtime option \<Rightarrow> nat option \<Rightarrow> unit outcome" where
  "validate_pay_plan_period_no_overlap db plan from to exclude =
     validate_no_overlap (map (\<lambda>p. (pd_id p, period.truncate p)) (periods_of_plan db plan)) from to exclude"

section \<open>Plans\<close>

definition name_taken :: go_error where
  "name_taken = conflict ''pay plan with this name already exists in this organization''"

definition create_pay_plan :: "payplan_db \<Rightarrow> nat \<Rightarrow> string \<Rightarrow> plan_row outcome \<times> payplan_db" where
  "create_pay_plan db org name =
     (case validate_required_name name of
        Inl e \<Rightarrow> (Inl e, db)
      | Inr n \<Rightarrow>
          (case insert_plan db org n of
             Inl e \<Rightarrow> (Inl (if is_duplicate_key_error e then name_taken
                           else internal_wrap e ''failed to create pay plan''), db)
           | Inr (r, db') \<Rightarrow> (Inr r, db')))"

definition update_pay_plan :: "payplan_db \<Rightarrow> nat \<Rightarrow> nat \<Rightarrow> string option \<Rightarrow> plan_row outcome \<times> payplan_db" where
  "update_pay_plan db i org name =
     (case verify_pay_plan_ownership db i org of
        Inl e \<Rightarrow> (Inl e, db)
      | Inr r \<Rightarrow>
          if (case name of None \<Rightarrow> False | Some n \<Rightarrow> trim_space (trim_space n) = [])
          then (Inl (bad_request ''name cannot be empty or whitespace only''), db)
          else (let r' = (case name of None \<Rightarrow> r | Some n \<Rightarrow> r\<lparr>pw_name := trim_space n\<rparr>)
                in case save_plan db r' of
                     Inl e \<Rightarrow> (Inl (if is_duplicate_key_error e then name_taken
                                   else internal_wrap e ''failed to update pay plan''), db)
                   | Inr db' \<Rightarrow> (Inr r', db')))"

definition delete_pay_plan :: "payplan_db \<Rightarrow> nat \<Rightarrow> nat \<Rightarrow> unit outcome \<times> payplan_db" where
  "delete_pay_plan db i org =
     (case verify_pay_plan_ownership db i org of
        Inl e \<Rightarrow> (Inl e, db)
      | Inr _ \<Rightarrow>
          (case delete_plan db i of
             Inl e \<Rightarrow> (Inl (if is_foreign_key_violation e
                           then conflict ''pay plan is referenced by one or more employee contracts and cannot be deleted''
                           else internal_wrap e ''failed to delete pay plan''), db)
           | Inr db' \<Rightarrow> (Inr (), db')))"

section \<open>Periods\<close>

record plan_period_request =
  pq_from :: gtime
  pq_to :: "gtime option"
  pq_hours :: f64
  pq_rate :: int

text \<open>The overlap check and the insertion are one transaction.\<close>

definition create_plan_period ::
    "payplan_db \<Rightarrow> nat \<Rightarrow> nat \<Rightarrow> plan_period_request \<Rightarrow> nat outcome \<times> payplan_db" where
  "create_plan_period db plan org req =
     (case (bindE (verify_pay_plan_ownership db plan org) (\<lambda>_.
            bindE (validate_pay_plan_period_fields (pq_from req) (pq_to req) (pq_hours req) (pq_rate req)) (\<lambda>_.
            bindE (validate_pay_plan_period_no_overlap db plan (pq_from req) (pq_to req) None) (\<lambda>_.
            (case insert_period db plan (pq_from req) (pq_to req) (pq_hours req) (pq_rate req) of
               Inl e \<Rightarrow> Inl (internal_wrap e ''failed to create period'')
             | Inr x \<Rightarrow> Inr x)))))
      of Inl e \<Rightarrow> (Inl e, db) | Inr (n, db') \<Rightarrow> (Inr n, db'))"

definition update_plan_period ::
    "payplan_db \<Rightarrow> nat \<Rightarrow> nat \<Rightarrow> nat \<Rightarrow> plan_period_request \<Rightarrow> unit outcome \<times> payplan_db" where
  "update_plan_period db i plan org req =
     (case (bindE (verify_pay_plan_ownership db plan org) (\<lambda>_.
            bindE (verify_period_ownership db i plan) (\<lambda>p.
            bindE (validate_pay_plan_period_fields (pq_from req) (pq_to req) (pq_hours req) (pq_rate req)) (\<lambda>_.
            bindE (validate_pay_plan_period_no_overlap db plan (pq_from req) (pq_to req) (Some i)) (\<lambda>_.
            (case save_period db p (pq_from req) (pq_to req) (pq_hours req) (pq_rate req) of
               Inl e \<Rightarrow> Inl (internal_wrap e ''failed to update period'')
             | Inr x \<Rightarrow> Inr x))))))
      of Inl e \<Rightarrow> (Inl e, db) | Inr db' \<Rightarrow> (Inr (), db'))"

definition delete_plan_period :: "payplan_db \<Rightarrow> nat \<Rightarrow> nat \<Rightarrow> nat \<Rightarrow> unit outcome \<times> payplan_db" where
  "delete_plan_period db i plan org =
     (case (bindE (verify_pay_plan_ownership db plan org) (\<lambda>_. verify_period_ownership db i plan))
      of Inl e \<Rightarrow> (Inl e, db) | Inr _ \<Rightarrow> (Inr (), delete_period_row db i))"

section \<open>Entries\<close>

record plan_entry_request =
  pz_grade :: string
  pz_step :: int
  pz_amount :: int
  pz_min_years :: "int option"

definition entry_error :: "go_error \<Rightarrow> string \<Rightarrow> go_error" where
  "entry_error e what =
     (if is_duplicate_key_error e
      then conflict ''an entry with this grade and step already exists in this period''
      else internal_wrap e what)"

definition create_plan_entry ::
    "payplan_db \<Rightarrow> nat \<Rightarrow> nat \<Rightarrow> nat \<Rightarrow> plan_entry_request \<Rightarrow> nat outcome \<times> payplan_db" where
  "create_plan_entry db per plan org req =
     (case (bindE (verify_pay_plan_ownership db plan org) (\<lambda>_.
            bindE (verify_period_ownership db per plan) (\<lambda>_.
            bindE (validate_pay_plan_entry_fields (pz_grade req) (pz_step req) (pz_amount req) (pz_min_years req)) (\<lambda>_.
            (case insert_entry db \<lparr>pt_id = 0, pt_period = per, pt_grade = trim_space (pz_grade req),
                     pt_step = pz_step req, pt_amount = pz_amount req, pt_min_years = pz_min_years req\<rparr> of
               Inl e \<Rightarrow> Inl (entry_error e ''failed to create entry'')
             | Inr x \<Rightarrow> Inr x)))))
      of Inl e \<Rightarrow> (Inl e, db) | Inr (n, db') \<Rightarrow> (Inr n, db'))"

definition update_plan_entry ::
    "payplan_db \<Rightarrow> nat \<Rightarrow> nat \<Rightarrow> nat \<Rightarrow> nat \<Rightarrow> plan_entry_request \<Rightarrow> unit outcome \<times> payplan_db" where
  "update_plan_entry db i per plan org req =
     (case (bindE (verify_pay_plan_ownership db plan org) (\<lambda>_.
            bindE (verify_period_ownership db per plan) (\<lambda>_.
            bindE (verify_entry_ownership db i per) (\<lambda>e.
            bindE (validate_pay_plan_entry_fields (pz_grade req) (pz_step req) (pz_amount req) (pz_min_years req)) (\<lambda>_.
            (case save_entry db (e\<lparr>pt_grade := trim_space (pz_grade req), pt_step := pz_step req,
                     pt_amount := pz_amount req, pt_min_years := pz_min_years req\<rparr>) of
               Inl x \<Rightarrow> Inl (entry_error x ''failed to update entry'')
             | Inr db' \<Rightarrow> Inr db'))))))
      of Inl e \<Rightarrow> (Inl e, db) | Inr db' \<Rightarrow> (Inr (), db'))"

definition delete_plan_entry :: "payplan_db \<Rightarrow> nat \<Rightarrow> nat \<Rightarrow> nat \<Rightarrow> nat \<Rightarrow> unit outcome \<times> payplan_db" where
  "delete_plan_entry db i per plan org =
     (case (bindE (verify_pay_plan_ownership db plan org) (\<lambda>_.
            bindE (verify_period_ownership db per plan) (\<lambda>_. verify_entry_ownership db i per)))
      of Inl e \<Rightarrow> (Inl e, db) | Inr _ \<Rightarrow> (Inr (), delete_entry_row db i))"

section \<open>Import\<close>

text \<open>The key of the duplicate check, over the trimmed grade.\<close>

definition entry_key :: "pay_plan_entry \<Rightarrow> string" where
  "entry_key e = trim_space (pe_grade e) @ ''|'' @ itoa (pe_step e)"

fun validate_import_entries :: "string list \<Rightarrow> pay_plan_entry list \<Rightarrow> unit outcome" where
  "validate_import_entries seen [] = Inr ()"
| "validate_import_entries seen (e # es) =
     bindE (validate_pay_plan_entry_fields (pe_grade e) (pe_step e) (pe_monthly_amount e) (pe_step_min_years e)) (\<lambda>_.
     bindE (ensureE (entry_key e \<notin> set seen)
       (bad_request ''duplicate (grade, step) entries in the same imported period'')) (\<lambda>_.
       validate_import_entries (entry_key e # seen) es))"

fun validate_import :: "pay_plan_period list \<Rightarrow> pay_plan_period list \<Rightarrow> unit outcome" where
  "validate_import before_it [] = Inr ()"
| "validate_import before_it (p # ps) =
     bindE (validate_pay_plan_period_fields (p_from p) (p_to p) (pp_weekly_hours p) (pp_contribution_rate p)) (\<lambda>_.
     bindE (ensureE (\<not> list_ex (overlaps p) before_it) (bad_request ''imported periods overlap'')) (\<lambda>_.
     bindE (validate_import_entries [] (pp_entries p)) (\<lambda>_.
       validate_import (before_it @ [p]) ps)))"

fun import_entries :: "payplan_db \<Rightarrow> nat \<Rightarrow> pay_plan_entry list \<Rightarrow> payplan_db outcome" where
  "import_entries db per [] = Inr db"
| "import_entries db per (e # es) =
     (case insert_entry db \<lparr>pt_id = 0, pt_period = per, pt_grade = trim_space (pe_grade e), pt_step = pe_step e,
              pt_amount = pe_monthly_amount e, pt_min_years = pe_step_min_years e\<rparr> of
        Inl x \<Rightarrow> Inl (internal_wrap x ''failed to create entry'')
      | Inr (_, db') \<Rightarrow> import_entries db' per es)"

fun import_periods :: "payplan_db \<Rightarrow> nat \<Rightarrow> pay_plan_period list \<Rightarrow> payplan_db outcome" where
  "import_periods db plan [] = Inr db"
| "import_periods db plan (p # ps) =
     (case insert_period db plan (p_from p) (p_to p) (pp_weekly_hours p) (pp_contribution_rate p) of
        Inl x \<Rightarrow> Inl (internal_wrap x ''failed to create period'')
      | Inr (n, db') \<Rightarrow> bindE (import_entries db' n (pp_entries p)) (\<lambda>db''. import_periods db'' plan ps))"

text \<open>The plan of that name is emptied, or a new one made.\<close>

definition import_target :: "payplan_db \<Rightarrow> nat \<Rightarrow> string \<Rightarrow> (nat \<times> payplan_db) outcome" where
  "import_target db org name =
     (case find_by_name_and_org db name org of
        Some r \<Rightarrow> Inr (pw_id r, delete_periods_and_entries db (pw_id r))
      | None \<Rightarrow>
          (case insert_plan db org name of
             Inl e \<Rightarrow> Inl (internal_wrap e ''failed to create pay plan'')
           | Inr (r, db') \<Rightarrow> Inr (pw_id r, db')))"

text \<open>One transaction: whatever fails, the tables stay as they were.\<close>

definition import_pay_plan :: "payplan_db \<Rightarrow> nat \<Rightarrow> pay_plan \<Rightarrow> pay_plan outcome \<times> payplan_db" where
  "import_pay_plan db org data =
     (case (bindE (validate_required_name (pl_name data)) (\<lambda>name.
            bindE (import_target db org name) (\<lambda>(i, db1).
            bindE (validate_import [] (pl_periods data)) (\<lambda>_.
            bindE (import_periods db1 i (pl_periods data)) (\<lambda>db2.
            bindE (get_pay_plan db2 i org None) (\<lambda>pl. Inr (pl, db2)))))))
      of Inl e \<Rightarrow> (Inl e, db) | Inr (pl, db') \<Rightarrow> (Inr pl, db'))"

section \<open>Salary\<close>

definition calculate_salary ::
    "int \<Rightarrow> payplan_db \<Rightarrow> nat \<Rightarrow> string \<Rightarrow> int \<Rightarrow> f64 \<Rightarrow> gtime \<Rightarrow> int outcome" where
  "calculate_salary wild db plan grade step hours date =
     (case find_active_plan_period db plan date of
        Inl e \<Rightarrow> Inl (if is_store_error e StoreNotFound
                     then not_found ''active pay plan period for the given date''
                     else internal_wrap e ''failed to fetch pay plan period'')
      | Inr p \<Rightarrow>
          (case find_entry p grade step of
             Inl e \<Rightarrow> Inl (if is_store_error e StoreNotFound
                          then not_found ''pay plan entry for the given grade and step''
                          else internal_wrap e ''failed to fetch pay plan entry'')
           | Inr e \<Rightarrow> Inr (int_of_f64 wild (fround (fmul (f64_of_int (pe_monthly_amount e))
                          (fdiv hours (pp_weekly_hours p)))))))"

end
