(* ===== verification/Trimming.thy ===== *)
theory Trimming
  imports KitaPrelude
begin

text \<open>
  \<open>strings.TrimSpace\<close> is idempotent, and a string that begins and ends with a printing ASCII
  character is left as it is.
\<close>

lemma trim_seqs_None: "find (\<lambda>p. 0 < length p \<and> starts_with p (trim_seqs ws s)) ws = None"
proof (induction ws s rule: trim_seqs.induct)
  case (1 ws s)
  then show ?case
    by (cases "find (\<lambda>p. 0 < length p \<and> starts_with p s) ws") (simp_all add: trim_seqs.simps [of ws s])
qed

lemma trim_seqs_suffix: "\<exists>u. s = u @ trim_seqs ws s"
proof (induction ws s rule: trim_seqs.induct)
  case (1 ws s)
  show ?case
  proof (cases "find (\<lambda>p. 0 < length p \<and> starts_with p s) ws")
    case None
    then show ?thesis by (simp add: trim_seqs.simps [of ws s])
  next
    case (Some p)
    with "1.IH" obtain u where "drop (length p) s = u @ trim_seqs ws s"
      by (auto simp add: trim_seqs.simps [of ws s])
    then have "s = (take (length p) s @ u) @ trim_seqs ws s" by (metis append_assoc append_take_drop_id)
    then show ?thesis by blast
  qed
qed

lemma trim_right_prefix: "\<exists>u. s = trim_right s @ u"
proof -
  obtain u where "rev s = u @ trim_seqs (map rev space_seqs) (rev s)" using trim_seqs_suffix by blast
  then have "s = rev (trim_seqs (map rev space_seqs) (rev s)) @ rev u" by (metis rev_append rev_rev_ident)
  then show ?thesis by (auto simp add: trim_right_def)
qed

lemma trim_space_idem [simp]: "trim_space (trim_space s) = trim_space s"
proof -
  let ?l = "trim_left s" and ?t = "trim_space s"
  obtain u where u: "?l = ?t @ u" using trim_right_prefix by (auto simp add: trim_space_def)
  have "\<not> (0 < length p \<and> starts_with p ?t)" if "p \<in> set space_seqs" for p
  proof -
    have "\<not> (0 < length p \<and> starts_with p ?l)"
      using trim_seqs_None [of space_seqs s] that by (auto simp add: find_None_iff trim_left_def)
    then show ?thesis by (auto simp add: u starts_with_def)
  qed
  then have "find (\<lambda>p. 0 < length p \<and> starts_with p ?t) space_seqs = None" by (auto simp add: find_None_iff)
  then have "trim_left ?t = ?t" by (simp add: trim_left_def trim_seqs.simps [of _ ?t])
  moreover have "trim_right ?t = ?t" by (simp add: trim_space_def trim_right_def trim_seqs_idem)
  ultimately show ?thesis by (simp add: trim_space_def [of ?t])
qed

lemma trim_space_plain:
  assumes "\<And>p. p \<in> set space_seqs \<Longrightarrow> \<not> starts_with p s"
    and "\<And>p. p \<in> set space_seqs \<Longrightarrow> \<not> starts_with (rev p) (rev s)"
  shows "trim_space s = s"
proof -
  have "find (\<lambda>p. 0 < length p \<and> starts_with p s) space_seqs = None" using assms(1) by (auto simp add: find_None_iff)
  then have "trim_left s = s" by (simp add: trim_left_def trim_seqs.simps [of _ s])
  moreover have "find (\<lambda>p. 0 < length p \<and> starts_with p (rev s)) (map rev space_seqs) = None"
    using assms(2) by (auto simp add: find_None_iff)
  then have "trim_right s = s" by (simp add: trim_right_def trim_seqs.simps [of _ "rev s"])
  ultimately show ?thesis by (simp add: trim_space_def)
qed

definition edge_plain :: "string \<Rightarrow> bool" where
  "edge_plain s \<longleftrightarrow> s \<noteq> [] \<and> 33 \<le> (of_char (hd s) :: nat) \<and> (of_char (hd s) :: nat) < 128 \<and> 33 \<le> (of_char (last s) :: nat) \<and> (of_char (last s) :: nat) < 128"

lemma space_seqs_edges: 
  "p \<in> set space_seqs \<Longrightarrow> p \<noteq> [] \<and> \<not> (33 \<le> (of_char (hd p) :: nat) \<and> (of_char (hd p) :: nat) < 128) \<and> \<not> (33 \<le> (of_char (last p) :: nat) \<and> (of_char (last p) :: nat) < 128)"
  by (auto simp add: space_seqs_def byte_def)

lemma starts_with_hd: "starts_with p s \<Longrightarrow> p \<noteq> [] \<Longrightarrow> s \<noteq> [] \<and> hd p = hd s"
  by (cases p; cases s) (auto simp add: starts_with_def)

lemma trim_space_edge_plain: "edge_plain s \<Longrightarrow> trim_space s = s"
proof (rule trim_space_plain)
  fix p assume "edge_plain s" "p \<in> set space_seqs"
  then show "\<not> starts_with p s" and "\<not> starts_with (rev p) (rev s)"
    using space_seqs_edges [of p] starts_with_hd [of p s] starts_with_hd [of "rev p" "rev s"]
    by (auto simp add: edge_plain_def hd_rev)
qed

end
