(* ===== verification/TableLaws.thy ===== *)
theory TableLaws
  imports Users Trimming
begin

text \<open>
  Facts shared by the components whose tables are lists of rows with a key: looking a row up,
  replacing it, and the names the services accept.
\<close>

definition name_ok :: "string \<Rightarrow> bool" where
  "name_ok n \<longleftrightarrow> n \<noteq> [] \<and> trim_space n = n"

lemma validate_required_name_Inr: "validate_required_name name = Inr n \<Longrightarrow> name_ok n"
  by (auto simp add: validate_required_name_def Let_def name_ok_def split: if_splits)

lemma set_find_key: "distinct (map f xs) \<Longrightarrow> x \<in> set xs \<Longrightarrow> find (\<lambda>y. f y = f x) xs = Some x"
  by (induction xs) (auto simp add: image_iff)

lemma distinct_map_update:
  assumes "distinct (map f xs)" and "distinct (map g xs)"
    and "\<And>x. x \<in> set xs \<Longrightarrow> g x \<noteq> g r \<Longrightarrow> f x \<noteq> f r"
  shows "distinct (map f (map (\<lambda>x. if g x = g r then r else x) xs))"
proof -
  have "x = y" if "x \<in> set xs" "y \<in> set xs" "f (if g x = g r then r else x) = f (if g y = g r then r else y)" for x y
    using that assms(1) assms(3) [of x] assms(3) [of y] assms(2)
    by (auto simp add: distinct_map inj_on_def split: if_splits)
  then show ?thesis using assms(1) by (auto simp add: distinct_map inj_on_def)
qed

lemma map_update_same [simp]:
  "map f (map (\<lambda>x. if f x = f r then r else x) xs) = map f xs"
  by (induction xs) auto

end
