(* ===== verification/PayPlanSteps.thy ===== *)
theory PayPlanSteps
  imports PayPlans TableLaws
begin

text \<open>
  Requests on pay plans as a step relation, and the few kinds of row changes they are made of.
\<close>

section \<open>Requests\<close>

text \<open>
  \<open>reference_made\<close> and \<open>reference_gone\<close> are employee contracts that start or cease to name a plan;
  \<open>organizations_changed\<close> is the other side of the first foreign key.
\<close>

inductive payplan_step :: "payplan_db \<Rightarrow> payplan_db \<Rightarrow> bool" where
  plan_created: "create_pay_plan db org name = (x, db') \<Longrightarrow> payplan_step db db'"
| plan_updated: "update_pay_plan db i org new_name = (x, db') \<Longrightarrow> payplan_step db db'"
| plan_deleted: "delete_pay_plan db i org = (y, db') \<Longrightarrow> payplan_step db db'"
| period_created: "create_plan_period db i org req = (n, db') \<Longrightarrow> payplan_step db db'"
| period_updated: "update_plan_period db p i org req = (y, db') \<Longrightarrow> payplan_step db db'"
| period_deleted: "delete_plan_period db p i org = (y, db') \<Longrightarrow> payplan_step db db'"
| entry_created: "create_plan_entry db p i org ereq = (n, db') \<Longrightarrow> payplan_step db db'"
| entry_updated: "update_plan_entry db e p i org ereq = (y, db') \<Longrightarrow> payplan_step db db'"
| entry_deleted: "delete_plan_entry db e p i org = (y, db') \<Longrightarrow> payplan_step db db'"
| plan_imported: "import_pay_plan db org data = (z, db') \<Longrightarrow> payplan_step db db'"
| reference_made: "i \<in> pw_id ` set (pb_plans db) \<Longrightarrow> payplan_step db (db\<lparr>pb_used := i # pb_used db\<rparr>)"
| reference_gone: "payplan_step db (db\<lparr>pb_used := remove1 i (pb_used db)\<rparr>)"
| organizations_changed: "payplan_step db (db\<lparr>pb_orgs := os\<rparr>)"

section \<open>Changes of rows\<close>

definition entry_fields_ok :: "plan_entry_row \<Rightarrow> bool" where
  "entry_fields_ok e \<longleftrightarrow> pt_grade e \<noteq> [] \<and> trim_space (pt_grade e) = pt_grade e \<and> 1 \<le> pt_step e \<and>
     0 \<le> pt_amount e \<and> list_all (\<lambda>y. 0 \<le> y) (case pt_min_years e of None \<Rightarrow> [] | Some y \<Rightarrow> [y])"

inductive plan_write :: "payplan_db \<Rightarrow> payplan_db \<Rightarrow> bool" where
  w_orgs: "plan_write db (db\<lparr>pb_orgs := os\<rparr>)"
| w_used: "set us \<subseteq> set (pb_used db) \<union> pw_id ` set (pb_plans db) \<Longrightarrow> plan_write db (db\<lparr>pb_used := us\<rparr>)"
| w_plan: "insert_plan db org n = Inr (r, db') \<Longrightarrow> name_ok n \<Longrightarrow> plan_write db db'"
| w_rename: "save_plan db r' = Inr db' \<Longrightarrow> find_plan db (pw_id r') = Inr r \<Longrightarrow> pw_org r' = pw_org r \<Longrightarrow>
    pw_name r' = pw_name r \<or> name_ok (pw_name r') \<Longrightarrow> plan_write db db'"
| w_drop: "delete_plan db i = Inr db' \<Longrightarrow> plan_write db db'"
| w_empty: "plan_write db (delete_periods_and_entries db i)"
| w_period: "insert_period db i f t h r = Inr (n, db') \<Longrightarrow>
    validate_pay_plan_period_fields f t h r = Inr u \<Longrightarrow>
    (\<And>p. p \<in> set (periods_of_plan db i) \<Longrightarrow> days (local_day f) (day_opt t) \<inter> period_days p = {}) \<Longrightarrow>
    plan_write db db'"
| w_save_period: "save_period db p f t h r = Inr db' \<Longrightarrow> find_period db (pd_id p) = Inr p \<Longrightarrow>
    validate_pay_plan_period_fields f t h r = Inr u \<Longrightarrow>
    (\<And>q. q \<in> set (periods_of_plan db (pd_plan p)) \<Longrightarrow> pd_id q \<noteq> pd_id p \<Longrightarrow>
      days (local_day f) (day_opt t) \<inter> period_days q = {}) \<Longrightarrow>
    plan_write db db'"
| w_drop_period: "plan_write db (delete_period_row db i)"
| w_entry: "insert_entry db e = Inr (n, db') \<Longrightarrow> entry_fields_ok e \<Longrightarrow> plan_write db db'"
| w_save_entry: "save_entry db e' = Inr db' \<Longrightarrow> find_entry_row db (pt_id e') = Inr e \<Longrightarrow> pt_period e' = pt_period e \<Longrightarrow>
    entry_fields_ok e' \<Longrightarrow> plan_write db db'"
| w_drop_entry: "plan_write db (delete_entry_row db i)"

lemma validate_entry_Inr:
  "validate_pay_plan_entry_fields g s a y = Inr u \<Longrightarrow>
    entry_fields_ok \<lparr>pt_id = i, pt_period = p, pt_grade = trim_space g, pt_step = s, pt_amount = a, pt_min_years = y\<rparr>"
  by (auto simp add: validate_pay_plan_entry_fields_def entry_fields_ok_def split: if_splits option.splits)

lemma no_overlap_days:
  assumes "validate_pay_plan_period_no_overlap db i f t x = Inr u" and "p \<in> set (periods_of_plan db i)"
    and "x \<noteq> Some (pd_id p)"
  shows "days (local_day f) (day_opt t) \<inter> period_days p = {}"
proof -
  have "(pd_id p, period.truncate p) \<in> set (map (\<lambda>p. (pd_id p, period.truncate p)) (periods_of_plan db i))"
    using assms(2) by auto
  then have "days (local_day f) (day_opt t) \<inter> period_days (period.truncate p) = {}"
    using assms(1,3) validate_no_overlap_sound unfolding validate_pay_plan_period_no_overlap_def by blast
  then show ?thesis by (simp add: period_days_def period.defs)
qed

lemma find_period_id: "find_period db i = Inr p \<Longrightarrow> pd_id p = i \<and> p \<in> set (pb_periods db)"
  by (auto simp add: find_period_def find_Some_iff split: option.splits)

lemma find_entry_id: "find_entry_row db i = Inr p \<Longrightarrow> pt_id p = i \<and> p \<in> set (pb_entries db)"
  by (auto simp add: find_entry_row_def find_Some_iff split: option.splits)

lemma find_plan_id: "find_plan db i = Inr p \<Longrightarrow> pw_id p = i \<and> p \<in> set (pb_plans db)"
  by (auto simp add: find_plan_def find_Some_iff split: option.splits)

lemma verify_plan_Inr: "verify_pay_plan_ownership db i org = Inr r \<Longrightarrow> find_plan db i = Inr r \<and> pw_org r = org"
  by (auto simp add: verify_pay_plan_ownership_def verify_org_ownership_def ensureE_def result_simps
      split: sum.splits if_splits)

lemma verify_period_Inr: "verify_period_ownership db i plan = Inr p \<Longrightarrow> find_period db i = Inr p \<and> pd_plan p = plan"
  by (auto simp add: verify_period_ownership_def split: sum.splits if_splits)

lemma verify_entry_Inr: "verify_entry_ownership db i per = Inr e \<Longrightarrow> find_entry_row db i = Inr e \<and> pt_period e = per"
  by (auto simp add: verify_entry_ownership_def split: sum.splits if_splits)

section \<open>Import\<close>

lemma import_entries_writes:
  "import_entries db per es = Inr db' \<Longrightarrow> validate_import_entries seen es = Inr u \<Longrightarrow>
    plan_write\<^sup>*\<^sup>* db db' \<and> pb_periods db' = pb_periods db"
proof (induction db per es arbitrary: seen rule: import_entries.induct)
  case (2 db per e es)
  from "2.prems"(1) obtain n db1 where i: "insert_entry db \<lparr>pt_id = 0, pt_period = per, pt_grade = trim_space (pe_grade e),
      pt_step = pe_step e, pt_amount = pe_monthly_amount e, pt_min_years = pe_step_min_years e\<rparr> = Inr (n, db1)"
      "import_entries db1 per es = Inr db'" by (auto split: sum.splits)
  from "2.prems"(2) have v: "validate_pay_plan_entry_fields (pe_grade e) (pe_step e) (pe_monthly_amount e)
      (pe_step_min_years e) = Inr ()" "validate_import_entries (entry_key e # seen) es = Inr u"
    by (auto simp add: result_simps)
  have "plan_write db db1" using i(1) validate_entry_Inr [OF v(1)] by (rule w_entry)
  moreover have "pb_periods db1 = pb_periods db"
    using i(1) by (auto simp add: insert_entry_def Let_def result_simps)
  moreover have "plan_write\<^sup>*\<^sup>* db1 db' \<and> pb_periods db' = pb_periods db1"
    using "2.IH" i v(2) by blast
  ultimately show ?case by (auto intro: converse_rtranclp_into_rtranclp)
qed simp

lemma insert_period_periods:
  assumes "insert_period db plan f t h r = Inr (n, db')"
  shows "set (periods_of_plan db' plan) =
      insert (period.extend (stored_period f t) \<lparr>pd_id = n, pd_plan = plan, pd_hours = h, pd_rate = r\<rparr>)
        (set (periods_of_plan db plan))"
  using assms by (auto simp add: insert_period_def Let_def result_simps periods_of_plan_def period.defs)

lemma import_periods_writes:
  assumes "import_periods db plan ps = Inr db'" and "validate_import before_it ps = Inr u"
    and "\<And>p. p \<in> set (periods_of_plan db plan) \<Longrightarrow> \<exists>q \<in> set before_it. period_days q = period_days p"
  shows "plan_write\<^sup>*\<^sup>* db db'"
  using assms
proof (induction db plan ps arbitrary: before_it rule: import_periods.induct)
  case (2 db plan p ps)
  from "2.prems"(1) obtain n db1 db2 where i: "insert_period db plan (p_from p) (p_to p) (pp_weekly_hours p)
      (pp_contribution_rate p) = Inr (n, db1)" "import_entries db1 n (pp_entries p) = Inr db2"
      "import_periods db2 plan ps = Inr db'" by (auto simp add: result_simps split: sum.splits)
  from "2.prems"(2) have v: "validate_pay_plan_period_fields (p_from p) (p_to p) (pp_weekly_hours p) (pp_contribution_rate p) = Inr ()"
      "\<not> list_ex (overlaps p) before_it" "validate_import_entries [] (pp_entries p) = Inr ()"
      "validate_import (before_it @ [p]) ps = Inr u"
    by (auto simp add: result_simps)
  have "days (local_day (p_from p)) (day_opt (p_to p)) \<inter> period_days q = {}"
    if q: "q \<in> set (periods_of_plan db plan)" for q
  proof -
    obtain b where b: "b \<in> set before_it" "period_days b = period_days q" using "2.prems"(3) [OF q] by blast
    then have "\<not> overlaps p b" using v(2) by (auto simp add: list_ex_iff)
    then show ?thesis using periods_overlap_sound [of "p_from p" "p_to p" b] b(2) by (simp add: overlaps_periods_overlap)
  qed
  then have w: "plan_write db db1" using i(1) v(1) by (blast intro: w_period)
  note e = import_entries_writes [OF i(2) v(3)]
  have "plan_write\<^sup>*\<^sup>* db2 db'"
  proof (rule "2.IH" [OF i(1) refl i(3) v(4)])
    fix r assume "r \<in> set (periods_of_plan db2 plan)"
    then have "r \<in> set (periods_of_plan db1 plan)" using e by (simp add: periods_of_plan_def)
    then show "\<exists>q \<in> set (before_it @ [p]). period_days q = period_days r"
      using "2.prems"(3) insert_period_periods [OF i(1)] by (auto simp add: period_days_def period.defs)
  qed
  then show ?case using w e by (auto intro: converse_rtranclp_into_rtranclp rtranclp_trans)
qed simp

lemma import_target_writes:
  assumes "import_target db org name = Inr (i, db')" and "name_ok name"
    and "periods_of_plan db (pb_next_plan db) = []"
  shows "plan_write db db'" and "periods_of_plan db' i = []"
proof -
  have "db' = delete_periods_and_entries db i \<or>
      (\<exists>r. insert_plan db org name = Inr (r, db') \<and> i = pw_id r)"
    using assms(1) by (cases "find_by_name_and_org db name org"; cases "insert_plan db org name")
      (auto simp add: import_target_def)
  then consider (old) "db' = delete_periods_and_entries db i"
    | (new) r where "insert_plan db org name = Inr (r, db')" "i = pw_id r" by blast
  then have "plan_write db db' \<and> periods_of_plan db' i = []"
  proof cases
    case old
    then show ?thesis by (simp add: w_empty) (simp add: delete_periods_and_entries_def periods_of_plan_def)
  next
    case new
    then have "i = pb_next_plan db" "pb_periods db' = pb_periods db"
      by (auto simp add: insert_plan_def Let_def split: if_splits)
    then show ?thesis using new assms(2,3) by (auto simp add: periods_of_plan_def intro: w_plan)
  qed
  then show "plan_write db db'" and "periods_of_plan db' i = []" by simp_all
qed

lemma import_writes:
  assumes "import_pay_plan db org data = (x, db')" and "periods_of_plan db (pb_next_plan db) = []"
  shows "plan_write\<^sup>*\<^sup>* db db'"
proof (cases x)
  case (Inr pl)
  then obtain name i db1 where n: "validate_required_name (pl_name data) = Inr name"
      and t: "import_target db org name = Inr (i, db1)" and v: "validate_import [] (pl_periods data) = Inr ()"
      and p: "import_periods db1 i (pl_periods data) = Inr db'"
    using assms(1) by (auto simp add: import_pay_plan_def result_simps split: sum.splits prod.splits)
  note w = import_target_writes [OF t validate_required_name_Inr [OF n] assms(2)]
  have "plan_write\<^sup>*\<^sup>* db1 db'" using p v w(2) by (intro import_periods_writes) auto
  then show ?thesis using w(1) by (rule converse_rtranclp_into_rtranclp [rotated])
next
  case (Inl e)
  then show ?thesis using assms(1) by (auto simp add: import_pay_plan_def split: sum.splits prod.splits)
qed

section \<open>Every request is a sequence of row changes\<close>

lemma entry_row_with:
  "entry_fields_ok \<lparr>pt_id = i, pt_period = p, pt_grade = g, pt_step = s, pt_amount = a, pt_min_years = y\<rparr> \<Longrightarrow>
    entry_fields_ok (e\<lparr>pt_grade := g, pt_step := s, pt_amount := a, pt_min_years := y\<rparr>)"
  by (simp add: entry_fields_ok_def)

lemma step_writes:
  assumes "payplan_step db db'" and "periods_of_plan db (pb_next_plan db) = []"
  shows "plan_write\<^sup>*\<^sup>* db db'"
  using assms
proof (cases rule: payplan_step.cases)
  case (plan_created org name x)
  then show ?thesis using validate_required_name_Inr w_plan
    by (fastforce simp add: create_pay_plan_def split: sum.split_asm prod.splits)
next
  case (plan_updated i org new_name x)
  show ?thesis
  proof (cases "db' = db")
    case False
    then obtain r where r: "verify_pay_plan_ownership db i org = Inr r"
      using plan_updated by (auto simp add: update_pay_plan_def split: sum.split_asm)
    then obtain s where s: "save_plan db s = Inr db'"
        "s = (case new_name of None \<Rightarrow> r | Some n \<Rightarrow> r\<lparr>pw_name := trim_space n\<rparr>)"
        "\<And>n. new_name = Some n \<Longrightarrow> trim_space n \<noteq> []"
      using plan_updated False by (auto simp add: update_pay_plan_def Let_def split: sum.split_asm if_splits option.splits)
    have "plan_write db db'" using verify_plan_Inr [OF r] find_plan_id s
      by (intro w_rename [OF s(1), of r]) (auto simp add: name_ok_def split: option.splits)
    then show ?thesis by blast
  qed simp
next
  case (plan_deleted i org y)
  then show ?thesis by (auto simp add: delete_pay_plan_def split: sum.split_asm intro: w_drop)
next
  case (period_created i org req n)
  then show ?thesis
    by (auto simp add: create_plan_period_def result_simps split: sum.split_asm
        intro!: r_into_rtranclp w_period dest: no_overlap_days)
next
  case (period_updated p i org req y)
  show ?thesis
  proof (cases "db' = db")
    case False
    with period_updated obtain q where q: "verify_period_ownership db p i = Inr q"
        "validate_pay_plan_period_fields (pq_from req) (pq_to req) (pq_hours req) (pq_rate req) = Inr ()"
        "validate_pay_plan_period_no_overlap db i (pq_from req) (pq_to req) (Some p) = Inr ()"
        "save_period db q (pq_from req) (pq_to req) (pq_hours req) (pq_rate req) = Inr db'"
      by (auto simp add: update_plan_period_def result_simps split: sum.split_asm)
    note i = verify_period_Inr [OF q(1)]
    then have e: "pd_id q = p" "pd_plan q = i" using find_period_id by blast+
    have "plan_write db db'" using i q(2) no_overlap_days [OF q(3)]
      by (intro w_save_period [OF q(4)]) (auto simp add: e)
    then show ?thesis by blast
  qed simp
next
  case (period_deleted p i org y)
  then show ?thesis by (auto simp add: delete_plan_period_def split: sum.split_asm intro: w_drop_period)
next
  case (entry_created p i org ereq n)
  then show ?thesis
    by (auto simp add: create_plan_entry_def result_simps split: sum.split_asm
        intro!: r_into_rtranclp w_entry validate_entry_Inr)
next
  case (entry_updated e p i org ereq y)
  show ?thesis
  proof (cases "db' = db")
    case False
    with entry_updated obtain r q where "verify_pay_plan_ownership db i org = Inr r" "verify_period_ownership db p i = Inr q"
      by (auto simp add: update_plan_entry_def result_simps split: sum.split_asm)
    with False entry_updated obtain d where d: "verify_entry_ownership db e p = Inr d"
        "validate_pay_plan_entry_fields (pz_grade ereq) (pz_step ereq) (pz_amount ereq) (pz_min_years ereq) = Inr ()"
        "save_entry db (d\<lparr>pt_grade := trim_space (pz_grade ereq), pt_step := pz_step ereq,
           pt_amount := pz_amount ereq, pt_min_years := pz_min_years ereq\<rparr>) = Inr db'"
      by (auto simp add: update_plan_entry_def result_simps split: sum.split_asm)
    have "find_entry_row db (pt_id d) = Inr d" using verify_entry_Inr [OF d(1)] find_entry_id by blast
    then have "plan_write db db'" using entry_row_with [OF validate_entry_Inr [OF d(2)]]
      by (intro w_save_entry [OF d(3)]) auto
    then show ?thesis by blast
  qed simp
next
  case (entry_deleted e p i org y)
  then show ?thesis by (auto simp add: delete_plan_entry_def split: sum.split_asm intro: w_drop_entry)
next
  case (plan_imported org data z)
  then show ?thesis using import_writes assms(2) by blast
next
  case (reference_made i)
  then show ?thesis by (auto intro!: r_into_rtranclp w_used)
next
  case (reference_gone i)
  then show ?thesis using set_remove1_subset by (auto intro!: r_into_rtranclp w_used)
next
  case (organizations_changed os)
  then show ?thesis by (auto intro: w_orgs)
qed

end
