(* ===== verification/PayPlanLaws.thy ===== *)
theory PayPlanLaws
  imports PayPlanSteps
begin

text \<open>
  What the requests on pay plans keep of the tables: keys, names, references and fields of every
  row, and that no two periods of a plan share a day; then what an import leaves in the tables.
\<close>

section \<open>Rows\<close>

definition plans_ok :: "payplan_db \<Rightarrow> bool" where
  "plans_ok db \<longleftrightarrow> distinct (map pw_id (pb_plans db)) \<and>
     distinct (map (\<lambda>r. (pw_org r, pw_name r)) (pb_plans db)) \<and>
     (\<forall>r \<in> set (pb_plans db). pw_id r < pb_next_plan db \<and> name_ok (pw_name r)) \<and>
     set (pb_used db) \<subseteq> pw_id ` set (pb_plans db)"

definition period_row_ok :: "plan_period_row \<Rightarrow> bool" where
  "period_row_ok p \<longleftrightarrow> ordered (local_day (p_from p)) (day_opt (p_to p)) \<and>
     p_from p = midnight (local_day (p_from p)) \<and> p_to p = map_option midnight (day_opt (p_to p)) \<and>
     fless (Fin 0) (pd_hours p) \<and> fle (pd_hours p) (Fin 168) \<and> 0 \<le> pd_rate p \<and> pd_rate p \<le> 10000"

definition periods_ok :: "payplan_db \<Rightarrow> bool" where
  "periods_ok db \<longleftrightarrow> (\<forall>p \<in> set (pb_periods db). pd_plan p \<in> pw_id ` set (pb_plans db) \<and> period_row_ok p)"

definition entry_ints_ok :: "plan_entry_row \<Rightarrow> bool" where
  "entry_ints_ok e \<longleftrightarrow> in_int4 (pt_step e) \<and> in_int4 (pt_amount e) \<and>
     list_all in_int4 (case pt_min_years e of None \<Rightarrow> [] | Some y \<Rightarrow> [y])"

definition entry_slot :: "plan_entry_row \<Rightarrow> nat \<times> string \<times> int" where
  "entry_slot e = (pt_period e, pt_grade e, pt_step e)"

definition entries_ok :: "payplan_db \<Rightarrow> bool" where
  "entries_ok db \<longleftrightarrow> distinct (map pt_id (pb_entries db)) \<and> distinct (map entry_slot (pb_entries db)) \<and>
     (\<forall>e \<in> set (pb_entries db). pt_id e < pb_next_entry db \<and> pt_period e \<in> pd_id ` set (pb_periods db) \<and>
       entry_fields_ok e \<and> entry_ints_ok e)"

definition plan_rows_ok :: "payplan_db \<Rightarrow> bool" where
  "plan_rows_ok db \<longleftrightarrow> plans_ok db \<and> periods_ok db \<and> entries_ok db"

lemma insert_plan_Inr:
  assumes "insert_plan db org n = Inr (r, db')"
  shows "r = \<lparr>pw_id = pb_next_plan db, pw_org = org, pw_name = n\<rparr>"
    and "db' = db\<lparr>pb_plans := pb_plans db @ [r], pb_next_plan := Suc (pb_next_plan db)\<rparr>"
    and "(org, n) \<notin> (\<lambda>r. (pw_org r, pw_name r)) ` set (pb_plans db)"
  using assms by (auto simp add: insert_plan_def Let_def list_ex_iff split: if_splits)

lemma save_plan_Inr:
  assumes "save_plan db r = Inr db'"
  shows "db' = db\<lparr>pb_plans := map (\<lambda>s. if pw_id s = pw_id r then r else s) (pb_plans db)\<rparr>"
    and "\<And>s. s \<in> set (pb_plans db) \<Longrightarrow> pw_id s \<noteq> pw_id r \<Longrightarrow> (pw_org s, pw_name s) \<noteq> (pw_org r, pw_name r)"
  using assms by (auto simp add: save_plan_def list_ex_iff split: if_splits)

lemma insert_period_Inr:
  assumes "insert_period db i f t h r = Inr (n, db')"
  shows "n = pb_next_period db" and "i \<in> pw_id ` set (pb_plans db)"
    and "db' = db\<lparr>pb_periods := pb_periods db @ [period.extend (stored_period f t)
        \<lparr>pd_id = n, pd_plan = i, pd_hours = h, pd_rate = r\<rparr>], pb_next_period := Suc n\<rparr>"
    and "fless (Fin 0) h" "fle h (Fin 168)" "0 \<le> r" "r \<le> 10000"
  using assms by (auto simp add: insert_period_def Let_def result_simps list_ex_iff period_checks_def split: if_splits)

lemma save_period_Inr:
  assumes "save_period db p f t h r = Inr db'"
  shows "db' = db\<lparr>pb_periods := map (\<lambda>q. if pd_id q = pd_id p
        then p\<lparr>p_from := p_from (stored_period f t), p_to := p_to (stored_period f t), pd_hours := h, pd_rate := r\<rparr>
        else q) (pb_periods db)\<rparr>"
    and "fless (Fin 0) h" "fle h (Fin 168)" "0 \<le> r" "r \<le> 10000"
  using assms by (auto simp add: save_period_def Let_def result_simps period_checks_def split: if_splits)

lemma entry_checks_Inr:
  "entry_checks db i e = Inr u \<Longrightarrow> entry_ints_ok e \<and>
    (\<forall>r \<in> set (pb_entries db). pt_id r \<noteq> i \<longrightarrow> entry_slot r \<noteq> entry_slot e)"
  by (auto simp add: entry_checks_def entry_ints_ok_def entry_slot_def list_ex_iff split: if_splits)

lemma insert_entry_Inr:
  assumes "insert_entry db e = Inr (n, db')"
  shows "n = pb_next_entry db" and "pt_period e \<in> pd_id ` set (pb_periods db)"
    and "db' = db\<lparr>pb_entries := pb_entries db @ [e\<lparr>pt_id := n\<rparr>], pb_next_entry := Suc n\<rparr>"
    and "entry_checks db n e = Inr ()"
  using assms by (force simp add: insert_entry_def Let_def result_simps list_ex_iff)+

lemma save_entry_Inr:
  assumes "save_entry db e = Inr db'"
  shows "db' = db\<lparr>pb_entries := map (\<lambda>r. if pt_id r = pt_id e then e else r) (pb_entries db)\<rparr>"
    and "entry_checks db (pt_id e) e = Inr ()"
  using assms by (auto simp add: save_entry_def result_simps)

lemma delete_plan_Inr:
  assumes "delete_plan db i = Inr db'"
  shows "db' = (delete_periods_and_entries db i)\<lparr>pb_plans := filter (\<lambda>r. pw_id r \<noteq> i) (pb_plans db)\<rparr>"
    and "i \<notin> set (pb_used db)"
  using assms by (auto simp add: delete_plan_def Let_def delete_periods_and_entries_def split: if_splits)

lemma validate_period_fields_Inr:
  "validate_pay_plan_period_fields f t h r = Inr u \<Longrightarrow> ordered (local_day f) (day_opt t)"
  by (cases t) (auto simp add: validate_pay_plan_period_fields_def ordered_def truncate_to_date_eq split: if_splits)

section \<open>Each change keeps them\<close>

lemma write_plans_ok:
  assumes "plan_write db db'" and "plans_ok db"
  shows "plans_ok db'"
  using assms
proof (cases rule: plan_write.cases)
  case (w_plan org n r)
  note i = insert_plan_Inr [OF w_plan(1)]
  have "pb_next_plan db \<notin> pw_id ` set (pb_plans db)" using assms(2) by (auto simp add: plans_ok_def)
  then show ?thesis using assms(2) i w_plan(2) by (auto simp add: plans_ok_def less_Suc_eq)
next
  case (w_rename r' r)
  note i = save_plan_Inr [OF w_rename(1)]
  have r: "pw_id r = pw_id r'" "r \<in> set (pb_plans db)" using find_plan_id [OF w_rename(2)] by auto
  have p: "pb_plans db' = map (\<lambda>s. if pw_id s = pw_id r' then r' else s) (pb_plans db)"
    and same: "pb_next_plan db' = pb_next_plan db" "pb_used db' = pb_used db" by (simp_all add: i(1))
  have "name_ok (pw_name r')" using assms(2) r w_rename(4) by (auto simp add: plans_ok_def)
  moreover have "distinct (map (\<lambda>r. (pw_org r, pw_name r)) (pb_plans db'))"
    unfolding p using assms(2) i(2) by (intro distinct_map_update) (auto simp add: plans_ok_def)
  moreover have "map pw_id (pb_plans db') = map pw_id (pb_plans db)" unfolding p by (rule map_update_same)
  moreover from this have "pw_id ` set (pb_plans db') = pw_id ` set (pb_plans db)" by (metis set_map)
  moreover have "\<forall>r \<in> set (pb_plans db'). pw_id r < pb_next_plan db \<and> name_ok (pw_name r)"
    using assms(2) calculation(1) r by (auto simp add: i(1) plans_ok_def)
  ultimately show ?thesis using assms(2) by (simp only: plans_ok_def same)
next
  case (w_drop i)
  show ?thesis using assms(2) delete_plan_Inr [OF w_drop]
    by (auto simp add: plans_ok_def delete_periods_and_entries_def distinct_map_filter)
next
  case (w_period i f t h r n u)
  show ?thesis using assms(2) insert_period_Inr [OF w_period(1)] by (simp add: plans_ok_def)
next
  case (w_save_period p f t h r u)
  show ?thesis using assms(2) save_period_Inr [OF w_save_period(1)] by (simp add: plans_ok_def)
next
  case (w_entry e n)
  show ?thesis using assms(2) insert_entry_Inr [OF w_entry(1)] by (simp add: plans_ok_def)
next
  case (w_save_entry e' e)
  show ?thesis using assms(2) save_entry_Inr [OF w_save_entry(1)] by (simp add: plans_ok_def)
qed (auto simp add: plans_ok_def delete_periods_and_entries_def delete_period_row_def delete_entry_row_def)

lemma write_periods_ok:
  assumes "plan_write db db'" and "periods_ok db"
  shows "periods_ok db'"
  using assms
proof (cases rule: plan_write.cases)
  case (w_plan org n r)
  show ?thesis using assms(2) insert_plan_Inr [OF w_plan(1)] by (auto simp add: periods_ok_def)
next
  case (w_rename r' r)
  have p: "pb_plans db' = map (\<lambda>s. if pw_id s = pw_id r' then r' else s) (pb_plans db)" "pb_periods db' = pb_periods db"
    by (simp_all add: save_plan_Inr(1) [OF w_rename(1)])
  then have "map pw_id (pb_plans db') = map pw_id (pb_plans db)" by (simp only: map_update_same)
  moreover from this have "pw_id ` set (pb_plans db') = pw_id ` set (pb_plans db)" by (metis set_map)
  ultimately show ?thesis using assms(2) p(2) by (simp add: periods_ok_def)
next
  case (w_drop i)
  show ?thesis using assms(2) delete_plan_Inr [OF w_drop]
    by (auto simp add: periods_ok_def delete_periods_and_entries_def)
next
  case (w_period i f t h r n u)
  note x = insert_period_Inr [OF w_period(1)]
  show ?thesis using assms(2) x validate_period_fields_Inr [OF w_period(2)]
    by (auto simp add: periods_ok_def period_row_ok_def period.defs)
next
  case (w_save_period p f t h r u)
  have "pd_plan p \<in> pw_id ` set (pb_plans db)"
    using assms(2) find_period_id [OF w_save_period(2)] by (auto simp add: periods_ok_def)
  then show ?thesis
    using assms(2) save_period_Inr [OF w_save_period(1)] validate_period_fields_Inr [OF w_save_period(3)]
    by (auto simp add: periods_ok_def period_row_ok_def)
next
  case (w_entry e n)
  show ?thesis using assms(2) insert_entry_Inr [OF w_entry(1)] by (simp add: periods_ok_def)
next
  case (w_save_entry e' e)
  show ?thesis using assms(2) save_entry_Inr [OF w_save_entry(1)] by (simp add: periods_ok_def)
qed (auto simp add: periods_ok_def delete_periods_and_entries_def delete_period_row_def delete_entry_row_def)

lemma write_entries_ok:
  assumes "plan_write db db'" and "entries_ok db"
  shows "entries_ok db'"
  using assms
proof (cases rule: plan_write.cases)
  case (w_plan org n r)
  show ?thesis using assms(2) insert_plan_Inr [OF w_plan(1)] by (simp add: entries_ok_def)
next
  case (w_rename r' r)
  show ?thesis using assms(2) save_plan_Inr [OF w_rename(1)] by (simp add: entries_ok_def)
next
  case (w_drop i)
  show ?thesis using assms(2) delete_plan_Inr [OF w_drop]
    by (auto simp add: entries_ok_def delete_periods_and_entries_def distinct_map_filter periods_of_plan_def)
next
  case (w_empty i)
  then show ?thesis using assms(2)
    by (auto simp add: entries_ok_def delete_periods_and_entries_def distinct_map_filter periods_of_plan_def)
next
  case (w_period i f t h r n u)
  show ?thesis using assms(2) insert_period_Inr [OF w_period(1)] by (auto simp add: entries_ok_def)
next
  case (w_save_period p f t h r u)
  have "map pd_id (pb_periods db') = map pd_id (pb_periods db)"
    by (auto simp add: save_period_Inr(1) [OF w_save_period(1)])
  then have "pd_id ` set (pb_periods db') = pd_id ` set (pb_periods db)" by (metis set_map)
  then show ?thesis using assms(2) save_period_Inr [OF w_save_period(1)] by (simp add: entries_ok_def)
next
  case (w_entry e n)
  note i = insert_entry_Inr [OF w_entry(1)] and c = entry_checks_Inr [OF insert_entry_Inr(4) [OF w_entry(1)]]
  have "entry_slot e \<notin> entry_slot ` set (pb_entries db)" using c assms(2) i(1) by (fastforce simp add: entries_ok_def)
  moreover have "pb_next_entry db \<notin> pt_id ` set (pb_entries db)" using assms(2) by (auto simp add: entries_ok_def)
  ultimately show ?thesis using assms(2) i c w_entry(2)
    by (auto simp add: entries_ok_def less_Suc_eq entry_slot_def entry_fields_ok_def entry_ints_ok_def)
next
  case (w_save_entry e' e)
  note i = save_entry_Inr [OF w_save_entry(1)] and c = entry_checks_Inr [OF save_entry_Inr(2) [OF w_save_entry(1)]]
  have e: "pt_id e = pt_id e'" "e \<in> set (pb_entries db)" using find_entry_id [OF w_save_entry(2)] by auto
  have p: "pb_entries db' = map (\<lambda>r. if pt_id r = pt_id e' then e' else r) (pb_entries db)"
    and same: "pb_next_entry db' = pb_next_entry db" "pb_periods db' = pb_periods db" by (simp_all add: i(1))
  from p have "map pt_id (pb_entries db') = map pt_id (pb_entries db)" by (simp only: map_update_same)
  moreover have "distinct (map entry_slot (pb_entries db'))"
    unfolding p using assms(2) c by (intro distinct_map_update) (auto simp add: entries_ok_def)
  moreover have "\<forall>d \<in> set (pb_entries db'). pt_id d < pb_next_entry db \<and> pt_period d \<in> pd_id ` set (pb_periods db) \<and>
       entry_fields_ok d \<and> entry_ints_ok d"
  proof
    fix d assume "d \<in> set (pb_entries db')"
    then consider "d = e'" | "d \<in> set (pb_entries db)" by (auto simp add: i(1) split: if_splits)
    then show "pt_id d < pb_next_entry db \<and> pt_period d \<in> pd_id ` set (pb_periods db) \<and> entry_fields_ok d \<and> entry_ints_ok d"
      using assms(2) e c w_save_entry(3,4) unfolding entries_ok_def by cases metis+
  qed
  ultimately show ?thesis using assms(2) by (simp only: entries_ok_def same)
qed (auto simp add: entries_ok_def delete_period_row_def delete_entry_row_def distinct_map_filter)

lemma writes_rows_ok: "plan_write\<^sup>*\<^sup>* db db' \<Longrightarrow> plan_rows_ok db \<Longrightarrow> plan_rows_ok db'"
  by (induction rule: rtranclp_induct) (auto simp add: plan_rows_ok_def intro: write_plans_ok write_periods_ok write_entries_ok)

section \<open>Periods as spans\<close>

definition plan_span :: "plan_period_row \<Rightarrow> span" where
  "plan_span p = \<lparr>sp_id = pd_id p, sp_owner = pd_plan p, sp_from = local_day (p_from p), sp_to = day_opt (p_to p)\<rparr>"

definition plan_spans :: "payplan_db \<Rightarrow> span_table" where
  "plan_spans db = (pb_next_period db, map plan_span (pb_periods db))"

lemma plan_span_simps [simp]:
  "sp_id (plan_span p) = pd_id p" "sp_owner (plan_span p) = pd_plan p" "span_days (plan_span p) = period_days p"
  by (simp_all add: plan_span_def span_days_def period_days_def)

lemma write_spans:
  assumes "plan_write db db'" and "spans_ok (plan_spans db)"
  shows "span_change\<^sup>*\<^sup>* (plan_spans db) (plan_spans db')"
  using assms
proof (cases rule: plan_write.cases)
  case (w_plan org n r)
  then show ?thesis using insert_plan_Inr [OF w_plan(1)] by (simp add: plan_spans_def)
next
  case (w_rename r' r)
  then show ?thesis using save_plan_Inr [OF w_rename(1)] by (simp add: plan_spans_def)
next
  case (w_drop i)
  have "plan_spans db' = (fst (plan_spans db), filter (\<lambda>s. sp_owner s \<noteq> i) (snd (plan_spans db)))"
    using delete_plan_Inr [OF w_drop] by (simp add: plan_spans_def delete_periods_and_entries_def filter_map comp_def)
  then show ?thesis using span_removed by (simp add: plan_spans_def r_into_rtranclp)
next
  case (w_empty i)
  have "plan_spans db' = (fst (plan_spans db), filter (\<lambda>s. sp_owner s \<noteq> i) (snd (plan_spans db)))"
    using w_empty by (simp add: plan_spans_def delete_periods_and_entries_def filter_map comp_def)
  then show ?thesis using span_removed by (simp add: plan_spans_def r_into_rtranclp)
next
  case (w_drop_period i)
  have "plan_spans db' = (fst (plan_spans db), filter (\<lambda>s. sp_id s \<noteq> i) (snd (plan_spans db)))"
    using w_drop_period by (simp add: plan_spans_def delete_period_row_def filter_map comp_def)
  then show ?thesis using span_removed by (simp add: plan_spans_def r_into_rtranclp)
next
  case (w_period i f t h r n u)
  note x = insert_period_Inr [OF w_period(1)]
  have e: "plan_spans db' = (Suc (pb_next_period db), map plan_span (pb_periods db) @
      [\<lparr>sp_id = pb_next_period db, sp_owner = i, sp_from = local_day f, sp_to = day_opt t\<rparr>])"
    by (simp add: x(1,3) plan_spans_def plan_span_def period.defs)
  have "days (local_day f) (day_opt t) \<inter> span_days s = {}"
    if s: "s \<in> set (map plan_span (pb_periods db))" "sp_owner s = i" for s
  proof -
    obtain q where "q \<in> set (periods_of_plan db i)" "s = plan_span q" using s by (auto simp add: periods_of_plan_def)
    then show ?thesis by (simp add: w_period(3))
  qed
  then have "span_change (plan_spans db) (plan_spans db')"
    unfolding e plan_spans_def [of db] by (rule span_added)
  then show ?thesis by blast
next
  case (w_save_period p f t h r u)
  note x = save_period_Inr [OF w_save_period(1)] and p = find_period_id [OF w_save_period(2)]
  have inj: "inj_on pd_id (set (pb_periods db))"
    using assms(2) by (simp add: spans_ok_def plan_spans_def distinct_map comp_def)
  have e: "plan_spans db' = (pb_next_period db, map (move_span (pd_id p) (local_day f) (day_opt t)) (map plan_span (pb_periods db)))"
  proof -
    have "plan_span (if pd_id q = pd_id p then p\<lparr>p_from := p_from (stored_period f t),
         p_to := p_to (stored_period f t), pd_hours := h, pd_rate := r\<rparr> else q)
        = move_span (pd_id p) (local_day f) (day_opt t) (plan_span q)" if "q \<in> set (pb_periods db)" for q
    proof (cases "pd_id q = pd_id p")
      case True
      then have "q = p" using inj that p by (auto dest: inj_onD)
      then show ?thesis by (simp add: plan_span_def move_span_def)
    qed (simp add: move_span_def)
    then show ?thesis by (simp add: plan_spans_def x(1))
  qed
  have "span_change (plan_spans db) (plan_spans db')"
    unfolding e plan_spans_def [of db]
  proof (rule span_moved [where w = "pd_plan p"])
    fix s assume s: "s \<in> set (map plan_span (pb_periods db))" "sp_id s = pd_id p"
    then have "s = plan_span p" using p inj by (auto dest: inj_onD)
    then show "sp_owner s = pd_plan p" by simp
  next
    fix s assume "s \<in> set (map plan_span (pb_periods db))" "sp_owner s = pd_plan p" "sp_id s \<noteq> pd_id p"
    then obtain q where "q \<in> set (periods_of_plan db (pd_plan p))" "pd_id q \<noteq> pd_id p" "s = plan_span q"
      by (auto simp add: periods_of_plan_def)
    then show "days (local_day f) (day_opt t) \<inter> span_days s = {}" by (simp add: w_save_period(4))
  qed
  then show ?thesis by blast
next
  case (w_entry e n)
  then show ?thesis using insert_entry_Inr [OF w_entry(1)] by (simp add: plan_spans_def)
next
  case (w_save_entry e' e)
  then show ?thesis using save_entry_Inr [OF w_save_entry(1)] by (simp add: plan_spans_def)
qed (simp_all add: plan_spans_def delete_entry_row_def)

lemma writes_spans:
  assumes "plan_write\<^sup>*\<^sup>* db db'" and "spans_ok (plan_spans db)"
  shows "span_change\<^sup>*\<^sup>* (plan_spans db) (plan_spans db')"
  using assms
proof (induction rule: rtranclp_induct)
  case (step e f)
  then show ?case using write_spans span_changes_ok by (blast intro: rtranclp_trans)
qed simp

lemma no_periods_of_next: "plan_rows_ok db \<Longrightarrow> periods_of_plan db (pb_next_plan db) = []"
  by (fastforce simp add: plan_rows_ok_def plans_ok_def periods_ok_def periods_of_plan_def filter_empty_conv)

interpretation pay_plans: span_keeper payplan_step plan_rows_ok plan_spans
proof
  fix d e assume s: "payplan_step d e" "plan_rows_ok d"
  then have w: "plan_write\<^sup>*\<^sup>* d e" by (simp add: step_writes no_periods_of_next)
  show "plan_rows_ok e" using writes_rows_ok [OF w s(2)] .
  show "spans_ok (plan_spans d) \<Longrightarrow> span_change\<^sup>*\<^sup>* (plan_spans d) (plan_spans e)" by (rule writes_spans [OF w])
qed

end
