(* ===== verification/PayPlanImport.thy ===== *)
theory PayPlanImport
  imports PayPlanLaws "HOL-Library.Product_Lexorder"
begin

text \<open>
  The order in which entries are returned, and what an import leaves in the tables: first the
  rows it appends, then what reading them back gives.
\<close>

section \<open>The natural order of entries\<close>

text \<open>The comparison is the lexicographic order of prefix, number, suffix and step.\<close>

definition entry_rank :: "pay_plan_entry \<Rightarrow> (string \<times> int \<times> string) \<times> int" where
  "entry_rank e = (split_grade (pe_grade e), pe_step e)"

lemma compare_go_simps:
  "compare_go x y = 0 \<longleftrightarrow> x = y" "compare_go x y \<le> 0 \<longleftrightarrow> x \<le> y" "compare_go x y < 0 \<longleftrightarrow> x < y"
  by (auto simp add: compare_go_def)

lemma compare_grade_less_eq:
  "compare_grade a b \<le> 0 \<longleftrightarrow> split_grade a \<le> split_grade b"
  "compare_grade a b = 0 \<longleftrightarrow> split_grade a = split_grade b"
  by (auto simp add: compare_grade_def compare_go_simps less_eq_prod_def less_prod_def split: prod.splits)

lemma compare_entries_rank: "compare_entries a b \<le> 0 \<longleftrightarrow> entry_rank a \<le> entry_rank b"
proof (cases "compare_grade (pe_grade a) (pe_grade b) = 0")
  case True
  then show ?thesis using compare_grade_less_eq(2) [of "pe_grade a" "pe_grade b"]
    by (auto simp add: compare_entries_def entry_rank_def less_eq_prod_def compare_go_simps)
next
  case False
  then show ?thesis
    using compare_grade_less_eq [of "pe_grade a" "pe_grade b"]
    by (auto simp add: compare_entries_def entry_rank_def less_eq_prod_def less_le)
qed

lemma sort_entries_natural_rank: "sort_entries_natural es = sort_key entry_rank es"
proof -
  have "insert_entry_sorted e ds = insort_key entry_rank e ds" for e ds
    by (induction ds) (simp_all add: compare_entries_rank)
  then show ?thesis by (simp add: sort_entries_natural_def sort_key_def fun_eq_iff cong: foldr_cong)
qed

lemma insort_key_map:
  assumes "\<And>x. f (g x) = h x"
  shows "map g (insort_key h x xs) = insort_key f (g x) (map g xs)"
  by (induction xs) (simp_all add: assms)

lemma sort_key_map:
  assumes "\<And>x. f (g x) = h x"
  shows "map g (sort_key h xs) = sort_key f (map g xs)"
  by (induction xs) (simp_all add: insort_key_map [of f g h, OF assms])

lemma sort_key_of_sorted: "sorted (map f xs) \<Longrightarrow> sort_key f xs = xs"
  by (induction xs) (simp_all add: insort_is_Cons)

section \<open>Keys of the duplicate check\<close>

lemma digits_no_bar: "CHR ''|'' \<notin> set (digits_of n)"
proof (induction n rule: digits_of.induct)
  case (1 n)
  have "byte (48 + n mod 10) \<noteq> CHR ''|''"
  proof
    assume "byte (48 + n mod 10) = CHR ''|''"
    then have "(of_char (byte (48 + n mod 10)) :: nat) = of_char (CHR ''|'')" by simp
    then show False by (simp add: byte_def)
  qed
  moreover have "n < 10 \<Longrightarrow> n mod 10 = n" by simp
  ultimately show ?case using 1 by (cases "n < 10") (auto simp add: digits_of.simps [of n])
qed

lemma itoa_no_bar: "CHR ''|'' \<notin> set (itoa i)"
  using digits_no_bar by (auto simp add: itoa_def)

lemma digits_value_digits_of: "digits_value (digits_of n) = n"
proof (induction n rule: digits_of.induct)
  case (1 n)
  show ?case
  proof (cases "n < 10")
    case True
    then show ?thesis by (simp add: digits_of.simps [of n] digits_value_def byte_def)
  next
    case False
    then show ?thesis using 1 by (simp add: digits_of.simps [of n] digits_value_def byte_def)
  qed
qed

lemma itoa_inject:
  assumes "0 \<le> i" and "0 \<le> j" and "itoa i = itoa j"
  shows "i = j"
proof -
  have "digits_of (nat i) = digits_of (nat j)" using assms by (simp add: itoa_def)
  then have "nat i = nat j" by (metis digits_value_digits_of)
  then show ?thesis using assms by simp
qed

lemma split_last_bar:
  assumes "a @ ''|'' @ x = b @ ''|'' @ y" and "CHR ''|'' \<notin> set x" and "CHR ''|'' \<notin> set y"
  shows "a = b \<and> x = y"
proof -
  have "takeWhile (\<lambda>c. c \<noteq> CHR ''|'') (rev (a @ ''|'' @ x)) = rev x"
    "takeWhile (\<lambda>c. c \<noteq> CHR ''|'') (rev (b @ ''|'' @ y)) = rev y"
    using assms(2,3) by (simp_all add: takeWhile_append takeWhile_eq_all_conv)
  then have "rev x = rev y" using assms(1) by metis
  then show ?thesis using assms(1) by simp
qed

lemma entry_key_inject:
  assumes "entry_key d = entry_key e" and "0 \<le> pe_step d" and "0 \<le> pe_step e"
  shows "trim_space (pe_grade d) = trim_space (pe_grade e) \<and> pe_step d = pe_step e"
  using split_last_bar [of "trim_space (pe_grade d)" "itoa (pe_step d)" "trim_space (pe_grade e)" "itoa (pe_step e)"]
    assms itoa_no_bar itoa_inject by (auto simp add: entry_key_def)

section \<open>The rows an import appends\<close>

fun entry_rows :: "nat \<Rightarrow> nat \<Rightarrow> pay_plan_entry list \<Rightarrow> plan_entry_row list" where
  "entry_rows m per [] = []"
| "entry_rows m per (e # es) =
     \<lparr>pt_id = m, pt_period = per, pt_grade = trim_space (pe_grade e), pt_step = pe_step e,
      pt_amount = pe_monthly_amount e, pt_min_years = pe_step_min_years e\<rparr> # entry_rows (Suc m) per es"

fun period_rows :: "nat \<Rightarrow> nat \<Rightarrow> pay_plan_period list \<Rightarrow> plan_period_row list" where
  "period_rows n plan [] = []"
| "period_rows n plan (p # ps) =
     period.extend (stored_period (p_from p) (p_to p))
       \<lparr>pd_id = n, pd_plan = plan, pd_hours = pp_weekly_hours p, pd_rate = pp_contribution_rate p\<rparr>
     # period_rows (Suc n) plan ps"

fun all_entry_rows :: "nat \<Rightarrow> nat \<Rightarrow> pay_plan_period list \<Rightarrow> plan_entry_row list" where
  "all_entry_rows m n [] = []"
| "all_entry_rows m n (p # ps) =
     entry_rows m n (pp_entries p) @ all_entry_rows (m + length (pp_entries p)) (Suc n) ps"

lemma entry_rows_period: "r \<in> set (entry_rows m per es) \<Longrightarrow> pt_period r = per"
  by (induction m per es rule: entry_rows.induct) auto

lemma all_entry_rows_period: "r \<in> set (all_entry_rows m n ps) \<Longrightarrow> n \<le> pt_period r"
  by (induction m n ps rule: all_entry_rows.induct) (fastforce dest: entry_rows_period)+

lemma period_rows_id: "r \<in> set (period_rows n plan ps) \<Longrightarrow> n \<le> pd_id r \<and> pd_plan r = plan"
  by (induction n plan ps rule: period_rows.induct) (fastforce simp add: period.defs)+

lemma import_entries_rows:
  "import_entries db per es = Inr db' \<Longrightarrow>
    db' = db\<lparr>pb_entries := pb_entries db @ entry_rows (pb_next_entry db) per es,
             pb_next_entry := pb_next_entry db + length es\<rparr>"
proof (induction db per es rule: import_entries.induct)
  case (2 db per e es)
  from "2.prems" obtain n db1 where i: "insert_entry db \<lparr>pt_id = 0, pt_period = per, pt_grade = trim_space (pe_grade e),
      pt_step = pe_step e, pt_amount = pe_monthly_amount e, pt_min_years = pe_step_min_years e\<rparr> = Inr (n, db1)"
      "import_entries db1 per es = Inr db'" by (auto split: sum.split_asm)
  show ?case using "2.IH" [OF i(1) refl i(2)] insert_entry_Inr [OF i(1)] by simp
qed simp

lemma import_periods_rows:
  "import_periods db plan ps = Inr db' \<Longrightarrow>
    db' = db\<lparr>pb_periods := pb_periods db @ period_rows (pb_next_period db) plan ps,
             pb_next_period := pb_next_period db + length ps,
             pb_entries := pb_entries db @ all_entry_rows (pb_next_entry db) (pb_next_period db) ps,
             pb_next_entry := pb_next_entry db + sum_list (map (length \<circ> pp_entries) ps)\<rparr>"
proof (induction db plan ps rule: import_periods.induct)
  case (2 db plan p ps)
  from "2.prems" obtain n db1 db2 where i: "insert_period db plan (p_from p) (p_to p) (pp_weekly_hours p)
      (pp_contribution_rate p) = Inr (n, db1)" "import_entries db1 n (pp_entries p) = Inr db2"
      "import_periods db2 plan ps = Inr db'" by (auto simp add: result_simps split: sum.split_asm)
  show ?case using "2.IH" [OF i(1) refl i(3)] insert_period_Inr [OF i(1)] import_entries_rows [OF i(2)]
    by (simp add: add.assoc)
qed simp

section \<open>Reading them back\<close>

text \<open>What a plan holds apart from the keys of its rows, and what becomes of imported data.\<close>

definition plain_entry :: "pay_plan_entry \<Rightarrow> pay_plan_entry" where
  "plain_entry e = e\<lparr>pe_id := 0\<rparr>"

definition plain_period :: "pay_plan_period \<Rightarrow> pay_plan_period" where
  "plain_period p = p\<lparr>pp_id := 0, pp_entries := map plain_entry (pp_entries p)\<rparr>"

definition entry_as_stored :: "pay_plan_entry \<Rightarrow> pay_plan_entry" where
  "entry_as_stored e = e\<lparr>pe_id := 0, pe_grade := trim_space (pe_grade e)\<rparr>"

definition period_as_stored :: "pay_plan_period \<Rightarrow> pay_plan_period" where
  "period_as_stored p = p\<lparr>p_from := truncate_to_date (p_from p), p_to := map_option truncate_to_date (p_to p),
     pp_id := 0, pp_entries := sort_entries_natural (map entry_as_stored (pp_entries p))\<rparr>"

definition by_start :: "pay_plan_period list \<Rightarrow> pay_plan_period list" where
  "by_start ps = sort_key (\<lambda>p. - local_day (p_from p)) ps"

lemma load_entry_rows: "map (plain_entry \<circ> load_entry) (entry_rows m per es) = map entry_as_stored es"
  by (induction m per es rule: entry_rows.induct) (simp_all add: plain_entry_def load_entry_def entry_as_stored_def)

lemma sort_plain: "map plain_entry (sort_entries_natural es) = sort_entries_natural (map plain_entry es)"
  unfolding sort_entries_natural_rank by (rule sort_key_map) (simp add: entry_rank_def plain_entry_def)

definition loaded :: "plan_entry_row list \<Rightarrow> plan_period_row \<Rightarrow> pay_plan_period" where
  "loaded es p = load_period p (sort_entries_natural (map load_entry (filter (\<lambda>e. pt_period e = pd_id p) es)))"

lemma loaded_rows:
  "map (plain_period \<circ> loaded (all_entry_rows m n ps)) (period_rows n plan ps) = map period_as_stored ps"
proof (induction m n ps rule: all_entry_rows.induct)
  case (2 m n p ps)
  let ?es = "entry_rows m n (pp_entries p)" and ?rest = "all_entry_rows (m + length (pp_entries p)) (Suc n) ps"
  have "filter (\<lambda>e. pt_period e = n) (?es @ ?rest) = ?es"
    using entry_rows_period [of _ m n "pp_entries p"] all_entry_rows_period [of _ _ "Suc n" ps]
    by (fastforce simp add: filter_id_conv filter_empty_conv)
  then have "plain_period (loaded (?es @ ?rest) (hd (period_rows n plan (p # ps)))) = period_as_stored p"
    by (simp add: loaded_def load_period_def plain_period_def period_as_stored_def period.defs sort_plain
        load_entry_rows [of m n, simplified comp_def] stored_period_def comp_def)
  moreover have "loaded (?es @ ?rest) r = loaded ?rest r" if "r \<in> set (period_rows (Suc n) plan ps)" for r
  proof -
    have "filter (\<lambda>e. pt_period e = pd_id r) ?es = []"
      using period_rows_id [OF that] entry_rows_period [of _ m n "pp_entries p"] by (fastforce simp add: filter_empty_conv)
    then show ?thesis by (simp add: loaded_def)
  qed
  then have "map (plain_period \<circ> loaded (?es @ ?rest)) (period_rows (Suc n) plan ps) = map period_as_stored ps"
    using "2.IH" by (auto intro: map_cong cong: map_cong)
  ultimately show ?case by (simp add: comp_def)
qed simp

lemma find_by_id_loaded:
  "find_by_id_with_periods db i None = Inr pl \<longleftrightarrow> (\<exists>r. find_plan db i = Inr r \<and>
     pl = \<lparr>pl_id = i, pl_org = pw_org r, pl_name = pw_name r, pl_periods =
       map (loaded (pb_entries db)) (sort_key (\<lambda>p. - local_day (p_from p)) (periods_of_plan db i))\<rparr>)"
  by (auto simp add: find_by_id_with_periods_def result_simps Let_def loaded_def entries_of_period_def)

lemma get_pay_plan_Inr:
  "get_pay_plan db i org a = Inr pl \<longleftrightarrow> find_by_id_with_periods db i a = Inr pl \<and> pl_org pl = org"
  by (auto simp add: get_pay_plan_def split: sum.splits)

text \<open>Entries refer to stored periods, so none refers to a key not yet given out.\<close>

lemma entries_below_next:
  assumes "plan_rows_ok db" and "spans_ok (plan_spans db)" and "e \<in> set (pb_entries db)"
  shows "pt_period e < pb_next_period db"
  using assms by (auto simp add: plan_rows_ok_def entries_ok_def spans_ok_def plan_spans_def)

lemma import_reads_back:
  assumes ok: "plan_rows_ok db" "spans_ok (plan_spans db)" and "periods_of_plan db i = []"
    and "import_periods db i ps = Inr db'" and "find_by_id_with_periods db' i None = Inr pl"
  shows "map plain_period (pl_periods pl) = by_start (map period_as_stored ps)"
proof -
  let ?n = "pb_next_period db" and ?m = "pb_next_entry db"
  let ?rows = "period_rows ?n i ps" and ?new = "all_entry_rows ?m ?n ps"
  note d = import_periods_rows [OF assms(4)]
  have rows: "periods_of_plan db' i = ?rows"
    using assms(3) period_rows_id [of _ ?n i ps] by (auto simp add: d periods_of_plan_def filter_id_conv)
  have "loaded (pb_entries db') r = loaded ?new r" if "r \<in> set ?rows" for r
  proof -
    have "filter (\<lambda>e. pt_period e = pd_id r) (pb_entries db) = []"
      using entries_below_next [OF ok] period_rows_id [OF that] by (fastforce simp add: filter_empty_conv)
    then show ?thesis by (simp add: loaded_def d)
  qed
  then have l: "map (loaded (pb_entries db')) (sort_key f ?rows) = map (loaded ?new) (sort_key f ?rows)"
    for f :: "plan_period_row \<Rightarrow> int" by simp
  have "map plain_period (pl_periods pl) =
      map (plain_period \<circ> loaded ?new) (sort_key (\<lambda>p. - local_day (p_from p)) ?rows)"
    using assms(5) by (auto simp add: find_by_id_loaded rows l)
  also have "\<dots> = by_start (map (plain_period \<circ> loaded ?new) ?rows)"
    unfolding by_start_def by (rule sort_key_map) (simp add: plain_period_def loaded_def load_period_def)
  finally show ?thesis by (simp only: loaded_rows)
qed

lemma import_pay_plan_Inr:
  assumes "import_pay_plan db org data = (Inr pl, db')"
  obtains name i db1 where "validate_required_name (pl_name data) = Inr name"
    "import_target db org name = Inr (i, db1)" "validate_import [] (pl_periods data) = Inr ()"
    "import_periods db1 i (pl_periods data) = Inr db'" "get_pay_plan db' i org None = Inr pl"
  using assms by (auto simp add: import_pay_plan_def result_simps split: sum.split_asm prod.split_asm)

lemma target_ok:
  assumes "import_target db org name = Inr (i, db1)" and "name_ok name"
    and "plan_rows_ok db" and "spans_ok (plan_spans db)"
  shows "plan_rows_ok db1" and "spans_ok (plan_spans db1)" and "periods_of_plan db1 i = []"
    and "find_plan db1 i = Inr \<lparr>pw_id = i, pw_org = org, pw_name = name\<rparr>"
proof -
  note w = import_target_writes [OF assms(1,2) no_periods_of_next [OF assms(3)]]
  show "plan_rows_ok db1" using w(1) assms(3) writes_rows_ok by blast
  show "spans_ok (plan_spans db1)" using write_spans [OF w(1) assms(4)] assms(4) span_changes_ok by blast
  show "periods_of_plan db1 i = []" by (rule w(2))
  show "find_plan db1 i = Inr \<lparr>pw_id = i, pw_org = org, pw_name = name\<rparr>"
  proof (cases "find_by_name_and_org db name org")
    case None
    then obtain r where r: "insert_plan db org name = Inr (r, db1)" "i = pw_id r"
      using assms(1) by (auto simp add: import_target_def split: sum.split_asm)
    have "find (\<lambda>r. pw_id r = pb_next_plan db) (pb_plans db) = None"
      using assms(3) by (auto simp add: plan_rows_ok_def plans_ok_def find_None_iff)
    then show ?thesis using r(2) insert_plan_Inr [OF r(1)] by (simp add: find_plan_def find_append)
  next
    case (Some r)
    then have "i = pw_id r" "pb_plans db1 = pb_plans db"
      using assms(1) by (auto simp add: import_target_def delete_periods_and_entries_def)
    moreover have "r \<in> set (pb_plans db)" "pw_name r = name" "pw_org r = org"
      using Some by (auto simp add: find_by_name_and_org_def find_Some_iff)
    ultimately have r: "r \<in> set (pb_plans db)" "pw_name r = name" "pw_org r = org" "i = pw_id r"
      "pb_plans db1 = pb_plans db" by simp_all
    then have "find (\<lambda>s. pw_id s = i) (pb_plans db) = Some r"
      using assms(3) by (auto simp add: plan_rows_ok_def plans_ok_def set_find_key)
    then show ?thesis using r by (simp add: find_plan_def)
  qed
qed


section \<open>When an import goes through\<close>

definition entry_data_ok :: "pay_plan_entry \<Rightarrow> bool" where
  "entry_data_ok e \<longleftrightarrow> entry_fields_ok \<lparr>pt_id = 0, pt_period = 0, pt_grade = trim_space (pe_grade e), pt_step = pe_step e,
       pt_amount = pe_monthly_amount e, pt_min_years = pe_step_min_years e\<rparr> \<and>
     entry_ints_ok \<lparr>pt_id = 0, pt_period = 0, pt_grade = trim_space (pe_grade e), pt_step = pe_step e,
       pt_amount = pe_monthly_amount e, pt_min_years = pe_step_min_years e\<rparr>"

definition data_slot :: "pay_plan_entry \<Rightarrow> string \<times> int" where
  "data_slot e = (trim_space (pe_grade e), pe_step e)"

definition period_data_ok :: "pay_plan_period \<Rightarrow> bool" where
  "period_data_ok p \<longleftrightarrow> ordered (local_day (p_from p)) (day_opt (p_to p)) \<and>
     fless (Fin 0) (pp_weekly_hours p) \<and> fle (pp_weekly_hours p) (Fin 168) \<and>
     0 \<le> pp_contribution_rate p \<and> pp_contribution_rate p \<le> 10000 \<and>
     (\<forall>e \<in> set (pp_entries p). entry_data_ok e) \<and> distinct (map data_slot (pp_entries p))"

lemma validate_entries_ok:
  assumes "\<And>e. e \<in> set es \<Longrightarrow> entry_data_ok e" and "distinct (map data_slot es)"
    and "\<And>e k. e \<in> set es \<Longrightarrow> k \<in> set seen \<Longrightarrow> k \<noteq> entry_key e"
  shows "validate_import_entries seen es = Inr ()"
  using assms
proof (induction es arbitrary: seen)
  case (Cons e es)
  have step: "1 \<le> pe_step d" if "d \<in> set (e # es)" for d
    using Cons.prems(1) [OF that] by (simp add: entry_data_ok_def entry_fields_ok_def)
  have "entry_key d \<noteq> entry_key e" if d: "d \<in> set es" for d
  proof
    assume "entry_key d = entry_key e"
    then have "data_slot d = data_slot e" using entry_key_inject [of d e] step [of d] step [of e] d
      by (simp add: data_slot_def)
    then show False using Cons.prems(2) d by (metis distinct.simps(2) image_eqI list.map(2) list.set_map)
  qed
  then have "validate_import_entries (entry_key e # seen) es = Inr ()"
    using Cons.prems by (intro Cons.IH) auto
  moreover have "validate_pay_plan_entry_fields (pe_grade e) (pe_step e) (pe_monthly_amount e) (pe_step_min_years e) = Inr ()"
    using Cons.prems(1) [of e]
    by (auto simp add: entry_data_ok_def entry_fields_ok_def validate_pay_plan_entry_fields_def split: option.splits)
  moreover have "entry_key e \<notin> set seen" using Cons.prems(3) [of e] by auto
  ultimately show ?case by simp
qed simp

lemma overlaps_days:
  assumes "ordered (local_day (p_from p)) (day_opt (p_to p))" and "ordered (local_day (p_from q)) (day_opt (p_to q))"
  shows "overlaps p q \<longleftrightarrow> period_days p \<inter> period_days q \<noteq> {}"
  unfolding overlaps_periods_overlap periods_overlap_days [OF assms] by (simp only: period_days_def)

lemma period_fields_ok:
  "period_data_ok p \<Longrightarrow>
    validate_pay_plan_period_fields (p_from p) (p_to p) (pp_weekly_hours p) (pp_contribution_rate p) = Inr ()"
  by (cases "pp_weekly_hours p"; cases "p_to p")
    (auto simp add: period_data_ok_def validate_pay_plan_period_fields_def ordered_def truncate_to_date_eq)

lemma validate_import_ok:
  assumes "\<And>p. p \<in> set ps \<Longrightarrow> period_data_ok p" and "\<And>p. p \<in> set before_it \<Longrightarrow> period_data_ok p"
    and "sorted_wrt (\<lambda>p q. period_days p \<inter> period_days q = {}) (before_it @ ps)"
  shows "validate_import before_it ps = Inr ()"
  using assms
proof (induction ps arbitrary: before_it)
  case (Cons p ps)
  have "\<not> overlaps p q" if "q \<in> set before_it" for q
  proof -
    have "period_days q \<inter> period_days p = {}" using Cons.prems(3) that by (simp add: sorted_wrt_append)
    then show ?thesis using overlaps_days [of p q] Cons.prems(1) [of p] Cons.prems(2) [OF that]
      by (auto simp add: period_data_ok_def)
  qed
  then have "\<not> list_ex (overlaps p) before_it" by (auto simp add: list_ex_iff)
  moreover have "validate_import_entries [] (pp_entries p) = Inr ()"
    using Cons.prems(1) [of p] by (intro validate_entries_ok) (auto simp add: period_data_ok_def)
  moreover have "validate_import (before_it @ [p]) ps = Inr ()"
    using Cons.prems by (intro Cons.IH) auto
  ultimately show ?case using period_fields_ok [of p] Cons.prems(1) [of p] by simp
qed simp

lemma import_entries_ok:
  assumes "\<And>e. e \<in> set es \<Longrightarrow> entry_data_ok e" and "distinct (map data_slot es)"
    and "\<And>e r. e \<in> set es \<Longrightarrow> r \<in> set (pb_entries db) \<Longrightarrow> entry_slot r \<noteq> (per, data_slot e)"
    and "per \<in> pd_id ` set (pb_periods db)"
  shows "\<exists>db'. import_entries db per es = Inr db'"
  using assms
proof (induction es arbitrary: db)
  case (Cons e es)
  let ?r = "\<lparr>pt_id = 0, pt_period = per, pt_grade = trim_space (pe_grade e), pt_step = pe_step e,
      pt_amount = pe_monthly_amount e, pt_min_years = pe_step_min_years e\<rparr>"
  have "entry_ints_ok ?r" using Cons.prems(1) [of e] by (simp add: entry_data_ok_def entry_ints_ok_def)
  moreover have "\<not> (pt_period r = per \<and> pt_grade r = trim_space (pe_grade e) \<and> pt_step r = pe_step e)"
    if "r \<in> set (pb_entries db)" for r
    using Cons.prems(3) [of e r] that by (simp add: entry_slot_def data_slot_def)
  ultimately have "entry_checks db (pb_next_entry db) ?r = Inr ()"
    by (auto simp add: entry_checks_def entry_ints_ok_def list_ex_iff)
  moreover have "list_ex (\<lambda>p. pd_id p = per) (pb_periods db)" using Cons.prems(4) by (auto simp add: list_ex_iff)
  ultimately obtain n db1 where i: "insert_entry db ?r = Inr (n, db1)"
    by (simp add: insert_entry_def Let_def)
  note x = insert_entry_Inr [OF i]
  have "\<exists>db'. import_entries db1 per es = Inr db'"
  proof (rule Cons.IH)
    fix d r assume d: "d \<in> set es" and r: "r \<in> set (pb_entries db1)"
    then consider "r \<in> set (pb_entries db)" | "r = ?r\<lparr>pt_id := n\<rparr>" by (auto simp add: x(3))
    then show "entry_slot r \<noteq> (per, data_slot d)"
    proof cases
      case 1
      then show ?thesis using Cons.prems(3) [of d r] d by simp
    next
      case 2
      have "data_slot d \<noteq> data_slot e" using Cons.prems(2) d by (metis distinct.simps(2) image_eqI list.map(2) list.set_map)
      then show ?thesis using 2 by (auto simp add: entry_slot_def data_slot_def)
    qed
  qed (use Cons.prems x in auto)
  then show ?case using i by simp
qed simp

lemma import_periods_ok:
  assumes "\<And>p. p \<in> set ps \<Longrightarrow> period_data_ok p" and "plan \<in> pw_id ` set (pb_plans db)"
    and "\<And>e. e \<in> set (pb_entries db) \<Longrightarrow> pt_period e < pb_next_period db"
  shows "\<exists>db'. import_periods db plan ps = Inr db'"
  using assms
proof (induction ps arbitrary: db)
  case (Cons p ps)
  have p: "period_data_ok p" using Cons.prems(1) by simp
  then have "period_checks (pp_weekly_hours p) (pp_contribution_rate p) = Inr ()"
    by (auto simp add: period_checks_def period_data_ok_def in_int4_def)
  moreover have "list_ex (\<lambda>r. pw_id r = plan) (pb_plans db)" using Cons.prems(2) by (auto simp add: list_ex_iff)
  ultimately obtain n db1 where i: "insert_period db plan (p_from p) (p_to p) (pp_weekly_hours p)
      (pp_contribution_rate p) = Inr (n, db1)" by (simp add: insert_period_def Let_def)
  note x = insert_period_Inr [OF i]
  have slots: "entry_slot r \<noteq> (n, data_slot e)" if "r \<in> set (pb_entries db1)" for r e
    using Cons.prems(3) [of r] that by (auto simp add: x(1,3) entry_slot_def)
  have "\<exists>db2. import_entries db1 n (pp_entries p) = Inr db2"
    using p slots by (intro import_entries_ok) (auto simp add: period_data_ok_def x(3) period.defs)
  then obtain db2 where e: "import_entries db1 n (pp_entries p) = Inr db2" by blast
  note y = import_entries_rows [OF e]
  have "\<exists>db'. import_periods db2 plan ps = Inr db'"
  proof (rule Cons.IH)
    fix r assume "r \<in> set (pb_entries db2)"
    then show "pt_period r < pb_next_period db2"
      using Cons.prems(3) [of r] entry_rows_period [of r _ n] by (auto simp add: y x(1,3))
  qed (use Cons.prems x(3) y in auto)
  then show ?case using i e by simp
qed simp

end
