(* ===== verification/PayPlanTheorems.thy ===== *)
theory PayPlanTheorems
  imports PayPlanImport "HOL-Library.Multiset"
begin

text \<open>
  Properties of pay plans: the tables stay well formed and give one period per day, an import
  replaces exactly one plan by what was sent, and an exported plan can be imported again.
\<close>

definition no_pay_plans :: "nat list \<Rightarrow> payplan_db" where
  "no_pay_plans orgs = \<lparr>pb_plans = [], pb_periods = [], pb_entries = [], pb_next_plan = 1, pb_next_period = 1,
     pb_next_entry = 1, pb_orgs = orgs, pb_used = []\<rparr>"

definition payplan_reachable :: "payplan_db \<Rightarrow> bool" where
  "payplan_reachable db \<longleftrightarrow> (\<exists>orgs. payplan_step\<^sup>*\<^sup>* (no_pay_plans orgs) db)"

lemma payplan_reachable_ok:
  assumes "payplan_reachable db"
  shows "plan_rows_ok db" and "spans_ok (plan_spans db)"
proof -
  obtain orgs where s: "payplan_step\<^sup>*\<^sup>* (no_pay_plans orgs) db" using assms by (auto simp add: payplan_reachable_def)
  have "plan_rows_ok (no_pay_plans orgs)" "spans_ok (plan_spans (no_pay_plans orgs))"
    by (simp_all add: no_pay_plans_def plan_rows_ok_def plans_ok_def periods_ok_def entries_ok_def spans_ok_def plan_spans_def)
  then show "plan_rows_ok db" and "spans_ok (plan_spans db)" using pay_plans.reachable_ok [OF s] by blast+
qed

lemma step_reachable: "payplan_reachable db \<Longrightarrow> payplan_step db db' \<Longrightarrow> payplan_reachable db'"
  by (auto simp add: payplan_reachable_def intro: rtranclp.rtrancl_into_rtrancl)

section \<open>Which period applies\<close>

lemma latest_covering_mem:
  "latest_covering b ps d = Some q \<Longrightarrow> b = Some q \<or> q \<in> set ps \<and> sql_active_on (local_day (p_from q)) (day_opt (p_to q)) (local_day d)"
  by (induction b ps d rule: latest_covering.induct) (fastforce split: if_splits)+

lemma latest_covering_None:
  "latest_covering b ps d = None \<longleftrightarrow> b = None \<and> (\<forall>p \<in> set ps. \<not> sql_active_on (local_day (p_from p)) (day_opt (p_to p)) (local_day d))"
  by (induction b ps d rule: latest_covering.induct) auto

lemma sql_active_days: "sql_active_on (local_day (p_from p)) (day_opt (p_to p)) d \<longleftrightarrow> d \<in> period_days p"
  by (simp add: period_days_def days_def)

lemma one_period_per_day:
  assumes "spans_ok (plan_spans db)" and "p \<in> set (periods_of_plan db i)" and "q \<in> set (periods_of_plan db i)"
    and "d \<in> period_days p" and "d \<in> period_days q"
  shows "p = q"
proof -
  have "p \<in> set (pb_periods db)" "q \<in> set (pb_periods db)" using assms(2,3) by (auto simp add: periods_of_plan_def)
  moreover have "plan_span p = plan_span q"
    using assms by (intro one_span_per_day [OF assms(1)]) (auto simp add: plan_spans_def periods_of_plan_def)
  then have "pd_id p = pd_id q" by (metis plan_span_simps(1))
  ultimately show ?thesis using assms(1) by (auto simp add: spans_ok_def plan_spans_def distinct_map comp_def dest: inj_onD)
qed

section \<open>Other plans\<close>

lemma other_plans_read_the_same:
  assumes "import_pay_plan db org data = (Inr pl, db')" and ok: "plan_rows_ok db" "spans_ok (plan_spans db)"
    and j: "j \<noteq> pl_id pl"
  shows "find_by_id_with_periods db' j a = find_by_id_with_periods db j a"
proof -
  obtain name i db1 where n: "validate_required_name (pl_name data) = Inr name"
      and t: "import_target db org name = Inr (i, db1)" and p: "import_periods db1 i (pl_periods data) = Inr db'"
      and g: "get_pay_plan db' i org None = Inr pl"
    using import_pay_plan_Inr [OF assms(1)] by metis
  have ji: "j \<noteq> i" using g j by (auto simp add: get_pay_plan_Inr find_by_id_loaded)
  note d = import_periods_rows [OF p]
  have one: "find_plan db1 j = find_plan db j \<and> periods_of_plan db1 j = periods_of_plan db j \<and>
      (\<forall>r \<in> set (periods_of_plan db j). entries_of_period db1 (pd_id r) = entries_of_period db (pd_id r))"
  proof (cases "find_by_name_and_org db name org")
    case None
    then obtain r where r: "insert_plan db org name = Inr (r, db1)" "i = pw_id r"
      using t by (auto simp add: import_target_def split: sum.split_asm)
    then show ?thesis using insert_plan_Inr [OF r(1)] ji
      by (auto simp add: find_plan_def find_append periods_of_plan_def entries_of_period_def split: option.split)
  next
    case (Some s)
    then have db1: "i = pw_id s" "db1 = delete_periods_and_entries db i" using t by (auto simp add: import_target_def)
    have away: "pd_id r \<notin> pd_id ` set (periods_of_plan db i)" if "r \<in> set (periods_of_plan db j)" for r
    proof
      assume "pd_id r \<in> pd_id ` set (periods_of_plan db i)"
      then obtain q where q: "q \<in> set (periods_of_plan db i)" "pd_id r = pd_id q" by auto
      then have "r = q" using that ok(2)
        by (auto simp add: periods_of_plan_def spans_ok_def plan_spans_def distinct_map comp_def dest: inj_onD)
      then show False using q that ji by (auto simp add: periods_of_plan_def)
    qed
    have "entries_of_period db1 (pd_id r) = entries_of_period db (pd_id r)" if "r \<in> set (periods_of_plan db j)" for r
      using away [OF that] by (simp add: db1(2) delete_periods_and_entries_def entries_of_period_def)
        (rule arg_cong [of _ _ "map load_entry"], rule filter_cong [OF refl], metis)
    then show ?thesis using ji
      by (auto simp add: db1(2) find_plan_def delete_periods_and_entries_def periods_of_plan_def intro!: filter_cong)
  qed
  have ok1: "plan_rows_ok db1" "spans_ok (plan_spans db1)"
    using target_ok [OF t validate_required_name_Inr [OF n] ok] by blast+
  have "periods_of_plan db' j = periods_of_plan db1 j"
    using period_rows_id [of _ _ i] ji by (auto simp add: d periods_of_plan_def filter_empty_conv)
  moreover have "entries_of_period db' (pd_id r) = entries_of_period db1 (pd_id r)" if "r \<in> set (periods_of_plan db1 j)" for r
  proof -
    have "pd_id r < pb_next_period db1" using that ok1(2) by (auto simp add: spans_ok_def plan_spans_def periods_of_plan_def)
    then have "filter (\<lambda>e. pt_period e = pd_id r) (all_entry_rows (pb_next_entry db1) (pb_next_period db1) (pl_periods data)) = []"
      using all_entry_rows_period by (fastforce simp add: filter_empty_conv)
    then show ?thesis by (simp add: entries_of_period_def d)
  qed
  moreover have "find_plan db' j = find_plan db1 j" by (simp add: find_plan_def d)
  ultimately show ?thesis using one
    by (auto simp add: find_by_id_with_periods_def Let_def bindE_def split: sum.split option.split)
qed


section \<open>What is exported can be imported\<close>

lemma sorted_wrt_pairs:
  "distinct xs \<Longrightarrow> (\<And>x y. x \<in> set xs \<Longrightarrow> y \<in> set xs \<Longrightarrow> x \<noteq> y \<Longrightarrow> P x y) \<Longrightarrow> sorted_wrt P xs"
  by (induction xs) auto

lemma distinct_map_sort_key: "distinct (map f xs) \<Longrightarrow> distinct (map f (sort_key k xs))"
  by (simp add: distinct_map)

lemma stored_data_ok: "entry_fields_ok r \<Longrightarrow> entry_ints_ok r \<Longrightarrow> entry_data_ok (load_entry r)"
  by (simp add: entry_data_ok_def load_entry_def entry_fields_ok_def entry_ints_ok_def)

lemma stored_as_plain: "entry_fields_ok r \<Longrightarrow> entry_as_stored (load_entry r) = plain_entry (load_entry r)"
  by (simp add: entry_as_stored_def plain_entry_def load_entry_def entry_fields_ok_def)

lemma loaded_simps [simp]:
  "p_from (loaded es p) = p_from p" "p_to (loaded es p) = p_to p" "period_days (loaded es p) = period_days p"
  "pp_entries (loaded es p) = sort_entries_natural (map load_entry (filter (\<lambda>e. pt_period e = pd_id p) es))"
  "pp_weekly_hours (loaded es p) = pd_hours p" "pp_contribution_rate (loaded es p) = pd_rate p"
  by (simp_all add: loaded_def load_period_def period_days_def)

lemma loaded_data_ok:
  assumes "plan_rows_ok db" and "p \<in> set (pb_periods db)"
  shows "period_data_ok (loaded (pb_entries db) p)"
proof -
  let ?es = "filter (\<lambda>e. pt_period e = pd_id p) (pb_entries db)"
  have e: "entry_fields_ok e \<and> entry_ints_ok e" if "e \<in> set ?es" for e
    using assms(1) that by (auto simp add: plan_rows_ok_def entries_ok_def)
  then have "data_slot (load_entry e) = snd (entry_slot e)" if "e \<in> set ?es" for e
    using that by (simp add: data_slot_def load_entry_def entry_slot_def entry_fields_ok_def)
  then have m: "map data_slot (map load_entry ?es) = map (snd \<circ> entry_slot) ?es" by auto
  have "distinct (map entry_slot ?es)" using assms(1) by (auto simp add: plan_rows_ok_def entries_ok_def distinct_map_filter)
  then have "distinct (map (snd \<circ> entry_slot) ?es)" by (auto simp add: distinct_map inj_on_def entry_slot_def)
  then have "distinct (map data_slot (map load_entry ?es))" by (simp only: m)
  moreover have "\<forall>e \<in> set (map load_entry ?es). entry_data_ok e" using e by (auto intro: stored_data_ok)
  moreover have "distinct (map data_slot (sort_entries_natural (map load_entry ?es)))"
    using calculation(1) unfolding sort_entries_natural_rank by (rule distinct_map_sort_key)
  moreover have "period_row_ok p" using assms by (auto simp add: plan_rows_ok_def periods_ok_def)
  ultimately show ?thesis by (auto simp add: period_data_ok_def period_row_ok_def sort_entries_natural_rank)
qed

lemma loaded_as_stored:
  assumes "plan_rows_ok db" and "p \<in> set (pb_periods db)"
  shows "period_as_stored (loaded (pb_entries db) p) = plain_period (loaded (pb_entries db) p)"
proof -
  let ?es = "filter (\<lambda>e. pt_period e = pd_id p) (pb_entries db)"
  have "map entry_as_stored (sort_entries_natural (map load_entry ?es))
      = map plain_entry (sort_entries_natural (map load_entry ?es))"
    using assms(1) stored_as_plain by (auto simp add: plan_rows_ok_def entries_ok_def sort_entries_natural_rank)
  moreover have "sort_entries_natural (sort_entries_natural es) = sort_entries_natural es" for es
    by (simp add: sort_entries_natural_rank sort_key_of_sorted)
  ultimately have "sort_entries_natural (map entry_as_stored (sort_entries_natural (map load_entry ?es)))
      = map plain_entry (sort_entries_natural (map load_entry ?es))"
    by (simp add: sort_plain)
  moreover have "p_from p = midnight (local_day (p_from p))" "p_to p = map_option midnight (day_opt (p_to p))"
    using assms by (auto simp add: plan_rows_ok_def periods_ok_def period_row_ok_def)
  then have "truncate_to_date (p_from p) = p_from p" "map_option truncate_to_date (p_to p) = p_to p"
    by (simp_all only: truncate_to_date_eq) (cases "p_to p"; simp add: truncate_to_date_eq)
  ultimately show ?thesis by (simp add: period_as_stored_def plain_period_def)
qed

lemma export_import:
  assumes ok: "plan_rows_ok db" "spans_ok (plan_spans db)"
    and r: "find_by_id_with_periods db i None = Inr pl" and org: "org \<in> set (pb_orgs db)"
  shows "\<exists>pl' db'. import_pay_plan db org pl = (Inr pl', db') \<and> pl_org pl' = org \<and> pl_name pl' = pl_name pl \<and>
    map plain_period (pl_periods pl') = map plain_period (pl_periods pl)"
proof -
  let ?key = "\<lambda>p :: plan_period_row. - local_day (p_from p)"
  let ?rows = "sort_key ?key (periods_of_plan db i)"
  obtain s where s: "find_plan db i = Inr s" and pl: "pl_name pl = pw_name s" "pl_periods pl = map (loaded (pb_entries db)) ?rows"
    using r by (auto simp add: find_by_id_loaded)
  have rows: "r \<in> set (pb_periods db)" if "r \<in> set ?rows" for r using that by (simp add: periods_of_plan_def)
  have name: "name_ok (pw_name s)" using find_plan_id [OF s] ok(1) by (auto simp add: plan_rows_ok_def plans_ok_def)
  then have n: "validate_required_name (pl_name pl) = Inr (pl_name pl)"
    by (simp add: validate_required_name_def Let_def name_ok_def pl(1))
  have "\<exists>x. import_target db org (pl_name pl) = Inr x"
  proof (cases "find_by_name_and_org db (pl_name pl) org")
    case None
    then have "\<not> list_ex (\<lambda>r. pw_org r = org \<and> pw_name r = pl_name pl) (pb_plans db)"
      by (auto simp add: find_by_name_and_org_def find_None_iff list_ex_iff)
    then show ?thesis using None org by (simp add: import_target_def insert_plan_def Let_def)
  qed (simp add: import_target_def)
  then obtain k db1 where t: "import_target db org (pl_name pl) = Inr (k, db1)" by auto
  note t1 = target_ok [OF t name [folded pl(1)] ok]
  have data: "period_data_ok p" if p: "p \<in> set (pl_periods pl)" for p
  proof -
    obtain r where "r \<in> set ?rows" "p = loaded (pb_entries db) r" using p unfolding pl(2) by (auto simp del: set_sort)
    then show ?thesis using loaded_data_ok [OF ok(1) rows] by blast
  qed
  have "distinct (pb_periods db)" using ok(2) by (auto simp add: spans_ok_def plan_spans_def distinct_map)
  then have "sorted_wrt (\<lambda>p q. period_days p \<inter> period_days q = {}) ?rows"
    using one_period_per_day [OF ok(2), of _ i] by (intro sorted_wrt_pairs) (auto simp add: periods_of_plan_def)
  then have v: "validate_import [] (pl_periods pl) = Inr ()"
    using data by (intro validate_import_ok) (simp_all add: pl(2) sorted_wrt_map)
  have "k \<in> pw_id ` set (pb_plans db1)" using find_plan_id [OF t1(4)] by (metis image_eqI)
  then obtain db2 where p: "import_periods db1 k (pl_periods pl) = Inr db2"
    using import_periods_ok [OF data] entries_below_next [OF t1(1,2)] by blast
  have "find_plan db2 k = find_plan db1 k" by (simp add: find_plan_def import_periods_rows [OF p])
  then obtain pl' where f: "find_by_id_with_periods db2 k None = Inr pl'" and l: "pl_org pl' = org" "pl_name pl' = pl_name pl"
    using t1(4) by (auto simp add: find_by_id_loaded)
  have "map period_as_stored (pl_periods pl) = map plain_period (pl_periods pl)"
    unfolding pl(2) using loaded_as_stored [OF ok(1) rows] by (simp del: set_sort)
  moreover have "by_start (map plain_period (pl_periods pl)) = map plain_period (pl_periods pl)"
    unfolding by_start_def pl(2) by (rule sort_key_of_sorted) (simp add: plain_period_def comp_def)
  ultimately have "map plain_period (pl_periods pl') = map plain_period (pl_periods pl)"
    using import_reads_back [OF t1(1-3) p f] by (simp only:)
  moreover have "import_pay_plan db org pl = (Inr pl', db2)"
    using n t v p f l(1) by (simp add: import_pay_plan_def get_pay_plan_def)
  ultimately show ?thesis using l by blast
qed


section \<open>An example\<close>

definition demo_plan :: pay_plan where
  "demo_plan = \<lparr>pl_id = 0, pl_org = 0, pl_name = ''SuE'', pl_periods =
     [\<lparr>p_from = midnight 738000, p_to = Some (midnight 738364), pp_id = 0, pp_weekly_hours = Fin 39,
        pp_contribution_rate = 2200,
        pp_entries = [\<lparr>pe_id = 0, pe_grade = ''S10'', pe_step = 1, pe_monthly_amount = 330000, pe_step_min_years = None\<rparr>,
                      \<lparr>pe_id = 0, pe_grade = ''S2'', pe_step = 2, pe_monthly_amount = 250000, pe_step_min_years = Some 1\<rparr>]\<rparr>,
      \<lparr>p_from = midnight 738365, p_to = None, pp_id = 0, pp_weekly_hours = Fin (77 / 2),
        pp_contribution_rate = 2300, pp_entries = []\<rparr>]\<rparr>"

definition demo_plans :: payplan_db where
  "demo_plans = snd (import_pay_plan (no_pay_plans [1, 2]) 1 demo_plan)"

definition demo_read :: pay_plan where
  "demo_read = (case find_by_id_with_periods demo_plans 1 None of Inr pl \<Rightarrow> pl | Inl _ \<Rightarrow> demo_plan)"

lemma demo_plans_reachable: "payplan_reachable demo_plans"
proof (rule step_reachable)
  show "payplan_reachable (no_pay_plans [1, 2])" by (auto simp add: payplan_reachable_def)
  show "payplan_step (no_pay_plans [1, 2]) demo_plans"
    by (rule plan_imported [of _ 1 demo_plan "fst (import_pay_plan (no_pay_plans [1, 2]) 1 demo_plan)"])
      (simp add: demo_plans_def)
qed

lemma demo_strings:
  "trim_space ''SuE'' = ''SuE''" "trim_space ''S10'' = ''S10''" "trim_space ''S2'' = ''S2''"
  by (simp_all add: trim_space_edge_plain edge_plain_def)

lemma demo_imports: "\<exists>pl. import_pay_plan (no_pay_plans [1, 2]) 1 demo_plan = (Inr pl, demo_plans)"
proof -
  have "itoa 1 = ''1''" "itoa 2 = ''2''" by code_simp+
  then have "\<exists>pl. fst (import_pay_plan (no_pay_plans [1, 2]) 1 demo_plan) = Inr pl"
    by (simp add: demo_plan_def no_pay_plans_def import_pay_plan_def validate_required_name_def Let_def
        demo_strings import_target_def find_by_name_and_org_def insert_plan_def validate_pay_plan_period_fields_def
        truncate_to_date_eq validate_pay_plan_entry_fields_def entry_key_def overlaps_def insert_period_def
        period_checks_def in_int4_def period.defs insert_entry_def entry_checks_def get_pay_plan_def
        find_by_id_with_periods_def find_plan_def)
  then show ?thesis by (simp add: demo_plans_def prod_eq_iff)
qed

lemma demo_reads: "find_by_id_with_periods demo_plans 1 None = Inr demo_read" "2 \<in> set (pb_orgs demo_plans)"
proof -
  obtain pl where p: "import_pay_plan (no_pay_plans [1, 2]) 1 demo_plan = (Inr pl, demo_plans)" using demo_imports by blast
  obtain name i db1 where t: "import_target (no_pay_plans [1, 2]) 1 name = Inr (i, db1)"
      and q: "import_periods db1 i (pl_periods demo_plan) = Inr demo_plans" and g: "get_pay_plan demo_plans i 1 None = Inr pl"
    using import_pay_plan_Inr [OF p] by metis
  have i: "i = 1 \<and> pb_orgs db1 = [1, 2]"
    using t by (auto simp add: import_target_def find_by_name_and_org_def insert_plan_def no_pay_plans_def Let_def)
  then show "find_by_id_with_periods demo_plans 1 None = Inr demo_read"
    using g by (simp add: get_pay_plan_Inr demo_read_def)
  show "2 \<in> set (pb_orgs demo_plans)" using i by (simp add: import_periods_rows [OF q])
qed

section \<open>Properties\<close>

text \<open>
  C31. Whatever requests are answered one after the other, no two periods of a pay plan share a day,
  every plan, period and entry keeps its well-formedness (unique names per organization, unique
  grade and step per period, hours in (0, 168], a rate of at most 100 %, no dangling reference),
  and \<open>FindActivePeriod\<close> finds exactly the one period that covers the day, or reports that none does.
\<close>
lemma one_period_of_a_plan_applies:
  assumes "payplan_reachable db"
  shows "plan_rows_ok db \<and> spans_ok (plan_spans db) \<and>
    (find_active_plan_period db i d = Inr q \<longleftrightarrow>
      (\<exists>p \<in> set (periods_of_plan db i). local_day d \<in> period_days p \<and> q = load_period p (entries_of_period db (pd_id p)))) \<and>
    (find_active_plan_period db i d = Inl e \<longleftrightarrow>
      e = StoreError StoreNotFound \<and> (\<forall>p \<in> set (periods_of_plan db i). local_day d \<notin> period_days p))"
proof -
  have ok: "plan_rows_ok db" "spans_ok (plan_spans db)" using payplan_reachable_ok [OF assms] by blast+
  let ?l = "\<lambda>p. load_period p (entries_of_period db (pd_id p))"
  let ?ps = "map ?l (periods_of_plan db i)"
  have l: "sql_active_on (local_day (p_from (?l p))) (day_opt (p_to (?l p))) (local_day d) \<longleftrightarrow> local_day d \<in> period_days p" for p
    by (simp add: load_period_def sql_active_days)
  have none: "latest_covering None ?ps d = None \<longleftrightarrow> (\<forall>p \<in> set (periods_of_plan db i). local_day d \<notin> period_days p)"
    by (simp add: latest_covering_None l)
  have some: "latest_covering None ?ps d = Some q \<longleftrightarrow>
      (\<exists>p \<in> set (periods_of_plan db i). local_day d \<in> period_days p \<and> q = ?l p)" for q
  proof
    assume "latest_covering None ?ps d = Some q"
    then show "\<exists>p \<in> set (periods_of_plan db i). local_day d \<in> period_days p \<and> q = ?l p"
      using latest_covering_mem [of None ?ps d q] l by auto
  next
    assume "\<exists>p \<in> set (periods_of_plan db i). local_day d \<in> period_days p \<and> q = ?l p"
    then obtain p where p: "p \<in> set (periods_of_plan db i)" "local_day d \<in> period_days p" "q = ?l p" by blast
    then obtain r where r: "latest_covering None ?ps d = Some r" using none by (cases "latest_covering None ?ps d") auto
    then obtain p' where "p' \<in> set (periods_of_plan db i)" "local_day d \<in> period_days p'" "r = ?l p'"
      using latest_covering_mem [OF r] l by auto
    then show "latest_covering None ?ps d = Some q" using r p one_period_per_day [OF ok(2)] by metis
  qed
  have "find_active_plan_period db i d = Inr q \<longleftrightarrow>
      (\<exists>p \<in> set (periods_of_plan db i). local_day d \<in> period_days p \<and> q = ?l p)"
    unfolding some [symmetric] by (cases "latest_covering None ?ps d") (simp_all add: find_active_plan_period_def)
  moreover have "find_active_plan_period db i d = Inl e \<longleftrightarrow>
      e = StoreError StoreNotFound \<and> (\<forall>p \<in> set (periods_of_plan db i). local_day d \<notin> period_days p)"
    unfolding none [symmetric] by (cases "latest_covering None ?ps d") (auto simp add: find_active_plan_period_def)
  ultimately show ?thesis using ok by blast
qed

lemma one_period_of_a_plan_applies_witness:
  "plan_rows_ok demo_plans \<and> spans_ok (plan_spans demo_plans)"
  using one_period_of_a_plan_applies [OF demo_plans_reachable] by blast

text \<open>
  C32. A successful import answers with a plan of the trimmed name in the organization whose periods,
  newest first, hold exactly the imported days, hours, rates and entries (grades trimmed, in
  natural order); every other plan reads as before, and a failed import changes nothing.
\<close>
lemma import_replaces_one_plan:
  assumes "payplan_reachable db" and "import_pay_plan db org data = (x, db')"
  shows "(case x of
      Inl e \<Rightarrow> db' = db
    | Inr pl \<Rightarrow> pl_org pl = org \<and> pl_name pl = trim_space (pl_name data) \<and>
        find_by_id_with_periods db' (pl_id pl) None = Inr pl \<and>
        map plain_period (pl_periods pl) = by_start (map period_as_stored (pl_periods data)) \<and>
        (\<forall>j a. j \<noteq> pl_id pl \<longrightarrow> find_by_id_with_periods db' j a = find_by_id_with_periods db j a))"
proof (cases x)
  case (Inl e)
  then show ?thesis using assms(2) by (auto simp add: import_pay_plan_def split: sum.split_asm prod.split_asm)
next
  case (Inr pl)
  note ok = payplan_reachable_ok [OF assms(1)] and r = assms(2) [unfolded Inr]
  obtain name i db1 where n: "validate_required_name (pl_name data) = Inr name"
      and t: "import_target db org name = Inr (i, db1)" and p: "import_periods db1 i (pl_periods data) = Inr db'"
      and g: "get_pay_plan db' i org None = Inr pl"
    using import_pay_plan_Inr [OF r] by metis
  note t1 = target_ok [OF t validate_required_name_Inr [OF n] ok]
  have f: "find_by_id_with_periods db' i None = Inr pl" "pl_org pl = org" using g by (auto simp add: get_pay_plan_Inr)
  then have i: "pl_id pl = i" by (auto simp add: find_by_id_loaded)
  have "find_plan db' i = find_plan db1 i" by (simp add: find_plan_def import_periods_rows [OF p])
  then have "pl_name pl = name" using f(1) t1(4) by (auto simp add: find_by_id_loaded)
  moreover have "name = trim_space (pl_name data)"
    using n by (auto simp add: validate_required_name_def Let_def split: if_splits)
  moreover note import_reads_back [OF t1(1-3) p f(1)] other_plans_read_the_same [OF r ok] f
  ultimately show ?thesis by (simp add: Inr i)
qed

lemma import_replaces_one_plan_witness:
  "\<exists>pl db'. import_pay_plan (no_pay_plans [1, 2]) 1 demo_plan = (Inr pl, db') \<and> pl_name pl = ''SuE'' \<and>
    map plain_period (pl_periods pl) = by_start (map period_as_stored (pl_periods demo_plan))"
proof -
  obtain pl where p: "import_pay_plan (no_pay_plans [1, 2]) 1 demo_plan = (Inr pl, demo_plans)" using demo_imports by blast
  have "payplan_reachable (no_pay_plans [1, 2])" by (auto simp add: payplan_reachable_def)
  from import_replaces_one_plan [OF this p] p show ?thesis by (auto simp add: demo_plan_def demo_strings)
qed

text \<open>
  C33. A plan read from the tables can be imported into any organization there is, and reads back
  there with the same name, periods and entries.
\<close>
lemma exported_plan_can_be_imported:
  assumes "payplan_reachable db" and "find_by_id_with_periods db i None = Inr pl" and "org \<in> set (pb_orgs db)"
  shows "\<exists>pl' db'. import_pay_plan db org pl = (Inr pl', db') \<and> pl_org pl' = org \<and> pl_name pl' = pl_name pl \<and>
    map plain_period (pl_periods pl') = map plain_period (pl_periods pl)"
  by (rule export_import [OF payplan_reachable_ok [OF assms(1)] assms(2,3)])

lemma exported_plan_can_be_imported_witness:
  "\<exists>pl' db'. import_pay_plan demo_plans 2 demo_read = (Inr pl', db') \<and> pl_org pl' = 2"
  using exported_plan_can_be_imported [OF demo_plans_reachable demo_reads] by blast

text \<open>
  Entries are returned in the order of prefix, number, suffix and step, so that S2 comes before
  S10, and none is lost or doubled by the sorting.
\<close>
lemma entries_in_natural_order:
  "sorted (map entry_rank (sort_entries_natural es)) \<and> mset (sort_entries_natural es) = mset es \<and>
    (compare_entries a b \<le> 0 \<longleftrightarrow> entry_rank a \<le> entry_rank b) \<and> compare_grade ''S2'' ''S10'' < 0"
proof -
  have "compare_grade ''S2'' ''S10'' < 0" by code_simp
  moreover have "mset (sort_key entry_rank es) = mset es" by (rule mset_sort)
  ultimately show ?thesis by (simp add: sort_entries_natural_rank compare_entries_rank)
qed

end
