(* ===== verification/BudgetItems.thy ===== *)
theory BudgetItems
  imports PeriodTables SqlTypes Statistics Organizations
begin

text \<open>
  Budget items and their entries: \<open>internal/service/budget_item.go\<close>, the queries of
  \<open>internal/store/budget_item.go\<close> and the overlap query of \<open>internal/store/period.go\<close>, with the
  constraints of migrations 000016 and 000017. An operation that checks for overlaps gets the
  entries its check saw and the tables its insert meets as different arguments, since a concurrent
  transaction may commit in between. \<open>lower\<close> is PostgreSQL's. The other operations are single steps;
  so is the update of an item, although the code counts the entries and saves the item in separate
  statements, so that an entry inserted between the two is not seen here.
\<close>

section \<open>Tables\<close>

record budget_item_row =
  bw_id :: nat
  bw_org :: nat
  bw_name :: string
  bw_category :: string
  bw_per_child :: bool

record budget_entry_row = budget_entry +
  bx_item :: nat
  bx_notes :: string

record budget_db =
  bd_items :: "budget_item_row list"
  bd_entries :: "budget_entry_row list"
  bd_next_item :: nat
  bd_next_entry :: nat
  bd_orgs :: "nat list"

definition valid_budget_item_category :: "string \<Rightarrow> bool" where
  "valid_budget_item_category c \<longleftrightarrow> c \<in> {''income'', ''expense''}"

text \<open>The CHECK, the column width and the unique index on the normalised name.\<close>

definition budget_item_checks ::
    "(string \<Rightarrow> string) \<Rightarrow> budget_db \<Rightarrow> budget_item_row \<Rightarrow> unit outcome" where
  "budget_item_checks lower db r =
     bindE (varchar 255 (bw_name r)) (\<lambda>_.
     bindE (varchar 50 (bw_category r)) (\<lambda>_.
     bindE (ensureE (valid_budget_item_category (bw_category r)) (PgError ''23514'')) (\<lambda>_.
       ensureE (\<not> list_ex (\<lambda>s. bw_org s = bw_org r \<and> bw_id s \<noteq> bw_id r \<and>
           lower (sql_trim (bw_name s)) = lower (sql_trim (bw_name r))) (bd_items db))
         (PgError ''23505''))))"

definition insert_budget_item ::
    "(string \<Rightarrow> string) \<Rightarrow> budget_db \<Rightarrow> budget_item_row \<Rightarrow> (budget_item_row \<times> budget_db) outcome" where
  "insert_budget_item lower db r =
     (let r' = r\<lparr>bw_id := bd_next_item db\<rparr>
      in bindE (budget_item_checks lower db r') (\<lambda>_.
         bindE (ensureE (bw_org r \<in> set (bd_orgs db)) (PgError ''23503'')) (\<lambda>_.
           Inr (r', db\<lparr>bd_items := bd_items db @ [r'], bd_next_item := Suc (bd_next_item db)\<rparr>))))"

definition save_budget_item ::
    "(string \<Rightarrow> string) \<Rightarrow> budget_db \<Rightarrow> budget_item_row \<Rightarrow> budget_db outcome" where
  "save_budget_item lower db r =
     bindE (budget_item_checks lower db r) (\<lambda>_.
       Inr (db\<lparr>bd_items := map (\<lambda>s. if bw_id s = bw_id r then r else s) (bd_items db)\<rparr>))"

definition find_budget_item :: "budget_db \<Rightarrow> nat \<Rightarrow> budget_item_row outcome" where
  "find_budget_item db i =
     (case find (\<lambda>r. bw_id r = i) (bd_items db) of None \<Rightarrow> Inl (StoreError StoreNotFound) | Some r \<Rightarrow> Inr r)"

text \<open>The entries go with their item.\<close>

definition delete_budget_item_row :: "budget_db \<Rightarrow> nat \<Rightarrow> budget_db" where
  "delete_budget_item_row db i =
     db\<lparr>bd_items := filter (\<lambda>r. bw_id r \<noteq> i) (bd_items db),
        bd_entries := filter (\<lambda>e. bx_item e \<noteq> i) (bd_entries db)\<rparr>"

definition entries_of_item :: "budget_entry_row list \<Rightarrow> nat \<Rightarrow> budget_entry_row list" where
  "entries_of_item es i = filter (\<lambda>e. bx_item e = i) es"

definition count_entries :: "budget_db \<Rightarrow> nat \<Rightarrow> int" where
  "count_entries db i = int (length (entries_of_item (bd_entries db) i))"

text \<open>
  \<open>daterange\<close> refuses a lower bound above the upper one; then the exclusion constraint compares
  the row with the other entries of the item.
\<close>

definition budget_entry_checks :: "budget_db \<Rightarrow> budget_entry_row \<Rightarrow> unit outcome" where
  "budget_entry_checks db e =
     (let f = local_day (p_from e); t = day_opt (p_to e)
      in if \<not> in_int4 (be_amount_cents e) then Inl int4_error
         else bindE (varchar 500 (bx_notes e)) (\<lambda>_.
              bindE (ensureE (0 \<le> be_amount_cents e) (PgError ''23514'')) (\<lambda>_.
              bindE (ensureE (case t of None \<Rightarrow> True | Some u \<Rightarrow> f \<le> u + 1) (PgError ''22000'')) (\<lambda>_.
                ensureE (\<not> list_ex (\<lambda>r. be_id r \<noteq> be_id e \<and>
                    daterange_overlap (local_day (p_from r)) (day_opt (p_to r)) f t)
                  (entries_of_item (bd_entries db) (bx_item e))) (PgError ''23P01'')))))"

definition insert_budget_entry ::
    "budget_db \<Rightarrow> budget_entry_row \<Rightarrow> (budget_entry_row \<times> budget_db) outcome" where
  "insert_budget_entry db e =
     (let e' = e\<lparr>be_id := bd_next_entry db\<rparr>
      in bindE (budget_entry_checks db e') (\<lambda>_.
         bindE (ensureE (list_ex (\<lambda>r. bw_id r = bx_item e) (bd_items db)) (PgError ''23503'')) (\<lambda>_.
           Inr (e', db\<lparr>bd_entries := bd_entries db @ [e'], bd_next_entry := Suc (bd_next_entry db)\<rparr>))))"

definition find_budget_entry :: "budget_db \<Rightarrow> nat \<Rightarrow> budget_entry_row outcome" where
  "find_budget_entry db i =
     (case find (\<lambda>e. be_id e = i) (bd_entries db) of None \<Rightarrow> Inl (StoreError StoreNotFound) | Some e \<Rightarrow> Inr e)"

definition save_budget_entry :: "budget_db \<Rightarrow> budget_entry_row \<Rightarrow> budget_db outcome" where
  "save_budget_entry db e =
     bindE (budget_entry_checks db e) (\<lambda>_.
       Inr (db\<lparr>bd_entries := map (\<lambda>r. if be_id r = be_id e then e else r) (bd_entries db)\<rparr>))"

definition delete_budget_entry_row :: "budget_db \<Rightarrow> nat \<Rightarrow> budget_db" where
  "delete_budget_entry_row db i = db\<lparr>bd_entries := filter (\<lambda>e. be_id e \<noteq> i) (bd_entries db)\<rparr>"

text \<open>\<open>PeriodStore.ValidateNoOverlap\<close> on the entries the transaction sees.\<close>

definition validate_no_overlap_entries ::
    "budget_entry_row list \<Rightarrow> nat \<Rightarrow> gtime \<Rightarrow> gtime option \<Rightarrow> nat option \<Rightarrow> unit outcome" where
  "validate_no_overlap_entries seen i from to exclude =
     ensureE (\<not> list_ex (\<lambda>e. exclude \<noteq> Some (be_id e) \<and>
         sql_overlap (local_day (p_from e)) (day_opt (p_to e)) (local_day from) (day_opt to))
       (entries_of_item seen i)) (StoreError StorePeriodOverlap)"

section \<open>Reading items\<close>

text \<open>\<open>Preload("Entries")\<close>, newest first.\<close>

definition entries_desc :: "budget_db \<Rightarrow> nat \<Rightarrow> budget_entry_row list" where
  "entries_desc db i = sort_key (\<lambda>e. - local_day (p_from e)) (entries_of_item (bd_entries db) i)"

record budget_item_response =
  br_item :: budget_item_row
  br_active_amount :: "int option"

definition budget_item_to_response ::
    "budget_item_row \<Rightarrow> 'a budget_entry_scheme list \<Rightarrow> gtime \<Rightarrow> budget_item_response" where
  "budget_item_to_response r es as_of =
     \<lparr>br_item = r, br_active_amount = map_option be_amount_cents (find (\<lambda>e. is_active_on e as_of) es)\<rparr>"

definition get_budget_item ::
    "budget_db \<Rightarrow> nat \<Rightarrow> nat \<Rightarrow> (budget_item_row \<times> budget_entry_row list) outcome" where
  "get_budget_item db i org =
     (case find_budget_item db i of
        Inl e \<Rightarrow> Inl (if is_store_error e StoreNotFound then not_found ''budget item''
                     else internal_wrap e ''failed to fetch budget item'')
      | Inr r \<Rightarrow> if bw_org r \<noteq> org then Inl (not_found ''budget item'') else Inr (r, entries_desc db i))"

text \<open>
  The page of a list without search text, ordered by name; \<open>collate\<close> is the order of the database.
\<close>

definition list_budget_items ::
    "(string \<Rightarrow> string) \<Rightarrow> budget_db \<Rightarrow> nat \<Rightarrow> gtime \<Rightarrow> nat \<Rightarrow> nat \<Rightarrow> budget_item_response list \<times> int" where
  "list_budget_items collate db org this_day limit offset =
     (let rows = filter (\<lambda>r. bw_org r = org) (bd_items db)
      in (map (\<lambda>r. budget_item_to_response r (entries_desc db (bw_id r)) this_day)
            (take limit (drop offset (sort_key (\<lambda>r. collate (bw_name r)) rows))),
          int (length rows)))"

text \<open>What the financials calculator loads.\<close>

definition load_budget_item :: "budget_db \<Rightarrow> budget_item_row \<Rightarrow> budget_item" where
  "load_budget_item db r =
     \<lparr>bi_name = bw_name r, bi_category = bw_category r, bi_per_child = bw_per_child r,
      bi_entries = map budget_entry.truncate (entries_desc db (bw_id r))\<rparr>"

definition find_items_with_entries :: "budget_db \<Rightarrow> nat \<Rightarrow> budget_item list" where
  "find_items_with_entries db org = map (load_budget_item db) (filter (\<lambda>r. bw_org r = org) (bd_items db))"

section \<open>Ownership\<close>

definition verify_budget_item_ownership :: "budget_db \<Rightarrow> nat \<Rightarrow> nat \<Rightarrow> budget_item_row outcome" where
  "verify_budget_item_ownership db i org =
     (case find_budget_item db i of
        Inl e \<Rightarrow> Inl (if is_store_error e StoreNotFound then not_found ''budget item''
                     else internal_wrap e ''failed to fetch budget item'')
      | Inr r \<Rightarrow> bindE (verify_org_ownership (bw_org r) org ''budget item'') (\<lambda>_. Inr r))"

definition verify_budget_entry_ownership :: "budget_db \<Rightarrow> nat \<Rightarrow> nat \<Rightarrow> budget_entry_row outcome" where
  "verify_budget_entry_ownership db i item =
     (case find_budget_entry db i of
        Inl e \<Rightarrow> Inl (if is_store_error e StoreNotFound then not_found ''budget item entry''
                     else internal_wrap e ''failed to fetch budget item entry'')
      | Inr e \<Rightarrow> bindE (verify_record_ownership (bx_item e) item ''budget item entry'') (\<lambda>_. Inr e))"

section \<open>Entries\<close>

record budget_entry_request =
  bq_from :: gtime
  bq_to :: "gtime option"
  bq_amount :: int
  bq_notes :: string

definition overlap_conflict :: "go_error \<Rightarrow> go_error" where
  "overlap_conflict e =
     (if is_store_error e StorePeriodOverlap then conflict ''budget item entry overlaps with existing entry''
      else internal_wrap e ''failed to validate overlap'')"

definition requested_entry :: "nat \<Rightarrow> nat \<Rightarrow> budget_entry_request \<Rightarrow> budget_entry_row" where
  "requested_entry i item req =
     \<lparr>p_from = p_from (stored_period (bq_from req) (bq_to req)), p_to = p_to (stored_period (bq_from req) (bq_to req)),
      be_id = i, be_amount_cents = bq_amount req, bx_item = item, bx_notes = bq_notes req\<rparr>"

definition create_budget_entry ::
    "budget_entry_row list \<Rightarrow> budget_db \<Rightarrow> nat \<Rightarrow> nat \<Rightarrow> budget_entry_request \<Rightarrow>
      budget_entry_row outcome \<times> budget_db" where
  "create_budget_entry seen db item org req =
     (case (bindE (verify_budget_item_ownership db item org) (\<lambda>_.
            bindE (validate_period_400 (bq_from req) (bq_to req)) (\<lambda>_.
            bindE (map_error overlap_conflict
                (validate_no_overlap_entries seen item (bq_from req) (bq_to req) None)) (\<lambda>_.
              map_error (\<lambda>e. internal_wrap e ''failed to create budget item entry'')
                (insert_budget_entry db (requested_entry 0 item req))))))
      of Inl e \<Rightarrow> (Inl e, db) | Inr (e, db') \<Rightarrow> (Inr e, db'))"

definition update_budget_entry ::
    "budget_entry_row list \<Rightarrow> budget_db \<Rightarrow> nat \<Rightarrow> nat \<Rightarrow> nat \<Rightarrow> budget_entry_request \<Rightarrow>
      budget_entry_row outcome \<times> budget_db" where
  "update_budget_entry seen db i item org req =
     (case (bindE (verify_budget_item_ownership db item org) (\<lambda>_.
            bindE (verify_budget_entry_ownership db i item) (\<lambda>_.
            bindE (validate_period_400 (bq_from req) (bq_to req)) (\<lambda>_.
            bindE (map_error overlap_conflict
                (validate_no_overlap_entries seen item (bq_from req) (bq_to req) (Some i))) (\<lambda>_.
              map_error (\<lambda>e. internal_wrap e ''failed to update budget item entry'')
                (save_budget_entry db (requested_entry i item req)))))))
      of Inl e \<Rightarrow> (Inl e, db) | Inr db' \<Rightarrow> (Inr (requested_entry i item req), db'))"

definition delete_budget_entry ::
    "budget_db \<Rightarrow> nat \<Rightarrow> nat \<Rightarrow> nat \<Rightarrow> unit outcome \<times> budget_db" where
  "delete_budget_entry db i item org =
     (case (bindE (verify_budget_item_ownership db item org) (\<lambda>_. verify_budget_entry_ownership db i item))
      of Inl e \<Rightarrow> (Inl e, db) | Inr _ \<Rightarrow> (Inr (), delete_budget_entry_row db i))"

section \<open>Items\<close>

record budget_create_request =
  bc_name :: string
  bc_category :: string
  bc_per_child :: bool
  bc_entry :: "budget_entry_request option"

definition category_error :: go_error where
  "category_error =
     bad_request (''category must be '' @ [CHR 0x27] @ ''income'' @ [CHR 0x27] @ '' or '' @ [CHR 0x27] @ ''expense'' @ [CHR 0x27])"

definition budget_name_taken :: "go_error \<Rightarrow> string \<Rightarrow> go_error" where
  "budget_name_taken e what =
     (if is_duplicate_key_error e then conflict ''budget item with this name already exists in the organization''
      else internal_wrap e what)"

text \<open>
  The item and its first entry are one transaction, in which no other entry of the new item can be
  seen. The answer is made from the item alone, whose entries were not loaded.
\<close>

definition add_first_entry ::
    "budget_db \<Rightarrow> nat \<Rightarrow> budget_item_row \<Rightarrow> budget_entry_request option \<Rightarrow> (budget_item_row \<times> budget_db) outcome" where
  "add_first_entry db org r entry =
     (case entry of
        None \<Rightarrow> Inr (r, db)
      | Some q \<Rightarrow> (case create_budget_entry [] db (bw_id r) org q of
                     (Inl e, _) \<Rightarrow> Inl e
                   | (Inr _, db') \<Rightarrow> Inr (r, db')))"

definition create_budget_item ::
    "(string \<Rightarrow> string) \<Rightarrow> budget_db \<Rightarrow> nat \<Rightarrow> budget_create_request \<Rightarrow> gtime \<Rightarrow>
      budget_item_response outcome \<times> budget_db" where
  "create_budget_item lower db org req this_day =
     (case (bindE (validate_required_name (bc_name req)) (\<lambda>name.
            bindE (ensureE (valid_budget_item_category (bc_category req)) category_error) (\<lambda>_.
            bindE (map_error (\<lambda>e. budget_name_taken e ''failed to create budget item'')
              (insert_budget_item lower db \<lparr>bw_id = 0, bw_org = org, bw_name = name, bw_category = bc_category req,
                 bw_per_child = bc_per_child req\<rparr>)) (\<lambda>(r, db1).
              add_first_entry db1 org r (bc_entry req)))))
      of Inl e \<Rightarrow> (Inl e, db)
       | Inr (r, db') \<Rightarrow> (Inr (budget_item_to_response r ([] :: budget_entry list) this_day), db'))"

record budget_update_request =
  bu_name :: "string option"
  bu_category :: "string option"
  bu_per_child :: "bool option"

definition meaning_locked :: "bool \<Rightarrow> bool \<Rightarrow> go_error" where
  "meaning_locked category per_child =
     bad_request
       ((if category \<and> per_child then ''cannot change category and per_child while entries exist''
         else if category then ''cannot change category while entries exist''
         else ''cannot change per_child while entries exist'')
        @ ''; delete entries first or create a new budget item'')"

definition update_budget_item ::
    "(string \<Rightarrow> string) \<Rightarrow> budget_db \<Rightarrow> nat \<Rightarrow> nat \<Rightarrow> budget_update_request \<Rightarrow> gtime \<Rightarrow>
      budget_item_response outcome \<times> budget_db" where
  "update_budget_item lower db i org req this_day =
     (case (bindE (verify_budget_item_ownership db i org) (\<lambda>r.
            bindE (case bu_name req of None \<Rightarrow> Inr (bw_name r) | Some n \<Rightarrow> validate_required_name n) (\<lambda>name.
            let category_changing = (case bu_category req of None \<Rightarrow> False | Some c \<Rightarrow> c \<noteq> bw_category r);
                per_child_changing = (case bu_per_child req of None \<Rightarrow> False | Some b \<Rightarrow> b \<noteq> bw_per_child r)
            in bindE (ensureE (\<not> ((category_changing \<or> per_child_changing) \<and> 0 < count_entries db i))
                 (meaning_locked category_changing per_child_changing)) (\<lambda>_.
               bindE (case bu_category req of None \<Rightarrow> Inr (bw_category r)
                      | Some c \<Rightarrow> if valid_budget_item_category c then Inr c else Inl category_error) (\<lambda>category.
               let r' = r\<lparr>bw_name := name, bw_category := category,
                          bw_per_child := (case bu_per_child req of None \<Rightarrow> bw_per_child r | Some b \<Rightarrow> b)\<rparr>
               in bindE (map_error (\<lambda>e. budget_name_taken e ''failed to update budget item'')
                    (save_budget_item lower db r')) (\<lambda>db'. Inr (r', db')))))))
      of Inl e \<Rightarrow> (Inl e, db)
       | Inr (r', db') \<Rightarrow> (Inr (budget_item_to_response r' ([] :: budget_entry list) this_day), db'))"

definition delete_budget_item :: "budget_db \<Rightarrow> nat \<Rightarrow> nat \<Rightarrow> unit outcome \<times> budget_db" where
  "delete_budget_item db i org =
     (case verify_budget_item_ownership db i org of
        Inl e \<Rightarrow> (Inl e, db) | Inr _ \<Rightarrow> (Inr (), delete_budget_item_row db i))"

end
