(* ===== verification/BudgetLaws.thy ===== *)
theory BudgetLaws
  imports BudgetItems StatisticsLaws TableLaws
begin

text \<open>
  What requests on budget items keep: well-formed rows, entries of an item that share no day, the
  meaning of an item that has entries, and so one amount per item and day.
\<close>

section \<open>Requests\<close>

text \<open>
  \<open>seen\<close> is arbitrary: nothing is assumed of the entries the overlap check of the service reads.
\<close>

inductive budget_step :: "(string \<Rightarrow> string) \<Rightarrow> budget_db \<Rightarrow> budget_db \<Rightarrow> bool" for lower where
  item_created: "create_budget_item lower db org creq this_day = (x, db') \<Longrightarrow> budget_step lower db db'"
| item_updated: "update_budget_item lower db i org ureq this_day = (x, db') \<Longrightarrow> budget_step lower db db'"
| item_deleted: "delete_budget_item db i org = (y, db') \<Longrightarrow> budget_step lower db db'"
| entry_created: "create_budget_entry seen db i org req = (z, db') \<Longrightarrow> budget_step lower db db'"
| entry_updated: "update_budget_entry seen db e i org req = (z, db') \<Longrightarrow> budget_step lower db db'"
| entry_deleted: "delete_budget_entry db e i org = (y, db') \<Longrightarrow> budget_step lower db db'"
| organizations_changed: "budget_step lower db (db\<lparr>bd_orgs := os\<rparr>)"

inductive budget_write :: "(string \<Rightarrow> string) \<Rightarrow> budget_db \<Rightarrow> budget_db \<Rightarrow> bool" for lower where
  b_item: "insert_budget_item lower db r = Inr (r', db') \<Longrightarrow> name_ok (bw_name r) \<Longrightarrow> budget_write lower db db'"
| b_save_item: "save_budget_item lower db r' = Inr db' \<Longrightarrow> find_budget_item db (bw_id r') = Inr r \<Longrightarrow>
    bw_name r' = bw_name r \<or> name_ok (bw_name r') \<Longrightarrow>
    (bw_category r', bw_per_child r') = (bw_category r, bw_per_child r) \<or> entries_of_item (bd_entries db) (bw_id r') = [] \<Longrightarrow>
    budget_write lower db db'"
| b_drop_item: "budget_write lower db (delete_budget_item_row db i)"
| b_entry: "insert_budget_entry db (requested_entry 0 i req) = Inr (e, db') \<Longrightarrow> budget_write lower db db'"
| b_save_entry: "save_budget_entry db (requested_entry e i req) = Inr db' \<Longrightarrow> find_budget_entry db e = Inr d \<Longrightarrow>
    bx_item d = i \<Longrightarrow> budget_write lower db db'"
| b_drop_entry: "budget_write lower db (delete_budget_entry_row db i)"
| b_orgs: "budget_write lower db (db\<lparr>bd_orgs := os\<rparr>)"

lemma find_budget_item_id: "find_budget_item db i = Inr r \<Longrightarrow> bw_id r = i \<and> r \<in> set (bd_items db)"
  by (auto simp add: find_budget_item_def find_Some_iff split: option.splits)

lemma find_budget_entry_id: "find_budget_entry db i = Inr e \<Longrightarrow> be_id e = i \<and> e \<in> set (bd_entries db)"
  by (auto simp add: find_budget_entry_def find_Some_iff split: option.splits)

lemma verify_item_Inr: "verify_budget_item_ownership db i org = Inr r \<Longrightarrow> find_budget_item db i = Inr r"
  by (auto simp add: verify_budget_item_ownership_def result_simps split: sum.splits)

lemma verify_budget_entry_Inr:
  "verify_budget_entry_ownership db i item = Inr e \<Longrightarrow> find_budget_entry db i = Inr e \<and> bx_item e = item"
  by (auto simp add: verify_budget_entry_ownership_def verify_record_ownership_def result_simps split: sum.splits)

lemma create_entry_writes:
  assumes "create_budget_entry seen db i org req = (z, db')"
  shows "(budget_write lower)\<^sup>*\<^sup>* db db'"
proof (cases "db' = db")
  case False
  then obtain e where "insert_budget_entry db (requested_entry 0 i req) = Inr (e, db')"
    using assms by (auto simp add: create_budget_entry_def result_simps split: sum.split_asm)
  then show ?thesis by (blast intro: b_entry)
qed simp

lemma add_first_entry_writes:
  assumes "add_first_entry db org r q = Inr (r', db')"
  shows "r' = r" and "(budget_write lower)\<^sup>*\<^sup>* db db'"
proof -
  have "r' = r \<and> (budget_write lower)\<^sup>*\<^sup>* db db'"
  proof (cases q)
    case (Some x)
    obtain z db2 where c: "create_budget_entry [] db (bw_id r) org x = (z, db2)" by fastforce
    then show ?thesis using assms create_entry_writes [OF c] by (cases z) (auto simp add: add_first_entry_def Some)
  qed (use assms in \<open>simp add: add_first_entry_def\<close>)
  then show "r' = r" and "(budget_write lower)\<^sup>*\<^sup>* db db'" by simp_all
qed

lemma create_item_writes:
  assumes "create_budget_item lower db org req this_day = (x, db')"
  shows "(budget_write lower)\<^sup>*\<^sup>* db db'"
proof (cases x)
  case (Inr resp)
  then obtain name r r' db1 where n: "validate_required_name (bc_name req) = Inr name"
      and i: "insert_budget_item lower db \<lparr>bw_id = 0, bw_org = org, bw_name = name, bw_category = bc_category req,
                 bw_per_child = bc_per_child req\<rparr> = Inr (r, db1)"
      and e: "add_first_entry db1 org r (bc_entry req) = Inr (r', db')"
    using assms by (auto simp add: create_budget_item_def result_simps split: sum.split_asm)
  have "budget_write lower db db1" using validate_required_name_Inr [OF n] by (intro b_item [OF i]) simp
  then show ?thesis using add_first_entry_writes(2) [OF e] by (rule converse_rtranclp_into_rtranclp)
next
  case (Inl e)
  then show ?thesis using assms by (auto simp add: create_budget_item_def split: sum.split_asm prod.split_asm)
qed

lemma update_item_writes:
  assumes "update_budget_item lower db i org req this_day = (x, db')"
  shows "(budget_write lower)\<^sup>*\<^sup>* db db'"
proof (cases x)
  case (Inl e)
  then show ?thesis using assms by (auto simp add: update_budget_item_def split: sum.split_asm prod.split_asm)
next
  case (Inr resp)
  let ?cc = "\<lambda>r. case bu_category req of None \<Rightarrow> False | Some c \<Rightarrow> c \<noteq> bw_category r"
  let ?pc = "\<lambda>r. case bu_per_child req of None \<Rightarrow> False | Some b \<Rightarrow> b \<noteq> bw_per_child r"
  obtain r name category where v: "verify_budget_item_ownership db i org = Inr r"
      and n: "(case bu_name req of None \<Rightarrow> Inr (bw_name r) | Some n \<Rightarrow> validate_required_name n) = Inr name"
      and l: "\<not> ((?cc r \<or> ?pc r) \<and> 0 < count_entries db i)"
      and c: "(case bu_category req of None \<Rightarrow> Inr (bw_category r)
               | Some c \<Rightarrow> if valid_budget_item_category c then Inr c else Inl category_error) = Inr category"
      and s: "save_budget_item lower db (r\<lparr>bw_name := name, bw_category := category,
                bw_per_child := (case bu_per_child req of None \<Rightarrow> bw_per_child r | Some b \<Rightarrow> b)\<rparr>) = Inr db'"
    using assms Inr by (simp add: update_budget_item_def Let_def split: sum.split_asm) (auto simp add: result_simps Let_def)
  have i: "bw_id r = i" using find_budget_item_id [OF verify_item_Inr [OF v]] by simp
  have "budget_write lower db db'"
  proof (rule b_save_item [OF s, of r])
    show "find_budget_item db (bw_id (r\<lparr>bw_name := name, bw_category := category,
        bw_per_child := (case bu_per_child req of None \<Rightarrow> bw_per_child r | Some b \<Rightarrow> b)\<rparr>)) = Inr r"
      using verify_item_Inr [OF v] i by simp
  qed (use n l c i validate_required_name_Inr in
      \<open>auto simp add: count_entries_def split: option.split_asm if_split_asm option.split\<close>)
  then show ?thesis by blast
qed

lemma budget_step_writes:
  assumes "budget_step lower db db'"
  shows "(budget_write lower)\<^sup>*\<^sup>* db db'"
  using assms
proof (cases rule: budget_step.cases)
  case (entry_updated seen e i org req z)
  show ?thesis
  proof (cases "db' = db")
    case False
    then obtain d where "verify_budget_entry_ownership db e i = Inr d" "save_budget_entry db (requested_entry e i req) = Inr db'"
      using entry_updated by (auto simp add: update_budget_entry_def result_simps split: sum.split_asm)
    then show ?thesis using verify_budget_entry_Inr by (blast intro: b_save_entry)
  qed simp
qed (auto simp add: delete_budget_item_def delete_budget_entry_def split: sum.split_asm
    intro: create_item_writes update_item_writes create_entry_writes b_drop_item b_drop_entry b_orgs)


section \<open>Rows\<close>

definition budget_items_ok :: "(string \<Rightarrow> string) \<Rightarrow> budget_db \<Rightarrow> bool" where
  "budget_items_ok lower db \<longleftrightarrow> distinct (map bw_id (bd_items db)) \<and>
     distinct (map (\<lambda>r. (bw_org r, lower (sql_trim (bw_name r)))) (bd_items db)) \<and>
     (\<forall>r \<in> set (bd_items db). bw_id r < bd_next_item db \<and> name_ok (bw_name r) \<and>
       valid_budget_item_category (bw_category r))"

definition budget_entries_ok :: "budget_db \<Rightarrow> bool" where
  "budget_entries_ok db \<longleftrightarrow>
     (\<forall>e \<in> set (bd_entries db). bx_item e \<in> bw_id ` set (bd_items db) \<and> 0 \<le> be_amount_cents e \<and>
       in_int4 (be_amount_cents e) \<and> utf8_length (bx_notes e) \<le> 500 \<and>
       p_from e = midnight (local_day (p_from e)) \<and> p_to e = map_option midnight (day_opt (p_to e)))"

definition budget_rows_ok :: "(string \<Rightarrow> string) \<Rightarrow> budget_db \<Rightarrow> bool" where
  "budget_rows_ok lower db \<longleftrightarrow> budget_items_ok lower db \<and> budget_entries_ok db"

lemma item_checks_Inr:
  "budget_item_checks lower db r = Inr u \<Longrightarrow> valid_budget_item_category (bw_category r) \<and>
    (\<forall>s \<in> set (bd_items db). bw_id s \<noteq> bw_id r \<longrightarrow>
      (bw_org s, lower (sql_trim (bw_name s))) \<noteq> (bw_org r, lower (sql_trim (bw_name r))))"
  by (auto simp add: budget_item_checks_def result_simps list_ex_iff)

lemma insert_item_Inr:
  assumes "insert_budget_item lower db r = Inr (r', db')"
  shows "r' = r\<lparr>bw_id := bd_next_item db\<rparr>" and "budget_item_checks lower db r' = Inr ()"
    and "db' = db\<lparr>bd_items := bd_items db @ [r'], bd_next_item := Suc (bd_next_item db)\<rparr>"
  using assms by (auto simp add: insert_budget_item_def result_simps Let_def)

lemma save_item_Inr:
  assumes "save_budget_item lower db r = Inr db'"
  shows "db' = db\<lparr>bd_items := map (\<lambda>s. if bw_id s = bw_id r then r else s) (bd_items db)\<rparr>"
    and "budget_item_checks lower db r = Inr ()"
  using assms by (auto simp add: save_budget_item_def result_simps)

lemma budget_entry_checks_Inr:
  assumes "budget_entry_checks db e = Inr u"
  shows "in_int4 (be_amount_cents e)" and "0 \<le> be_amount_cents e" and "utf8_length (bx_notes e) \<le> 500"
    and "\<And>r. r \<in> set (bd_entries db) \<Longrightarrow> bx_item r = bx_item e \<Longrightarrow> be_id r \<noteq> be_id e \<Longrightarrow>
      days (local_day (p_from e)) (day_opt (p_to e)) \<inter> period_days r = {}"
  using assms
  by (auto simp add: budget_entry_checks_def Let_def varchar_def result_simps list_ex_iff entries_of_item_def
      daterange_overlap_days period_days_def split: if_splits)

lemma insert_entry_row_Inr:
  assumes "insert_budget_entry db e = Inr (e', db')"
  shows "e' = e\<lparr>be_id := bd_next_entry db\<rparr>" and "budget_entry_checks db e' = Inr ()"
    and "bx_item e \<in> bw_id ` set (bd_items db)"
    and "db' = db\<lparr>bd_entries := bd_entries db @ [e'], bd_next_entry := Suc (bd_next_entry db)\<rparr>"
  using assms by (force simp add: insert_budget_entry_def result_simps Let_def list_ex_iff)+

lemma save_entry_row_Inr:
  assumes "save_budget_entry db e = Inr db'"
  shows "db' = db\<lparr>bd_entries := map (\<lambda>r. if be_id r = be_id e then e else r) (bd_entries db)\<rparr>"
    and "budget_entry_checks db e = Inr ()"
  using assms by (auto simp add: save_budget_entry_def result_simps)

lemma requested_entry_simps [simp]:
  "be_id (requested_entry i item req) = i" "bx_item (requested_entry i item req) = item"
  "p_from (requested_entry i item req) = midnight (local_day (bq_from req))"
  "p_to (requested_entry i item req) = map_option midnight (day_opt (bq_to req))"
  by (simp_all add: requested_entry_def)

lemma write_items_ok:
  assumes "budget_write lower db db'" and "budget_items_ok lower db"
  shows "budget_items_ok lower db'"
  using assms
proof (cases rule: budget_write.cases)
  case (b_item r r')
  note i = insert_item_Inr [OF b_item(1)] and c = item_checks_Inr [OF insert_item_Inr(2) [OF b_item(1)]]
  have new: "\<And>s. s \<in> set (bd_items db) \<Longrightarrow> bw_id s \<noteq> bd_next_item db" using assms(2) by (auto simp add: budget_items_ok_def)
  then have "(bw_org r', lower (sql_trim (bw_name r'))) \<notin> (\<lambda>s. (bw_org s, lower (sql_trim (bw_name s)))) ` set (bd_items db)"
    using c i(1) by fastforce
  then show ?thesis using assms(2) i c new b_item(2) by (auto simp add: budget_items_ok_def less_Suc_eq)
next
  case (b_save_item r' r)
  note i = save_item_Inr [OF b_save_item(1)] and c = item_checks_Inr [OF save_item_Inr(2) [OF b_save_item(1)]]
  have r: "bw_id r = bw_id r'" "r \<in> set (bd_items db)" using find_budget_item_id [OF b_save_item(2)] by auto
  have p: "bd_items db' = map (\<lambda>s. if bw_id s = bw_id r' then r' else s) (bd_items db)"
    and same: "bd_next_item db' = bd_next_item db" by (simp_all add: i(1))
  have "name_ok (bw_name r')" using assms(2) r b_save_item(3) by (auto simp add: budget_items_ok_def)
  moreover have "distinct (map (\<lambda>r. (bw_org r, lower (sql_trim (bw_name r)))) (bd_items db'))"
    unfolding p using assms(2) c by (intro distinct_map_update) (auto simp add: budget_items_ok_def)
  moreover have "map bw_id (bd_items db') = map bw_id (bd_items db)" unfolding p by (rule map_update_same)
  moreover have "\<forall>s \<in> set (bd_items db'). bw_id s < bd_next_item db \<and> name_ok (bw_name s) \<and>
       valid_budget_item_category (bw_category s)"
    using assms(2) calculation(1) r c by (auto simp add: p budget_items_ok_def)
  ultimately show ?thesis using assms(2) by (simp only: budget_items_ok_def same)
next
  case (b_entry i req e)
  show ?thesis using assms(2) insert_entry_row_Inr [OF b_entry] by (simp add: budget_items_ok_def)
next
  case (b_save_entry e i req d)
  show ?thesis using assms(2) save_entry_row_Inr [OF b_save_entry(1)] by (simp add: budget_items_ok_def)
qed (auto simp add: budget_items_ok_def delete_budget_item_row_def delete_budget_entry_row_def distinct_map_filter)

lemma write_budget_entries_ok:
  assumes "budget_write lower db db'" and "budget_entries_ok db"
  shows "budget_entries_ok db'"
  using assms
proof (cases rule: budget_write.cases)
  case (b_item r r')
  show ?thesis using assms(2) insert_item_Inr [OF b_item(1)] by (auto simp add: budget_entries_ok_def)
next
  case (b_save_item r' r)
  have p: "bd_items db' = map (\<lambda>s. if bw_id s = bw_id r' then r' else s) (bd_items db)"
    and e: "bd_entries db' = bd_entries db" by (simp_all add: save_item_Inr(1) [OF b_save_item(1)])
  have "map bw_id (bd_items db') = map bw_id (bd_items db)" unfolding p by (rule map_update_same)
  then have "bw_id ` set (bd_items db') = bw_id ` set (bd_items db)" by (metis set_map)
  then show ?thesis using assms(2) by (simp add: budget_entries_ok_def e)
next
  case (b_entry i req e)
  note x = insert_entry_row_Inr [OF b_entry] and c = budget_entry_checks_Inr(1-3) [OF insert_entry_row_Inr(2) [OF b_entry]]
  show ?thesis using assms(2) x c by (auto simp add: budget_entries_ok_def)
next
  case (b_save_entry e i req d)
  note x = save_entry_row_Inr [OF b_save_entry(1)] and c = budget_entry_checks_Inr(1-3) [OF save_entry_row_Inr(2) [OF b_save_entry(1)]]
  have "i \<in> bw_id ` set (bd_items db)" using assms(2) find_budget_entry_id [OF b_save_entry(2)] b_save_entry(3)
    by (auto simp add: budget_entries_ok_def)
  then show ?thesis using assms(2) x c by (auto simp add: budget_entries_ok_def)
qed (auto simp add: budget_entries_ok_def delete_budget_item_row_def delete_budget_entry_row_def)

lemma budget_writes_ok:
  "(budget_write lower)\<^sup>*\<^sup>* db db' \<Longrightarrow> budget_rows_ok lower db \<Longrightarrow> budget_rows_ok lower db'"
  by (induction rule: rtranclp_induct) (auto simp add: budget_rows_ok_def intro: write_items_ok write_budget_entries_ok)

section \<open>Entries as spans\<close>

definition entry_span :: "budget_entry_row \<Rightarrow> span" where
  "entry_span e = \<lparr>sp_id = be_id e, sp_owner = bx_item e, sp_from = local_day (p_from e), sp_to = day_opt (p_to e)\<rparr>"

definition budget_spans :: "budget_db \<Rightarrow> span_table" where
  "budget_spans db = (bd_next_entry db, map entry_span (bd_entries db))"

lemma entry_span_simps [simp]:
  "sp_id (entry_span e) = be_id e" "sp_owner (entry_span e) = bx_item e" "span_days (entry_span e) = period_days e"
  by (simp_all add: entry_span_def span_days_def period_days_def)

lemma budget_write_spans:
  assumes "budget_write lower db db'" and "spans_ok (budget_spans db)"
  shows "span_change\<^sup>*\<^sup>* (budget_spans db) (budget_spans db')"
  using assms
proof (cases rule: budget_write.cases)
  case (b_item r r')
  show ?thesis by (simp add: insert_item_Inr(3) [OF b_item(1)] budget_spans_def)
next
  case (b_save_item r' r)
  show ?thesis by (simp add: save_item_Inr(1) [OF b_save_item(1)] budget_spans_def)
next
  case (b_drop_item i)
  have "budget_spans db' = (fst (budget_spans db), filter (\<lambda>s. sp_owner s \<noteq> i) (snd (budget_spans db)))"
    by (simp add: b_drop_item budget_spans_def delete_budget_item_row_def filter_map comp_def)
  then show ?thesis using span_removed by (simp add: budget_spans_def r_into_rtranclp)
next
  case (b_drop_entry i)
  have "budget_spans db' = (fst (budget_spans db), filter (\<lambda>s. sp_id s \<noteq> i) (snd (budget_spans db)))"
    by (simp add: b_drop_entry budget_spans_def delete_budget_entry_row_def filter_map comp_def)
  then show ?thesis using span_removed by (simp add: budget_spans_def r_into_rtranclp)
next
  case (b_entry i req e)
  note x = insert_entry_row_Inr [OF b_entry]
  have e: "budget_spans db' = (Suc (bd_next_entry db), map entry_span (bd_entries db) @
      [\<lparr>sp_id = bd_next_entry db, sp_owner = i, sp_from = local_day (bq_from req), sp_to = day_opt (bq_to req)\<rparr>])"
    by (simp add: x(1,4) budget_spans_def entry_span_def)
  have "days (local_day (bq_from req)) (day_opt (bq_to req)) \<inter> span_days s = {}"
    if s: "s \<in> set (map entry_span (bd_entries db))" "sp_owner s = i" for s
  proof -
    obtain r where r: "r \<in> set (bd_entries db)" "s = entry_span r" using s(1) by auto
    then have "be_id r < bd_next_entry db" using assms(2) by (auto simp add: spans_ok_def budget_spans_def)
    then show ?thesis using budget_entry_checks_Inr(4) [OF x(2) r(1)] r(2) s(2) by (simp add: x(1))
  qed
  then have "span_change (budget_spans db) (budget_spans db')"
    unfolding e budget_spans_def [of db] by (rule span_added)
  then show ?thesis by blast
next
  case (b_save_entry e i req d)
  note x = save_entry_row_Inr [OF b_save_entry(1)] and d = find_budget_entry_id [OF b_save_entry(2)]
  have inj: "inj_on be_id (set (bd_entries db))"
    using assms(2) by (simp add: spans_ok_def budget_spans_def distinct_map comp_def)
  let ?f = "local_day (bq_from req)" and ?t = "day_opt (bq_to req)"
  have e: "budget_spans db' = (bd_next_entry db, map (move_span e ?f ?t) (map entry_span (bd_entries db)))"
  proof -
    have "entry_span (if be_id r = e then requested_entry e i req else r) = move_span e ?f ?t (entry_span r)"
      if "r \<in> set (bd_entries db)" for r
    proof (cases "be_id r = e")
      case True
      then have "r = d" using inj that d by (auto dest: inj_onD)
      then show ?thesis using True b_save_entry(3) by (simp add: entry_span_def move_span_def)
    qed (simp add: move_span_def)
    then show ?thesis by (simp add: budget_spans_def x(1))
  qed
  have "span_change (budget_spans db) (budget_spans db')"
    unfolding e budget_spans_def [of db]
  proof (rule span_moved [where w = i])
    fix s assume "s \<in> set (map entry_span (bd_entries db))" "sp_id s = e"
    then have "s = entry_span d" using d inj by (auto dest: inj_onD)
    then show "sp_owner s = i" using b_save_entry(3) by simp
  next
    fix s assume s: "s \<in> set (map entry_span (bd_entries db))" "sp_owner s = i" "sp_id s \<noteq> e"
    then obtain r where "r \<in> set (bd_entries db)" "s = entry_span r" by auto
    then show "days ?f ?t \<inter> span_days s = {}" using budget_entry_checks_Inr(4) [OF x(2), of r] s by simp
  qed
  then show ?thesis by blast
next
  case (b_orgs os)
  then show ?thesis by (simp add: budget_spans_def)
qed

lemma budget_writes_spans:
  assumes "(budget_write lower)\<^sup>*\<^sup>* db db'" and "spans_ok (budget_spans db)"
  shows "span_change\<^sup>*\<^sup>* (budget_spans db) (budget_spans db')"
  using assms
proof (induction rule: rtranclp_induct)
  case (step e f)
  then show ?case using budget_write_spans span_changes_ok by (blast intro: rtranclp_trans)
qed simp

interpretation budget: span_keeper "budget_step lower" "budget_rows_ok lower" budget_spans for lower
proof
  fix d e assume s: "budget_step lower d e" "budget_rows_ok lower d"
  show "budget_rows_ok lower e" using budget_writes_ok [OF budget_step_writes [OF s(1)] s(2)] .
  show "spans_ok (budget_spans d) \<Longrightarrow> span_change\<^sup>*\<^sup>* (budget_spans d) (budget_spans e)"
    by (rule budget_writes_spans [OF budget_step_writes [OF s(1)]])
qed

end
