(* ===== verification/BudgetTheorems.thy ===== *)
theory BudgetTheorems
  imports BudgetLaws
begin

text \<open>
  Properties of budget items: the amount of an item on a day is unambiguous and the same in the list
  and in the financials, and what the amounts of an item mean does not change under them.
\<close>

definition no_budget :: "nat list \<Rightarrow> budget_db" where
  "no_budget orgs = \<lparr>bd_items = [], bd_entries = [], bd_next_item = 1, bd_next_entry = 1, bd_orgs = orgs\<rparr>"

definition budget_reachable :: "(string \<Rightarrow> string) \<Rightarrow> budget_db \<Rightarrow> bool" where
  "budget_reachable lower db \<longleftrightarrow> (\<exists>orgs. (budget_step lower)\<^sup>*\<^sup>* (no_budget orgs) db)"

lemma budget_reachable_ok:
  assumes "budget_reachable lower db"
  shows "budget_rows_ok lower db" and "spans_ok (budget_spans db)"
proof -
  obtain orgs where s: "(budget_step lower)\<^sup>*\<^sup>* (no_budget orgs) db" using assms by (auto simp add: budget_reachable_def)
  have "budget_rows_ok lower (no_budget orgs)" "spans_ok (budget_spans (no_budget orgs))"
    by (simp_all add: no_budget_def budget_rows_ok_def budget_items_ok_def budget_entries_ok_def spans_ok_def budget_spans_def)
  then show "budget_rows_ok lower db" and "spans_ok (budget_spans db)" using budget.reachable_ok [OF s] by blast+
qed

section \<open>Lemmas\<close>

lemma one_entry_per_day:
  assumes "spans_ok (budget_spans db)" and "e \<in> set (bd_entries db)" and "f \<in> set (bd_entries db)"
    and "bx_item e = bx_item f" and "d \<in> period_days e" and "d \<in> period_days f"
  shows "e = f"
proof -
  have "entry_span e = entry_span f"
    using assms(2-) by (intro one_span_per_day [OF assms(1)]) (auto simp add: budget_spans_def)
  then have "be_id e = be_id f" by (metis entry_span_simps(1))
  then show ?thesis using assms(1-3) by (auto simp add: spans_ok_def budget_spans_def distinct_map comp_def dest: inj_onD)
qed

lemma set_entries_desc [simp]: "set (entries_desc db i) = {e \<in> set (bd_entries db). bx_item e = i}"
  by (simp add: entries_desc_def entries_of_item_def)

lemma find_only:
  assumes "\<And>y. y \<in> set xs \<Longrightarrow> P y \<Longrightarrow> y = x" and "x \<in> set xs" and "P x"
  shows "find P xs = Some x"
proof (cases "find P xs")
  case None
  then show ?thesis using assms(2,3) by (auto simp add: find_None_iff)
next
  case (Some y)
  then have "y \<in> set xs" "P y" by (auto simp add: find_Some_iff)
  then show ?thesis using Some assms(1) by simp
qed

text \<open>The rows of items after a request: the old ones, one new one, or one rewritten.\<close>

lemma insert_item_rows:
  "insert_budget_item lower db r = Inr (r', db') \<Longrightarrow> bd_items db' = bd_items db @ [r'] \<and> bw_id r' = bd_next_item db"
  using insert_item_Inr [of lower db r r' db'] by simp

lemma create_entry_items: "bd_items (snd (create_budget_entry seen db i org req)) = bd_items db"
proof -
  obtain z db' where c: "create_budget_entry seen db i org req = (z, db')" by fastforce
  show ?thesis
  proof (cases "db' = db")
    case False
    then obtain e where "insert_budget_entry db (requested_entry 0 i req) = Inr (e, db')"
      using c by (auto simp add: create_budget_entry_def result_simps split: sum.split_asm)
    from insert_entry_row_Inr(4) [OF this] show ?thesis by (simp add: c)
  qed (simp add: c)
qed

lemma add_first_entry_items:
  assumes "add_first_entry db org r q = Inr (r', db')"
  shows "bd_items db' = bd_items db"
proof (cases q)
  case (Some x)
  obtain z db2 where c: "create_budget_entry [] db (bw_id r) org x = (z, db2)" by fastforce
  then show ?thesis using assms create_entry_items [of "[]" db "bw_id r" org x]
    by (cases z) (auto simp add: add_first_entry_def Some)
qed (use assms in \<open>simp add: add_first_entry_def\<close>)

lemma create_item_rows:
  assumes "create_budget_item lower db org req this_day = (x, db')"
  shows "bd_items db' = bd_items db \<or> (\<exists>r. bd_items db' = bd_items db @ [r] \<and> bw_id r = bd_next_item db)"
proof (cases x)
  case (Inr resp)
  then obtain name r r' db1 where
      "insert_budget_item lower db \<lparr>bw_id = 0, bw_org = org, bw_name = name, bw_category = bc_category req,
                 bw_per_child = bc_per_child req\<rparr> = Inr (r, db1)"
      "add_first_entry db1 org r (bc_entry req) = Inr (r', db')"
    using assms by (auto simp add: create_budget_item_def result_simps split: sum.split_asm)
  then show ?thesis using insert_item_rows add_first_entry_items by metis
next
  case (Inl e)
  then show ?thesis using assms by (auto simp add: create_budget_item_def split: sum.split_asm prod.split_asm)
qed

lemma update_item_row:
  assumes "update_budget_item lower db i org req this_day = (x, db')"
  obtains "db' = db"
  | r r' where "find_budget_item db i = Inr r" "bw_id r' = i"
      "bd_items db' = map (\<lambda>s. if bw_id s = bw_id r' then r' else s) (bd_items db)"
      "(bw_category r', bw_per_child r') = (bw_category r, bw_per_child r) \<or> entries_of_item (bd_entries db) i = []"
proof (cases x)
  case (Inl e)
  then show ?thesis using assms that(1) by (auto simp add: update_budget_item_def split: sum.split_asm prod.split_asm)
next
  case (Inr resp)
  obtain r name category where v: "verify_budget_item_ownership db i org = Inr r"
      and l: "\<not> (((case bu_category req of None \<Rightarrow> False | Some c \<Rightarrow> c \<noteq> bw_category r) \<or>
                 (case bu_per_child req of None \<Rightarrow> False | Some b \<Rightarrow> b \<noteq> bw_per_child r)) \<and> 0 < count_entries db i)"
      and c: "(case bu_category req of None \<Rightarrow> Inr (bw_category r)
               | Some c \<Rightarrow> if valid_budget_item_category c then Inr c else Inl category_error) = Inr category"
      and s: "save_budget_item lower db (r\<lparr>bw_name := name, bw_category := category,
                bw_per_child := (case bu_per_child req of None \<Rightarrow> bw_per_child r | Some b \<Rightarrow> b)\<rparr>) = Inr db'"
    using assms Inr by (simp add: update_budget_item_def Let_def split: sum.split_asm) (auto simp add: result_simps Let_def)
  let ?r = "r\<lparr>bw_name := name, bw_category := category,
                bw_per_child := (case bu_per_child req of None \<Rightarrow> bw_per_child r | Some b \<Rightarrow> b)\<rparr>"
  have r: "find_budget_item db i = Inr r" "bw_id r = i" using verify_item_Inr [OF v] find_budget_item_id by auto
  show ?thesis
  proof (rule that(2) [OF r(1), of ?r])
    show "(bw_category ?r, bw_per_child ?r) = (bw_category r, bw_per_child r) \<or> entries_of_item (bd_entries db) i = []"
      using l c by (auto simp add: count_entries_def split: option.split_asm if_split_asm option.split)
  qed (use r save_item_Inr(1) [OF s] in simp_all)
qed

section \<open>An example\<close>

definition demo_budget :: budget_db where
  "demo_budget = snd (create_budget_item id (no_budget [1]) 1
     \<lparr>bc_name = ''Rent'', bc_category = ''expense'', bc_per_child = False,
      bc_entry = Some \<lparr>bq_from = midnight 738000, bq_to = None, bq_amount = 50000, bq_notes = []\<rparr>\<rparr> (midnight 738100))"

lemma demo_budget_eq:
  "demo_budget = \<lparr>bd_items = [\<lparr>bw_id = 1, bw_org = 1, bw_name = ''Rent'', bw_category = ''expense'', bw_per_child = False\<rparr>],
     bd_entries = [\<lparr>p_from = midnight 738000, p_to = None, be_id = 1, be_amount_cents = 50000, bx_item = 1, bx_notes = []\<rparr>],
     bd_next_item = 2, bd_next_entry = 2, bd_orgs = [1]\<rparr>"
proof -
  have "trim_space ''Rent'' = ''Rent''" by (simp add: trim_space_edge_plain edge_plain_def)
  moreover have "utf8_length ''Rent'' = 4" "utf8_length ''expense'' = 7" by (simp_all add: utf8_length_def)
  ultimately show ?thesis
    by (simp add: demo_budget_def create_budget_item_def no_budget_def validate_required_name_def Let_def
        valid_budget_item_category_def insert_budget_item_def budget_item_checks_def varchar_def add_first_entry_def
        create_budget_entry_def verify_budget_item_ownership_def find_budget_item_def verify_org_ownership_def
        validate_period_400_def validate_period_def validate_no_overlap_entries_def entries_of_item_def
        insert_budget_entry_def budget_entry_checks_def in_int4_def requested_entry_def stored_period_def
        truncate_to_date_eq utf8_length_def)
qed

lemma demo_budget_reachable: "budget_reachable id demo_budget"
proof -
  have "budget_step id (no_budget [1]) demo_budget" unfolding demo_budget_def by (rule item_created) (rule prod.collapse [symmetric])
  then show ?thesis by (auto simp add: budget_reachable_def)
qed

section \<open>Properties\<close>

text \<open>
  C34. Whatever requests were answered, and whatever rows their overlap checks saw, an item has at
  most one amount on a day: the answer of the list shows it exactly when an entry of the item covers
  the day, and the entry the financials pick from what they load carries the same amount.
\<close>
lemma budget_amount_is_unambiguous:
  assumes "budget_reachable lower db" and "r \<in> set (bd_items db)"
  shows "(br_active_amount (budget_item_to_response r (entries_desc db (bw_id r)) d) = Some a \<longleftrightarrow>
      (\<exists>e \<in> set (bd_entries db). bx_item e = bw_id r \<and> local_day d \<in> period_days e \<and> be_amount_cents e = a)) \<and>
    map_option be_amount_cents (pick_active_budget_entry (bi_entries (load_budget_item db r)) d) =
      br_active_amount (budget_item_to_response r (entries_desc db (bw_id r)) d)"
proof -
  note ok = budget_reachable_ok(2) [OF assms(1)]
  let ?es = "entries_desc db (bw_id r)"
  have one: "e = f" if "e \<in> set ?es" "f \<in> set ?es" "is_active_on e d" "is_active_on f d" for e f
    using that one_entry_per_day [OF ok, of e f] by (auto simp add: is_active_on_days)
  have act: "is_active_on (budget_entry.truncate e) d = is_active_on e d" for e :: budget_entry_row
    by (simp add: is_active_on_def budget_entry.defs)
  show ?thesis
  proof (cases "\<exists>e \<in> set ?es. is_active_on e d")
    case True
    then obtain e where e: "e \<in> set ?es" "is_active_on e d" by blast
    have "find (\<lambda>e. is_active_on e d) ?es = Some e" using one e by (intro find_only) blast+
    then have shown: "br_active_amount (budget_item_to_response r ?es d) = Some (be_amount_cents e)"
      by (simp add: budget_item_to_response_def)
    have "(\<exists>f \<in> set (bd_entries db). bx_item f = bw_id r \<and> local_day d \<in> period_days f \<and> be_amount_cents f = a)
        \<longleftrightarrow> be_amount_cents e = a" using one e by (auto simp add: is_active_on_days)
    moreover have "pick_active_budget_entry (bi_entries (load_budget_item db r)) d = Some (budget_entry.truncate e)"
    proof -
      have "pick_active_budget_entry (bi_entries (load_budget_item db r)) d \<noteq> None"
        using e by (auto simp add: pick_active_budget_entry_def pick_latest_None load_budget_item_def act)
      then obtain g where g: "pick_active_budget_entry (bi_entries (load_budget_item db r)) d = Some g" by blast
      then have "g \<in> budget_entry.truncate ` set ?es" "is_active_on g d"
        using pick_latest_Some [of "\<lambda>e. is_active_on e d" p_from be_id "bi_entries (load_budget_item db r)" g]
        unfolding pick_active_budget_entry_def by (simp_all add: load_budget_item_def)
      then obtain h where "h \<in> set ?es" "g = budget_entry.truncate h" "is_active_on h d" by (auto simp add: act)
      moreover from this have "h = e" using one e by blast
      ultimately show ?thesis using g by simp
    qed
    ultimately show ?thesis using shown by (simp add: budget_entry.defs)
  next
    case False
    then have "find (\<lambda>e. is_active_on e d) ?es = None" by (simp add: find_None_iff)
    moreover have "pick_active_budget_entry (bi_entries (load_budget_item db r)) d = None"
      using False by (auto simp add: pick_active_budget_entry_def pick_latest_None load_budget_item_def act)
    ultimately show ?thesis using False by (auto simp add: budget_item_to_response_def is_active_on_days)
  qed
qed

lemma budget_amount_is_unambiguous_witness:
  "br_active_amount (budget_item_to_response (hd (bd_items demo_budget)) (entries_desc demo_budget 1) (midnight 738200)) = Some 50000"
  using budget_amount_is_unambiguous [OF demo_budget_reachable, of "hd (bd_items demo_budget)" "midnight 738200" 50000]
  by (simp add: demo_budget_eq period_days_def days_simps)

text \<open>
  C35. While an item has entries, no request changes whether its amounts are income or expense, or
  whether they count once or per child.
\<close>
lemma budget_meaning_is_locked:
  assumes "budget_reachable lower db" and "budget_step lower db db'"
    and "e \<in> set (bd_entries db)" and "r \<in> set (bd_items db)" and "r' \<in> set (bd_items db')"
    and "bw_id r = bx_item e" and "bw_id r' = bx_item e"
  shows "bw_category r' = bw_category r \<and> bw_per_child r' = bw_per_child r"
proof -
  have ok: "distinct (map bw_id (bd_items db))" "bw_id r < bd_next_item db"
    using budget_reachable_ok(1) [OF assms(1)] assms(4) by (auto simp add: budget_rows_ok_def budget_items_ok_def)
  then have same: "s = r" if "s \<in> set (bd_items db)" "bw_id s = bx_item e" for s
    using that assms(4,6) by (auto simp add: distinct_map inj_on_def)
  have subset: ?thesis if "r' \<in> set (bd_items db)" using same [OF that assms(7)] by simp
  from assms(2) show ?thesis
  proof (cases rule: budget_step.cases)
    case (item_created org creq this_day x)
    then consider "r' \<in> set (bd_items db)" | "bw_id r' = bd_next_item db" using create_item_rows assms(5) by fastforce
    then show ?thesis using subset ok(2) assms(6,7) by cases auto
  next
    case (item_updated i org ureq this_day x)
    then show ?thesis
    proof (cases rule: update_item_row)
      case (2 s s')
      have s: "s \<in> set (bd_items db)" "bw_id s = i" using find_budget_item_id [OF 2(1)] by auto
      from assms(5) 2(3) consider "r' = s'" | "r' \<in> set (bd_items db)" by (auto split: if_splits)
      then show ?thesis
      proof cases
        case 1
        then have "i = bx_item e" using 2(2) assms(7) by simp
        moreover from this have "entries_of_item (bd_entries db) i \<noteq> []"
          using assms(3) by (auto simp add: entries_of_item_def filter_empty_conv)
        ultimately show ?thesis using 2(4) 1 same [OF s(1)] s(2) by auto
      qed (rule subset)
    qed (use assms(5) subset in simp)
  next
    case (entry_created seen i org req z)
    then show ?thesis using create_entry_items [of seen db i org req] assms(5) subset by simp
  qed (use assms(5) subset in \<open>auto simp add: delete_budget_item_def delete_budget_entry_def delete_budget_item_row_def
      delete_budget_entry_row_def update_budget_entry_def save_budget_entry_def result_simps
      split: sum.split_asm\<close>)
qed


lemma budget_meaning_is_locked_witness:
  "\<exists>x db'. update_budget_item id demo_budget 1 1 \<lparr>bu_name = None, bu_category = Some ''income'', bu_per_child = None\<rparr>
      (midnight 738100) = (x, db') \<and> map bw_category (bd_items db') = [''expense'']"
proof -
  define req where "req = \<lparr>bu_name = None, bu_category = Some ''income'', bu_per_child = None\<rparr>"
  obtain x db' where u: "update_budget_item id demo_budget 1 1 req (midnight 738100) = (x, db')" by fastforce
  then have s: "budget_step id demo_budget db'" by (rule item_updated)
  have "length (bd_items db') = 1 \<and> bw_id (hd (bd_items db')) = 1"
    using u by (cases rule: update_item_row) (auto simp add: demo_budget_eq)
  then obtain r' where r': "bd_items db' = [r']" "bw_id r' = 1" by (cases "bd_items db'") auto
  have "bw_category r' = bw_category (hd (bd_items demo_budget))"
    using budget_meaning_is_locked [OF demo_budget_reachable s, of "hd (bd_entries demo_budget)" "hd (bd_items demo_budget)" r'] r'
    by (simp add: demo_budget_eq)
  then show ?thesis using u r' by (auto simp add: req_def demo_budget_eq)
qed

end
