(* ===== verification/FundingConfig.thy ===== *)
theory FundingConfig
  imports PeriodTables SqlTypes Funding ContractOps Users Organizations
begin

text \<open>
  Administration of government fundings: \<open>internal/service/government_funding.go\<close> with the queries
  of \<open>internal/store/government_funding.go\<close> and the constraints of the migrations. The periods a
  reader gets are the records \<open>funding_period\<close> the computations of \<open>Funding\<close> work on; here they
  are assembled from three tables. \<open>collate\<close> is the order of strings in the database. Requests are
  single steps that run one after the other: the check for overlapping periods and the insert
  share a transaction, but no constraint keeps two transactions from passing the check together.
\<close>

section \<open>Tables\<close>

record funding_row =
  fr_id :: nat
  fr_name :: string
  fr_state :: string

record funding_period_row = period +
  fq_id :: nat
  fq_funding :: nat
  fq_hours :: f64
  fq_comment :: string
  fq_required :: "string list"

record funding_property_row = funding_property +
  fx_period :: nat
  fx_comment :: string

record funding_db =
  fd_fundings :: "funding_row list"
  fd_periods :: "funding_period_row list"
  fd_properties :: "funding_property_row list"
  fd_next_funding :: nat
  fd_next_period :: nat
  fd_next_property :: nat

text \<open>One funding per state.\<close>

definition insert_funding :: "funding_db \<Rightarrow> string \<Rightarrow> string \<Rightarrow> (funding_row \<times> funding_db) outcome" where
  "insert_funding db name state =
     bindE (varchar 255 name) (\<lambda>_.
     bindE (varchar 50 state) (\<lambda>_.
     bindE (ensureE (state \<notin> fr_state ` set (fd_fundings db)) (PgError ''23505'')) (\<lambda>_.
       let r = \<lparr>fr_id = fd_next_funding db, fr_name = name, fr_state = state\<rparr>
       in Inr (r, db\<lparr>fd_fundings := fd_fundings db @ [r], fd_next_funding := Suc (fd_next_funding db)\<rparr>))))"

definition save_funding :: "funding_db \<Rightarrow> funding_row \<Rightarrow> funding_db outcome" where
  "save_funding db r =
     bindE (varchar 255 (fr_name r)) (\<lambda>_.
     bindE (ensureE (\<not> list_ex (\<lambda>s. fr_state s = fr_state r \<and> fr_id s \<noteq> fr_id r) (fd_fundings db)) (PgError ''23505'')) (\<lambda>_.
       Inr (db\<lparr>fd_fundings := map (\<lambda>s. if fr_id s = fr_id r then r else s) (fd_fundings db)\<rparr>)))"

definition find_funding :: "funding_db \<Rightarrow> nat \<Rightarrow> funding_row outcome" where
  "find_funding db i =
     (case find (\<lambda>r. fr_id r = i) (fd_fundings db) of None \<Rightarrow> Inl (StoreError StoreNotFound) | Some r \<Rightarrow> Inr r)"

definition find_funding_by_state :: "funding_db \<Rightarrow> string \<Rightarrow> funding_row outcome" where
  "find_funding_by_state db state =
     (case find (\<lambda>r. fr_state r = state) (fd_fundings db) of
        None \<Rightarrow> Inl (StoreError StoreNotFound) | Some r \<Rightarrow> Inr r)"

definition periods_of_funding :: "funding_db \<Rightarrow> nat \<Rightarrow> funding_period_row list" where
  "periods_of_funding db i = sort_key (\<lambda>p. - local_day (p_from p)) (filter (\<lambda>p. fq_funding p = i) (fd_periods db))"

text \<open>The cascades go from a funding to its periods and from a period to its properties.\<close>

definition delete_funding_row :: "funding_db \<Rightarrow> nat \<Rightarrow> funding_db" where
  "delete_funding_row db i =
     db\<lparr>fd_properties := filter (\<lambda>x. fx_period x \<notin> fq_id ` set (periods_of_funding db i)) (fd_properties db),
        fd_periods := filter (\<lambda>p. fq_funding p \<noteq> i) (fd_periods db),
        fd_fundings := filter (\<lambda>r. fr_id r \<noteq> i) (fd_fundings db)\<rparr>"

text \<open>The dates of a period are checked by nothing; \<open>stored_dates\<close> keeps the days of the instants.\<close>

definition stored_dates :: "funding_period_row \<Rightarrow> funding_period_row" where
  "stored_dates p = p\<lparr>p_from := p_from (stored_period (p_from p) (p_to p)), p_to := p_to (stored_period (p_from p) (p_to p))\<rparr>"

definition insert_funding_period :: "funding_db \<Rightarrow> funding_period_row \<Rightarrow> (funding_period_row \<times> funding_db) outcome" where
  "insert_funding_period db p =
     bindE (varchar 1000 (fq_comment p)) (\<lambda>_.
     bindE (ensureE (fq_funding p \<in> fr_id ` set (fd_fundings db)) (PgError ''23503'')) (\<lambda>_.
       let q = p\<lparr>fq_id := fd_next_period db\<rparr>
       in Inr (q, db\<lparr>fd_periods := fd_periods db @ [stored_dates q], fd_next_period := Suc (fd_next_period db)\<rparr>)))"

definition find_funding_period :: "funding_db \<Rightarrow> nat \<Rightarrow> funding_period_row outcome" where
  "find_funding_period db i =
     (case find (\<lambda>p. fq_id p = i) (fd_periods db) of None \<Rightarrow> Inl (StoreError StoreNotFound) | Some p \<Rightarrow> Inr p)"

definition save_funding_period :: "funding_db \<Rightarrow> funding_period_row \<Rightarrow> funding_db outcome" where
  "save_funding_period db p =
     bindE (varchar 1000 (fq_comment p)) (\<lambda>_.
       Inr (db\<lparr>fd_periods := map (\<lambda>q. if fq_id q = fq_id p then stored_dates p else q) (fd_periods db)\<rparr>))"

definition delete_funding_period_row :: "funding_db \<Rightarrow> nat \<Rightarrow> funding_db" where
  "delete_funding_period_row db i =
     db\<lparr>fd_properties := filter (\<lambda>x. fx_period x \<noteq> i) (fd_properties db),
        fd_periods := filter (\<lambda>p. fq_id p \<noteq> i) (fd_periods db)\<rparr>"

definition property_checks :: "funding_property_row \<Rightarrow> unit outcome" where
  "property_checks x =
     (if \<not> (in_int4 (fp_payment x) \<and> (\<forall>a \<in> set_option (fp_min_age x) \<union> set_option (fp_max_age x). in_int4 a))
      then Inl int4_error
      else bindE (varchar 100 (fp_key x)) (\<lambda>_.
           bindE (varchar 255 (fp_value x)) (\<lambda>_.
           bindE (varchar 255 (fp_label x)) (\<lambda>_. varchar 500 (fx_comment x)))))"

definition insert_funding_property ::
    "funding_db \<Rightarrow> funding_property_row \<Rightarrow> (funding_property_row \<times> funding_db) outcome" where
  "insert_funding_property db x =
     bindE (property_checks x) (\<lambda>_.
     bindE (ensureE (fx_period x \<in> fq_id ` set (fd_periods db)) (PgError ''23503'')) (\<lambda>_.
       let y = x\<lparr>fp_id := fd_next_property db\<rparr>
       in Inr (y, db\<lparr>fd_properties := fd_properties db @ [y], fd_next_property := Suc (fd_next_property db)\<rparr>)))"

definition find_funding_property :: "funding_db \<Rightarrow> nat \<Rightarrow> funding_property_row outcome" where
  "find_funding_property db i =
     (case find (\<lambda>x. fp_id x = i) (fd_properties db) of None \<Rightarrow> Inl (StoreError StoreNotFound) | Some x \<Rightarrow> Inr x)"

definition save_funding_property :: "funding_db \<Rightarrow> funding_property_row \<Rightarrow> funding_db outcome" where
  "save_funding_property db x =
     bindE (property_checks x) (\<lambda>_.
       Inr (db\<lparr>fd_properties := map (\<lambda>y. if fp_id y = fp_id x then x else y) (fd_properties db)\<rparr>))"

definition delete_funding_property_row :: "funding_db \<Rightarrow> nat \<Rightarrow> funding_db" where
  "delete_funding_property_row db i = db\<lparr>fd_properties := filter (\<lambda>x. fp_id x \<noteq> i) (fd_properties db)\<rparr>"

section \<open>Reading a funding\<close>

text \<open>\<open>key ASC, value ASC, min_age ASC NULLS LAST\<close>: the last criterion is sorted by first.\<close>

definition properties_of_period :: "(string \<Rightarrow> string) \<Rightarrow> funding_db \<Rightarrow> nat \<Rightarrow> funding_property_row list" where
  "properties_of_period collate db i =
     sort_key (\<lambda>x. collate (fp_key x)) (sort_key (\<lambda>x. collate (fp_value x))
       (let xs = filter (\<lambda>x. fx_period x = i) (fd_properties db)
        in sort_key (\<lambda>x. the (fp_min_age x)) (filter (\<lambda>x. fp_min_age x \<noteq> None) xs) @
           filter (\<lambda>x. fp_min_age x = None) xs))"

definition load_funding_period ::
    "(string \<Rightarrow> string) \<Rightarrow> funding_db \<Rightarrow> funding_period_row \<Rightarrow> funding_period" where
  "load_funding_period collate db p =
     \<lparr>p_from = p_from p, p_to = p_to p, gp_id = fq_id p, gp_full_time_hours = fq_hours p,
      gp_required_keys = fq_required p,
      gp_properties = map funding_property.truncate (properties_of_period collate db (fq_id p))\<rparr>"

definition load_funding_periods ::
    "(string \<Rightarrow> string) \<Rightarrow> funding_db \<Rightarrow> nat \<Rightarrow> nat \<Rightarrow> gtime option \<Rightarrow> funding_period list" where
  "load_funding_periods collate db i periods_limit active_on =
     (let ps = periods_of_funding db i;
          kept = (case active_on of None \<Rightarrow> ps
                  | Some d \<Rightarrow> filter (\<lambda>p. sql_active_on (local_day (p_from p)) (day_opt (p_to p)) (local_day d)) ps)
      in map (load_funding_period collate db) (if 0 < periods_limit then take periods_limit kept else kept))"

definition funding_not_found :: "go_error \<Rightarrow> string \<Rightarrow> go_error" where
  "funding_not_found e what =
     (if is_store_error e StoreNotFound then not_found ''government funding'' else internal_wrap e what)"

definition get_funding_with_details ::
    "(string \<Rightarrow> string) \<Rightarrow> funding_db \<Rightarrow> nat \<Rightarrow> nat \<Rightarrow> gtime option \<Rightarrow>
      (funding_row \<times> funding_period list \<times> int) outcome" where
  "get_funding_with_details collate db i periods_limit active_on =
     map_error (\<lambda>e. funding_not_found e ''failed to fetch government funding'')
       (bindE (find_funding db i) (\<lambda>r.
          Inr (r, load_funding_periods collate db i periods_limit active_on, int (length (periods_of_funding db i)))))"

definition get_funding_by_state :: "(string \<Rightarrow> string) \<Rightarrow> funding_db \<Rightarrow> string \<Rightarrow> funding_period list outcome" where
  "get_funding_by_state collate db state =
     map_error (\<lambda>e. funding_not_found e ''failed to fetch government funding by state'')
       (bindE (find_funding_by_state db state) (\<lambda>r. Inr (load_funding_periods collate db (fr_id r) 0 None)))"

section \<open>Fundings\<close>

definition create_funding :: "funding_db \<Rightarrow> string \<Rightarrow> string \<Rightarrow> funding_row outcome \<times> funding_db" where
  "create_funding db name state =
     (case (bindE (validate_required_name name) (\<lambda>n.
            bindE (ensureE (state \<in> set valid_states) invalid_state) (\<lambda>_.
              map_error (\<lambda>e. if is_duplicate_key_error e then conflict ''government funding for this state already exists''
                             else internal_wrap e ''failed to create government funding'')
                (insert_funding db n state))))
      of Inl e \<Rightarrow> (Inl e, db) | Inr (r, db') \<Rightarrow> (Inr r, db'))"

definition update_funding :: "funding_db \<Rightarrow> nat \<Rightarrow> string option \<Rightarrow> funding_row outcome \<times> funding_db" where
  "update_funding db i name =
     (case (bindE (map_error (\<lambda>e. funding_not_found e ''failed to fetch government funding'') (find_funding db i)) (\<lambda>r.
            bindE (case name of None \<Rightarrow> Inr (fr_name r)
                   | Some n \<Rightarrow> if trim_space (trim_space n) = []
                               then Inl (bad_request ''name cannot be empty or whitespace only'') else Inr (trim_space n)) (\<lambda>n.
            let r' = r\<lparr>fr_name := n\<rparr>
            in bindE (map_error (\<lambda>e. internal_wrap e ''failed to update government funding'') (save_funding db r')) (\<lambda>db'.
               Inr (r', db')))))
      of Inl e \<Rightarrow> (Inl e, db) | Inr (r, db') \<Rightarrow> (Inr r, db'))"

text \<open>A funding that does not exist is deleted successfully.\<close>

definition delete_funding :: "funding_db \<Rightarrow> nat \<Rightarrow> unit outcome \<times> funding_db" where
  "delete_funding db i = (Inr (), delete_funding_row db i)"

section \<open>Periods\<close>

fun normalize_loop :: "string list \<Rightarrow> string list \<Rightarrow> string list" where
  "normalize_loop seen [] = []"
| "normalize_loop seen (k # ks) =
     (let t = trim_space k
      in if t = [] \<or> t \<in> set seen then normalize_loop seen ks else t # normalize_loop (t # seen) ks)"

definition normalize_required_keys :: "string list \<Rightarrow> string list" where
  "normalize_required_keys ks = normalize_loop [] ks"

definition verify_funding_period :: "funding_db \<Rightarrow> nat \<Rightarrow> nat \<Rightarrow> funding_period_row outcome" where
  "verify_funding_period db i funding =
     (case find_funding_period db i of
        Inl e \<Rightarrow> Inl (if is_store_error e StoreNotFound then not_found ''period''
                     else internal_wrap e ''failed to fetch period'')
      | Inr p \<Rightarrow> if fq_funding p \<noteq> funding then Inl (not_found ''period'') else Inr p)"

definition validate_funding_period_no_overlap ::
    "funding_db \<Rightarrow> nat \<Rightarrow> gtime \<Rightarrow> gtime option \<Rightarrow> nat option \<Rightarrow> unit outcome" where
  "validate_funding_period_no_overlap db funding from to exclude =
     validate_no_overlap (map (\<lambda>p. (fq_id p, period.truncate p)) (periods_of_funding db funding)) from to exclude"

record funding_period_create =
  fc_from :: gtime
  fc_to :: "gtime option"
  fc_hours :: f64
  fc_comment :: string
  fc_required :: "string list"

definition requested_period :: "nat \<Rightarrow> funding_period_create \<Rightarrow> funding_period_row" where
  "requested_period funding req =
     \<lparr>p_from = fc_from req, p_to = fc_to req, fq_id = 0, fq_funding = funding, fq_hours = fc_hours req,
      fq_comment = trim_space (fc_comment req), fq_required = normalize_required_keys (fc_required req)\<rparr>"

definition create_funding_period ::
    "funding_db \<Rightarrow> nat \<Rightarrow> funding_period_create \<Rightarrow> funding_period_row outcome \<times> funding_db" where
  "create_funding_period db funding req =
     (case (bindE (map_error (\<lambda>e. classify_store_error e ''government funding'') (find_funding db funding)) (\<lambda>_.
            bindE (validate_funding_period_no_overlap db funding (fc_from req) (fc_to req) None) (\<lambda>_.
              map_error (\<lambda>e. internal_wrap e ''failed to create period'')
                (insert_funding_period db (requested_period funding req)))))
      of Inl e \<Rightarrow> (Inl e, db) | Inr (p, db') \<Rightarrow> (Inr p, db'))"

text \<open>An absent end date clears the end, everything else that is absent stays.\<close>

record funding_period_update =
  fu_from :: "gtime option"
  fu_to :: "gtime option"
  fu_hours :: "f64 option"
  fu_comment :: "string option"
  fu_required :: "string list option"

definition updated_period :: "funding_period_row \<Rightarrow> funding_period_update \<Rightarrow> funding_period_row" where
  "updated_period p req =
     p\<lparr>p_from := (case fu_from req of None \<Rightarrow> p_from p | Some f \<Rightarrow> f), p_to := fu_to req,
       fq_hours := (case fu_hours req of None \<Rightarrow> fq_hours p | Some h \<Rightarrow> h),
       fq_required := (case fu_required req of None \<Rightarrow> fq_required p | Some ks \<Rightarrow> normalize_required_keys ks),
       fq_comment := (case fu_comment req of None \<Rightarrow> fq_comment p | Some c \<Rightarrow> trim_space c)\<rparr>"

definition update_funding_period ::
    "funding_db \<Rightarrow> nat \<Rightarrow> nat \<Rightarrow> funding_period_update \<Rightarrow> funding_period_row outcome \<times> funding_db" where
  "update_funding_period db i funding req =
     (case (bindE (verify_funding_period db i funding) (\<lambda>p.
            let p' = updated_period p req
            in bindE (validate_funding_period_no_overlap db (fq_funding p) (p_from p') (p_to p') (Some i)) (\<lambda>_.
               bindE (map_error (\<lambda>e. internal_wrap e ''failed to update period'') (save_funding_period db p')) (\<lambda>db'.
                 Inr (p', db')))))
      of Inl e \<Rightarrow> (Inl e, db) | Inr (p, db') \<Rightarrow> (Inr p, db'))"

definition delete_funding_period :: "funding_db \<Rightarrow> nat \<Rightarrow> nat \<Rightarrow> unit outcome \<times> funding_db" where
  "delete_funding_period db i funding =
     (case verify_funding_period db i funding of
        Inl e \<Rightarrow> (Inl e, db) | Inr _ \<Rightarrow> (Inr (), delete_funding_period_row db i))"

section \<open>Properties\<close>

definition verify_funding_property :: "funding_db \<Rightarrow> nat \<Rightarrow> nat \<Rightarrow> funding_property_row outcome" where
  "verify_funding_property db i per =
     (case find_funding_property db i of
        Inl e \<Rightarrow> Inl (if is_store_error e StoreNotFound then not_found ''property''
                     else internal_wrap e ''failed to fetch property'')
      | Inr x \<Rightarrow> if fx_period x \<noteq> per then Inl (not_found ''property'') else Inr x)"

definition blank_error :: "string \<Rightarrow> go_error" where
  "blank_error what = bad_request (what @ '' cannot be empty or whitespace only'')"

definition not_blank :: "string \<Rightarrow> string \<Rightarrow> unit outcome" where
  "not_blank what s = ensureE (trim_space s \<noteq> []) (blank_error what)"

text \<open>\<open>fp_id\<close> and \<open>fx_period\<close> of the requested row are those of the path.\<close>

definition create_funding_property ::
    "funding_db \<Rightarrow> nat \<Rightarrow> nat \<Rightarrow> funding_property_row \<Rightarrow> funding_property_row outcome \<times> funding_db" where
  "create_funding_property db funding per req =
     (case (bindE (verify_funding_period db per funding) (\<lambda>_.
            bindE (ensureE (case (fp_min_age req, fp_max_age req) of (Some a, Some b) \<Rightarrow> a \<le> b | _ \<Rightarrow> True)
                (bad_request ''max_age must be greater than or equal to min_age'')) (\<lambda>_.
            let x = req\<lparr>fx_period := per, fp_key := trim_space (fp_key req), fp_value := trim_space (fp_value req),
                        fp_label := trim_space (fp_label req), fx_comment := trim_space (fx_comment req)\<rparr>
            in bindE (not_blank ''key'' (fp_key x)) (\<lambda>_.
               bindE (not_blank ''value'' (fp_value x)) (\<lambda>_.
                 map_error (\<lambda>e. internal_wrap e ''failed to create property'') (insert_funding_property db x))))))
      of Inl e \<Rightarrow> (Inl e, db) | Inr (x, db') \<Rightarrow> (Inr x, db'))"

text \<open>Absent ages are cleared, everything else that is absent stays.\<close>

record funding_property_update =
  fe_key :: "string option"
  fe_value :: "string option"
  fe_label :: "string option"
  fe_payment :: "int option"
  fe_requirement :: "f64 option"
  fe_min_age :: "int option"
  fe_max_age :: "int option"
  fe_comment :: "string option"
  fe_apply_to_all :: "bool option"

definition new_text :: "string \<Rightarrow> string \<Rightarrow> string option \<Rightarrow> string outcome" where
  "new_text what old s =
     (case s of None \<Rightarrow> Inr old
      | Some t \<Rightarrow> bindE (not_blank what (trim_space t)) (\<lambda>_. Inr (trim_space t)))"

definition updated_property ::
    "funding_property_row \<Rightarrow> string \<Rightarrow> string \<Rightarrow> string \<Rightarrow> funding_property_update \<Rightarrow> funding_property_row" where
  "updated_property x key val lab req =
     x\<lparr>fp_key := key, fp_value := val, fp_label := lab,
       fp_payment := (case fe_payment req of None \<Rightarrow> fp_payment x | Some a \<Rightarrow> a),
       fp_requirement := (case fe_requirement req of None \<Rightarrow> fp_requirement x | Some a \<Rightarrow> a),
       fp_min_age := fe_min_age req, fp_max_age := fe_max_age req,
       fx_comment := (case fe_comment req of None \<Rightarrow> fx_comment x | Some c \<Rightarrow> trim_space c),
       fp_apply_to_all := (case fe_apply_to_all req of None \<Rightarrow> fp_apply_to_all x | Some b \<Rightarrow> b)\<rparr>"

definition update_funding_property ::
    "funding_db \<Rightarrow> nat \<Rightarrow> nat \<Rightarrow> nat \<Rightarrow> funding_property_update \<Rightarrow> funding_property_row outcome \<times> funding_db" where
  "update_funding_property db i per funding req =
     (case (bindE (verify_funding_period db per funding) (\<lambda>_.
            bindE (verify_funding_property db i per) (\<lambda>x.
            bindE (new_text ''key'' (fp_key x) (fe_key req)) (\<lambda>key.
            bindE (new_text ''value'' (fp_value x) (fe_value req)) (\<lambda>val.
            bindE (new_text ''label'' (fp_label x) (fe_label req)) (\<lambda>lab.
            let y = updated_property x key val lab req
            in bindE (ensureE (case (fp_min_age y, fp_max_age y) of (Some a, Some b) \<Rightarrow> a < b | _ \<Rightarrow> True)
                 (bad_request ''max_age must be greater than min_age'')) (\<lambda>_.
               bindE (map_error (\<lambda>e. internal_wrap e ''failed to update property'') (save_funding_property db y)) (\<lambda>db'.
                 Inr (y, db')))))))))
      of Inl e \<Rightarrow> (Inl e, db) | Inr (x, db') \<Rightarrow> (Inr x, db'))"

definition delete_funding_property :: "funding_db \<Rightarrow> nat \<Rightarrow> nat \<Rightarrow> nat \<Rightarrow> unit outcome \<times> funding_db" where
  "delete_funding_property db i per funding =
     (case (bindE (verify_funding_period db per funding) (\<lambda>_. verify_funding_property db i per))
      of Inl e \<Rightarrow> (Inl e, db) | Inr _ \<Rightarrow> (Inr (), delete_funding_property_row db i))"

end
