(* ===== verification/FundingConfigLaws.thy ===== *)
theory FundingConfigLaws
  imports FundingConfig TableLaws
begin

text \<open>
  What requests on funding configurations keep: keys, one funding per state, references, required
  keys in normal form, properties that name a key and a value and no empty age range, and periods
  of a funding that share no day.
\<close>

section \<open>Requests\<close>

inductive funding_step :: "funding_db \<Rightarrow> funding_db \<Rightarrow> bool" where
  funding_created: "create_funding db name state = (x, db') \<Longrightarrow> funding_step db db'"
| funding_updated: "update_funding db i new_name = (x, db') \<Longrightarrow> funding_step db db'"
| funding_deleted: "delete_funding db i = (y, db') \<Longrightarrow> funding_step db db'"
| period_created: "create_funding_period db i preq = (p, db') \<Longrightarrow> funding_step db db'"
| period_updated: "update_funding_period db j i ureq = (p, db') \<Longrightarrow> funding_step db db'"
| period_deleted: "delete_funding_period db j i = (y, db') \<Longrightarrow> funding_step db db'"
| property_created: "create_funding_property db i j req = (z, db') \<Longrightarrow> funding_step db db'"
| property_updated: "update_funding_property db k j i ereq = (z, db') \<Longrightarrow> funding_step db db'"
| property_deleted: "delete_funding_property db k j i = (y, db') \<Longrightarrow> funding_step db db'"

section \<open>Changes of rows\<close>

definition required_ok :: "string list \<Rightarrow> bool" where
  "required_ok ks \<longleftrightarrow> distinct ks \<and> (\<forall>k \<in> set ks. name_ok k)"

definition age_range_ok :: "'a funding_property_scheme \<Rightarrow> bool" where
  "age_range_ok x \<longleftrightarrow> (\<forall>a b. fp_min_age x = Some a \<longrightarrow> fp_max_age x = Some b \<longrightarrow> a \<le> b)"

definition property_ok :: "'a funding_property_scheme \<Rightarrow> bool" where
  "property_ok x \<longleftrightarrow> name_ok (fp_key x) \<and> name_ok (fp_value x) \<and> age_range_ok x"

lemma normalize_loop_ok:
  "distinct (normalize_loop seen ks) \<and> set (normalize_loop seen ks) = {trim_space k |k. k \<in> set ks} - {[]} - set seen"
proof (induction seen ks rule: normalize_loop.induct)
  case (2 seen k ks)
  then show ?case by (cases "trim_space k = [] \<or> trim_space k \<in> set seen") (auto simp add: Let_def)
qed simp

lemma normalize_required_set:
  "set (normalize_required_keys ks) = {trim_space k |k. k \<in> set ks} - {[]}"
  using normalize_loop_ok [of "[]" ks] by (simp add: normalize_required_keys_def)

lemma normalize_required_ok: "required_ok (normalize_required_keys ks)"
proof -
  have "distinct (normalize_required_keys ks)"
    using normalize_loop_ok [of "[]" ks] by (simp add: normalize_required_keys_def)
  then show ?thesis by (auto simp add: required_ok_def normalize_required_set name_ok_def)
qed

lemma normalize_loop_id:
  "required_ok ks \<Longrightarrow> set ks \<inter> set seen = {} \<Longrightarrow> normalize_loop seen ks = ks"
  by (induction ks arbitrary: seen) (auto simp add: required_ok_def name_ok_def)

lemma normalize_required_id: "required_ok ks \<Longrightarrow> normalize_required_keys ks = ks"
  by (simp add: normalize_required_keys_def normalize_loop_id)

inductive funding_write :: "funding_db \<Rightarrow> funding_db \<Rightarrow> bool" where
  fw_new: "insert_funding db n st = Inr (r, db') \<Longrightarrow> name_ok n \<Longrightarrow> st \<in> set valid_states \<Longrightarrow> funding_write db db'"
| fw_rename: "save_funding db (r\<lparr>fr_name := n\<rparr>) = Inr db' \<Longrightarrow> find_funding db (fr_id r) = Inr r \<Longrightarrow>
    n = fr_name r \<or> name_ok n \<Longrightarrow> funding_write db db'"
| fw_drop: "funding_write db (delete_funding_row db i)"
| fw_period: "insert_funding_period db p = Inr (q, db') \<Longrightarrow> required_ok (fq_required p) \<Longrightarrow>
    (\<And>q. q \<in> set (periods_of_funding db (fq_funding p)) \<Longrightarrow>
      days (local_day (p_from p)) (day_opt (p_to p)) \<inter> period_days q = {}) \<Longrightarrow> funding_write db db'"
| fw_save_period: "save_funding_period db p' = Inr db' \<Longrightarrow> find_funding_period db (fq_id p') = Inr p \<Longrightarrow>
    fq_funding p' = fq_funding p \<Longrightarrow> fq_required p' = fq_required p \<or> required_ok (fq_required p') \<Longrightarrow>
    (\<And>q. q \<in> set (periods_of_funding db (fq_funding p)) \<Longrightarrow> fq_id q \<noteq> fq_id p \<Longrightarrow>
      days (local_day (p_from p')) (day_opt (p_to p')) \<inter> period_days q = {}) \<Longrightarrow> funding_write db db'"
| fw_drop_period: "funding_write db (delete_funding_period_row db i)"
| fw_property: "insert_funding_property db x = Inr (y, db') \<Longrightarrow> property_ok x \<Longrightarrow> funding_write db db'"
| fw_save_property: "save_funding_property db y = Inr db' \<Longrightarrow> find_funding_property db (fp_id y) = Inr x \<Longrightarrow>
    fx_period y = fx_period x \<Longrightarrow> (property_ok x \<Longrightarrow> property_ok y) \<Longrightarrow> funding_write db db'"
| fw_drop_property: "funding_write db (delete_funding_property_row db i)"

lemma find_funding_id: "find_funding db i = Inr r \<Longrightarrow> fr_id r = i \<and> r \<in> set (fd_fundings db)"
  by (auto simp add: find_funding_def find_Some_iff split: option.splits)

lemma find_funding_period_id: "find_funding_period db i = Inr p \<Longrightarrow> fq_id p = i \<and> p \<in> set (fd_periods db)"
  by (auto simp add: find_funding_period_def find_Some_iff split: option.splits)

lemma find_funding_property_id: "find_funding_property db i = Inr x \<Longrightarrow> fp_id x = i \<and> x \<in> set (fd_properties db)"
  by (auto simp add: find_funding_property_def find_Some_iff split: option.splits)

lemma verify_funding_period_Inr:
  "verify_funding_period db i funding = Inr p \<Longrightarrow> find_funding_period db i = Inr p \<and> fq_funding p = funding"
  by (auto simp add: verify_funding_period_def split: sum.splits if_splits)

lemma verify_funding_property_Inr:
  "verify_funding_property db i per = Inr x \<Longrightarrow> find_funding_property db i = Inr x \<and> fx_period x = per"
  by (auto simp add: verify_funding_property_def split: sum.splits if_splits)

lemma set_periods_of_funding [simp]: "set (periods_of_funding db i) = {p \<in> set (fd_periods db). fq_funding p = i}"
  by (simp add: periods_of_funding_def)

lemma no_funding_overlap_days:
  assumes "validate_funding_period_no_overlap db i f t x = Inr u" and "p \<in> set (periods_of_funding db i)"
    and "x \<noteq> Some (fq_id p)"
  shows "days (local_day f) (day_opt t) \<inter> period_days p = {}"
proof -
  have "(fq_id p, period.truncate p) \<in> set (map (\<lambda>p. (fq_id p, period.truncate p)) (periods_of_funding db i))"
    using assms(2) by auto
  then have "days (local_day f) (day_opt t) \<inter> period_days (period.truncate p) = {}"
    using assms(1,3) validate_no_overlap_sound unfolding validate_funding_period_no_overlap_def by blast
  then show ?thesis by (simp add: period_days_def period.defs)
qed

lemma not_blank_Inr [simp]: "not_blank what s = Inr u \<longleftrightarrow> trim_space s \<noteq> []"
  by (simp add: not_blank_def ensureE_eq_Inr)

lemma new_text_Inr: "new_text what old s = Inr t \<Longrightarrow> t = old \<or> name_ok t"
  by (auto simp add: new_text_def name_ok_def result_simps split: option.splits)

section \<open>Every request is at most one change of rows\<close>

lemma funding_row_changes:
  "create_funding db name state = (x, db') \<Longrightarrow> db' = db \<or> funding_write db db'"
  "update_funding db i new_name = (x, db') \<Longrightarrow> db' = db \<or> funding_write db db'"
proof -
  assume "create_funding db name state = (x, db')"
  then show "db' = db \<or> funding_write db db'" using validate_required_name_Inr fw_new
    by (fastforce simp add: create_funding_def result_simps split: sum.split_asm)
next
  assume u: "update_funding db i new_name = (x, db')"
  show "db' = db \<or> funding_write db db'"
  proof (cases "db' = db")
    case False
    then obtain r n where r: "find_funding db i = Inr r" "save_funding db (r\<lparr>fr_name := n\<rparr>) = Inr db'"
        "(case new_name of None \<Rightarrow> Inr (fr_name r)
          | Some n \<Rightarrow> if trim_space (trim_space n) = []
                      then Inl (bad_request ''name cannot be empty or whitespace only'') else Inr (trim_space n)) = Inr n"
      using u by (auto simp only: update_funding_def result_simps Let_def map_error_Inr prod.inject sum.inject
          split: sum.split_asm prod.split_asm)
    have "n = fr_name r \<or> name_ok n" using r(3) by (auto simp add: name_ok_def split: option.split_asm if_split_asm)
    then show ?thesis using find_funding_id [OF r(1)] r(1,2) by (auto intro: fw_rename)
  qed simp
qed

lemma period_row_changes:
  "create_funding_period db i preq = (p, db') \<Longrightarrow> db' = db \<or> funding_write db db'"
  "update_funding_period db j i ureq = (p, db') \<Longrightarrow> db' = db \<or> funding_write db db'"
proof -
  assume c: "create_funding_period db i preq = (p, db')"
  show "db' = db \<or> funding_write db db'"
  proof (cases "db' = db")
    case False
    then obtain q where q: "validate_funding_period_no_overlap db i (fc_from preq) (fc_to preq) None = Inr ()"
        "insert_funding_period db (requested_period i preq) = Inr (q, db')"
      using c by (auto simp add: create_funding_period_def result_simps split: sum.split_asm)
    have "funding_write db db'" using no_funding_overlap_days [OF q(1)]
      by (intro fw_period [OF q(2)]) (simp_all add: requested_period_def normalize_required_ok)
    then show ?thesis ..
  qed simp
next
  assume u: "update_funding_period db j i ureq = (p, db')"
  show "db' = db \<or> funding_write db db'"
  proof (cases "db' = db")
    case False
    then obtain q where q: "verify_funding_period db j i = Inr q"
        "validate_funding_period_no_overlap db (fq_funding q) (p_from (updated_period q ureq)) (p_to (updated_period q ureq)) (Some j) = Inr ()"
        "save_funding_period db (updated_period q ureq) = Inr db'"
      using u by (auto simp add: update_funding_period_def result_simps Let_def split: sum.split_asm)
    note f = verify_funding_period_Inr [OF q(1)]
    have j: "fq_id q = j" using f find_funding_period_id by blast
    have "funding_write db db'" using no_funding_overlap_days [OF q(2)] f j normalize_required_ok
      by (intro fw_save_period [OF q(3), of q]) (auto simp add: updated_period_def split: option.splits)
    then show ?thesis ..
  qed simp
qed

lemma property_row_changes:
  "create_funding_property db i j req = (z, db') \<Longrightarrow> db' = db \<or> funding_write db db'"
  "update_funding_property db k j i ereq = (z, db') \<Longrightarrow> db' = db \<or> funding_write db db'"
proof -
  assume c: "create_funding_property db i j req = (z, db')"
  show "db' = db \<or> funding_write db db'"
  proof (cases "db' = db")
    case False
    let ?x = "req\<lparr>fx_period := j, fp_key := trim_space (fp_key req), fp_value := trim_space (fp_value req),
                        fp_label := trim_space (fp_label req), fx_comment := trim_space (fx_comment req)\<rparr>"
    obtain y where y: "insert_funding_property db ?x = Inr (y, db')" "trim_space (fp_key req) \<noteq> []" "trim_space (fp_value req) \<noteq> []"
        "case (fp_min_age req, fp_max_age req) of (Some a, Some b) \<Rightarrow> a \<le> b | _ \<Rightarrow> True"
      using c False by (auto simp add: create_funding_property_def result_simps Let_def split: sum.split_asm)
    have "property_ok ?x" using y by (auto simp add: property_ok_def name_ok_def age_range_ok_def)
    then show ?thesis using fw_property [OF y(1)] by simp
  qed simp
next
  assume u: "update_funding_property db k j i ereq = (z, db')"
  show "db' = db \<or> funding_write db db'"
  proof (cases "db' = db")
    case False
    then obtain x key val lab y where v: "verify_funding_property db k j = Inr x"
        and t: "new_text ''key'' (fp_key x) (fe_key ereq) = Inr key" "new_text ''value'' (fp_value x) (fe_value ereq) = Inr val"
          "new_text ''label'' (fp_label x) (fe_label ereq) = Inr lab"
        and y: "y = updated_property x key val lab ereq"
        and g: "case (fp_min_age y, fp_max_age y) of (Some a, Some b) \<Rightarrow> a < b | _ \<Rightarrow> True"
        and s: "save_funding_property db y = Inr db'"
      using u by (auto simp add: update_funding_property_def result_simps Let_def simp del: prod.case option.case
          split: sum.split_asm prod.split_asm)
    have "age_range_ok y" using g by (auto simp add: age_range_ok_def)
    moreover have "fp_key y = fp_key x \<or> name_ok (fp_key y)" "fp_value y = fp_value x \<or> name_ok (fp_value y)"
      using t(1,2) new_text_Inr by (fastforce simp add: y updated_property_def)+
    moreover note x = v s
    moreover have "fp_id y = fp_id x" "fx_period y = fx_period x" by (simp_all add: y updated_property_def)
    ultimately have "funding_write db db'" using verify_funding_property_Inr [OF v] find_funding_property_id
      by (intro fw_save_property [OF s, of x]) (auto simp add: property_ok_def)
    then show ?thesis ..
  qed simp
qed

lemma funding_step_writes: "funding_step db db' \<Longrightarrow> db' = db \<or> funding_write db db'"
  by (induction rule: funding_step.induct)
    (erule funding_row_changes period_row_changes property_row_changes
      | (auto simp add: delete_funding_def delete_funding_period_def delete_funding_property_def
          intro: fw_drop fw_drop_period fw_drop_property split: sum.split_asm)[1])+

section \<open>What a change leaves\<close>

lemma insert_funding_Inr:
  "insert_funding db n st = Inr (r, db') \<Longrightarrow>
    r = \<lparr>fr_id = fd_next_funding db, fr_name = n, fr_state = st\<rparr> \<and> st \<notin> fr_state ` set (fd_fundings db) \<and>
    db' = db\<lparr>fd_fundings := fd_fundings db @ [r], fd_next_funding := Suc (fd_next_funding db)\<rparr>"
  by (auto simp add: insert_funding_def result_simps Let_def)

lemma save_funding_Inr:
  "save_funding db r = Inr db' \<Longrightarrow>
    db' = db\<lparr>fd_fundings := map (\<lambda>s. if fr_id s = fr_id r then r else s) (fd_fundings db)\<rparr>"
  by (auto simp add: save_funding_def result_simps)

lemma stored_dates_simps [simp]:
  "fq_id (stored_dates p) = fq_id p" "fq_funding (stored_dates p) = fq_funding p"
  "fq_required (stored_dates p) = fq_required p" "fq_hours (stored_dates p) = fq_hours p"
  "local_day (p_from (stored_dates p)) = local_day (p_from p)" "day_opt (p_to (stored_dates p)) = day_opt (p_to p)"
  "p_from (stored_dates p) = midnight (local_day (p_from p))"
  "p_to (stored_dates p) = map_option midnight (day_opt (p_to p))"
  by (simp_all add: stored_dates_def)

lemma insert_funding_period_Inr:
  "insert_funding_period db p = Inr (q, db') \<Longrightarrow>
    q = p\<lparr>fq_id := fd_next_period db\<rparr> \<and> fq_funding p \<in> fr_id ` set (fd_fundings db) \<and>
    db' = db\<lparr>fd_periods := fd_periods db @ [stored_dates q], fd_next_period := Suc (fd_next_period db)\<rparr>"
  by (auto simp add: insert_funding_period_def result_simps Let_def)

lemma save_funding_period_Inr:
  "save_funding_period db p = Inr db' \<Longrightarrow>
    db' = db\<lparr>fd_periods := map (\<lambda>q. if fq_id q = fq_id (stored_dates p) then stored_dates p else q) (fd_periods db)\<rparr>"
  by (auto simp add: save_funding_period_def result_simps)

lemma insert_funding_property_Inr:
  "insert_funding_property db x = Inr (y, db') \<Longrightarrow>
    y = x\<lparr>fp_id := fd_next_property db\<rparr> \<and> fx_period x \<in> fq_id ` set (fd_periods db) \<and>
    db' = db\<lparr>fd_properties := fd_properties db @ [y], fd_next_property := Suc (fd_next_property db)\<rparr>"
  by (auto simp add: insert_funding_property_def result_simps Let_def)

lemma save_funding_property_Inr:
  "save_funding_property db x = Inr db' \<Longrightarrow>
    db' = db\<lparr>fd_properties := map (\<lambda>y. if fp_id y = fp_id x then x else y) (fd_properties db)\<rparr>"
  by (auto simp add: save_funding_property_def result_simps)

lemmas funding_writes_Inr = insert_funding_Inr save_funding_Inr insert_funding_period_Inr
  save_funding_period_Inr insert_funding_property_Inr save_funding_property_Inr

section \<open>Rows\<close>

definition fundings_ok :: "funding_db \<Rightarrow> bool" where
  "fundings_ok db \<longleftrightarrow> distinct (map fr_id (fd_fundings db)) \<and> distinct (map fr_state (fd_fundings db)) \<and>
     (\<forall>r \<in> set (fd_fundings db). fr_id r < fd_next_funding db \<and> name_ok (fr_name r) \<and> fr_state r \<in> set valid_states)"

definition funding_period_ok :: "funding_period_row \<Rightarrow> bool" where
  "funding_period_ok p \<longleftrightarrow> p_from p = midnight (local_day (p_from p)) \<and>
     p_to p = map_option midnight (day_opt (p_to p)) \<and> required_ok (fq_required p)"

definition funding_periods_ok :: "funding_db \<Rightarrow> bool" where
  "funding_periods_ok db \<longleftrightarrow> distinct (map fq_id (fd_periods db)) \<and>
     (\<forall>p \<in> set (fd_periods db). fq_id p < fd_next_period db \<and> fq_funding p \<in> fr_id ` set (fd_fundings db) \<and> funding_period_ok p)"

definition funding_properties_ok :: "funding_db \<Rightarrow> bool" where
  "funding_properties_ok db \<longleftrightarrow> distinct (map fp_id (fd_properties db)) \<and>
     (\<forall>x \<in> set (fd_properties db). fp_id x < fd_next_property db \<and> fx_period x \<in> fq_id ` set (fd_periods db) \<and> property_ok x)"

definition funding_rows_ok :: "funding_db \<Rightarrow> bool" where
  "funding_rows_ok db \<longleftrightarrow> fundings_ok db \<and> funding_periods_ok db \<and> funding_properties_ok db"

lemma write_fundings_ok:
  assumes "funding_write db db'" and "fundings_ok db"
  shows "fundings_ok db'"
  using assms
proof (cases rule: funding_write.cases)
  case (fw_new n st r)
  then show ?thesis using assms(2) insert_funding_Inr [OF fw_new(1)] by (auto simp add: fundings_ok_def less_Suc_eq)
next
  case (fw_rename n r)
  let ?r = "r\<lparr>fr_name := n\<rparr>"
  note w = save_funding_Inr [OF fw_rename(1)] and r = find_funding_id [OF fw_rename(2)]
  have same: "fr_state s = fr_state r" if "s \<in> set (fd_fundings db)" "fr_id s = fr_id r" for s
    using assms(2) that r by (auto simp add: fundings_ok_def distinct_map dest: inj_onD)
  have st: "map fr_state (fd_fundings db') = map fr_state (fd_fundings db)"
    and ids: "map fr_id (fd_fundings db') = map fr_id (fd_fundings db)" using same by (auto simp add: w)
  moreover have "fr_id s < fd_next_funding db \<and> name_ok (fr_name s) \<and> fr_state s \<in> set valid_states"
    if "s \<in> set (fd_fundings db')" for s
  proof -
    from that consider "s = ?r" | "s \<in> set (fd_fundings db)" by (auto simp add: w split: if_splits)
    then show ?thesis using assms(2) r fw_rename(3) by cases (auto simp add: fundings_ok_def)
  qed
  moreover have "fd_next_funding db' = fd_next_funding db" by (simp add: w)
  ultimately show ?thesis using assms(2) by (simp add: fundings_ok_def)
qed (auto simp add: fundings_ok_def delete_funding_row_def delete_funding_period_row_def delete_funding_property_row_def
    distinct_map_filter dest!: funding_writes_Inr)

lemma write_funding_periods_ok:
  assumes "funding_write db db'" and "funding_periods_ok db"
  shows "funding_periods_ok db'"
  using assms
proof (cases rule: funding_write.cases)
  case (fw_new n st r)
  then show ?thesis using assms(2) insert_funding_Inr [OF fw_new(1)] by (auto simp add: funding_periods_ok_def)
next
  case (fw_rename n r)
  have "map fr_id (fd_fundings db') = map fr_id (fd_fundings db)"
    using save_funding_Inr [OF fw_rename(1)] by simp
  then have "fr_id ` set (fd_fundings db') = fr_id ` set (fd_fundings db)" by (metis set_map)
  then show ?thesis using assms(2) save_funding_Inr [OF fw_rename(1)] by (simp add: funding_periods_ok_def)
next
  case (fw_period p q)
  note w = insert_funding_period_Inr [OF fw_period(1)]
  have "fd_next_period db \<notin> fq_id ` set (fd_periods db)" using assms(2) by (auto simp add: funding_periods_ok_def)
  then show ?thesis using assms(2) w fw_period(2) by (auto simp add: funding_periods_ok_def funding_period_ok_def less_Suc_eq)
next
  case (fw_save_period p' p)
  note w = save_funding_period_Inr [OF fw_save_period(1)] and p = find_funding_period_id [OF fw_save_period(2)]
  have ids: "map fq_id (fd_periods db') = map fq_id (fd_periods db)" by (simp add: w)
  have rest: "fd_next_period db' = fd_next_period db" "fd_fundings db' = fd_fundings db" by (simp_all add: w)
  have "fq_id q < fd_next_period db \<and> fq_funding q \<in> fr_id ` set (fd_fundings db) \<and> funding_period_ok q"
    if "q \<in> set (fd_periods db')" for q
  proof -
    from that consider "q = stored_dates p'" | "q \<in> set (fd_periods db)" by (auto simp add: w split: if_splits)
    then show ?thesis using assms(2) p fw_save_period(3,4)
      by cases (auto simp add: funding_periods_ok_def funding_period_ok_def)
  qed
  then show ?thesis using assms(2) unfolding funding_periods_ok_def ids rest by blast
qed (auto simp add: funding_periods_ok_def delete_funding_row_def delete_funding_period_row_def
    delete_funding_property_row_def distinct_map_filter dest!: funding_writes_Inr)

lemma write_funding_properties_ok:
  assumes "funding_write db db'" and "funding_properties_ok db"
  shows "funding_properties_ok db'"
  using assms
proof (cases rule: funding_write.cases)
  case (fw_save_period p' p)
  note w = save_funding_period_Inr [OF fw_save_period(1)]
  have "map fq_id (fd_periods db') = map fq_id (fd_periods db)" by (simp add: w)
  then have "fq_id ` set (fd_periods db') = fq_id ` set (fd_periods db)" by (metis set_map)
  then show ?thesis using assms(2) w by (simp add: funding_properties_ok_def)
next
  case (fw_property x y)
  note w = insert_funding_property_Inr [OF fw_property(1)]
  have "fd_next_property db \<notin> fp_id ` set (fd_properties db)" using assms(2) by (auto simp add: funding_properties_ok_def)
  then show ?thesis using assms(2) w fw_property(2)
    by (auto simp add: funding_properties_ok_def property_ok_def age_range_ok_def less_Suc_eq)
next
  case (fw_save_property y x)
  note w = save_funding_property_Inr [OF fw_save_property(1)] and x = find_funding_property_id [OF fw_save_property(2)]
  have ids: "map fp_id (fd_properties db') = map fp_id (fd_properties db)" by (simp add: w)
  have rest: "fd_next_property db' = fd_next_property db" "fd_periods db' = fd_periods db" by (simp_all add: w)
  have "fp_id z < fd_next_property db \<and> fx_period z \<in> fq_id ` set (fd_periods db) \<and> property_ok z"
    if "z \<in> set (fd_properties db')" for z
  proof -
    from that consider "z = y" | "z \<in> set (fd_properties db)" by (auto simp add: w split: if_splits)
    then show ?thesis
    proof cases
      case 1
      have "fp_id x < fd_next_property db \<and> fx_period x \<in> fq_id ` set (fd_periods db) \<and> property_ok x"
        using assms(2) x unfolding funding_properties_ok_def by blast
      then show ?thesis using 1 x fw_save_property(3,4) by simp
    qed (use assms(2) in \<open>simp add: funding_properties_ok_def\<close>)
  qed
  then show ?thesis using assms(2) unfolding funding_properties_ok_def ids rest by blast
qed (auto simp add: funding_properties_ok_def delete_funding_row_def delete_funding_period_row_def
    delete_funding_property_row_def distinct_map_filter dest!: funding_writes_Inr)

lemma write_funding_rows_ok: "funding_write db db' \<Longrightarrow> funding_rows_ok db \<Longrightarrow> funding_rows_ok db'"
  by (simp add: funding_rows_ok_def write_fundings_ok write_funding_periods_ok write_funding_properties_ok)

section \<open>Periods as spans\<close>

definition funding_span :: "funding_period_row \<Rightarrow> span" where
  "funding_span p = \<lparr>sp_id = fq_id p, sp_owner = fq_funding p, sp_from = local_day (p_from p), sp_to = day_opt (p_to p)\<rparr>"

definition funding_spans :: "funding_db \<Rightarrow> span_table" where
  "funding_spans db = (fd_next_period db, map funding_span (fd_periods db))"

lemma funding_span_simps [simp]:
  "sp_id (funding_span p) = fq_id p" "sp_owner (funding_span p) = fq_funding p"
  "span_days (funding_span p) = period_days p"
  by (simp_all add: funding_span_def span_days_def period_days_def)

lemma funding_span_stored: "funding_span (stored_dates p) = funding_span p"
  by (simp add: funding_span_def)

lemma write_funding_spans:
  assumes "funding_write db db'" and "spans_ok (funding_spans db)"
  shows "span_change\<^sup>*\<^sup>* (funding_spans db) (funding_spans db')"
  using assms
proof (cases rule: funding_write.cases)
  case (fw_drop i)
  have "funding_spans db' = (fst (funding_spans db), filter (\<lambda>s. sp_owner s \<noteq> i) (snd (funding_spans db)))"
    by (simp add: fw_drop funding_spans_def delete_funding_row_def filter_map comp_def)
  then show ?thesis using span_removed by (simp add: funding_spans_def r_into_rtranclp)
next
  case (fw_drop_period i)
  have "funding_spans db' = (fst (funding_spans db), filter (\<lambda>s. sp_id s \<noteq> i) (snd (funding_spans db)))"
    by (simp add: fw_drop_period funding_spans_def delete_funding_period_row_def filter_map comp_def)
  then show ?thesis using span_removed by (simp add: funding_spans_def r_into_rtranclp)
next
  case (fw_period p q)
  note w = insert_funding_period_Inr [OF fw_period(1)]
  have e: "funding_spans db' = (Suc (fd_next_period db), map funding_span (fd_periods db) @
      [\<lparr>sp_id = fd_next_period db, sp_owner = fq_funding p, sp_from = local_day (p_from p), sp_to = day_opt (p_to p)\<rparr>])"
    by (simp add: w funding_spans_def funding_span_stored) (simp add: funding_span_def)
  have "days (local_day (p_from p)) (day_opt (p_to p)) \<inter> span_days s = {}"
    if s: "s \<in> set (map funding_span (fd_periods db))" "sp_owner s = fq_funding p" for s
  proof -
    obtain r where "s = funding_span r" "r \<in> set (periods_of_funding db (fq_funding p))" using s by auto
    then show ?thesis using fw_period(3) [of r] by simp
  qed
  then have "span_change (funding_spans db) (funding_spans db')"
    unfolding e funding_spans_def [of db] by (rule span_added)
  then show ?thesis by blast
next
  case (fw_save_period p' p)
  note w = save_funding_period_Inr [OF fw_save_period(1)] and p = find_funding_period_id [OF fw_save_period(2)]
  let ?move = "move_span (fq_id p') (local_day (p_from p')) (day_opt (p_to p'))"
  have only: "q = p" if "q \<in> set (fd_periods db)" "fq_id q = fq_id p'" for q
  proof -
    have "inj_on fq_id (set (fd_periods db))" using assms(2) by (simp add: spans_ok_def funding_spans_def distinct_map comp_def)
    then show ?thesis using that p by (metis inj_onD)
  qed
  have "funding_span (if fq_id q = fq_id p' then stored_dates p' else q) = ?move (funding_span q)"
    if "q \<in> set (fd_periods db)" for q
    using only [OF that] fw_save_period(3) by (auto simp add: funding_span_stored) (auto simp add: funding_span_def move_span_def)
  then have e: "funding_spans db' = (fd_next_period db, map ?move (map funding_span (fd_periods db)))"
    by (simp add: funding_spans_def w)
  have "span_change (funding_spans db) (funding_spans db')"
    unfolding e funding_spans_def [of db]
  proof (rule span_moved [where w = "fq_funding p"])
    show "sp_owner s = fq_funding p" if "s \<in> set (map funding_span (fd_periods db))" "sp_id s = fq_id p'" for s
      using that only by auto
    show "days (local_day (p_from p')) (day_opt (p_to p')) \<inter> span_days s = {}"
      if s: "s \<in> set (map funding_span (fd_periods db))" "sp_owner s = fq_funding p" "sp_id s \<noteq> fq_id p'" for s
    proof -
      obtain r where "s = funding_span r" "r \<in> set (periods_of_funding db (fq_funding p))" "fq_id r \<noteq> fq_id p"
        using s p by auto
      then show ?thesis using fw_save_period(5) [of r] by simp
    qed
  qed
  then show ?thesis by blast
qed (auto simp add: funding_spans_def delete_funding_property_row_def dest!: funding_writes_Inr)

interpretation fundings: span_keeper funding_step funding_rows_ok funding_spans
  by unfold_locales (use funding_step_writes write_funding_rows_ok write_funding_spans in blast)+

end
