(* ===== verification/FundingConfigTheorems.thy ===== *)
theory FundingConfigTheorems
  imports FundingConfigLaws FundingLaws ChildContracts
begin

text \<open>
  Properties of funding configurations: the funding of a state on a day is unambiguous, new child
  contracts carry what the configuration requires, and a property for a single year of age cannot
  be edited.
\<close>

definition no_fundings :: funding_db where
  "no_fundings = \<lparr>fd_fundings = [], fd_periods = [], fd_properties = [], fd_next_funding = 1, fd_next_period = 1,
     fd_next_property = 1\<rparr>"

abbreviation funding_reachable :: "funding_db \<Rightarrow> bool" where
  "funding_reachable \<equiv> funding_step\<^sup>*\<^sup>* no_fundings"

lemma funding_reachable_ok:
  assumes "funding_reachable db"
  shows "funding_rows_ok db" and "spans_ok (funding_spans db)"
proof -
  have "funding_rows_ok no_fundings" "spans_ok (funding_spans no_fundings)"
    by (simp_all add: no_fundings_def funding_rows_ok_def fundings_ok_def funding_periods_ok_def
        funding_properties_ok_def spans_ok_def funding_spans_def)
  then show "funding_rows_ok db" and "spans_ok (funding_spans db)" using fundings.reachable_ok [OF assms] by blast+
qed

section \<open>The period of a day\<close>

lemma one_funding_period_per_day:
  assumes "funding_reachable db" and "p \<in> set (fd_periods db)" and "q \<in> set (fd_periods db)"
    and "fq_funding p = fq_funding q" and "d \<in> period_days p" and "d \<in> period_days q"
  shows "p = q"
proof -
  have "funding_span p = funding_span q"
    using assms funding_reachable_ok(2) [OF assms(1)]
    by (intro one_span_per_day [of "funding_spans db" _ _ d]) (auto simp add: funding_spans_def)
  then have "fq_id p = fq_id q" by (metis funding_span_simps(1))
  moreover have "distinct (map fq_id (fd_periods db))"
    using funding_reachable_ok(1) [OF assms(1)] by (simp add: funding_rows_ok_def funding_periods_ok_def)
  ultimately show ?thesis using assms(2,3) by (metis distinct_map inj_onD)
qed

lemma find_period_for_date_unique:
  assumes "\<And>p q. p \<in> set ps \<Longrightarrow> q \<in> set ps \<Longrightarrow> local_day d \<in> period_days p \<Longrightarrow> local_day d \<in> period_days q \<Longrightarrow> p = q"
  shows "find_period_for_date ps d = Some q \<longleftrightarrow> q \<in> set ps \<and> local_day d \<in> period_days q"
  using assms by (induction ps) (auto simp add: is_active_on_days)

lemma find_period_for_date_None:
  "find_period_for_date ps d = None \<longleftrightarrow> (\<forall>q \<in> set ps. local_day d \<notin> period_days q)"
  by (induction ps) (auto simp add: is_active_on_days)

lemma load_funding_period_days [simp]: "period_days (load_funding_period collate db p) = period_days p"
  by (simp add: load_funding_period_def period_days_def)

lemma set_loaded_periods:
  "set (load_funding_periods collate db i 0 None) =
    load_funding_period collate db ` {p \<in> set (fd_periods db). fq_funding p = i}"
  by (simp add: load_funding_periods_def)

lemma set_properties_of_period [simp]:
  "set (properties_of_period collate db i) = {x \<in> set (fd_properties db). fx_period x = i}"
  by (auto simp add: properties_of_period_def Let_def)

lemma get_funding_by_state_Inr:
  "get_funding_by_state collate db st = Inr ps \<longleftrightarrow>
    (\<exists>r. find (\<lambda>r. fr_state r = st) (fd_fundings db) = Some r \<and> ps = load_funding_periods collate db (fr_id r) 0 None)"
  by (auto simp add: get_funding_by_state_def find_funding_by_state_def result_simps split: option.split)

lemma find_state_iff:
  assumes "funding_reachable db"
  shows "find (\<lambda>r. fr_state r = st) (fd_fundings db) = Some r \<longleftrightarrow> r \<in> set (fd_fundings db) \<and> fr_state r = st"
proof
  assume "r \<in> set (fd_fundings db) \<and> fr_state r = st"
  then show "find (\<lambda>r. fr_state r = st) (fd_fundings db) = Some r"
    using funding_reachable_ok(1) [OF assms] set_find_key [of fr_state "fd_fundings db" r]
    by (simp add: funding_rows_ok_def fundings_ok_def)
qed (auto simp add: find_Some_iff)

lemma configured_period:
  assumes "funding_reachable db" and "get_funding_by_state collate db st = Inr ps"
  shows "find_period_for_date ps d = Some q \<longleftrightarrow>
      (\<exists>r \<in> set (fd_fundings db). \<exists>p \<in> set (fd_periods db). fr_state r = st \<and> fq_funding p = fr_id r \<and>
         local_day d \<in> period_days p \<and> q = load_funding_period collate db p)"
    and "find_period_for_date ps d = None \<longleftrightarrow>
      (\<forall>r \<in> set (fd_fundings db). \<forall>p \<in> set (fd_periods db). fr_state r = st \<and> fq_funding p = fr_id r \<longrightarrow>
         local_day d \<notin> period_days p)"
proof -
  obtain r where r: "find (\<lambda>r. fr_state r = st) (fd_fundings db) = Some r"
      and ps: "ps = load_funding_periods collate db (fr_id r) 0 None"
    using assms(2) by (auto simp add: get_funding_by_state_Inr)
  have only: "s \<in> set (fd_fundings db) \<and> fr_state s = st \<longleftrightarrow> s = r" for s
    using r find_state_iff [OF assms(1), of st] by (metis option.inject)
  note m = set_loaded_periods [of collate db "fr_id r", folded ps]
  have same: "load_funding_period collate db p = load_funding_period collate db q"
    if "p \<in> set (fd_periods db)" "q \<in> set (fd_periods db)" "fq_funding p = fr_id r" "fq_funding q = fr_id r"
      "local_day d \<in> period_days p" "local_day d \<in> period_days q" for p q
    using one_funding_period_per_day [OF assms(1) that(1,2) _ that(5,6)] that(3,4) by simp
  have "find_period_for_date ps d = Some q \<longleftrightarrow> q \<in> set ps \<and> local_day d \<in> period_days q"
    by (intro find_period_for_date_unique) (auto simp add: m intro: same)
  moreover have "q \<in> set ps \<and> local_day d \<in> period_days q \<longleftrightarrow>
      (\<exists>p \<in> set (fd_periods db). fq_funding p = fr_id r \<and> local_day d \<in> period_days p \<and> q = load_funding_period collate db p)"
    by (auto simp add: m)
  ultimately show "find_period_for_date ps d = Some q \<longleftrightarrow>
      (\<exists>r \<in> set (fd_fundings db). \<exists>p \<in> set (fd_periods db). fr_state r = st \<and> fq_funding p = fr_id r \<and>
         local_day d \<in> period_days p \<and> q = load_funding_period collate db p)"
    using only by metis
  have "find_period_for_date ps d = None \<longleftrightarrow>
      (\<forall>p \<in> set (fd_periods db). fq_funding p = fr_id r \<longrightarrow> local_day d \<notin> period_days p)"
    by (auto simp add: find_period_for_date_None m)
  then show "find_period_for_date ps d = None \<longleftrightarrow>
      (\<forall>r \<in> set (fd_fundings db). \<forall>p \<in> set (fd_periods db). fr_state r = st \<and> fq_funding p = fr_id r \<longrightarrow>
         local_day d \<notin> period_days p)"
    using only by metis
qed

section \<open>Contracts under a configuration\<close>

text \<open>The lookup of the contract service, answered by these tables.\<close>

definition configured :: "(string \<Rightarrow> string) \<Rightarrow> funding_db \<Rightarrow> string \<Rightarrow> funding_period list option" where
  "configured collate db st = (case get_funding_by_state collate db st of Inl e \<Rightarrow> None | Inr ps \<Rightarrow> Some ps)"

lemma created_child_contract_valid:
  assumes "create_child_contract env t child org req = (Inr c, t')"
  shows "validate_contract_properties (c_props c) (funding_period_for_date env org (cr_from req)) [] = Inr ()"
proof -
  obtain p where "prepare_create_child env child org req = Inr p" "create_tx child (c_from p) (c_to p) p t = (Inr c, t')"
    using assms by (auto simp add: create_child_contract_def split: sum.split_asm)
  moreover from this(2) have "c_props c = c_props p"
    by (auto simp add: create_tx_def in_transaction_def create_contract_def Let_def result_simps apfst_def map_prod_def
        split: sum.split_asm prod.split_asm if_split_asm)
  ultimately show ?thesis by (auto simp add: prepare_create_child_def Let_def result_simps)
qed

section \<open>Ages\<close>

lemma equal_ages_refused:
  assumes "fe_min_age req = Some a" and "fe_max_age req = Some a"
  shows "\<exists>e. update_funding_property db i per funding req = (Inl e, db)"
proof -
  have "\<not> (case (fp_min_age (updated_property x k v l req), fp_max_age (updated_property x k v l req)) of
      (Some a, Some b) \<Rightarrow> a < b | _ \<Rightarrow> True)" for x k v l
    by (simp add: assms updated_property_def)
  then show ?thesis
    by (auto simp add: update_funding_property_def Let_def bindE_def simp del: prod.case option.case split: sum.split)
qed

lemma created_property_found:
  assumes "funding_reachable db" and "create_funding_property db funding per req = (Inr x, db')"
  shows "\<exists>p. verify_funding_period db' per funding = Inr p" and "verify_funding_property db' (fp_id x) per = Inr x"
proof -
  let ?y = "req\<lparr>fx_period := per, fp_key := trim_space (fp_key req), fp_value := trim_space (fp_value req),
      fp_label := trim_space (fp_label req), fx_comment := trim_space (fx_comment req)\<rparr>"
  obtain p where p: "verify_funding_period db per funding = Inr p" and i: "insert_funding_property db ?y = Inr (x, db')"
    using assms(2) by (auto simp add: create_funding_property_def result_simps Let_def split: sum.split_asm)
  note w = insert_funding_property_Inr [OF i]
  have "verify_funding_period db' per funding = Inr p"
    using p w by (simp add: verify_funding_period_def find_funding_period_def)
  then show "\<exists>p. verify_funding_period db' per funding = Inr p" ..
  have "z \<in> set (fd_properties db) \<Longrightarrow> fp_id z \<noteq> fd_next_property db" for z
    using funding_reachable_ok(1) [OF assms(1)] by (auto simp add: funding_rows_ok_def funding_properties_ok_def)
  then have "find (\<lambda>z. fp_id z = fd_next_property db) (fd_properties db) = None" by (auto simp add: find_None_iff)
  then show "verify_funding_property db' (fp_id x) per = Inr x"
    using w by (auto simp add: verify_funding_property_def find_funding_property_def find_append)
qed

section \<open>An example\<close>

definition demo_band :: funding_property_row where
  "demo_band = \<lparr>fp_id = 1, fp_key = ''care'', fp_value = ''full'', fp_label = ''Full'', fp_payment = 104332,
     fp_requirement = Fin 0, fp_min_age = Some 2, fp_max_age = Some 2, fp_apply_to_all = False, fx_period = 1, fx_comment = []\<rparr>"

definition demo_funding0 :: funding_db where
  "demo_funding0 = \<lparr>fd_fundings = [\<lparr>fr_id = 1, fr_name = ''Kita'', fr_state = ''berlin''\<rparr>],
     fd_periods = [\<lparr>p_from = midnight 737000, p_to = None, fq_id = 1, fq_funding = 1, fq_hours = Fin 39, fq_comment = [],
       fq_required = [''care'']\<rparr>],
     fd_properties = [], fd_next_funding = 2, fd_next_period = 2, fd_next_property = 1\<rparr>"

definition demo_funding :: funding_db where
  "demo_funding = demo_funding0\<lparr>fd_properties := [demo_band], fd_next_property := 2\<rparr>"

definition demo_contract :: child_create_request where
  "demo_contract = \<lparr>cr_from = midnight 738000, cr_to = None, cr_section = 1, cr_props = Some [(''care'', PString ''full'')]\<rparr>"

definition demo_child_env :: child_env where
  "demo_child_env = \<lparr>ce_children = (\<lambda>i. if i = 1 then Some (1, midnight 737500) else None),
     ce_sections = (\<lambda>i. if i = 1 then Some 1 else None), ce_org_state = (\<lambda>_. Some ''berlin''),
     ce_funding = configured id demo_funding\<rparr>"

lemma demo_funding_texts:
  "trim_space ''Kita'' = ''Kita''" "trim_space ''care'' = ''care''" "trim_space ''full'' = ''full''"
  "trim_space ''Full'' = ''Full''" "utf8_length ''Kita'' = 4" "utf8_length ''care'' = 4" "utf8_length ''full'' = 4"
  "utf8_length ''Full'' = 4" "utf8_length ''berlin'' = 6" "utf8_length [] = 0"
  by (simp_all add: trim_space_edge_plain edge_plain_def utf8_length_def)

lemma demo_band_created: "create_funding_property demo_funding0 1 1 demo_band = (Inr demo_band, demo_funding)"
  by (simp add: demo_funding_def demo_funding0_def demo_band_def create_funding_property_def verify_funding_period_def
      find_funding_period_def demo_funding_texts insert_funding_property_def property_checks_def in_int4_def varchar_def not_blank_def Let_def)

lemma demo_funding_reachable: "funding_reachable demo_funding0" "funding_reachable demo_funding"
proof -
  let ?f = "\<lparr>fr_id = 1, fr_name = ''Kita'', fr_state = ''berlin''\<rparr>"
  let ?db = "no_fundings\<lparr>fd_fundings := [?f], fd_next_funding := 2\<rparr>"
  have "create_funding no_fundings ''Kita'' ''berlin'' = (Inr ?f, ?db)"
    by (simp add: create_funding_def no_fundings_def validate_required_name_def Let_def demo_funding_texts
        valid_states_def insert_funding_def varchar_def)
  moreover have "create_funding_period ?db 1 \<lparr>fc_from = midnight 737000, fc_to = None, fc_hours = Fin 39, fc_comment = [],
      fc_required = [''care'']\<rparr> = (Inr (hd (fd_periods demo_funding0)), demo_funding0)"
    by (simp add: create_funding_period_def no_fundings_def find_funding_def validate_funding_period_no_overlap_def
        periods_of_funding_def insert_funding_period_def requested_period_def normalize_required_keys_def
        demo_funding_texts varchar_def stored_dates_def stored_period_def truncate_to_date_eq demo_funding0_def Let_def)
  ultimately show "funding_reachable demo_funding0"
    by (blast intro: rtranclp.intros funding_step.intros)
  then show "funding_reachable demo_funding" using demo_band_created
    by (blast intro: rtranclp.intros funding_step.intros)
qed

lemma demo_configured:
  "get_funding_by_state id demo_funding ''berlin'' = Inr [load_funding_period id demo_funding (hd (fd_periods demo_funding))]"
  by (simp add: get_funding_by_state_def find_funding_by_state_def demo_funding_def demo_funding0_def
      load_funding_periods_def periods_of_funding_def)

section \<open>Properties\<close>

text \<open>
  C36. Whatever requests were answered one after the other, there is one funding per state, every
  period has its required keys in normal form and every property a key, a value and a non-empty age
  range, and the period that the computations use for a day is the one row of the state's funding
  that covers the day, whatever the order in which the rows are read.
\<close>
lemma funding_of_a_state_is_unambiguous:
  assumes "funding_reachable db" and "get_funding_by_state collate db st = Inr ps"
  shows "funding_rows_ok db \<and>
    (find_period_for_date ps d = Some q \<longleftrightarrow>
      (\<exists>r \<in> set (fd_fundings db). \<exists>p \<in> set (fd_periods db). fr_state r = st \<and> fq_funding p = fr_id r \<and>
         local_day d \<in> period_days p \<and> q = load_funding_period collate db p)) \<and>
    (find_period_for_date ps d = None \<longleftrightarrow>
      (\<forall>r \<in> set (fd_fundings db). \<forall>p \<in> set (fd_periods db). fr_state r = st \<and> fq_funding p = fr_id r \<longrightarrow>
         local_day d \<notin> period_days p)) \<and>
    (local_day d \<in> period_days p \<and> local_day d \<in> period_days p' \<and> fq_funding p = fq_funding p' \<and>
      p \<in> set (fd_periods db) \<and> p' \<in> set (fd_periods db) \<longrightarrow> p = p')"
  using funding_reachable_ok(1) [OF assms(1)] configured_period [OF assms] one_funding_period_per_day [OF assms(1)] by blast

lemma funding_of_a_state_is_unambiguous_witness:
  "find_period_for_date [load_funding_period id demo_funding (hd (fd_periods demo_funding))] (midnight 738000) =
    Some (load_funding_period id demo_funding (hd (fd_periods demo_funding)))"
  using funding_of_a_state_is_unambiguous [OF demo_funding_reachable(2) demo_configured,
      of "midnight 738000" "load_funding_period id demo_funding (hd (fd_periods demo_funding))"]
  by (simp add: demo_funding_def demo_funding0_def period_days_def days_simps)

text \<open>
  C37. A child contract that is created on a day covered by a period of its state's funding has a
  value for every key that the period requires, and one single value for every key it has, with the
  automatic ones, for which some property of that very period has the same string \<open>key:value\<close>.
  When neither the key nor any key of the period contains a colon, the property has just that
  key and that value.
\<close>
lemma created_contracts_meet_the_configuration:
  assumes "funding_reachable db" and "ce_funding env = configured collate db"
    and "create_child_contract env t child org req = (Inr c, t')"
    and "r \<in> set (fd_fundings db)" and "ce_org_state env org = Some (fr_state r)"
    and "p \<in> set (fd_periods db)" and "fq_funding p = fr_id r" and "local_day (cr_from req) \<in> period_days p"
  shows "(\<forall>k \<in> set (fq_required p). get_all_values (c_props c) k \<noteq> []) \<and>
    (\<forall>k \<in> fst ` set (entries (c_props c)). \<exists>v. get_all_values (c_props c) k = [v] \<and>
       (\<exists>x \<in> set (fd_properties db). fx_period x = fq_id p \<and> kv_key k v = kv_key (fp_key x) (fp_value x)) \<and>
       (CHR '':'' \<notin> set k \<and> (\<forall>x \<in> set (fd_properties db). fx_period x = fq_id p \<longrightarrow> CHR '':'' \<notin> set (fp_key x)) \<longrightarrow>
         (\<exists>x \<in> set (fd_properties db). fx_period x = fq_id p \<and> fp_key x = k \<and> fp_value x = v)))"
proof -
  have st: "fr_state r \<noteq> []" using assms(4) funding_reachable_ok(1) [OF assms(1)]
    by (auto simp add: funding_rows_ok_def fundings_ok_def valid_states_def)
  have g: "get_funding_by_state collate db (fr_state r) = Inr (load_funding_periods collate db (fr_id r) 0 None)"
    using assms(4) by (auto simp add: get_funding_by_state_Inr find_state_iff [OF assms(1)])
  then have "find_period_for_date (load_funding_periods collate db (fr_id r) 0 None) (cr_from req) = Some (load_funding_period collate db p)"
    using configured_period(1) [OF assms(1) g] assms(4,6-8) by blast
  then have "funding_period_for_date env org (cr_from req) = Some (load_funding_period collate db p)"
    using g st assms(2,5) by (simp add: funding_period_for_date_def configured_def)
  then have v: "validate_contract_properties (c_props c) (Some (load_funding_period collate db p)) [] = Inr ()"
    using created_child_contract_valid [OF assms(3)] by simp
  have "fp_kv ` set (gp_properties (load_funding_period collate db p)) =
      {kv_key (fp_key x) (fp_value x) |x. x \<in> set (fd_properties db) \<and> fx_period x = fq_id p}"
    by (auto simp add: load_funding_period_def fp_kv_def funding_property.defs image_image)
  moreover have "gp_required_keys (load_funding_period collate db p) = fq_required p" by (simp add: load_funding_period_def)
  ultimately have req: "\<forall>k \<in> set (fq_required p). get_all_values (c_props c) k \<noteq> []"
    and vals: "\<forall>k \<in> fst ` set (entries (c_props c)). \<exists>v. get_all_values (c_props c) k = [v] \<and>
      (\<exists>x \<in> set (fd_properties db). fx_period x = fq_id p \<and> kv_key k v = kv_key (fp_key x) (fp_value x))"
    using v by (simp_all add: validate_contract_properties_Inr) blast
  have "fp_key x = k \<and> fp_value x = v" if "kv_key k v = kv_key (fp_key x) (fp_value x)" "CHR '':'' \<notin> set k"
    "CHR '':'' \<notin> set (fp_key x)" for k v and x :: funding_property_row
    using that kv_key_inject [of k "fp_key x" v "fp_value x"] by simp
  with vals have "\<forall>k \<in> fst ` set (entries (c_props c)). \<exists>v. get_all_values (c_props c) k = [v] \<and>
      (\<exists>x \<in> set (fd_properties db). fx_period x = fq_id p \<and> kv_key k v = kv_key (fp_key x) (fp_value x)) \<and>
      (CHR '':'' \<notin> set k \<and> (\<forall>x \<in> set (fd_properties db). fx_period x = fq_id p \<longrightarrow> CHR '':'' \<notin> set (fp_key x)) \<longrightarrow>
        (\<exists>x \<in> set (fd_properties db). fx_period x = fq_id p \<and> fp_key x = k \<and> fp_value x = v))"
    by blast
  with req show ?thesis by blast
qed

lemma created_contracts_meet_the_configuration_witness:
  "\<exists>c t'. create_child_contract demo_child_env \<lparr>t_rows = [], t_next = 1\<rparr> 1 1 demo_contract = (Inr c, t') \<and>
    get_all_values (c_props c) ''care'' \<noteq> []"
proof -
  let ?p = "load_funding_period id demo_funding (hd (fd_periods demo_funding))"
  have "funding_period_for_date demo_child_env 1 (midnight 738000) = Some ?p"
    by (simp add: funding_period_for_date_def demo_child_env_def configured_def demo_configured is_active_on_days)
      (simp add: demo_funding_def demo_funding0_def period_days_def days_simps)
  moreover have "gp_properties ?p = [funding_property.truncate demo_band]" "gp_required_keys ?p = [''care'']"
    by (simp_all add: load_funding_period_def properties_of_period_def demo_funding_def demo_funding0_def demo_band_def
        funding_property.defs)
  moreover from this have "validate_contract_properties (Some [(''care'', PString ''full'')]) (Some ?p) [] = Inr ()"
    by (simp add: validate_contract_properties_Inr entries_def get_all_values_def prop_lookup_def fp_kv_def demo_band_def
        funding_property.defs)
  ultimately have "\<exists>c. fst (create_child_contract demo_child_env \<lparr>t_rows = [], t_next = 1\<rparr> 1 1 demo_contract) = Inr c"
    by (simp add: create_child_contract_def prepare_create_child_def demo_contract_def merge_defaults_def
        auto_apply_properties_def entries_def funding_property.defs demo_band_def)
      (simp add: demo_child_env_def validate_period_400_def validate_period_def find_owner_def verify_org_ownership_def
        validate_dates_after_birthdate_def truncate_to_date_eq section_ok_def create_tx_def in_transaction_def
        validate_no_overlap_sql_def create_contract_def range_ok_def to_row_def to_day_def from_day_def Let_def)
  then obtain c t' where c: "create_child_contract demo_child_env \<lparr>t_rows = [], t_next = 1\<rparr> 1 1 demo_contract = (Inr c, t')"
    by (metis prod.collapse)
  have "ce_funding demo_child_env = configured id demo_funding" by (simp add: demo_child_env_def)
  from created_contracts_meet_the_configuration [OF demo_funding_reachable(2) this c,
      of "hd (fd_fundings demo_funding)" "hd (fd_periods demo_funding)"]
  show ?thesis using c
    by (simp add: demo_funding_def demo_funding0_def demo_child_env_def demo_contract_def period_days_def days_simps)
qed

text \<open>
  C38. A property for a single year of age can be created, but then no update that keeps its ages is
  accepted: the creation allows equal bounds, the update does not.
\<close>
lemma one_year_band_cannot_be_edited:
  assumes "funding_reachable db" and "create_funding_property db funding per preq = (Inr x, db')"
    and "fe_min_age req = Some a" and "fe_max_age req = Some a"
  shows "(\<exists>e. update_funding_property db' (fp_id x) per funding req = (Inl e, db')) \<and>
    (fe_key req = None \<and> fe_value req = None \<and> fe_label req = None \<longrightarrow>
      update_funding_property db' (fp_id x) per funding req =
        (Inl (bad_request ''max_age must be greater than min_age''), db'))"
proof (intro conjI impI)
  show "\<exists>e. update_funding_property db' (fp_id x) per funding req = (Inl e, db')" by (rule equal_ages_refused [OF assms(3,4)])
next
  assume k: "fe_key req = None \<and> fe_value req = None \<and> fe_label req = None"
  obtain p where "verify_funding_period db' per funding = Inr p" using created_property_found(1) [OF assms(1,2)] by blast
  then show "update_funding_property db' (fp_id x) per funding req =
      (Inl (bad_request ''max_age must be greater than min_age''), db')"
    using created_property_found(2) [OF assms(1,2)]
    by (simp add: update_funding_property_def new_text_def Let_def updated_property_def assms(3,4) k)
qed

lemma one_year_band_cannot_be_edited_witness:
  "create_funding_property demo_funding0 1 1 demo_band = (Inr demo_band, demo_funding) \<and>
    update_funding_property demo_funding 1 1 1 \<lparr>fe_key = None, fe_value = None, fe_label = None, fe_payment = Some 100000,
        fe_requirement = None, fe_min_age = Some 2, fe_max_age = Some 2, fe_comment = None, fe_apply_to_all = None\<rparr>
      = (Inl (bad_request ''max_age must be greater than min_age''), demo_funding)"
  using one_year_band_cannot_be_edited [OF demo_funding_reachable(1) demo_band_created] demo_band_created
  by (simp add: demo_band_def)

end
