(* ===== verification/StepPromotion.thy ===== *)
theory StepPromotion
  imports PayPlans Statistics
begin

text \<open>
  Step promotions: \<open>internal/service/step_promotion.go\<close> on the pay plans of \<open>PayPlans\<close> and the
  employees with all their contracts.
\<close>

section \<open>Years of service\<close>

text \<open>
  \<open>time.Time{}\<close> is the start of the year 1. A difference of instants is a \<open>Duration\<close>, which
  saturates, and \<open>Hours\<close> splits it into whole hours and a fraction, both towards zero.
\<close>

definition zero_time :: gtime where
  "zero_time = midnight (day_number 1 1 1)"

definition earliest_contract_start :: "employee_contract list \<Rightarrow> gtime" where
  "earliest_contract_start cs =
     (case cs of [] \<Rightarrow> zero_time
      | c # cs' \<Rightarrow> foldl (\<lambda>e c. if before (c_from c) e then c_from c else e) (c_from c) cs')"

definition duration_between :: "gtime \<Rightarrow> gtime \<Rightarrow> int" where
  "duration_between t u = max min_int (min max_int (instant t - instant u))"

definition ns_per_hour :: int where
  "ns_per_hour = 3600000000000"

definition duration_hours :: "int \<Rightarrow> f64" where
  "duration_hours d =
     (let h = sgn d * (\<bar>d\<bar> div ns_per_hour)
      in fadd (f64_of_int h) (fdiv (f64_of_int (d - h * ns_per_hour)) (f64_of_int ns_per_hour)))"

definition calculate_years_of_service :: "employee_contract list \<Rightarrow> gtime \<Rightarrow> f64" where
  "calculate_years_of_service cs as_of =
     (let start = earliest_contract_start cs
      in if equal_time start zero_time then Fin 0
         else let years = fdiv (duration_hours (duration_between as_of start)) (Fin 8766)
              in if fless years (Fin 0) then Fin 0 else years)"

definition determine_eligible_step :: "f64 \<Rightarrow> pay_plan_entry list \<Rightarrow> string \<Rightarrow> int" where
  "determine_eligible_step years es grade =
     foldl (\<lambda>best e.
         case pe_step_min_years e of
           None \<Rightarrow> best
         | Some y \<Rightarrow> if pe_grade e \<noteq> grade then best
                     else if fle (f64_of_int y) years \<and> best < pe_step e then pe_step e else best) 0 es"

section \<open>Promotions of an organization\<close>

text \<open>\<open>FindByOrganizationWithContracts\<close>: who has a contract on the day, with every contract.\<close>

definition employees_with_contracts :: "employee list \<Rightarrow> nat \<Rightarrow> gtime \<Rightarrow> employee list" where
  "employees_with_contracts ems org date =
     map (\<lambda>em. em\<lparr>em_contracts := sort_key (\<lambda>c. local_day (c_from c)) (em_contracts em)\<rparr>)
       (filter (\<lambda>em. pn_org em = org \<and>
           list_ex (\<lambda>c. sql_active_on (local_day (c_from c)) (day_opt (c_to c)) (local_day date)) (em_contracts em)) ems)"

record step_promotion =
  sp_employee :: nat
  sp_name :: string
  sp_current_step :: int
  sp_eligible_step :: int
  sp_years :: f64
  sp_start :: int
  sp_grade :: string
  sp_current_amount :: int
  sp_new_amount :: int
  sp_cost_delta :: int
  sp_plan :: nat
  sp_plan_name :: string

definition active_plan :: "payplan_db \<Rightarrow> gtime \<Rightarrow> nat \<Rightarrow> (pay_plan_period \<times> plan_row) option" where
  "active_plan db date i =
     (case (find_active_plan_period db i date, find_plan db i) of
        (Inr p, Inr r) \<Rightarrow> Some (p, r) | _ \<Rightarrow> None)"

text \<open>The amount of the last entry with the grade and step, or 0.\<close>

definition amount_of_step :: "int \<Rightarrow> pay_plan_period \<Rightarrow> employee_contract \<Rightarrow> int \<Rightarrow> int" where
  "amount_of_step wild p c step =
     foldl (\<lambda>a e. if pe_grade e = ec_grade c \<and> pe_step e = step
                  then int_of_f64 wild (fround (fdiv (fmul (f64_of_int (pe_monthly_amount e)) (ec_weekly_hours c)) (pp_weekly_hours p)))
                  else a) 0 (pp_entries p)"

definition step_cost_delta :: "int \<Rightarrow> pay_plan_period \<Rightarrow> int \<Rightarrow> int \<Rightarrow> int" where
  "step_cost_delta wild p current_amount new_amount =
     (let salary = s64 (new_amount - current_amount);
          contrib = int_of_f64 wild (fround (fdiv (fmul (f64_of_int salary) (f64_of_int (pp_contribution_rate p))) (Fin 10000)))
      in s64 (salary + contrib))"

definition promotion_of :: "int \<Rightarrow> payplan_db \<Rightarrow> gtime \<Rightarrow> employee \<Rightarrow> step_promotion option" where
  "promotion_of wild db date em =
     (case find (\<lambda>c. is_active_on (contract_period c) date) (em_contracts em) of
        None \<Rightarrow> None
      | Some c \<Rightarrow>
          (case active_plan db date (ec_pay_plan c) of
             None \<Rightarrow> None
           | Some (p, r) \<Rightarrow>
               (let years = calculate_years_of_service (em_contracts em) date;
                    eligible = determine_eligible_step years (pp_entries p) (ec_grade c);
                    current_amount = amount_of_step wild p c (ec_step c);
                    new_amount = amount_of_step wild p c eligible
                in if eligible \<le> ec_step c then None
                   else Some \<lparr>sp_employee = pn_id em, sp_name = pn_first_name em @ '' '' @ pn_last_name em,
                     sp_current_step = ec_step c, sp_eligible_step = eligible, sp_years = years,
                     sp_start = local_day (earliest_contract_start (em_contracts em)), sp_grade = ec_grade c,
                     sp_current_amount = current_amount, sp_new_amount = new_amount,
                     sp_cost_delta = step_cost_delta wild p current_amount new_amount,
                     sp_plan = ec_pay_plan c, sp_plan_name = pw_name r\<rparr>)))"

definition get_step_promotions ::
    "int \<Rightarrow> payplan_db \<Rightarrow> employee list \<Rightarrow> nat \<Rightarrow> gtime \<Rightarrow> int \<times> step_promotion list" where
  "get_step_promotions wild db ems org date =
     (let promotions = List.map_filter (promotion_of wild db date) (employees_with_contracts ems org date)
      in (foldl (\<lambda>total p. s64 (total + sp_cost_delta p)) 0 promotions, promotions))"

end
