(* ===== verification/StepPromotionTheorems.thy ===== *)
theory StepPromotionTheorems
  imports StepPromotion PayPlanTheorems
begin

text \<open>
  When a promotion is due, in whole days instead of floating-point years, and what the list of
  promotions holds.
\<close>

section \<open>Years in days\<close>





section \<open>The rule in days\<close>





section \<open>Service starts\<close>




section \<open>The list of promotions\<close>






section \<open>An example\<close>






end
