(* ===== verification/Attendance.thy ===== *)
theory Attendance
  imports SqlTypes Strconv Properties ContractOps
begin

text \<open>
  Attendance of children: \<open>internal/service/attendance.go\<close>, the queries of
  \<open>internal/store/attendance.go\<close> and the constraints of migrations 000001 and 000014. The creation
  looks for a record of the day before it inserts one; the rows that look sees are an argument,
  since another request may commit in between. The update of a record is a single step here,
  although the code loads and saves it in separate statements.
\<close>

section \<open>Dates and times\<close>

text \<open>\<open>time.Parse("2006-01-02", s)\<close>: four digits, two and two, and a day the month has.\<close>

definition parse_date :: "string \<Rightarrow> gtime option" where
  "parse_date s =
     (if length s = 10 \<and> list_all (\<lambda>i. is_digit (s ! i)) [0, 1, 2, 3, 5, 6, 8, 9] \<and>
         s ! 4 = CHR ''-'' \<and> s ! 7 = CHR ''-'' then
        (let y = int (digits_value (take 4 s)); m = int (digits_value (take 2 (drop 5 s)));
             d = int (digits_value (drop 8 s))
         in if valid_civil y m d then Some (date_utc y m d) else None)
      else None)"

text \<open>A TIMESTAMPTZ keeps microseconds.\<close>

definition stored_time :: "gtime \<Rightarrow> gtime" where
  "stored_time t = \<lparr>instant = instant t div 1000 * 1000, zone = 0\<rparr>"

section \<open>The table\<close>

record attendance =
  at_id :: nat
  at_child :: nat
  at_org :: nat
  at_date :: gtime
  at_in :: "gtime option"
  at_out :: "gtime option"
  at_status :: string
  at_note :: string
  at_by :: "nat option"

text \<open>\<open>aw_children\<close> gives the organization of a child, \<open>aw_users\<close> the users there are.\<close>

record attendance_db =
  aw_rows :: "attendance list"
  aw_next :: nat
  aw_children :: "(nat \<times> nat) list"
  aw_users :: "nat list"

definition valid_statuses :: "string list" where
  "valid_statuses = [''present'', ''absent'', ''sick'', ''vacation'']"

definition stored_attendance :: "attendance \<Rightarrow> attendance" where
  "stored_attendance a = a\<lparr>at_date := midnight (local_day (at_date a)), at_in := map_option stored_time (at_in a),
     at_out := map_option stored_time (at_out a)\<rparr>"

definition attendance_checks :: "attendance_db \<Rightarrow> attendance \<Rightarrow> unit outcome" where
  "attendance_checks db a =
     bindE (varchar 20 (at_status a)) (\<lambda>_.
     bindE (varchar 500 (at_note a)) (\<lambda>_.
     bindE (ensureE (at_status a \<in> set valid_statuses) (PgError ''23514'')) (\<lambda>_.
     bindE (ensureE (\<not> list_ex (\<lambda>b. at_child b = at_child a \<and> local_day (at_date b) = local_day (at_date a) \<and> at_id b \<noteq> at_id a)
         (aw_rows db)) (PgError ''23505'')) (\<lambda>_.
       ensureE (at_child a \<in> fst ` set (aw_children db) \<and> (case at_by a of None \<Rightarrow> True | Some u \<Rightarrow> u \<in> set (aw_users db)))
         (PgError ''23503'')))))"

definition insert_attendance :: "attendance_db \<Rightarrow> attendance \<Rightarrow> (nat \<times> attendance_db) outcome" where
  "insert_attendance db a =
     (let n = aw_next db; b = a\<lparr>at_id := n\<rparr>
      in bindE (attendance_checks db b) (\<lambda>_.
           Inr (n, db\<lparr>aw_rows := aw_rows db @ [stored_attendance b], aw_next := Suc n\<rparr>)))"

definition save_attendance :: "attendance_db \<Rightarrow> attendance \<Rightarrow> attendance_db outcome" where
  "save_attendance db a =
     bindE (attendance_checks db a) (\<lambda>_.
       Inr (db\<lparr>aw_rows := map (\<lambda>b. if at_id b = at_id a then stored_attendance a else b) (aw_rows db)\<rparr>))"

definition find_attendance :: "attendance_db \<Rightarrow> nat \<Rightarrow> attendance outcome" where
  "find_attendance db i =
     (case find (\<lambda>a. at_id a = i) (aw_rows db) of None \<Rightarrow> Inl (StoreError StoreNotFound) | Some a \<Rightarrow> Inr a)"

definition find_by_child_and_date :: "attendance list \<Rightarrow> nat \<Rightarrow> gtime \<Rightarrow> attendance outcome" where
  "find_by_child_and_date seen child date =
     (case find (\<lambda>a. at_child a = child \<and> local_day (at_date a) = local_day date) seen of
        None \<Rightarrow> Inl (StoreError StoreNotFound) | Some a \<Rightarrow> Inr a)"

definition already_recorded :: "attendance list \<Rightarrow> nat \<Rightarrow> gtime \<Rightarrow> bool" where
  "already_recorded seen child date = (case find_by_child_and_date seen child date of Inl _ \<Rightarrow> False | Inr _ \<Rightarrow> True)"

definition delete_attendance_row :: "attendance_db \<Rightarrow> nat \<Rightarrow> attendance_db" where
  "delete_attendance_row db i = db\<lparr>aw_rows := filter (\<lambda>a. at_id a \<noteq> i) (aw_rows db)\<rparr>"

section \<open>Requests\<close>

definition verify_attendance_child :: "attendance_db \<Rightarrow> nat \<Rightarrow> nat \<Rightarrow> unit outcome" where
  "verify_attendance_child db child org =
     (case map_of (aw_children db) child of
        None \<Rightarrow> Inl (classify_store_error (StoreError StoreNotFound) ''child'')
      | Some o' \<Rightarrow> verify_org_ownership o' org ''child'')"

definition verify_attendance_ownership :: "attendance \<Rightarrow> nat \<Rightarrow> nat \<Rightarrow> unit outcome" where
  "verify_attendance_ownership a org child =
     bindE (verify_org_ownership (at_org a) org ''attendance record'') (\<lambda>_.
       if at_child a \<noteq> child then Inl (not_found ''attendance record'') else Inr ())"

definition load_attendance :: "attendance_db \<Rightarrow> nat \<Rightarrow> nat \<Rightarrow> nat \<Rightarrow> attendance outcome" where
  "load_attendance db i org child =
     (case find_attendance db i of
        Inl e \<Rightarrow> Inl (classify_store_error e ''attendance record'')
      | Inr a \<Rightarrow> bindE (verify_attendance_ownership a org child) (\<lambda>_. Inr a))"

record attendance_create =
  ac_date :: string
  ac_status :: string
  ac_check_in :: "gtime option"
  ac_note :: string

definition bad_date :: go_error where
  "bad_date = bad_request ''invalid date format, expected YYYY-MM-DD''"

text \<open>
  The date and the check-in time: for a child that is present they default to \<open>this_day\<close> and \<open>now\<close>,
  otherwise the date is required and a time ignored.
\<close>

definition attendance_day :: "attendance_create \<Rightarrow> gtime \<Rightarrow> gtime \<Rightarrow> (gtime \<times> gtime option) outcome" where
  "attendance_day req now this_day =
     (if ac_status req = ''present'' then
        bindE (if ac_date req \<noteq> [] then (case parse_date (ac_date req) of None \<Rightarrow> Inl bad_date | Some d \<Rightarrow> Inr d)
               else Inr this_day) (\<lambda>d.
          Inr (d, Some (case ac_check_in req of Some t \<Rightarrow> t | None \<Rightarrow> now)))
      else if ac_date req = [] then Inl (bad_request ''date is required for non-present status'')
      else (case parse_date (ac_date req) of None \<Rightarrow> Inl bad_date | Some d \<Rightarrow> Inr (d, None)))"

definition create_attendance ::
    "attendance list \<Rightarrow> attendance_db \<Rightarrow> nat \<Rightarrow> nat \<Rightarrow> attendance_create \<Rightarrow> nat \<Rightarrow> gtime \<Rightarrow> gtime \<Rightarrow>
      attendance outcome \<times> attendance_db" where
  "create_attendance seen db org child req recorded_by now this_day =
     (case (bindE (verify_attendance_child db child org) (\<lambda>_.
            bindE (ensureE (ac_status req \<in> set valid_statuses)
                (bad_request ''invalid status, must be one of: present, absent, sick, vacation'')) (\<lambda>_.
            bindE (attendance_day req now this_day) (\<lambda>(date, check_in).
            bindE (ensureE (\<not> already_recorded seen child date)
                (conflict ''attendance record already exists for this child on this date'')) (\<lambda>_.
            bindE (map_error (\<lambda>e. internal_wrap e ''failed to create attendance record'')
                (insert_attendance db \<lparr>at_id = 0, at_child = child, at_org = org, at_date = date, at_in = check_in, at_out = None,
                   at_status = ac_status req, at_note = trim_space (ac_note req), at_by = Some recorded_by\<rparr>)) (\<lambda>(i, db').
            bindE (map_error (\<lambda>e. internal_wrap e ''failed to reload attendance record'') (find_attendance db' i)) (\<lambda>a.
              Inr (a, db'))))))))
      of Inl e \<Rightarrow> (Inl e, db) | Inr (a, db') \<Rightarrow> (Inr a, db'))"

record attendance_update =
  au_check_in :: "gtime opt"
  au_check_out :: "gtime opt"
  au_status :: "string option"
  au_note :: "string option"

text \<open>
  A status other than present clears both times, present fills in the check-in; a request that
  names no status sets whatever times it names.
\<close>

definition updated_attendance :: "attendance \<Rightarrow> attendance_update \<Rightarrow> gtime \<Rightarrow> attendance" where
  "updated_attendance a req now =
     (let a1 = a\<lparr>at_in := opt_assign (au_check_in req) (at_in a), at_out := opt_assign (au_check_out req) (at_out a)\<rparr>;
          a2 = (case au_status req of
                  None \<Rightarrow> a1
                | Some s \<Rightarrow>
                    if s = ''present'' then a1\<lparr>at_status := s, at_in := (case at_in a1 of None \<Rightarrow> Some now | Some t \<Rightarrow> Some t)\<rparr>
                    else a1\<lparr>at_status := s, at_in := None, at_out := None\<rparr>)
      in a2\<lparr>at_note := (case au_note req of None \<Rightarrow> at_note a | Some n \<Rightarrow> trim_space n)\<rparr>)"

definition times_ordered :: "attendance \<Rightarrow> bool" where
  "times_ordered a = (case (at_in a, at_out a) of (Some t, Some u) \<Rightarrow> before t u | _ \<Rightarrow> True)"

definition update_attendance ::
    "attendance_db \<Rightarrow> nat \<Rightarrow> nat \<Rightarrow> nat \<Rightarrow> attendance_update \<Rightarrow> gtime \<Rightarrow> attendance outcome \<times> attendance_db" where
  "update_attendance db i org child req now =
     (case (bindE (load_attendance db i org child) (\<lambda>a.
            bindE (ensureE (case au_status req of None \<Rightarrow> True | Some s \<Rightarrow> s \<in> set valid_statuses) (bad_request ''invalid status'')) (\<lambda>_.
            let b = updated_attendance a req now
            in bindE (ensureE (times_ordered b) (bad_request ''check-in time must be before check-out time'')) (\<lambda>_.
               bindE (map_error (\<lambda>e. internal_wrap e ''failed to update attendance record'') (save_attendance db b)) (\<lambda>db'.
                 Inr (b, db'))))))
      of Inl e \<Rightarrow> (Inl e, db) | Inr (a, db') \<Rightarrow> (Inr a, db'))"

definition delete_attendance :: "attendance_db \<Rightarrow> nat \<Rightarrow> nat \<Rightarrow> nat \<Rightarrow> unit outcome \<times> attendance_db" where
  "delete_attendance db i org child =
     (case load_attendance db i org child of
        Inl e \<Rightarrow> (Inl e, db) | Inr _ \<Rightarrow> (Inr (), delete_attendance_row db i))"

section \<open>Reports\<close>

definition list_attendance_by_child ::
    "attendance_db \<Rightarrow> nat \<Rightarrow> nat \<Rightarrow> gtime \<Rightarrow> gtime \<Rightarrow> nat \<Rightarrow> nat \<Rightarrow> (attendance list \<times> int) outcome" where
  "list_attendance_by_child db child org from to limit offset =
     bindE (verify_attendance_child db child org) (\<lambda>_.
       let rows = filter (\<lambda>a. at_child a = child \<and> local_day from \<le> local_day (at_date a) \<and>
                     local_day (at_date a) \<le> local_day to) (aw_rows db)
       in Inr (take limit (drop offset (sort_key (\<lambda>a. - local_day (at_date a)) rows)), int (length rows)))"

record daily_summary =
  ds_total :: int
  ds_present :: int
  ds_absent :: int
  ds_sick :: int
  ds_vacation :: int

definition rows_of_day :: "attendance_db \<Rightarrow> nat \<Rightarrow> gtime \<Rightarrow> attendance list" where
  "rows_of_day db org date = filter (\<lambda>a. at_org a = org \<and> local_day (at_date a) = local_day date) (aw_rows db)"

definition count_status :: "attendance list \<Rightarrow> string \<Rightarrow> int" where
  "count_status rows s = int (length (filter (\<lambda>a. at_status a = s) rows))"

definition get_daily_summary :: "attendance_db \<Rightarrow> nat \<Rightarrow> gtime \<Rightarrow> daily_summary" where
  "get_daily_summary db org date =
     (let rows = rows_of_day db org date
      in \<lparr>ds_total = int (length rows), ds_present = count_status rows ''present'', ds_absent = count_status rows ''absent'',
          ds_sick = count_status rows ''sick'', ds_vacation = count_status rows ''vacation''\<rparr>)"

end
