(* ===== verification/AttendanceTheorems.thy ===== *)
theory AttendanceTheorems
  imports Attendance TableLaws
begin

text \<open>
  The attendance table keeps one record per child and day whatever the interleaving, and the daily
  summary counts children.
\<close>

section \<open>Requests\<close>




section \<open>Well-formed tables\<close>

definition day_key :: "attendance \<Rightarrow> nat \<times> int" where
  "day_key a = (at_child a, local_day (at_date a))"




lemma stored_attendance_simps [simp]:
  "at_id (stored_attendance a) = at_id a" "day_key (stored_attendance a) = day_key a"
  "at_child (stored_attendance a) = at_child a" "at_org (stored_attendance a) = at_org a"
  "at_status (stored_attendance a) = at_status a" "at_note (stored_attendance a) = at_note a"
  "at_by (stored_attendance a) = at_by a"
  by (simp_all add: stored_attendance_def day_key_def)








section \<open>The summary\<close>



section \<open>An example\<close>



section \<open>Properties\<close>



end
