(* ===== verification/Spec2Isabelle.thy ===== *)
theory Spec2Isabelle
  imports ContractTheorems StatisticsLaws BillTheorems BillUploadTheorems AccountTheorems
    PayPlanTheorems BudgetTheorems FundingConfigTheorems StepPromotionTheorems AttendanceTheorems
begin

text \<open>
  A verification library of KitaManager, the administration of child-care centres: the Go
  backend under \<open>src/internal\<close>. The library follows the services: a service reads and writes
  PostgreSQL tables through stores and answers with a value or an error. The HTTP handlers in
  front of them only decode requests and encode answers.

  \<^bold>\<open>Conventions.\<close> A table is the list of its rows, in order of insertion, with the next key of
  its sequence. An operation takes the tables and returns its answer with the tables it
  leaves; a fallible one returns \<open>go_error + 'a\<close>, so that every early return of the source is a
  branch. The current instant, random bytes and everything a third-party package computes are
  arguments. Go's \<open>int\<close> and \<open>int64\<close> are HOL integers with the wrap-around \<open>s64\<close> written out
  where sums are formed; \<open>float64\<close> is binary64 arithmetic with rounding (\<open>Float64\<close>). Instants
  carry their zone offset, since dates are cut off in it. Names are those of the source in
  snake case, with a suffix where HOL has the name already.

  \<^bold>\<open>Foundations.\<close>
  \<^item> \<open>KitaPrelude\<close>: sequencing of fallible code, 64-bit arithmetic, pieces of \<open>strings\<close>,
    \<open>strconv\<close> and \<open>slices\<close>, the collections \<open>result_simps\<close> and \<open>go_defs\<close>.
  \<^item> \<open>AppError\<close> (\<open>apperror/errors.go\<close>, \<open>store/errors.go\<close>): sentinels, \<open>errors.Is\<close> and \<open>errors.As\<close>
    along wrapped errors, the status an error is answered with.
  \<^item> \<open>Calendar\<close>, \<open>Periods\<close> (\<open>models/period.go\<close>, \<open>models/clock.go\<close>, \<open>validation\<close>,
    \<open>store/period.go\<close>): \<open>time.Date\<close> and \<open>AddDate\<close> with their normalisation, truncation, inclusive
    periods, the overlap tests in Go and in SQL, shown to decide whether two sets of days meet.
  \<^item> \<open>Properties\<close> (\<open>models/contract.go\<close>, \<open>models/optional.go\<close>): property maps, three-valued
    request fields.

  \<^bold>\<open>Contracts.\<close> \<open>ContractStore\<close> is the contract table of children and of employees
  (\<open>store/child.go\<close>, \<open>employee.go\<close>, \<open>period.go\<close>, \<open>transactor.go\<close>): optimistic locking by version,
  the exclusion constraint checked at commit, roll-back. \<open>ContractOps\<close> has the transactions both
  services share (\<open>service/contract_intent.go\<close>, \<open>contract_amend.go\<close>), \<open>ChildContracts\<close> and
  \<open>EmployeeContracts\<close> the services. An operation gets the table it loaded its contract from
  and the table its transaction runs on as different arguments, so an interleaving is a
  sequence of operations with stale loads. \<open>ContractLaws\<close> proves what the transaction shapes
  guarantee, the locale \<open>guarded_service\<close> of \<open>ContractServices\<close> states it once for a service,
  with an interpretation for each of the two, and \<open>ContractTheorems\<close> draws the conclusions:
  stored contracts of one owner never overlap, no update is lost (only a delete without a
  version may take a contract that was changed since), an error changes nothing, when exactly a
  correction succeeds and what it stores, how an amendment splits the days of a contract and what
  it does to the properties of the one it closes, that boundary moves keep the covered days.

  \<^bold>\<open>Funding and statistics.\<close> \<open>Funding\<close> is the age rule, the matching of funding properties and
  the validation of contract properties (\<open>service/child_funding.go\<close>,
  \<open>child_contract_properties.go\<close>); \<open>FundingLaws\<close> characterises what matches and what is
  accepted: pairs of key and value are told apart by their string \<open>key:value\<close>, so the statements
  are about that string, and about the pairs where no key contains a colon. \<open>PayCost\<close> is the salary
  computation on \<open>Float64\<close>, within a cent for hours from \<open>2 ^ -20\<close> on (the service accepts smaller
  ones). \<open>Months\<close> is the requested range (at most 72 months; the loop over months ends
  because adding a month moves forward), \<open>Statistics\<close> the calculators of \<open>service/calculate.go\<close>,
  and \<open>StatisticsLaws\<close> shows that breakdowns add up to totals, that results do not depend on
  the order of rows, and that nothing is left out silently.

  \<^bold>\<open>Authentication.\<close> \<open>MfaStore\<close> has the tables (\<open>store/factor.go\<close>, \<open>session.go\<close>, parts of
  \<open>user.go\<close> and \<open>audit.go\<close>), \<open>BackupCodes\<close> the recovery codes, \<open>Mfa\<close> the second factors
  (\<open>service/factor.go\<close>), \<open>Login\<close> the two-step login and sessions (\<open>service/auth.go\<close>) with the
  step relation \<open>auth_reachable\<close>. \<open>MfaLaws\<close>, \<open>MfaSteps\<close>, \<open>MfaCodes\<close>, \<open>MfaPolicy\<close>,
  \<open>MfaSessions\<close> and \<open>MfaInvariant\<close> go from single operations to invariants of every reachable
  state; \<open>MfaTheorems\<close> states the policy on factors, the step-up, that codes are not
  replayed, and where sessions come from.

  \<^bold>\<open>Accounts.\<close> \<open>AccountStore\<close> has the tables of users, memberships, organizations and sections
  (\<open>store/user.go\<close>, \<open>user_organization.go\<close>, with the tables of \<open>MfaStore\<close> inside), \<open>Rbac\<close> the seeded
  policies, the permission service and the middlewares in front of the routes (\<open>rbac\<close>,
  \<open>middleware/authorization.go\<close>), \<open>Users\<close> and \<open>Organizations\<close> the services. \<open>AccountSteps\<close> is one
  step relation for every route behind its middleware, \<open>AccountLaws\<close> what each step may change
  and the invariants of all of them, together with those of the sign-in routes of \<open>Login\<close>;
  \<open>AccountTheorems\<close> states that the installation keeps a usable superadmin, that its tables stay
  well formed, and whose rows a request may change.

  \<^bold>\<open>Pay plans, budget and funding configuration.\<close> \<open>PeriodTables\<close> is the abstract table of dated rows in which no two
  rows of an owner share a day, with the locale \<open>span_keeper\<close> for every component whose requests
  amount to changes of such a table. \<open>PayPlans\<close> (\<open>service/payplan.go\<close>, \<open>store/payplan.go\<close>) has plans,
  periods and entries, the import and the natural order of grades; \<open>PayPlanSteps\<close> and \<open>PayPlanLaws\<close>
  interpret the locale for periods of a plan, \<open>PayPlanImport\<close> shows what an import stores and reads
  back. The periods of a plan have no exclusion constraint, so these statements are about requests
  that run one after the other. \<open>BudgetItems\<close> (\<open>service/budget_item.go\<close>, \<open>store/budget_item.go\<close>) does
  have one, so there the rows an overlap check saw are arbitrary; \<open>BudgetLaws\<close> interprets the locale
  for the entries of an item. \<open>FundingConfig\<close> (\<open>service/government_funding.go\<close>,
  \<open>store/government_funding.go\<close>) administers what \<open>Funding\<close> computes with; \<open>FundingConfigLaws\<close>
  interprets the locale for the periods of a funding, and \<open>FundingConfigTheorems\<close> links the stored
  configuration with the funding period of a day and with the contracts that are created under
  it. \<open>SqlTypes\<close>, \<open>Trimming\<close> and \<open>TableLaws\<close> hold what both need of column
  types, \<open>strings.TrimSpace\<close> and keyed tables. The properties are in \<open>PayPlanTheorems\<close>,
  \<open>BudgetTheorems\<close> and \<open>FundingConfigTheorems\<close>.

  \<^bold>\<open>Promotions and attendance.\<close> \<open>StepPromotion\<close> (\<open>service/step_promotion.go\<close>) computes on the pay
  plans which employees are due for a step; \<open>StepPromotionTheorems\<close> shows that its floating-point
  years agree with a rule in whole days. \<open>Attendance\<close> (\<open>service/attendance.go\<close>,
  \<open>store/attendance.go\<close>) has the daily records of children, with arbitrary rows seen by the look
  before an insert; \<open>AttendanceTheorems\<close> shows one record per child and day and what the daily
  summary counts.

  \<^bold>\<open>Funding bills.\<close> \<open>Isbj\<close> converts a settlement of the senate (\<open>isbj/convert.go\<close> and the value
  parsers of \<open>parse.go\<close>, \<open>parse_korrektur.go\<close>); the readers of the spreadsheet are represented by
  their results (\<open>workbook\<close>). \<open>BillStore\<close> has the tables of bills and vouchers, \<open>BillUpload\<close>
  upload, reading, deletion and the assignment of vouchers, \<open>BillCompare\<close>, \<open>BillSummary\<close> and
  \<open>BillHistory\<close> the comparison with the computed funding
  (\<open>service/government_funding_bill.go\<close>). \<open>BillLaws\<close>, \<open>BillRows\<close> and \<open>BillHistoryLaws\<close> account for
  every payment through merging, comparison and summary; \<open>BillUploadLaws\<close> and \<open>BillTables\<close> do so
  from the workbook to the stored rows, with the step relation \<open>bill_step\<close>, its invariant
  \<open>tables_ok\<close> and the voucher table as a partial map. The properties are in
  \<open>BillTheorems\<close> and \<open>BillUploadTheorems\<close>.

  \<^bold>\<open>Concurrency.\<close> Contract requests take the table they loaded from as an argument of its own, and
  creating budget entries and attendance records take the rows their check saw, so these
  statements hold under any interleaving. All other requests are single steps that run one after
  the other. In the source their transactions, or the single statements of those that use none,
  can interleave: the update of a budget item counts entries and saves, the update of an attendance
  record loads and saves, creating a period of a pay plan or of a funding checks and inserts, and a
  sign-in reads and writes in several statements. Statements about these are about sequences of
  requests.

  \<^bold>\<open>Bounds.\<close> No definition needs fuel: every loop of the modelled code is structural or has a
  measure, and functions are total. Sums are exact modulo \<open>2 ^ 64\<close>, as in Go; where a
  statement holds for machine integers only, it says so (\<open>in_s64\<close>).

  \<^bold>\<open>Not modelled.\<close> Failures of the database driver and contexts that are cancelled; audit
  records, except those that lockouts count; paged lists and the JSON encoding; the readers
  and writers of spreadsheets, bcrypt, AES-GCM and WebAuthn, which are third-party packages
  and appear as arguments; the records of persons, the endpoints that load the inputs of the statistics and
  the forecast; handlers and middleware other than authorization; the ranking of suggestions for unmatched rows; generated API
  documentation, seed data, configuration and email.
\<close>

end
